(* ===== verification/Prelude.thy ===== *)
theory Prelude
  imports Main "HOL-Library.Word" "HOL-Library.Signed_Division"
begin

text \<open>
  Shared vocabulary of the development: the machine word of the modelled target, the error
  codes of the library, the result type in which every early return, assertion and
  undefined operation of the C code is a value, and generic lemmas on results, lists and
  words.

  The modelled target is x86-64 (\<open>unw_word_t\<close> is \<open>uint64_t\<close>) on a little-endian host.
\<close>

unbundle bit_operations_syntax

type_synonym unw_word = "64 word"

section \<open>Error codes and results\<close>

text \<open>The enumeration \<open>unw_error_t\<close> without \<open>UNW_ESUCCESS\<close>, which is a success.\<close>

datatype unw_error =
    UNW_EUNSPEC | UNW_ENOMEM | UNW_EBADREG | UNW_EREADONLYREG | UNW_ESTOPUNWIND
  | UNW_EINVALIDIP | UNW_EBADFRAME | UNW_EINVAL | UNW_EBADVERSION | UNW_ENOINFO

primrec unw_error_code :: "unw_error \<Rightarrow> int" where
  "unw_error_code UNW_EUNSPEC = 1"
| "unw_error_code UNW_ENOMEM = 2"
| "unw_error_code UNW_EBADREG = 3"
| "unw_error_code UNW_EREADONLYREG = 4"
| "unw_error_code UNW_ESTOPUNWIND = 5"
| "unw_error_code UNW_EINVALIDIP = 6"
| "unw_error_code UNW_EBADFRAME = 7"
| "unw_error_code UNW_EINVAL = 8"
| "unw_error_code UNW_EBADVERSION = 9"
| "unw_error_code UNW_ENOINFO = 10"

text \<open>
  Why an operation does not return a value: it returns a negative error code, it calls
  \<open>abort\<close> (or fails an \<open>assert\<close>), or it executes an operation that C leaves undefined:
  an array access out of bounds, a shift by the width of the type or more, a division that
  traps; or a loop of it does not end.
\<close>

datatype fault =
    Err unw_error
  | Aborted
  | Out_of_bounds
  | Bad_shift
  | Bad_div
  | Diverged

type_synonym 'a res = "fault + 'a"

definition rbind :: "'a res \<Rightarrow> ('a \<Rightarrow> 'b res) \<Rightarrow> 'b res" where
  "rbind m f = (case m of Inl e \<Rightarrow> Inl e | Inr x \<Rightarrow> f x)"

text \<open>The result of a loop defined as a partial function, where \<open>None\<close> means that it runs for ever.\<close>

definition returns :: "'a res option \<Rightarrow> 'a res" where
  "returns r = (case r of None \<Rightarrow> Inl Diverged | Some x \<Rightarrow> x)"

text \<open>The answer of a client callback, which fails with an error code only.\<close>

definition lift_acc :: "unw_error + 'a \<Rightarrow> 'a res" where
  "lift_acc r = (case r of Inl e \<Rightarrow> Inl (Err e) | Inr x \<Rightarrow> Inr x)"

text \<open>A guarded early return.\<close>

definition check :: "bool \<Rightarrow> fault \<Rightarrow> unit res" where
  "check b e = (if b then Inr () else Inl e)"

named_theorems res_iff "when a composed result is a value or a fault"

lemma rbind_simps [simp]: "rbind (Inl e) f = Inl e" "rbind (Inr x) f = f x"
  by (simp_all add: rbind_def)

lemma rbind_assoc [simp]: "rbind (rbind m f) g = rbind m (\<lambda>x. rbind (f x) g)"
  by (cases m) simp_all

lemma rbind_cong [fundef_cong]:
  "m = m' \<Longrightarrow> (\<And>x. m' = Inr x \<Longrightarrow> f x = g x) \<Longrightarrow> rbind m f = rbind m' g"
  by (cases m') simp_all

lemma rbind_eq_Inr [res_iff]: "rbind m f = Inr y \<longleftrightarrow> (\<exists>x. m = Inr x \<and> f x = Inr y)"
  by (cases m) simp_all

lemma rbind_eq_Inl [res_iff]:
  "rbind m f = Inl e \<longleftrightarrow> m = Inl e \<or> (\<exists>x. m = Inr x \<and> f x = Inl e)"
  by (cases m) simp_all

lemma returns_simps [simp]: "returns None = Inl Diverged" "returns (Some x) = x"
  by (simp_all add: returns_def)

lemma lift_acc_simps [simp]: "lift_acc (Inl e) = Inl (Err e)" "lift_acc (Inr x) = Inr x"
  by (simp_all add: lift_acc_def)

lemma lift_acc_eq_Inr [res_iff]: "lift_acc r = Inr x \<longleftrightarrow> r = Inr x"
  by (cases r) simp_all

lemma lift_acc_eq_Inl [res_iff]: "lift_acc r = Inl f \<longleftrightarrow> (\<exists>e. r = Inl e \<and> f = Err e)"
  by (cases r) auto

lemma check_simps [simp]: "check True e = Inr ()" "check False e = Inl e"
  by (simp_all add: check_def)

lemma check_eq_Inr [res_iff]: "check b e = Inr u \<longleftrightarrow> b"
  by (simp add: check_def)

lemma check_eq_Inl [res_iff]: "check b e = Inl f \<longleftrightarrow> \<not> b \<and> f = e"
  by (auto simp: check_def)

text \<open>A result is safe when it does not access memory out of bounds.\<close>

definition in_bounds :: "'a res \<Rightarrow> bool" where
  "in_bounds r \<longleftrightarrow> r \<noteq> Inl Out_of_bounds"

lemma in_bounds_simps [simp]:
  "in_bounds (Inr x)" "in_bounds (Inl f) \<longleftrightarrow> f \<noteq> Out_of_bounds"
  by (simp_all add: in_bounds_def)

lemma in_bounds_rbind:
  "in_bounds m \<Longrightarrow> (\<And>x. m = Inr x \<Longrightarrow> in_bounds (f x)) \<Longrightarrow> in_bounds (rbind m f)"
  by (cases m) (simp_all add: in_bounds_def)

lemma in_bounds_lift_acc [simp]: "in_bounds (lift_acc r)"
  by (cases r) simp_all

lemma in_bounds_check: "e \<noteq> Out_of_bounds \<Longrightarrow> in_bounds (check b e)"
  by (simp add: check_def)

text \<open>The error of an operation as a value, for an operation that goes on after it.\<close>

definition attempt :: "'a res \<Rightarrow> (unw_error + 'a) res" where
  "attempt r = (case r of Inl (Err e) \<Rightarrow> Inr (Inl e) | Inl f \<Rightarrow> Inl f | Inr x \<Rightarrow> Inr (Inr x))"

lemma attempt_simps [simp]:
  "attempt (Inl (Err e)) = Inr (Inl e)" "attempt (Inr x) = Inr (Inr x)"
  "attempt (Inl Aborted) = Inl Aborted" "attempt (Inl Out_of_bounds) = Inl Out_of_bounds"
  "attempt (Inl Diverged) = Inl Diverged" "attempt (Inl Bad_shift) = Inl Bad_shift"
  "attempt (Inl Bad_div) = Inl Bad_div"
  by (simp_all add: attempt_def)

section \<open>Loops\<close>

text \<open>A loop without a condition: its body goes on with a state or ends with a result.\<close>

partial_function (option) iterate :: "('s \<Rightarrow> ('s + 'r) res) \<Rightarrow> 's \<Rightarrow> 'r res option"
where
  "iterate body s =
     (case body s of
        Inl e \<Rightarrow> Some (Inl e)
      | Inr (Inr r) \<Rightarrow> Some (Inr r)
      | Inr (Inl s') \<Rightarrow> iterate body s')"

declare iterate.simps [simp del]

lemma iterate_next: "body s = Inr (Inl s') \<Longrightarrow> iterate body s = iterate body s'"
  by (subst iterate.simps) simp

lemma iterate_end: "body s = Inr (Inr r) \<Longrightarrow> iterate body s = Some (Inr r)"
  by (subst iterate.simps) simp

text \<open>A state that the body leads to itself is never left.\<close>

lemma iterate_forever:
  assumes "body s = Inr (Inl s)" shows "iterate body s = None"
proof -
  have "False" if "iterate body' s' = Some r" "body' = body" "s' = s" for body' s' r
    using that
  proof (induction rule: iterate.raw_induct [rotated, consumes 1])
    case (1 loop b t q)
    then show ?case using assms by auto
  qed
  then show ?thesis by (cases "iterate body s") auto
qed

lemma iterate_steps:
  assumes "\<And>j s. j < k \<Longrightarrow> P j s \<Longrightarrow> \<exists>s'. body s = Inr (Inl s') \<and> P (Suc j) s'" and "P 0 s"
  shows "\<exists>s'. iterate body s = iterate body s' \<and> P k s'"
  using assms(1)
proof (induction k)
  case 0
  then show ?case using assms(2) by auto
next
  case (Suc k)
  then obtain s1 where s1: "iterate body s = iterate body s1" "P k s1" by (metis less_Suc_eq)
  then obtain s2 where "body s1 = Inr (Inl s2)" "P (Suc k) s2" using Suc.prems [of k s1] by auto
  then show ?case using s1(1) iterate_next by metis
qed

section \<open>Lists\<close>

text \<open>A checked read and write of a C array held in a list.\<close>

definition arr_get :: "'a list \<Rightarrow> nat \<Rightarrow> 'a res" where
  "arr_get xs i = (if i < length xs then Inr (xs ! i) else Inl Out_of_bounds)"

definition arr_set :: "'a list \<Rightarrow> nat \<Rightarrow> 'a \<Rightarrow> 'a list res" where
  "arr_set xs i x = (if i < length xs then Inr (xs[i := x]) else Inl Out_of_bounds)"

lemma arr_get_in [simp]: "i < length xs \<Longrightarrow> arr_get xs i = Inr (xs ! i)"
  by (simp add: arr_get_def)

lemma arr_set_in [simp]: "i < length xs \<Longrightarrow> arr_set xs i x = Inr (xs[i := x])"
  by (simp add: arr_set_def)

lemma arr_get_eq_Inr [res_iff]: "arr_get xs i = Inr x \<longleftrightarrow> i < length xs \<and> xs ! i = x"
  by (simp add: arr_get_def)

lemma arr_set_eq_Inr [res_iff]: "arr_set xs i x = Inr ys \<longleftrightarrow> i < length xs \<and> ys = xs[i := x]"
  by (auto simp: arr_set_def)

section \<open>Words\<close>

lemma less_eq_63_cases_8:
  fixes n :: nat
  assumes "n < 8"
  shows "n = 0 \<or> n = 1 \<or> n = 2 \<or> n = 3 \<or> n = 4 \<or> n = 5 \<or> n = 6 \<or> n = 7"
  using assms by arith

lemma word_add_of_nat_less:
  fixes a :: "'a::len word"
  assumes "unat a + n < 2 ^ LENGTH('a)"
  shows "unat (a + of_nat n) = unat a + n"
  using assms by (simp add: unat_word_ariths unat_of_nat)

text \<open>A small signed number that is not zero is not the zero word.\<close>

lemma word_of_int_nonzero:
  assumes "- (2 ^ 63) \<le> d" and "d < 2 ^ 63" and "d \<noteq> 0"
  shows "(word_of_int d :: unw_word) \<noteq> 0"
proof
  assume "(word_of_int d :: unw_word) = 0"
  then obtain k where k: "d = 2 ^ 64 * k" by (auto simp: word_of_int_eq_0_iff)
  have "k < 1" "- 1 < k" using assms(1,2) unfolding k by simp_all
  then have "k = 0" by simp
  with k assms(3) show False by simp
qed

text \<open>The end of a region lies beyond every address inside it.\<close>

lemma inside:
  assumes "unat a + n \<le> unat e" and "k < n"
  shows "a + word_of_nat k < (e :: unw_word)"
proof -
  have "unat e < 2 ^ 64" using unsigned_less [of e, where ?'a = nat] by simp
  with assms have "unat (a + word_of_nat k) = unat a + k" by (intro word_add_of_nat_less) simp
  with assms show ?thesis by (simp add: word_less_nat_alt)
qed

lemma unat_inside:
  assumes "unat a + n \<le> unat (e :: unw_word)" and "k \<le> n"
  shows "unat (a + word_of_nat k :: unw_word) = unat a + k"
proof -
  have "unat e < 2 ^ 64" using unsigned_less [of e, where ?'a = nat] by simp
  with assms show ?thesis by (intro word_add_of_nat_less) simp
qed

text \<open>An address at most \<open>n\<close> bytes behind another.\<close>

definition near :: "unw_word \<Rightarrow> nat \<Rightarrow> unw_word \<Rightarrow> bool" where
  "near a n b \<longleftrightarrow> (\<exists>k. k \<le> n \<and> b = a + word_of_nat k)"

lemma near_refl [simp]: "near a n a"
  unfolding near_def by (rule exI [of _ 0]) simp

lemma near_trans:
  assumes "near a n b" and "near b m c" and "n + m \<le> l"
  shows "near a l c"
proof -
  obtain i j where "i \<le> n" "b = a + word_of_nat i" "j \<le> m" "c = b + word_of_nat j"
    using assms(1,2) by (auto simp: near_def)
  then show ?thesis
    unfolding near_def using assms(3) by (intro exI [of _ "i + j"]) (simp add: add.assoc)
qed

lemma near_mono:
  assumes "near a n b" and "n \<le> m"
  shows "near a m b"
  using near_trans [OF assms(1) near_refl [of b 0], of m] assms(2) by simp

end
