(* ===== verification/DwarfTypes.thy ===== *)
theory DwarfTypes
  imports Prelude
begin

text \<open>
  The data of \<open>include/dwarf.h\<close>: the enumerations of expression opcodes, call-frame
  opcodes and save rules with their byte codes, the pointer-encoding constants, and the
  structures for CIEs, procedure information, register states and save locations. A switch
  of the C code over an opcode byte is a case distinction over the constructor that the
  byte decodes to.
\<close>

section \<open>Expression opcodes\<close>

datatype dwarf_expr_op =
    DW_OP_addr | DW_OP_deref
  | DW_OP_const1u | DW_OP_const1s | DW_OP_const2u | DW_OP_const2s
  | DW_OP_const4u | DW_OP_const4s | DW_OP_const8u | DW_OP_const8s
  | DW_OP_constu | DW_OP_consts
  | DW_OP_dup | DW_OP_drop | DW_OP_over | DW_OP_pick | DW_OP_swap | DW_OP_rot | DW_OP_xderef
  | DW_OP_abs | DW_OP_and | DW_OP_div | DW_OP_minus | DW_OP_mod | DW_OP_mul | DW_OP_neg
  | DW_OP_not | DW_OP_or | DW_OP_plus | DW_OP_plus_uconst | DW_OP_shl | DW_OP_shr
  | DW_OP_shra | DW_OP_xor
  | DW_OP_skip | DW_OP_bra
  | DW_OP_eq | DW_OP_ge | DW_OP_gt | DW_OP_le | DW_OP_lt | DW_OP_ne
  | DW_OP_lit nat | DW_OP_reg nat | DW_OP_breg nat
  | DW_OP_regx | DW_OP_fbreg | DW_OP_bregx | DW_OP_piece | DW_OP_deref_size
  | DW_OP_xderef_size | DW_OP_nop | DW_OP_push_object_address
  | DW_OP_call2 | DW_OP_call4 | DW_OP_call_ref
  | DW_OP_unlisted "8 word"

text \<open>The opcodes below \<open>DW_OP_lit0\<close> and from \<open>DW_OP_regx\<close> on, by their codes.\<close>

definition dwarf_expr_op_low :: "8 word \<Rightarrow> dwarf_expr_op" where
  "dwarf_expr_op_low b =
    (if b = 0x03 then DW_OP_addr else if b = 0x06 then DW_OP_deref
     else if b = 0x08 then DW_OP_const1u else if b = 0x09 then DW_OP_const1s
     else if b = 0x0a then DW_OP_const2u else if b = 0x0b then DW_OP_const2s
     else if b = 0x0c then DW_OP_const4u else if b = 0x0d then DW_OP_const4s
     else if b = 0x0e then DW_OP_const8u else if b = 0x0f then DW_OP_const8s
     else if b = 0x10 then DW_OP_constu else if b = 0x11 then DW_OP_consts
     else if b = 0x12 then DW_OP_dup else if b = 0x13 then DW_OP_drop
     else if b = 0x14 then DW_OP_over else if b = 0x15 then DW_OP_pick
     else if b = 0x16 then DW_OP_swap else if b = 0x17 then DW_OP_rot
     else if b = 0x18 then DW_OP_xderef else if b = 0x19 then DW_OP_abs
     else if b = 0x1a then DW_OP_and else if b = 0x1b then DW_OP_div
     else if b = 0x1c then DW_OP_minus else if b = 0x1d then DW_OP_mod
     else if b = 0x1e then DW_OP_mul else if b = 0x1f then DW_OP_neg
     else if b = 0x20 then DW_OP_not else if b = 0x21 then DW_OP_or
     else if b = 0x22 then DW_OP_plus else if b = 0x23 then DW_OP_plus_uconst
     else if b = 0x24 then DW_OP_shl else if b = 0x25 then DW_OP_shr
     else if b = 0x26 then DW_OP_shra else if b = 0x27 then DW_OP_xor
     else if b = 0x28 then DW_OP_bra else if b = 0x29 then DW_OP_eq
     else if b = 0x2a then DW_OP_ge else if b = 0x2b then DW_OP_gt
     else if b = 0x2c then DW_OP_le else if b = 0x2d then DW_OP_lt
     else if b = 0x2e then DW_OP_ne else if b = 0x2f then DW_OP_skip
     else DW_OP_unlisted b)"

definition dwarf_expr_op_high :: "8 word \<Rightarrow> dwarf_expr_op" where
  "dwarf_expr_op_high b =
    (if b = 0x90 then DW_OP_regx else if b = 0x91 then DW_OP_fbreg
     else if b = 0x92 then DW_OP_bregx else if b = 0x93 then DW_OP_piece
     else if b = 0x94 then DW_OP_deref_size else if b = 0x95 then DW_OP_xderef_size
     else if b = 0x96 then DW_OP_nop else if b = 0x97 then DW_OP_push_object_address
     else if b = 0x98 then DW_OP_call2 else if b = 0x99 then DW_OP_call4
     else if b = 0x9a then DW_OP_call_ref
     else DW_OP_unlisted b)"

definition dwarf_expr_op_of :: "8 word \<Rightarrow> dwarf_expr_op" where
  "dwarf_expr_op_of b =
    (if b < 0x30 then dwarf_expr_op_low b
     else if b < 0x50 then DW_OP_lit (unat b - 0x30)
     else if b < 0x70 then DW_OP_reg (unat b - 0x50)
     else if b < 0x90 then DW_OP_breg (unat b - 0x70)
     else dwarf_expr_op_high b)"

section \<open>Call-frame opcodes\<close>

abbreviation (input) DWARF_CFA_OPCODE_MASK :: "8 word" where "DWARF_CFA_OPCODE_MASK \<equiv> 0xc0"
abbreviation (input) DWARF_CFA_OPERAND_MASK :: "8 word" where "DWARF_CFA_OPERAND_MASK \<equiv> 0x3f"
abbreviation (input) DWARF_CIE_VERSION :: "8 word" where "DWARF_CIE_VERSION \<equiv> 3"
abbreviation (input) DWARF_CIE_VERSION_MAX :: "8 word" where "DWARF_CIE_VERSION_MAX \<equiv> 4"

datatype dwarf_cfa =
    DW_CFA_advance_loc | DW_CFA_offset | DW_CFA_restore | DW_CFA_nop | DW_CFA_set_loc
  | DW_CFA_advance_loc1 | DW_CFA_advance_loc2 | DW_CFA_advance_loc4
  | DW_CFA_offset_extended | DW_CFA_restore_extended | DW_CFA_undefined | DW_CFA_same_value
  | DW_CFA_register | DW_CFA_remember_state | DW_CFA_restore_state | DW_CFA_def_cfa
  | DW_CFA_def_cfa_register | DW_CFA_def_cfa_offset | DW_CFA_def_cfa_expression
  | DW_CFA_expression | DW_CFA_offset_extended_sf | DW_CFA_def_cfa_sf
  | DW_CFA_def_cfa_offset_sf | DW_CFA_val_expression | DW_CFA_lo_user
  | DW_CFA_MIPS_advance_loc8 | DW_CFA_GNU_window_save | DW_CFA_GNU_args_size
  | DW_CFA_GNU_negative_offset_extended | DW_CFA_hi_user
  | DW_CFA_unlisted "8 word"

definition dwarf_cfa_of :: "8 word \<Rightarrow> dwarf_cfa" where
  "dwarf_cfa_of b =
    (if b = 0x40 then DW_CFA_advance_loc else if b = 0x80 then DW_CFA_offset
     else if b = 0xc0 then DW_CFA_restore else if b = 0x00 then DW_CFA_nop
     else if b = 0x01 then DW_CFA_set_loc else if b = 0x02 then DW_CFA_advance_loc1
     else if b = 0x03 then DW_CFA_advance_loc2 else if b = 0x04 then DW_CFA_advance_loc4
     else if b = 0x05 then DW_CFA_offset_extended
     else if b = 0x06 then DW_CFA_restore_extended
     else if b = 0x07 then DW_CFA_undefined else if b = 0x08 then DW_CFA_same_value
     else if b = 0x09 then DW_CFA_register else if b = 0x0a then DW_CFA_remember_state
     else if b = 0x0b then DW_CFA_restore_state else if b = 0x0c then DW_CFA_def_cfa
     else if b = 0x0d then DW_CFA_def_cfa_register
     else if b = 0x0e then DW_CFA_def_cfa_offset
     else if b = 0x0f then DW_CFA_def_cfa_expression
     else if b = 0x10 then DW_CFA_expression
     else if b = 0x11 then DW_CFA_offset_extended_sf
     else if b = 0x12 then DW_CFA_def_cfa_sf
     else if b = 0x13 then DW_CFA_def_cfa_offset_sf
     else if b = 0x16 then DW_CFA_val_expression else if b = 0x1c then DW_CFA_lo_user
     else if b = 0x1d then DW_CFA_MIPS_advance_loc8
     else if b = 0x2d then DW_CFA_GNU_window_save
     else if b = 0x2e then DW_CFA_GNU_args_size
     else if b = 0x2f then DW_CFA_GNU_negative_offset_extended
     else if b = 0x3c then DW_CFA_hi_user
     else DW_CFA_unlisted b)"

section \<open>Pointer encodings\<close>

abbreviation (input) DW_EH_PE_FORMAT_MASK :: "8 word" where "DW_EH_PE_FORMAT_MASK \<equiv> 0x0f"
abbreviation (input) DW_EH_PE_APPL_MASK :: "8 word" where "DW_EH_PE_APPL_MASK \<equiv> 0x70"
abbreviation (input) DW_EH_PE_indirect :: "8 word" where "DW_EH_PE_indirect \<equiv> 0x80"
abbreviation (input) DW_EH_PE_omit :: "8 word" where "DW_EH_PE_omit \<equiv> 0xff"
abbreviation (input) DW_EH_PE_ptr :: "8 word" where "DW_EH_PE_ptr \<equiv> 0x00"
abbreviation (input) DW_EH_PE_uleb128 :: "8 word" where "DW_EH_PE_uleb128 \<equiv> 0x01"
abbreviation (input) DW_EH_PE_udata2 :: "8 word" where "DW_EH_PE_udata2 \<equiv> 0x02"
abbreviation (input) DW_EH_PE_udata4 :: "8 word" where "DW_EH_PE_udata4 \<equiv> 0x03"
abbreviation (input) DW_EH_PE_udata8 :: "8 word" where "DW_EH_PE_udata8 \<equiv> 0x04"
abbreviation (input) DW_EH_PE_sleb128 :: "8 word" where "DW_EH_PE_sleb128 \<equiv> 0x09"
abbreviation (input) DW_EH_PE_sdata2 :: "8 word" where "DW_EH_PE_sdata2 \<equiv> 0x0a"
abbreviation (input) DW_EH_PE_sdata4 :: "8 word" where "DW_EH_PE_sdata4 \<equiv> 0x0b"
abbreviation (input) DW_EH_PE_sdata8 :: "8 word" where "DW_EH_PE_sdata8 \<equiv> 0x0c"
abbreviation (input) DW_EH_PE_absptr :: "8 word" where "DW_EH_PE_absptr \<equiv> 0x00"
abbreviation (input) DW_EH_PE_pcrel :: "8 word" where "DW_EH_PE_pcrel \<equiv> 0x10"
abbreviation (input) DW_EH_PE_textrel :: "8 word" where "DW_EH_PE_textrel \<equiv> 0x20"
abbreviation (input) DW_EH_PE_datarel :: "8 word" where "DW_EH_PE_datarel \<equiv> 0x30"
abbreviation (input) DW_EH_PE_funcrel :: "8 word" where "DW_EH_PE_funcrel \<equiv> 0x40"
abbreviation (input) DW_EH_PE_aligned :: "8 word" where "DW_EH_PE_aligned \<equiv> 0x50"

section \<open>Register states and save rules\<close>

text \<open>
  \<open>DWARF_NUM_PRESERVED_REGS\<close> of x86-64 (without MS ABI support), and the two extra
  columns that describe the CFA.
\<close>

abbreviation (input) DWARF_NUM_PRESERVED_REGS :: nat where "DWARF_NUM_PRESERVED_REGS \<equiv> 17"
abbreviation (input) DWARF_CFA_REG_COLUMN :: nat where "DWARF_CFA_REG_COLUMN \<equiv> 17"
abbreviation (input) DWARF_CFA_OFF_COLUMN :: nat where "DWARF_CFA_OFF_COLUMN \<equiv> 18"

datatype dwarf_where =
    DWARF_WHERE_UNDEF | DWARF_WHERE_SAME | DWARF_WHERE_CFAREL | DWARF_WHERE_REG
  | DWARF_WHERE_EXPR | DWARF_WHERE_VAL_EXPR | DWARF_WHERE_CFA

text \<open>\<open>dwarf_reg_state\<close>: the members \<open>reg.where\<close> and \<open>reg.val\<close> are arrays.\<close>

record dwarf_reg_state =
  ret_addr_column :: unw_word
  rs_where :: "dwarf_where list"
  rs_val :: "unw_word list"

record dwarf_state_record =
  args_size :: unw_word
  rs_initial :: dwarf_reg_state
  rs_current :: dwarf_reg_state

text \<open>A zero-filled register state: the rule zero is \<open>DWARF_WHERE_UNDEF\<close>.\<close>

definition zero_reg_state :: dwarf_reg_state where
  "zero_reg_state = \<lparr>ret_addr_column = 0,
     rs_where = replicate (DWARF_NUM_PRESERVED_REGS + 2) DWARF_WHERE_UNDEF,
     rs_val = replicate (DWARF_NUM_PRESERVED_REGS + 2) 0\<rparr>"

definition wf_rs :: "dwarf_reg_state \<Rightarrow> bool" where
  "wf_rs rs \<longleftrightarrow> length (rs_where rs) = DWARF_NUM_PRESERVED_REGS + 2
     \<and> length (rs_val rs) = DWARF_NUM_PRESERVED_REGS + 2"

definition wf_sr :: "dwarf_state_record \<Rightarrow> bool" where
  "wf_sr sr \<longleftrightarrow> wf_rs (rs_initial sr) \<and> wf_rs (rs_current sr)"

section \<open>CIE and procedure information\<close>

record dwarf_cie_info =
  cie_instr_start :: unw_word
  cie_instr_end :: unw_word
  fde_instr_start :: unw_word
  fde_instr_end :: unw_word
  code_align :: unw_word
  data_align :: unw_word
  cie_ret_addr_column :: unw_word
  cie_handler :: unw_word
  cie_abi :: "16 word"
  cie_tag :: "16 word"
  fde_encoding :: "8 word"
  lsda_encoding :: "8 word"
  sized_augmentation :: bool
  have_abi_marker :: bool
  signal_frame :: bool

text \<open>\<open>memset (&dci, 0, sizeof (dci))\<close>\<close>

definition zero_cie :: dwarf_cie_info where
  "zero_cie = \<lparr>cie_instr_start = 0, cie_instr_end = 0, fde_instr_start = 0, fde_instr_end = 0,
     code_align = 0, data_align = 0, cie_ret_addr_column = 0, cie_handler = 0, cie_abi = 0, cie_tag = 0,
     fde_encoding = 0, lsda_encoding = 0, sized_augmentation = False, have_abi_marker = False,
     signal_frame = False\<rparr>"

text \<open>The formats of unwind information; \<open>di.format = -1\<close> is no format at all.\<close>

datatype unw_dyn_info_format =
    UNW_INFO_FORMAT_DYNAMIC | UNW_INFO_FORMAT_TABLE | UNW_INFO_FORMAT_REMOTE_TABLE
  | UNW_INFO_FORMAT_ARM_EXIDX | UNW_INFO_FORMAT_IP_OFFSET | UNW_INFO_FORMAT_REMOTE_TABLE_64

text \<open>
  \<open>unw_proc_info_t\<close>. The untyped pointer \<open>unwind_info\<close> is the CIE/FDE summary it points
  to for the table formats, and \<open>None\<close> for a null pointer; \<open>pi_debug_frame\<close> keeps of the flags only the
  question whether the information comes from \<open>.debug_frame\<close>.
\<close>

record unw_proc_info =
  pi_start_ip :: unw_word
  pi_end_ip :: unw_word
  pi_lsda :: unw_word
  pi_handler :: unw_word
  pi_gp :: unw_word
  pi_debug_frame :: bool
  pi_format :: unw_dyn_info_format
  pi_unwind_info :: "dwarf_cie_info option"

text \<open>\<open>memset (&c->pi, 0, sizeof (c->pi))\<close>: the format zero is the dynamic one.\<close>

definition zero_pi :: unw_proc_info where
  "zero_pi = \<lparr>pi_start_ip = 0, pi_end_ip = 0, pi_lsda = 0, pi_handler = 0, pi_gp = 0,
     pi_debug_frame = False, pi_format = UNW_INFO_FORMAT_DYNAMIC, pi_unwind_info = None\<rparr>"

end
