(* ===== verification/DwarfRead.thy ===== *)
theory DwarfRead
  imports DwarfTypes
begin

text \<open>
  The inline readers of \<open>include/dwarf_i.h\<close>: fixed-width values through the accessor of an
  address space (the build that supports remote unwinding) and directly from memory (the
  local-only build), LEB128 values, and encoded pointers.

  A reader takes the address it reads from and returns the value with the advanced
  address. The C code advances \<open>*addr\<close> also when it fails; no caller uses the address
  of a failed read.
\<close>

section \<open>Address spaces\<close>

text \<open>
  What the readers use of \<open>unw_addr_space\<close>: the client's callbacks for memory words and
  registers (read side), the byte order and the size of an address.
\<close>

record addr_space =
  access_mem :: "unw_word \<Rightarrow> unw_error + unw_word"
  access_reg :: "int \<Rightarrow> unw_error + unw_word"
  big_endian :: bool
  addr_size :: nat

type_synonym 'a reader = "unw_word \<Rightarrow> ('a \<times> unw_word) res"

section \<open>Fixed-width readers through the accessor\<close>

definition dwarf_readu8 :: "addr_space \<Rightarrow> (8 word) reader" where
  "dwarf_readu8 as addr =
     (let aligned_addr = addr AND (NOT 8 + 1);
          off = addr - aligned_addr
      in rbind (lift_acc (access_mem as aligned_addr)) (\<lambda>val.
         Inr (ucast (drop_bit (8 * unat off) val), addr + 1)))"

definition dwarf_readu16 :: "addr_space \<Rightarrow> (16 word) reader" where
  "dwarf_readu16 as addr =
     rbind (dwarf_readu8 as addr) (\<lambda>(v0, a1).
     rbind (dwarf_readu8 as a1) (\<lambda>(v1, a2).
     Inr (if big_endian as then push_bit 8 (ucast v0) OR ucast v1
          else push_bit 8 (ucast v1) OR ucast v0, a2)))"

definition dwarf_readu32 :: "addr_space \<Rightarrow> (32 word) reader" where
  "dwarf_readu32 as addr =
     rbind (dwarf_readu16 as addr) (\<lambda>(v0, a1).
     rbind (dwarf_readu16 as a1) (\<lambda>(v1, a2).
     Inr (if big_endian as then push_bit 16 (ucast v0) OR ucast v1
          else push_bit 16 (ucast v1) OR ucast v0, a2)))"

definition dwarf_readu64 :: "addr_space \<Rightarrow> (64 word) reader" where
  "dwarf_readu64 as addr =
     rbind (dwarf_readu32 as addr) (\<lambda>(v0, a1).
     rbind (dwarf_readu32 as a1) (\<lambda>(v1, a2).
     Inr (if big_endian as then push_bit 32 (ucast v0) OR ucast v1
          else push_bit 32 (ucast v1) OR ucast v0, a2)))"

text \<open>The signed readers return the same bits; they differ in how callers widen them.\<close>

definition dwarf_reads8 :: "addr_space \<Rightarrow> (8 word) reader" where
  "dwarf_reads8 as addr = rbind (dwarf_readu8 as addr) (\<lambda>(uval, a). Inr (uval, a))"

definition dwarf_reads16 :: "addr_space \<Rightarrow> (16 word) reader" where
  "dwarf_reads16 as addr = rbind (dwarf_readu16 as addr) (\<lambda>(uval, a). Inr (uval, a))"

definition dwarf_reads32 :: "addr_space \<Rightarrow> (32 word) reader" where
  "dwarf_reads32 as addr = rbind (dwarf_readu32 as addr) (\<lambda>(uval, a). Inr (uval, a))"

definition dwarf_reads64 :: "addr_space \<Rightarrow> (64 word) reader" where
  "dwarf_reads64 as addr = rbind (dwarf_readu64 as addr) (\<lambda>(uval, a). Inr (uval, a))"

definition dwarf_readw :: "addr_space \<Rightarrow> (64 word) reader" where
  "dwarf_readw as addr =
     (if addr_size as = 4 then rbind (dwarf_readu32 as addr) (\<lambda>(u32, a). Inr (ucast u32, a))
      else if addr_size as = 8 then rbind (dwarf_readu64 as addr) (\<lambda>(u64, a). Inr (u64, a))
      else Inl Aborted)"

section \<open>Fixed-width readers of the local-only build\<close>

text \<open>
  The local-only build dereferences a packed union at the address: the bytes of the
  process in host order, here little-endian. A local read has no failure value.
\<close>

type_synonym memory = "unw_word \<Rightarrow> 8 word"

definition local_readu8 :: "memory \<Rightarrow> (8 word) reader" where
  "local_readu8 m addr = Inr (m addr, addr + 1)"

definition local_readu16 :: "memory \<Rightarrow> (16 word) reader" where
  "local_readu16 m addr = Inr (ucast (m addr) OR push_bit 8 (ucast (m (addr + 1))), addr + 2)"

definition local_readu32 :: "memory \<Rightarrow> (32 word) reader" where
  "local_readu32 m addr =
     Inr (ucast (m addr) OR push_bit 8 (ucast (m (addr + 1)))
          OR push_bit 16 (ucast (m (addr + 2))) OR push_bit 24 (ucast (m (addr + 3))), addr + 4)"

definition local_readu64 :: "memory \<Rightarrow> (64 word) reader" where
  "local_readu64 m addr =
     Inr (ucast (m addr) OR push_bit 8 (ucast (m (addr + 1)))
          OR push_bit 16 (ucast (m (addr + 2))) OR push_bit 24 (ucast (m (addr + 3)))
          OR push_bit 32 (ucast (m (addr + 4))) OR push_bit 40 (ucast (m (addr + 5)))
          OR push_bit 48 (ucast (m (addr + 6))) OR push_bit 56 (ucast (m (addr + 7))), addr + 8)"

section \<open>LEB128\<close>

text \<open>
  The loop shared by the two LEB128 readers, over whichever \<open>dwarf_readu8\<close> the build has.
  It returns the accumulated value, the final shift count and the last byte. The C code
  shifts a 64-bit value by \<open>shift\<close> without a bound; from a shift count of 64 on this is
  undefined.
\<close>

function leb128_loop ::
  "(8 word) reader \<Rightarrow> unw_word \<Rightarrow> nat \<Rightarrow> unw_word \<Rightarrow> (unw_word \<times> nat \<times> 8 word \<times> unw_word) res"
where
  "leb128_loop rd val shift addr =
     (case rd addr of
        Inl e \<Rightarrow> Inl e
      | Inr (byte, addr') \<Rightarrow>
          if 64 \<le> shift then Inl Bad_shift
          else let val' = val OR push_bit shift (ucast byte AND 0x7f);
                   shift' = shift + 7
               in if byte AND 0x80 \<noteq> 0 then leb128_loop rd val' shift' addr'
                  else Inr (val', shift', byte, addr'))"
  by pat_completeness auto
termination
  by (relation "measure (\<lambda>(rd, val, shift, addr). 71 - shift)") auto

declare leb128_loop.simps [simp del]

definition read_uleb128 :: "(8 word) reader \<Rightarrow> unw_word reader" where
  "read_uleb128 rd addr =
     rbind (leb128_loop rd 0 0 addr) (\<lambda>(val, shift, byte, a). Inr (val, a))"

definition read_sleb128 :: "(8 word) reader \<Rightarrow> unw_word reader" where
  "read_sleb128 rd addr =
     rbind (leb128_loop rd 0 0 addr) (\<lambda>(val, shift, byte, a).
       Inr (if shift < 8 * 8 \<and> byte AND 0x40 \<noteq> 0 then val OR push_bit shift (- 1) else val, a))"

definition dwarf_read_uleb128 :: "addr_space \<Rightarrow> unw_word reader" where
  "dwarf_read_uleb128 as = read_uleb128 (dwarf_readu8 as)"

definition dwarf_read_sleb128 :: "addr_space \<Rightarrow> unw_word reader" where
  "dwarf_read_sleb128 as = read_sleb128 (dwarf_readu8 as)"

section \<open>Encoded pointers\<close>

text \<open>The first switch: the format of the stored value.\<close>

definition read_pe_format :: "addr_space \<Rightarrow> 8 word \<Rightarrow> unw_word reader" where
  "read_pe_format as encoding addr =
     (let fmt = encoding AND DW_EH_PE_FORMAT_MASK in
      if fmt = DW_EH_PE_ptr then dwarf_readw as addr
      else if fmt = DW_EH_PE_uleb128 then dwarf_read_uleb128 as addr
      else if fmt = DW_EH_PE_udata2 then
        rbind (dwarf_readu16 as addr) (\<lambda>(v, a). Inr (ucast v, a))
      else if fmt = DW_EH_PE_udata4 then
        rbind (dwarf_readu32 as addr) (\<lambda>(v, a). Inr (ucast v, a))
      else if fmt = DW_EH_PE_udata8 then
        rbind (dwarf_readu64 as addr) (\<lambda>(v, a). Inr (v, a))
      else if fmt = DW_EH_PE_sleb128 then dwarf_read_uleb128 as addr
      else if fmt = DW_EH_PE_sdata2 then
        rbind (dwarf_reads16 as addr) (\<lambda>(v, a). Inr (scast v, a))
      else if fmt = DW_EH_PE_sdata4 then
        rbind (dwarf_reads32 as addr) (\<lambda>(v, a). Inr (scast v, a))
      else if fmt = DW_EH_PE_sdata8 then
        rbind (dwarf_reads64 as addr) (\<lambda>(v, a). Inr (v, a))
      else Inl (Err UNW_EINVAL))"

text \<open>The second switch: what the value is relative to.\<close>

definition apply_pe_base ::
  "8 word \<Rightarrow> unw_proc_info \<Rightarrow> unw_word \<Rightarrow> unw_word \<Rightarrow> unw_word res" where
  "apply_pe_base encoding pi initial_addr val =
     (let appl = encoding AND DW_EH_PE_APPL_MASK in
      if appl = DW_EH_PE_absptr then Inr val
      else if appl = DW_EH_PE_pcrel then Inr (val + initial_addr)
      else if appl = DW_EH_PE_datarel then Inr (val + pi_gp pi)
      else if appl = DW_EH_PE_funcrel then Inr (val + pi_start_ip pi)
      else Inl (Err UNW_EINVAL))"

text \<open>\<open>Trim off any extra bits\<close>: the assertion allows only four-byte addresses there.\<close>

definition trim_to_addr_size :: "addr_space \<Rightarrow> unw_word \<Rightarrow> unw_word res" where
  "trim_to_addr_size as val =
     (if 8 > addr_size as
      then (if addr_size as = 4 then Inr (ucast (ucast val :: 32 word)) else Inl Aborted)
      else Inr val)"

definition dwarf_read_encoded_pointer ::
  "addr_space \<Rightarrow> 8 word \<Rightarrow> unw_proc_info \<Rightarrow> unw_word reader" where
  "dwarf_read_encoded_pointer as encoding pi initial_addr =
     (if encoding = DW_EH_PE_omit then Inr (0, initial_addr)
      else if encoding = DW_EH_PE_aligned then
        (let size = word_of_int (int (addr_size as))
         in dwarf_readw as ((initial_addr + size - 1) AND (- size)))
      else rbind (read_pe_format as encoding initial_addr) (\<lambda>(val, addr).
        if val = 0 then Inr (0, addr)
        else rbind (apply_pe_base encoding pi initial_addr val) (\<lambda>val.
             rbind (trim_to_addr_size as val) (\<lambda>val.
             if encoding AND DW_EH_PE_indirect \<noteq> 0
             then rbind (dwarf_readw as val) (\<lambda>(val, _). Inr (val, addr))
             else Inr (val, addr)))))"

end
