(* ===== verification/DwarfReadLemmas.thy ===== *)
theory DwarfReadLemmas
  imports DwarfRead
begin

text \<open>
  What the readers compute. An interface of byte sources (a one-byte reader and the bytes
  it delivers) under which the LEB128 loop is proved once, interpreted for the accessor
  reader and for the local-only reader; the two builds agree on every fixed width; LEB128
  decoding inverts the DWARF encoding.
\<close>

section \<open>LEB128 as a specification\<close>

text \<open>The encoders of the DWARF standard (section 7.6), on unbounded numbers.\<close>

fun uleb_encode :: "nat \<Rightarrow> 8 word list" where
  "uleb_encode n =
     (if n < 128 then [word_of_nat n]
      else (word_of_nat (n mod 128) OR 0x80) # uleb_encode (n div 128))"

function sleb_encode :: "int \<Rightarrow> 8 word list" where
  "sleb_encode i =
     (if - 64 \<le> i \<and> i < 64 then [word_of_int i AND 0x7f]
      else (word_of_int (i mod 128) OR 0x80) # sleb_encode (i div 128))"
  by pat_completeness auto
termination
  by (relation "measure (\<lambda>i. nat (if i < 0 then - i else i))") auto

declare uleb_encode.simps [simp del] sleb_encode.simps [simp del]

text \<open>The 7-bit groups of an encoding, least significant first.\<close>

fun leb_word :: "8 word list \<Rightarrow> unw_word" where
  "leb_word [] = 0"
| "leb_word (b # bs) = (ucast b AND 0x7f) OR push_bit 7 (leb_word bs)"

fun is_leb :: "8 word list \<Rightarrow> bool" where
  "is_leb [] = False"
| "is_leb [b] = (b AND 0x80 = 0)"
| "is_leb (b # bs) = (b AND 0x80 \<noteq> 0 \<and> is_leb bs)"

fun bytes_at :: "(unw_word \<Rightarrow> 8 word option) \<Rightarrow> unw_word \<Rightarrow> 8 word list \<Rightarrow> bool" where
  "bytes_at f a [] = True"
| "bytes_at f a (b # bs) = (f a = Some b \<and> bytes_at f (a + 1) bs)"

lemma bytes_at_append:
  "bytes_at f a (xs @ ys) \<longleftrightarrow> bytes_at f a xs \<and> bytes_at f (a + word_of_nat (length xs)) ys"
  by (induction xs arbitrary: a) (auto simp: algebra_simps)

lemma is_leb_nonempty: "is_leb bs \<Longrightarrow> bs \<noteq> []"
  by auto

lemma is_leb_Cons: "is_leb (b # bs) \<longleftrightarrow> (if bs = [] then b AND 0x80 = 0 else b AND 0x80 \<noteq> 0 \<and> is_leb bs)"
  by (cases bs) auto

section \<open>The interface of byte sources\<close>

locale byte_source =
  fixes rd :: "(8 word) reader"
    and bytes :: "unw_word \<Rightarrow> 8 word option"
  assumes rd_Some: "bytes a = Some b \<Longrightarrow> rd a = Inr (b, a + 1)"
    and rd_None: "bytes a = None \<Longrightarrow> \<exists>e. rd a = Inl (Err e)"
begin

lemma rd_cases:
  obtains (byte) b where "bytes a = Some b" and "rd a = Inr (b, a + 1)"
  | (error) e where "bytes a = None" and "rd a = Inl (Err e)"
proof (cases "bytes a")
  case None
  with rd_None [of a] error show ?thesis by blast
next
  case (Some b)
  with rd_Some [of a b] byte show ?thesis by blast
qed

lemma leb128_loop_bytes:
  assumes "is_leb bs" and "bytes_at bytes a bs" and "s + 7 * (length bs - 1) < 64"
  shows "leb128_loop rd v s a =
    Inr (v OR push_bit s (leb_word bs), s + 7 * length bs, last bs, a + word_of_nat (length bs))"
  using assms
proof (induction bs arbitrary: v s a)
  case Nil
  then show ?case by simp
next
  case (Cons b bs)
  have rd: "rd a = Inr (b, a + 1)"
    using Cons.prems by (simp add: rd_Some)
  show ?case
  proof (cases "bs = []")
    case True
    with Cons.prems rd show ?thesis
      by (simp add: leb128_loop.simps [of rd v s a])
  next
    case False
    with Cons.prems have more: "b AND 0x80 \<noteq> 0" "is_leb bs"
      by (auto simp: is_leb_Cons)
    have bound: "s + 7 + 7 * (length bs - 1) < 64"
      using Cons.prems(3) False by (cases bs) auto
    have "leb128_loop rd v s a = leb128_loop rd (v OR push_bit s (ucast b AND 0x7f)) (s + 7) (a + 1)"
      using more rd bound by (simp add: leb128_loop.simps [of rd v s a])
    also have "\<dots> = Inr ((v OR push_bit s (ucast b AND 0x7f)) OR push_bit (s + 7) (leb_word bs),
        s + 7 + 7 * length bs, last bs, (a + 1) + word_of_nat (length bs))"
      using Cons.IH [of "a + 1" "s + 7"] Cons.prems(2) more bound by simp
    finally show ?thesis
      using False by (simp add: push_bit_or or.assoc algebra_simps)
  qed
qed


text \<open>Continuation bytes lead the loop on, until the shift count is too large.\<close>

lemma leb128_loop_continues:
  assumes "bytes_at bytes a (cs @ [b])" "\<forall>c \<in> set cs. c AND 0x80 \<noteq> 0" "s + 7 * length cs \<ge> 64"
  shows "leb128_loop rd v s a = Inl Bad_shift"
  using assms
proof (induction cs arbitrary: v s a)
  case Nil
  then show ?case by (simp add: leb128_loop.simps [of rd v s a] rd_Some)
next
  case (Cons c cs)
  then show ?case
    using Cons.IH [of "a + 1" "s + 7"] by (simp add: leb128_loop.simps [of rd v s a] rd_Some)
qed


text \<open>Every value has at most ten bytes: the shift count bounds the loop.\<close>

lemma leb128_loop_length:
  assumes "leb128_loop rd v s a = Inr (v', s', b, a')"
  shows "\<exists>k. 0 < k \<and> s + 7 * (k - 1) < 64 \<and> s' = s + 7 * k \<and> a' = a + word_of_nat k"
  using assms
proof (induction "71 - s" arbitrary: v s a rule: less_induct)
  case less
  obtain byte where rd: "rd a = Inr (byte, a + 1)" and s: "s < 64"
    using less.prems by (cases a rule: rd_cases)
      (auto simp: leb128_loop.simps [of rd v s a] split: if_splits)
  show ?case
  proof (cases "byte AND 0x80 = 0")
    case True
    then have "s' = s + 7 * 1 \<and> a' = a + word_of_nat 1"
      using less.prems rd s by (simp add: leb128_loop.simps [of rd v s a])
    then show ?thesis using s by (intro exI [of _ 1]) simp
  next
    case False
    then have "leb128_loop rd (v OR push_bit s (ucast byte AND 0x7f)) (s + 7) (a + 1)
        = Inr (v', s', b, a')"
      using less.prems rd s by (simp add: leb128_loop.simps [of rd v s a])
    moreover have "71 - (s + 7) < 71 - s" using s by simp
    ultimately have "\<exists>k. 0 < k \<and> s + 7 + 7 * (k - 1) < 64 \<and> s' = s + 7 + 7 * k
        \<and> a' = a + 1 + word_of_nat k"
      by (rule less.hyps [rotated])
    then obtain k where
      "0 < k" "s + 7 + 7 * (k - 1) < 64" "s' = s + 7 + 7 * k" "a' = a + 1 + word_of_nat k"
      by blast
    then show ?thesis by (intro exI [of _ "Suc k"]) (auto simp: algebra_simps)
  qed
qed

text \<open>Reading fails with an accessor error or with the shift, never otherwise.\<close>

lemma leb128_loop_fault:
  assumes "leb128_loop rd v s a = Inl f"
  shows "f = Bad_shift \<or> (\<exists>e. f = Err e)"
  using assms
proof (induction "71 - s" arbitrary: v s a rule: less_induct)
  case less
  show ?case
  proof (cases a rule: rd_cases)
    case (byte b)
    show ?thesis
    proof (cases "64 \<le> s \<or> b AND 0x80 = 0")
      case True
      then show ?thesis using byte less.prems
        by (auto simp: leb128_loop.simps [of rd v s a] Let_def split: if_splits)
    next
      case False
      then have "leb128_loop rd (v OR push_bit s (ucast b AND 0x7f)) (s + 7) (a + 1) = Inl f"
        using byte less.prems by (simp add: leb128_loop.simps [of rd v s a])
      with False show ?thesis by (intro less.hyps [of "s + 7"]) auto
    qed
  next
    case (error e)
    then show ?thesis using less.prems by (auto simp: leb128_loop.simps [of rd v s a])
  qed
qed

lemma read_uleb128_fault:
  "read_uleb128 rd a = Inl f \<Longrightarrow> f = Bad_shift \<or> (\<exists>e. f = Err e)"
  by (auto simp: read_uleb128_def res_iff dest: leb128_loop_fault)

lemma read_sleb128_fault:
  "read_sleb128 rd a = Inl f \<Longrightarrow> f = Bad_shift \<or> (\<exists>e. f = Err e)"
  by (auto simp: read_sleb128_def res_iff dest: leb128_loop_fault)

lemma read_uleb128_advances:
  assumes "read_uleb128 rd a = Inr (v, a')"
  shows "\<exists>k. 0 < k \<and> k \<le> 10 \<and> a' = a + word_of_nat k"
proof -
  obtain s b where "leb128_loop rd 0 0 a = Inr (v, s, b, a')"
    using assms by (auto simp: read_uleb128_def res_iff)
  from leb128_loop_length [OF this] obtain k where
    "0 < k" "7 * (k - 1) < 64" "a' = a + word_of_nat k" by auto
  then show ?thesis by (intro exI [of _ k]) auto
qed

lemma read_sleb128_advances:
  assumes "read_sleb128 rd a = Inr (v, a')"
  shows "\<exists>k. 0 < k \<and> k \<le> 10 \<and> a' = a + word_of_nat k"
proof -
  obtain w s b where "leb128_loop rd 0 0 a = Inr (w, s, b, a')"
    using assms by (auto simp: read_sleb128_def res_iff split: if_splits)
  from leb128_loop_length [OF this] obtain k where
    "0 < k" "7 * (k - 1) < 64" "a' = a + word_of_nat k" by auto
  then show ?thesis by (intro exI [of _ k]) auto
qed

end

section \<open>The encoders\<close>


lemma and_0x7f: "(x :: unw_word) AND 0x7f = take_bit 7 x"
  by (simp add: take_bit_eq_mask mask_eq_exp_minus_1)

lemma and_0x80: "(b :: 8 word) AND 0x80 = 0 \<longleftrightarrow> \<not> bit b 7"
  using and_exp_eq_0_iff_not_bit [of b 7] by simp

lemma bit_nat_7: "n < 128 \<Longrightarrow> \<not> bit (n :: nat) 7"
  by (simp add: bit_iff_odd)

lemma last_byte:
  assumes "n < 128"
  shows "ucast (word_of_nat n :: 8 word) AND (0x7f :: unw_word) = word_of_nat n"
    and "(word_of_nat n :: 8 word) AND 0x80 = 0"
proof -
  have n: "take_bit 8 n = n" "take_bit 7 n = n"
    using assms by (simp_all add: take_bit_nat_eq_self)
  show "ucast (word_of_nat n :: 8 word) AND (0x7f :: unw_word) = word_of_nat n"
    using n by (simp only: and_0x7f unsigned_of_nat take_bit_of_nat) simp
  show "(word_of_nat n :: 8 word) AND 0x80 = 0"
    using bit_nat_7 [OF assms] by (simp add: and_0x80 bit_simps)
qed

lemma more_byte:
  assumes "n < 128"
  shows "ucast (word_of_nat n OR 0x80 :: 8 word) AND (0x7f :: unw_word) = word_of_nat n"
    and "(word_of_nat n OR 0x80 :: 8 word) AND 0x80 \<noteq> 0"
proof -
  have "ucast (word_of_nat n OR 0x80 :: 8 word) AND (0x7f :: unw_word)
      = (ucast (word_of_nat n :: 8 word) OR 0x80) AND 0x7f"
    by (simp add: unsigned_or_eq)
  also have "\<dots> = (ucast (word_of_nat n :: 8 word) AND 0x7f) OR (0x80 AND 0x7f)"
    by (rule bit.conj_disj_distrib2)
  finally show "ucast (word_of_nat n OR 0x80 :: 8 word) AND (0x7f :: unw_word) = word_of_nat n"
    using last_byte(1) [OF assms] by simp
  have "bit (0x80 :: 8 word) 7" by (simp add: bit_iff_odd)
  then show "(word_of_nat n OR 0x80 :: 8 word) AND 0x80 \<noteq> 0"
    by (simp only: and_0x80 bit_or_iff) simp
qed

lemma uleb_encode_nonempty [simp]: "uleb_encode n \<noteq> []"
  by (subst uleb_encode.simps) simp

lemma split_low7: "n mod 128 OR push_bit 7 (n div 128) = (n :: nat)"
proof -
  have "take_bit 7 n OR push_bit 7 (drop_bit 7 n) = n"
  proof (rule bit_eqI)
    fix k show "bit (take_bit 7 n OR push_bit 7 (drop_bit 7 n)) k \<longleftrightarrow> bit n k"
      by (cases "k < 7") (simp_all add: bit_simps)
  qed
  then show ?thesis by (simp add: take_bit_eq_mod drop_bit_eq_div)
qed

lemma split_low7_int: "i mod 128 OR push_bit 7 (i div 128) = (i :: int)"
proof -
  have "take_bit 7 i OR push_bit 7 (drop_bit 7 i) = i"
  proof (rule bit_eqI)
    fix k show "bit (take_bit 7 i OR push_bit 7 (drop_bit 7 i)) k \<longleftrightarrow> bit i k"
      by (cases "k < 7") (simp_all add: bit_simps)
  qed
  then show ?thesis by (simp add: take_bit_eq_mod drop_bit_eq_div)
qed

lemma is_leb_uleb_encode: "is_leb (uleb_encode n)"
proof (induction n rule: uleb_encode.induct)
  case (1 n)
  then show ?case
    by (cases "n < 128")
      (simp_all add: uleb_encode.simps [of n] last_byte more_byte(2) is_leb_Cons)
qed

lemma leb_word_uleb_encode: "leb_word (uleb_encode n) = word_of_nat n"
proof (induction n rule: uleb_encode.induct)
  case (1 n)
  show ?case
  proof (cases "n < 128")
    case True
    then show ?thesis by (simp add: uleb_encode.simps [of n] last_byte)
  next
    case False
    have "leb_word (uleb_encode n)
        = word_of_nat (n mod 128) OR push_bit 7 (word_of_nat (n div 128))"
      using False 1 by (simp add: uleb_encode.simps [of n] more_byte(1))
    also have "\<dots> = word_of_nat (n mod 128 OR push_bit 7 (n div 128))"
      by (simp add: of_nat_or_eq push_bit_of_nat)
    also have "n mod 128 OR push_bit 7 (n div 128) = n"
      by (rule split_low7)
    finally show ?thesis .
  qed
qed

lemma length_uleb_encode: "n < 2 ^ (7 * k) \<Longrightarrow> 0 < k \<Longrightarrow> length (uleb_encode n) \<le> k"
proof (induction n arbitrary: k rule: uleb_encode.induct)
  case (1 n)
  show ?case
  proof (cases "n < 128")
    case True
    with 1 show ?thesis by (simp add: uleb_encode.simps [of n])
  next
    case False
    then have "k \<noteq> 1" using 1 by auto
    with 1 obtain j where k: "k = Suc j" "0 < j" by (cases k) auto
    have "n div 128 < 2 ^ (7 * j)"
      using "1.prems" k by (simp add: less_mult_imp_div_less power_add)
    with False 1 k show ?thesis by (simp add: uleb_encode.simps [of n])
  qed
qed


lemma sleb_encode_small:
  "- 64 \<le> i \<and> i < 64 \<Longrightarrow> sleb_encode i = [word_of_int i AND 0x7f]"
  by (subst sleb_encode.simps) simp

lemma sleb_encode_big:
  "\<not> (- 64 \<le> i \<and> i < 64) \<Longrightarrow>
   sleb_encode i = (word_of_nat (nat (i mod 128)) OR 0x80) # sleb_encode (i div 128)"
  by (subst sleb_encode.simps) auto

lemma sleb_encode_nonempty [simp]: "sleb_encode i \<noteq> []"
  by (subst sleb_encode.simps) simp

lemma mod_128_nat: "word_of_int (i mod 128) = (word_of_nat (nat (i mod 128)) :: 'a::len word)"
  by simp

lemma byte_and_0x7f: "(b :: 8 word) AND 0x7f = take_bit 7 b"
  by (simp add: take_bit_eq_mask mask_eq_exp_minus_1)

lemma is_leb_sleb_encode: "is_leb (sleb_encode i)"
proof (induction i rule: sleb_encode.induct)
  case (1 i)
  have "nat (i mod 128) < 128" by simp
  moreover have "\<not> bit (word_of_int i AND 0x7f :: 8 word) 7"
    by (simp add: byte_and_0x7f bit_simps)
  ultimately show ?case using 1
    by (cases "- 64 \<le> i \<and> i < 64")
      (auto simp: sleb_encode.simps [of i] is_leb_Cons more_byte(2) mod_128_nat and_0x80
        simp del: of_nat_nat of_int_of_nat_eq)
qed

text \<open>The groups of a signed encoding are the low bits of the number.\<close>

lemma leb_word_sleb_encode:
  "leb_word (sleb_encode i) = word_of_int (take_bit (7 * length (sleb_encode i)) i)"
proof (induction i rule: sleb_encode.induct)
  case (1 i)
  show ?case
  proof (cases "- 64 \<le> i \<and> i < 64")
    case True
    have "leb_word (sleb_encode i) = take_bit 7 (ucast (take_bit 7 (word_of_int i :: 8 word)))"
      using True by (simp add: sleb_encode_small and_0x7f byte_and_0x7f)
    also have "\<dots> = word_of_int (take_bit 7 i)"
      by (rule bit_eqI) (auto simp: bit_simps)
    finally show ?thesis using True by (simp add: sleb_encode_small)
  next
    case False
    let ?l = "7 * length (sleb_encode (i div 128))"
    have mod: "nat (i mod 128) < 128" by simp
    have enc: "sleb_encode i = (word_of_nat (nat (i mod 128)) OR 0x80) # sleb_encode (i div 128)"
      using False by (rule sleb_encode_big)
    have "leb_word (sleb_encode i)
        = word_of_int (i mod 128) OR push_bit 7 (word_of_int (take_bit ?l (i div 128)))"
      unfolding enc using 1 [OF False] more_byte(1) [OF mod] by simp
    also have "\<dots> = word_of_int (i mod 128 OR push_bit 7 (take_bit ?l (i div 128)))"
      by (simp add: of_int_or_eq push_bit_of_int)
    also have "i mod 128 OR push_bit 7 (take_bit ?l (i div 128)) = take_bit (7 + ?l) i"
    proof -
      have "take_bit 7 i OR push_bit 7 (take_bit ?l (drop_bit 7 i)) = take_bit (7 + ?l) i"
      proof (rule bit_eqI)
        fix k show "bit (take_bit 7 i OR push_bit 7 (take_bit ?l (drop_bit 7 i))) k
            \<longleftrightarrow> bit (take_bit (7 + ?l) i) k"
          by (cases "k < 7") (auto simp: bit_simps)
      qed
      then show ?thesis by (simp add: take_bit_eq_mod drop_bit_eq_div)
    qed
    finally show ?thesis unfolding enc by simp
  qed
qed


lemma sleb_last_sign:
  "bit (last (sleb_encode i)) 6 \<longleftrightarrow> i < 0"
proof (induction i rule: sleb_encode.induct)
  case (1 i)
  show ?case
  proof (cases "- 64 \<le> i \<and> i < 64")
    case True
    have "bit (word_of_int i AND 0x7f :: 8 word) 6 \<longleftrightarrow> bit i 6"
      by (simp add: byte_and_0x7f bit_simps)
    also have "\<dots> \<longleftrightarrow> i < 0"
    proof (cases "i < 0")
      case True
      with \<open>- 64 \<le> i \<and> i < 64\<close> have "i div 64 = - 1" by presburger
      with True show ?thesis by (simp add: bit_iff_odd)
    next
      case False
      with \<open>- 64 \<le> i \<and> i < 64\<close> have "i div 64 = 0" by presburger
      with False show ?thesis by (simp add: bit_iff_odd)
    qed
    finally show ?thesis using True by (simp add: sleb_encode_small)
  next
    case False
    then show ?thesis using 1 by (simp add: sleb_encode_big [OF False] pos_imp_zdiv_neg_iff)
  qed
qed

lemma length_sleb_encode:
  "- (2 ^ (7 * k - 1)) \<le> i \<Longrightarrow> i < 2 ^ (7 * k - 1) \<Longrightarrow> 0 < k \<Longrightarrow> length (sleb_encode i) \<le> k"
proof (induction i arbitrary: k rule: sleb_encode.induct)
  case (1 i)
  show ?case
  proof (cases "- 64 \<le> i \<and> i < 64")
    case True
    with 1 show ?thesis by (simp add: sleb_encode_small)
  next
    case False
    then have "k \<noteq> 1" using 1 by auto
    with 1 obtain j where k: "k = Suc j" "0 < j" by (cases k) auto
    have pow: "2 ^ (7 * k - 1) = (2 ^ (7 * j - 1) * 128 :: int)"
      using k by (cases j) (simp_all add: power_add)
    have "- (2 ^ (7 * j - 1)) \<le> i div 128" "i div 128 < 2 ^ (7 * j - 1)"
      using "1.prems" unfolding pow by linarith+
    with False 1 k show ?thesis by (simp add: sleb_encode_big [OF False])
  qed
qed


lemma sleb_encode_range:
  "- (2 ^ (7 * length (sleb_encode i) - 1)) \<le> i \<and> i < 2 ^ (7 * length (sleb_encode i) - 1)"
proof (induction i rule: sleb_encode.induct)
  case (1 i)
  show ?case
  proof (cases "- 64 \<le> i \<and> i < 64")
    case True
    then show ?thesis by (simp add: sleb_encode_small)
  next
    case False
    obtain j where j: "7 * length (sleb_encode (i div 128)) - 1 = j" by simp
    have "7 * length (sleb_encode i) - 1 = j + 7"
      using j by (simp add: sleb_encode_big [OF False])
        (metis Suc_pred add_Suc add_gr_0 length_greater_0_conv mult_pos_pos sleb_encode_nonempty zero_less_numeral)
    then have pow: "2 ^ (7 * length (sleb_encode i) - 1) = (2 ^ j * 128 :: int)"
      by (simp add: power_add)
    have "- (2 ^ j) \<le> i div 128 \<and> i div 128 < 2 ^ j"
      using 1 False j by blast
    then show ?thesis unfolding pow by linarith
  qed
qed

lemma int_high_bits:
  assumes "- (2 ^ m) \<le> i" and "i < 2 ^ m" and "m \<le> n"
  shows "bit (i :: int) n \<longleftrightarrow> i < 0"
proof -
  have i: "signed_take_bit m i = i"
    using assms by (simp add: signed_take_bit_int_eq_self_iff)
  then have "bit i n \<longleftrightarrow> bit (signed_take_bit m i) n" by simp
  also have "\<dots> \<longleftrightarrow> bit i m"
    using assms(3) by (simp add: bit_signed_take_bit_iff min_def)
  also have "\<dots> \<longleftrightarrow> i < 0"
    using signed_take_bit_negative_iff [of m i] i by simp
  finally show ?thesis .
qed

lemma sleb_sign_extend:
  assumes "k = 7 * length (sleb_encode i)"
  shows "(if k < 64 \<and> i < 0 then word_of_int (take_bit k i) OR push_bit k (- 1)
          else word_of_int (take_bit k i)) = (word_of_int i :: unw_word)"
proof (rule bit_word_eqI)
  fix n assume "n < LENGTH(64)"
  have "7 * length (sleb_encode i) - 1 < k"
    using assms by (cases "sleb_encode i") simp_all
  then have "k \<le> n \<Longrightarrow> bit i n \<longleftrightarrow> i < 0"
    using sleb_encode_range [of i] by (intro int_high_bits [of "7 * length (sleb_encode i) - 1"]) auto
  with \<open>n < LENGTH(64)\<close>
  show "bit (if k < 64 \<and> i < 0 then word_of_int (take_bit k i) OR push_bit k (- 1)
          else word_of_int (take_bit k i) :: unw_word) n = bit (word_of_int i :: unw_word) n"
    by (cases "k \<le> n") (auto simp: bit_simps)
qed

context byte_source
begin

lemma read_uleb128_encode:
  assumes "bytes_at bytes a (uleb_encode n)" and "n < 2 ^ 64"
  shows "read_uleb128 rd a = Inr (word_of_nat n, a + word_of_nat (length (uleb_encode n)))"
proof -
  have "length (uleb_encode n) \<le> 10"
    using assms(2) by (intro length_uleb_encode) auto
  then have "7 * (length (uleb_encode n) - 1) < 64" by simp
  with leb128_loop_bytes [OF is_leb_uleb_encode assms(1), of 0 0] show ?thesis
    by (simp add: read_uleb128_def leb_word_uleb_encode)
qed

lemma read_sleb128_encode:
  assumes "bytes_at bytes a (sleb_encode i)" and "- (2 ^ 63) \<le> i" and "i < 2 ^ 63"
  shows "read_sleb128 rd a = Inr (word_of_int i, a + word_of_nat (length (sleb_encode i)))"
proof -
  let ?k = "7 * length (sleb_encode i)"
  let ?w = "word_of_int (take_bit ?k i) :: unw_word"
  have len: "length (sleb_encode i) \<le> 10"
    using assms(2,3) by (intro length_sleb_encode) auto
  then have "7 * (length (sleb_encode i) - 1) < 64" by simp
  with leb128_loop_bytes [OF is_leb_sleb_encode assms(1), of 0 0]
  have loop: "leb128_loop rd 0 0 a
      = Inr (?w, ?k, last (sleb_encode i), a + word_of_nat (length (sleb_encode i)))"
    by (simp add: leb_word_sleb_encode)
  have sign: "last (sleb_encode i) AND 0x40 \<noteq> 0 \<longleftrightarrow> i < 0"
    using and_exp_eq_0_iff_not_bit [of "last (sleb_encode i)" 6] sleb_last_sign [of i] by simp
  show ?thesis
    using sleb_sign_extend [OF refl, of i] by (simp add: read_sleb128_def loop sign)
qed

end


section \<open>The two builds agree\<close>

text \<open>The byte that the accessor reader delivers at an address.\<close>

definition as_byte :: "addr_space \<Rightarrow> unw_word \<Rightarrow> 8 word option" where
  "as_byte as a =
     (case access_mem as (a AND (NOT 8 + 1)) of
        Inl e \<Rightarrow> None
      | Inr val \<Rightarrow> Some (ucast (drop_bit (8 * unat (a - (a AND (NOT 8 + 1)))) val)))"

interpretation remote: byte_source "dwarf_readu8 as" "as_byte as" for as
  by unfold_locales
    (auto simp: dwarf_readu8_def as_byte_def Let_def split: sum.splits)

interpretation local_only: byte_source "local_readu8 m" "\<lambda>a. Some (m a)" for m
  by unfold_locales (auto simp: local_readu8_def)

text \<open>The accessor that answers with the aligned words of a byte memory.\<close>

definition word_at :: "memory \<Rightarrow> unw_word \<Rightarrow> unw_word" where
  "word_at m a =
     ucast (m a) OR push_bit 8 (ucast (m (a + 1)))
       OR push_bit 16 (ucast (m (a + 2))) OR push_bit 24 (ucast (m (a + 3)))
       OR push_bit 32 (ucast (m (a + 4))) OR push_bit 40 (ucast (m (a + 5)))
       OR push_bit 48 (ucast (m (a + 6))) OR push_bit 56 (ucast (m (a + 7)))"

definition mirrors :: "addr_space \<Rightarrow> memory \<Rightarrow> bool" where
  "mirrors as m \<longleftrightarrow> \<not> big_endian as
     \<and> (\<forall>a. a AND 7 = 0 \<longrightarrow> access_mem as a = Inr (word_at m a))"

lemma word_at_byte:
  assumes "k < 8"
  shows "ucast (drop_bit (8 * k) (word_at m a)) = m (a + word_of_nat k)"
proof (rule bit_word_eqI)
  fix n assume "n < LENGTH(8)"
  then have n: "n < 8" by simp
  have byte: "\<And>b :: 8 word. \<And>j. bit b j \<Longrightarrow> j < 8"
    using bit_imp_le_length by fastforce
  show "bit (ucast (drop_bit (8 * k) (word_at m a)) :: 8 word) n = bit (m (a + word_of_nat k)) n"
    using less_eq_63_cases_8 [OF assms] n
    by (elim disjE) (auto simp: word_at_def bit_simps dest: byte)
qed

lemma align_8: "(a :: unw_word) - (a AND (NOT 8 + 1)) = a AND 7" "(a AND (NOT 8 + 1)) AND 7 = 0"
proof -
  have m: "(NOT 8 + 1 :: unw_word) = NOT (mask 3)" "(7 :: unw_word) = mask 3"
    by (simp_all add: mask_eq_exp_minus_1)
  show "(a AND (NOT 8 + 1)) AND 7 = 0" unfolding m by (simp add: and.assoc)
  have "(a AND NOT (mask 3)) OR (a AND mask 3) = a"
    by (simp add: bit.conj_disj_distrib [symmetric])
  moreover have "(a AND NOT (mask 3)) + (a AND mask 3) = (a AND NOT (mask 3)) OR (a AND mask 3)"
    by (rule disjunctive_add) (auto simp: bit_simps)
  ultimately show "a - (a AND (NOT 8 + 1)) = a AND 7" unfolding m
    by (metis add_diff_cancel_left')
qed

lemma dwarf_readu8_mirrors:
  assumes "mirrors as m"
  shows "dwarf_readu8 as a = local_readu8 m a"
proof -
  let ?b = "a AND (NOT 8 + 1)"
  have mem: "access_mem as ?b = Inr (word_at m ?b)"
    using assms align_8(2) by (simp add: mirrors_def)
  have off: "a - ?b = a AND 7" by (rule align_8)
  have "unat (a AND 7) < 8"
    using word_and_le1 [of a 7] by (simp add: word_le_nat_alt)
  then have "ucast (drop_bit (8 * unat (a AND 7)) (word_at m ?b)) = m (?b + (a AND 7))"
    using word_at_byte [of "unat (a AND 7)" m ?b] by simp
  also have "?b + (a AND 7) = a" using off by (simp add: algebra_simps)
  finally show ?thesis
    using mem off by (simp add: dwarf_readu8_def local_readu8_def Let_def)
qed


lemma byte_bit_bound: "bit (b :: 8 word) j \<Longrightarrow> j < 8"
  using bit_imp_le_length [of b j] by simp

lemma ucast_push_byte:
  fixes b :: "8 word"
  assumes "n + 8 \<le> LENGTH('a)"
  shows "(ucast (push_bit n (ucast b :: 'a::len word)) :: 'b::len word) = push_bit n (ucast b)"
  using assms by (intro bit_word_eqI) (auto simp: bit_simps dest: byte_bit_bound)

lemma ucast_ucast_byte:
  fixes b :: "8 word"
  assumes "8 \<le> LENGTH('a)"
  shows "(ucast (ucast b :: 'a::len word) :: 'b::len word) = ucast b"
  using ucast_push_byte [of 0] assms by simp

lemma mirrors_little_endian [simp]: "mirrors as m \<Longrightarrow> \<not> big_endian as"
  by (simp add: mirrors_def)

lemma dwarf_readu16_mirrors:
  "mirrors as m \<Longrightarrow> dwarf_readu16 as a = local_readu16 m a"
  by (simp add: dwarf_readu16_def local_readu16_def dwarf_readu8_mirrors local_readu8_def
      or.commute)

lemma dwarf_readu32_mirrors:
  "mirrors as m \<Longrightarrow> dwarf_readu32 as a = local_readu32 m a"
  by (simp add: dwarf_readu32_def local_readu32_def dwarf_readu16_mirrors local_readu16_def
      unsigned_or_eq ucast_push_byte ucast_ucast_byte push_bit_or or.assoc or.commute
      or.left_commute add.commute)

lemma dwarf_readu64_mirrors:
  "mirrors as m \<Longrightarrow> dwarf_readu64 as a = local_readu64 m a"
  by (simp add: dwarf_readu64_def local_readu64_def dwarf_readu32_mirrors local_readu32_def
      unsigned_or_eq ucast_push_byte ucast_ucast_byte push_bit_or or.assoc or.commute
      or.left_commute add.commute)

lemmas reads_mirror = dwarf_readu8_mirrors dwarf_readu16_mirrors dwarf_readu32_mirrors
  dwarf_readu64_mirrors

section \<open>Reading LEB128 values through the accessor\<close>

lemma reads_uleb:
  "bytes_at (as_byte as) a (uleb_encode n) \<Longrightarrow> n < 2 ^ 64 \<Longrightarrow>
   dwarf_read_uleb128 as a = Inr (word_of_nat n, a + word_of_nat (length (uleb_encode n)))"
  by (simp add: dwarf_read_uleb128_def remote.read_uleb128_encode)

lemma reads_sleb:
  "bytes_at (as_byte as) a (sleb_encode i) \<Longrightarrow> - (2 ^ 63) \<le> i \<Longrightarrow> i < 2 ^ 63 \<Longrightarrow>
   dwarf_read_sleb128 as a = Inr (word_of_int i, a + word_of_nat (length (sleb_encode i)))"
  by (simp add: dwarf_read_sleb128_def remote.read_sleb128_encode)

end
