(* ===== verification/X86_64.thy ===== *)
theory X86_64
  imports DwarfRead
begin

text \<open>
  The x86-64 target: register numbers, save locations (\<open>dwarf_loc_t\<close> and its macros, in the
  build that supports remote unwinding), the unwind cursor, and reading a register through
  the cursor (\<open>dwarf_get\<close>, \<open>tdep_access_reg\<close> and \<open>unw_get_reg\<close>).
\<close>

section \<open>Registers\<close>

text \<open>DWARF columns; the library's register numbers coincide with them.\<close>

abbreviation (input) RAX :: nat where "RAX \<equiv> 0"
abbreviation (input) RDX :: nat where "RDX \<equiv> 1"
abbreviation (input) RCX :: nat where "RCX \<equiv> 2"
abbreviation (input) RBX :: nat where "RBX \<equiv> 3"
abbreviation (input) RSI :: nat where "RSI \<equiv> 4"
abbreviation (input) RDI :: nat where "RDI \<equiv> 5"
abbreviation (input) RBP :: nat where "RBP \<equiv> 6"
abbreviation (input) RSP :: nat where "RSP \<equiv> 7"
abbreviation (input) RIP :: nat where "RIP \<equiv> 16"

abbreviation (input) UNW_X86_64_RIP :: int where "UNW_X86_64_RIP \<equiv> 16"
abbreviation (input) UNW_X86_64_CFA :: int where "UNW_X86_64_CFA \<equiv> 17"
abbreviation (input) UNW_REG_IP :: int where "UNW_REG_IP \<equiv> 16"
abbreviation (input) TDEP_DWARF_SP :: nat where "TDEP_DWARF_SP \<equiv> 7"

definition dwarf_to_unw_regnum_map :: "nat list" where
  "dwarf_to_unw_regnum_map = [0, 1, 2, 3, 4, 5, 6, 7, 8, 9, 10, 11, 12, 13, 14, 15, 16]"

text \<open>
  The macro \<open>dwarf_to_unw_regnum\<close> on an unsigned register number, and on a signed one. In
  the signed instance the comparison with the map length is signed as well, so a negative
  number selects an element before the map.
\<close>

definition dwarf_to_unw_regnum :: "unw_word \<Rightarrow> nat" where
  "dwarf_to_unw_regnum reg = (if unat reg < 17 then dwarf_to_unw_regnum_map ! unat reg else 0)"

definition dwarf_to_unw_regnum_int :: "int \<Rightarrow> nat res" where
  "dwarf_to_unw_regnum_int reg =
     (if reg < 17
      then (if reg < 0 then Inl Out_of_bounds else arr_get dwarf_to_unw_regnum_map (nat reg))
      else Inr 0)"

section \<open>Save locations\<close>

record dwarf_loc =
  loc_val :: unw_word
  loc_type :: unw_word

abbreviation (input) DWARF_LOC_TYPE_MEM :: unw_word where "DWARF_LOC_TYPE_MEM \<equiv> 0"
abbreviation (input) DWARF_LOC_TYPE_FP :: unw_word where "DWARF_LOC_TYPE_FP \<equiv> 1"
abbreviation (input) DWARF_LOC_TYPE_REG :: unw_word where "DWARF_LOC_TYPE_REG \<equiv> 2"
abbreviation (input) DWARF_LOC_TYPE_VAL :: unw_word where "DWARF_LOC_TYPE_VAL \<equiv> 4"

definition DWARF_LOC :: "unw_word \<Rightarrow> unw_word \<Rightarrow> dwarf_loc" where
  "DWARF_LOC r t = \<lparr>loc_val = r, loc_type = t\<rparr>"

definition DWARF_NULL_LOC :: dwarf_loc where "DWARF_NULL_LOC = DWARF_LOC 0 0"
definition DWARF_VAL_LOC :: "unw_word \<Rightarrow> dwarf_loc" where
  "DWARF_VAL_LOC v = DWARF_LOC v DWARF_LOC_TYPE_VAL"
definition DWARF_MEM_LOC :: "unw_word \<Rightarrow> dwarf_loc" where
  "DWARF_MEM_LOC m = DWARF_LOC m DWARF_LOC_TYPE_MEM"
definition DWARF_REG_LOC :: "nat \<Rightarrow> dwarf_loc" where
  "DWARF_REG_LOC r = DWARF_LOC (word_of_nat r) DWARF_LOC_TYPE_REG"

definition DWARF_IS_NULL_LOC :: "dwarf_loc \<Rightarrow> bool" where
  "DWARF_IS_NULL_LOC l \<longleftrightarrow> loc_val l = 0 \<and> loc_type l = 0"
definition DWARF_IS_REG_LOC :: "dwarf_loc \<Rightarrow> bool" where
  "DWARF_IS_REG_LOC l \<longleftrightarrow> loc_type l AND DWARF_LOC_TYPE_REG \<noteq> 0"
definition DWARF_IS_MEM_LOC :: "dwarf_loc \<Rightarrow> bool" where
  "DWARF_IS_MEM_LOC l \<longleftrightarrow> loc_type l = DWARF_LOC_TYPE_MEM"
definition DWARF_IS_VAL_LOC :: "dwarf_loc \<Rightarrow> bool" where
  "DWARF_IS_VAL_LOC l \<longleftrightarrow> loc_type l AND DWARF_LOC_TYPE_VAL \<noteq> 0"

lemmas loc_defs = DWARF_LOC_def DWARF_NULL_LOC_def DWARF_VAL_LOC_def DWARF_MEM_LOC_def
  DWARF_REG_LOC_def DWARF_IS_NULL_LOC_def DWARF_IS_REG_LOC_def DWARF_IS_MEM_LOC_def
  DWARF_IS_VAL_LOC_def

lemma loc_predicates [simp]:
  "DWARF_IS_NULL_LOC DWARF_NULL_LOC"
  "\<not> DWARF_IS_NULL_LOC (DWARF_VAL_LOC v)"
  "\<not> DWARF_IS_NULL_LOC (DWARF_REG_LOC r)"
  "DWARF_IS_NULL_LOC (DWARF_MEM_LOC m) \<longleftrightarrow> m = 0"
  "DWARF_IS_REG_LOC (DWARF_REG_LOC r)"
  "\<not> DWARF_IS_REG_LOC (DWARF_MEM_LOC m)"
  "\<not> DWARF_IS_REG_LOC (DWARF_VAL_LOC v)"
  "DWARF_IS_MEM_LOC (DWARF_MEM_LOC m)"
  "\<not> DWARF_IS_MEM_LOC (DWARF_VAL_LOC v)"
  "DWARF_IS_VAL_LOC (DWARF_VAL_LOC v)"
  "\<not> DWARF_IS_VAL_LOC (DWARF_MEM_LOC m)"
  "loc_val (DWARF_VAL_LOC v) = v" "loc_val (DWARF_MEM_LOC v) = v"
  "loc_val (DWARF_REG_LOC r) = word_of_nat r"
  by (simp_all add: loc_defs)

section \<open>The cursor\<close>

text \<open>
  \<open>unw_tdep_frame_t\<close>, what the fast trace remembers of a frame. The offsets are bit fields
  of 29, 15 and 15 bits; \<open>trunc_field\<close> is the value an assignment leaves in such a field.
\<close>

datatype frame_type =
    UNW_X86_64_FRAME_ALIGNED | UNW_X86_64_FRAME_STANDARD | UNW_X86_64_FRAME_SIGRETURN
  | UNW_X86_64_FRAME_OTHER | UNW_X86_64_FRAME_GUESSED

record unw_tdep_frame =
  virtual_address :: unw_word
  fr_type :: frame_type
  last_frame :: bool
  cfa_reg_rsp :: bool
  cfa_reg_offset :: int
  rbp_cfa_offset :: int
  rsp_cfa_offset :: int

definition trunc_field :: "nat \<Rightarrow> unw_word \<Rightarrow> int" where
  "trunc_field n w = signed_take_bit (n - 1) (sint w)"

datatype sigcontext_format =
    X86_64_SCF_NONE | X86_64_SCF_LINUX_RT_SIGFRAME | X86_64_SCF_FREEBSD_SIGFRAME
  | X86_64_SCF_FREEBSD_SYSCALL | X86_64_SCF_SOLARIS_SIGFRAME

text \<open>
  \<open>struct dwarf_cursor\<close> and the \<open>struct cursor\<close> that starts with it. The members \<open>hint\<close>
  and \<open>prev_rs\<close> are 16-bit numbers.
\<close>

record dwarf_cursor =
  c_as :: addr_space
  c_cfa :: unw_word
  c_ip :: unw_word
  c_args_size :: unw_word
  c_eh_args :: "unw_word list"
  c_eh_valid_mask :: "32 word"
  c_loc :: "dwarf_loc list"
  c_stash_frames :: bool
  c_use_prev_instr :: bool
  c_pi_valid :: bool
  c_pi_is_dynamic :: bool
  c_pi :: unw_proc_info
  c_hint :: "16 word"
  c_prev_rs :: "16 word"

record cursor = dwarf_cursor +
  c_frames :: unw_word
  c_frame_info :: unw_tdep_frame
  c_sigcontext_format :: sigcontext_format
  c_sigcontext_addr :: unw_word

text \<open>The arrays of a cursor have the lengths they are declared with.\<close>

definition wf_cursor :: "cursor \<Rightarrow> bool" where
  "wf_cursor c \<longleftrightarrow> length (c_loc c) = DWARF_NUM_PRESERVED_REGS \<and> length (c_eh_args c) = 2"

section \<open>Reading registers\<close>

definition dwarf_get :: "cursor \<Rightarrow> dwarf_loc \<Rightarrow> unw_word res" where
  "dwarf_get c l =
     (if DWARF_IS_NULL_LOC l then Inl (Err UNW_EBADREG)
      else if DWARF_IS_REG_LOC l then
        lift_acc (access_reg (c_as c) (sint (ucast (loc_val l) :: 32 word)))
      else if DWARF_IS_MEM_LOC l then lift_acc (access_mem (c_as c) (loc_val l))
      else if \<not> DWARF_IS_VAL_LOC l then Inl Aborted
      else Inr (loc_val l))"

text \<open>\<open>tdep_access_reg\<close> with \<open>write = 0\<close>.\<close>

definition tdep_access_reg_read :: "cursor \<Rightarrow> int \<Rightarrow> unw_word res" where
  "tdep_access_reg_read c reg =
     (if reg = UNW_X86_64_RIP then
        rbind (arr_get (c_loc c) RIP) (dwarf_get c)
      else if reg = UNW_X86_64_CFA then Inr (c_cfa c)
      else if reg = int RAX \<or> reg = int RDX then
        (let arg_num = nat (reg - int RAX); mask = push_bit arg_num 1
         in if c_eh_valid_mask c AND mask \<noteq> 0 then arr_get (c_eh_args c) arg_num
            else rbind (arr_get (c_loc c) (if reg = int RAX then RAX else RDX)) (dwarf_get c))
      else if 2 \<le> reg \<and> reg \<le> 15 then
        rbind (arr_get (c_loc c) (nat reg)) (dwarf_get c)
      else Inl (Err UNW_EBADREG))"

definition unw_get_reg :: "cursor \<Rightarrow> int \<Rightarrow> unw_word res" where
  "unw_get_reg c regnum =
     (if regnum = UNW_REG_IP then Inr (c_ip c) else tdep_access_reg_read c regnum)"

section \<open>Facts about reading registers\<close>

lemma regnum_map_length [simp]: "length dwarf_to_unw_regnum_map = 17"
  by (simp add: dwarf_to_unw_regnum_map_def)

lemma regnum_map_nth: "n < 17 \<Longrightarrow> dwarf_to_unw_regnum_map ! n = n"
  unfolding dwarf_to_unw_regnum_map_def
  by (cases n rule: nat.exhaust) (simp_all add: less_Suc_eq numeral_nat, auto)

lemma dwarf_to_unw_regnum_eq: "dwarf_to_unw_regnum r = (if unat r < 17 then unat r else 0)"
  by (simp add: dwarf_to_unw_regnum_def regnum_map_nth)

lemma dwarf_to_unw_regnum_int_nonneg:
  "0 \<le> r \<Longrightarrow> dwarf_to_unw_regnum_int r = Inr (if r < 17 then nat r else 0)"
  by (simp add: dwarf_to_unw_regnum_int_def regnum_map_nth)

lemma dwarf_get_in_bounds [simp]: "in_bounds (dwarf_get c l)"
  by (simp add: dwarf_get_def)

lemma arr_get_in_bounds [simp]: "i < length xs \<Longrightarrow> in_bounds (arr_get xs i)"
  by simp

text \<open>Reading any register of a well-formed cursor stays within its arrays.\<close>

lemma unw_get_reg_in_bounds:
  assumes "wf_cursor c"
  shows "in_bounds (unw_get_reg c r)"
proof -
  have "length (c_loc c) = 17" "length (c_eh_args c) = 2"
    using assms by (simp_all add: wf_cursor_def)
  then show ?thesis
    by (auto simp: unw_get_reg_def tdep_access_reg_read_def Let_def intro!: in_bounds_rbind)
qed

lemma unw_get_reg_ip: "unw_get_reg c UNW_REG_IP = Inr (c_ip c)"
  by (simp add: unw_get_reg_def)

end
