(* ===== verification/Ram.thy ===== *)
theory Ram
  imports DwarfReadLemmas X86_64
begin

text \<open>
  Address spaces over a byte memory: the accessor answers with the aligned words of the
  memory, as a client that maps a core file or an attached process does. Such a space
  delivers exactly the bytes of the memory. They serve as instances of the byte-level
  statements about the readers and parsers.
\<close>

definition ram :: "memory \<Rightarrow> addr_space" where
  "ram m = \<lparr>access_mem = (\<lambda>a. Inr (word_at m a)), access_reg = (\<lambda>_. Inl UNW_EBADREG),
     big_endian = False, addr_size = 8\<rparr>"

definition bytes_from :: "unw_word \<Rightarrow> 8 word list \<Rightarrow> memory" where
  "bytes_from a bs = (\<lambda>x. if unat (x - a) < length bs then bs ! unat (x - a) else 0)"

lemma ram_simps [simp]:
  "big_endian (ram m) = False" "addr_size (ram m) = 8"
  "access_mem (ram m) a = Inr (word_at m a)" "access_reg (ram m) r = Inl UNW_EBADREG"
  by (simp_all add: ram_def)

lemma mirrors_ram [simp]: "mirrors (ram m) m"
  by (simp add: mirrors_def)

lemma as_byte_mirrors:
  assumes "mirrors as m"
  shows "as_byte as a = Some (m a)"
proof (cases "as_byte as a")
  case None
  then show ?thesis
    using dwarf_readu8_mirrors [OF assms, of a] remote.rd_None [OF None]
    by (simp add: local_readu8_def)
next
  case (Some b)
  then show ?thesis
    using dwarf_readu8_mirrors [OF assms, of a] remote.rd_Some [OF Some]
    by (simp add: local_readu8_def)
qed

lemma as_byte_ram [simp]: "as_byte (ram m) a = Some (m a)"
  by (rule as_byte_mirrors) simp

lemma bytes_at_nth:
  "(\<And>i. i < length bs \<Longrightarrow> f (a + word_of_nat i) = Some (bs ! i)) \<Longrightarrow> bytes_at f a bs"
proof (induction bs arbitrary: a)
  case (Cons b bs)
  have "bytes_at f (a + 1) bs"
    using Cons.prems [of "Suc _"] by (intro Cons.IH) (simp add: add.assoc)
  moreover have "f a = Some b" using Cons.prems [of 0] by simp
  ultimately show ?case by simp
qed simp

lemma bytes_from_nth:
  assumes "i < length bs" and "length bs \<le> 2 ^ 63"
  shows "bytes_from a bs (a + word_of_nat i) = bs ! i"
proof -
  have "unat (word_of_nat i :: unw_word) = i"
    using assms by (simp add: unat_of_nat)
  with assms(1) show ?thesis by (simp add: bytes_from_def)
qed

lemma bytes_at_bytes_from [simp]:
  "length bs \<le> 2 ^ 63 \<Longrightarrow> bytes_at (as_byte (ram (bytes_from a bs))) a bs"
  by (rule bytes_at_nth) (simp add: bytes_from_nth)

text \<open>The readers of a mirrored memory are the local ones.\<close>

lemma dwarf_readw_mirrors:
  "mirrors as m \<Longrightarrow> addr_size as = 8 \<Longrightarrow> dwarf_readw as a = local_readu64 m a"
  by (simp add: dwarf_readw_def reads_mirror local_readu64_def)

lemma leb_mirrors:
  assumes "mirrors as m"
  shows "dwarf_read_uleb128 as = read_uleb128 (local_readu8 m)"
    and "dwarf_read_sleb128 as = read_sleb128 (local_readu8 m)"
proof -
  have "dwarf_readu8 as = local_readu8 m"
    using assms by (intro ext) (rule dwarf_readu8_mirrors)
  then show "dwarf_read_uleb128 as = read_uleb128 (local_readu8 m)"
    "dwarf_read_sleb128 as = read_sleb128 (local_readu8 m)"
    by (simp_all add: dwarf_read_uleb128_def dwarf_read_sleb128_def)
qed

text \<open>A cursor over an address space with nothing known about the frame.\<close>

definition blank_cursor :: "addr_space \<Rightarrow> cursor" where
  "blank_cursor as = \<lparr>c_as = as, c_cfa = 0, c_ip = 0, c_args_size = 0, c_eh_args = [0, 0],
     c_eh_valid_mask = 0, c_loc = replicate DWARF_NUM_PRESERVED_REGS DWARF_NULL_LOC,
     c_stash_frames = False, c_use_prev_instr = False, c_pi_valid = False,
     c_pi_is_dynamic = False, c_pi = zero_pi, c_hint = 0, c_prev_rs = 0, c_frames = 0,
     c_frame_info = \<lparr>virtual_address = 0, fr_type = UNW_X86_64_FRAME_OTHER, last_frame = False,
       cfa_reg_rsp = False, cfa_reg_offset = 0, rbp_cfa_offset = 0, rsp_cfa_offset = 0\<rparr>,
     c_sigcontext_format = X86_64_SCF_NONE, c_sigcontext_addr = 0\<rparr>"

lemma blank_cursor_simps [simp]:
  "c_as (blank_cursor as) = as" "wf_cursor (blank_cursor as)"
  "c_cfa (blank_cursor as) = 0" "c_ip (blank_cursor as) = 0"
  by (simp_all add: blank_cursor_def wf_cursor_def)

end
