(* ===== verification/ReadProps.thy ===== *)
theory ReadProps
  imports Ram
begin

text \<open>The properties of the readers of \<open>include/dwarf_i.h\<close>, each with an instance.\<close>

section \<open>LEB128\<close>

text \<open>C35. Decoding an unsigned LEB128 value inverts the encoding of the DWARF standard for
  every number below \<open>2 ^ 64\<close>, and leaves the address behind the last byte.\<close>

theorem uleb128_roundtrip:
  assumes "bytes_at (as_byte as) a (uleb_encode n)" and "n < 2 ^ 64"
  shows "dwarf_read_uleb128 as a = Inr (word_of_nat n, a + word_of_nat (length (uleb_encode n)))"
  unfolding dwarf_read_uleb128_def by (rule remote.read_uleb128_encode [OF assms])

theorem uleb128_roundtrip_witness:
  "dwarf_read_uleb128 (ram (bytes_from 0x1000 (uleb_encode 624485))) 0x1000
    = Inr (624485, 0x1000 + word_of_nat (length (uleb_encode 624485)))"
  using uleb128_roundtrip [of "ram (bytes_from 0x1000 (uleb_encode 624485))" "0x1000" 624485]
  by (simp add: uleb_encode.simps bytes_from_def)

text \<open>Decoding a signed LEB128 value inverts the encoding for every 64-bit signed number,
  the sign included.\<close>

lemma sleb128_roundtrip:
  assumes "bytes_at (as_byte as) a (sleb_encode i)" and "- (2 ^ 63) \<le> i" and "i < 2 ^ 63"
  shows "dwarf_read_sleb128 as a = Inr (word_of_int i, a + word_of_nat (length (sleb_encode i)))"
  unfolding dwarf_read_sleb128_def by (rule remote.read_sleb128_encode [OF assms])

lemma sleb128_roundtrip_witness:
  "dwarf_read_sleb128 (ram (bytes_from 0x1000 (sleb_encode (- 129)))) 0x1000
    = Inr (word_of_int (- 129), 0x1000 + word_of_nat (length (sleb_encode (- 129))))"
  using sleb128_roundtrip [of "ram (bytes_from 0x1000 (sleb_encode (- 129)))" "0x1000" "- 129"]
  by (simp add: sleb_encode.simps bytes_from_def)

text \<open>The number of which bytes hold the groups of seven bits, whether or not an encoder would write them.\<close>

fun leb_value :: "8 word list \<Rightarrow> nat" where
  "leb_value [] = 0"
| "leb_value (b # bs) = unat b mod 128 + 128 * leb_value bs"

lemma leb_word_value: "leb_word bs = word_of_nat (leb_value bs)"
proof (induction bs)
  case (Cons b bs)
  have b: "(ucast b AND 0x7f :: unw_word) = word_of_nat (unat b mod 128)"
  proof -
    have "(ucast b AND 0x7f :: unw_word) = take_bit 7 (word_of_nat (unat b))"
      by (simp add: take_bit_eq_mask mask_eq_exp_minus_1)
    also have "\<dots> = word_of_nat (take_bit 7 (unat b))" by (rule bit_word_eqI) (simp add: bit_simps)
    finally show ?thesis by (simp add: take_bit_eq_mod)
  qed
  have "unat b mod 128 OR push_bit 7 (leb_value bs) = unat b mod 128 + 128 * leb_value bs"
    using split_low7 [of "unat b mod 128 + 128 * leb_value bs"] by simp
  then have "word_of_nat (unat b mod 128) OR push_bit 7 (word_of_nat (leb_value bs))
      = (word_of_nat (unat b mod 128 + 128 * leb_value bs) :: unw_word)"
    by (metis of_nat_or_eq push_bit_of_nat)
  then show ?case by (simp only: leb_word.simps leb_value.simps Cons.IH b)
qed simp

lemma continuation_byte: "(b :: 8 word) AND 0x80 \<noteq> 0 \<longleftrightarrow> 128 \<le> b"
proof -
  have "unat b < 256" using unsigned_less [of b, where ?'a = nat] by simp
  then have "odd (unat b div 128) \<longleftrightarrow> 128 \<le> unat b" by presburger
  moreover have "bit b 7 \<longleftrightarrow> odd (unat b div 128)" using bit_iff_odd [of "unat b" 7] by (simp add: bit_unsigned_iff bit_imp_le_length)
  ultimately show ?thesis by (simp add: and_0x80 word_le_nat_alt)
qed

lemma last_leb_byte: "(b :: 8 word) AND 0x80 = 0 \<longleftrightarrow> b < 128"
  using continuation_byte [of b] by (auto simp: not_le)

lemma is_leb_continued: "\<forall>c \<in> set cs. 128 \<le> c \<Longrightarrow> b < 128 \<Longrightarrow> is_leb (cs @ [b])"
  by (induction cs) (auto simp: is_leb_Cons last_leb_byte not_less)

text \<open>C37. The unsigned reader decodes any ten bytes and not only what an encoder writes: the value is that of
  the groups of seven bits up to the first byte without a continuation bit, reduced to the 64 bits of a word,
  and the address behind that byte; ten continuation bytes end in a shift by 70, and no further byte is part
  of a value.\<close>

theorem uleb128_of_any_bytes:
  assumes "bytes_at (as_byte as) a bs" "length bs = 11"
  shows "dwarf_read_uleb128 as a =
    (let n = length (takeWhile (\<lambda>b. 128 \<le> b) bs) in
     if n < 10 then Inr (word_of_nat (leb_value (take (n + 1) bs)), a + word_of_nat (n + 1)) else Inl Bad_shift)"
proof -
  define n where "n = length (takeWhile (\<lambda>b. 128 \<le> b) bs)"
  show ?thesis
  proof (cases "n < 10")
    case True
    have "take n bs = takeWhile (\<lambda>b. 128 \<le> b) bs" unfolding n_def by (rule takeWhile_eq_take [symmetric])
    then have "\<forall>c \<in> set (take n bs). 128 \<le> c" using set_takeWhileD by fastforce
    moreover have "bs ! n < 128" using nth_length_takeWhile [of "\<lambda>b. 128 \<le> b" bs] True assms(2) by (simp add: n_def not_le)
    moreover have split: "take (n + 1) bs = take n bs @ [bs ! n]" using True assms(2) by (simp add: take_Suc_conv_app_nth)
    ultimately have leb: "is_leb (take (n + 1) bs)" using is_leb_continued by simp
    have "bytes_at (as_byte as) a (take (n + 1) bs @ drop (n + 1) bs)" using assms(1) by simp
    then have "bytes_at (as_byte as) a (take (n + 1) bs)" by (simp only: bytes_at_append)
    from remote.leb128_loop_bytes [OF leb this, of 0 0] show ?thesis
      using True assms(2)
      by (simp add: dwarf_read_uleb128_def read_uleb128_def leb_word_value n_def [symmetric] Let_def)
  next
    case False
    have "take n bs = takeWhile (\<lambda>b. 128 \<le> b) bs" unfolding n_def by (rule takeWhile_eq_take [symmetric])
    then have "\<forall>c \<in> set (take n bs). 128 \<le> c" using set_takeWhileD by fastforce
    moreover have "take 10 bs = take 10 (take n bs)" using False by simp
    ultimately have "\<forall>c \<in> set (take 10 bs). 128 \<le> c" by (metis in_set_takeD)
    then have more: "\<forall>c \<in> set (take 10 bs). c AND 0x80 \<noteq> 0" by (simp add: last_leb_byte not_less)
    have "take 10 bs @ [bs ! 10] = bs" using assms(2) take_Suc_conv_app_nth [of 10 bs] by simp
    then have "bytes_at (as_byte as) a (take 10 bs @ [bs ! 10])" using assms(1) by simp
    from remote.leb128_loop_continues [OF this more, of 0 0] have "dwarf_read_uleb128 as a = Inl Bad_shift"
      using assms(2) by (simp add: dwarf_read_uleb128_def read_uleb128_def)
    then show ?thesis using False by (simp add: n_def [symmetric] Let_def)
  qed
qed

theorem uleb128_of_any_bytes_witness:
  "dwarf_read_uleb128 (ram (bytes_from 0x1000 [0x85, 0x80, 0x00, 0xff, 1, 2, 3, 4, 5, 6, 7])) 0x1000 = Inr (5, 0x1003)"
  using uleb128_of_any_bytes [of "ram (bytes_from 0x1000 [0x85, 0x80, 0x00, 0xff, 1, 2, 3, 4, 5, 6, 7])" "0x1000"
      "[0x85, 0x80, 0x00, 0xff, 1, 2, 3, 4, 5, 6, 7]"]
  by (simp add: bytes_from_def Let_def)

section \<open>Builds\<close>

text \<open>Over an accessor that mirrors a byte memory, the remote-capable readers and the
  local-only readers agree on every width and on LEB128 values, at every address.\<close>

lemma remote_local_agree:
  assumes "mirrors as m"
  shows "dwarf_readu8 as a = local_readu8 m a \<and> dwarf_readu16 as a = local_readu16 m a
    \<and> dwarf_readu32 as a = local_readu32 m a \<and> dwarf_readu64 as a = local_readu64 m a
    \<and> dwarf_read_uleb128 as a = read_uleb128 (local_readu8 m) a
    \<and> dwarf_read_sleb128 as a = read_sleb128 (local_readu8 m) a"
  using assms by (simp add: reads_mirror leb_mirrors)

lemma remote_local_agree_witness:
  "dwarf_readu32 (ram (bytes_from 0x1003 [1, 2, 3, 4])) 0x1003 = Inr (0x04030201, 0x1007)"
  using remote_local_agree [OF mirrors_ram, of "bytes_from 0x1003 [1, 2, 3, 4]" "0x1003"]
  by (simp add: local_readu32_def bytes_from_def)

section \<open>Encoded pointers\<close>

definition le32 :: "int \<Rightarrow> 8 word list" where
  "le32 i = [word_of_int i, word_of_int (drop_bit 8 i), word_of_int (drop_bit 16 i),
     word_of_int (drop_bit 24 i)]"

lemma readu32_le32:
  assumes "bytes_at (as_byte as) a (le32 i)" and "\<not> big_endian as"
  shows "dwarf_readu32 as a = Inr (word_of_int i, a + 4)"
proof -
  have byte: "bit (word_of_int j :: 8 word) k \<Longrightarrow> k < 8" for j k
    using bit_imp_le_length [of "word_of_int j :: 8 word" k] by simp
  have "dwarf_readu32 as a = Inr (ucast (word_of_int i :: 8 word)
      OR push_bit 8 (ucast (word_of_int (drop_bit 8 i) :: 8 word))
      OR push_bit 16 (ucast (word_of_int (drop_bit 16 i) :: 8 word))
      OR push_bit 24 (ucast (word_of_int (drop_bit 24 i) :: 8 word)), a + 4)"
    using assms by (simp add: le32_def dwarf_readu32_def dwarf_readu16_def remote.rd_Some
      unsigned_or_eq ucast_push_byte ucast_ucast_byte push_bit_or or.assoc or.commute
      or.left_commute add.assoc)
  also have "ucast (word_of_int i :: 8 word)
      OR push_bit 8 (ucast (word_of_int (drop_bit 8 i) :: 8 word))
      OR push_bit 16 (ucast (word_of_int (drop_bit 16 i) :: 8 word))
      OR push_bit 24 (ucast (word_of_int (drop_bit 24 i) :: 8 word)) = (word_of_int i :: 32 word)"
  proof (rule bit_word_eqI)
    fix n assume "n < LENGTH(32)"
    then consider "n < 8" | "8 \<le> n" "n < 16" | "16 \<le> n" "n < 24" | "24 \<le> n" "n < 32"
      by fastforce
    then show "bit (ucast (word_of_int i :: 8 word)
        OR push_bit 8 (ucast (word_of_int (drop_bit 8 i) :: 8 word))
        OR push_bit 16 (ucast (word_of_int (drop_bit 16 i) :: 8 word))
        OR push_bit 24 (ucast (word_of_int (drop_bit 24 i) :: 8 word)) :: 32 word) n
        = bit (word_of_int i :: 32 word) n"
      by cases (auto simp: bit_simps dest!: byte)
  qed
  finally show ?thesis .
qed

lemma pcrel_sdata4:
  assumes "bytes_at (as_byte as) a (le32 d)" and "\<not> big_endian as" and "addr_size as = 8"
    and "- (2 ^ 31) \<le> d" and "d < 2 ^ 31" and "d \<noteq> 0"
  shows "dwarf_read_encoded_pointer as (DW_EH_PE_pcrel OR DW_EH_PE_sdata4) pi a
    = Inr (a + word_of_int d, a + 4)"
proof -
  have d: "scast (word_of_int d :: 32 word) = (word_of_int d :: unw_word)"
    using assms(4,5) by (simp add: signed_of_int signed_take_bit_int_eq_self)
  have "(word_of_int d :: unw_word) \<noteq> 0"
    using assms(4-6) by (intro word_of_int_nonzero) auto
  with d show ?thesis
    using readu32_le32 [OF assms(1,2)] assms(3)
    by (simp add: dwarf_read_encoded_pointer_def read_pe_format_def apply_pe_base_def
        trim_to_addr_size_def dwarf_reads32_def Let_def add.commute [of a])
qed

text \<open>A pointer in the encoding the linkers use for frame tables, relative to its own
  address and stored in four signed bytes, is read back as that address plus the offset.\<close>

lemma encoded_pcrel_sdata4:
  assumes "bytes_at (as_byte as) a (le32 d)" and "\<not> big_endian as" and "addr_size as = 8"
    and "- (2 ^ 31) \<le> d" and "d < 2 ^ 31" and "d \<noteq> 0"
  shows "dwarf_read_encoded_pointer as (DW_EH_PE_pcrel OR DW_EH_PE_sdata4) pi a
    = Inr (a + word_of_int d, a + 4)"
  by (rule pcrel_sdata4 [OF assms])

lemma encoded_pcrel_sdata4_witness:
  "dwarf_read_encoded_pointer (ram (bytes_from 0x1000 (le32 (- 16)))) 0x1b zero_pi 0x1000
    = Inr (0xff0, 0x1004)"
  using encoded_pcrel_sdata4 [of "ram (bytes_from 0x1000 (le32 (- 16)))" "0x1000" "- 16" zero_pi]
  by (simp add: le32_def bytes_from_def)

text \<open>A pointer in the signed LEB128 encoding is read with the unsigned reader: a stored
  negative offset comes back without its sign, as 128 plus the offset.\<close>

lemma encoded_sleb128_loses_sign:
  assumes "bytes_at (as_byte as) a (sleb_encode i)" and "- 64 \<le> i" and "i < 0"
    and "addr_size as = 8"
  shows "dwarf_read_encoded_pointer as DW_EH_PE_sleb128 pi a = Inr (word_of_int (128 + i), a + 1)
    \<and> word_of_int (128 + i) \<noteq> (word_of_int i :: unw_word)"
proof -
  have small: "nat (128 + i) < 128" using assms(2,3) by linarith
  have "sleb_encode i = uleb_encode (nat (128 + i))"
  proof -
    have "(word_of_int i AND 0x7f :: 8 word) = word_of_int (128 + i)"
    proof -
      have "(word_of_int i AND 0x7f :: 8 word) = take_bit 7 (word_of_int i)" by (rule byte_and_0x7f)
      also have "\<dots> = word_of_int (take_bit 7 i)" by (rule bit_word_eqI) (simp add: bit_simps)
      also have "take_bit 7 i = 128 + i"
        using assms(2,3) by (simp add: take_bit_eq_mod) presburger
      finally show ?thesis .
    qed
    then show ?thesis using assms(2,3) small
      by (simp add: sleb_encode_small uleb_encode.simps [of "nat (128 + i)"])
  qed
  with assms(1) have "bytes_at (as_byte as) a (uleb_encode (nat (128 + i)))" by simp
  from remote.read_uleb128_encode [OF this] have "dwarf_read_uleb128 as a
      = Inr (word_of_int (128 + i), a + 1)"
    using assms(2,3) small by (simp add: dwarf_read_uleb128_def uleb_encode.simps [of "nat (128 + i)"])
  moreover have "(word_of_int (128 + i) :: unw_word) \<noteq> 0"
    using assms(2,3) by (intro word_of_int_nonzero) auto
  moreover have "(128 :: unw_word) \<noteq> 0" by simp
  ultimately show ?thesis
    using assms(4) by (simp add: dwarf_read_encoded_pointer_def read_pe_format_def
        apply_pe_base_def trim_to_addr_size_def)
qed

lemma encoded_sleb128_loses_sign_witness:
  "dwarf_read_encoded_pointer (ram (bytes_from 0x1000 [0x7f])) 0x09 zero_pi 0x1000 = Inr (127, 0x1001)"
  using encoded_sleb128_loses_sign [of "ram (bytes_from 0x1000 [0x7f])" "0x1000" "- 1" zero_pi]
  by (simp add: sleb_encode_small bytes_from_def)

end
