(* ===== verification/Expr.thy ===== *)
theory Expr
  imports X86_64
begin

text \<open>
  The evaluator of DWARF location expressions, \<open>src/dwarf/Gexpr.c\<close>: operand signatures and
  their reader, the pattern match for stack-aligning prologues, the bounded value stack of
  \<open>dwarf_eval_expr\<close> with its macros, one definition per group of operators, the step that
  fetches, decodes and executes one operator, and the loop. The loop is partial: a backward
  branch may run forever.
\<close>

section \<open>Operands\<close>

datatype operand_type = VAL8 | VAL16 | VAL32 | VAL64 | ULEB128 | SLEB128 | OFFSET | ADDR

text \<open>The table \<open>operands\<close>: the operand types of an opcode, in order.\<close>

definition operands :: "dwarf_expr_op \<Rightarrow> operand_type list" where
  "operands opc =
     (case opc of
        DW_OP_addr \<Rightarrow> [ADDR]
      | DW_OP_const1u \<Rightarrow> [VAL8] | DW_OP_const1s \<Rightarrow> [VAL8]
      | DW_OP_const2u \<Rightarrow> [VAL16] | DW_OP_const2s \<Rightarrow> [VAL16]
      | DW_OP_const4u \<Rightarrow> [VAL32] | DW_OP_const4s \<Rightarrow> [VAL32]
      | DW_OP_const8u \<Rightarrow> [VAL64] | DW_OP_const8s \<Rightarrow> [VAL64]
      | DW_OP_constu \<Rightarrow> [ULEB128] | DW_OP_consts \<Rightarrow> [SLEB128]
      | DW_OP_pick \<Rightarrow> [VAL8] | DW_OP_plus_uconst \<Rightarrow> [ULEB128]
      | DW_OP_skip \<Rightarrow> [VAL16] | DW_OP_bra \<Rightarrow> [VAL16]
      | DW_OP_breg _ \<Rightarrow> [SLEB128]
      | DW_OP_regx \<Rightarrow> [ULEB128] | DW_OP_fbreg \<Rightarrow> [SLEB128]
      | DW_OP_bregx \<Rightarrow> [ULEB128, SLEB128]
      | DW_OP_piece \<Rightarrow> [ULEB128]
      | DW_OP_deref_size \<Rightarrow> [VAL8] | DW_OP_xderef_size \<Rightarrow> [VAL8]
      | DW_OP_call2 \<Rightarrow> [VAL16] | DW_OP_call4 \<Rightarrow> [VAL32] | DW_OP_call_ref \<Rightarrow> [OFFSET]
      | _ \<Rightarrow> [])"

definition sword :: "addr_space \<Rightarrow> unw_word \<Rightarrow> int res" where
  "sword as val =
     (if addr_size as = 1 then Inr (sint (ucast val :: 8 word))
      else if addr_size as = 2 then Inr (sint (ucast val :: 16 word))
      else if addr_size as = 4 then Inr (sint (ucast val :: 32 word))
      else if addr_size as = 8 then Inr (sint val)
      else Inl Aborted)"

definition resolve_operand_type :: "addr_space \<Rightarrow> operand_type \<Rightarrow> operand_type res" where
  "resolve_operand_type as t =
     (if t = ADDR then
        (if addr_size as = 1 then Inr VAL8
         else if addr_size as = 2 then Inr VAL16
         else if addr_size as = 4 then Inr VAL32
         else if addr_size as = 8 then Inr VAL64
         else Inl Aborted)
      else Inr t)"

definition read_operand :: "addr_space \<Rightarrow> operand_type \<Rightarrow> unw_word reader" where
  "read_operand as operand_type addr =
     rbind (resolve_operand_type as operand_type) (\<lambda>t.
       case t of
         VAL8 \<Rightarrow> rbind (dwarf_readu8 as addr) (\<lambda>(u8, a). Inr (ucast u8, a))
       | VAL16 \<Rightarrow> rbind (dwarf_readu16 as addr) (\<lambda>(u16, a). Inr (ucast u16, a))
       | VAL32 \<Rightarrow> rbind (dwarf_readu32 as addr) (\<lambda>(u32, a). Inr (ucast u32, a))
       | VAL64 \<Rightarrow> dwarf_readu64 as addr
       | ULEB128 \<Rightarrow> dwarf_read_uleb128 as addr
       | SLEB128 \<Rightarrow> dwarf_read_sleb128 as addr
       | _ \<Rightarrow> Inl (Err UNW_EINVAL))"

text \<open>
  \<open>dwarf_stack_aligned\<close>: \<open>Some offset\<close> for the return value 1 with the offset it stores,
  \<open>None\<close> for the return value 0. Every failed read also returns 0, an abort or an undefined
  shift is a fault.
\<close>

definition or_no_match :: "'a res \<Rightarrow> ('a \<Rightarrow> 'b option res) \<Rightarrow> 'b option res" where
  "or_no_match m f =
     (case m of Inl (Err e) \<Rightarrow> Inr None | Inl flt \<Rightarrow> Inl flt | Inr x \<Rightarrow> f x)"

definition dwarf_stack_aligned ::
  "addr_space \<Rightarrow> unw_word \<Rightarrow> unw_word \<Rightarrow> unw_word option res" where
  "dwarf_stack_aligned as cfa_addr rbp_addr =
     or_no_match (dwarf_read_uleb128 as rbp_addr) (\<lambda>(len, rbp_addr).
     if len \<noteq> 2 then Inr None else
     or_no_match (dwarf_readu8 as rbp_addr) (\<lambda>(opcode, rbp_addr).
     if dwarf_expr_op_of opcode \<noteq> DW_OP_breg 6 then Inr None else
     or_no_match (read_operand as (operands (dwarf_expr_op_of opcode) ! 0) rbp_addr)
       (\<lambda>(operand1, _).
     if operand1 \<noteq> 0 then Inr None else
     or_no_match (dwarf_read_uleb128 as cfa_addr) (\<lambda>(len, cfa_addr).
     if len \<noteq> 3 then Inr None else
     or_no_match (dwarf_readu8 as cfa_addr) (\<lambda>(opcode, cfa_addr).
     if dwarf_expr_op_of opcode \<noteq> DW_OP_breg 6 then Inr None else
     or_no_match (read_operand as (operands (dwarf_expr_op_of opcode) ! 0) cfa_addr)
       (\<lambda>(operand1, cfa_addr).
     or_no_match (dwarf_readu8 as cfa_addr) (\<lambda>(opcode, _).
     if dwarf_expr_op_of opcode \<noteq> DW_OP_deref then Inr None
     else Inr (Some operand1))))))))"

section \<open>The value stack\<close>

abbreviation (input) MAX_EXPR_STACK_SIZE :: nat where "MAX_EXPR_STACK_SIZE \<equiv> 64"

text \<open>The local array \<open>stack\<close> and the unsigned index \<open>tos\<close>.\<close>

record expr_stack =
  es_stack :: "unw_word list"
  es_tos :: "32 word"

text \<open>
  The macros. The bound tests are unsigned, so an index below zero is a large one; the
  difference with the operand of \<open>pick\<close> is taken at 64 bits.
\<close>

definition expr_pop :: "expr_stack \<Rightarrow> (unw_word \<times> expr_stack) res" where
  "expr_pop s =
     (if es_tos s - 1 \<ge> 64 then Inl (Err UNW_EINVAL)
      else rbind (arr_get (es_stack s) (unat (es_tos s - 1))) (\<lambda>x.
           Inr (x, s\<lparr>es_tos := es_tos s - 1\<rparr>)))"

definition expr_push :: "expr_stack \<Rightarrow> unw_word \<Rightarrow> expr_stack res" where
  "expr_push s x =
     (if es_tos s \<ge> 64 then Inl (Err UNW_EINVAL)
      else rbind (arr_set (es_stack s) (unat (es_tos s)) x) (\<lambda>st.
           Inr \<lparr>es_stack = st, es_tos = es_tos s + 1\<rparr>))"

definition expr_pick :: "expr_stack \<Rightarrow> unw_word \<Rightarrow> unw_word res" where
  "expr_pick s n =
     (let i = ucast (es_tos s - 1) - n
      in if i \<ge> 64 then Inl (Err UNW_EINVAL) else arr_get (es_stack s) (unat i))"

text \<open>The pattern of the one- and two-operand operators: pop, compute, push.\<close>

definition expr_un :: "expr_stack \<Rightarrow> (unw_word \<Rightarrow> unw_word res) \<Rightarrow> expr_stack res" where
  "expr_un s f =
     rbind (expr_pop s) (\<lambda>(tmp1, s). rbind (f tmp1) (expr_push s))"

definition expr_bin :: "expr_stack \<Rightarrow> (unw_word \<Rightarrow> unw_word \<Rightarrow> unw_word res) \<Rightarrow> expr_stack res" where
  "expr_bin s f =
     rbind (expr_pop s) (\<lambda>(tmp1, s).
     rbind (expr_pop s) (\<lambda>(tmp2, s).
     rbind (f tmp1 tmp2) (expr_push s)))"

section \<open>The operators\<close>

text \<open>
  What one operator does: it goes on at an address with a stack, or it returns at once, with
  the address after it and a register number.
\<close>

datatype expr_outcome = Expr_next unw_word expr_stack | Expr_register unw_word unw_word

definition goto :: "unw_word \<Rightarrow> expr_stack res \<Rightarrow> expr_outcome res" where
  "goto addr r = rbind r (\<lambda>s. Inr (Expr_next addr s))"

text \<open>\<open>DW_OP_skip\<close>, \<open>DW_OP_bra\<close>, \<open>DW_OP_nop\<close>, and the operators that are not supported.\<close>

definition expr_branch ::
  "dwarf_expr_op \<Rightarrow> unw_word \<Rightarrow> unw_word \<Rightarrow> expr_stack \<Rightarrow> expr_outcome res" where
  "expr_branch opc operand1 addr s =
     (let offset = scast (ucast operand1 :: 16 word) in
      case opc of
        DW_OP_skip \<Rightarrow> Inr (Expr_next (addr + offset) s)
      | DW_OP_bra \<Rightarrow> rbind (expr_pop s) (\<lambda>(tmp1, s).
          Inr (Expr_next (if tmp1 \<noteq> 0 then addr + offset else addr) s))
      | DW_OP_nop \<Rightarrow> Inr (Expr_next addr s)
      | _ \<Rightarrow> Inl (Err UNW_EINVAL))"

text \<open>The comparisons, on the two popped values as signed numbers.\<close>

definition expr_compare ::
  "addr_space \<Rightarrow> (int \<Rightarrow> int \<Rightarrow> bool) \<Rightarrow> unw_word \<Rightarrow> unw_word \<Rightarrow> unw_word res" where
  "expr_compare as rel tmp1 tmp2 =
     rbind (sword as tmp2) (\<lambda>l. rbind (sword as tmp1) (\<lambda>r. Inr (if rel l r then 1 else 0)))"

text \<open>
  Signed division: no division when the divisor word is zero; the quotient of the signed
  values traps when the divisor is zero at the address size or the quotient overflows.
\<close>

definition expr_div :: "addr_space \<Rightarrow> unw_word \<Rightarrow> unw_word \<Rightarrow> unw_word res" where
  "expr_div as tmp1 tmp2 =
     (if tmp1 \<noteq> 0
      then rbind (sword as tmp2) (\<lambda>l. rbind (sword as tmp1) (\<lambda>r.
             if r = 0 \<or> l = - (2 ^ 63) \<and> r = - 1 then Inl Bad_div
             else Inr (word_of_int (l sdiv r))))
      else Inr tmp1)"

definition expr_abs :: "addr_space \<Rightarrow> unw_word \<Rightarrow> unw_word res" where
  "expr_abs as tmp1 =
     (if 1 \<le> addr_size as \<and> addr_size as \<le> 8
      then Inr (if tmp1 AND push_bit (8 * addr_size as - 1) 1 \<noteq> 0 then NOT tmp1 + 1 else tmp1)
      else Inl Bad_shift)"

definition expr_arith ::
  "addr_space \<Rightarrow> dwarf_expr_op \<Rightarrow> unw_word \<Rightarrow> unw_word \<Rightarrow> expr_stack \<Rightarrow> expr_outcome res" where
  "expr_arith as opc operand1 addr s =
     (case opc of
        DW_OP_abs \<Rightarrow> goto addr (expr_un s (expr_abs as))
      | DW_OP_and \<Rightarrow> goto addr (expr_bin s (\<lambda>tmp1 tmp2. Inr (tmp1 AND tmp2)))
      | DW_OP_div \<Rightarrow> goto addr (expr_bin s (expr_div as))
      | DW_OP_minus \<Rightarrow> goto addr (expr_bin s (\<lambda>tmp1 tmp2. Inr (tmp2 - tmp1)))
      | DW_OP_mod \<Rightarrow> goto addr (expr_bin s (\<lambda>tmp1 tmp2.
          Inr (if tmp1 \<noteq> 0 then tmp2 mod tmp1 else tmp1)))
      | DW_OP_mul \<Rightarrow> goto addr (expr_bin s (\<lambda>tmp1 tmp2.
          Inr (if tmp1 \<noteq> 0 then tmp2 * tmp1 else tmp1)))
      | DW_OP_neg \<Rightarrow> goto addr (expr_un s (\<lambda>tmp1. Inr (NOT tmp1 + 1)))
      | DW_OP_not \<Rightarrow> goto addr (expr_un s (\<lambda>tmp1. Inr (NOT tmp1)))
      | DW_OP_or \<Rightarrow> goto addr (expr_bin s (\<lambda>tmp1 tmp2. Inr (tmp1 OR tmp2)))
      | DW_OP_plus \<Rightarrow> goto addr (expr_bin s (\<lambda>tmp1 tmp2. Inr (tmp1 + tmp2)))
      | DW_OP_plus_uconst \<Rightarrow> goto addr (expr_un s (\<lambda>tmp1. Inr (tmp1 + operand1)))
      | DW_OP_shl \<Rightarrow> goto addr (expr_bin s (\<lambda>tmp1 tmp2.
          if tmp1 < 64 then Inr (push_bit (unat tmp1) tmp2) else Inl Bad_shift))
      | DW_OP_shr \<Rightarrow> goto addr (expr_bin s (\<lambda>tmp1 tmp2.
          if tmp1 < 64 then Inr (drop_bit (unat tmp1) tmp2) else Inl Bad_shift))
      | DW_OP_shra \<Rightarrow> goto addr (expr_bin s (\<lambda>tmp1 tmp2.
          rbind (sword as tmp2) (\<lambda>l.
          if tmp1 < 64 then Inr (word_of_int (drop_bit (unat tmp1) l)) else Inl Bad_shift)))
      | DW_OP_xor \<Rightarrow> goto addr (expr_bin s (\<lambda>tmp1 tmp2. Inr (tmp1 XOR tmp2)))
      | DW_OP_le \<Rightarrow> goto addr (expr_bin s (expr_compare as (\<le>)))
      | DW_OP_ge \<Rightarrow> goto addr (expr_bin s (expr_compare as (\<ge>)))
      | DW_OP_eq \<Rightarrow> goto addr (expr_bin s (expr_compare as (=)))
      | DW_OP_lt \<Rightarrow> goto addr (expr_bin s (expr_compare as (<)))
      | DW_OP_gt \<Rightarrow> goto addr (expr_bin s (expr_compare as (>)))
      | DW_OP_ne \<Rightarrow> goto addr (expr_bin s (expr_compare as (\<noteq>)))
      | _ \<Rightarrow> expr_branch opc operand1 addr s)"

text \<open>\<open>DW_OP_dup\<close>, \<open>drop\<close>, \<open>pick\<close>, \<open>over\<close>, \<open>swap\<close>, \<open>rot\<close>.\<close>

definition expr_stack_op ::
  "addr_space \<Rightarrow> dwarf_expr_op \<Rightarrow> unw_word \<Rightarrow> unw_word \<Rightarrow> expr_stack \<Rightarrow> expr_outcome res" where
  "expr_stack_op as opc operand1 addr s =
     (case opc of
        DW_OP_dup \<Rightarrow> goto addr (rbind (expr_pick s 0) (expr_push s))
      | DW_OP_drop \<Rightarrow> goto addr (rbind (expr_pop s) (\<lambda>(_, s). Inr s))
      | DW_OP_pick \<Rightarrow> goto addr (rbind (expr_pick s operand1) (expr_push s))
      | DW_OP_over \<Rightarrow> goto addr (rbind (expr_pick s 1) (expr_push s))
      | DW_OP_swap \<Rightarrow> goto addr
          (rbind (expr_pop s) (\<lambda>(tmp1, s).
           rbind (expr_pop s) (\<lambda>(tmp2, s).
           rbind (expr_push s tmp1) (\<lambda>s. expr_push s tmp2))))
      | DW_OP_rot \<Rightarrow> goto addr
          (rbind (expr_pop s) (\<lambda>(tmp1, s).
           rbind (expr_pop s) (\<lambda>(tmp2, s).
           rbind (expr_pop s) (\<lambda>(tmp3, s).
           rbind (expr_push s tmp1) (\<lambda>s.
           rbind (expr_push s tmp3) (\<lambda>s. expr_push s tmp2))))))
      | _ \<Rightarrow> expr_arith as opc operand1 addr s)"

text \<open>The value that \<open>DW_OP_deref_size\<close> reads for a size operand.\<close>

definition expr_read_sized :: "addr_space \<Rightarrow> unw_word \<Rightarrow> unw_word \<Rightarrow> unw_word res" where
  "expr_read_sized as sz tmp1 =
     (if sz = 1 then rbind (dwarf_readu8 as tmp1) (\<lambda>(u8, _). Inr (ucast u8))
      else if sz = 2 then rbind (dwarf_readu16 as tmp1) (\<lambda>(u16, _). Inr (ucast u16))
      else if sz = 3 \<or> sz = 4 then
        rbind (dwarf_readu32 as tmp1) (\<lambda>(u32, _).
          let tmp2 = ucast u32
          in Inr (if sz = 3
                  then (if big_endian as then drop_bit 8 tmp2 else tmp2 AND 0xffffff)
                  else tmp2))
      else if sz = 5 \<or> sz = 6 \<or> sz = 7 \<or> sz = 8 then
        rbind (dwarf_readu64 as tmp1) (\<lambda>(tmp2, _).
          Inr (if sz \<noteq> 8
               then (if big_endian as then drop_bit (64 - 8 * unat sz) tmp2
                     else tmp2 AND push_bit (8 * unat sz) (NOT 0))
               else tmp2))
      else Inl (Err UNW_EINVAL))"

definition expr_mem ::
  "addr_space \<Rightarrow> dwarf_expr_op \<Rightarrow> unw_word \<Rightarrow> unw_word \<Rightarrow> expr_stack \<Rightarrow> expr_outcome res" where
  "expr_mem as opc operand1 addr s =
     (case opc of
        DW_OP_deref \<Rightarrow> goto addr (expr_un s (\<lambda>tmp1.
          rbind (dwarf_readw as tmp1) (\<lambda>(tmp2, _). Inr tmp2)))
      | DW_OP_deref_size \<Rightarrow> goto addr (expr_un s (expr_read_sized as operand1))
      | _ \<Rightarrow> expr_stack_op as opc operand1 addr s)"

text \<open>The constants; the narrow signed ones are extended by hand.\<close>

definition sign_extend_const :: "nat \<Rightarrow> unw_word \<Rightarrow> unw_word" where
  "sign_extend_const bits operand1 =
     (if operand1 AND push_bit (bits - 1) 1 \<noteq> 0 then operand1 OR push_bit bits (- 1) else operand1)"

definition expr_const ::
  "addr_space \<Rightarrow> dwarf_expr_op \<Rightarrow> unw_word \<Rightarrow> unw_word \<Rightarrow> expr_stack \<Rightarrow> expr_outcome res" where
  "expr_const as opc operand1 addr s =
     (case opc of
        DW_OP_addr \<Rightarrow> goto addr (expr_push s operand1)
      | DW_OP_const1u \<Rightarrow> goto addr (expr_push s operand1)
      | DW_OP_const2u \<Rightarrow> goto addr (expr_push s operand1)
      | DW_OP_const4u \<Rightarrow> goto addr (expr_push s operand1)
      | DW_OP_const8u \<Rightarrow> goto addr (expr_push s operand1)
      | DW_OP_constu \<Rightarrow> goto addr (expr_push s operand1)
      | DW_OP_const8s \<Rightarrow> goto addr (expr_push s operand1)
      | DW_OP_consts \<Rightarrow> goto addr (expr_push s operand1)
      | DW_OP_const1s \<Rightarrow> goto addr (expr_push s (sign_extend_const 8 operand1))
      | DW_OP_const2s \<Rightarrow> goto addr (expr_push s (sign_extend_const 16 operand1))
      | DW_OP_const4s \<Rightarrow> goto addr (expr_push s (sign_extend_const 32 operand1))
      | _ \<Rightarrow> expr_mem as opc operand1 addr s)"

text \<open>The literals and the register operators.\<close>

definition expr_exec ::
  "cursor \<Rightarrow> dwarf_expr_op \<Rightarrow> unw_word \<Rightarrow> unw_word \<Rightarrow> unw_word \<Rightarrow> expr_stack \<Rightarrow> expr_outcome res"
where
  "expr_exec c opc operand1 operand2 addr s =
     (case opc of
        DW_OP_lit n \<Rightarrow> goto addr (expr_push s (word_of_nat n))
      | DW_OP_breg n \<Rightarrow>
          rbind (unw_get_reg c (int (dwarf_to_unw_regnum (word_of_nat n)))) (\<lambda>tmp1.
          goto addr (expr_push s (tmp1 + operand1)))
      | DW_OP_bregx \<Rightarrow>
          rbind (dwarf_to_unw_regnum_int (sint (ucast operand1 :: 32 word))) (\<lambda>reg.
          rbind (unw_get_reg c (int reg)) (\<lambda>tmp1.
          goto addr (expr_push s (tmp1 + operand2))))
      | DW_OP_reg n \<Rightarrow> Inr (Expr_register addr (word_of_nat (dwarf_to_unw_regnum (word_of_nat n))))
      | DW_OP_regx \<Rightarrow> Inr (Expr_register addr (word_of_nat (dwarf_to_unw_regnum operand1)))
      | _ \<Rightarrow> expr_const (c_as c) opc operand1 addr s)"

section \<open>The loop\<close>

definition read_operands ::
  "addr_space \<Rightarrow> operand_type list \<Rightarrow> unw_word \<Rightarrow> (unw_word \<times> unw_word \<times> unw_word) res" where
  "read_operands as tys addr =
     (if 0 < length tys then
        rbind (read_operand as (tys ! 0) addr) (\<lambda>(operand1, addr).
        if 1 < length tys
        then rbind (read_operand as (tys ! 1) addr) (\<lambda>(operand2, addr).
             Inr (operand1, operand2, addr))
        else Inr (operand1, 0, addr))
      else Inr (0, 0, addr))"

definition expr_step :: "cursor \<Rightarrow> unw_word \<Rightarrow> expr_stack \<Rightarrow> expr_outcome res" where
  "expr_step c addr s =
     rbind (dwarf_readu8 (c_as c) addr) (\<lambda>(opcode, addr).
     rbind (read_operands (c_as c) (operands (dwarf_expr_op_of opcode)) addr)
       (\<lambda>(operand1, operand2, addr).
     expr_exec c (dwarf_expr_op_of opcode) operand1 operand2 addr s))"

text \<open>
  The \<open>while\<close> loop and the final \<open>pop\<close>. The result is the value, whether it is a register
  number, and the address after the last operator; \<open>None\<close> means that the loop does not end.
\<close>

partial_function (option) expr_loop ::
  "cursor \<Rightarrow> unw_word \<Rightarrow> unw_word \<Rightarrow> expr_stack \<Rightarrow> (unw_word \<times> bool \<times> unw_word) res option"
where
  "expr_loop c end_addr addr s =
     (if addr < end_addr then
        (case expr_step c addr s of
           Inl e \<Rightarrow> Some (Inl e)
         | Inr (Expr_register addr' r) \<Rightarrow> Some (Inr (r, True, addr'))
         | Inr (Expr_next addr' s') \<Rightarrow> expr_loop c end_addr addr' s')
      else Some (rbind (expr_pop s) (\<lambda>(v, s'). Inr (v, False, addr))))"

text \<open>
  \<open>dwarf_eval_expr\<close> over the initial contents of the uninitialised array \<open>stack\<close>, and on
  one such array; the results do not depend on it.
\<close>

definition dwarf_eval_expr_from ::
  "unw_word list \<Rightarrow> cursor \<Rightarrow> unw_word \<Rightarrow> unw_word \<Rightarrow> unw_word
    \<Rightarrow> (unw_word \<times> bool \<times> unw_word) res option" where
  "dwarf_eval_expr_from stack c stack_val addr len =
     (let end_addr = addr + len in
      case expr_push \<lparr>es_stack = stack, es_tos = 0\<rparr> stack_val of
        Inl e \<Rightarrow> Some (Inl e)
      | Inr s \<Rightarrow> expr_loop c end_addr addr s)"

definition dwarf_eval_expr ::
  "cursor \<Rightarrow> unw_word \<Rightarrow> unw_word \<Rightarrow> unw_word \<Rightarrow> (unw_word \<times> bool \<times> unw_word) res option" where
  "dwarf_eval_expr = dwarf_eval_expr_from (replicate MAX_EXPR_STACK_SIZE 0)"

end
