(* ===== verification/ExprStack.thy ===== *)
theory ExprStack
  imports Expr
begin

text \<open>
  The value stack of the expression evaluator as an interface: bounded last-in first-out
  storage with an error instead of overflow and underflow. The interface is interpreted on
  the array and index of \<open>dwarf_eval_expr\<close> with the macros \<open>push\<close>, \<open>pop\<close> and \<open>pick\<close>.
\<close>

section \<open>The interface\<close>

text \<open>
  Agreement of two results: both are related values, or both are the same fault, which is an
  access out of bounds only where the flag allows it.
\<close>

definition sim :: "bool \<Rightarrow> ('a \<Rightarrow> 'b \<Rightarrow> bool) \<Rightarrow> 'a res \<Rightarrow> 'b res \<Rightarrow> bool" where
  "sim oob R r r' =
     (case r of
        Inl f \<Rightarrow> r' = Inl f \<and> (f = Out_of_bounds \<longrightarrow> oob)
      | Inr x \<Rightarrow> (case r' of Inl _ \<Rightarrow> False | Inr y \<Rightarrow> R x y))"

named_theorems sim_intros "agreement of composed results"

lemma sim_simps [simp]:
  "sim oob R (Inr x) (Inr y) \<longleftrightarrow> R x y"
  "sim oob R (Inl f) (Inl g) \<longleftrightarrow> f = g \<and> (f = Out_of_bounds \<longrightarrow> oob)"
  "\<not> sim oob R (Inr x) (Inl g)" "\<not> sim oob R (Inl f) (Inr y)"
  by (auto simp: sim_def)

lemma sim_rbind:
  "sim oob R m m' \<Longrightarrow> (\<And>x y. m = Inr x \<Longrightarrow> m' = Inr y \<Longrightarrow> R x y \<Longrightarrow> sim oob Q (f x) (g y))
    \<Longrightarrow> sim oob Q (rbind m f) (rbind m' g)"
  by (cases m; cases m') auto

lemma sim_refl_eq: "in_bounds r \<or> oob \<Longrightarrow> sim oob (=) r r"
  by (cases r) (auto simp: in_bounds_def)

lemma sim_eqD: "sim oob (=) r r' \<Longrightarrow> r = r'"
  by (cases r; cases r') auto

locale value_stack =
  fixes push :: "'s \<Rightarrow> 'a \<Rightarrow> 's res"
    and pop :: "'s \<Rightarrow> ('a \<times> 's) res"
    and pick :: "'s \<Rightarrow> nat \<Rightarrow> 'a res"
    and contents :: "'s \<Rightarrow> 'a list"
    and wf :: "'s \<Rightarrow> bool"
    and capacity :: nat
    and limit :: nat
  assumes push_room: "wf s \<Longrightarrow> length (contents s) < capacity \<Longrightarrow>
      \<exists>s'. push s x = Inr s' \<and> wf s' \<and> contents s' = x # contents s"
    and push_full: "wf s \<Longrightarrow> capacity \<le> length (contents s) \<Longrightarrow> push s x = Inl (Err UNW_EINVAL)"
    and pop_some: "wf s \<Longrightarrow> contents s = x # xs \<Longrightarrow>
      \<exists>s'. pop s = Inr (x, s') \<and> wf s' \<and> contents s' = xs"
    and pop_none: "wf s \<Longrightarrow> contents s = [] \<Longrightarrow> pop s = Inl (Err UNW_EINVAL)"
    and pick_in: "wf s \<Longrightarrow> n < length (contents s) \<Longrightarrow> pick s n = Inr (contents s ! n)"
    and pick_out: "wf s \<Longrightarrow> length (contents s) \<le> n \<Longrightarrow> n < limit \<Longrightarrow>
      pick s n = Inl (Err UNW_EINVAL)"
    and bounded: "wf s \<Longrightarrow> length (contents s) \<le> capacity"
begin

definition same :: "'s \<Rightarrow> 's \<Rightarrow> bool" where
  "same s t \<longleftrightarrow> wf s \<and> wf t \<and> contents s = contents t"

lemma push_sim: "same s t \<Longrightarrow> sim oob same (push s x) (push t x)"
  using push_room [of s x] push_room [of t x] push_full [of s x] push_full [of t x]
  by (cases "length (contents s) < capacity") (auto simp: same_def not_less)

lemma pop_sim:
  "same s t \<Longrightarrow> sim oob (\<lambda>(x, s') (y, t'). x = y \<and> same s' t') (pop s) (pop t)"
proof (cases "contents s")
  case Nil
  then show "same s t \<Longrightarrow> ?thesis" by (simp add: same_def pop_none)
next
  case (Cons x xs)
  assume st: "same s t"
  with Cons obtain s' t' where "pop s = Inr (x, s')" "pop t = Inr (x, t')" "same s' t'"
    using pop_some [of s x xs] pop_some [of t x xs] by (auto simp: same_def)
  then show ?thesis by simp
qed

lemma pick_sim: "same s t \<Longrightarrow> n < limit \<Longrightarrow> sim oob (=) (pick s n) (pick t n)"
  by (cases "n < length (contents s)") (auto simp: same_def pick_in pick_out not_less)

lemma push_cases:
  assumes "wf s"
  shows "push s x = Inl (Err UNW_EINVAL) \<or> (\<exists>s'. push s x = Inr s' \<and> wf s'
    \<and> contents s' = x # contents s \<and> length (contents s) < capacity)"
  using push_room [OF assms] push_full [OF assms] by (metis not_less)

lemma pop_push:
  assumes "wf s" and "push s x = Inr s'"
  shows "\<exists>s''. pop s' = Inr (x, s'') \<and> same s'' s"
  using push_cases [OF assms(1), of x] assms pop_some [of s'] by (auto simp: same_def)

end

section \<open>The array stack\<close>

definition wf_es :: "expr_stack \<Rightarrow> bool" where
  "wf_es s \<longleftrightarrow> length (es_stack s) = MAX_EXPR_STACK_SIZE \<and> es_tos s \<le> 64"

text \<open>The live part of the array, top of stack first.\<close>

definition es_contents :: "expr_stack \<Rightarrow> unw_word list" where
  "es_contents s = rev (take (unat (es_tos s)) (es_stack s))"

definition expr_pick_nat :: "expr_stack \<Rightarrow> nat \<Rightarrow> unw_word res" where
  "expr_pick_nat s n = expr_pick s (word_of_nat n)"

lemma tos_le: "wf_es s \<Longrightarrow> unat (es_tos s) \<le> 64"
  by (simp add: wf_es_def word_le_nat_alt)

lemma length_es_contents: "wf_es s \<Longrightarrow> length (es_contents s) = unat (es_tos s)"
  using tos_le [of s] by (simp add: es_contents_def wf_es_def)

lemma unat_pred32: "(w :: 32 word) \<noteq> 0 \<Longrightarrow> unat (w - 1) = unat w - 1"
  by (simp add: unat_minus_one)

lemma unat_ucast_32: "unat (ucast (w :: 32 word) :: unw_word) = unat w"
proof -
  have "unat w < 2 ^ 32" using unsigned_less [of w, where ?'a = nat] by simp
  then have "take_bit 64 (unat w) = unat w" by (simp add: take_bit_nat_eq_self)
  then show ?thesis by (simp add: unsigned_ucast_eq)
qed

lemma tos_pred_less:
  assumes "wf_es s"
  shows "es_tos s - 1 \<ge> 64 \<longleftrightarrow> es_tos s = 0"
proof (cases "es_tos s = 0")
  case True
  then show ?thesis by simp
next
  case False
  have "unat (es_tos s) \<noteq> 0" using False by (simp add: unat_eq_0)
  then show ?thesis using False tos_le [OF assms] unat_pred32 [OF False]
    by (simp add: word_le_nat_alt)
qed

lemma expr_pop_eq:
  assumes "wf_es s"
  shows "expr_pop s = (if es_tos s = 0 then Inl (Err UNW_EINVAL)
    else Inr (es_stack s ! (unat (es_tos s) - 1), s\<lparr>es_tos := es_tos s - 1\<rparr>))"
proof (cases "es_tos s = 0")
  case True
  then show ?thesis by (simp add: expr_pop_def)
next
  case False
  have "unat (es_tos s) \<noteq> 0" using False by (simp add: unat_eq_0)
  then have "unat (es_tos s - 1) < length (es_stack s)"
    using tos_le [OF assms] assms unat_pred32 [OF False] by (simp add: wf_es_def)
  then show ?thesis
    using False tos_pred_less [OF assms] unat_pred32 [OF False] by (simp add: expr_pop_def)
qed

lemma expr_push_eq:
  assumes "wf_es s"
  shows "expr_push s x = (if unat (es_tos s) = 64 then Inl (Err UNW_EINVAL)
    else Inr \<lparr>es_stack = (es_stack s)[unat (es_tos s) := x], es_tos = es_tos s + 1\<rparr>)"
proof -
  have "es_tos s \<ge> 64 \<longleftrightarrow> unat (es_tos s) = 64"
    using tos_le [OF assms] by (auto simp: word_le_nat_alt)
  then show ?thesis using assms tos_le [OF assms] by (simp add: expr_push_def wf_es_def)
qed

lemma unat_tos_succ: "wf_es s \<Longrightarrow> unat (es_tos s + 1) = unat (es_tos s) + 1"
  using tos_le [of s] word_add_of_nat_less [of "es_tos s" 1] by simp

lemma wf_push:
  assumes "wf_es s" and "unat (es_tos s) < 64"
  shows "wf_es \<lparr>es_stack = (es_stack s)[unat (es_tos s) := x], es_tos = es_tos s + 1\<rparr>"
    and "es_contents \<lparr>es_stack = (es_stack s)[unat (es_tos s) := x], es_tos = es_tos s + 1\<rparr>
      = x # es_contents s"
  using assms unat_tos_succ [OF assms(1)]
  by (simp_all add: wf_es_def es_contents_def word_le_nat_alt take_Suc_conv_app_nth)

lemma wf_pop:
  assumes "wf_es s" and "es_tos s \<noteq> 0"
  shows "wf_es (s\<lparr>es_tos := es_tos s - 1\<rparr>)"
    and "es_contents s = es_stack s ! (unat (es_tos s) - 1)
      # es_contents (s\<lparr>es_tos := es_tos s - 1\<rparr>)"
proof -
  have n: "unat (es_tos s) \<noteq> 0" using assms(2) by (simp add: unat_eq_0)
  then obtain k where k: "unat (es_tos s) = Suc k" by (cases "unat (es_tos s)") auto
  show "wf_es (s\<lparr>es_tos := es_tos s - 1\<rparr>)"
    using assms tos_le [OF assms(1)] unat_pred32 [OF assms(2)]
    by (simp add: wf_es_def word_le_nat_alt)
  show "es_contents s = es_stack s ! (unat (es_tos s) - 1)
      # es_contents (s\<lparr>es_tos := es_tos s - 1\<rparr>)"
    using assms k tos_le [OF assms(1)] unat_pred32 [OF assms(2)]
    by (simp add: es_contents_def wf_es_def take_Suc_conv_app_nth)
qed

lemma expr_pick_eq:
  assumes "wf_es s" and "n < 256"
  shows "expr_pick s (word_of_nat n)
    = (if n < unat (es_tos s) then Inr (es_contents s ! n) else Inl (Err UNW_EINVAL))"
proof -
  let ?t = "unat (es_tos s)"
  let ?i = "ucast (es_tos s - 1) - word_of_nat n :: unw_word"
  have n: "unat (word_of_nat n :: unw_word) = n" using assms(2) by (simp add: unat_of_nat)
  show ?thesis
  proof (cases "n < ?t")
    case True
    then have t: "es_tos s \<noteq> 0" by auto
    have "unat (ucast (es_tos s - 1) :: unw_word) = ?t - 1"
      using unat_pred32 [OF t] by (simp add: unat_ucast_32)
    then have i: "unat ?i = ?t - 1 - n"
      using True n by (simp add: unat_sub word_le_nat_alt)
    have "\<not> 64 \<le> ?i" using i tos_le [OF assms(1)] True by (simp add: word_le_nat_alt)
    moreover have "es_contents s ! n = es_stack s ! unat ?i"
      using True i tos_le [OF assms(1)] assms(1)
      by (simp add: es_contents_def wf_es_def rev_nth Suc_diff_Suc)
    ultimately show ?thesis
      using True i tos_le [OF assms(1)] assms(1) by (simp add: expr_pick_def wf_es_def Let_def)
  next
    case False
    have "64 \<le> ?i"
    proof (cases "es_tos s = 0")
      case True
      then have "unat (ucast (es_tos s - 1) :: unw_word) = 4294967295"
        by (simp only: unat_ucast_32) (simp add: unsigned_minus_1_eq_mask mask_eq_exp_minus_1)
      then have "unat ?i = 4294967295 - n" using n assms(2)
        by (simp add: unat_sub word_le_nat_alt)
      then show ?thesis using assms(2) by (simp add: word_le_nat_alt)
    next
      case t: False
      have u: "unat (ucast (es_tos s - 1) :: unw_word) = ?t - 1"
        using unat_pred32 [OF t] by (simp add: unat_ucast_32)
      have t1: "0 < ?t" using t by (simp add: unat_gt_0)
      have "unat ?i = 2 ^ 64 - n + (?t - 1)"
        using unat_sub_if' [of "ucast (es_tos s - 1) :: unw_word" "word_of_nat n"] u n False t1
          assms(2) by simp
      then show ?thesis using assms(2) by (simp add: word_le_nat_alt)
    qed
    then show ?thesis using False by (simp add: expr_pick_def Let_def)
  qed
qed

interpretation es: value_stack expr_push expr_pop expr_pick_nat es_contents wf_es
  MAX_EXPR_STACK_SIZE 256
proof unfold_locales
  fix s :: expr_stack and x :: unw_word
  assume wf: "wf_es s"
  show "length (es_contents s) < 64 \<Longrightarrow>
      \<exists>s'. expr_push s x = Inr s' \<and> wf_es s' \<and> es_contents s' = x # es_contents s"
    using wf wf_push [OF wf] by (simp add: expr_push_eq length_es_contents)
  show "64 \<le> length (es_contents s) \<Longrightarrow> expr_push s x = Inl (Err UNW_EINVAL)"
    using wf tos_le [OF wf] by (simp add: expr_push_eq length_es_contents)
  show "es_contents s = [] \<Longrightarrow> expr_pop s = Inl (Err UNW_EINVAL)"
    using wf length_es_contents [OF wf] by (simp add: expr_pop_eq unat_eq_0)
  show "length (es_contents s) \<le> 64"
    using tos_le [OF wf] length_es_contents [OF wf] by simp
next
  fix s :: expr_stack and x xs
  assume wf: "wf_es s" and c: "es_contents s = x # xs"
  have "es_tos s \<noteq> 0" using c length_es_contents [OF wf] by auto
  then show "\<exists>s'. expr_pop s = Inr (x, s') \<and> wf_es s' \<and> es_contents s' = xs"
    using wf c wf_pop [of s] by (simp add: expr_pop_eq)
next
  fix s :: expr_stack and n
  assume wf: "wf_es s"
  show "n < length (es_contents s) \<Longrightarrow> expr_pick_nat s n = Inr (es_contents s ! n)"
    using wf tos_le [OF wf] by (simp add: expr_pick_nat_def expr_pick_eq length_es_contents)
  show "length (es_contents s) \<le> n \<Longrightarrow> n < 256 \<Longrightarrow> expr_pick_nat s n = Inl (Err UNW_EINVAL)"
    using wf by (simp add: expr_pick_nat_def expr_pick_eq length_es_contents)
qed

end
