(* ===== verification/ExprLemmas.thy ===== *)
theory ExprLemmas
  imports ExprStack DwarfReadLemmas
begin

text \<open>
  Safety and termination of the expression evaluator: every operator keeps to the bounds of
  the stack array, results do not depend on the uninitialised part of the array, and an
  expression without branches ends.
\<close>

section \<open>Readers stay in bounds\<close>

lemma in_bounds_pair [simp]: "in_bounds m \<Longrightarrow> (\<And>x y. in_bounds (f x y))
    \<Longrightarrow> in_bounds (rbind m (\<lambda>(x, y). f x y))"
  by (rule in_bounds_rbind) (auto split: prod.splits)

lemma readers_in_bounds [simp]:
  "in_bounds (dwarf_readu8 as a)" "in_bounds (dwarf_readu16 as a)"
  "in_bounds (dwarf_readu32 as a)" "in_bounds (dwarf_readu64 as a)"
  "in_bounds (dwarf_readw as a)"
  by (simp_all add: dwarf_readu8_def dwarf_readu16_def dwarf_readu32_def dwarf_readu64_def
      dwarf_readw_def Let_def in_bounds_rbind)

lemma leb_in_bounds [simp]:
  "in_bounds (dwarf_read_uleb128 as a)" "in_bounds (dwarf_read_sleb128 as a)"
  by (auto simp: in_bounds_def dwarf_read_uleb128_def dwarf_read_sleb128_def
      dest: remote.read_uleb128_fault remote.read_sleb128_fault)

lemma sword_in_bounds [simp]: "in_bounds (sword as v)"
  by (simp add: sword_def)

lemma read_operand_in_bounds [simp]: "in_bounds (read_operand as t a)"
  by (auto simp: read_operand_def resolve_operand_type_def in_bounds_rbind
      split: operand_type.splits)

lemma read_operands_in_bounds [simp]: "in_bounds (read_operands as ts a)"
  by (simp add: read_operands_def)

lemma expr_values_in_bounds [simp]:
  "in_bounds (expr_div as x y)" "in_bounds (expr_compare as rel x y)"
  "in_bounds (expr_abs as x)" "in_bounds (expr_read_sized as n x)"
  by (auto simp: expr_div_def expr_compare_def expr_abs_def expr_read_sized_def Let_def
      intro!: in_bounds_rbind)

section \<open>Operators\<close>

text \<open>Two runs of an operator over stacks with the same contents do the same.\<close>

fun same_outcome :: "expr_outcome \<Rightarrow> expr_outcome \<Rightarrow> bool" where
  "same_outcome (Expr_next a s) (Expr_next b t) \<longleftrightarrow> a = b \<and> es.same s t"
| "same_outcome (Expr_register a r) (Expr_register b r') \<longleftrightarrow> a = b \<and> r = r'"
| "same_outcome _ _ \<longleftrightarrow> False"

lemma un_sim [sim_intros]:
  "es.same s t \<Longrightarrow> (\<And>x. in_bounds (f x)) \<Longrightarrow> sim oob es.same (expr_un s f) (expr_un t f)"
  unfolding expr_un_def
  by (auto intro!: sim_rbind [OF es.pop_sim] sim_rbind [OF sim_refl_eq] es.push_sim)

lemma bin_sim [sim_intros]:
  "es.same s t \<Longrightarrow> (\<And>x y. in_bounds (f x y)) \<Longrightarrow> sim oob es.same (expr_bin s f) (expr_bin t f)"
  unfolding expr_bin_def
  by (auto intro!: sim_rbind [OF es.pop_sim] sim_rbind [OF sim_refl_eq] es.push_sim)

lemma goto_sim [sim_intros]:
  "sim oob es.same r r' \<Longrightarrow> sim oob same_outcome (goto addr r) (goto addr r')"
  unfolding goto_def by (rule sim_rbind) auto

lemma pick_word_sim:
  assumes "es.same s t" and "n < 256"
  shows "sim oob (=) (expr_pick s n) (expr_pick t n)"
  using es.pick_sim [OF assms(1), of "unat n" oob] assms(2)
  by (simp add: expr_pick_nat_def word_less_nat_alt)

lemma stack_ops_sim:
  assumes "es.same s t"
  shows "n < 256 \<Longrightarrow> sim oob es.same (rbind (expr_pick s n) (expr_push s)) (rbind (expr_pick t n) (expr_push t))"
    and "sim oob es.same (rbind (expr_pop s) (\<lambda>(_, s). Inr s)) (rbind (expr_pop t) (\<lambda>(_, s). Inr s))"
    and "sim oob es.same
      (rbind (expr_pop s) (\<lambda>(tmp1, s). rbind (expr_pop s) (\<lambda>(tmp2, s).
       rbind (expr_push s tmp1) (\<lambda>s. expr_push s tmp2))))
      (rbind (expr_pop t) (\<lambda>(tmp1, s). rbind (expr_pop s) (\<lambda>(tmp2, s).
       rbind (expr_push s tmp1) (\<lambda>s. expr_push s tmp2))))"
    and "sim oob es.same
      (rbind (expr_pop s) (\<lambda>(tmp1, s). rbind (expr_pop s) (\<lambda>(tmp2, s).
       rbind (expr_pop s) (\<lambda>(tmp3, s). rbind (expr_push s tmp1) (\<lambda>s.
       rbind (expr_push s tmp3) (\<lambda>s. expr_push s tmp2))))))
      (rbind (expr_pop t) (\<lambda>(tmp1, s). rbind (expr_pop s) (\<lambda>(tmp2, s).
       rbind (expr_pop s) (\<lambda>(tmp3, s). rbind (expr_push s tmp1) (\<lambda>s.
       rbind (expr_push s tmp3) (\<lambda>s. expr_push s tmp2))))))"
  using assms
  by (auto intro!: sim_rbind [OF es.pop_sim] sim_rbind [OF es.push_sim]
      sim_rbind [OF pick_word_sim] es.push_sim)

text \<open>The operand of \<open>DW_OP_pick\<close> is one byte.\<close>

definition operand_ok :: "dwarf_expr_op \<Rightarrow> unw_word \<Rightarrow> bool" where
  "operand_ok opc n \<longleftrightarrow> opc = DW_OP_pick \<longrightarrow> n < 256"

lemma branch_sim:
  "es.same s t \<Longrightarrow> sim oob same_outcome (expr_branch opc n a s) (expr_branch opc n a t)"
  by (cases opc) (auto simp: expr_branch_def Let_def intro!: sim_rbind [OF es.pop_sim])

lemma arith_sim:
  "es.same s t \<Longrightarrow> sim oob same_outcome (expr_arith as opc n a s) (expr_arith as opc n a t)"
  by (cases opc) (auto simp: expr_arith_def branch_sim intro!: sim_intros in_bounds_rbind)

lemma stack_op_sim:
  "es.same s t \<Longrightarrow> operand_ok opc n \<Longrightarrow>
   sim oob same_outcome (expr_stack_op as opc n a s) (expr_stack_op as opc n a t)"
  by (cases opc) (auto simp: expr_stack_op_def operand_ok_def arith_sim
      intro!: goto_sim stack_ops_sim)

lemma mem_sim:
  "es.same s t \<Longrightarrow> operand_ok opc n \<Longrightarrow>
   sim oob same_outcome (expr_mem as opc n a s) (expr_mem as opc n a t)"
  by (cases opc) (auto simp: expr_mem_def stack_op_sim intro!: sim_intros)

lemma const_sim:
  "es.same s t \<Longrightarrow> operand_ok opc n \<Longrightarrow>
   sim oob same_outcome (expr_const as opc n a s) (expr_const as opc n a t)"
  by (cases opc) (auto simp: expr_const_def mem_sim intro!: sim_intros es.push_sim)

text \<open>\<open>DW_OP_bregx\<close> selects a register with a signed number.\<close>

lemma exec_sim:
  assumes "es.same s t" and "operand_ok opc n" and "wf_cursor c"
    and "opc = DW_OP_bregx \<Longrightarrow> sint (ucast n :: 32 word) < 0 \<Longrightarrow> oob"
  shows "sim oob same_outcome (expr_exec c opc n m a s) (expr_exec c opc n m a t)"
proof -
  note reg = unw_get_reg_in_bounds [OF assms(3)]
  show ?thesis using assms
    by (cases opc) (auto simp: expr_exec_def const_sim reg dwarf_to_unw_regnum_int_nonneg
        dwarf_to_unw_regnum_int_def not_less
        intro!: goto_sim es.push_sim sim_rbind [OF sim_refl_eq])
qed

section \<open>Steps and the loop\<close>

lemma ucast_byte_less: "(ucast (b :: 8 word) :: unw_word) < 256"
proof -
  have b: "unat b < 2 ^ 8" using unsigned_less [of b, where ?'a = nat] by simp
  then have "unat (ucast b :: unw_word) = unat b"
    by (simp add: unsigned_ucast_eq take_bit_nat_eq_self)
  with b show ?thesis by (simp add: word_less_nat_alt)
qed

lemma pick_operand:
  "read_operands as (operands DW_OP_pick) a = Inr (n, m, a') \<Longrightarrow> n < 256"
  using ucast_byte_less by (auto simp: read_operands_def operands_def read_operand_def resolve_operand_type_def res_iff)

lemma bregx_byte: "dwarf_expr_op_of b = DW_OP_bregx \<longleftrightarrow> b = 0x92"
  by (auto simp: dwarf_expr_op_of_def dwarf_expr_op_low_def dwarf_expr_op_high_def
      split: if_splits)

text \<open>A \<open>DW_OP_bregx\<close> with operands that can be read, of which the register number is negative as an \<open>int\<close>.\<close>

definition negative_bregx :: "addr_space \<Rightarrow> unw_word \<Rightarrow> bool" where
  "negative_bregx as a \<longleftrightarrow>
     as_byte as a = Some 0x92 \<and> (\<exists>n m b. read_operands as (operands DW_OP_bregx) (a + 1) = Inr (n, m, b) \<and> bit n 31)"

lemma negative_number: "sint (ucast (n :: unw_word) :: 32 word) < 0 \<longleftrightarrow> bit n 31"
  using bit_last_iff [of "ucast n :: 32 word"] by (simp add: bit_simps)

lemma step_sim:
  assumes "es.same s t" and "wf_cursor c"
    and "negative_bregx (c_as c) a \<Longrightarrow> oob"
  shows "sim oob same_outcome (expr_step c a s) (expr_step c a t)"
  unfolding expr_step_def
proof (intro sim_rbind [OF sim_refl_eq]; (clarsimp split: prod.splits)?)
  fix b a1
  assume rd: "dwarf_readu8 (c_as c) a = Inr (b, a1)"
  show "sim oob same_outcome
      (rbind (read_operands (c_as c) (operands (dwarf_expr_op_of b)) a1)
        (\<lambda>(n, m, a). expr_exec c (dwarf_expr_op_of b) n m a s))
      (rbind (read_operands (c_as c) (operands (dwarf_expr_op_of b)) a1)
        (\<lambda>(n, m, a). expr_exec c (dwarf_expr_op_of b) n m a t))"
  proof (intro sim_rbind [OF sim_refl_eq]; (clarsimp split: prod.splits)?)
    fix n m a2
    assume ops: "read_operands (c_as c) (operands (dwarf_expr_op_of b)) a1 = Inr (n, m, a2)"
    have "operand_ok (dwarf_expr_op_of b) n"
      using ops pick_operand by (auto simp: operand_ok_def)
    moreover have "oob" if "dwarf_expr_op_of b = DW_OP_bregx" "sint (ucast n :: 32 word) < 0"
    proof (rule assms(3))
      have "as_byte (c_as c) a = Some b \<and> a1 = a + 1"
        using rd remote.rd_Some [of "c_as c" a] remote.rd_None [of "c_as c" a]
        by (cases "as_byte (c_as c) a") auto
      then show "negative_bregx (c_as c) a"
        using ops that by (auto simp: negative_bregx_def bregx_byte negative_number)
    qed
    ultimately show "sim oob same_outcome (expr_exec c (dwarf_expr_op_of b) n m a2 s)
        (expr_exec c (dwarf_expr_op_of b) n m a2 t)"
      using assms(1,2) by (intro exec_sim) auto
  qed
qed

text \<open>
  Two runs of the loop from stacks with the same contents: if one returns, so does the
  other, with the same result.
\<close>

lemma loop_same:
  assumes "expr_loop c e a s = Some r" and "es.same s t" and "wf_cursor c"
  shows "expr_loop c e a t = Some r"
  using assms
proof (induction arbitrary: t rule: expr_loop.raw_induct [rotated, consumes 1])
  case (1 loop c e a s r)
  note st = step_sim [OF "1.prems"(1,2), of a True]
  show ?case
  proof (cases "a < e")
    case False
    have "rbind (expr_pop s) (\<lambda>(v, s'). Inr (v, False, a))
        = rbind (expr_pop t) (\<lambda>(v, s'). Inr (v, False, a))"
      by (intro sim_eqD [of True] sim_rbind [OF es.pop_sim [OF "1.prems"(1)]]) auto
    with False "1.hyps" show ?thesis by (simp add: expr_loop.simps [of c e a t])
  next
    case True
    show ?thesis
    proof (cases "expr_step c a s")
      case (Inl f)
      with st True "1.hyps" show ?thesis
        by (cases "expr_step c a t") (auto simp: expr_loop.simps [of c e a t])
    next
      case (Inr x)
      with st obtain y where y: "expr_step c a t = Inr y" "same_outcome x y"
        by (cases "expr_step c a t") auto
      with Inr True "1.hyps" "1.prems" "1.IH" show ?thesis
        by (cases x; cases y) (auto simp: expr_loop.simps [of c e a t])
    qed
  qed
qed

lemma loop_independent:
  assumes "es.same s t" and "wf_cursor c"
  shows "expr_loop c e a s = expr_loop c e a t"
proof -
  have sym: "es.same t s" using assms(1) by (simp add: es.same_def)
  show ?thesis
    using loop_same [OF _ assms] loop_same [OF _ sym assms(2)] by (metis not_None_eq)
qed

text \<open>The addresses and stacks with which the loop comes to an operator or to its end.\<close>

inductive expr_visits :: "cursor \<Rightarrow> unw_word \<Rightarrow> unw_word \<Rightarrow> expr_stack \<Rightarrow> unw_word \<Rightarrow> expr_stack \<Rightarrow> bool" for c e a s where
  visit_start: "expr_visits c e a s a s"
| visit_next: "expr_visits c e a s b t \<Longrightarrow> b < e \<Longrightarrow> expr_step c b t = Inr (Expr_next b' t') \<Longrightarrow> expr_visits c e a s b' t'"

lemma visits_after_step:
  assumes "expr_visits c e a' s' b t" "a < e" "expr_step c a s = Inr (Expr_next a' s')"
  shows "expr_visits c e a s b t"
  using assms(1)
proof induction
  case visit_start
  show ?case by (rule visit_next [OF expr_visits.visit_start assms(2,3)])
qed (blast intro: visit_next)

lemma visits_loop: "expr_visits c e a s b t \<Longrightarrow> expr_loop c e a s = expr_loop c e b t"
proof (induction rule: expr_visits.induct)
  case (visit_next b t b' t')
  then show ?case by (simp add: expr_loop.simps [of c e b t])
qed simp

text \<open>Every access out of bounds is that of a \<open>DW_OP_bregx\<close> with a negative number that the loop comes to.\<close>

lemma loop_out_of_bounds:
  assumes "expr_loop c e a s = Some r" and "wf_es s" and "wf_cursor c" and "\<not> in_bounds r"
  shows "\<exists>b t. expr_visits c e a s b t \<and> b < e \<and> negative_bregx (c_as c) b"
  using assms
proof (induction rule: expr_loop.raw_induct [rotated, consumes 1])
  case (1 loop c e a s r)
  have same: "es.same s s" using "1.prems"(1) by (simp add: es.same_def)
  show ?case
  proof (cases "a < e")
    case False
    have "in_bounds (expr_pop s)"
      using es.pop_sim [OF same, of False] by (cases "expr_pop s") (auto simp: in_bounds_def)
    with False "1.hyps" "1.prems"(3) show ?thesis by auto
  next
    case True
    show ?thesis
    proof (cases "negative_bregx (c_as c) a")
      case bregx: True
      then show ?thesis using True visit_start by blast
    next
      case False
      then have st: "sim False same_outcome (expr_step c a s) (expr_step c a s)"
        by (intro step_sim [OF same "1.prems"(2)]) simp
      show ?thesis
      proof (cases "expr_step c a s")
        case (Inl f)
        with st True "1.hyps" "1.prems"(3) show ?thesis by auto
      next
        case (Inr x)
        show ?thesis
        proof (cases x)
          case (Expr_next a' s')
          with Inr st True "1.hyps" "1.prems" "1.IH"
          have "\<exists>b t. expr_visits c e a' s' b t \<and> b < e \<and> negative_bregx (c_as c) b"
            by (auto simp: es.same_def)
          then show ?thesis using visits_after_step True Inr Expr_next by blast
        next
          case (Expr_register a' n)
          with Inr True "1.hyps" "1.prems"(3) show ?thesis by auto
        qed
      qed
    qed
  qed
qed

text \<open>And a loop that comes to one ends with it.\<close>

lemma negative_bregx_step: "negative_bregx (c_as c) a \<Longrightarrow> expr_step c a s = Inl Out_of_bounds"
  by (auto simp: negative_bregx_def expr_step_def remote.rd_Some expr_exec_def dwarf_to_unw_regnum_int_def
      negative_number [symmetric] bregx_byte [THEN iffD2])

lemma visits_negative_bregx:
  assumes "expr_visits c e a s b t" "b < e" "negative_bregx (c_as c) b"
  shows "expr_loop c e a s = Some (Inl Out_of_bounds)"
  using visits_loop [OF assms(1)] assms(2) negative_bregx_step [OF assms(3)] by (simp add: expr_loop.simps [of c e b t])

lemma wf_initial:
  assumes "length stack = 64"
  shows "\<exists>s. expr_push \<lparr>es_stack = stack, es_tos = 0\<rparr> v = Inr s \<and> wf_es s \<and> es_contents s = [v]"
proof -
  have "wf_es \<lparr>es_stack = stack, es_tos = 0\<rparr>" "es_contents \<lparr>es_stack = stack, es_tos = 0\<rparr> = []"
    using assms by (simp_all add: wf_es_def es_contents_def)
  with es.push_room [of "\<lparr>es_stack = stack, es_tos = 0\<rparr>" v] show ?thesis by simp
qed

section \<open>Termination\<close>

lemma fixed_advance:
  "dwarf_readu8 as a = Inr (v1, a') \<Longrightarrow> a' = a + 1"
  "dwarf_readu16 as a = Inr (v2, a') \<Longrightarrow> a' = a + 2"
  "dwarf_readu32 as a = Inr (v4, a') \<Longrightarrow> a' = a + 4"
  "dwarf_readu64 as a = Inr (v8, a') \<Longrightarrow> a' = a + 8"
proof -
  show r8: "dwarf_readu8 as a = Inr (v1, a') \<Longrightarrow> a' = a + 1" for as a v1 a'
    by (auto simp: dwarf_readu8_def Let_def res_iff)
  show r16: "dwarf_readu16 as a = Inr (v2, a') \<Longrightarrow> a' = a + 2" for as a v2 a'
    by (auto simp: dwarf_readu16_def res_iff dest!: r8)
  show r32: "dwarf_readu32 as a = Inr (v4, a') \<Longrightarrow> a' = a + 4" for as a v4 a'
    by (auto simp: dwarf_readu32_def res_iff dest!: r16)
  show "dwarf_readu64 as a = Inr (v8, a') \<Longrightarrow> a' = a + 8"
    by (auto simp: dwarf_readu64_def res_iff dest!: r32)
qed

lemma fixed_advance_le:
  "dwarf_readu8 as a = Inr (v1, a') \<Longrightarrow> \<exists>k. k \<le> 10 \<and> a' = a + word_of_nat k"
  "dwarf_readu16 as a = Inr (v2, a') \<Longrightarrow> \<exists>k. k \<le> 10 \<and> a' = a + word_of_nat k"
  "dwarf_readu32 as a = Inr (v4, a') \<Longrightarrow> \<exists>k. k \<le> 10 \<and> a' = a + word_of_nat k"
  "dwarf_readu64 as a = Inr (v8, a') \<Longrightarrow> \<exists>k. k \<le> 10 \<and> a' = a + word_of_nat k"
  by (rule exI [of _ 1], use fixed_advance(1) in fastforce,
      rule exI [of _ 2], use fixed_advance(2) in fastforce,
      rule exI [of _ 4], use fixed_advance(3) in fastforce,
      rule exI [of _ 8], use fixed_advance(4) in fastforce)

lemma operand_advance:
  assumes "read_operand as t a = Inr (v, a')"
  shows "\<exists>k. k \<le> 10 \<and> a' = a + word_of_nat k"
proof -
  obtain t' where t: "rbind (resolve_operand_type as t) Inr = Inr t'"
    using assms by (cases "resolve_operand_type as t") (auto simp: read_operand_def)
  then have res: "resolve_operand_type as t = Inr t'" by (simp add: res_iff)
  show ?thesis
    using assms
    by (cases t') (auto simp: read_operand_def res res_iff dwarf_read_uleb128_def
        dwarf_read_sleb128_def dest!: fixed_advance_le
        dest!: remote.read_uleb128_advances remote.read_sleb128_advances)
qed

lemma operands_advance:
  assumes "read_operands as ts a = Inr (n, m, a')"
  shows "\<exists>k. k \<le> 20 \<and> a' = a + word_of_nat k"
proof -
  consider "a' = a" | v where "read_operand as (ts ! 0) a = Inr (v, a')"
    | v w b where "read_operand as (ts ! 0) a = Inr (v, b)" "read_operand as (ts ! 1) b = Inr (w, a')"
    using assms by (auto simp: read_operands_def res_iff split: if_splits)
  then show ?thesis
  proof cases
    case 1
    then show ?thesis by (intro exI [of _ 0]) simp
  next
    case 2
    obtain k where "k \<le> 10" "a' = a + word_of_nat k" using operand_advance [OF 2] by blast
    then show ?thesis by (intro exI [of _ k]) simp
  next
    case 3
    obtain k j where "k \<le> 10" "b = a + word_of_nat k" "j \<le> 10" "a' = b + word_of_nat j"
      using operand_advance [OF 3(1)] operand_advance [OF 3(2)] by blast
    then show ?thesis by (intro exI [of _ "k + j"]) (simp add: add.assoc)
  qed
qed

lemma goto_address: "goto a r = Inr (Expr_next a' s') \<Longrightarrow> a' = a"
  by (auto simp: goto_def res_iff)

lemma exec_address:
  assumes "expr_exec c opc n m a s = Inr (Expr_next a' s')"
    and "opc \<noteq> DW_OP_skip" and "opc \<noteq> DW_OP_bra"
  shows "a' = a"
  using assms
  by (cases opc) (auto simp: expr_exec_def expr_const_def expr_mem_def expr_stack_op_def
      expr_arith_def expr_branch_def res_iff Let_def dest: goto_address)

lemma branch_bytes:
  "dwarf_expr_op_of b = DW_OP_skip \<longleftrightarrow> b = 0x2f" "dwarf_expr_op_of b = DW_OP_bra \<longleftrightarrow> b = 0x28"
  by (auto simp: dwarf_expr_op_of_def dwarf_expr_op_low_def dwarf_expr_op_high_def
      split: if_splits)

lemma step_advance:
  assumes "expr_step c a s = Inr (Expr_next a' s')"
    and "as_byte (c_as c) a \<noteq> Some 0x28" and "as_byte (c_as c) a \<noteq> Some 0x2f"
  shows "\<exists>k. k \<le> 20 \<and> a' = a + word_of_nat (1 + k)"
proof -
  obtain b a1 n m a2 where rd: "dwarf_readu8 (c_as c) a = Inr (b, a1)"
    and ops: "read_operands (c_as c) (operands (dwarf_expr_op_of b)) a1 = Inr (n, m, a2)"
    and ex: "expr_exec c (dwarf_expr_op_of b) n m a2 s = Inr (Expr_next a' s')"
    using assms(1) by (auto simp: expr_step_def res_iff)
  have "as_byte (c_as c) a = Some b"
    using rd remote.rd_Some [of "c_as c" a] remote.rd_None [of "c_as c" a]
    by (cases "as_byte (c_as c) a") auto
  with assms(2,3) have "a' = a2" by (intro exec_address [OF ex]) (auto simp: branch_bytes)
  with operands_advance [OF ops] fixed_advance(1) [OF rd] show ?thesis by (auto simp: add.assoc)
qed

lemma loop_terminates:
  assumes "unat e + 32 < 2 ^ 64"
    and "\<And>x. a \<le> x \<Longrightarrow> x < e \<Longrightarrow> as_byte (c_as c) x \<noteq> Some 0x28 \<and> as_byte (c_as c) x \<noteq> Some 0x2f"
  shows "\<exists>r. expr_loop c e a s = Some r"
  using assms(2)
proof (induction "unat e - unat a" arbitrary: a s rule: less_induct)
  case less
  show ?case
  proof (cases "a < e")
    case False
    then show ?thesis by (simp add: expr_loop.simps [of c e a s])
  next
    case True
    then have a: "unat a < unat e" by (simp add: word_less_nat_alt)
    show ?thesis
    proof (cases "expr_step c a s")
      case (Inl f)
      with True show ?thesis by (simp add: expr_loop.simps [of c e a s])
    next
      case (Inr x)
      show ?thesis
      proof (cases x)
        case (Expr_register a' r)
        with True Inr show ?thesis by (simp add: expr_loop.simps [of c e a s])
      next
        case (Expr_next a' s')
        then obtain k where k: "k \<le> 20" "a' = a + word_of_nat (1 + k)"
          using step_advance [of c a s a' s'] Inr less.prems [OF _ True] by auto
        have a': "unat a' = unat a + (1 + k)"
          unfolding k(2) using k(1) a assms(1) by (intro word_add_of_nat_less) simp
        have "\<exists>r. expr_loop c e a' s' = Some r"
        proof (rule less.hyps)
          show "unat e - unat a' < unat e - unat a" using a' a by simp
          fix x assume "a' \<le> x" "x < e"
          moreover from this(1) have "a \<le> x" using a' by (simp add: word_le_nat_alt)
          ultimately show "as_byte (c_as c) x \<noteq> Some 0x28 \<and> as_byte (c_as c) x \<noteq> Some 0x2f"
            using less.prems by blast
        qed
        with True Inr Expr_next show ?thesis by (simp add: expr_loop.simps [of c e a s])
      qed
    qed
  qed
qed

end
