(* ===== verification/ExprCompile.thy ===== *)
theory ExprCompile
  imports ExprLemmas
begin

text \<open>
  What the expression evaluator computes: a language of arithmetic expressions over
  constants, registers and memory with a direct meaning, its translation to DWARF
  operators, and the proof that evaluating the translated bytes yields that meaning, faults
  included.
\<close>

section \<open>Expressions and their meaning\<close>

datatype bin_op = Plus | Minus | Mul | And | Or | Xor | Shl | Shr | Div | Mod | Lt | Le | Gt | Ge | Eq | Ne
datatype un_op = Neg | Not | Abs

datatype dexpr =
    Lit nat | Constu nat | Consts int | Breg nat int
  | Deref dexpr | Unop un_op dexpr | Binop bin_op dexpr dexpr | Plus_uconst dexpr nat

text \<open>The operators on 64-bit words as the DWARF standard has them: left operand first.\<close>

definition bool_word :: "bool \<Rightarrow> unw_word" where
  "bool_word b = (if b then 1 else 0)"

fun bin_value :: "bin_op \<Rightarrow> unw_word \<Rightarrow> unw_word \<Rightarrow> unw_word res" where
  "bin_value Plus x y = Inr (x + y)"
| "bin_value Minus x y = Inr (x - y)"
| "bin_value Mul x y = Inr (x * y)"
| "bin_value And x y = Inr (x AND y)"
| "bin_value Or x y = Inr (x OR y)"
| "bin_value Xor x y = Inr (x XOR y)"
| "bin_value Shl x y = (if unat y < 64 then Inr (push_bit (unat y) x) else Inl Bad_shift)"
| "bin_value Shr x y = (if unat y < 64 then Inr (drop_bit (unat y) x) else Inl Bad_shift)"
| "bin_value Div x y =
     (if y = 0 then Inr 0
      else if sint x = - (2 ^ 63) \<and> sint y = - 1 then Inl Bad_div
      else Inr (word_of_int (sint x sdiv sint y)))"
| "bin_value Mod x y = Inr (if y = 0 then 0 else x mod y)"
| "bin_value Lt x y = Inr (bool_word (sint x < sint y))"
| "bin_value Le x y = Inr (bool_word (sint x \<le> sint y))"
| "bin_value Gt x y = Inr (bool_word (sint x > sint y))"
| "bin_value Ge x y = Inr (bool_word (sint x \<ge> sint y))"
| "bin_value Eq x y = Inr (bool_word (x = y))"
| "bin_value Ne x y = Inr (bool_word (x \<noteq> y))"

fun un_value :: "un_op \<Rightarrow> unw_word \<Rightarrow> unw_word" where
  "un_value Neg x = - x"
| "un_value Not x = NOT x"
| "un_value Abs x = word_of_int \<bar>sint x\<bar>"

fun meaning :: "cursor \<Rightarrow> dexpr \<Rightarrow> unw_word res" where
  "meaning c (Lit n) = Inr (word_of_nat n)"
| "meaning c (Constu n) = Inr (word_of_nat n)"
| "meaning c (Consts i) = Inr (word_of_int i)"
| "meaning c (Breg r i) = rbind (unw_get_reg c (int r)) (\<lambda>v. Inr (v + word_of_int i))"
| "meaning c (Deref e) = rbind (meaning c e) (\<lambda>a.
     rbind (dwarf_readu64 (c_as c) a) (\<lambda>(v, _). Inr v))"
| "meaning c (Unop u e) = rbind (meaning c e) (\<lambda>x. Inr (un_value u x))"
| "meaning c (Binop b l r) = rbind (meaning c l) (\<lambda>x. rbind (meaning c r) (\<lambda>y. bin_value b x y))"
| "meaning c (Plus_uconst e n) = rbind (meaning c e) (\<lambda>x. Inr (x + word_of_nat n))"

section \<open>Translation\<close>

fun bin_code :: "bin_op \<Rightarrow> 8 word" where
  "bin_code Plus = 0x22" | "bin_code Minus = 0x1c" | "bin_code Mul = 0x1e"
| "bin_code And = 0x1a" | "bin_code Or = 0x21" | "bin_code Xor = 0x27"
| "bin_code Shl = 0x24" | "bin_code Shr = 0x25" | "bin_code Div = 0x1b" | "bin_code Mod = 0x1d"
| "bin_code Lt = 0x2d" | "bin_code Le = 0x2c" | "bin_code Gt = 0x2b" | "bin_code Ge = 0x2a"
| "bin_code Eq = 0x29" | "bin_code Ne = 0x2e"

fun un_code :: "un_op \<Rightarrow> 8 word" where
  "un_code Neg = 0x1f" | "un_code Not = 0x20" | "un_code Abs = 0x19"

fun code :: "dexpr \<Rightarrow> 8 word list" where
  "code (Lit n) = [word_of_nat (0x30 + n)]"
| "code (Constu n) = 0x10 # uleb_encode n"
| "code (Consts i) = 0x11 # sleb_encode i"
| "code (Breg r i) = word_of_nat (0x70 + r) # sleb_encode i"
| "code (Deref e) = code e @ [0x06]"
| "code (Unop u e) = code e @ [un_code u]"
| "code (Binop b l r) = code l @ code r @ [bin_code b]"
| "code (Plus_uconst e n) = code e @ 0x23 # uleb_encode n"

text \<open>The operands fit their encodings; the stack an expression needs.\<close>

fun representable :: "dexpr \<Rightarrow> bool" where
  "representable (Lit n) \<longleftrightarrow> n < 32"
| "representable (Constu n) \<longleftrightarrow> n < 2 ^ 64"
| "representable (Consts i) \<longleftrightarrow> - (2 ^ 63) \<le> i \<and> i < 2 ^ 63"
| "representable (Breg r i) \<longleftrightarrow> r \<le> 16 \<and> - (2 ^ 63) \<le> i \<and> i < 2 ^ 63"
| "representable (Deref e) \<longleftrightarrow> representable e"
| "representable (Unop u e) \<longleftrightarrow> representable e"
| "representable (Binop b l r) \<longleftrightarrow> representable l \<and> representable r"
| "representable (Plus_uconst e n) \<longleftrightarrow> representable e \<and> n < 2 ^ 64"

fun depth :: "dexpr \<Rightarrow> nat" where
  "depth (Deref e) = depth e"
| "depth (Unop u e) = depth e"
| "depth (Binop b l r) = max (depth l) (1 + depth r)"
| "depth (Plus_uconst e n) = depth e"
| "depth _ = 1"

section \<open>Single operators\<close>

lemma depth_pos: "0 < depth e"
  by (induction e) auto

lemma code_nonempty [simp]: "code e \<noteq> []"
  by (cases e) auto

lemma unat_byte: "n < 256 \<Longrightarrow> unat (word_of_nat n :: 8 word) = n"
  by (simp add: unat_of_nat)

lemma opcode_lit: "n < 32 \<Longrightarrow> dwarf_expr_op_of (word_of_nat (0x30 + n)) = DW_OP_lit n"
  using unat_byte [of "0x30 + n"]
  by (simp add: dwarf_expr_op_of_def word_less_nat_alt del: of_nat_add)

lemma opcode_breg: "n < 32 \<Longrightarrow> dwarf_expr_op_of (word_of_nat (0x70 + n)) = DW_OP_breg n"
  using unat_byte [of "0x70 + n"]
  by (simp add: dwarf_expr_op_of_def word_less_nat_alt del: of_nat_add)

lemma opcode_fixed:
  "dwarf_expr_op_of 0x06 = DW_OP_deref" "dwarf_expr_op_of 0x10 = DW_OP_constu"
  "dwarf_expr_op_of 0x11 = DW_OP_consts" "dwarf_expr_op_of 0x23 = DW_OP_plus_uconst"
  by (simp_all add: dwarf_expr_op_of_def dwarf_expr_op_low_def)

fun bin_opc :: "bin_op \<Rightarrow> dwarf_expr_op" where
  "bin_opc Plus = DW_OP_plus" | "bin_opc Minus = DW_OP_minus" | "bin_opc Mul = DW_OP_mul"
| "bin_opc And = DW_OP_and" | "bin_opc Or = DW_OP_or" | "bin_opc Xor = DW_OP_xor"
| "bin_opc Shl = DW_OP_shl" | "bin_opc Shr = DW_OP_shr" | "bin_opc Div = DW_OP_div"
| "bin_opc Mod = DW_OP_mod" | "bin_opc Lt = DW_OP_lt" | "bin_opc Le = DW_OP_le"
| "bin_opc Gt = DW_OP_gt" | "bin_opc Ge = DW_OP_ge" | "bin_opc Eq = DW_OP_eq"
| "bin_opc Ne = DW_OP_ne"

lemma opcode_bin: "dwarf_expr_op_of (bin_code b) = bin_opc b"
  by (cases b) (simp_all add: dwarf_expr_op_of_def dwarf_expr_op_low_def)

fun un_opc :: "un_op \<Rightarrow> dwarf_expr_op" where
  "un_opc Neg = DW_OP_neg" | "un_opc Not = DW_OP_not" | "un_opc Abs = DW_OP_abs"

lemma opcode_un: "dwarf_expr_op_of (un_code u) = un_opc u"
  by (cases u) (simp_all add: dwarf_expr_op_of_def dwarf_expr_op_low_def)

text \<open>What a step leaves: the fault, or the stack with the value on top.\<close>

definition pushes :: "expr_outcome res \<Rightarrow> unw_word \<Rightarrow> unw_word list \<Rightarrow> unw_word res \<Rightarrow> bool" where
  "pushes r a xs v = (case v of
      Inl f \<Rightarrow> r = Inl f
    | Inr x \<Rightarrow> \<exists>s'. r = Inr (Expr_next a s') \<and> wf_es s' \<and> es_contents s' = x # xs)"

lemma pushes_push:
  "wf_es s \<Longrightarrow> length (es_contents s) < 64 \<Longrightarrow>
   pushes (goto a (expr_push s x)) a (es_contents s) (Inr x)"
  using es.push_room [of s x] by (auto simp: pushes_def goto_def)

lemma pushes_rbind:
  assumes "\<And>v. \<exists>t. expr_push s v = Inr t \<and> wf_es t \<and> es_contents t = v # xs"
  shows "pushes (goto a (rbind m (expr_push s))) a xs m"
proof (cases m)
  case (Inr b)
  with assms [of b] show ?thesis by (auto simp: pushes_def goto_def)
qed (simp add: pushes_def goto_def)

lemma pushes_un:
  assumes "wf_es s" and "es_contents s = x # xs"
  shows "pushes (goto a (expr_un s f)) a xs (f x)"
proof -
  obtain s' where pop: "expr_pop s = Inr (x, s')" "wf_es s'" "es_contents s' = xs"
    using es.pop_some [OF assms] by blast
  have "length xs < 64" using es.bounded [OF assms(1)] assms(2) by simp
  then have "\<And>v. \<exists>t. expr_push s' v = Inr t \<and> wf_es t \<and> es_contents t = v # xs"
    using pop es.push_room [of s'] by blast
  then have "pushes (goto a (rbind (f x) (expr_push s'))) a xs (f x)"
    by (rule pushes_rbind)
  with pop show ?thesis by (simp add: expr_un_def)
qed

lemma pushes_bin:
  assumes "wf_es s" and "es_contents s = y # x # xs"
  shows "pushes (goto a (expr_bin s f)) a xs (f y x)"
proof -
  obtain s' where pop: "expr_pop s = Inr (y, s')" "wf_es s'" "es_contents s' = x # xs"
    using es.pop_some [OF assms] by blast
  obtain s'' where pop': "expr_pop s' = Inr (x, s'')" "wf_es s''" "es_contents s'' = xs"
    using es.pop_some [OF pop(2,3)] by blast
  have "length xs < 64" using es.bounded [OF assms(1)] assms(2) by simp
  then have "\<And>v. \<exists>t. expr_push s'' v = Inr t \<and> wf_es t \<and> es_contents t = v # xs"
    using pop' es.push_room [of s''] by blast
  then have "pushes (goto a (rbind (f y x) (expr_push s''))) a xs (f y x)"
    by (rule pushes_rbind)
  with pop pop' show ?thesis by (simp add: expr_bin_def)
qed

lemmas exec_defs = expr_exec_def expr_const_def expr_mem_def expr_stack_op_def expr_arith_def

lemma sword_64 [simp]: "addr_size as = 8 \<Longrightarrow> sword as v = Inr (sint v)"
  by (simp add: sword_def)

lemma less_64: "(w :: unw_word) < 64 \<longleftrightarrow> unat w < 64"
  by (simp add: word_less_nat_alt)

lemma sint_zero_iff: "sint (w :: unw_word) = 0 \<longleftrightarrow> w = 0"
  by (metis signed_0 signed_word_eqI)

lemma sint_eq_iff: "sint (v :: unw_word) = sint w \<longleftrightarrow> v = w"
  by (metis signed_word_eqI)

lemma exec_bin:
  assumes "addr_size (c_as c) = 8" and "wf_es s" and "es_contents s = y # x # xs"
  shows "pushes (expr_exec c (bin_opc b) n m a s) a xs (bin_value b x y)"
proof -
  note p = pushes_bin [OF assms(2,3), of a]
  show ?thesis
  proof (cases b)
    case Plus then show ?thesis using p [of "\<lambda>u v. Inr (u + v)"] by (simp add: exec_defs add.commute)
  next
    case Minus then show ?thesis using p [of "\<lambda>u v. Inr (v - u)"] by (simp add: exec_defs)
  next
    case Mul then show ?thesis
      using p [of "\<lambda>u v. Inr (if u \<noteq> 0 then v * u else u)"] by (cases "y = 0") (simp_all add: exec_defs)
  next
    case And then show ?thesis using p [of "\<lambda>u v. Inr (u AND v)"] by (simp add: exec_defs and.commute)
  next
    case Or then show ?thesis using p [of "\<lambda>u v. Inr (u OR v)"] by (simp add: exec_defs or.commute)
  next
    case Xor then show ?thesis using p [of "\<lambda>u v. Inr (u XOR v)"] by (simp add: exec_defs xor.commute)
  next
    case Shl then show ?thesis
      using p [of "\<lambda>u v. if u < 64 then Inr (push_bit (unat u) v) else Inl Bad_shift"]
      by (simp add: exec_defs less_64)
  next
    case Shr then show ?thesis
      using p [of "\<lambda>u v. if u < 64 then Inr (drop_bit (unat u) v) else Inl Bad_shift"]
      by (simp add: exec_defs less_64)
  next
    case Div then show ?thesis
      using p [of "expr_div (c_as c)"] assms(1)
      by (cases "y = 0") (auto simp: exec_defs expr_div_def sint_zero_iff)
  next
    case Mod then show ?thesis
      using p [of "\<lambda>u v. Inr (if u \<noteq> 0 then v mod u else u)"] by (cases "y = 0") (simp_all add: exec_defs)
  next
    case Lt then show ?thesis using p [of "expr_compare (c_as c) (<)"] assms(1)
      by (simp add: exec_defs expr_compare_def bool_word_def)
  next
    case Le then show ?thesis using p [of "expr_compare (c_as c) (\<le>)"] assms(1)
      by (simp add: exec_defs expr_compare_def bool_word_def)
  next
    case Gt then show ?thesis using p [of "expr_compare (c_as c) (>)"] assms(1)
      by (simp add: exec_defs expr_compare_def bool_word_def)
  next
    case Ge then show ?thesis using p [of "expr_compare (c_as c) (\<ge>)"] assms(1)
      by (simp add: exec_defs expr_compare_def bool_word_def)
  next
    case Eq then show ?thesis using p [of "expr_compare (c_as c) (=)"] assms(1)
      by (simp add: exec_defs expr_compare_def bool_word_def sint_eq_iff)
  next
    case Ne then show ?thesis using p [of "expr_compare (c_as c) (\<noteq>)"] assms(1)
      by (simp add: exec_defs expr_compare_def bool_word_def sint_eq_iff)
  qed
qed

lemma exec_un:
  assumes "addr_size (c_as c) = 8" and "wf_es s" and "es_contents s = x # xs"
  shows "pushes (expr_exec c (un_opc u) n m a s) a xs (Inr (un_value u x))"
proof -
  note p = pushes_un [OF assms(2,3), of a]
  show ?thesis
  proof (cases u)
    case Neg then show ?thesis using p [of "\<lambda>v. Inr (NOT v + 1)"]
      by (simp add: exec_defs minus_eq_not_plus_1)
  next
    case Not then show ?thesis using p [of "\<lambda>v. Inr (NOT v)"]
      by (simp add: exec_defs)
  next
    case Abs
    have "x AND push_bit 63 1 \<noteq> 0 \<longleftrightarrow> sint x < 0"
      using and_exp_eq_0_iff_not_bit [of x 63] bit_last_iff [of x] by simp
    then have "expr_abs (c_as c) x = Inr (word_of_int \<bar>sint x\<bar>)"
      using assms(1) by (simp add: expr_abs_def abs_if minus_eq_not_plus_1 [symmetric])
    with Abs show ?thesis using p [of "expr_abs (c_as c)"]
      by (simp add: exec_defs)
  qed
qed

section \<open>Runs\<close>

text \<open>
  Evaluating a piece of code of length \<open>n\<close> at \<open>a\<close>: the loop fails, or it goes on behind the
  code with one value on top of the given stack contents.
\<close>

definition evaluates ::
  "cursor \<Rightarrow> unw_word \<Rightarrow> unw_word \<Rightarrow> expr_stack \<Rightarrow> nat \<Rightarrow> unw_word res \<Rightarrow> unw_word list \<Rightarrow> bool"
where
  "evaluates c e a s n v xs = (case v of
      Inl f \<Rightarrow> expr_loop c e a s = Some (Inl f)
    | Inr x \<Rightarrow> \<exists>s'. expr_loop c e a s = expr_loop c e (a + word_of_nat n) s'
        \<and> wf_es s' \<and> es_contents s' = x # xs)"

lemma evaluates_step:
  assumes "a < e" and "pushes (expr_step c a s) (a + word_of_nat n) xs v"
  shows "evaluates c e a s n v xs"
  using assms by (auto simp: evaluates_def pushes_def expr_loop.simps [of c e a s]
      split: sum.splits)

lemma evaluates_then:
  assumes "evaluates c e a s n v xs"
    and "\<And>x s'. wf_es s' \<Longrightarrow> es_contents s' = x # xs \<Longrightarrow>
      evaluates c e (a + word_of_nat n) s' k (f x) ys"
  shows "evaluates c e a s (n + k) (rbind v f) ys"
proof (cases v)
  case (Inl g)
  with assms(1) show ?thesis by (simp add: evaluates_def)
next
  case (Inr x)
  with assms(1) obtain s' where s': "expr_loop c e a s = expr_loop c e (a + word_of_nat n) s'"
    "wf_es s'" "es_contents s' = x # xs" by (auto simp: evaluates_def)
  from assms(2) [OF s'(2,3)] s'(1) Inr show ?thesis
    by (cases "f x") (auto simp: evaluates_def add.assoc)
qed

text \<open>Fetching and decoding an operator without operands, or with a LEB128 operand.\<close>

lemma step_fetch:
  assumes "as_byte (c_as c) a = Some b" and "dwarf_expr_op_of b = opc"
    and "read_operands (c_as c) (operands opc) (a + 1) = Inr (n, m, a')"
  shows "expr_step c a s = expr_exec c opc n m a' s"
  using assms by (simp add: expr_step_def remote.rd_Some)

lemma step_plain:
  assumes "as_byte (c_as c) a = Some b" and "dwarf_expr_op_of b = opc" and "operands opc = []"
  shows "expr_step c a s = expr_exec c opc 0 0 (a + 1) s"
  using assms(3) by (intro step_fetch [OF assms(1,2)]) (simp add: read_operands_def)

lemma step_uleb:
  assumes "as_byte (c_as c) a = Some b" and "dwarf_expr_op_of b = opc" and "operands opc = [ULEB128]"
    and "bytes_at (as_byte (c_as c)) (a + 1) (uleb_encode n)" and "n < 2 ^ 64"
  shows "expr_step c a s
    = expr_exec c opc (word_of_nat n) 0 (a + word_of_nat (1 + length (uleb_encode n))) s"
  using assms(3) remote.read_uleb128_encode [OF assms(4,5)]
  by (intro step_fetch [OF assms(1,2)])
    (simp add: read_operands_def read_operand_def resolve_operand_type_def
      dwarf_read_uleb128_def add.assoc)

lemma step_sleb:
  assumes "as_byte (c_as c) a = Some b" and "dwarf_expr_op_of b = opc" and "operands opc = [SLEB128]"
    and "bytes_at (as_byte (c_as c)) (a + 1) (sleb_encode i)" and "- (2 ^ 63) \<le> i" and "i < 2 ^ 63"
  shows "expr_step c a s
    = expr_exec c opc (word_of_int i) 0 (a + word_of_nat (1 + length (sleb_encode i))) s"
  using assms(3) remote.read_sleb128_encode [OF assms(4-6)]
  by (intro step_fetch [OF assms(1,2)])
    (simp add: read_operands_def read_operand_def resolve_operand_type_def
      dwarf_read_sleb128_def add.assoc)

text \<open>
  Evaluating the code of an expression: the loop continues behind the code with the meaning
  of the expression on top of an otherwise unchanged stack.
\<close>

lemma regnum_16: "r \<le> 16 \<Longrightarrow> dwarf_to_unw_regnum (word_of_nat r) = r"
  by (simp add: dwarf_to_unw_regnum_eq unat_of_nat)

lemma operands_of:
  "operands (DW_OP_lit n) = []" "operands (bin_opc b) = []" "operands (un_opc u) = []"
  "operands DW_OP_deref = []" "operands DW_OP_constu = [ULEB128]"
  "operands DW_OP_consts = [SLEB128]" "operands (DW_OP_breg n) = [SLEB128]"
  "operands DW_OP_plus_uconst = [ULEB128]"
  by (simp_all add: operands_def) (cases b, auto, cases u, auto)

lemma evaluates_code:
  assumes "addr_size (c_as c) = 8" and "representable x" and "wf_es s"
    and "length (es_contents s) + depth x \<le> 64"
    and "bytes_at (as_byte (c_as c)) a (code x)" and "unat a + length (code x) \<le> unat e"
  shows "evaluates c e a s (length (code x)) (meaning c x) (es_contents s)"
  using assms(2-)
proof (induction x arbitrary: a s)
  case (Lit n)
  have "expr_step c a s = expr_exec c (DW_OP_lit n) 0 0 (a + 1) s"
    using Lit.prems step_plain [of c a "word_of_nat (0x30 + n)"]
    by (simp add: opcode_lit operands_of del: of_nat_add)
  then show ?case
    using inside [OF Lit.prems(5), of 0] pushes_push [OF Lit.prems(2)] Lit.prems(3)
    by (intro evaluates_step) (simp_all add: exec_defs)
next
  case (Constu n)
  have "expr_step c a s = expr_exec c DW_OP_constu (word_of_nat n) 0
      (a + word_of_nat (length (code (Constu n)))) s"
    using Constu.prems step_uleb [of c a "0x10"] by (simp add: opcode_fixed operands_of)
  then show ?case
    using inside [OF Constu.prems(5), of 0] pushes_push [OF Constu.prems(2)] Constu.prems(3)
    by (intro evaluates_step) (simp_all add: exec_defs)
next
  case (Consts i)
  have "expr_step c a s = expr_exec c DW_OP_consts (word_of_int i) 0
      (a + word_of_nat (length (code (Consts i)))) s"
    using Consts.prems step_sleb [of c a "0x11"] by (simp add: opcode_fixed operands_of)
  then show ?case
    using inside [OF Consts.prems(5), of 0] pushes_push [OF Consts.prems(2)] Consts.prems(3)
    by (intro evaluates_step) (simp_all add: exec_defs)
next
  case (Breg r i)
  let ?a' = "a + word_of_nat (length (code (Breg r i)))"
  have "expr_step c a s = expr_exec c (DW_OP_breg r) (word_of_int i) 0 ?a' s"
    using Breg.prems step_sleb [of c a "word_of_nat (0x70 + r)"]
    by (simp add: opcode_breg operands_of del: of_nat_add)
  moreover have "pushes (expr_exec c (DW_OP_breg r) (word_of_int i) 0 ?a' s) ?a' (es_contents s)
      (meaning c (Breg r i))"
    using pushes_push [OF Breg.prems(2), of ?a'] Breg.prems(1,3)
    by (cases "unw_get_reg c (int r)") (simp_all add: exec_defs regnum_16 pushes_def)
  ultimately show ?case
    using inside [OF Breg.prems(5), of 0] by (intro evaluates_step) simp_all
next
  case (Deref x)
  let ?a = "a + word_of_nat (length (code x))"
  have IH: "evaluates c e a s (length (code x)) (meaning c x) (es_contents s)"
    using Deref.prems by (intro Deref.IH) (auto simp: bytes_at_append)
  have step: "expr_step c ?a t = expr_exec c DW_OP_deref 0 0 (?a + 1) t" for t
    using Deref.prems(4)
    by (intro step_plain [of c ?a "0x06"] operands_of opcode_fixed) (simp add: bytes_at_append)
  have "evaluates c e a s (length (code x) + 1)
      (rbind (meaning c x) (\<lambda>v. rbind (dwarf_readw (c_as c) v) (\<lambda>(u, _). Inr u))) (es_contents s)"
    using inside [OF Deref.prems(5), of "length (code x)"]
    by (intro evaluates_then [OF IH] evaluates_step)
      (simp_all add: step exec_defs
        pushes_un [where f = "\<lambda>v. rbind (dwarf_readw (c_as c) v) (\<lambda>(u, _). Inr u)"])
  then show ?case using assms(1) by (simp add: dwarf_readw_def)
next
  case (Unop u x)
  let ?a = "a + word_of_nat (length (code x))"
  have IH: "evaluates c e a s (length (code x)) (meaning c x) (es_contents s)"
    using Unop.prems by (intro Unop.IH) (auto simp: bytes_at_append)
  have "expr_step c ?a t = expr_exec c (un_opc u) 0 0 (?a + 1) t" for t
    using Unop.prems(4)
    by (intro step_plain [of c ?a "un_code u"] operands_of opcode_un) (simp add: bytes_at_append)
  then have "evaluates c e a s (length (code x) + 1)
      (rbind (meaning c x) (\<lambda>v. Inr (un_value u v))) (es_contents s)"
    using inside [OF Unop.prems(5), of "length (code x)"]
    by (intro evaluates_then [OF IH] evaluates_step) (simp_all add: exec_un [OF assms(1)])
  then show ?case by simp
next
  case (Binop b l r)
  let ?n = "length (code l)" and ?m = "length (code r)"
  let ?a = "a + word_of_nat ?n" and ?b = "a + word_of_nat ?n + word_of_nat ?m"
  have left: "evaluates c e a s ?n (meaning c l) (es_contents s)"
    using Binop.prems by (intro Binop.IH(1)) (auto simp: bytes_at_append)
  have a: "unat ?a = unat a + ?n"
    using Binop.prems(5) by (intro unat_inside [of a "length (code (Binop b l r))" e]) auto
  have right: "evaluates c e ?a t ?m (meaning c r) (es_contents t)"
    if "wf_es t" "es_contents t = v # es_contents s" for t v
    using Binop.prems a that by (intro Binop.IH(2)) (auto simp: bytes_at_append)
  have "expr_step c ?b t = expr_exec c (bin_opc b) 0 0 (?b + 1) t" for t
    using Binop.prems(4)
    by (intro step_plain [of c ?b "bin_code b"] operands_of opcode_bin) (simp add: bytes_at_append)
  then have last: "evaluates c e ?b t 1 (bin_value b v w) (es_contents s)"
    if "wf_es t" "es_contents t = w # v # es_contents s" for t v w
    using inside [OF Binop.prems(5), of "?n + ?m"] exec_bin [OF assms(1) that]
    by (intro evaluates_step) (simp_all add: add.assoc)
  have "evaluates c e a s (?n + (?m + 1))
      (rbind (meaning c l) (\<lambda>x. rbind (meaning c r) (bin_value b x))) (es_contents s)"
    using right last by (intro evaluates_then [OF left] evaluates_then) auto
  then show ?case by (simp add: add.assoc)
next
  case (Plus_uconst x n)
  let ?a = "a + word_of_nat (length (code x))"
  let ?k = "length (uleb_encode n)"
  have IH: "evaluates c e a s (length (code x)) (meaning c x) (es_contents s)"
    using Plus_uconst.prems by (intro Plus_uconst.IH) (auto simp: bytes_at_append)
  have "expr_step c ?a t
      = expr_exec c DW_OP_plus_uconst (word_of_nat n) 0 (?a + word_of_nat (1 + ?k)) t" for t
    using Plus_uconst.prems by (intro step_uleb [of c ?a "0x23"] operands_of opcode_fixed)
      (auto simp: bytes_at_append add.assoc)
  then have "evaluates c e a s (length (code x) + (1 + ?k))
      (rbind (meaning c x) (\<lambda>v. Inr (v + word_of_nat n))) (es_contents s)"
    using inside [OF Plus_uconst.prems(5), of "length (code x)"]
    by (intro evaluates_then [OF IH] evaluates_step)
      (simp_all add: exec_defs pushes_un [where f = "\<lambda>v. Inr (v + word_of_nat n)"])
  then show ?case by simp
qed

end
