(* ===== verification/ExprProps.thy ===== *)
theory ExprProps
  imports ExprCompile Ram
begin

text \<open>The properties of the expression evaluator of \<open>src/dwarf/Gexpr.c\<close>, each with an instance.\<close>

section \<open>What is computed\<close>

text \<open>C8. Evaluating the DWARF code of an arithmetic expression over constants, registers and
  memory yields the meaning of the expression as the value, with the address behind the
  code, and fails exactly when the meaning does: operand order, signedness, division and
  shifts included.\<close>

theorem eval_expr_correct:
  assumes "addr_size (c_as c) = 8" and "representable x" and "depth x < MAX_EXPR_STACK_SIZE"
    and "bytes_at (as_byte (c_as c)) a (code x)" and "unat a + length (code x) < 2 ^ 64"
  shows "dwarf_eval_expr c sv a (word_of_nat (length (code x))) =
    Some (case meaning c x of
            Inl f \<Rightarrow> Inl f
          | Inr v \<Rightarrow> Inr (v, False, a + word_of_nat (length (code x))))"
proof -
  let ?e = "a + word_of_nat (length (code x))"
  obtain s where s: "expr_push \<lparr>es_stack = replicate 64 0, es_tos = 0\<rparr> sv = Inr s" "wf_es s"
    "es_contents s = [sv]" using wf_initial [of "replicate 64 0" sv] by auto
  have e: "unat ?e = unat a + length (code x)"
    using assms(5) by (intro word_add_of_nat_less) simp
  have "evaluates c ?e a s (length (code x)) (meaning c x) (es_contents s)"
    using assms e s by (intro evaluates_code) auto
  then have "expr_loop c ?e a s = Some (case meaning c x of
      Inl f \<Rightarrow> Inl f | Inr v \<Rightarrow> Inr (v, False, ?e))"
  proof (cases "meaning c x")
    case (Inr v)
    assume "evaluates c ?e a s (length (code x)) (meaning c x) (es_contents s)"
    with Inr obtain t where t: "expr_loop c ?e a s = expr_loop c ?e ?e t" "wf_es t"
      "es_contents t = v # es_contents s" by (auto simp: evaluates_def)
    obtain u where "expr_pop t = Inr (v, u)" using es.pop_some [OF t(2,3)] by blast
    with t(1) Inr show ?thesis by (simp add: expr_loop.simps [of c ?e ?e])
  qed (simp add: evaluates_def)
  with s(1) show ?thesis by (simp add: dwarf_eval_expr_def dwarf_eval_expr_from_def)
qed

text \<open>\<open>(7 - 10) * 5\<close>, stored at address \<open>0x1000\<close>.\<close>

theorem eval_expr_correct_witness:
  "dwarf_eval_expr (blank_cursor (ram (bytes_from 0x1000
      (code (Binop Mul (Binop Minus (Lit 7) (Constu 10)) (Lit 5)))))) 0 0x1000 6
    = Some (Inr (- 15, False, 0x1006))"
  using eval_expr_correct [of "blank_cursor (ram (bytes_from 0x1000
      (code (Binop Mul (Binop Minus (Lit 7) (Constu 10)) (Lit 5)))))"
      "Binop Mul (Binop Minus (Lit 7) (Constu 10)) (Lit 5)" "0x1000" 0]
  by (simp add: uleb_encode.simps bytes_from_def)

text \<open>\<open>DW_OP_rot\<close> moves the top of the stack below the next two values, and
  \<open>DW_OP_swap\<close> exchanges the two topmost values.\<close>

lemma rot_and_swap:
  assumes "wf_es s" and "es_contents s = x # y # z # zs"
  shows "(\<exists>t. expr_exec c DW_OP_rot n m a s = Inr (Expr_next a t) \<and> wf_es t
      \<and> es_contents t = y # z # x # zs)
    \<and> (\<exists>t. expr_exec c DW_OP_swap n m a s = Inr (Expr_next a t) \<and> wf_es t
      \<and> es_contents t = y # x # z # zs)"
proof -
  have room: "length zs + 3 \<le> 64" using es.bounded [OF assms(1)] assms(2) by simp
  obtain s1 where p1: "expr_pop s = Inr (x, s1)" "wf_es s1" "es_contents s1 = y # z # zs"
    using es.pop_some [OF assms] by blast
  obtain s2 where p2: "expr_pop s1 = Inr (y, s2)" "wf_es s2" "es_contents s2 = z # zs"
    using es.pop_some [OF p1(2,3)] by blast
  obtain s3 where p3: "expr_pop s2 = Inr (z, s3)" "wf_es s3" "es_contents s3 = zs"
    using es.pop_some [OF p2(2,3)] by blast
  obtain r1 where q1: "expr_push s3 x = Inr r1" "wf_es r1" "es_contents r1 = x # zs"
    using es.push_room [OF p3(2), of x] p3(3) room by auto
  obtain r2 where q2: "expr_push r1 z = Inr r2" "wf_es r2" "es_contents r2 = z # x # zs"
    using es.push_room [OF q1(2), of z] q1(3) room by auto
  obtain r3 where q3: "expr_push r2 y = Inr r3" "wf_es r3" "es_contents r3 = y # z # x # zs"
    using es.push_room [OF q2(2), of y] q2(3) room by auto
  obtain t1 where u1: "expr_push s2 x = Inr t1" "wf_es t1" "es_contents t1 = x # z # zs"
    using es.push_room [OF p2(2), of x] p2(3) room by auto
  obtain t2 where u2: "expr_push t1 y = Inr t2" "wf_es t2" "es_contents t2 = y # x # z # zs"
    using es.push_room [OF u1(2), of y] u1(3) room by auto
  show ?thesis using p1 p2 p3 q1 q2 q3 u1 u2 by (simp add: exec_defs goto_def)
qed

lemma example_stack:
  "wf_es \<lparr>es_stack = 3 # 2 # 1 # replicate 61 0, es_tos = 3\<rparr>"
  "es_contents \<lparr>es_stack = 3 # 2 # 1 # replicate 61 0, es_tos = 3\<rparr> = [1, 2, 3]"
  by (simp_all add: wf_es_def es_contents_def)

lemma rot_and_swap_witness:
  "\<exists>t. expr_exec (blank_cursor (ram (\<lambda>_. 0))) DW_OP_rot 0 0 0x10
      \<lparr>es_stack = 3 # 2 # 1 # replicate 61 0, es_tos = 3\<rparr> = Inr (Expr_next 0x10 t)
    \<and> es_contents t = [2, 3, 1]"
  using rot_and_swap [OF example_stack, of "blank_cursor (ram (\<lambda>_. 0))" 0 0 "0x10"] by blast

section \<open>Safety\<close>

text \<open>The evaluator never uses an uninitialised slot of its stack array: the result is the
  same for every initial contents of the array, whatever the expression bytes are.\<close>

lemma eval_expr_initialised:
  assumes "length st = MAX_EXPR_STACK_SIZE" and "length st' = MAX_EXPR_STACK_SIZE" and "wf_cursor c"
  shows "dwarf_eval_expr_from st c sv a len = dwarf_eval_expr_from st' c sv a len"
proof -
  obtain s s' where s: "expr_push \<lparr>es_stack = st, es_tos = 0\<rparr> sv = Inr s"
    "expr_push \<lparr>es_stack = st', es_tos = 0\<rparr> sv = Inr s'" "es.same s s'"
    using wf_initial [OF assms(1), of sv] wf_initial [OF assms(2), of sv]
    by (auto simp: es.same_def)
  then show ?thesis
    using loop_independent [OF s(3) assms(3)] by (simp add: dwarf_eval_expr_from_def)
qed

lemma eval_expr_initialised_witness:
  "dwarf_eval_expr_from (replicate 64 1) (blank_cursor (ram (\<lambda>_. 0x12))) 5 0 100
    = dwarf_eval_expr_from (replicate 64 2) (blank_cursor (ram (\<lambda>_. 0x12))) 5 0 100"
  using eval_expr_initialised [of "replicate 64 1" "replicate 64 2"
      "blank_cursor (ram (\<lambda>_. 0x12))" 5 0 100] by simp

text \<open>The addresses at which the evaluation of an expression comes to an operator or to its end.\<close>

definition expr_comes_to :: "cursor \<Rightarrow> unw_word \<Rightarrow> unw_word \<Rightarrow> unw_word \<Rightarrow> unw_word \<Rightarrow> bool" where
  "expr_comes_to c sv a len b \<longleftrightarrow>
     (\<exists>s t. expr_push \<lparr>es_stack = replicate 64 0, es_tos = 0\<rparr> sv = Inr s \<and> expr_visits c (a + len) a s b t)"

text \<open>C30. An evaluation that returns, of any bytes and with any initial value, accesses the stack array or
  the arrays of the cursor out of bounds in one case only: it comes to a \<open>DW_OP_bregx\<close> with operands
  that can be read and a register number whose bit 31 is set, which is taken for a negative one. In
  this case it does.\<close>

theorem eval_expr_in_bounds:
  assumes "dwarf_eval_expr c sv a len = Some r" and "wf_cursor c"
  shows "r = Inl Out_of_bounds \<longleftrightarrow> (\<exists>b. expr_comes_to c sv a len b \<and> b < a + len \<and> negative_bregx (c_as c) b)"
proof -
  obtain s where s: "expr_push \<lparr>es_stack = replicate 64 0, es_tos = 0\<rparr> sv = Inr s" "wf_es s"
    using wf_initial [of "replicate 64 0" sv] by auto
  with assms(1) have run: "expr_loop c (a + len) a s = Some r"
    by (simp add: dwarf_eval_expr_def dwarf_eval_expr_from_def)
  show ?thesis
  proof
    assume "r = Inl Out_of_bounds"
    then show "\<exists>b. expr_comes_to c sv a len b \<and> b < a + len \<and> negative_bregx (c_as c) b"
      using loop_out_of_bounds [OF run s(2) assms(2)] s(1) by (auto simp: in_bounds_def expr_comes_to_def)
  next
    assume "\<exists>b. expr_comes_to c sv a len b \<and> b < a + len \<and> negative_bregx (c_as c) b"
    then show "r = Inl Out_of_bounds"
      using visits_negative_bregx run s(1) by (fastforce simp: expr_comes_to_def)
  qed
qed

text \<open>Dropping the initial value and dropping again: the underflow is an error.\<close>

lemmas run_simps = expr_step_def dwarf_readu8_mirrors [OF mirrors_ram] local_readu8_def
  bytes_from_def dwarf_expr_op_of_def dwarf_expr_op_low_def operands_def read_operands_def
  exec_defs goto_def expr_pop_def expr_push_def arr_set_def

lemma drop_twice:
  "dwarf_eval_expr (blank_cursor (ram (bytes_from 0 [0x13, 0x13]))) 5 0 2
    = Some (Inl (Err UNW_EINVAL))"
  by (simp add: dwarf_eval_expr_def dwarf_eval_expr_from_def expr_loop.simps run_simps)

text \<open>A constant whose byte is that of \<open>DW_OP_bregx\<close>.\<close>

lemma const_0x92:
  "dwarf_eval_expr (blank_cursor (ram (bytes_from 0 [0x08, 0x92]))) 5 0 2 = Some (Inr (0x92, False, 2))"
  by (simp add: dwarf_eval_expr_def dwarf_eval_expr_from_def expr_loop.simps run_simps
      read_operand_def resolve_operand_type_def word_le_nat_alt)

theorem eval_expr_in_bounds_witness:
  "\<not> (\<exists>b. expr_comes_to (blank_cursor (ram (bytes_from 0 [0x08, 0x92]))) 5 0 2 b \<and> b < 2
     \<and> negative_bregx (ram (bytes_from 0 [0x08, 0x92])) b)"
proof -
  let ?c = "blank_cursor (ram (bytes_from 0 [0x08, 0x92]))"
  have "wf_cursor ?c" "c_as ?c = ram (bytes_from 0 [0x08, 0x92])" by simp_all
  with eval_expr_in_bounds [OF const_0x92] show ?thesis by simp
qed

text \<open>The register number of \<open>DW_OP_bregx\<close> is compared as a signed \<open>int\<close>: with the sign bit
  of the low half set, the lookup of the register map is out of bounds.\<close>

lemma bregx_negative_register:
  "bit operand1 31 \<Longrightarrow> expr_exec c DW_OP_bregx operand1 operand2 a s = Inl Out_of_bounds"
  using bit_last_iff [of "ucast operand1 :: 32 word"]
  by (simp add: expr_exec_def dwarf_to_unw_regnum_int_def bit_simps)

lemma bregx_negative_register_witness:
  "expr_exec (blank_cursor (ram (\<lambda>_. 0))) DW_OP_bregx 0x80000000 0 0
     \<lparr>es_stack = replicate 64 0, es_tos = 1\<rparr> = Inl Out_of_bounds"
  by (rule bregx_negative_register) simp

section \<open>Termination\<close>

text \<open>C32. An expression in which no byte is the code of \<open>DW_OP_skip\<close> or \<open>DW_OP_bra\<close> is evaluated
  in finitely many steps, whatever else it contains.\<close>

theorem eval_expr_terminates:
  assumes "unat (a + len) + 32 < 2 ^ 64"
    and "\<forall>x. a \<le> x \<and> x < a + len \<longrightarrow> as_byte (c_as c) x \<noteq> Some 0x28 \<and> as_byte (c_as c) x \<noteq> Some 0x2f"
  shows "\<exists>r. dwarf_eval_expr c sv a len = Some r"
proof -
  obtain s where "expr_push \<lparr>es_stack = replicate 64 0, es_tos = 0\<rparr> sv = Inr s"
    using wf_initial [of "replicate 64 0" sv] by auto
  with loop_terminates [OF assms(1), of a c s] assms(2) show ?thesis
    by (auto simp: dwarf_eval_expr_def dwarf_eval_expr_from_def)
qed

theorem eval_expr_terminates_witness:
  "\<exists>r. dwarf_eval_expr (blank_cursor (ram (\<lambda>_. 0x12))) 5 0 1000 = Some r"
  by (rule eval_expr_terminates) simp_all

text \<open>With a backward branch the evaluator may not return: a \<open>DW_OP_skip\<close> by minus three
  jumps to itself for ever.\<close>

lemma eval_expr_may_diverge:
  assumes "bytes_at (as_byte (c_as c)) a [0x2f, 0xfd, 0xff]" and "\<not> big_endian (c_as c)"
    and "unat a + 3 < 2 ^ 64"
  shows "dwarf_eval_expr c sv a 3 = None"
proof -
  have step: "expr_step c a s = Inr (Expr_next a s)" for s
    using assms(1,2)
    by (simp add: expr_step_def remote.rd_Some dwarf_expr_op_of_def dwarf_expr_op_low_def
        operands_def read_operands_def read_operand_def resolve_operand_type_def
        dwarf_readu16_def exec_defs expr_branch_def)
  have less: "a < a + 3"
    using word_add_of_nat_less [of a 3] assms(3) by (simp add: word_less_nat_alt)
  have never: False if "expr_loop c' e b s = Some r" "c' = c" "e = a + 3" "b = a" for c' e b s r
    using that
  proof (induction rule: expr_loop.raw_induct [rotated, consumes 1])
    case (1 loop c'' e' b' s' r')
    then show ?case using step less by auto
  qed
  have "expr_loop c (a + 3) a s = None" for s
    using never [OF _ refl refl refl, of s] by (cases "expr_loop c (a + 3) a s") auto
  then show ?thesis
    using wf_initial [of "replicate 64 0" sv]
    by (auto simp: dwarf_eval_expr_def dwarf_eval_expr_from_def)
qed

lemma eval_expr_may_diverge_witness:
  "dwarf_eval_expr (blank_cursor (ram (bytes_from 0x1000 [0x2f, 0xfd, 0xff]))) 0 0x1000 3 = None"
  by (rule eval_expr_may_diverge) (simp_all add: bytes_from_def)

section \<open>Sized reads\<close>

lemma take_bit_byte: "8 \<le> k \<Longrightarrow> take_bit k (ucast (b :: 8 word) :: unw_word) = ucast b"
  by (rule bit_word_eqI) (auto simp: bit_simps dest: byte_bit_bound)

text \<open>On a little-endian target \<open>DW_OP_deref_size\<close> with a size of 1 to 4 or 8 bytes reads
  the little-endian number of that many bytes; with 5 to 7 bytes it keeps the high bytes of
  the word instead of the low ones.\<close>

lemma deref_size_value:
  assumes "mirrors as m"
  shows "(n \<in> {1, 2, 3, 4, 8} \<longrightarrow>
      expr_read_sized as (word_of_nat n) p = Inr (take_bit (8 * n) (word_at m p)))
    \<and> (n \<in> {5, 6, 7} \<longrightarrow>
      expr_read_sized as (word_of_nat n) p = Inr (word_at m p AND NOT (mask (8 * n))))"
proof -
  have low: "ucast (m p) = take_bit 8 (word_at m p)"
    "ucast (ucast (m p) OR push_bit 8 (ucast (m (p + 1))) :: 16 word) = take_bit 16 (word_at m p)"
    "ucast (ucast (m p) OR push_bit 8 (ucast (m (p + 1)))
       OR push_bit 16 (ucast (m (p + 2))) OR push_bit 24 (ucast (m (p + 3))) :: 32 word)
     = take_bit 32 (word_at m p)"
    by (simp_all add: word_at_def take_bit_or take_bit_push_bit take_bit_byte unsigned_or_eq
        ucast_push_byte ucast_ucast_byte)
  have m24: "(w :: unw_word) AND 0xffffff = take_bit 24 w" for w
    by (simp add: take_bit_eq_mask mask_eq_exp_minus_1)
  have high: "push_bit k (- 1 :: unw_word) = NOT (mask k)" for k
    by (rule bit_word_eqI) (auto simp: bit_simps)
  have full: "local_readu64 m p = Inr (word_at m p, p + 8)" "take_bit 64 w = w" for w :: unw_word
    by (simp add: local_readu64_def word_at_def) (rule bit_word_eqI, simp add: bit_simps)
  note rd = reads_mirror [OF assms] local_readu8_def local_readu16_def local_readu32_def
    full low
  show ?thesis using assms
    by (auto simp: expr_read_sized_def rd m24 high Let_def)
qed

lemma deref_size_value_witness:
  "expr_read_sized (ram (\<lambda>_. 0x11)) 5 0 = Inr (word_at (\<lambda>_. 0x11) 0 AND NOT (mask 40))"
  using deref_size_value [OF mirrors_ram, of 5 "\<lambda>_. 0x11" 0] by simp

end
