(* ===== verification/Fde.thy ===== *)
theory Fde
  imports X86_64
begin

text \<open>
  The parser of common information entries and frame description entries,
  \<open>src/dwarf/Gfde.c\<close>: the header in the 32- and 64-bit formats, the augmentation string, the
  alignment factors, the augmentation body, and the extraction of procedure information from
  an FDE.
\<close>

section \<open>Common information entries\<close>

definition is_cie_id :: "unw_word \<Rightarrow> bool \<Rightarrow> bool" where
  "is_cie_id val is_debug_frame = (if is_debug_frame then val = - 1 else val = 0)"

definition default_fde_encoding :: "addr_space \<Rightarrow> 8 word" where
  "default_fde_encoding as =
     (if addr_size as = 4 then DW_EH_PE_udata4
      else if addr_size as = 8 then DW_EH_PE_udata8
      else DW_EH_PE_omit)"

text \<open>Length and CIE id; the result is the end of the CIE and the address behind the id.\<close>

definition parse_cie_header ::
  "addr_space \<Rightarrow> bool \<Rightarrow> unw_word \<Rightarrow> (unw_word \<times> unw_word) res" where
  "parse_cie_header as is_debug_frame addr =
     rbind (dwarf_readu32 as addr) (\<lambda>(u32val, addr).
     if u32val \<noteq> 0xffffffff then
       (let cie_end_addr = addr + ucast u32val in
        rbind (dwarf_readu32 as addr) (\<lambda>(cie_id, addr).
        if cie_id \<noteq> (if is_debug_frame then 0xffffffff else 0) then Inl (Err UNW_EINVAL)
        else Inr (cie_end_addr, addr)))
     else
       rbind (dwarf_readu64 as addr) (\<lambda>(u64val, addr).
        let cie_end_addr = addr + u64val in
        rbind (dwarf_readu64 as addr) (\<lambda>(cie_id, addr).
        if cie_id \<noteq> (if is_debug_frame then 0xffffffffffffffff else 0) then Inl (Err UNW_EINVAL)
        else Inr (cie_end_addr, addr))))"

text \<open>
  The augmentation string. The array \<open>augstr\<close> of five bytes is zeroed and filled with at most
  four characters, so it is the list of the characters kept. Nothing bounds the number of
  characters read.
\<close>

partial_function (option) read_augstr ::
  "addr_space \<Rightarrow> unw_word \<Rightarrow> 8 word list \<Rightarrow> (8 word list \<times> unw_word) res option"
where
  "read_augstr as addr augstr =
     (case dwarf_readu8 as addr of
        Inl e \<Rightarrow> Some (Inl e)
      | Inr (ch, addr') \<Rightarrow>
          if ch = 0 then Some (Inr (augstr, addr'))
          else read_augstr as addr' (if length augstr < 4 then augstr @ [ch] else augstr))"

text \<open>Address and segment size, alignment factors and return-address column.\<close>

definition parse_cie_factors ::
  "addr_space \<Rightarrow> 8 word \<Rightarrow> dwarf_cie_info \<Rightarrow> unw_word \<Rightarrow> (dwarf_cie_info \<times> unw_word) res" where
  "parse_cie_factors as version dci addr =
     rbind (if version > 3
            then rbind (dwarf_readu8 as addr) (\<lambda>(address_size, addr).
                 rbind (dwarf_readu8 as addr) (\<lambda>(segment_size, addr). Inr addr))
            else Inr addr) (\<lambda>addr.
     rbind (dwarf_read_uleb128 as addr) (\<lambda>(code_al, addr).
     rbind (dwarf_read_sleb128 as addr) (\<lambda>(data_al, addr).
     rbind (if version = 1
            then rbind (dwarf_readu8 as addr) (\<lambda>(ch, addr). Inr (ucast ch, addr))
            else dwarf_read_uleb128 as addr) (\<lambda>(rac, addr).
     Inr (dci\<lparr>code_align := code_al, data_align := data_al, cie_ret_addr_column := rac\<rparr>, addr)))))"

text \<open>The characters of the augmentation string, each with its part of the body.\<close>

abbreviation (input) char_z :: "8 word" where "char_z \<equiv> 0x7a"
abbreviation (input) char_L :: "8 word" where "char_L \<equiv> 0x4c"
abbreviation (input) char_R :: "8 word" where "char_R \<equiv> 0x52"
abbreviation (input) char_P :: "8 word" where "char_P \<equiv> 0x50"
abbreviation (input) char_S :: "8 word" where "char_S \<equiv> 0x53"

fun parse_augmentation ::
  "addr_space \<Rightarrow> unw_proc_info \<Rightarrow> 8 word list \<Rightarrow> dwarf_cie_info \<Rightarrow> 8 word \<Rightarrow> unw_word
    \<Rightarrow> (dwarf_cie_info \<times> 8 word \<times> unw_word) res"
where
  "parse_augmentation as pi [] dci fde_enc addr = Inr (dci, fde_enc, addr)"
| "parse_augmentation as pi (c # cs) dci fde_enc addr =
     (if c = char_L then
        rbind (dwarf_readu8 as addr) (\<lambda>(ch, addr).
        parse_augmentation as pi cs (dci\<lparr>lsda_encoding := ch\<rparr>) fde_enc addr)
      else if c = char_R then
        rbind (dwarf_readu8 as addr) (\<lambda>(fde_enc, addr).
        parse_augmentation as pi cs dci fde_enc addr)
      else if c = char_P then
        rbind (dwarf_readu8 as addr) (\<lambda>(handler_encoding, addr).
        rbind (dwarf_read_encoded_pointer as handler_encoding pi addr) (\<lambda>(handler, addr).
        parse_augmentation as pi cs (dci\<lparr>cie_handler := handler\<rparr>) fde_enc addr))
      else if c = char_S then
        parse_augmentation as pi cs (dci\<lparr>signal_frame := True, have_abi_marker := True\<rparr>) fde_enc addr
      else if sized_augmentation dci then Inr (dci, fde_enc, addr)
      else Inl (Err UNW_EINVAL))"

definition parse_cie ::
  "addr_space \<Rightarrow> unw_proc_info \<Rightarrow> dwarf_cie_info \<Rightarrow> bool \<Rightarrow> unw_word \<Rightarrow> dwarf_cie_info res" where
  "parse_cie as pi dci is_debug_frame addr =
     (let dci = dci\<lparr>lsda_encoding := DW_EH_PE_omit, cie_handler := 0\<rparr> in
      rbind (parse_cie_header as is_debug_frame addr) (\<lambda>(cie_end_addr, addr).
      let dci = dci\<lparr>cie_instr_end := cie_end_addr\<rparr> in
      rbind (dwarf_readu8 as addr) (\<lambda>(version, addr).
      if version \<noteq> 1 \<and> (version < DWARF_CIE_VERSION \<or> version > DWARF_CIE_VERSION_MAX)
      then Inl (Err UNW_EBADVERSION) else
      rbind (returns (read_augstr as addr [])) (\<lambda>(augstr, addr).
      rbind (parse_cie_factors as version dci addr) (\<lambda>(dci, addr).
      rbind (if augstr \<noteq> [] \<and> hd augstr = char_z
             then rbind (dwarf_read_uleb128 as addr) (\<lambda>(aug_size, addr).
                  Inr (dci\<lparr>sized_augmentation := True\<rparr>, tl augstr, addr))
             else Inr (dci, augstr, addr)) (\<lambda>(dci, aug, addr).
      rbind (parse_augmentation as pi aug dci (default_fde_encoding as) addr)
        (\<lambda>(dci, fde_enc, addr).
      Inr (dci\<lparr>fde_encoding := fde_enc, cie_instr_start := addr\<rparr>))))))))"

section \<open>Frame description entries\<close>

text \<open>
  The header of an FDE: the end of the entry, and the address of its CIE with the address
  behind the header, or nothing when the entry is itself a CIE.
\<close>

definition parse_fde_header ::
  "addr_space \<Rightarrow> unw_word \<Rightarrow> bool \<Rightarrow> unw_word \<Rightarrow> (unw_word \<times> (unw_word \<times> unw_word) option) res" where
  "parse_fde_header as base is_debug_frame addr =
     rbind (dwarf_readu32 as addr) (\<lambda>(u32val, addr).
     if u32val \<noteq> 0xffffffff then
       (if u32val = 0 then Inl (Err UNW_ENOINFO) else
        let fde_end_addr = addr + ucast u32val; cie_offset_addr = addr in
        rbind (dwarf_reads32 as addr) (\<lambda>(cie_offset, addr).
        if is_cie_id (scast cie_offset) is_debug_frame then Inr (fde_end_addr, None)
        else Inr (fde_end_addr,
               Some (if is_debug_frame then base + scast cie_offset
                     else cie_offset_addr - scast cie_offset, addr))))
     else
       rbind (dwarf_readu64 as addr) (\<lambda>(u64val, addr).
        let fde_end_addr = addr + u64val; cie_offset_addr = addr in
        rbind (dwarf_reads64 as addr) (\<lambda>(cie_offset, addr).
        if is_cie_id cie_offset is_debug_frame then Inr (fde_end_addr, None)
        else Inr (fde_end_addr,
               Some (if is_debug_frame then base + cie_offset
                     else cie_offset_addr - cie_offset, addr)))))"

text \<open>
  The part of \<open>dwarf_extract_proc_info_from_fde\<close> for \<open>need_unwind_info\<close>. The flag \<open>alloc\<close>
  tells whether \<open>mempool_alloc\<close> finds room for the summary.
\<close>

definition fill_unwind_info ::
  "addr_space \<Rightarrow> bool \<Rightarrow> unw_proc_info \<Rightarrow> dwarf_cie_info \<Rightarrow> unw_word \<Rightarrow> unw_word \<Rightarrow> unw_word
    \<Rightarrow> unw_proc_info res" where
  "fill_unwind_info as alloc pi dci addr aug_end_addr fde_end_addr =
     (if \<not> alloc then Inl (Err UNW_ENOMEM) else
      rbind (if have_abi_marker dci
             then rbind (dwarf_readu16 as addr) (\<lambda>(abi, addr).
                  rbind (dwarf_readu16 as addr) (\<lambda>(tag, addr).
                  Inr (dci\<lparr>cie_abi := abi, cie_tag := tag\<rparr>, addr)))
             else Inr (dci, addr)) (\<lambda>(dci, addr).
      Inr (pi\<lparr>pi_format := UNW_INFO_FORMAT_TABLE,
         pi_unwind_info := Some (dci\<lparr>
           fde_instr_start := (if sized_augmentation dci then aug_end_addr else addr),
           fde_instr_end := fde_end_addr\<rparr>)\<rparr>)))"

text \<open>
  The result is the updated procedure information and the address of the next entry; the
  information is unchanged when the entry is a CIE.
\<close>

definition dwarf_extract_proc_info_from_fde ::
  "addr_space \<Rightarrow> bool \<Rightarrow> unw_word \<Rightarrow> unw_proc_info \<Rightarrow> unw_word \<Rightarrow> bool \<Rightarrow> bool
    \<Rightarrow> (unw_proc_info \<times> unw_word) res" where
  "dwarf_extract_proc_info_from_fde as alloc addr pi base need_unwind_info is_debug_frame =
     rbind (parse_fde_header as base is_debug_frame addr) (\<lambda>(fde_end_addr, cie).
     case cie of
       None \<Rightarrow> Inr (pi, fde_end_addr)
     | Some (cie_addr, addr) \<Rightarrow>
         rbind (parse_cie as pi zero_cie is_debug_frame cie_addr) (\<lambda>dci.
         let ip_range_encoding = fde_encoding dci AND DW_EH_PE_FORMAT_MASK in
         rbind (dwarf_read_encoded_pointer as (fde_encoding dci) pi addr) (\<lambda>(start, addr).
         rbind (dwarf_read_encoded_pointer as ip_range_encoding pi addr) (\<lambda>(ip_range, addr).
         let pi = pi\<lparr>pi_start_ip := start, pi_end_ip := start + ip_range,
                     pi_handler := cie_handler dci\<rparr> in
         rbind (if sized_augmentation dci
                then rbind (dwarf_read_uleb128 as addr) (\<lambda>(aug_size, addr).
                     Inr (addr + aug_size, addr))
                else Inr (0, addr)) (\<lambda>(aug_end_addr, addr).
         rbind (dwarf_read_encoded_pointer as (lsda_encoding dci) pi addr) (\<lambda>(lsda, addr).
         let pi = pi\<lparr>pi_lsda := lsda\<rparr> in
         rbind (if need_unwind_info
                then fill_unwind_info as alloc pi dci addr aug_end_addr fde_end_addr
                else Inr pi) (\<lambda>pi.
         Inr (pi, fde_end_addr))))))))"

end
