(* ===== verification/FdeProps.thy ===== *)
theory FdeProps
  imports Fde ReadProps
begin

text \<open>
  The properties of the CIE and FDE parser of \<open>src/dwarf/Gfde.c\<close>: parsing inverts an encoder
  of entries with the augmentations that compilers emit, and what the parser does with
  augmentations it does not know or does not keep.
\<close>

section \<open>Encoded entries\<close>

text \<open>
  The recognised augmentation characters with their data: the encodings of LSDA and FDE
  pointers, a personality routine at a self-relative four-byte offset, a signal frame.
\<close>

datatype augment = Aug_L "8 word" | Aug_R "8 word" | Aug_P int | Aug_S

fun aug_char :: "augment \<Rightarrow> 8 word" where
  "aug_char (Aug_L e) = char_L" | "aug_char (Aug_R e) = char_R"
| "aug_char (Aug_P d) = char_P" | "aug_char Aug_S = char_S"

fun aug_body :: "augment \<Rightarrow> 8 word list" where
  "aug_body (Aug_L e) = [e]" | "aug_body (Aug_R e) = [e]"
| "aug_body (Aug_P d) = 0x1b # le32 d" | "aug_body Aug_S = []"

fun aug_bodies :: "augment list \<Rightarrow> 8 word list" where
  "aug_bodies [] = []"
| "aug_bodies (x # xs) = aug_body x @ aug_bodies xs"

fun aug_ok :: "augment \<Rightarrow> bool" where
  "aug_ok (Aug_P d) \<longleftrightarrow> - (2 ^ 31) \<le> d \<and> d < 2 ^ 31 \<and> d \<noteq> 0"
| "aug_ok _ \<longleftrightarrow> True"

text \<open>What the augmentations mean for the CIE, with their bodies at an address.\<close>

fun aug_apply :: "augment list \<Rightarrow> unw_word \<Rightarrow> dwarf_cie_info \<times> 8 word \<Rightarrow> dwarf_cie_info \<times> 8 word" where
  "aug_apply [] a r = r"
| "aug_apply (x # xs) a (dci, enc) = aug_apply xs (a + word_of_nat (length (aug_body x)))
     (case x of
        Aug_L e \<Rightarrow> (dci\<lparr>lsda_encoding := e\<rparr>, enc)
      | Aug_R e \<Rightarrow> (dci, e)
      | Aug_P d \<Rightarrow> (dci\<lparr>cie_handler := a + 1 + word_of_int d\<rparr>, enc)
      | Aug_S \<Rightarrow> (dci\<lparr>signal_frame := True, have_abi_marker := True\<rparr>, enc))"

lemma length_le32 [simp]: "length (le32 d) = 4"
  by (simp add: le32_def)

lemma encoded_pointer_0x1b:
  assumes "bytes_at (as_byte as) a (le32 d)" and "\<not> big_endian as" and "addr_size as = 8"
    and "- (2 ^ 31) \<le> d" and "d < 2 ^ 31" and "d \<noteq> 0"
  shows "dwarf_read_encoded_pointer as 0x1b pi a = Inr (a + word_of_int d, a + 4)"
  using pcrel_sdata4 [OF assms] by simp

lemma parse_augmentation_encoded:
  assumes "bytes_at (as_byte as) a (aug_bodies xs)" and "\<not> big_endian as" and "addr_size as = 8"
    and "list_all aug_ok xs"
  shows "parse_augmentation as pi (map aug_char xs) dci enc a =
    (let (dci', enc') = aug_apply xs a (dci, enc)
     in Inr (dci', enc', a + word_of_nat (length (aug_bodies xs))))"
  using assms(1,4)
proof (induction xs arbitrary: a dci enc)
  case (Cons x xs)
  have rest: "bytes_at (as_byte as) (a + word_of_nat (length (aug_body x))) (aug_bodies xs)"
    using Cons.prems(1) by (simp add: bytes_at_append)
  note IH = Cons.IH [OF rest]
  show ?case
  proof (cases x)
    case (Aug_P d)
    have "dwarf_read_encoded_pointer as 0x1b pi (a + 1) = Inr (a + 1 + word_of_int d, a + 1 + 4)"
      using Cons.prems Aug_P assms(2,3) by (intro encoded_pointer_0x1b) (auto simp: bytes_at_append)
    with Aug_P Cons.prems IH show ?thesis
      by (simp add: remote.rd_Some add.assoc Let_def split_def)
  qed (use Cons.prems IH in \<open>simp_all add: remote.rd_Some add.assoc Let_def split_def\<close>)
qed simp

lemma read_augstr_string:
  assumes "bytes_at (as_byte as) a (cs @ [0])" and "0 \<notin> set cs" and "length acc \<le> 4"
  shows "read_augstr as a acc = Some (Inr (take 4 (acc @ cs), a + word_of_nat (length cs + 1)))"
  using assms
proof (induction cs arbitrary: a acc)
  case Nil
  then show ?case by (simp add: read_augstr.simps [of as a acc] remote.rd_Some)
next
  case (Cons c cs)
  have "read_augstr as a acc
      = read_augstr as (a + 1) (if length acc < 4 then acc @ [c] else acc)"
    using Cons.prems by (simp add: read_augstr.simps [of as a acc] remote.rd_Some)
  also have "\<dots> = Some (Inr (take 4 ((if length acc < 4 then acc @ [c] else acc) @ cs),
      a + 1 + word_of_nat (length cs + 1)))"
    using Cons.prems by (intro Cons.IH) auto
  finally show ?case using Cons.prems(3) by (simp add: add.assoc take_Cons')
qed

text \<open>A CIE in the 32-bit format of \<open>.eh_frame\<close>, version 1, up to its instructions.\<close>

record cie_data =
  cd_len :: nat
  cd_code :: nat
  cd_data :: int
  cd_column :: "8 word"
  cd_size :: nat

definition cie_ok :: "cie_data \<Rightarrow> bool" where
  "cie_ok d \<longleftrightarrow> cd_len d < 2 ^ 32 - 1 \<and> cd_code d < 2 ^ 64 \<and> - (2 ^ 63) \<le> cd_data d
     \<and> cd_data d < 2 ^ 63 \<and> cd_size d < 2 ^ 64"

definition encode_factors :: "cie_data \<Rightarrow> 8 word list" where
  "encode_factors d = uleb_encode (cd_code d) @ sleb_encode (cd_data d) @ [cd_column d]"

definition encode_cie :: "cie_data \<Rightarrow> 8 word list \<Rightarrow> 8 word list" where
  "encode_cie d augstr = le32 (int (cd_len d)) @ le32 0 @ [1] @ (char_z # augstr @ [0])
     @ encode_factors d @ uleb_encode (cd_size d)"

definition cie_start :: "cie_data \<Rightarrow> unw_word \<Rightarrow> dwarf_cie_info" where
  "cie_start d a = zero_cie\<lparr>lsda_encoding := DW_EH_PE_omit, sized_augmentation := True,
     cie_instr_end := a + 4 + word_of_nat (cd_len d), code_align := word_of_nat (cd_code d),
     data_align := word_of_int (cd_data d), cie_ret_addr_column := ucast (cd_column d)\<rparr>"

lemma header_encoded:
  assumes "bytes_at (as_byte as) a (le32 (int n) @ le32 0)" and "\<not> big_endian as"
    and "n < 2 ^ 32 - 1"
  shows "parse_cie_header as False a = Inr (a + 4 + word_of_nat n, a + 8)"
proof -
  have r1: "dwarf_readu32 as a = Inr (word_of_int (int n), a + 4)"
    using assms by (intro readu32_le32) (auto simp: bytes_at_append)
  have r2: "dwarf_readu32 as (a + 4) = Inr (word_of_int 0, a + 4 + 4)"
    using assms by (intro readu32_le32) (auto simp: bytes_at_append)
  have u: "unat (word_of_nat n :: 32 word) = n" using assms(3) by (simp add: unat_of_nat)
  have "(word_of_nat n :: 32 word) \<noteq> 0xffffffff"
  proof
    assume "(word_of_nat n :: 32 word) = 0xffffffff"
    then have "n = unat (0xffffffff :: 32 word)" using u by simp
    with assms(3) show False by simp
  qed
  moreover have "ucast (word_of_nat n :: 32 word) = (word_of_nat n :: unw_word)"
  proof -
    have "take_bit 32 n = n" using assms(3) by (simp add: take_bit_nat_eq_self)
    then show ?thesis by (simp only: unsigned_of_nat take_bit_of_nat) simp
  qed
  ultimately show ?thesis using r1 r2 by (simp add: parse_cie_header_def Let_def add.assoc)
qed

lemma factors_encoded:
  assumes "bytes_at (as_byte as) a (encode_factors d)" and "cie_ok d"
  shows "parse_cie_factors as 1 dci a = Inr (dci\<lparr>code_align := word_of_nat (cd_code d),
    data_align := word_of_int (cd_data d), cie_ret_addr_column := ucast (cd_column d)\<rparr>,
    a + word_of_nat (length (encode_factors d)))"
proof -
  let ?b = "a + word_of_nat (length (uleb_encode (cd_code d)))"
  let ?c = "?b + word_of_nat (length (sleb_encode (cd_data d)))"
  have b: "bytes_at (as_byte as) a (uleb_encode (cd_code d))"
    "bytes_at (as_byte as) ?b (sleb_encode (cd_data d))" "as_byte as ?c = Some (cd_column d)"
    using assms(1) by (auto simp: encode_factors_def bytes_at_append)
  have "dwarf_read_uleb128 as a = Inr (word_of_nat (cd_code d), ?b)"
    using b(1) assms(2) by (simp add: reads_uleb cie_ok_def)
  moreover have "dwarf_read_sleb128 as ?b = Inr (word_of_int (cd_data d), ?c)"
    using b(2) assms(2) by (simp add: reads_sleb cie_ok_def)
  ultimately show ?thesis using b(3)
    by (simp add: parse_cie_factors_def remote.rd_Some encode_factors_def add.assoc)
qed

text \<open>Everything of a CIE up to the augmentation body.\<close>

lemma cie_prefix:
  assumes "bytes_at (as_byte as) a (encode_cie d cs)" and "\<not> big_endian as" and "cie_ok d"
    and "0 \<notin> set cs"
  shows "parse_cie as pi zero_cie False a =
    rbind (parse_augmentation as pi (take 3 cs) (cie_start d a) (default_fde_encoding as)
             (a + word_of_nat (length (encode_cie d cs)))) (\<lambda>(dci, fde_enc, addr).
    Inr (dci\<lparr>fde_encoding := fde_enc, cie_instr_start := addr\<rparr>))"
proof -
  define b where "b = a + 9 + word_of_nat (length (char_z # cs) + 1)"
  define b' where "b' = b + word_of_nat (length (encode_factors d))"
  have h: "parse_cie_header as False a = Inr (a + 4 + word_of_nat (cd_len d), a + 8)"
    using assms by (intro header_encoded) (auto simp: encode_cie_def bytes_at_append cie_ok_def)
  have v: "dwarf_readu8 as (a + 8) = Inr (1, a + 9)"
    using assms(1) by (simp add: encode_cie_def bytes_at_append remote.rd_Some add.assoc)
  have "read_augstr as (a + 9) [] = Some (Inr (take 4 ([] @ char_z # cs), b))"
    using assms(1,4) unfolding b_def by (intro read_augstr_string) (auto simp: encode_cie_def bytes_at_append add.assoc)
  then have s: "returns (read_augstr as (a + 9) []) = Inr (char_z # take 3 cs, b)" by simp
  have f: "parse_cie_factors as 1 dci b = Inr (dci\<lparr>code_align := word_of_nat (cd_code d),
      data_align := word_of_int (cd_data d), cie_ret_addr_column := ucast (cd_column d)\<rparr>, b')" for dci
    unfolding b'_def using assms(1,3) by (intro factors_encoded) (auto simp: b_def encode_cie_def bytes_at_append add.assoc)
  have z: "dwarf_read_uleb128 as b'
      = Inr (word_of_nat (cd_size d), b' + word_of_nat (length (uleb_encode (cd_size d))))"
    using assms(1,3) by (intro reads_uleb) (auto simp: b_def b'_def encode_cie_def bytes_at_append add.assoc cie_ok_def)
  have e: "b' + word_of_nat (length (uleb_encode (cd_size d))) = a + word_of_nat (length (encode_cie d cs))"
    by (simp add: b_def b'_def encode_cie_def add.assoc)
  show ?thesis
    unfolding parse_cie_def Let_def
    by (simp add: h v s f z e [symmetric] cie_start_def zero_cie_def)
qed

section \<open>Common information entries\<close>

lemma cie_parsed:
  assumes "bytes_at (as_byte as) a (encode_cie d (map aug_char xs) @ aug_bodies xs)"
    and "\<not> big_endian as" and "addr_size as = 8" and "cie_ok d"
    and "list_all aug_ok xs" and "length xs \<le> 3"
  shows "parse_cie as pi zero_cie False a =
    (let b = a + word_of_nat (length (encode_cie d (map aug_char xs)));
         (dci, enc) = aug_apply xs b (cie_start d a, DW_EH_PE_udata8)
     in Inr (dci\<lparr>fde_encoding := enc, cie_instr_start := b + word_of_nat (length (aug_bodies xs))\<rparr>))"
proof -
  let ?b = "a + word_of_nat (length (encode_cie d (map aug_char xs)))"
  have "aug_char x \<noteq> 0" for x by (cases x) simp_all
  then have "0 \<notin> set (map aug_char xs)" by (metis ex_map_conv)
  with assms have "parse_cie as pi zero_cie False a =
    rbind (parse_augmentation as pi (take 3 (map aug_char xs)) (cie_start d a)
             (default_fde_encoding as) ?b) (\<lambda>(dci, fde_enc, addr).
    Inr (dci\<lparr>fde_encoding := fde_enc, cie_instr_start := addr\<rparr>))"
    by (intro cie_prefix) (auto simp: bytes_at_append)
  also have "take 3 (map aug_char xs) = map aug_char xs" using assms(6) by simp
  finally show ?thesis
    using assms parse_augmentation_encoded [of as ?b xs pi]
    by (simp add: bytes_at_append default_fde_encoding_def Let_def split_def)
qed

text \<open>C33. Parsing an encoded \<open>.eh_frame\<close> CIE of version 1, with a length of 32 bits and a sized
  augmentation of at most three of the characters \<open>L\<close>, \<open>R\<close>, \<open>P\<close> and \<open>S\<close> yields its alignment factors, its return-address column,
  the effect of each augmentation, and the bounds of its instructions.\<close>

theorem parse_cie_encoded:
  assumes "bytes_at (as_byte as) a (encode_cie d (map aug_char xs) @ aug_bodies xs)"
    and "\<not> big_endian as" and "addr_size as = 8" and "cie_ok d"
    and "list_all aug_ok xs" and "length xs \<le> 3"
  shows "parse_cie as pi zero_cie False a =
    (let b = a + word_of_nat (length (encode_cie d (map aug_char xs)));
         (dci, enc) = aug_apply xs b (cie_start d a, DW_EH_PE_udata8)
     in Inr (dci\<lparr>fde_encoding := enc, cie_instr_start := b + word_of_nat (length (aug_bodies xs))\<rparr>))"
  by (rule cie_parsed [OF assms])

text \<open>The CIE of C++ code, augmentation \<open>zPLR\<close>.\<close>

definition sample_cie_data :: cie_data where
  "sample_cie_data = \<lparr>cd_len = 0x1c, cd_code = 1, cd_data = - 8, cd_column = 16, cd_size = 7\<rparr>"

definition sample_augments :: "augment list" where
  "sample_augments = [Aug_P 0x200, Aug_L 0x1b, Aug_R 0x1b]"

lemma sample_cie_bytes:
  "encode_cie sample_cie_data (map aug_char sample_augments) @ aug_bodies sample_augments
    = [0x1c, 0, 0, 0, 0, 0, 0, 0, 1, 0x7a, 0x50, 0x4c, 0x52, 0, 1, 0x78, 16, 7,
       0x1b, 0, 2, 0, 0, 0x1b, 0x1b]"
  by (simp add: encode_cie_def encode_factors_def sample_cie_data_def sample_augments_def
      uleb_encode.simps sleb_encode.simps le32_def)

theorem parse_cie_encoded_witness:
  "parse_cie (ram (bytes_from 0x1000 (encode_cie sample_cie_data (map aug_char sample_augments)
       @ aug_bodies sample_augments))) zero_pi zero_cie False 0x1000
   = Inr (zero_cie\<lparr>cie_instr_start := 0x1019, cie_instr_end := 0x1020, code_align := 1,
       data_align := - 8, cie_ret_addr_column := 16, cie_handler := 0x1213, fde_encoding := 0x1b,
       lsda_encoding := 0x1b, sized_augmentation := True\<rparr>)"
proof -
  let ?bs = "encode_cie sample_cie_data (map aug_char sample_augments) @ aug_bodies sample_augments"
  have "parse_cie (ram (bytes_from 0x1000 ?bs)) zero_pi zero_cie False 0x1000 =
    (let b = 0x1000 + word_of_nat (length (encode_cie sample_cie_data (map aug_char sample_augments)));
         (dci, enc) = aug_apply sample_augments b (cie_start sample_cie_data 0x1000, DW_EH_PE_udata8)
     in Inr (dci\<lparr>fde_encoding := enc,
          cie_instr_start := b + word_of_nat (length (aug_bodies sample_augments))\<rparr>))"
    by (rule parse_cie_encoded, rule bytes_at_bytes_from)
      (simp_all only: sample_cie_bytes, simp_all add: sample_cie_data_def cie_ok_def sample_augments_def)
  then show ?thesis
    by (simp add: sample_augments_def sample_cie_data_def cie_start_def encode_cie_def
        encode_factors_def uleb_encode.simps sleb_encode.simps Let_def zero_cie_def)
qed

text \<open>An augmentation the parser does not recognise is not skipped: although the size of
  the augmentation body is read, the instructions are taken to start at the body.\<close>

lemma unknown_augmentation_not_skipped:
  assumes "bytes_at (as_byte as) a (encode_cie d [x])" and "\<not> big_endian as" and "cie_ok d"
    and "x \<notin> {0, char_L, char_R, char_P, char_S}"
  shows "\<exists>dci. parse_cie as pi zero_cie False a = Inr dci
    \<and> cie_instr_start dci = a + word_of_nat (length (encode_cie d [x]))"
  using assms by (subst cie_prefix) (auto simp: cie_start_def)

lemma unknown_augmentation_not_skipped_witness:
  "\<exists>dci. parse_cie (ram (bytes_from 0x1000 (encode_cie sample_cie_data [0x42]))) zero_pi zero_cie
        False 0x1000 = Inr dci
    \<and> cie_instr_start dci = 0x1000 + word_of_nat (length (encode_cie sample_cie_data [0x42]))"
  by (rule unknown_augmentation_not_skipped, rule bytes_at_bytes_from)
    (simp_all add: sample_cie_data_def cie_ok_def encode_cie_def encode_factors_def
      uleb_encode.simps sleb_encode.simps)

text \<open>Only four augmentation characters are kept, but five are recognised: in a CIE with
  augmentation \<open>zPLRS\<close> the signal-frame mark is lost.\<close>

lemma fifth_augmentation_lost:
  assumes "bytes_at (as_byte as) a (encode_cie d (map aug_char [Aug_P p, Aug_L l, Aug_R r, Aug_S])
      @ aug_bodies [Aug_P p, Aug_L l, Aug_R r])"
    and "\<not> big_endian as" and "addr_size as = 8" and "cie_ok d" and "aug_ok (Aug_P p)"
  shows "\<exists>dci. parse_cie as pi zero_cie False a = Inr dci \<and> \<not> signal_frame dci"
proof -
  let ?cs = "map aug_char [Aug_P p, Aug_L l, Aug_R r, Aug_S]"
  let ?xs = "[Aug_P p, Aug_L l, Aug_R r]"
  let ?b = "a + word_of_nat (length (encode_cie d ?cs))"
  have b: "bytes_at (as_byte as) a (encode_cie d ?cs)" "bytes_at (as_byte as) ?b (aug_bodies ?xs)"
    using assms(1) by (simp_all only: bytes_at_append)
  have "take 3 ?cs = map aug_char ?xs" by simp
  then have "parse_cie as pi zero_cie False a =
    rbind (parse_augmentation as pi (map aug_char ?xs) (cie_start d a) (default_fde_encoding as) ?b)
      (\<lambda>(dci, fde_enc, addr). Inr (dci\<lparr>fde_encoding := fde_enc, cie_instr_start := addr\<rparr>))"
    using cie_prefix [OF b(1) assms(2,4), of pi] by simp
  with parse_augmentation_encoded [OF b(2) assms(2,3), of pi "cie_start d a"] assms(5)
  show ?thesis by (simp add: Let_def split_def cie_start_def zero_cie_def)
qed

lemma fifth_augmentation_lost_witness:
  "\<exists>dci. parse_cie (ram (bytes_from 0x1000 (encode_cie sample_cie_data
       (map aug_char [Aug_P 8, Aug_L 0x1b, Aug_R 0x1b, Aug_S])
       @ aug_bodies [Aug_P 8, Aug_L 0x1b, Aug_R 0x1b]))) zero_pi zero_cie False 0x1000 = Inr dci
    \<and> \<not> signal_frame dci"
  by (rule fifth_augmentation_lost [where d = sample_cie_data and p = 8 and l = "0x1b" and r = "0x1b"],
      rule bytes_at_bytes_from)
    (simp_all add: sample_cie_data_def cie_ok_def encode_cie_def encode_factors_def
      uleb_encode.simps sleb_encode.simps)

section \<open>Frame description entries\<close>

lemma len32:
  assumes "0 < n" and "n < 2 ^ 32 - 1"
  shows "(word_of_nat n :: 32 word) \<noteq> 0xffffffff" "(word_of_nat n :: 32 word) \<noteq> 0"
    "ucast (word_of_nat n :: 32 word) = (word_of_nat n :: unw_word)"
proof -
  have u: "unat (word_of_nat n :: 32 word) = n" using assms by (simp add: unat_of_nat)
  show "(word_of_nat n :: 32 word) \<noteq> 0xffffffff"
  proof
    assume "(word_of_nat n :: 32 word) = 0xffffffff"
    then have "n = unat (0xffffffff :: 32 word)" using u by simp
    with assms show False by simp
  qed
  show "(word_of_nat n :: 32 word) \<noteq> 0" using u assms(1) by (metis unat_0 less_irrefl)
  have "take_bit 32 n = n" using assms by (simp add: take_bit_nat_eq_self)
  then show "ucast (word_of_nat n :: 32 word) = (word_of_nat n :: unw_word)"
    by (simp only: unsigned_of_nat take_bit_of_nat) simp
qed

lemma scast_32:
  "- (2 ^ 31) \<le> d \<Longrightarrow> d < 2 ^ 31 \<Longrightarrow> scast (word_of_int d :: 32 word) = (word_of_int d :: unw_word)"
  by (simp add: signed_of_int signed_take_bit_int_eq_self)

lemma abs_sdata4:
  assumes "bytes_at (as_byte as) a (le32 d)" and "\<not> big_endian as" and "addr_size as = 8"
    and "- (2 ^ 31) \<le> d" and "d < 2 ^ 31"
  shows "dwarf_read_encoded_pointer as 0x0b pi a = Inr (word_of_int d, a + 4)"
  using readu32_le32 [OF assms(1,2)] assms(3) scast_32 [OF assms(4,5)]
  by (simp add: dwarf_read_encoded_pointer_def read_pe_format_def apply_pe_base_def
      trim_to_addr_size_def dwarf_reads32_def Let_def)

text \<open>An FDE of \<open>.eh_frame\<close> in the 32-bit format with self-relative four-byte pointers.\<close>

definition encode_fde :: "nat \<Rightarrow> int \<Rightarrow> int \<Rightarrow> int \<Rightarrow> nat \<Rightarrow> 8 word list" where
  "encode_fde len off d rng asz =
     le32 (int len) @ le32 off @ le32 d @ le32 rng @ uleb_encode asz"

lemma fde_extracted:
  assumes "bytes_at (as_byte as) a (encode_fde len off d rng asz)"
    and "\<not> big_endian as" and "addr_size as = 8"
    and "0 < len" and "len < 2 ^ 32 - 1" and "asz < 2 ^ 64"
    and "off \<noteq> 0" and "- (2 ^ 31) \<le> off" and "off < 2 ^ 31"
    and "d \<noteq> 0" and "- (2 ^ 31) \<le> d" and "d < 2 ^ 31" and "0 \<le> rng" and "rng < 2 ^ 31"
    and "parse_cie as pi zero_cie False (a + 4 - word_of_int off) = Inr dci"
    and "fde_encoding dci = 0x1b" and "lsda_encoding dci = DW_EH_PE_omit"
    and "sized_augmentation dci" and "\<not> have_abi_marker dci"
  shows "dwarf_extract_proc_info_from_fde as True a pi base True False =
    Inr (pi\<lparr>pi_start_ip := a + 8 + word_of_int d,
            pi_end_ip := a + 8 + word_of_int d + word_of_int rng,
            pi_handler := cie_handler dci, pi_lsda := 0, pi_format := UNW_INFO_FORMAT_TABLE,
            pi_unwind_info := Some (dci\<lparr>
              fde_instr_start := a + 16 + word_of_nat (length (uleb_encode asz)) + word_of_nat asz,
              fde_instr_end := a + 4 + word_of_nat len\<rparr>)\<rparr>,
         a + 4 + word_of_nat len)"
proof -
  have b: "bytes_at (as_byte as) a (le32 (int len))" "bytes_at (as_byte as) (a + 4) (le32 off)"
    "bytes_at (as_byte as) (a + 8) (le32 d)" "bytes_at (as_byte as) (a + 12) (le32 rng)"
    "bytes_at (as_byte as) (a + 16) (uleb_encode asz)"
    using assms(1) by (simp_all add: encode_fde_def bytes_at_append add.assoc)
  have r1: "dwarf_readu32 as a = Inr (word_of_nat len, a + 4)"
    using readu32_le32 [OF b(1) assms(2)] by simp
  have r2: "dwarf_reads32 as (a + 4) = Inr (word_of_int off, a + 8)"
    using readu32_le32 [OF b(2) assms(2)] by (simp add: dwarf_reads32_def add.assoc)
  have r3: "dwarf_read_encoded_pointer as 0x1b pi (a + 8) = Inr (a + 8 + word_of_int d, a + 12)"
    using encoded_pointer_0x1b [OF b(3) assms(2,3,11,12,10)] by (simp add: add.assoc)
  have r4: "dwarf_read_encoded_pointer as 0x0b pi (a + 12) = Inr (word_of_int rng, a + 16)"
    using abs_sdata4 [OF b(4) assms(2,3)] assms(13,14) by (simp add: add.assoc)
  have r5: "dwarf_read_uleb128 as (a + 16)
      = Inr (word_of_nat asz, a + 16 + word_of_nat (length (uleb_encode asz)))"
    using reads_uleb [OF b(5) assms(6)] .
  have off: "scast (word_of_int off :: 32 word) = (word_of_int off :: unw_word)"
    "(word_of_int off :: unw_word) \<noteq> 0"
    using scast_32 [OF assms(8,9)] word_of_int_nonzero [of off] assms(7-9) by auto
  have omit: "dwarf_read_encoded_pointer as DW_EH_PE_omit p x = Inr (0, x)" for p x
    by (simp add: dwarf_read_encoded_pointer_def)
  have h: "parse_fde_header as base False a = Inr (a + 4 + word_of_nat len,
      Some (a + 4 - word_of_int off, a + 8))"
    using len32 [OF assms(4,5)] off
    by (simp add: parse_fde_header_def r1 r2 is_cie_id_def Let_def)
  have m: "(0x1b AND 0x0f :: 8 word) = 0x0b" by simp
  show ?thesis
    unfolding dwarf_extract_proc_info_from_fde_def h
    by (simp only: rbind_simps prod.case option.case assms(15) Let_def assms(16,17,18) m r3 r4 r5
        if_True omit fill_unwind_info_def assms(19) if_False simp_thms)
qed

text \<open>C34. From an encoded FDE whose CIE parses to one with self-relative four-byte pointers and a
  sized augmentation without LSDA, the parser extracts the procedure the FDE describes: its
  start is the offset relative to the stored field, its end the start plus the stored
  range, and the instructions are those between the augmentation and the end of the entry,
  where the next entry begins.\<close>

theorem extract_fde_encoded:
  assumes "bytes_at (as_byte as) a (encode_fde len off d rng asz)"
    and "\<not> big_endian as" and "addr_size as = 8"
    and "0 < len" and "len < 2 ^ 32 - 1" and "asz < 2 ^ 64"
    and "off \<noteq> 0" and "- (2 ^ 31) \<le> off" and "off < 2 ^ 31"
    and "d \<noteq> 0" and "- (2 ^ 31) \<le> d" and "d < 2 ^ 31" and "0 \<le> rng" and "rng < 2 ^ 31"
    and "parse_cie as pi zero_cie False (a + 4 - word_of_int off) = Inr dci"
    and "fde_encoding dci = 0x1b" and "lsda_encoding dci = DW_EH_PE_omit"
    and "sized_augmentation dci" and "\<not> have_abi_marker dci"
  shows "dwarf_extract_proc_info_from_fde as True a pi base True False =
    Inr (pi\<lparr>pi_start_ip := a + 8 + word_of_int d,
            pi_end_ip := a + 8 + word_of_int d + word_of_int rng,
            pi_handler := cie_handler dci, pi_lsda := 0, pi_format := UNW_INFO_FORMAT_TABLE,
            pi_unwind_info := Some (dci\<lparr>
              fde_instr_start := a + 16 + word_of_nat (length (uleb_encode asz)) + word_of_nat asz,
              fde_instr_end := a + 4 + word_of_nat len\<rparr>)\<rparr>,
         a + 4 + word_of_nat len)"
  by (rule fde_extracted [OF assms])

definition sample_eh_frame :: "8 word list" where
  "sample_eh_frame = encode_cie (sample_cie_data\<lparr>cd_len := 0x10, cd_size := 1\<rparr>) (map aug_char [Aug_R 0x1b])
     @ aug_bodies [Aug_R 0x1b] @ [0, 0, 0] @ encode_fde 0x11 0x18 0x100 0x40 0 @ [0, 0, 0, 0]"

text \<open>The CIE of the sample, in any memory that holds it.\<close>

definition sample_dci :: dwarf_cie_info where
  "sample_dci = (cie_start (sample_cie_data\<lparr>cd_len := 0x10, cd_size := 1\<rparr>) 0x1000)
     \<lparr>fde_encoding := 0x1b, cie_instr_start := 0x1011\<rparr>"

lemma sample_cie_length:
  "length (encode_cie (sample_cie_data\<lparr>cd_len := 0x10, cd_size := 1\<rparr>) (map aug_char [Aug_R 0x1b])) = 16"
  by (simp add: encode_cie_def encode_factors_def sample_cie_data_def uleb_encode.simps
      sleb_encode.simps)

lemma sample_length: "length sample_eh_frame = 0x29"
  using sample_cie_length by (simp add: sample_eh_frame_def encode_fde_def uleb_encode.simps)

lemma sample_parts:
  assumes "bytes_at (as_byte as) 0x1000 sample_eh_frame" and "\<not> big_endian as" and "addr_size as = 8"
  shows "bytes_at (as_byte as) 0x1014 (encode_fde 0x11 0x18 0x100 0x40 0)"
    and "parse_cie as pi zero_cie False 0x1000 = Inr sample_dci"
proof -
  let ?cd = "sample_cie_data\<lparr>cd_len := 0x10, cd_size := 1\<rparr>"
  have b: "bytes_at (as_byte as) 0x1000
      (encode_cie ?cd (map aug_char [Aug_R 0x1b]) @ aug_bodies [Aug_R 0x1b])"
    "bytes_at (as_byte as) 0x1014 (encode_fde 0x11 0x18 0x100 0x40 0)"
    using assms(1) sample_cie_length unfolding sample_eh_frame_def
    by (simp_all only: bytes_at_append) simp_all
  show "bytes_at (as_byte as) 0x1014 (encode_fde 0x11 0x18 0x100 0x40 0)" by (rule b(2))
  show "parse_cie as pi zero_cie False 0x1000 = Inr sample_dci"
    using cie_parsed [OF b(1) assms(2,3), of pi] sample_cie_length
    by (simp add: sample_cie_data_def cie_ok_def Let_def sample_dci_def)
qed

lemma sample_fields:
  "fde_encoding sample_dci = 0x1b" "lsda_encoding sample_dci = DW_EH_PE_omit"
  "sized_augmentation sample_dci" "\<not> have_abi_marker sample_dci" "\<not> signal_frame sample_dci"
  by (simp_all add: sample_dci_def cie_start_def zero_cie_def)

text \<open>The procedure that the sample describes.\<close>

lemma sample_extracted:
  assumes "bytes_at (as_byte as) 0x1000 sample_eh_frame" and "\<not> big_endian as" and "addr_size as = 8"
  shows "dwarf_extract_proc_info_from_fde as True 0x1014 pi base True False =
    Inr (pi\<lparr>pi_start_ip := 0x111c, pi_end_ip := 0x115c, pi_handler := cie_handler sample_dci,
            pi_lsda := 0, pi_format := UNW_INFO_FORMAT_TABLE,
            pi_unwind_info := Some (sample_dci\<lparr>fde_instr_start := 0x1025, fde_instr_end := 0x1029\<rparr>)\<rparr>,
         0x1029)"
  using fde_extracted [OF sample_parts(1) [OF assms] assms(2,3), of pi sample_dci base]
    sample_parts(2) [OF assms, of pi] sample_fields
  by (simp add: uleb_encode.simps)

theorem extract_fde_encoded_witness:
  "\<exists>pi'. dwarf_extract_proc_info_from_fde (ram (bytes_from 0x1000 sample_eh_frame)) True 0x1014
       zero_pi 0 True False = Inr (pi', 0x1029)
     \<and> pi_start_ip pi' = 0x111c \<and> pi_end_ip pi' = 0x115c"
proof -
  let ?as = "ram (bytes_from 0x1000 sample_eh_frame)"
  have s: "bytes_at (as_byte ?as) 0x1000 sample_eh_frame"
    by (intro bytes_at_bytes_from) (simp add: sample_length)
  show ?thesis
    using extract_fde_encoded [OF sample_parts(1) [OF s], of zero_pi sample_dci 0]
      sample_parts(2) [OF s, of zero_pi] sample_fields
    by (simp add: uleb_encode.simps)
qed

end
