(* ===== verification/Cfi.thy ===== *)
theory Cfi
  imports X86_64
begin

text \<open>
  The interpreter of call-frame instructions in \<open>src/dwarf/Gparser.c\<close>: \<open>read_regnum\<close>,
  \<open>set_reg\<close>, the stack of remembered register states, \<open>run_cfi_program\<close> with one definition
  per group of opcodes, and the two programs it runs, that of the CIE (\<open>setup_fde\<close>) and that
  of the FDE (\<open>parse_fde\<close>).
\<close>

section \<open>State\<close>

text \<open>
  What the interpreter changes: the state record, the current location \<open>*ip\<close>, the program
  address \<open>*addr\<close>, the stack \<open>*rs_stack\<close>, a linked list with the last remembered state
  first, and how many states it has allocated.
\<close>

record cfi_state =
  cs_sr :: dwarf_state_record
  cs_ip :: unw_word
  cs_addr :: unw_word
  cs_stack :: "dwarf_reg_state list"
  cs_allocs :: nat

text \<open>
  What it does not change: the address space it reads from, the procedure information, the
  CIE, and whether the n-th \<open>alloc_reg_state\<close> of the run finds memory.
\<close>

record cfi_env =
  ce_as :: addr_space
  ce_pi :: unw_proc_info
  ce_dci :: dwarf_cie_info
  ce_alloc :: "nat \<Rightarrow> bool"

definition read_regnum :: "addr_space \<Rightarrow> unw_word reader" where
  "read_regnum as addr =
     rbind (dwarf_read_uleb128 as addr) (\<lambda>(val, addr).
     if val \<ge> word_of_nat DWARF_NUM_PRESERVED_REGS then Inl (Err UNW_EBADREG) else Inr (val, addr))"

definition set_reg :: "dwarf_state_record \<Rightarrow> nat \<Rightarrow> dwarf_where \<Rightarrow> unw_word \<Rightarrow> dwarf_state_record res" where
  "set_reg sr regnum w val =
     (let cur = rs_current sr in
      rbind (arr_set (rs_where cur) regnum w) (\<lambda>wheres.
      rbind (arr_set (rs_val cur) regnum val) (\<lambda>vals.
      Inr (sr\<lparr>rs_current := cur\<lparr>rs_where := wheres, rs_val := vals\<rparr>\<rparr>))))"

text \<open>\<open>push_rstate_stack\<close> with the assignment of the state, and \<open>pop_rstate_stack\<close>.\<close>

definition push_rstate_stack ::
  "(nat \<Rightarrow> bool) \<Rightarrow> dwarf_reg_state list \<times> nat \<Rightarrow> dwarf_reg_state \<Rightarrow> (dwarf_reg_state list \<times> nat) res" where
  "push_rstate_stack alloc st rs =
     (if alloc (snd st) then Inr (rs # fst st, snd st + 1) else Inl (Err UNW_ENOMEM))"

definition pop_rstate_stack ::
  "dwarf_reg_state list \<times> nat \<Rightarrow> (dwarf_reg_state \<times> dwarf_reg_state list \<times> nat) res" where
  "pop_rstate_stack st =
     (case fst st of [] \<Rightarrow> Inl (Err UNW_EINVAL) | rs # rest \<Rightarrow> Inr (rs, rest, snd st))"

section \<open>Instructions\<close>

text \<open>The successor state at an address, with an updated state record.\<close>

definition cfi_set ::
  "cfi_state \<Rightarrow> unw_word \<Rightarrow> nat \<Rightarrow> dwarf_where \<Rightarrow> unw_word \<Rightarrow> cfi_state res" where
  "cfi_set s addr regnum w val =
     rbind (set_reg (cs_sr s) regnum w val) (\<lambda>sr. Inr (s\<lparr>cs_sr := sr, cs_addr := addr\<rparr>))"

text \<open>
  \<open>DW_CFA_GNU_args_size\<close> and the opcodes that are rejected; the switch has no default, so
  every other byte is skipped.
\<close>

definition cfi_misc :: "cfi_env \<Rightarrow> dwarf_cfa \<Rightarrow> cfi_state \<Rightarrow> cfi_state res" where
  "cfi_misc env opc s =
     (case opc of
        DW_CFA_GNU_args_size \<Rightarrow>
          rbind (dwarf_read_uleb128 (ce_as env) (cs_addr s)) (\<lambda>(val, addr).
          Inr (s\<lparr>cs_sr := (cs_sr s)\<lparr>args_size := val\<rparr>, cs_addr := addr\<rparr>))
      | DW_CFA_GNU_window_save \<Rightarrow> Inl (Err UNW_EINVAL)
      | DW_CFA_lo_user \<Rightarrow> Inl (Err UNW_EINVAL)
      | DW_CFA_hi_user \<Rightarrow> Inl (Err UNW_EINVAL)
      | _ \<Rightarrow> Inr s)"

text \<open>The rules given by expressions: the address of the block is kept, the block skipped.\<close>

definition cfi_expr :: "cfi_env \<Rightarrow> dwarf_cfa \<Rightarrow> cfi_state \<Rightarrow> cfi_state res" where
  "cfi_expr env opc s =
     (let skip_block = (\<lambda>s. rbind (dwarf_read_uleb128 (ce_as env) (cs_addr s)) (\<lambda>(len, addr).
            Inr (s\<lparr>cs_addr := addr + len\<rparr>))) in
      case opc of
        DW_CFA_def_cfa_expression \<Rightarrow>
          rbind (cfi_set s (cs_addr s) DWARF_CFA_REG_COLUMN DWARF_WHERE_EXPR (cs_addr s)) skip_block
      | DW_CFA_expression \<Rightarrow>
          rbind (read_regnum (ce_as env) (cs_addr s)) (\<lambda>(regnum, addr).
          rbind (cfi_set s addr (unat regnum) DWARF_WHERE_EXPR addr) skip_block)
      | DW_CFA_val_expression \<Rightarrow>
          rbind (read_regnum (ce_as env) (cs_addr s)) (\<lambda>(regnum, addr).
          rbind (cfi_set s addr (unat regnum) DWARF_WHERE_VAL_EXPR addr) skip_block)
      | _ \<Rightarrow> cfi_misc env opc s)"

text \<open>The rules for the CFA: a register and an offset, in the two extra columns.\<close>

definition cfi_set_cfa_off :: "cfi_state \<Rightarrow> unw_word \<Rightarrow> unw_word \<Rightarrow> cfi_state res" where
  "cfi_set_cfa_off s addr val = cfi_set s addr DWARF_CFA_OFF_COLUMN DWARF_WHERE_UNDEF val"

definition cfi_def_cfa :: "cfi_env \<Rightarrow> dwarf_cfa \<Rightarrow> cfi_state \<Rightarrow> cfi_state res" where
  "cfi_def_cfa env opc s =
     (let as = ce_as env; factor = data_align (ce_dci env) in
      case opc of
        DW_CFA_def_cfa \<Rightarrow>
          rbind (read_regnum as (cs_addr s)) (\<lambda>(regnum, addr).
          rbind (dwarf_read_uleb128 as addr) (\<lambda>(val, addr).
          rbind (cfi_set s addr DWARF_CFA_REG_COLUMN DWARF_WHERE_REG regnum) (\<lambda>s.
          cfi_set_cfa_off s addr val)))
      | DW_CFA_def_cfa_sf \<Rightarrow>
          rbind (read_regnum as (cs_addr s)) (\<lambda>(regnum, addr).
          rbind (dwarf_read_sleb128 as addr) (\<lambda>(val, addr).
          rbind (cfi_set s addr DWARF_CFA_REG_COLUMN DWARF_WHERE_REG regnum) (\<lambda>s.
          cfi_set_cfa_off s addr (val * factor))))
      | DW_CFA_def_cfa_register \<Rightarrow>
          rbind (read_regnum as (cs_addr s)) (\<lambda>(regnum, addr).
          cfi_set s addr DWARF_CFA_REG_COLUMN DWARF_WHERE_REG regnum)
      | DW_CFA_def_cfa_offset \<Rightarrow>
          rbind (dwarf_read_uleb128 as (cs_addr s)) (\<lambda>(val, addr). cfi_set_cfa_off s addr val)
      | DW_CFA_def_cfa_offset_sf \<Rightarrow>
          rbind (dwarf_read_sleb128 as (cs_addr s)) (\<lambda>(val, addr).
          cfi_set_cfa_off s addr (val * factor))
      | _ \<Rightarrow> cfi_expr env opc s)"

definition cfi_remember :: "cfi_env \<Rightarrow> dwarf_cfa \<Rightarrow> cfi_state \<Rightarrow> cfi_state res" where
  "cfi_remember env opc s =
     (case opc of
        DW_CFA_remember_state \<Rightarrow>
          rbind (push_rstate_stack (ce_alloc env) (cs_stack s, cs_allocs s) (rs_current (cs_sr s)))
            (\<lambda>(stack, n). Inr (s\<lparr>cs_stack := stack, cs_allocs := n\<rparr>))
      | DW_CFA_restore_state \<Rightarrow>
          rbind (pop_rstate_stack (cs_stack s, cs_allocs s)) (\<lambda>(rs, stack, n).
          Inr (s\<lparr>cs_sr := (cs_sr s)\<lparr>rs_current := rs\<rparr>, cs_stack := stack, cs_allocs := n\<rparr>))
      | _ \<Rightarrow> cfi_def_cfa env opc s)"

definition cfi_rule :: "cfi_env \<Rightarrow> dwarf_cfa \<Rightarrow> cfi_state \<Rightarrow> cfi_state res" where
  "cfi_rule env opc s =
     (let as = ce_as env in
      case opc of
        DW_CFA_undefined \<Rightarrow>
          rbind (read_regnum as (cs_addr s)) (\<lambda>(regnum, addr).
          cfi_set s addr (unat regnum) DWARF_WHERE_UNDEF 0)
      | DW_CFA_same_value \<Rightarrow>
          rbind (read_regnum as (cs_addr s)) (\<lambda>(regnum, addr).
          cfi_set s addr (unat regnum) DWARF_WHERE_SAME 0)
      | DW_CFA_register \<Rightarrow>
          rbind (read_regnum as (cs_addr s)) (\<lambda>(regnum, addr).
          rbind (dwarf_read_uleb128 as addr) (\<lambda>(val, addr).
          cfi_set s addr (unat regnum) DWARF_WHERE_REG val))
      | _ \<Rightarrow> cfi_remember env opc s)"

text \<open>\<open>DW_CFA_restore\<close> and \<open>restore_extended\<close> copy the rule of the CIE program.\<close>

definition cfi_restore_reg :: "cfi_state \<Rightarrow> unw_word \<Rightarrow> unw_word \<Rightarrow> cfi_state res" where
  "cfi_restore_reg s addr regnum =
     (if regnum \<ge> word_of_nat DWARF_NUM_PRESERVED_REGS then Inl (Err UNW_EINVAL)
      else rbind (arr_get (rs_where (rs_initial (cs_sr s))) (unat regnum)) (\<lambda>w.
           rbind (arr_get (rs_val (rs_initial (cs_sr s))) (unat regnum)) (\<lambda>val.
           cfi_set s addr (unat regnum) w val)))"

definition cfi_restore :: "cfi_env \<Rightarrow> dwarf_cfa \<Rightarrow> unw_word \<Rightarrow> cfi_state \<Rightarrow> cfi_state res" where
  "cfi_restore env opc operand s =
     (case opc of
        DW_CFA_restore \<Rightarrow> cfi_restore_reg s (cs_addr s) operand
      | DW_CFA_restore_extended \<Rightarrow>
          rbind (dwarf_read_uleb128 (ce_as env) (cs_addr s)) (\<lambda>(regnum, addr).
          cfi_restore_reg s addr regnum)
      | DW_CFA_nop \<Rightarrow> Inr s
      | DW_CFA_set_loc \<Rightarrow>
          rbind (dwarf_read_encoded_pointer (ce_as env) (fde_encoding (ce_dci env)) (ce_pi env)
                   (cs_addr s)) (\<lambda>(ip, addr).
          Inr (s\<lparr>cs_ip := ip, cs_addr := addr\<rparr>))
      | _ \<Rightarrow> cfi_rule env opc s)"

text \<open>The rules that save a register at an offset from the CFA.\<close>

definition cfi_offset :: "cfi_env \<Rightarrow> dwarf_cfa \<Rightarrow> unw_word \<Rightarrow> cfi_state \<Rightarrow> cfi_state res" where
  "cfi_offset env opc operand s =
     (let as = ce_as env; factor = data_align (ce_dci env) in
      case opc of
        DW_CFA_offset \<Rightarrow>
          if operand \<ge> word_of_nat DWARF_NUM_PRESERVED_REGS then Inl (Err UNW_EBADREG)
          else rbind (dwarf_read_uleb128 as (cs_addr s)) (\<lambda>(val, addr).
               cfi_set s addr (unat operand) DWARF_WHERE_CFAREL (val * factor))
      | DW_CFA_offset_extended \<Rightarrow>
          rbind (read_regnum as (cs_addr s)) (\<lambda>(regnum, addr).
          rbind (dwarf_read_uleb128 as addr) (\<lambda>(val, addr).
          cfi_set s addr (unat regnum) DWARF_WHERE_CFAREL (val * factor)))
      | DW_CFA_offset_extended_sf \<Rightarrow>
          rbind (read_regnum as (cs_addr s)) (\<lambda>(regnum, addr).
          rbind (dwarf_read_sleb128 as addr) (\<lambda>(val, addr).
          cfi_set s addr (unat regnum) DWARF_WHERE_CFAREL (val * factor)))
      | DW_CFA_GNU_negative_offset_extended \<Rightarrow>
          rbind (read_regnum as (cs_addr s)) (\<lambda>(regnum, addr).
          rbind (dwarf_read_uleb128 as addr) (\<lambda>(val, addr).
          cfi_set s addr (unat regnum) DWARF_WHERE_CFAREL (NOT (val * factor) + 1)))
      | _ \<Rightarrow> cfi_restore env opc operand s)"

definition cfi_advance :: "cfi_env \<Rightarrow> dwarf_cfa \<Rightarrow> unw_word \<Rightarrow> cfi_state \<Rightarrow> cfi_state res" where
  "cfi_advance env opc operand s =
     (let as = ce_as env; factor = code_align (ce_dci env) in
      case opc of
        DW_CFA_advance_loc \<Rightarrow> Inr (s\<lparr>cs_ip := cs_ip s + operand * factor\<rparr>)
      | DW_CFA_advance_loc1 \<Rightarrow>
          rbind (dwarf_readu8 as (cs_addr s)) (\<lambda>(u8, addr).
          Inr (s\<lparr>cs_ip := cs_ip s + ucast u8 * factor, cs_addr := addr\<rparr>))
      | DW_CFA_advance_loc2 \<Rightarrow>
          rbind (dwarf_readu16 as (cs_addr s)) (\<lambda>(u16, addr).
          Inr (s\<lparr>cs_ip := cs_ip s + ucast u16 * factor, cs_addr := addr\<rparr>))
      | DW_CFA_advance_loc4 \<Rightarrow>
          rbind (dwarf_readu32 as (cs_addr s)) (\<lambda>(u32, addr).
          Inr (s\<lparr>cs_ip := cs_ip s + ucast u32 * factor, cs_addr := addr\<rparr>))
      | DW_CFA_MIPS_advance_loc8 \<Rightarrow> Inl (Err UNW_EINVAL)
      | _ \<Rightarrow> cfi_offset env opc operand s)"

section \<open>Programs\<close>

text \<open>One instruction: fetch, split the primary opcode from its operand, execute.\<close>

definition cfi_step :: "cfi_env \<Rightarrow> cfi_state \<Rightarrow> cfi_state res" where
  "cfi_step env s =
     rbind (dwarf_readu8 (ce_as env) (cs_addr s)) (\<lambda>(opb, addr).
     let (operand, opb) =
           (if opb AND DWARF_CFA_OPCODE_MASK \<noteq> 0
            then (ucast (opb AND DWARF_CFA_OPERAND_MASK), opb AND NOT DWARF_CFA_OPERAND_MASK)
            else (0, opb)) in
     cfi_advance env (dwarf_cfa_of opb) operand (s\<lparr>cs_addr := addr\<rparr>))"

partial_function (option) cfi_loop ::
  "cfi_env \<Rightarrow> unw_word \<Rightarrow> unw_word \<Rightarrow> cfi_state \<Rightarrow> cfi_state res option"
where
  "cfi_loop env end_ip end_addr s =
     (if cs_ip s \<le> end_ip \<and> cs_addr s < end_addr then
        (case cfi_step env s of
           Inl e \<Rightarrow> Some (Inl e)
         | Inr s' \<Rightarrow> cfi_loop env end_ip end_addr s')
      else Some (Inr s))"

text \<open>
  \<open>run_cfi_program\<close> with the empty stack of remembered states on which \<open>setup_fde\<close> and
  \<open>parse_fde\<close> call it, and which they empty afterwards. The address space is the local one for \<open>.debug_frame\<close> information.
\<close>

definition run_cfi_program ::
  "addr_space \<Rightarrow> (nat \<Rightarrow> bool) \<Rightarrow> cursor \<Rightarrow> dwarf_cie_info \<Rightarrow> dwarf_state_record
    \<Rightarrow> unw_word \<Rightarrow> unw_word \<Rightarrow> unw_word \<Rightarrow> unw_word \<Rightarrow> dwarf_state_record res" where
  "run_cfi_program local_as alloc c dci sr ip end_ip addr end_addr =
     (let env = \<lparr>ce_as = (if pi_debug_frame (c_pi c) then local_as else c_as c), ce_pi = c_pi c,
                 ce_dci = dci, ce_alloc = alloc\<rparr> in
      rbind (returns (cfi_loop env end_ip end_addr
               \<lparr>cs_sr = sr, cs_ip = ip, cs_addr = addr, cs_stack = [], cs_allocs = 0\<rparr>)) (\<lambda>s.
      Inr (cs_sr s)))"

text \<open>
  The state record that \<open>setup_fde\<close> starts from: zeroed, then every register the same except
  the stack pointer, which is the CFA.
\<close>

definition default_reg_state :: dwarf_reg_state where
  "default_reg_state = \<lparr>ret_addr_column = 0,
     rs_where = (replicate (DWARF_NUM_PRESERVED_REGS + 2) DWARF_WHERE_SAME)
       [TDEP_DWARF_SP := DWARF_WHERE_CFA],
     rs_val = replicate (DWARF_NUM_PRESERVED_REGS + 2) 0\<rparr>"

text \<open>The pointer \<open>c->pi.unwind_info\<close>; following a null pointer is an invalid access.\<close>

definition cursor_dci :: "cursor \<Rightarrow> dwarf_cie_info res" where
  "cursor_dci c = (case pi_unwind_info (c_pi c) of None \<Rightarrow> Inl Out_of_bounds | Some dci \<Rightarrow> Inr dci)"

definition setup_fde ::
  "addr_space \<Rightarrow> (nat \<Rightarrow> bool) \<Rightarrow> cursor \<Rightarrow> dwarf_state_record res" where
  "setup_fde local_as alloc c =
     (if \<not> c_pi_valid c then Inl Aborted else
      rbind (cursor_dci c) (\<lambda>dci.
      let sr = \<lparr>args_size = 0, rs_initial = zero_reg_state,
                rs_current = default_reg_state\<lparr>ret_addr_column := cie_ret_addr_column dci\<rparr>\<rparr> in
      rbind (run_cfi_program local_as alloc c dci sr 0 (- 1) (cie_instr_start dci)
               (cie_instr_end dci)) (\<lambda>sr.
      Inr (sr\<lparr>rs_initial := rs_current sr\<rparr>))))"

definition parse_fde ::
  "addr_space \<Rightarrow> (nat \<Rightarrow> bool) \<Rightarrow> cursor \<Rightarrow> unw_word \<Rightarrow> dwarf_state_record \<Rightarrow> dwarf_state_record res" where
  "parse_fde local_as alloc c ip sr =
     rbind (cursor_dci c) (\<lambda>dci.
     run_cfi_program local_as alloc c dci sr (pi_start_ip (c_pi c))
       (ip - (if c_use_prev_instr c then 1 else 0)) (fde_instr_start dci) (fde_instr_end dci))"

end
