(* ===== verification/CfiLemmas.thy ===== *)
theory CfiLemmas
  imports Cfi ExprLemmas
begin

text \<open>
  Safety of the call-frame interpreter: every instruction keeps the register states at their
  declared sizes and accesses them within bounds. The stack of remembered states is an
  interface, interpreted on the linked list of the code.
\<close>

section \<open>Remembered states\<close>

locale lifo =
  fixes push :: "'s \<Rightarrow> 'a \<Rightarrow> 's res"
    and pop :: "'s \<Rightarrow> ('a \<times> 's) res"
    and items :: "'s \<Rightarrow> 'a list"
  assumes push_items: "push s x = Inr s' \<Longrightarrow> items s' = x # items s"
    and push_error: "push s x = Inl f \<Longrightarrow> f \<noteq> Out_of_bounds"
    and pop_items: "pop s = Inr (x, s') \<Longrightarrow> items s = x # items s'"
    and pop_nonempty: "items s \<noteq> [] \<Longrightarrow> \<exists>x s'. pop s = Inr (x, s')"
    and pop_error: "pop s = Inl f \<Longrightarrow> f \<noteq> Out_of_bounds"
begin

lemma pop_push: "push s x = Inr s' \<Longrightarrow> \<exists>s''. pop s' = Inr (x, s'') \<and> items s'' = items s"
proof -
  assume "push s x = Inr s'"
  then have "items s' = x # items s" by (rule push_items)
  moreover from this obtain y s'' where "pop s' = Inr (y, s'')" using pop_nonempty [of s'] by auto
  ultimately show ?thesis using pop_items [of s' y s''] by simp
qed

lemma pop_empty: "items s = [] \<Longrightarrow> \<exists>f. pop s = Inl f"
  using pop_items [of s] by (cases "pop s") auto

lemma push_invariant:
  "push s x = Inr s' \<Longrightarrow> \<forall>y\<in>set (items s). P y \<Longrightarrow> P x \<Longrightarrow> \<forall>y\<in>set (items s'). P y"
  using push_items [of s x s'] by auto

lemma pop_invariant:
  "pop s = Inr (x, s') \<Longrightarrow> \<forall>y\<in>set (items s). P y \<Longrightarrow> P x \<and> (\<forall>y\<in>set (items s'). P y)"
  using pop_items [of s x s'] by auto

lemma in_bounds_push: "in_bounds (push s x)"
  using push_error [of s x] by (cases "push s x") (auto simp: in_bounds_def)

lemma in_bounds_pop: "in_bounds (pop s)"
  using pop_error [of s] by (cases "pop s") (auto simp: in_bounds_def)

end

interpretation rstate: lifo "push_rstate_stack alloc" pop_rstate_stack fst for alloc
  by unfold_locales
    (auto simp: push_rstate_stack_def pop_rstate_stack_def neq_Nil_conv
      split: if_splits list.splits)

section \<open>Safety\<close>

lemma pointer_in_bounds [simp]: "in_bounds (dwarf_read_encoded_pointer as enc pi a)"
  by (auto simp: dwarf_read_encoded_pointer_def read_pe_format_def apply_pe_base_def
      trim_to_addr_size_def Let_def dwarf_reads16_def dwarf_reads32_def dwarf_reads64_def
      intro!: in_bounds_rbind)

definition wf_cs :: "cfi_state \<Rightarrow> bool" where
  "wf_cs s \<longleftrightarrow> wf_sr (cs_sr s) \<and> (\<forall>rs\<in>set (cs_stack s). wf_rs rs)"

text \<open>A computation that stays in bounds and keeps the states well-formed.\<close>

definition safe :: "cfi_state res \<Rightarrow> bool" where
  "safe r \<longleftrightarrow> in_bounds r \<and> (\<forall>s. r = Inr s \<longrightarrow> wf_cs s)"

named_theorems safe_intros "safe computations"

lemma safe_simps [simp]: "safe (Inr s) \<longleftrightarrow> wf_cs s" "safe (Inl f) \<longleftrightarrow> f \<noteq> Out_of_bounds"
  by (simp_all add: safe_def)

lemma safe_rbind [safe_intros]:
  "in_bounds m \<Longrightarrow> (\<And>x. m = Inr x \<Longrightarrow> safe (f x)) \<Longrightarrow> safe (rbind m f)"
  by (cases m) auto

lemma wf_cs_simps [simp]:
  "wf_cs (s\<lparr>cs_addr := a\<rparr>) \<longleftrightarrow> wf_cs s" "wf_cs (s\<lparr>cs_ip := i\<rparr>) \<longleftrightarrow> wf_cs s"
  "wf_cs (s\<lparr>cs_sr := (cs_sr s)\<lparr>args_size := n\<rparr>\<rparr>) \<longleftrightarrow> wf_cs s"
  by (simp_all add: wf_cs_def wf_sr_def)

lemma set_reg_wf:
  assumes "wf_sr sr" and "n < 19"
  shows "set_reg sr n w v = Inr (sr\<lparr>rs_current := (rs_current sr)
    \<lparr>rs_where := (rs_where (rs_current sr))[n := w], rs_val := (rs_val (rs_current sr))[n := v]\<rparr>\<rparr>)"
  using assms by (simp add: set_reg_def wf_sr_def wf_rs_def Let_def)

lemma cfi_set_wf:
  assumes "wf_cs s" and "n < 19"
  shows "cfi_set s a n w v = Inr (s\<lparr>cs_sr := (cs_sr s)\<lparr>rs_current := (rs_current (cs_sr s))
    \<lparr>rs_where := (rs_where (rs_current (cs_sr s)))[n := w],
      rs_val := (rs_val (rs_current (cs_sr s)))[n := v]\<rparr>\<rparr>, cs_addr := a\<rparr>)"
  using assms by (simp add: cfi_set_def wf_cs_def set_reg_wf)

lemma cfi_set_safe [safe_intros]: "wf_cs s \<Longrightarrow> n < 19 \<Longrightarrow> safe (cfi_set s a n w v)"
  by (simp add: cfi_set_wf) (simp add: wf_cs_def wf_sr_def wf_rs_def)

lemma read_regnum_in_bounds [simp]: "in_bounds (read_regnum as a)"
  by (simp add: read_regnum_def)

lemma read_regnum_less: "read_regnum as a = Inr (r, a') \<Longrightarrow> unat r < 17"
  by (auto simp: read_regnum_def res_iff word_le_nat_alt not_le split: if_splits)

lemma regnum_less [safe_intros]: "read_regnum as a = Inr (r, a') \<Longrightarrow> unat r < 19"
  by (auto dest: read_regnum_less)

lemma operand_less: "\<not> (17 :: unw_word) \<le> r \<Longrightarrow> unat r < 19"
  by (simp add: word_le_nat_alt)

lemma cfi_set_in_bounds [safe_intros]: "wf_cs s \<Longrightarrow> n < 19 \<Longrightarrow> in_bounds (cfi_set s a n w v)"
  by (simp add: cfi_set_wf)

lemma cfi_set_keeps: "cfi_set s a n w v = Inr s' \<Longrightarrow> wf_cs s \<Longrightarrow> n < 19 \<Longrightarrow> wf_cs s'"
  using cfi_set_safe [of s n a w v] by simp

lemma misc_safe: "wf_cs s \<Longrightarrow> safe (cfi_misc env opc s)"
  by (cases opc) (auto simp: cfi_misc_def intro!: safe_intros)

lemma expr_safe: "wf_cs s \<Longrightarrow> safe (cfi_expr env opc s)"
  by (cases opc) (auto simp: cfi_expr_def Let_def misc_safe
      intro!: safe_intros dest: cfi_set_keeps regnum_less)

lemma def_cfa_safe: "wf_cs s \<Longrightarrow> safe (cfi_def_cfa env opc s)"
  by (cases opc) (auto simp: cfi_def_cfa_def Let_def expr_safe cfi_set_cfa_off_def
      intro!: safe_intros dest: cfi_set_keeps)

lemma remember_safe:
  assumes "wf_cs s"
  shows "safe (cfi_remember env opc s)"
proof -
  have wf: "\<forall>rs\<in>set (cs_stack s). wf_rs rs" "wf_rs (rs_current (cs_sr s))" "wf_rs (rs_initial (cs_sr s))"
    using assms by (auto simp: wf_cs_def wf_sr_def)
  show ?thesis
  proof (cases opc)
    case DW_CFA_remember_state
    then show ?thesis using wf
      by (auto simp: cfi_remember_def wf_cs_def wf_sr_def rstate.in_bounds_push
          intro!: safe_rbind dest: rstate.push_invariant [where P = wf_rs])
  next
    case DW_CFA_restore_state
    then show ?thesis using wf
      by (auto simp: cfi_remember_def wf_cs_def wf_sr_def rstate.in_bounds_pop
          intro!: safe_rbind dest: rstate.pop_invariant [where P = wf_rs])
  qed (auto simp: cfi_remember_def def_cfa_safe assms)
qed

lemma rule_safe: "wf_cs s \<Longrightarrow> safe (cfi_rule env opc s)"
  by (cases opc) (auto simp: cfi_rule_def Let_def remember_safe intro!: safe_intros)

lemma restore_reg_safe: "wf_cs s \<Longrightarrow> safe (cfi_restore_reg s a r)"
  unfolding cfi_restore_reg_def
  by (auto simp: wf_cs_def [of s] wf_sr_def wf_rs_def word_le_nat_alt intro!: safe_rbind cfi_set_safe)

lemma restore_safe: "wf_cs s \<Longrightarrow> safe (cfi_restore env opc n s)"
  by (cases opc) (auto simp: cfi_restore_def rule_safe restore_reg_safe intro!: safe_rbind)

lemma offset_safe: "wf_cs s \<Longrightarrow> safe (cfi_offset env opc n s)"
proof (cases "opc = DW_CFA_offset")
  case True
  then show "wf_cs s \<Longrightarrow> ?thesis"
    by (auto simp: cfi_offset_def Let_def operand_less intro!: safe_rbind cfi_set_safe)
next
  case False
  then show "wf_cs s \<Longrightarrow> ?thesis"
    by (cases opc) (auto simp: cfi_offset_def Let_def restore_safe intro!: safe_intros)
qed

lemma advance_safe: "wf_cs s \<Longrightarrow> safe (cfi_advance env opc n s)"
  by (cases opc) (auto simp: cfi_advance_def Let_def offset_safe intro!: safe_intros)

lemma step_safe: "wf_cs s \<Longrightarrow> safe (cfi_step env s)"
  by (auto simp: cfi_step_def Let_def advance_safe intro!: safe_rbind)

lemma loop_safe:
  assumes "cfi_loop env e ea s = Some r" and "wf_cs s"
  shows "safe r"
  using assms
proof (induction rule: cfi_loop.raw_induct [rotated, consumes 1])
  case (1 loop env e ea s r)
  note step = step_safe [OF "1.prems", of env]
  show ?case
  proof (cases "cs_ip s \<le> e \<and> cs_addr s < ea")
    case False
    with 1 show ?thesis by auto
  next
    case True
    with 1 step show ?thesis by (cases "cfi_step env s") simp_all
  qed
qed

end
