(* ===== verification/CfiTable.thy ===== *)
theory CfiTable
  imports CfiLemmas
begin

text \<open>
  What the call-frame interpreter computes: the table of DWARF section 6.4, a location and a
  row of register rules, with an abstract machine over instructions, their encoding, and the
  proof that interpreting the encoded bytes refines the abstract machine.
\<close>

section \<open>The abstract machine\<close>

type_synonym row = "nat \<Rightarrow> dwarf_where \<times> unw_word"

datatype insn =
    Advance nat | Advance1 nat | Offset nat nat | Offset_sf nat int | Restore nat
  | Undefined nat | Same_value nat | Register nat nat | Remember | Restore_state
  | Def_cfa nat nat | Def_cfa_sf nat int | Def_cfa_register nat | Def_cfa_offset nat
  | Args_size nat | No_op

record table =
  t_loc :: unw_word
  t_row :: row
  t_saved :: "row list"

text \<open>The rules of the CIE, and its alignment factors.\<close>

record table_env =
  te_code :: unw_word
  te_data :: unw_word
  te_initial :: row

definition rule :: "nat \<Rightarrow> dwarf_where \<Rightarrow> unw_word \<Rightarrow> table \<Rightarrow> table" where
  "rule c w v t = t\<lparr>t_row := (t_row t)(c := (w, v))\<rparr>"

fun exec_insn :: "table_env \<Rightarrow> insn \<Rightarrow> table \<Rightarrow> table res" where
  "exec_insn e (Advance n) t = Inr (t\<lparr>t_loc := t_loc t + word_of_nat n * te_code e\<rparr>)"
| "exec_insn e (Advance1 n) t = Inr (t\<lparr>t_loc := t_loc t + word_of_nat n * te_code e\<rparr>)"
| "exec_insn e (Offset r n) t = Inr (rule r DWARF_WHERE_CFAREL (word_of_nat n * te_data e) t)"
| "exec_insn e (Offset_sf r i) t = Inr (rule r DWARF_WHERE_CFAREL (word_of_int i * te_data e) t)"
| "exec_insn e (Restore r) t = Inr (t\<lparr>t_row := (t_row t)(r := te_initial e r)\<rparr>)"
| "exec_insn e (Undefined r) t = Inr (rule r DWARF_WHERE_UNDEF 0 t)"
| "exec_insn e (Same_value r) t = Inr (rule r DWARF_WHERE_SAME 0 t)"
| "exec_insn e (Register r q) t = Inr (rule r DWARF_WHERE_REG (word_of_nat q) t)"
| "exec_insn e Remember t = Inr (t\<lparr>t_saved := t_row t # t_saved t\<rparr>)"
| "exec_insn e Restore_state t =
     (case t_saved t of [] \<Rightarrow> Inl (Err UNW_EINVAL)
      | r # rs \<Rightarrow> Inr (t\<lparr>t_row := r, t_saved := rs\<rparr>))"
| "exec_insn e (Def_cfa r n) t = Inr (rule DWARF_CFA_OFF_COLUMN DWARF_WHERE_UNDEF (word_of_nat n)
     (rule DWARF_CFA_REG_COLUMN DWARF_WHERE_REG (word_of_nat r) t))"
| "exec_insn e (Def_cfa_sf r i) t =
     Inr (rule DWARF_CFA_OFF_COLUMN DWARF_WHERE_UNDEF (word_of_int i * te_data e)
       (rule DWARF_CFA_REG_COLUMN DWARF_WHERE_REG (word_of_nat r) t))"
| "exec_insn e (Def_cfa_register r) t =
     Inr (rule DWARF_CFA_REG_COLUMN DWARF_WHERE_REG (word_of_nat r) t)"
| "exec_insn e (Def_cfa_offset n) t =
     Inr (rule DWARF_CFA_OFF_COLUMN DWARF_WHERE_UNDEF (word_of_nat n) t)"
| "exec_insn e (Args_size n) t = Inr t"
| "exec_insn e No_op t = Inr t"

text \<open>The row for a location: instructions behind an advance past it do not count.\<close>

fun run_insns :: "table_env \<Rightarrow> unw_word \<Rightarrow> insn list \<Rightarrow> table \<Rightarrow> table res" where
  "run_insns e pc [] t = Inr t"
| "run_insns e pc (i # is) t =
     (if t_loc t \<le> pc then rbind (exec_insn e i t) (run_insns e pc is) else Inr t)"

section \<open>Encoding\<close>

fun encode_insn :: "insn \<Rightarrow> 8 word list" where
  "encode_insn (Advance n) = [word_of_nat (0x40 + n)]"
| "encode_insn (Advance1 n) = [0x02, word_of_nat n]"
| "encode_insn (Offset r n) = word_of_nat (0x80 + r) # uleb_encode n"
| "encode_insn (Offset_sf r i) = 0x11 # uleb_encode r @ sleb_encode i"
| "encode_insn (Restore r) = [word_of_nat (0xc0 + r)]"
| "encode_insn (Undefined r) = 0x07 # uleb_encode r"
| "encode_insn (Same_value r) = 0x08 # uleb_encode r"
| "encode_insn (Register r q) = 0x09 # uleb_encode r @ uleb_encode q"
| "encode_insn Remember = [0x0a]"
| "encode_insn Restore_state = [0x0b]"
| "encode_insn (Def_cfa r n) = 0x0c # uleb_encode r @ uleb_encode n"
| "encode_insn (Def_cfa_sf r i) = 0x12 # uleb_encode r @ sleb_encode i"
| "encode_insn (Def_cfa_register r) = 0x0d # uleb_encode r"
| "encode_insn (Def_cfa_offset n) = 0x0e # uleb_encode n"
| "encode_insn (Args_size n) = 0x2e # uleb_encode n"
| "encode_insn No_op = [0x00]"

fun valid_insn :: "insn \<Rightarrow> bool" where
  "valid_insn (Advance n) \<longleftrightarrow> n < 64"
| "valid_insn (Advance1 n) \<longleftrightarrow> n < 256"
| "valid_insn (Offset r n) \<longleftrightarrow> r < 17 \<and> n < 2 ^ 64"
| "valid_insn (Offset_sf r i) \<longleftrightarrow> r < 17 \<and> - (2 ^ 63) \<le> i \<and> i < 2 ^ 63"
| "valid_insn (Restore r) \<longleftrightarrow> r < 17"
| "valid_insn (Undefined r) \<longleftrightarrow> r < 17"
| "valid_insn (Same_value r) \<longleftrightarrow> r < 17"
| "valid_insn (Register r q) \<longleftrightarrow> r < 17 \<and> q < 2 ^ 64"
| "valid_insn (Def_cfa r n) \<longleftrightarrow> r < 17 \<and> n < 2 ^ 64"
| "valid_insn (Def_cfa_sf r i) \<longleftrightarrow> r < 17 \<and> - (2 ^ 63) \<le> i \<and> i < 2 ^ 63"
| "valid_insn (Def_cfa_register r) \<longleftrightarrow> r < 17"
| "valid_insn (Def_cfa_offset n) \<longleftrightarrow> n < 2 ^ 64"
| "valid_insn (Args_size n) \<longleftrightarrow> n < 2 ^ 64"
| "valid_insn _ \<longleftrightarrow> True"

section \<open>Refinement\<close>

definition row_of :: "dwarf_reg_state \<Rightarrow> row" where
  "row_of rs = (\<lambda>i. (rs_where rs ! i, rs_val rs ! i))"

definition cfi_abs :: "cfi_state \<Rightarrow> table" where
  "cfi_abs s = \<lparr>t_loc = cs_ip s, t_row = row_of (rs_current (cs_sr s)),
     t_saved = map row_of (cs_stack s)\<rparr>"

text \<open>The environments correspond, and every allocation succeeds.\<close>

definition env_rel :: "cfi_env \<Rightarrow> cfi_state \<Rightarrow> table_env \<Rightarrow> bool" where
  "env_rel env s e \<longleftrightarrow> te_code e = code_align (ce_dci env) \<and> te_data e = data_align (ce_dci env)
     \<and> te_initial e = row_of (rs_initial (cs_sr s)) \<and> (\<forall>n. ce_alloc env n)"

lemma row_of_update:
  "n < length (rs_where rs) \<Longrightarrow> n < length (rs_val rs) \<Longrightarrow>
   row_of (rs\<lparr>rs_where := (rs_where rs)[n := w], rs_val := (rs_val rs)[n := v]\<rparr>) = (row_of rs)(n := (w, v))"
  by (auto simp: row_of_def)

definition steps_to :: "cfi_env \<Rightarrow> cfi_state \<Rightarrow> table_env \<Rightarrow> nat \<Rightarrow> cfi_state res \<Rightarrow> table res \<Rightarrow> bool" where
  "steps_to env s e n r t = (case t of
      Inl f \<Rightarrow> r = Inl f
    | Inr t' \<Rightarrow> \<exists>s'. r = Inr s' \<and> cfi_abs s' = t' \<and> wf_cs s' \<and> env_rel env s' e
        \<and> cs_addr s' = cs_addr s + word_of_nat n)"

lemma reads_regnum:
  "bytes_at (as_byte as) a (uleb_encode r) \<Longrightarrow> r < 17 \<Longrightarrow>
   read_regnum as a = Inr (word_of_nat r, a + word_of_nat (length (uleb_encode r)))"
  by (simp add: read_regnum_def reads_uleb word_le_nat_alt unat_of_nat)

text \<open>Splitting a primary opcode from its six-bit operand.\<close>

lemma ucast_byte_of_nat:
  assumes "n < 256"
  shows "ucast (word_of_nat n :: 8 word) = (word_of_nat n :: unw_word)"
proof -
  have "take_bit 8 n = n" using assms by (simp add: take_bit_nat_eq_self)
  then show ?thesis by (simp only: unsigned_of_nat take_bit_of_nat) simp
qed

lemma low_six:
  assumes "n < 64"
  shows "take_bit 6 (word_of_nat n :: 8 word) = word_of_nat n"
    and "ucast (word_of_nat n :: 8 word) = (word_of_nat n :: unw_word)"
proof -
  have "take_bit 6 n = n" using assms by (simp add: take_bit_nat_eq_self)
  then show "take_bit 6 (word_of_nat n :: 8 word) = word_of_nat n"
    by (simp only: take_bit_of_nat)
  show "ucast (word_of_nat n :: 8 word) = (word_of_nat n :: unw_word)"
    using assms by (simp add: ucast_byte_of_nat)
qed

lemma primary_opcode:
  assumes "n < 64" and "b AND 0x3f = 0"
  shows "(b + word_of_nat n) AND 0x3f = (word_of_nat n :: 8 word)"
    and "(b + word_of_nat n) AND NOT 0x3f = b"
proof -
  let ?w = "word_of_nat n :: 8 word"
  have m: "(0x3f :: 8 word) = mask 6" by (simp add: mask_eq_exp_minus_1)
  have "b AND mask 6 = 0" using assms(2) unfolding m .
  then have bits: "bit (b AND mask 6) k = bit (0 :: 8 word) k" for k by simp
  have b: "\<not> bit b k" if "k < 6" for k
    using that bits [of k] by (auto simp: bit_and_iff bit_mask_iff)
  have top: "bit (take_bit 6 ?w) k = bit ?w k" for k by (simp only: low_six(1) [OF assms(1)])
  have w: "\<not> bit ?w k" if "6 \<le> k" for k using that top [of k] by (simp only: bit_take_bit_iff) auto
  have sum: "b + ?w = b OR ?w"
    using b w by (intro disjunctive_add) (metis not_less)
  show "(b + ?w) AND 0x3f = ?w" "(b + ?w) AND NOT 0x3f = b"
    unfolding sum m using b w by (auto intro!: bit_word_eqI simp: bit_simps) (metis not_less)+
qed

text \<open>Fetching and decoding one instruction.\<close>

lemma step_extended:
  assumes "as_byte (ce_as env) (cs_addr s) = Some b" and "b AND 0xc0 = 0" and "dwarf_cfa_of b = opc"
  shows "cfi_step env s = cfi_advance env opc 0 (s\<lparr>cs_addr := cs_addr s + 1\<rparr>)"
  using assms by (simp add: cfi_step_def remote.rd_Some)

lemma step_primary:
  assumes "as_byte (ce_as env) (cs_addr s) = Some (b + word_of_nat n)" and "n < 64"
    and "b AND 0x3f = 0" and "b \<noteq> 0" and "dwarf_cfa_of b = opc"
  shows "cfi_step env s = cfi_advance env opc (word_of_nat n) (s\<lparr>cs_addr := cs_addr s + 1\<rparr>)"
proof -
  note p = primary_opcode [OF assms(2,3)]
  have "(b + word_of_nat n) AND 0xc0 \<noteq> 0"
  proof
    have c: "(0xc0 :: 8 word) = NOT 0x3f" by simp
    assume "(b + word_of_nat n) AND 0xc0 = 0"
    then show False using p(2) assms(4) unfolding c by simp
  qed
  with p assms(1,5) low_six(2) [OF assms(2)] show ?thesis
    by (simp add: cfi_step_def remote.rd_Some)
qed

lemmas insn_defs = cfi_advance_def cfi_offset_def cfi_restore_def cfi_rule_def cfi_remember_def
  cfi_def_cfa_def cfi_expr_def cfi_misc_def cfi_set_cfa_off_def

text \<open>Setting a column refines updating the row.\<close>

lemma steps_set:
  assumes "wf_cs s" and "env_rel env s e" and "n < 19"
  shows "steps_to env s e k (cfi_set (s\<lparr>cs_addr := a\<rparr>) (cs_addr s + word_of_nat k) n w v)
    (Inr (rule n w v (cfi_abs s)))"
  using assms cfi_set_safe [of "s\<lparr>cs_addr := a\<rparr>" n "cs_addr s + word_of_nat k" w v]
  by (auto simp: steps_to_def cfi_set_wf cfi_abs_def rule_def env_rel_def wf_cs_def wf_sr_def
      wf_rs_def row_of_update)

lemma cfi_set_addr: "cfi_set (s\<lparr>cs_addr := a\<rparr>) b n w v = cfi_set s b n w v"
  by (simp add: cfi_set_def)

lemma steps_set':
  assumes "wf_cs s" and "env_rel env s e" and "n < 19" and "b = cs_addr s + word_of_nat k"
  shows "steps_to env s e k (cfi_set (s\<lparr>cs_addr := a\<rparr>) b n w v) (Inr (rule n w v (cfi_abs s)))"
  using steps_set [OF assms(1-3)] assms(4) by simp

text \<open>The two columns of the CFA.\<close>

lemma steps_set_cfa:
  assumes "wf_cs s" and "env_rel env s e" and "b = cs_addr s + word_of_nat k"
  shows "steps_to env s e k
    (rbind (cfi_set (s\<lparr>cs_addr := a\<rparr>) b DWARF_CFA_REG_COLUMN w v) (\<lambda>s'.
       cfi_set s' b DWARF_CFA_OFF_COLUMN w' v'))
    (Inr (rule DWARF_CFA_OFF_COLUMN w' v' (rule DWARF_CFA_REG_COLUMN w v (cfi_abs s))))"
proof -
  obtain s' where s': "cfi_set (s\<lparr>cs_addr := a\<rparr>) b DWARF_CFA_REG_COLUMN w v = Inr s'"
    "cfi_abs s' = rule DWARF_CFA_REG_COLUMN w v (cfi_abs s)" "wf_cs s'" "env_rel env s' e"
    "cs_addr s' = b"
    using steps_set' [OF assms(1,2) _ assms(3), of DWARF_CFA_REG_COLUMN a w v] assms(3)
    by (auto simp: steps_to_def)
  from steps_set' [OF s'(3,4), of DWARF_CFA_OFF_COLUMN b 0 "cs_addr s'" w' v'] s' assms(3)
  show ?thesis by (simp add: steps_to_def cfi_set_addr)
qed

text \<open>One instruction of the interpreter refines one of the abstract machine.\<close>

lemma step_refines:
  assumes "wf_cs s" and "env_rel env s e" and "valid_insn i"
    and "bytes_at (as_byte (ce_as env)) (cs_addr s) (encode_insn i)"
  shows "steps_to env s e (length (encode_insn i)) (cfi_step env s) (exec_insn e i (cfi_abs s))"
proof -
  let ?s = "s\<lparr>cs_addr := cs_addr s + 1\<rparr>"
  note set = steps_set' [OF assms(1,2)]
  note simps = insn_defs Let_def reads_regnum reads_uleb reads_sleb bytes_at_append add.assoc
  show ?thesis
  proof (cases i)
    case (Advance n)
    have "cfi_step env s = cfi_advance env DW_CFA_advance_loc (word_of_nat n) ?s"
      using assms Advance by (intro step_primary [where b = "0x40"]) (simp_all add: dwarf_cfa_of_def)
    with Advance assms show ?thesis
      by (simp add: insn_defs Let_def steps_to_def cfi_abs_def env_rel_def)
  next
    case (Advance1 n)
    have "cfi_step env s = cfi_advance env DW_CFA_advance_loc1 0 ?s"
      using assms Advance1 by (intro step_extended [where b = "0x02"]) (simp_all add: dwarf_cfa_of_def)
    moreover have "dwarf_readu8 (ce_as env) (cs_addr s + 1) = Inr (word_of_nat n, cs_addr s + 2)"
      using assms Advance1 by (simp add: remote.rd_Some add.assoc)
    moreover have "ucast (word_of_nat n :: 8 word) = (word_of_nat n :: unw_word)"
      using assms Advance1 by (simp add: ucast_byte_of_nat)
    ultimately show ?thesis using Advance1 assms
      by (simp add: insn_defs Let_def steps_to_def cfi_abs_def env_rel_def)
  next
    case (Offset r n)
    have "cfi_step env s = cfi_advance env DW_CFA_offset (word_of_nat r) ?s"
      using assms Offset by (intro step_primary [where b = "0x80"]) (simp_all add: dwarf_cfa_of_def)
    with Offset assms show ?thesis
      by (auto simp: simps word_le_nat_alt unat_of_nat set env_rel_def)
  next
    case (Offset_sf r j)
    have "cfi_step env s = cfi_advance env DW_CFA_offset_extended_sf 0 ?s"
      using assms Offset_sf by (intro step_extended [where b = "0x11"]) (simp_all add: dwarf_cfa_of_def)
    with Offset_sf assms show ?thesis
      by (auto simp: simps unat_of_nat set env_rel_def)
  next
    case (Restore r)
    have "cfi_step env s = cfi_advance env DW_CFA_restore (word_of_nat r) ?s"
      using assms Restore by (intro step_primary [where b = "0xc0"]) (simp_all add: dwarf_cfa_of_def)
    moreover have "(cfi_abs s)\<lparr>t_row := (t_row (cfi_abs s))(r := te_initial e r)\<rparr>
        = rule r (rs_where (rs_initial (cs_sr s)) ! r) (rs_val (rs_initial (cs_sr s)) ! r) (cfi_abs s)"
      using assms by (simp add: rule_def env_rel_def row_of_def)
    moreover have "length (rs_where (rs_initial (cs_sr s))) = 19"
      "length (rs_val (rs_initial (cs_sr s))) = 19"
      using assms by (simp_all add: wf_cs_def wf_sr_def wf_rs_def)
    ultimately show ?thesis using Restore assms
      by (auto simp: simps cfi_restore_reg_def word_le_nat_alt unat_of_nat set)
  next
    case (Undefined r)
    have "cfi_step env s = cfi_advance env DW_CFA_undefined 0 ?s"
      using assms Undefined by (intro step_extended [where b = "0x07"]) (simp_all add: dwarf_cfa_of_def)
    with Undefined assms show ?thesis by (auto simp: simps unat_of_nat set)
  next
    case (Same_value r)
    have "cfi_step env s = cfi_advance env DW_CFA_same_value 0 ?s"
      using assms Same_value by (intro step_extended [where b = "0x08"]) (simp_all add: dwarf_cfa_of_def)
    with Same_value assms show ?thesis by (auto simp: simps unat_of_nat set)
  next
    case (Register r q)
    have "cfi_step env s = cfi_advance env DW_CFA_register 0 ?s"
      using assms Register by (intro step_extended [where b = "0x09"]) (simp_all add: dwarf_cfa_of_def)
    with Register assms show ?thesis by (auto simp: simps unat_of_nat set)
  next
    case Remember
    have "cfi_step env s = cfi_advance env DW_CFA_remember_state 0 ?s"
      using assms Remember by (intro step_extended [where b = "0x0a"]) (simp_all add: dwarf_cfa_of_def)
    moreover have "wf_cs (?s\<lparr>cs_stack := rs_current (cs_sr s) # cs_stack s, cs_allocs := cs_allocs s + 1\<rparr>)"
      using assms(1) by (auto simp: wf_cs_def wf_sr_def)
    ultimately show ?thesis using Remember assms
      by (simp add: insn_defs Let_def steps_to_def cfi_abs_def env_rel_def push_rstate_stack_def)
  next
    case Restore_state
    have "cfi_step env s = cfi_advance env DW_CFA_restore_state 0 ?s"
      using assms Restore_state by (intro step_extended [where b = "0x0b"]) (simp_all add: dwarf_cfa_of_def)
    then show ?thesis
    proof (cases "cs_stack s")
      case (Cons rs rest)
      have "wf_cs (?s\<lparr>cs_sr := (cs_sr s)\<lparr>rs_current := rs\<rparr>, cs_stack := rest\<rparr>)"
        using assms(1) Cons by (auto simp: wf_cs_def wf_sr_def)
      with \<open>cfi_step env s = _\<close> Restore_state assms Cons show ?thesis
        by (simp add: insn_defs Let_def steps_to_def cfi_abs_def env_rel_def pop_rstate_stack_def)
    qed (use Restore_state in \<open>simp add: insn_defs Let_def steps_to_def cfi_abs_def pop_rstate_stack_def\<close>)
  next
    case (Def_cfa r n)
    have "cfi_step env s = cfi_advance env DW_CFA_def_cfa 0 ?s"
      using assms Def_cfa by (intro step_extended [where b = "0x0c"]) (simp_all add: dwarf_cfa_of_def)
    with Def_cfa assms show ?thesis by (auto simp: simps steps_set_cfa)
  next
    case (Def_cfa_sf r j)
    have "cfi_step env s = cfi_advance env DW_CFA_def_cfa_sf 0 ?s"
      using assms Def_cfa_sf by (intro step_extended [where b = "0x12"]) (simp_all add: dwarf_cfa_of_def)
    moreover have "te_data e = data_align (ce_dci env)" using assms(2) by (simp add: env_rel_def)
    ultimately show ?thesis using Def_cfa_sf assms by (auto simp: simps steps_set_cfa)
  next
    case (Def_cfa_register r)
    have "cfi_step env s = cfi_advance env DW_CFA_def_cfa_register 0 ?s"
      using assms Def_cfa_register by (intro step_extended [where b = "0x0d"]) (simp_all add: dwarf_cfa_of_def)
    with Def_cfa_register assms show ?thesis by (auto simp: simps set)
  next
    case (Def_cfa_offset n)
    have "cfi_step env s = cfi_advance env DW_CFA_def_cfa_offset 0 ?s"
      using assms Def_cfa_offset by (intro step_extended [where b = "0x0e"]) (simp_all add: dwarf_cfa_of_def)
    with Def_cfa_offset assms show ?thesis by (auto simp: simps set)
  next
    case (Args_size n)
    have "cfi_step env s = cfi_advance env DW_CFA_GNU_args_size 0 ?s"
      using assms Args_size by (intro step_extended [where b = "0x2e"]) (simp_all add: dwarf_cfa_of_def)
    with Args_size assms show ?thesis
      by (auto simp: simps steps_to_def cfi_abs_def env_rel_def wf_cs_def wf_sr_def)
  next
    case No_op
    have "cfi_step env s = cfi_advance env DW_CFA_nop 0 ?s"
      using assms No_op by (intro step_extended [where b = "0x00"]) (simp_all add: dwarf_cfa_of_def)
    with No_op assms show ?thesis by (auto simp: simps steps_to_def cfi_abs_def env_rel_def)
  qed
qed

section \<open>Programs\<close>

fun encode_insns :: "insn list \<Rightarrow> 8 word list" where
  "encode_insns [] = []"
| "encode_insns (i # is) = encode_insn i @ encode_insns is"

lemma encode_insn_nonempty: "0 < length (encode_insn i)"
  by (cases i) auto

lemma loop_refines:
  assumes "wf_cs s" and "env_rel env s e" and "list_all valid_insn is"
    and "bytes_at (as_byte (ce_as env)) (cs_addr s) (encode_insns is)"
    and "unat (cs_addr s) + length (encode_insns is) = unat ea"
  shows "case run_insns e pc is (cfi_abs s) of
      Inl f \<Rightarrow> cfi_loop env pc ea s = Some (Inl f)
    | Inr t \<Rightarrow> \<exists>s'. cfi_loop env pc ea s = Some (Inr s') \<and> cfi_abs s' = t \<and> wf_cs s'"
  using assms
proof (induction "is" arbitrary: s)
  case Nil
  then have "cs_addr s = ea" by (simp add: word_unat_eq_iff)
  with Nil show ?case by (simp add: cfi_loop.simps [of env pc ea s])
next
  case (Cons i "is")
  let ?n = "length (encode_insn i)"
  show ?case
  proof (cases "t_loc (cfi_abs s) \<le> pc")
    case False
    with Cons.prems(1) show ?thesis by (simp add: cfi_loop.simps [of env pc ea s] cfi_abs_def)
  next
    case True
    have less: "cs_addr s < ea"
      using Cons.prems(5) encode_insn_nonempty [of i] by (simp add: word_less_nat_alt del: length_greater_0_conv)
    have next_addr: "unat (cs_addr s + word_of_nat ?n) = unat (cs_addr s) + ?n"
      using Cons.prems(5) by (intro unat_inside [of _ "length (encode_insns (i # is))" ea]) auto
    have step: "steps_to env s e ?n (cfi_step env s) (exec_insn e i (cfi_abs s))"
      using Cons.prems by (intro step_refines) (auto simp: bytes_at_append)
    show ?thesis
    proof (cases "exec_insn e i (cfi_abs s)")
      case (Inl f)
      with step True less show ?thesis
        by (simp add: cfi_loop.simps [of env pc ea s] steps_to_def cfi_abs_def)
    next
      case (Inr t)
      with step obtain s' where s': "cfi_step env s = Inr s'" "cfi_abs s' = t" "wf_cs s'"
        "env_rel env s' e" "cs_addr s' = cs_addr s + word_of_nat ?n" by (auto simp: steps_to_def)
      have "cfi_loop env pc ea s = cfi_loop env pc ea s'"
        using True less s'(1) by (simp add: cfi_loop.simps [of env pc ea s] cfi_abs_def)
      moreover have "case run_insns e pc is (cfi_abs s') of
          Inl f \<Rightarrow> cfi_loop env pc ea s' = Some (Inl f)
        | Inr t \<Rightarrow> \<exists>s''. cfi_loop env pc ea s' = Some (Inr s'') \<and> cfi_abs s'' = t \<and> wf_cs s''"
        using Cons.prems s' next_addr by (intro Cons.IH) (auto simp: bytes_at_append)
      ultimately show ?thesis using True Inr s'(2) by (cases "run_insns e pc is t") simp_all
    qed
  qed
qed

text \<open>
  Facts about the abstract machine. A table past the wanted location stays as it is, so a
  program is run piece by piece.
\<close>

lemma run_past: "\<not> t_loc t \<le> pc \<Longrightarrow> run_insns e pc is t = Inr t"
  by (cases "is") auto

lemma run_append:
  "run_insns e pc (is @ js) t = rbind (run_insns e pc is t) (run_insns e pc js)"
proof (induction "is" arbitrary: t)
  case (Cons i "is")
  then show ?case by (cases "exec_insn e i t") (simp_all add: run_past)
qed simp

text \<open>Rules and CFA definitions neither advance the location nor touch the saved rows.\<close>

fun plain_insn :: "insn \<Rightarrow> bool" where
  "plain_insn (Advance n) = False"
| "plain_insn (Advance1 n) = False"
| "plain_insn Remember = False"
| "plain_insn Restore_state = False"
| "plain_insn _ = True"

lemma exec_plain:
  "plain_insn i \<Longrightarrow> \<exists>t'. exec_insn e i t = Inr t' \<and> t_loc t' = t_loc t \<and> t_saved t' = t_saved t"
  by (cases i) (auto simp: rule_def)

lemma run_plain:
  "list_all plain_insn is \<Longrightarrow> t_loc t \<le> pc \<Longrightarrow>
   \<exists>t'. run_insns e pc is t = Inr t' \<and> t_loc t' = t_loc t \<and> t_saved t' = t_saved t"
proof (induction "is" arbitrary: t)
  case (Cons i "is")
  then obtain t' where t': "exec_insn e i t = Inr t'" "t_loc t' = t_loc t" "t_saved t' = t_saved t"
    using exec_plain [of i e t] by auto
  with Cons.IH [of t'] Cons.prems show ?case by simp
qed simp

lemma run_remember_restore:
  assumes "list_all plain_insn is"
  shows "run_insns e pc (Remember # is @ [Restore_state]) t = Inr t"
proof (cases "t_loc t \<le> pc")
  case True
  obtain t' where "run_insns e pc is (t\<lparr>t_saved := t_row t # t_saved t\<rparr>) = Inr t'"
    "t_loc t' = t_loc t" "t_saved t' = t_row t # t_saved t"
    using run_plain [OF assms, of "t\<lparr>t_saved := t_row t # t_saved t\<rparr>" pc e] True by auto
  with True show ?thesis by (simp add: run_append)
qed (simp add: run_past)

lemma encode_append: "encode_insns (is @ js) = encode_insns is @ encode_insns js"
  by (induction "is") simp_all

end
