(* ===== verification/CfiTermination.thy ===== *)
theory CfiTermination
  imports CfiLemmas
begin

text \<open>
  Termination of call-frame programs. Every instruction other than \<open>DW_CFA_set_loc\<close> and the
  three that skip an expression block moves the program address forward by a bounded
  amount, and the latter by that of the block, so a program ends that comes to no \<open>DW_CFA_set_loc\<close> and
  to no block that reaches beyond the end of the address space.
\<close>

lemma near_read:
  "dwarf_readu8 as a = Inr (v1, b) \<Longrightarrow> near a 10 b"
  "dwarf_readu16 as a = Inr (v2, b) \<Longrightarrow> near a 10 b"
  "dwarf_readu32 as a = Inr (v4, b) \<Longrightarrow> near a 10 b"
  "dwarf_read_uleb128 as a = Inr (v8, b) \<Longrightarrow> near a 10 b"
  "dwarf_read_sleb128 as a = Inr (v8, b) \<Longrightarrow> near a 10 b"
  "read_regnum as a = Inr (v8, b) \<Longrightarrow> near a 10 b"
proof -
  show u: "dwarf_read_uleb128 as a = Inr (v8, b) \<Longrightarrow> near a 10 b" for v8
    by (auto simp: near_def dwarf_read_uleb128_def dest: remote.read_uleb128_advances)
  show "dwarf_read_sleb128 as a = Inr (v8, b) \<Longrightarrow> near a 10 b"
    by (auto simp: near_def dwarf_read_sleb128_def dest: remote.read_sleb128_advances)
  show "read_regnum as a = Inr (v8, b) \<Longrightarrow> near a 10 b"
    by (auto simp: read_regnum_def res_iff split: if_splits dest: u)
qed (simp_all add: near_def fixed_advance_le)

lemma near_10: "near a 10 b \<Longrightarrow> near a 20 b"
  by (erule near_mono) simp

lemma near_10_10: "near a 10 b \<Longrightarrow> near b 10 d \<Longrightarrow> near a 20 d"
  by (erule near_trans, assumption) simp

lemma cfi_set_address: "cfi_set s b r w v = Inr s' \<Longrightarrow> cs_addr s' = b"
  by (auto simp: cfi_set_def res_iff)

definition jumping :: "dwarf_cfa \<Rightarrow> bool" where
  "jumping opc \<longleftrightarrow> opc \<in> {DW_CFA_def_cfa_expression, DW_CFA_expression, DW_CFA_val_expression,
     DW_CFA_set_loc}"

lemma misc_near: "cfi_misc env opc s = Inr s' \<Longrightarrow> near (cs_addr s) 20 (cs_addr s')"
  by (cases opc) (auto simp: cfi_misc_def res_iff dest!: near_read intro: near_10)

lemma expr_near: "cfi_expr env opc s = Inr s' \<Longrightarrow> \<not> jumping opc \<Longrightarrow> near (cs_addr s) 20 (cs_addr s')"
  by (cases opc) (auto simp: cfi_expr_def Let_def misc_near jumping_def)

lemma def_cfa_near:
  "cfi_def_cfa env opc s = Inr s' \<Longrightarrow> \<not> jumping opc \<Longrightarrow> near (cs_addr s) 20 (cs_addr s')"
  by (cases opc) (auto simp: cfi_def_cfa_def Let_def expr_near cfi_set_cfa_off_def res_iff
      dest!: near_read cfi_set_address intro: near_10 near_10_10)

lemma remember_near:
  "cfi_remember env opc s = Inr s' \<Longrightarrow> \<not> jumping opc \<Longrightarrow> near (cs_addr s) 20 (cs_addr s')"
  by (cases opc) (auto simp: cfi_remember_def def_cfa_near res_iff)

lemma rule_near:
  "cfi_rule env opc s = Inr s' \<Longrightarrow> \<not> jumping opc \<Longrightarrow> near (cs_addr s) 20 (cs_addr s')"
  by (cases opc) (auto simp: cfi_rule_def Let_def remember_near res_iff
      dest!: near_read cfi_set_address intro: near_10 near_10_10)

lemma restore_reg_address: "cfi_restore_reg s b r = Inr s' \<Longrightarrow> cs_addr s' = b"
  by (auto simp: cfi_restore_reg_def res_iff dest: cfi_set_address split: if_splits)

lemma restore_near:
  "cfi_restore env opc n s = Inr s' \<Longrightarrow> \<not> jumping opc \<Longrightarrow> near (cs_addr s) 20 (cs_addr s')"
  by (cases opc) (auto simp: cfi_restore_def rule_near res_iff jumping_def
      dest!: near_read restore_reg_address intro: near_10)

lemma offset_near:
  "cfi_offset env opc n s = Inr s' \<Longrightarrow> \<not> jumping opc \<Longrightarrow> near (cs_addr s) 20 (cs_addr s')"
  by (cases opc) (auto simp: cfi_offset_def Let_def restore_near res_iff
      dest!: near_read cfi_set_address intro: near_10 near_10_10 split: if_splits)

lemma advance_near:
  "cfi_advance env opc n s = Inr s' \<Longrightarrow> \<not> jumping opc \<Longrightarrow> near (cs_addr s) 20 (cs_addr s')"
  by (cases opc) (auto simp: cfi_advance_def Let_def offset_near res_iff
      dest!: near_read intro: near_10)

text \<open>The bytes that encode the jumping opcodes.\<close>

lemma jumping_byte:
  "jumping (dwarf_cfa_of b) \<longleftrightarrow> b \<in> {0x01, 0x0f, 0x10, 0x16}"
  by (auto simp: jumping_def dwarf_cfa_of_def split: if_splits)

lemma step_near:
  assumes "cfi_step env s = Inr s'"
    and "as_byte (ce_as env) (cs_addr s) \<notin> Some ` {0x01, 0x0f, 0x10, 0x16}"
  shows "near (cs_addr s + 1) 20 (cs_addr s')"
proof -
  obtain b where b: "as_byte (ce_as env) (cs_addr s) = Some b"
    using assms(1) remote.rd_None [of "ce_as env" "cs_addr s"]
    by (cases "as_byte (ce_as env) (cs_addr s)") (auto simp: cfi_step_def)
  define opb where "opb = (if b AND 0xc0 \<noteq> 0 then b AND NOT 0x3f else b)"
  have "cfi_step env s = cfi_advance env (dwarf_cfa_of opb)
      (if b AND 0xc0 \<noteq> 0 then ucast (b AND 0x3f) else 0) (s\<lparr>cs_addr := cs_addr s + 1\<rparr>)"
    using b by (simp add: cfi_step_def remote.rd_Some opb_def)
  moreover have "\<not> jumping (dwarf_cfa_of opb)"
  proof (cases "b AND 0xc0 = 0")
    case True
    with b assms(2) show ?thesis by (auto simp: jumping_byte opb_def)
  next
    case False
    then have o: "opb = b AND NOT 0x3f" by (simp add: opb_def)
    have "opb AND 0x3f = 0" unfolding o by (simp add: and.assoc)
    then have "opb \<notin> {0x01, 0x0f, 0x10, 0x16}" by auto
    then show ?thesis by (simp add: jumping_byte)
  qed
  ultimately show ?thesis
    using assms(1) advance_near [where s = "s\<lparr>cs_addr := cs_addr s + 1\<rparr>"] by simp
qed

section \<open>Expression blocks\<close>

text \<open>The end of the expression block of the instruction at an address.\<close>

definition block_end :: "addr_space \<Rightarrow> unw_word \<Rightarrow> nat res" where
  "block_end as a =
     rbind (if as_byte as a = Some 0x0f then Inr (a + 1)
            else rbind (read_regnum as (a + 1)) (\<lambda>(regnum, a). Inr a)) (\<lambda>a.
     rbind (dwarf_read_uleb128 as a) (\<lambda>(len, a). Inr (unat a + unat len)))"

text \<open>An instruction that may lead back: \<open>DW_CFA_set_loc\<close>, or a block that wraps around.\<close>

definition may_lead_back :: "addr_space \<Rightarrow> unw_word \<Rightarrow> bool" where
  "may_lead_back as a \<longleftrightarrow> as_byte as a = Some 0x01
     \<or> as_byte as a \<in> {Some 0x0f, Some 0x10, Some 0x16} \<and> (\<exists>n. block_end as a = Inr n \<and> 2 ^ 64 \<le> n)"

text \<open>The states with which the loop comes to an instruction or to its end.\<close>

inductive cfi_comes_to :: "cfi_env \<Rightarrow> unw_word \<Rightarrow> unw_word \<Rightarrow> cfi_state \<Rightarrow> cfi_state \<Rightarrow> bool" for env pc ea s where
  come_start: "cfi_comes_to env pc ea s s"
| come_next: "cfi_comes_to env pc ea s t \<Longrightarrow> cs_ip t \<le> pc \<Longrightarrow> cs_addr t < ea \<Longrightarrow> cfi_step env t = Inr t'
    \<Longrightarrow> cfi_comes_to env pc ea s t'"

lemma comes_after_step:
  assumes "cfi_comes_to env pc ea s' t" "cs_ip s \<le> pc" "cs_addr s < ea" "cfi_step env s = Inr s'"
  shows "cfi_comes_to env pc ea s t"
  using assms(1)
proof induction
  case come_start
  show ?case by (rule come_next [OF cfi_comes_to.come_start assms(2-4)])
qed (blast intro: come_next)

lemma block_byte: "b \<in> {0x0f, 0x10, 0x16} \<Longrightarrow> b AND 0xc0 = (0 :: 8 word)"
  by auto

text \<open>An instruction with a block leads to its end.\<close>

lemma block_step:
  assumes "cfi_step env s = Inr s'" "as_byte (ce_as env) (cs_addr s) \<in> {Some 0x0f, Some 0x10, Some 0x16}"
    "\<not> may_lead_back (ce_as env) (cs_addr s)"
  shows "\<exists>k l. k \<le> 20 \<and> unat (cs_addr s + 1 + word_of_nat k) + l < 2 ^ 64
    \<and> cs_addr s' = cs_addr s + 1 + word_of_nat k + word_of_nat l"
proof -
  obtain b where b: "as_byte (ce_as env) (cs_addr s) = Some b" "b \<in> {0x0f, 0x10, 0x16}"
    using assms(2) by auto
  have "cfi_step env s = cfi_advance env (dwarf_cfa_of b) 0 (s\<lparr>cs_addr := cs_addr s + 1\<rparr>)"
    using b(1) block_byte [OF b(2)] by (simp add: cfi_step_def remote.rd_Some)
  moreover have "dwarf_cfa_of b \<in> {DW_CFA_def_cfa_expression, DW_CFA_expression, DW_CFA_val_expression}"
    using b(2) by (auto simp: dwarf_cfa_of_def)
  ultimately have run: "cfi_expr env (dwarf_cfa_of b) (s\<lparr>cs_addr := cs_addr s + 1\<rparr>) = Inr s'"
    using assms(1) by (auto simp: cfi_advance_def cfi_offset_def cfi_restore_def cfi_rule_def cfi_remember_def
        cfi_def_cfa_def Let_def)
  obtain a len a2 where a: "near (cs_addr s + 1) 10 a" "dwarf_read_uleb128 (ce_as env) a = Inr (len, a2)"
      "cs_addr s' = a2 + len" "block_end (ce_as env) (cs_addr s) = Inr (unat a2 + unat len)"
  proof (cases "b = 0x0f")
    case True
    then show thesis using run b(1) that [of "cs_addr s + 1"]
      by (auto simp: cfi_expr_def dwarf_cfa_of_def Let_def res_iff block_end_def dest!: cfi_set_address)
  next
    case False
    then have "\<exists>n a len a2. read_regnum (ce_as env) (cs_addr s + 1) = Inr (n, a)
        \<and> dwarf_read_uleb128 (ce_as env) a = Inr (len, a2) \<and> cs_addr s' = a2 + len"
      using run b by (auto simp: cfi_expr_def dwarf_cfa_of_def Let_def res_iff dest!: cfi_set_address)
    then show thesis using b False by (auto simp: block_end_def dest: near_read(6) intro: that)
  qed
  obtain k where k: "k \<le> 20" "a2 = cs_addr s + 1 + word_of_nat k"
    using near_10_10 [OF a(1) near_read(4) [OF a(2)]] by (auto simp: near_def)
  have "unat a2 + unat len < 2 ^ 64"
    using assms(2,3) a(4) by (auto simp: may_lead_back_def not_le)
  then show ?thesis using k a(3) by (intro exI [of _ k] exI [of _ "unat len"]) simp
qed

lemma cfi_loop_terminates:
  assumes "unat ea + 32 < 2 ^ 64"
    and "\<And>t. cfi_comes_to env pc ea s t \<Longrightarrow> cs_ip t \<le> pc \<Longrightarrow> cs_addr t < ea \<Longrightarrow> \<not> may_lead_back (ce_as env) (cs_addr t)"
  shows "\<exists>r. cfi_loop env pc ea s = Some r"
  using assms(2)
proof (induction "unat ea - unat (cs_addr s)" arbitrary: s rule: less_induct)
  case less
  show ?case
  proof (cases "cs_ip s \<le> pc \<and> cs_addr s < ea")
    case False
    then show ?thesis by (subst cfi_loop.simps) (simp only: if_False, blast)
  next
    case True
    then have a: "unat (cs_addr s) < unat ea" by (simp add: word_less_nat_alt)
    have forward: "\<not> may_lead_back (ce_as env) (cs_addr s)" using less.prems [OF come_start] True by blast
    show ?thesis
    proof (cases "cfi_step env s")
      case (Inl f)
      with True show ?thesis by (simp add: cfi_loop.simps [of env pc ea s])
    next
      case (Inr s')
      obtain k l where k: "k \<le> 20" "unat (cs_addr s + 1 + word_of_nat k) + l < 2 ^ 64"
          "cs_addr s' = cs_addr s + 1 + word_of_nat k + word_of_nat l"
      proof (cases "as_byte (ce_as env) (cs_addr s) \<in> {Some 0x0f, Some 0x10, Some 0x16}")
        case block: True
        then show thesis using block_step [OF Inr _ forward] that by blast
      next
        case False
        then have "as_byte (ce_as env) (cs_addr s) \<notin> Some ` {0x01, 0x0f, 0x10, 0x16}"
          using forward by (auto simp: may_lead_back_def)
        from step_near [OF Inr this] obtain k where k: "k \<le> 20" "cs_addr s' = cs_addr s + 1 + word_of_nat k"
          by (auto simp: near_def)
        moreover have "unat (cs_addr s + 1 + word_of_nat k) + 0 < 2 ^ 64"
          using unsigned_less [of "cs_addr s + 1 + word_of_nat k", where ?'a = nat] by simp
        ultimately show thesis using that [of k 0] by simp
      qed
      have "unat (cs_addr s + word_of_nat (1 + k)) = unat (cs_addr s) + (1 + k)"
        using k(1) a assms(1) by (intro word_add_of_nat_less) simp
      moreover have "cs_addr s + word_of_nat (1 + k) = cs_addr s + 1 + word_of_nat k" by (simp add: add.assoc)
      moreover have "unat (cs_addr s') = unat (cs_addr s + 1 + word_of_nat k) + l"
        unfolding k(3) using k(2) by (intro word_add_of_nat_less) simp
      ultimately have a': "unat (cs_addr s') = unat (cs_addr s) + (1 + k) + l" by (simp only:)
      have "\<exists>r. cfi_loop env pc ea s' = Some r"
      proof (rule less.hyps)
        show "unat ea - unat (cs_addr s') < unat ea - unat (cs_addr s)" using a' a by simp
        fix t assume "cfi_comes_to env pc ea s' t" "cs_ip t \<le> pc" "cs_addr t < ea"
        then show "\<not> may_lead_back (ce_as env) (cs_addr t)"
          using less.prems comes_after_step [OF _ _ _ Inr] True by blast
      qed
      with True Inr show ?thesis by (simp add: cfi_loop.simps [of env pc ea s])
    qed
  qed
qed

end
