(* ===== verification/CfiRows.thy ===== *)
theory CfiRows
  imports CfiTable CfiTermination
begin

text \<open>
  The programs of a CIE and an FDE as encoded lists of instructions, and the row that the
  interpreter computes from them: the refinement of the table machine for whole programs.
\<close>

text \<open>A program stored in memory between two addresses.\<close>

definition program_at :: "addr_space \<Rightarrow> unw_word \<Rightarrow> unw_word \<Rightarrow> insn list \<Rightarrow> bool" where
  "program_at as a e is \<longleftrightarrow> list_all valid_insn is \<and> bytes_at (as_byte as) a (encode_insns is)
     \<and> unat a + length (encode_insns is) = unat e"

definition cie_env :: "dwarf_cie_info \<Rightarrow> row \<Rightarrow> table_env" where
  "cie_env dci initial = \<lparr>te_code = code_align dci, te_data = data_align dci, te_initial = initial\<rparr>"

lemma run_program:
  assumes "program_at (c_as c) a ea is" and "wf_sr sr" and "\<not> pi_debug_frame (c_pi c)"
    and "\<forall>n. alloc n"
    and "run_insns (cie_env dci (row_of (rs_initial sr))) pc is
           \<lparr>t_loc = ip, t_row = row_of (rs_current sr), t_saved = []\<rparr> = Inr t"
  shows "\<exists>sr'. run_cfi_program local_as alloc c dci sr ip pc a ea = Inr sr' \<and> wf_sr sr'
    \<and> row_of (rs_current sr') = t_row t"
proof -
  let ?env = "\<lparr>ce_as = c_as c, ce_pi = c_pi c, ce_dci = dci, ce_alloc = alloc\<rparr>"
  let ?s = "\<lparr>cs_sr = sr, cs_ip = ip, cs_addr = a, cs_stack = [], cs_allocs = 0\<rparr>"
  have "\<exists>s'. cfi_loop ?env pc ea ?s = Some (Inr s') \<and> cfi_abs s' = t \<and> wf_cs s'"
    using loop_refines [of ?s ?env "cie_env dci (row_of (rs_initial sr))" "is" ea pc] assms
    by (simp add: program_at_def wf_cs_def env_rel_def cie_env_def cfi_abs_def)
  then show ?thesis
    using assms(3) by (auto simp: run_cfi_program_def Let_def cfi_abs_def wf_cs_def)
qed

lemma wf_default [simp]: "wf_rs default_reg_state" "wf_rs zero_reg_state"
  by (simp_all add: wf_rs_def default_reg_state_def zero_reg_state_def)

lemma row_of_column [simp]: "row_of (rs\<lparr>ret_addr_column := r\<rparr>) = row_of rs"
  by (simp add: row_of_def)

lemma fde_row:
  assumes "c_pi_valid c" and "pi_unwind_info (c_pi c) = Some dci" and "\<not> pi_debug_frame (c_pi c)"
    and "\<forall>n. alloc n"
    and "program_at (c_as c) (cie_instr_start dci) (cie_instr_end dci) ci"
    and "program_at (c_as c) (fde_instr_start dci) (fde_instr_end dci) fi"
    and "run_insns (cie_env dci (row_of zero_reg_state)) (- 1) ci
           \<lparr>t_loc = 0, t_row = row_of default_reg_state, t_saved = []\<rparr> = Inr t0"
    and "run_insns (cie_env dci (t_row t0)) (ip - (if c_use_prev_instr c then 1 else 0)) fi
           \<lparr>t_loc = pi_start_ip (c_pi c), t_row = t_row t0, t_saved = []\<rparr> = Inr t"
  shows "\<exists>sr. rbind (setup_fde local_as alloc c) (parse_fde local_as alloc c ip) = Inr sr
    \<and> wf_sr sr \<and> row_of (rs_current sr) = t_row t"
proof -
  let ?sr = "\<lparr>args_size = 0, rs_initial = zero_reg_state,
    rs_current = default_reg_state\<lparr>ret_addr_column := cie_ret_addr_column dci\<rparr>\<rparr>"
  have wf: "wf_sr ?sr" by (simp add: wf_sr_def wf_rs_def default_reg_state_def zero_reg_state_def)
  obtain sr0 where sr0: "run_cfi_program local_as alloc c dci ?sr 0 (- 1) (cie_instr_start dci)
      (cie_instr_end dci) = Inr sr0" "wf_sr sr0" "row_of (rs_current sr0) = t_row t0"
    using run_program [OF assms(5) wf assms(3,4)] assms(7) by fastforce
  let ?sr1 = "sr0\<lparr>rs_initial := rs_current sr0\<rparr>"
  have cie_run: "setup_fde local_as alloc c = Inr ?sr1"
    using assms(1,2) sr0(1) by (simp add: setup_fde_def cursor_dci_def Let_def)
  have "wf_sr ?sr1" using sr0(2) by (simp add: wf_sr_def)
  note run = run_program [OF assms(6) this assms(3,4)]
  from run assms(8) sr0(3)
  obtain sr where "run_cfi_program local_as alloc c dci ?sr1 (pi_start_ip (c_pi c))
      (ip - (if c_use_prev_instr c then 1 else 0)) (fde_instr_start dci) (fde_instr_end dci) = Inr sr"
    "wf_sr sr" "row_of (rs_current sr) = t_row t" by fastforce
  with cie_run assms(2) show ?thesis by (simp add: parse_fde_def cursor_dci_def)
qed

end
