(* ===== verification/CfiProps.thy ===== *)
theory CfiProps
  imports CfiRows Ram
begin

text \<open>The properties of the call-frame interpreter of \<open>src/dwarf/Gparser.c\<close>, each with an instance.\<close>

section \<open>The computed row\<close>

text \<open>C5. For a CIE and an FDE whose instruction bytes encode two programs, \<open>setup_fde\<close>
  followed by \<open>parse_fde\<close> computes the row that the table machine of the DWARF standard has
  for the instruction pointer: defaults, then the CIE program, then the FDE program up to
  the pointer (less one in a call frame), with the rules of the CIE for restores.\<close>

theorem fde_row_correct:
  assumes "c_pi_valid c" and "pi_unwind_info (c_pi c) = Some dci" and "\<not> pi_debug_frame (c_pi c)"
    and "\<forall>n. alloc n"
    and "program_at (c_as c) (cie_instr_start dci) (cie_instr_end dci) ci"
    and "program_at (c_as c) (fde_instr_start dci) (fde_instr_end dci) fi"
    and "run_insns (cie_env dci (row_of zero_reg_state)) (- 1) ci
           \<lparr>t_loc = 0, t_row = row_of default_reg_state, t_saved = []\<rparr> = Inr t0"
    and "run_insns (cie_env dci (t_row t0)) (ip - (if c_use_prev_instr c then 1 else 0)) fi
           \<lparr>t_loc = pi_start_ip (c_pi c), t_row = t_row t0, t_saved = []\<rparr> = Inr t"
  shows "\<exists>sr. rbind (setup_fde local_as alloc c) (parse_fde local_as alloc c ip) = Inr sr
    \<and> wf_sr sr \<and> row_of (rs_current sr) = t_row t"
  by (rule fde_row [OF assms])

text \<open>A function that pushes its frame pointer: the row behind the \<open>push\<close>.\<close>

definition sample_cie :: "insn list" where
  "sample_cie = [Def_cfa 7 8, Offset 16 1]"

definition sample_fde :: "insn list" where
  "sample_fde = [Advance 1, Def_cfa_offset 16, Offset 6 2, Advance 3, Def_cfa_register 6]"

definition sample_dci :: dwarf_cie_info where
  "sample_dci = zero_cie\<lparr>cie_instr_start := 0x100,
     cie_instr_end := 0x105, fde_instr_start := 0x105, fde_instr_end := 0x10d,
     code_align := 1, data_align := - 8\<rparr>"

definition sample_cursor :: cursor where
  "sample_cursor = (blank_cursor (ram (bytes_from 0x100 (encode_insns (sample_cie @ sample_fde)))))
     \<lparr>c_pi_valid := True, c_pi := zero_pi\<lparr>pi_start_ip := 0x4000, pi_unwind_info := Some sample_dci\<rparr>\<rparr>"

lemma sample_programs:
  "program_at (c_as sample_cursor) 0x100 0x105 sample_cie"
  "program_at (c_as sample_cursor) 0x105 0x10d sample_fde"
  by (simp_all add: program_at_def sample_cursor_def sample_cie_def sample_fde_def
      uleb_encode.simps bytes_from_def blank_cursor_def)

theorem fde_row_correct_witness:
  "\<exists>sr. rbind (setup_fde (ram (\<lambda>_. 0)) (\<lambda>_. True) sample_cursor)
        (parse_fde (ram (\<lambda>_. 0)) (\<lambda>_. True) sample_cursor 0x4002) = Inr sr
    \<and> row_of (rs_current sr) DWARF_CFA_REG_COLUMN = (DWARF_WHERE_REG, 7)
    \<and> row_of (rs_current sr) DWARF_CFA_OFF_COLUMN = (DWARF_WHERE_UNDEF, 16)
    \<and> row_of (rs_current sr) 6 = (DWARF_WHERE_CFAREL, - 16)
    \<and> row_of (rs_current sr) 16 = (DWARF_WHERE_CFAREL, - 8)"
  using fde_row_correct [of sample_cursor sample_dci "\<lambda>_. True" sample_cie sample_fde _ "0x4002" _
      "ram (\<lambda>_. 0)"] sample_programs
  by (fastforce simp: sample_cursor_def sample_dci_def sample_cie_def sample_fde_def zero_pi_def
      rule_def cie_env_def blank_cursor_def)

text \<open>A remembered state that is restored after rules and CFA definitions leaves the rows
  as they were: such a block of instructions, wherever it stands, has no effect on the
  register rules.\<close>

lemma remember_restore_neutral:
  assumes "program_at (c_as c) a ea (Remember # is @ [Restore_state])" and "list_all plain_insn is"
    and "wf_sr sr" and "\<not> pi_debug_frame (c_pi c)" and "\<forall>n. alloc n"
  shows "\<exists>sr'. run_cfi_program local_as alloc c dci sr ip pc a ea = Inr sr'
    \<and> row_of (rs_current sr') = row_of (rs_current sr)"
  using run_program [OF assms(1,3-5) run_remember_restore [OF assms(2)]] by fastforce

lemma remember_restore_neutral_witness:
  "\<exists>sr'. run_cfi_program (ram (\<lambda>_. 0)) (\<lambda>_. True)
      (blank_cursor (ram (bytes_from 0x100 [0x0a, 0x0e, 0x20, 0x0b]))) zero_cie
      \<lparr>args_size = 0, rs_initial = zero_reg_state, rs_current = default_reg_state\<rparr> 0 0 0x100 0x104
      = Inr sr'
    \<and> row_of (rs_current sr') = row_of default_reg_state"
  using remember_restore_neutral [of "blank_cursor (ram (bytes_from 0x100 [0x0a, 0x0e, 0x20, 0x0b]))"
      "0x100" "0x104" "[Def_cfa_offset 32]"
      "\<lparr>args_size = 0, rs_initial = zero_reg_state, rs_current = default_reg_state\<rparr>" "\<lambda>_. True"
      "ram (\<lambda>_. 0)" zero_cie 0 0]
  by (simp add: program_at_def uleb_encode.simps bytes_from_def wf_sr_def blank_cursor_def zero_pi_def)

section \<open>Safety\<close>

text \<open>C29. Whatever bytes a call-frame program consists of, running it over well-formed register
  states never accesses them out of bounds, and leaves them well-formed.\<close>

theorem run_cfi_program_safe:
  assumes "wf_sr sr"
  shows "case run_cfi_program local_as alloc c dci sr ip pc a ea of
      Inl f \<Rightarrow> f \<noteq> Out_of_bounds
    | Inr sr' \<Rightarrow> wf_sr sr'"
proof -
  let ?env = "\<lparr>ce_as = (if pi_debug_frame (c_pi c) then local_as else c_as c), ce_pi = c_pi c,
    ce_dci = dci, ce_alloc = alloc\<rparr>"
  let ?s = "\<lparr>cs_sr = sr, cs_ip = ip, cs_addr = a, cs_stack = [], cs_allocs = 0\<rparr>"
  have wf: "wf_cs ?s" using assms by (simp add: wf_cs_def)
  show ?thesis
  proof (cases "cfi_loop ?env pc ea ?s")
    case None
    then show ?thesis by (simp add: run_cfi_program_def Let_def)
  next
    case (Some r)
    from loop_safe [OF this wf] Some show ?thesis
      by (cases r) (auto simp: run_cfi_program_def Let_def wf_cs_def)
  qed
qed

theorem run_cfi_program_safe_witness:
  "case run_cfi_program (ram (\<lambda>_. 0)) (\<lambda>_. False) (blank_cursor (ram (\<lambda>_. 0x0a))) zero_cie
      \<lparr>args_size = 0, rs_initial = zero_reg_state, rs_current = default_reg_state\<rparr> 0 0 0 100 of
      Inl f \<Rightarrow> f \<noteq> Out_of_bounds
    | Inr sr' \<Rightarrow> wf_sr sr'"
  by (rule run_cfi_program_safe) (simp add: wf_sr_def)

text \<open>The switch over call-frame opcodes has no default: a byte below \<open>0x40\<close> that the
  enumeration does not list is skipped like a no-op, and what the producer meant as its
  operands is executed as instructions. The standard's \<open>DW_CFA_val_offset\<close> (\<open>0x14\<close>) is one.\<close>

lemma unlisted_opcode_skipped:
  assumes "as_byte (ce_as env) (cs_addr s) = Some b" and "b < 0x40"
    and "dwarf_cfa_of b = DW_CFA_unlisted b"
  shows "cfi_step env s = Inr (s\<lparr>cs_addr := cs_addr s + 1\<rparr>)"
proof -
  have "b AND 0xc0 = 0"
  proof -
    have "bit b k \<Longrightarrow> k < 6" for k
    proof -
      assume "bit b k"
      have "unat b < 2 ^ 6" using assms(2) by (simp add: word_less_nat_alt)
      then have "take_bit 6 (unat b) = unat b" by (simp add: take_bit_nat_eq_self)
      moreover have "bit (unat b) k" using \<open>bit b k\<close> by (simp add: bit_unsigned_iff)
      ultimately show "k < 6" by (metis bit_take_bit_iff)
    qed
    moreover have c: "(0xc0 :: 8 word) = NOT (mask 6)" by (simp add: mask_eq_exp_minus_1)
    ultimately show ?thesis unfolding c by (intro bit_word_eqI) (auto simp: bit_simps)
  qed
  with assms(1,3) show ?thesis by (simp add: step_extended insn_defs Let_def)
qed

lemma unlisted_opcode_skipped_witness:
  "cfi_step \<lparr>ce_as = ram (\<lambda>_. 0x14), ce_pi = zero_pi, ce_dci = zero_cie, ce_alloc = (\<lambda>_. True)\<rparr>
     \<lparr>cs_sr = \<lparr>args_size = 0, rs_initial = zero_reg_state, rs_current = default_reg_state\<rparr>,
       cs_ip = 0, cs_addr = 8, cs_stack = [], cs_allocs = 0\<rparr>
   = Inr \<lparr>cs_sr = \<lparr>args_size = 0, rs_initial = zero_reg_state, rs_current = default_reg_state\<rparr>,
       cs_ip = 0, cs_addr = 9, cs_stack = [], cs_allocs = 0\<rparr>"
  using unlisted_opcode_skipped [of "\<lparr>ce_as = ram (\<lambda>_. 0x14), ce_pi = zero_pi, ce_dci = zero_cie,
      ce_alloc = (\<lambda>_. True)\<rparr>" "\<lparr>cs_sr = \<lparr>args_size = 0, rs_initial = zero_reg_state,
      rs_current = default_reg_state\<rparr>, cs_ip = 0, cs_addr = 8, cs_stack = [], cs_allocs = 0\<rparr>" "0x14"]
  by (simp add: dwarf_cfa_of_def)

section \<open>Termination\<close>

text \<open>C31. A call-frame program ends that comes to no \<open>DW_CFA_set_loc\<close> and to no expression block whose
  length reaches beyond the end of the address space, whatever else it contains.\<close>

theorem cfi_program_terminates:
  assumes "unat ea + 32 < 2 ^ 64"
    and "\<forall>t. cfi_comes_to env pc ea s t \<longrightarrow> cs_ip t \<le> pc \<longrightarrow> cs_addr t < ea \<longrightarrow> \<not> may_lead_back (ce_as env) (cs_addr t)"
  shows "\<exists>r. cfi_loop env pc ea s = Some r"
  using cfi_loop_terminates [OF assms(1)] assms(2) by blast

text \<open>
  A program that sets the CFA by an expression block of two bytes and its offset to 16, whose operand is
  the code of a rule by expression.
\<close>

definition block_program :: "8 word list" where
  "block_program = [0x0f, 2, 0x77, 8, 0x0e, 0x10]"

lemma block_program_comes_to:
  assumes "cfi_comes_to \<lparr>ce_as = ram (bytes_from 0 block_program), ce_pi = zero_pi, ce_dci = zero_cie, ce_alloc = (\<lambda>_. True)\<rparr>
     pc 6 s t" "cs_addr s = 0"
  shows "cs_addr t \<in> {0, 4, 6}"
  using assms(1)
proof induction
  case come_start
  then show ?case using assms(2) by simp
next
  case (come_next t t')
  let ?env = "\<lparr>ce_as = ram (bytes_from 0 block_program), ce_pi = zero_pi, ce_dci = zero_cie, ce_alloc = (\<lambda>_. True)\<rparr>"
  have bytes: "as_byte (ce_as ?env) a = Some (bytes_from 0 block_program a)" for a by simp
  have lens: "dwarf_read_uleb128 (ram (bytes_from 0 block_program)) 1 = Inr (2, 2)"
    "dwarf_read_uleb128 (ram (bytes_from 0 block_program)) 5 = Inr (0x10, 6)"
    using reads_uleb [of "ram (bytes_from 0 block_program)" 1 2] reads_uleb [of "ram (bytes_from 0 block_program)" 5 "0x10"]
    by (simp_all add: uleb_encode.simps bytes_from_def block_program_def)
  from come_next.IH come_next.hyps(3) consider "cs_addr t = 0" | "cs_addr t = 4" by auto
  then show ?case
  proof cases
    case 1
    have "cfi_step ?env t = cfi_advance ?env DW_CFA_def_cfa_expression 0 (t\<lparr>cs_addr := cs_addr t + 1\<rparr>)"
      using 1 by (intro step_extended [of _ _ "0x0f"]) (simp_all add: block_program_def bytes_from_def dwarf_cfa_of_def)
    then have "cfi_advance ?env DW_CFA_def_cfa_expression 0 (t\<lparr>cs_addr := cs_addr t + 1\<rparr>) = Inr t'"
      using come_next.hyps(4) by simp
    then show ?thesis using lens 1 by (auto simp: insn_defs Let_def res_iff dest!: cfi_set_address)
  next
    case 2
    have "cfi_step ?env t = cfi_advance ?env DW_CFA_def_cfa_offset 0 (t\<lparr>cs_addr := cs_addr t + 1\<rparr>)"
      using 2 by (intro step_extended [of _ _ "0x0e"]) (simp_all add: block_program_def bytes_from_def dwarf_cfa_of_def)
    then have "cfi_advance ?env DW_CFA_def_cfa_offset 0 (t\<lparr>cs_addr := cs_addr t + 1\<rparr>) = Inr t'"
      using come_next.hyps(4) by simp
    then show ?thesis using lens 2 by (auto simp: insn_defs Let_def res_iff dest!: cfi_set_address)
  qed
qed

theorem cfi_program_terminates_witness:
  "\<exists>r. cfi_loop \<lparr>ce_as = ram (bytes_from 0 block_program), ce_pi = zero_pi, ce_dci = zero_cie, ce_alloc = (\<lambda>_. True)\<rparr>
     0 6 \<lparr>cs_sr = \<lparr>args_size = 0, rs_initial = zero_reg_state, rs_current = default_reg_state\<rparr>,
       cs_ip = 0, cs_addr = 0, cs_stack = [], cs_allocs = 0\<rparr> = Some r"
proof (rule cfi_program_terminates; (intro allI impI)?)
  let ?as = "ram (bytes_from 0 block_program)"
  have "dwarf_read_uleb128 ?as 1 = Inr (2, 2)"
    using reads_uleb [of ?as 1 2] by (simp add: uleb_encode.simps bytes_from_def block_program_def)
  then have "\<not> may_lead_back ?as 0" "\<not> may_lead_back ?as 4"
    by (simp_all add: may_lead_back_def block_end_def block_program_def bytes_from_def)
  moreover fix t
  assume "cfi_comes_to \<lparr>ce_as = ?as, ce_pi = zero_pi, ce_dci = zero_cie, ce_alloc = (\<lambda>_. True)\<rparr> 0 6
      \<lparr>cs_sr = \<lparr>args_size = 0, rs_initial = zero_reg_state, rs_current = default_reg_state\<rparr>,
       cs_ip = 0, cs_addr = 0, cs_stack = [], cs_allocs = 0\<rparr> t" "cs_addr t < 6"
  then have "cs_addr t = 0 \<or> cs_addr t = 4" using block_program_comes_to by fastforce
  ultimately show "\<not> may_lead_back (ce_as \<lparr>ce_as = ?as, ce_pi = zero_pi, ce_dci = zero_cie, ce_alloc = (\<lambda>_. True)\<rparr>) (cs_addr t)"
    by auto
qed simp

text \<open>C38. The length of an expression block is added to the program address without a check:
  a block length of minus eleven makes \<open>run_cfi_program\<close> execute the same
  \<open>DW_CFA_def_cfa_expression\<close> for ever.\<close>

theorem run_cfi_program_may_diverge:
  assumes "bytes_at (as_byte (c_as c)) a (0x0f # uleb_encode (2 ^ 64 - 11))"
    and "\<not> pi_debug_frame (c_pi c)" and "wf_sr sr" and "ip \<le> pc" and "a < ea"
  shows "run_cfi_program local_as alloc c dci sr ip pc a ea = Inl Diverged"
proof -
  let ?env = "\<lparr>ce_as = c_as c, ce_pi = c_pi c, ce_dci = dci, ce_alloc = alloc\<rparr>"
  have len: "length (uleb_encode (2 ^ 64 - 11)) = 10" by (simp add: uleb_encode.simps)
  have "dwarf_read_uleb128 (c_as c) (a + 1) = Inr (- 11, a + 11)"
    using reads_uleb [of "c_as c" "a + 1" "2 ^ 64 - 11"] assms(1) len by (simp add: add.assoc)
  then have step: "\<exists>s'. cfi_step ?env s = Inr s' \<and> cs_addr s' = a \<and> cs_ip s' = cs_ip s \<and> wf_cs s'"
    if "wf_cs s" "cs_addr s = a" for s
    using that assms(1) step_extended [of ?env s "0x0f" DW_CFA_def_cfa_expression]
      step_safe [OF that(1), of ?env]
    by (auto simp: dwarf_cfa_of_def insn_defs Let_def cfi_set_wf)
  have never: False if "cfi_loop env' p e s = Some r" "env' = ?env" "p = pc" "e = ea" "wf_cs s"
    "cs_addr s = a" "cs_ip s = ip" for env' p e s r
    using that
  proof (induction rule: cfi_loop.raw_induct [rotated, consumes 1])
    case (1 loop env' p e s r)
    then show ?case using step [of s] assms(4,5) by auto
  qed
  let ?s = "\<lparr>cs_sr = sr, cs_ip = ip, cs_addr = a, cs_stack = [], cs_allocs = 0\<rparr>"
  have "cfi_loop ?env pc ea ?s = None"
    using never [of ?env pc ea ?s] assms(3) by (cases "cfi_loop ?env pc ea ?s") (auto simp: wf_cs_def)
  with assms(2) show ?thesis by (simp add: run_cfi_program_def Let_def)
qed

theorem run_cfi_program_may_diverge_witness:
  "run_cfi_program (ram (\<lambda>_. 0)) (\<lambda>_. True)
     (blank_cursor (ram (bytes_from 0x100 (0x0f # uleb_encode (2 ^ 64 - 11))))) zero_cie
     \<lparr>args_size = 0, rs_initial = zero_reg_state, rs_current = default_reg_state\<rparr> 0 0 0x100 0x110
   = Inl Diverged"
  by (rule run_cfi_program_may_diverge)
    (simp_all add: blank_cursor_def zero_pi_def wf_sr_def uleb_encode.simps bytes_from_def)

end
