(* ===== verification/RsCache.thy ===== *)
theory RsCache
  imports X86_64
begin

text \<open>
  The register-state cache of \<open>include/dwarf.h\<close> and \<open>src/dwarf/Gparser.c\<close>: the structure
  \<open>dwarf_rs_cache\<close>, \<open>dwarf_flush_rs_cache\<close>, \<open>get_rs_cache\<close>, \<open>put_rs_cache\<close>, \<open>hash\<close>,
  \<open>cache_match\<close>, \<open>rs_lookup\<close> and \<open>rs_new\<close>, in the build with a global cache, and the calls that
  configure it: \<open>unw_flush_cache\<close>, \<open>unw_set_cache_size\<close> and \<open>unw_set_caching_policy\<close> of
  \<open>src/mi\<close>.
\<close>

section \<open>State\<close>

text \<open>
  A pointer of the cache: null, the array inside the structure (whose contents have a member
  of their own), or a mapping obtained from the system, with its contents.
\<close>

datatype 'a block = Null | Default | Mapped "'a list"

record rs_entry =
  re_ip :: unw_word
  re_coll_chain :: "16 word"
  re_hint :: "16 word"
  re_valid :: bool
  re_signal_frame :: bool

text \<open>
  \<open>struct dwarf_rs_cache\<close>. \<open>rc_locked\<close> is the state of the mutex. The members \<open>log_size\<close> and
  \<open>prev_log_size\<close> are 16-bit numbers, at most 15.
\<close>

record rs_cache =
  rc_locked :: bool
  rr_head :: "16 word"
  log_size :: nat
  prev_log_size :: nat
  rc_generation :: "32 word"
  rc_hash :: "(16 word) block"
  rc_buckets :: "dwarf_reg_state block"
  rc_links :: "rs_entry block"
  default_hash :: "(16 word) list"
  default_buckets :: "dwarf_reg_state list"
  default_links :: "rs_entry list"

abbreviation (input) DWARF_DEFAULT_LOG_UNW_CACHE_SIZE :: nat where
  "DWARF_DEFAULT_LOG_UNW_CACHE_SIZE \<equiv> 7"

definition DWARF_UNW_CACHE_SIZE :: "nat \<Rightarrow> nat" where
  "DWARF_UNW_CACHE_SIZE l = 2 ^ l"

definition DWARF_UNW_HASH_SIZE :: "nat \<Rightarrow> nat" where
  "DWARF_UNW_HASH_SIZE l = 2 ^ (l + 1)"

text \<open>Zero-filled memory.\<close>

definition zero_entry :: rs_entry where
  "zero_entry = \<lparr>re_ip = 0, re_coll_chain = 0, re_hint = 0, re_valid = False, re_signal_frame = False\<rparr>"

text \<open>The cache of an address space that was just allocated.\<close>

definition zero_cache :: rs_cache where
  "zero_cache = \<lparr>rc_locked = False, rr_head = 0, log_size = 0, prev_log_size = 0, rc_generation = 0,
     rc_hash = Null, rc_buckets = Null, rc_links = Null,
     default_hash = replicate (DWARF_UNW_HASH_SIZE DWARF_DEFAULT_LOG_UNW_CACHE_SIZE) 0,
     default_buckets = replicate (DWARF_UNW_CACHE_SIZE DWARF_DEFAULT_LOG_UNW_CACHE_SIZE) zero_reg_state,
     default_links = replicate (DWARF_UNW_CACHE_SIZE DWARF_DEFAULT_LOG_UNW_CACHE_SIZE) zero_entry\<rparr>"

text \<open>Reading and writing through the three pointers; a null pointer has no elements.\<close>

definition cells :: "'a block \<Rightarrow> 'a list \<Rightarrow> 'a list" where
  "cells b d = (case b of Null \<Rightarrow> [] | Default \<Rightarrow> d | Mapped xs \<Rightarrow> xs)"

definition the_hash :: "rs_cache \<Rightarrow> (16 word) list" where
  "the_hash cache = cells (rc_hash cache) (default_hash cache)"

definition the_links :: "rs_cache \<Rightarrow> rs_entry list" where
  "the_links cache = cells (rc_links cache) (default_links cache)"

definition the_buckets :: "rs_cache \<Rightarrow> dwarf_reg_state list" where
  "the_buckets cache = cells (rc_buckets cache) (default_buckets cache)"

definition with_hash :: "rs_cache \<Rightarrow> (16 word) list \<Rightarrow> rs_cache" where
  "with_hash cache xs = (case rc_hash cache of Null \<Rightarrow> cache
     | Default \<Rightarrow> cache\<lparr>default_hash := xs\<rparr> | Mapped ys \<Rightarrow> cache\<lparr>rc_hash := Mapped xs\<rparr>)"

definition with_links :: "rs_cache \<Rightarrow> rs_entry list \<Rightarrow> rs_cache" where
  "with_links cache xs = (case rc_links cache of Null \<Rightarrow> cache
     | Default \<Rightarrow> cache\<lparr>default_links := xs\<rparr> | Mapped ys \<Rightarrow> cache\<lparr>rc_links := Mapped xs\<rparr>)"

definition with_buckets :: "rs_cache \<Rightarrow> dwarf_reg_state list \<Rightarrow> rs_cache" where
  "with_buckets cache xs = (case rc_buckets cache of Null \<Rightarrow> cache
     | Default \<Rightarrow> cache\<lparr>default_buckets := xs\<rparr> | Mapped ys \<Rightarrow> cache\<lparr>rc_buckets := Mapped xs\<rparr>)"

section \<open>Flushing\<close>

text \<open>
  \<open>munmap\<close> of a number of elements at a pointer, unless it is null or the default array.
  Unmapping more than the mapping holds takes away memory of others.
\<close>

definition munmap_block :: "'a block \<Rightarrow> nat \<Rightarrow> unit res" where
  "munmap_block b n = (case b of Null \<Rightarrow> Inr () | Default \<Rightarrow> Inr ()
     | Mapped xs \<Rightarrow> check (n \<le> length xs) Out_of_bounds)"

text \<open>\<open>GET_MEMORY\<close>: whether the system has memory is a parameter.\<close>

definition GET_MEMORY :: "bool \<Rightarrow> 'a \<Rightarrow> nat \<Rightarrow> 'a block" where
  "GET_MEMORY available z n = (if available then Mapped (replicate n z) else Null)"

text \<open>The loops that empty the entries and the hash table.\<close>

definition clear_entry :: "rs_entry \<Rightarrow> rs_entry" where
  "clear_entry e = e\<lparr>re_coll_chain := - 1, re_ip := 0, re_valid := False\<rparr>"

definition clear_cache :: "rs_cache \<Rightarrow> rs_cache res" where
  "clear_cache cache =
     (let n = DWARF_UNW_CACHE_SIZE (log_size cache); m = DWARF_UNW_HASH_SIZE (log_size cache);
          links = the_links cache; hs = the_hash cache
      in if n \<le> length links \<and> m \<le> length hs
         then Inr (with_hash (with_links (cache\<lparr>rr_head := 0\<rparr>)
                 (map clear_entry (take n links) @ drop n links))
                 (replicate m (- 1) @ drop m hs))
         else Inl Out_of_bounds)"

text \<open>
  \<open>dwarf_flush_rs_cache\<close>, with the cache it leaves and whether it returns zero. The parameter
  tells for its three calls of \<open>GET_MEMORY\<close> whether they find memory.
\<close>

definition dwarf_flush_rs_cache ::
  "bool \<times> bool \<times> bool \<Rightarrow> rs_cache \<Rightarrow> (rs_cache \<times> bool) res" where
  "dwarf_flush_rs_cache mem cache =
     (if log_size cache = DWARF_DEFAULT_LOG_UNW_CACHE_SIZE \<or> rc_hash cache = Null then
        rbind (clear_cache (cache\<lparr>rc_hash := Default, rc_buckets := Default, rc_links := Default,
                                  log_size := DWARF_DEFAULT_LOG_UNW_CACHE_SIZE\<rparr>)) (\<lambda>cache.
        Inr (cache, True))
      else
        let old = prev_log_size cache; n = DWARF_UNW_CACHE_SIZE (log_size cache);
            m = DWARF_UNW_HASH_SIZE (log_size cache) in
        rbind (munmap_block (rc_hash cache) (DWARF_UNW_HASH_SIZE old)) (\<lambda>_.
        rbind (munmap_block (rc_buckets cache) (DWARF_UNW_CACHE_SIZE old)) (\<lambda>_.
        rbind (munmap_block (rc_links cache) (DWARF_UNW_CACHE_SIZE old)) (\<lambda>_.
        let cache = cache\<lparr>rc_hash := GET_MEMORY (fst mem) 0 m,
                          rc_buckets := GET_MEMORY (fst (snd mem)) zero_reg_state n,
                          rc_links := GET_MEMORY (snd (snd mem)) zero_entry n\<rparr> in
        if rc_hash cache = Null \<or> rc_buckets cache = Null \<or> rc_links cache = Null
        then Inr (cache, False)
        else rbind (clear_cache (cache\<lparr>prev_log_size := log_size cache\<rparr>)) (\<lambda>cache.
             Inr (cache, True))))))"

section \<open>Lookup and replacement\<close>

text \<open>\<open>hash\<close>: the index type \<open>unw_hash_index_t\<close> is an unsigned char.\<close>

definition rs_hash :: "unw_word \<Rightarrow> nat \<Rightarrow> nat" where
  "rs_hash ip l =
     unat (ucast (drop_bit (64 - (l + 1)) (ip * 0x9e3779b97f4a7c16)) :: 8 word)"

definition cache_match :: "rs_cache \<Rightarrow> 16 word \<Rightarrow> unw_word \<Rightarrow> bool res" where
  "cache_match cache index ip =
     rbind (arr_get (the_links cache) (unat index)) (\<lambda>e. Inr (re_valid e \<and> ip = re_ip e))"

text \<open>The loop of \<open>rs_lookup\<close> over a collision chain. A found register state is its index.\<close>

partial_function (option) rs_chain ::
  "rs_cache \<Rightarrow> unw_word \<Rightarrow> 16 word \<Rightarrow> nat option res option" where
  "rs_chain cache ip index =
     (if unat index < DWARF_UNW_CACHE_SIZE (log_size cache) then
        (case cache_match cache index ip of
           Inl e \<Rightarrow> Some (Inl e)
         | Inr hit \<Rightarrow>
             if hit then Some (Inr (Some (unat index)))
             else (case arr_get (the_links cache) (unat index) of
                     Inl e \<Rightarrow> Some (Inl e)
                   | Inr entry \<Rightarrow> rs_chain cache ip (re_coll_chain entry)))
      else Some (Inr None))"

definition rs_lookup :: "rs_cache \<Rightarrow> cursor \<Rightarrow> nat option res" where
  "rs_lookup cache c =
     (let ip = c_ip c; index = c_hint c - 1 in
      rbind (if 0 <s c_hint c then cache_match cache index ip else Inr False) (\<lambda>hit.
      if hit then Inr (Some (unat index))
      else rbind (arr_get (the_hash cache) (rs_hash ip (log_size cache))) (\<lambda>index.
           returns (rs_chain cache ip index))))"

text \<open>
  The pointer \<open>pindex\<close> of \<open>rs_new\<close> points to an element of the hash table or to the chain
  member of an entry.
\<close>

datatype slot = In_hash nat | In_link nat

definition read_slot :: "rs_cache \<Rightarrow> slot \<Rightarrow> (16 word) res" where
  "read_slot cache p = (case p of In_hash i \<Rightarrow> arr_get (the_hash cache) i
     | In_link i \<Rightarrow> rbind (arr_get (the_links cache) i) (\<lambda>e. Inr (re_coll_chain e)))"

definition write_slot :: "rs_cache \<Rightarrow> slot \<Rightarrow> 16 word \<Rightarrow> rs_cache res" where
  "write_slot cache p v = (case p of
       In_hash i \<Rightarrow> rbind (arr_set (the_hash cache) i v) (\<lambda>hs. Inr (with_hash cache hs))
     | In_link i \<Rightarrow> rbind (arr_get (the_links cache) i) (\<lambda>e.
         rbind (arr_set (the_links cache) i (e\<lparr>re_coll_chain := v\<rparr>)) (\<lambda>ls. Inr (with_links cache ls))))"

partial_function (option) rs_unlink :: "rs_cache \<Rightarrow> 16 word \<Rightarrow> slot \<Rightarrow> rs_cache res option" where
  "rs_unlink cache head p =
     (case read_slot cache p of
        Inl e \<Rightarrow> Some (Inl e)
      | Inr index \<Rightarrow>
          if unat index < DWARF_UNW_CACHE_SIZE (log_size cache) then
            (if index = head then
               Some (rbind (read_slot cache (In_link (unat index))) (\<lambda>chain. write_slot cache p chain))
             else rs_unlink cache head (In_link (unat index)))
          else Some (Inr cache))"

text \<open>\<open>rs_new\<close>, with the index of the register state that it returns the address of.\<close>

definition rs_new :: "rs_cache \<Rightarrow> cursor \<Rightarrow> (rs_cache \<times> nat) res" where
  "rs_new cache c =
     (let head = rr_head cache; h = unat head;
          cache = cache\<lparr>rr_head := (head + 1) AND (word_of_nat (DWARF_UNW_CACHE_SIZE (log_size cache)) - 1)\<rparr> in
      rbind (arr_get (the_links cache) h) (\<lambda>old.
      rbind (if re_ip old \<noteq> 0
             then returns (rs_unlink cache head (In_hash (rs_hash (re_ip old) (log_size cache))))
             else Inr cache) (\<lambda>cache.
      let index = rs_hash (c_ip c) (log_size cache) in
      rbind (read_slot cache (In_hash index)) (\<lambda>first.
      rbind (write_slot cache (In_link h) first) (\<lambda>cache.
      rbind (write_slot cache (In_hash index) head) (\<lambda>cache.
      rbind (arr_get (the_links cache) h) (\<lambda>e.
      rbind (arr_set (the_links cache) h
              (e\<lparr>re_ip := c_ip c, re_valid := True,
                 re_signal_frame := (c_sigcontext_format c \<noteq> X86_64_SCF_NONE)\<rparr>)) (\<lambda>links.
      Inr (with_links cache links, h)))))))))"

section \<open>The caches of an address space\<close>

datatype caching_policy = UNW_CACHE_NONE | UNW_CACHE_GLOBAL | UNW_CACHE_PER_THREAD

text \<open>
  The members of \<open>unw_addr_space\<close> that concern caching; of the list \<open>debug_frames\<close> only how
  many elements it has.
\<close>

record as_caches =
  caching_policy :: caching_policy
  cache_generation :: "32 word"
  dyn_info_list_addr :: unw_word
  global_cache :: rs_cache
  debug_frames :: nat

text \<open>A thread that locks a mutex it already holds waits for ever.\<close>

definition lock_acquire :: "rs_cache \<Rightarrow> rs_cache res" where
  "lock_acquire cache = (if rc_locked cache then Inl Diverged else Inr (cache\<lparr>rc_locked := True\<rparr>))"

text \<open>\<open>get_rs_cache\<close>, with whether it returns the global cache or null.\<close>

definition get_rs_cache :: "bool \<times> bool \<times> bool \<Rightarrow> as_caches \<Rightarrow> (as_caches \<times> bool) res" where
  "get_rs_cache mem as =
     (if caching_policy as = UNW_CACHE_NONE then Inr (as, False) else
      rbind (if caching_policy as = UNW_CACHE_GLOBAL then lock_acquire (global_cache as)
             else Inr (global_cache as)) (\<lambda>cache.
      if cache_generation as \<noteq> rc_generation cache \<or> rc_hash cache = Null then
        rbind (dwarf_flush_rs_cache mem cache) (\<lambda>(cache, ok).
        Inr (if ok then (as\<lparr>global_cache := cache\<lparr>rc_generation := cache_generation as\<rparr>\<rparr>, True)
             else (as\<lparr>global_cache := cache\<rparr>, False)))
      else Inr (as\<lparr>global_cache := cache\<rparr>, True)))"

definition put_rs_cache :: "as_caches \<Rightarrow> as_caches res" where
  "put_rs_cache as =
     (if caching_policy as = UNW_CACHE_NONE then Inl Aborted
      else Inr (if caching_policy as = UNW_CACHE_GLOBAL
                then as\<lparr>global_cache := (global_cache as)\<lparr>rc_locked := False\<rparr>\<rparr> else as))"

definition unw_flush_cache :: "as_caches \<Rightarrow> as_caches" where
  "unw_flush_cache as =
     as\<lparr>debug_frames := 0, dyn_info_list_addr := 0, cache_generation := cache_generation as + 1\<rparr>"

text \<open>The loop of \<open>unw_set_cache_size\<close> that rounds the size up to a power of two.\<close>

function round_log_size :: "nat \<Rightarrow> nat \<Rightarrow> nat \<Rightarrow> nat" where
  "round_log_size sz pow2 l =
     (if pow2 < sz then (if l + 1 \<ge> 15 then l + 1 else round_log_size sz (pow2 * 2) (l + 1))
      else l)"
  by pat_completeness auto
termination by (relation "measure (\<lambda>(_, _, l). 15 - l)") auto

definition unw_set_cache_size ::
  "bool \<times> bool \<times> bool \<Rightarrow> as_caches \<Rightarrow> 64 word \<Rightarrow> int \<Rightarrow> (as_caches \<times> bool) res" where
  "unw_set_cache_size mem as sz flag =
     (if flag \<noteq> 0 then Inr (as, False) else
      let new_log = round_log_size (unat sz) 1 0 in
      if new_log = log_size (global_cache as) then Inr (as, True) else
      let as = unw_flush_cache (as\<lparr>global_cache := (global_cache as)\<lparr>log_size := new_log\<rparr>\<rparr>) in
      rbind (dwarf_flush_rs_cache mem (global_cache as)) (\<lambda>(cache, ok).
      Inr (as\<lparr>global_cache := cache\<rparr>, ok)))"

definition unw_set_caching_policy :: "as_caches \<Rightarrow> caching_policy \<Rightarrow> as_caches" where
  "unw_set_caching_policy as policy =
     (let policy = (if policy = UNW_CACHE_PER_THREAD then UNW_CACHE_GLOBAL else policy) in
      if policy = caching_policy as then as
      else unw_flush_cache (as\<lparr>caching_policy := policy\<rparr>))"

end
