(* ===== verification/RsCacheLemmas.thy ===== *)
theory RsCacheLemmas
  imports RsCache
begin

text \<open>
  The invariant of the register-state cache: every bucket of the hash table starts a finite
  chain without repetition through exactly the valid entries whose address has that hash. \<open>rs_lookup\<close>
  then finds the entry of an address, and \<open>rs_new\<close> keeps the invariant.
\<close>

section \<open>The two tables\<close>

definition allocated :: "rs_cache \<Rightarrow> bool" where
  "allocated c \<longleftrightarrow> rc_hash c \<noteq> Null \<and> rc_links c \<noteq> Null \<and> rc_buckets c \<noteq> Null"

lemma with_tables [simp]:
  "allocated c \<Longrightarrow> the_hash (with_hash c xs) = xs"
  "the_links (with_hash c xs) = the_links c"
  "allocated c \<Longrightarrow> the_links (with_links c ys) = ys"
  "the_hash (with_links c ys) = the_hash c"
  "the_buckets (with_hash c xs) = the_buckets c"
  "the_buckets (with_links c ys) = the_buckets c"
  "allocated (with_hash c xs) = allocated c" "allocated (with_links c ys) = allocated c"
  "log_size (with_hash c xs) = log_size c" "log_size (with_links c ys) = log_size c"
  "rr_head (with_hash c xs) = rr_head c" "rr_head (with_links c ys) = rr_head c"
  by (auto simp: allocated_def with_hash_def with_links_def the_hash_def the_links_def
      the_buckets_def cells_def split: block.splits)

lemma head_update [simp]:
  "the_hash (c\<lparr>rr_head := h\<rparr>) = the_hash c" "the_links (c\<lparr>rr_head := h\<rparr>) = the_links c"
  "the_buckets (c\<lparr>rr_head := h\<rparr>) = the_buckets c"
  "allocated (c\<lparr>rr_head := h\<rparr>) = allocated c"
  by (simp_all add: the_hash_def the_links_def the_buckets_def allocated_def)

lemma rs_hash_bound: "rs_hash ip l < 2 ^ (l + 1)"
proof (cases "l \<le> 63")
  case True
  have "unat (drop_bit (64 - (l + 1)) (ip * 0x9e3779b97f4a7c16)) < 2 ^ (l + 1)"
  proof -
    have "unat (ip * 0x9e3779b97f4a7c16) < 2 ^ 64"
      using unsigned_less [of "ip * 0x9e3779b97f4a7c16", where ?'a = nat] by simp
    also have "(2::nat) ^ 64 = 2 ^ (l + 1) * 2 ^ (64 - (l + 1))"
      using True by (simp flip: power_add)
    finally have "unat (ip * 0x9e3779b97f4a7c16) div 2 ^ (64 - (l + 1)) < 2 ^ (l + 1)"
      by (rule less_mult_imp_div_less)
    then show ?thesis by (simp only: unat_drop_bit_eq drop_bit_eq_div [where 'a = nat])
  qed
  moreover have "unat (ucast w :: 8 word) \<le> unat (w :: unw_word)" for w
    by (simp add: unsigned_ucast_eq take_bit_nat_eq_self_iff flip: take_bit_eq_mod)
  ultimately show ?thesis unfolding rs_hash_def by (meson le_less_trans)
next
  case False
  have "rs_hash ip l < 2 ^ 8"
    unfolding rs_hash_def by (rule unsigned_less [where 'b = 8, simplified, THEN order_less_le_trans]) simp
  also have "(2::nat) ^ 8 \<le> 2 ^ (l + 1)" using False by (intro power_increasing) simp_all
  finally show ?thesis .
qed

section \<open>Chains\<close>

fun chain :: "rs_entry list \<Rightarrow> nat \<Rightarrow> 16 word \<Rightarrow> nat list \<Rightarrow> bool" where
  "chain L n i [] \<longleftrightarrow> n \<le> unat i"
| "chain L n i (x # xs) \<longleftrightarrow> unat i = x \<and> x < n \<and> chain L n (re_coll_chain (L ! x)) xs"

lemma chain_cong:
  "(\<And>x. x \<in> set xs \<Longrightarrow> re_coll_chain (L ! x) = re_coll_chain (L' ! x))
   \<Longrightarrow> chain L n i xs = chain L' n i xs"
  by (induction xs arbitrary: i) auto

lemma chain_less: "chain L n i xs \<Longrightarrow> x \<in> set xs \<Longrightarrow> x < n"
  by (induction xs arbitrary: i) auto

text \<open>
  The entries \<open>S\<close> hang on the chains of their buckets, and no other entry does.
\<close>

definition linked :: "(16 word) list \<Rightarrow> rs_entry list \<Rightarrow> nat \<Rightarrow> nat set \<Rightarrow> (nat \<Rightarrow> nat list) \<Rightarrow> bool" where
  "linked H L l S ch \<longleftrightarrow> S \<subseteq> {..<2 ^ l} \<and>
     (\<forall>b < 2 ^ (l + 1). chain L (2 ^ l) (H ! b) (ch b) \<and> distinct (ch b) \<and>
        set (ch b) = {x \<in> S. rs_hash (re_ip (L ! x)) l = b})"

definition valid_entries :: "rs_entry list \<Rightarrow> nat set" where
  "valid_entries L = {x. x < length L \<and> re_valid (L ! x)}"

definition rs_shape :: "rs_cache \<Rightarrow> bool" where
  "rs_shape c \<longleftrightarrow> allocated c \<and> log_size c \<le> 15 \<and> length (the_links c) = 2 ^ log_size c
     \<and> length (the_buckets c) = 2 ^ log_size c
     \<and> length (the_hash c) = 2 ^ (log_size c + 1) \<and> unat (rr_head c) < 2 ^ log_size c"

text \<open>Every valid entry has an address of its own, which is not zero.\<close>

definition distinct_ips :: "rs_entry list \<Rightarrow> bool" where
  "distinct_ips L \<longleftrightarrow> (\<forall>x < length L. re_valid (L ! x) \<longleftrightarrow> re_ip (L ! x) \<noteq> 0) \<and>
     (\<forall>x < length L. \<forall>y < length L. re_valid (L ! x) \<and> re_valid (L ! y) \<and> re_ip (L ! x) = re_ip (L ! y)
        \<longrightarrow> x = y)"

definition rs_inv :: "rs_cache \<Rightarrow> bool" where
  "rs_inv c \<longleftrightarrow> rs_shape c \<and> distinct_ips (the_links c) \<and>
     (\<exists>ch. linked (the_hash c) (the_links c) (log_size c) (valid_entries (the_links c)) ch)"

text \<open>The entry that the cache holds for an address.\<close>

definition cached :: "rs_cache \<Rightarrow> unw_word \<Rightarrow> nat option" where
  "cached c ip = find (\<lambda>i. re_valid (the_links c ! i) \<and> re_ip (the_links c ! i) = ip)
     [0..<length (the_links c)]"

lemma cached_None: "cached c ip = None \<longleftrightarrow>
  (\<forall>i < length (the_links c). re_valid (the_links c ! i) \<longrightarrow> re_ip (the_links c ! i) \<noteq> ip)"
  by (auto simp: cached_def find_None_iff)

lemma cached_Some_iff:
  assumes "distinct_ips (the_links c)"
  shows "cached c ip = Some i \<longleftrightarrow>
    i < length (the_links c) \<and> re_valid (the_links c ! i) \<and> re_ip (the_links c ! i) = ip"
proof
  assume "cached c ip = Some i"
  then show "i < length (the_links c) \<and> re_valid (the_links c ! i) \<and> re_ip (the_links c ! i) = ip"
    unfolding cached_def find_Some_iff by auto
next
  assume i: "i < length (the_links c) \<and> re_valid (the_links c ! i) \<and> re_ip (the_links c ! i) = ip"
  then have "cached c ip \<noteq> None" by (auto simp: cached_None)
  then obtain j where j: "cached c ip = Some j" by auto
  then have "j < length (the_links c) \<and> re_valid (the_links c ! j) \<and> re_ip (the_links c ! j) = ip"
    unfolding cached_def find_Some_iff by auto
  with i assms have "j = i" by (auto simp: distinct_ips_def)
  with j show "cached c ip = Some i" by simp
qed

section \<open>Lookup\<close>

lemma cache_match_eq:
  "unat i < length (the_links c) \<Longrightarrow>
   cache_match c i ip = Inr (re_valid (the_links c ! unat i) \<and> ip = re_ip (the_links c ! unat i))"
  by (simp add: cache_match_def)

lemma rs_chain_finds:
  assumes "chain (the_links c) (2 ^ log_size c) i xs" and "length (the_links c) = 2 ^ log_size c"
  shows "rs_chain c ip i =
    Some (Inr (find (\<lambda>x. re_valid (the_links c ! x) \<and> re_ip (the_links c ! x) = ip) xs))"
  using assms(1)
proof (induction xs arbitrary: i)
  case Nil
  then show ?case by (subst rs_chain.simps) (simp add: DWARF_UNW_CACHE_SIZE_def)
next
  case (Cons x xs)
  then have x: "unat i = x" "x < length (the_links c)" and
    rest: "chain (the_links c) (2 ^ log_size c) (re_coll_chain (the_links c ! x)) xs"
    using assms(2) by simp_all
  have m: "cache_match c i ip = Inr (re_valid (the_links c ! x) \<and> ip = re_ip (the_links c ! x))"
    using x by (simp add: cache_match_eq)
  have n: "unat i < DWARF_UNW_CACHE_SIZE (log_size c)"
    using x assms(2) by (simp add: DWARF_UNW_CACHE_SIZE_def)
  show ?case
    using n m x Cons.IH [OF rest] unfolding rs_chain.simps [of c ip i] by auto
qed

lemma linked_find:
  assumes "linked H L l (valid_entries L) ch" and "distinct_ips L" and "length L = 2 ^ l"
  shows "find (\<lambda>x. re_valid (L ! x) \<and> re_ip (L ! x) = ip) (ch (rs_hash ip l))
       = find (\<lambda>x. re_valid (L ! x) \<and> re_ip (L ! x) = ip) [0..<length L]" (is "find ?P ?xs = find ?P ?ys")
proof -
  have s: "set ?xs = {x \<in> valid_entries L. rs_hash (re_ip (L ! x)) l = rs_hash ip l}"
    using assms(1) rs_hash_bound [of ip l] by (auto simp: linked_def)
  have in_xs: "x \<in> set ?xs \<longleftrightarrow> x \<in> set ?ys" if "?P x" for x
    using that by (auto simp: s valid_entries_def)
  have uniq: "x = y" if "?P x" "?P y" "x \<in> set ?ys" "y \<in> set ?ys" for x y
    using that assms(2) by (auto simp: distinct_ips_def)
  show ?thesis
  proof (cases "find ?P ?ys")
    case None
    then have "find ?P ?xs = None" using in_xs by (auto simp: find_None_iff)
    with None show ?thesis by simp
  next
    case (Some y)
    then have y: "y \<in> set ?ys" "?P y" by (auto simp: find_Some_iff)
    have "y \<in> set ?xs" using in_xs [OF y(2)] y(1) by simp
    with y(2) have "find ?P ?xs \<noteq> None" unfolding find_None_iff by blast
    then obtain x where x: "find ?P ?xs = Some x" by blast
    then have px: "?P x" and mx: "x \<in> set ?xs" unfolding find_Some_iff by auto
    have "x \<in> set ?ys" using in_xs [OF px] mx by simp
    then have "x = y" using uniq [OF px y(2)] y(1) by simp
    with x Some show ?thesis by simp
  qed
qed

lemma rs_lookup_cached:
  assumes "rs_inv cache" and "0 <s c_hint c \<Longrightarrow> unat (c_hint c - 1) < 2 ^ log_size cache"
  shows "rs_lookup cache c = Inr (cached cache (c_ip c))"
proof -
  let ?L = "the_links cache" and ?h = "rs_hash (c_ip c) (log_size cache)"
  from assms(1) obtain ch where sh: "rs_shape cache" and d: "distinct_ips ?L"
    and l: "linked (the_hash cache) ?L (log_size cache) (valid_entries ?L) ch"
    by (auto simp: rs_inv_def)
  have "chain ?L (2 ^ log_size cache) (the_hash cache ! ?h) (ch ?h)"
    using l rs_hash_bound by (auto simp: linked_def)
  then have loop: "rs_chain cache (c_ip c) (the_hash cache ! ?h) = Some (Inr (cached cache (c_ip c)))"
    using sh linked_find [OF l d] by (simp add: rs_chain_finds rs_shape_def cached_def)
  have "?h < length (the_hash cache)" using rs_hash_bound sh by (simp add: rs_shape_def)
  then have slow: "rbind (arr_get (the_hash cache) ?h) (\<lambda>i. returns (rs_chain cache (c_ip c) i))
      = Inr (cached cache (c_ip c))" using loop by simp
  show ?thesis
  proof (cases "0 <s c_hint c")
    case True
    then have i: "unat (c_hint c - 1) < length ?L" using assms(2) sh by (simp add: rs_shape_def)
    note m = cache_match_eq [OF i, of "c_ip c"]
    show ?thesis
    proof (cases "re_valid (?L ! unat (c_hint c - 1)) \<and> c_ip c = re_ip (?L ! unat (c_hint c - 1))")
      case hit: True
      then have "cached cache (c_ip c) = Some (unat (c_hint c - 1))"
        using cached_Some_iff [OF d] i by simp
      moreover have "cache_match cache (c_hint c - 1) (c_ip c) = Inr True" using m hit by metis
      ultimately show ?thesis by (simp only: rs_lookup_def Let_def True if_True rbind_simps)
    next
      case False
      then show ?thesis
        using slow by (simp only: rs_lookup_def Let_def True m if_True if_False rbind_simps simp_thms)
    qed
  next
    case False
    then show ?thesis using slow by (simp add: rs_lookup_def Let_def)
  qed
qed

section \<open>Taking an entry off its chain\<close>

lemma write_slot_hash:
  assumes "allocated c" and "i < length (the_hash c)"
  shows "write_slot c (In_hash i) v = Inr (with_hash c ((the_hash c)[i := v]))"
  using assms by (simp add: write_slot_def)

definition set_chain :: "rs_entry list \<Rightarrow> nat \<Rightarrow> 16 word \<Rightarrow> rs_entry list" where
  "set_chain L i v = L[i := (L ! i)\<lparr>re_coll_chain := v\<rparr>]"

lemma write_slot_link:
  assumes "i < length (the_links c)"
  shows "write_slot c (In_link i) v = Inr (with_links c (set_chain (the_links c) i v))"
  using assms by (simp add: write_slot_def set_chain_def)

lemma set_chain_simps [simp]:
  "length (set_chain L i v) = length L"
  "i < length L \<Longrightarrow> re_coll_chain (set_chain L i v ! i) = v"
  "x \<noteq> i \<Longrightarrow> set_chain L i v ! x = L ! x"
  "x < length L \<Longrightarrow> re_ip (set_chain L i v ! x) = re_ip (L ! x)"
  "x < length L \<Longrightarrow> re_valid (set_chain L i v ! x) = re_valid (L ! x)"
  "x < length L \<Longrightarrow> re_hint (set_chain L i v ! x) = re_hint (L ! x)"
  "x < length L \<Longrightarrow> re_signal_frame (set_chain L i v ! x) = re_signal_frame (L ! x)"
  by (cases "x = i"; simp add: set_chain_def)+

text \<open>
  The search from an entry \<open>p\<close> of the chain: it rewrites the chain member of one entry \<open>q\<close>,
  so that the chain goes on past the removed entry.
\<close>

lemma rs_unlink_link:
  assumes "chain (the_links c) (2 ^ log_size c) (re_coll_chain (the_links c ! p)) xs"
    and "distinct (p # xs)" and "h \<in> set xs" and "h = unat head"
    and "length (the_links c) = 2 ^ log_size c" and "p < length (the_links c)"
  shows "\<exists>q \<in> set (p # xs) - {h}. let L = set_chain (the_links c) q (re_coll_chain (the_links c ! h)) in
     rs_unlink c head (In_link p) = Some (Inr (with_links c L)) \<and>
     chain L (2 ^ log_size c) (re_coll_chain (L ! p)) (remove1 h xs)"
  using assms
proof (induction xs arbitrary: p)
  case (Cons x xs)
  let ?L = "the_links c" and ?i = "re_coll_chain (the_links c ! p)"
  have i: "unat ?i = x" "x < length ?L" and ch: "chain ?L (2 ^ log_size c) (re_coll_chain (?L ! x)) xs"
    using Cons.prems(1,5) by simp_all
  have r: "read_slot c (In_link p) = Inr ?i" using Cons.prems(6) by (simp add: read_slot_def)
  have n: "unat ?i < DWARF_UNW_CACHE_SIZE (log_size c)"
    using i Cons.prems(5) by (simp add: DWARF_UNW_CACHE_SIZE_def)
  show ?case
  proof (cases "x = h")
    case True
    then have eq: "?i = head" using i Cons.prems(4) by (simp add: word_unat_eq_iff)
    let ?L' = "set_chain ?L p (re_coll_chain (?L ! h))"
    have "rs_unlink c head (In_link p) = Some (Inr (with_links c ?L'))"
      unfolding rs_unlink.simps [of c head "In_link p"]
      using r n eq i True Cons.prems(6) by (simp add: read_slot_def write_slot_link)
    moreover have "re_coll_chain (?L' ! y) = re_coll_chain (?L ! y)" if "y \<in> set xs" for y
      using that Cons.prems(2) by (subst set_chain_simps(3)) auto
    then have "chain ?L' (2 ^ log_size c) (re_coll_chain (?L ! h)) xs"
      using ch True by (subst chain_cong [of xs ?L' ?L]) auto
    ultimately show ?thesis
      using True Cons.prems(2,6) by (intro bexI [of _ p]) (simp_all add: Let_def)
  next
    case False
    then have ne: "?i \<noteq> head" using i Cons.prems(4) by auto
    have "h \<in> set xs" "distinct (x # xs)" using Cons.prems(2,3) False by auto
    from Cons.IH [OF ch this(2,1) Cons.prems(4,5) i(2)] obtain q where q: "q \<in> set (x # xs) - {h}"
      and u: "rs_unlink c head (In_link x) = Some (Inr (with_links c (set_chain ?L q (re_coll_chain (?L ! h)))))"
      and c: "chain (set_chain ?L q (re_coll_chain (?L ! h))) (2 ^ log_size c)
            (re_coll_chain (set_chain ?L q (re_coll_chain (?L ! h)) ! x)) (remove1 h xs)"
      by (auto simp: Let_def)
    have "rs_unlink c head (In_link p) = rs_unlink c head (In_link x)"
      unfolding rs_unlink.simps [of c head "In_link p"] using r n ne i(1) by simp
    moreover have "p \<noteq> q" using q Cons.prems(2) by auto
    ultimately show ?thesis
      using q u c i False Cons.prems(5) by (intro bexI [of _ q]) (auto simp: Let_def)
  qed
qed simp

text \<open>Tables that differ in the chain members only.\<close>

definition same_entries :: "rs_entry list \<Rightarrow> rs_entry list \<Rightarrow> bool" where
  "same_entries L L' \<longleftrightarrow> length L' = length L \<and>
     (\<forall>x < length L. re_ip (L' ! x) = re_ip (L ! x) \<and> re_valid (L' ! x) = re_valid (L ! x)
        \<and> re_hint (L' ! x) = re_hint (L ! x) \<and> re_signal_frame (L' ! x) = re_signal_frame (L ! x))"

lemma same_entries_set_chain: "same_entries L (set_chain L i v)"
  by (simp add: same_entries_def)

lemma same_entries_refl: "same_entries L L"
  by (simp add: same_entries_def)

text \<open>What a change of the tables leaves alone.\<close>

definition same_frame :: "rs_cache \<Rightarrow> rs_cache \<Rightarrow> bool" where
  "same_frame c c' \<longleftrightarrow> allocated c' \<and> log_size c' = log_size c \<and> rr_head c' = rr_head c
     \<and> the_buckets c' = the_buckets c \<and> length (the_hash c') = length (the_hash c)
     \<and> length (the_links c') = length (the_links c)"

lemma rs_unlink_hash:
  assumes "chain (the_links c) (2 ^ log_size c) (the_hash c ! b) xs" and "distinct xs" and "h \<in> set xs"
    and "h = unat head" and "length (the_links c) = 2 ^ log_size c" and "b < length (the_hash c)"
    and "allocated c"
  shows "\<exists>c'. rs_unlink c head (In_hash b) = Some (Inr c') \<and> same_frame c c' \<and>
     same_entries (the_links c) (the_links c') \<and>
     (\<forall>x. x \<notin> set xs \<longrightarrow> the_links c' ! x = the_links c ! x) \<and>
     (\<forall>d. d \<noteq> b \<longrightarrow> the_hash c' ! d = the_hash c ! d) \<and>
     chain (the_links c') (2 ^ log_size c) (the_hash c' ! b) (remove1 h xs)"
proof (cases xs)
  case Nil
  with assms(3) show ?thesis by simp
next
  case (Cons x ys)
  let ?L = "the_links c" and ?H = "the_hash c"
  let ?i = "?H ! b"
  have i: "unat ?i = x" "x < length ?L" and ch: "chain ?L (2 ^ log_size c) (re_coll_chain (?L ! x)) ys"
    using assms(1,5) Cons by simp_all
  have r: "read_slot c (In_hash b) = Inr ?i" using assms(6) by (simp add: read_slot_def)
  have n: "unat ?i < DWARF_UNW_CACHE_SIZE (log_size c)"
    using i assms(5) by (simp add: DWARF_UNW_CACHE_SIZE_def)
  show ?thesis
  proof (cases "x = h")
    case True
    then have eq: "?i = head" using i assms(4) by (simp add: word_unat_eq_iff)
    have "rs_unlink c head (In_hash b) = Some (Inr (with_hash c (?H[b := re_coll_chain (?L ! h)])))"
      unfolding rs_unlink.simps [of c head "In_hash b"]
      using r n eq i True assms(6,7) by (simp add: read_slot_def write_slot_hash)
    then show ?thesis
      using ch True Cons assms(6,7) same_entries_refl by (simp add: same_frame_def)
  next
    case False
    then have ne: "?i \<noteq> head" using i assms(4) by auto
    have "h \<in> set ys" "distinct (x # ys)" using assms(2,3) False Cons by auto
    from rs_unlink_link [OF ch this(2,1) assms(4,5) i(2)] obtain q where q: "q \<in> set xs - {h}"
      and u: "rs_unlink c head (In_link x) = Some (Inr (with_links c (set_chain ?L q (re_coll_chain (?L ! h)))))"
      and c: "chain (set_chain ?L q (re_coll_chain (?L ! h))) (2 ^ log_size c)
            (re_coll_chain (set_chain ?L q (re_coll_chain (?L ! h)) ! x)) (remove1 h ys)"
      by (auto simp: Let_def Cons)
    have "rs_unlink c head (In_hash b) = rs_unlink c head (In_link x)"
      unfolding rs_unlink.simps [of c head "In_hash b"] using r n ne i(1) by simp
    moreover have "set_chain ?L q v ! y = ?L ! y" if "y \<notin> set xs" for y v
      using q that by (subst set_chain_simps(3)) auto
    ultimately show ?thesis
      using u c i False Cons assms(5,7) same_entries_set_chain [of ?L q] by (simp add: same_frame_def)
  qed
qed

lemma linked_same:
  assumes "linked H L l S ch" and "same_entries L L'" and "length L = 2 ^ l" and "x \<in> S"
  shows "re_ip (L' ! x) = re_ip (L ! x)" and "re_valid (L' ! x) = re_valid (L ! x)"
  using assms by (auto simp: linked_def same_entries_def)

lemma rs_unlink_linked:
  assumes l: "linked (the_hash c) (the_links c) (log_size c) S ch" and "h \<in> S" and "h = unat head"
    and L: "length (the_links c) = 2 ^ log_size c" and H: "length (the_hash c) = 2 ^ (log_size c + 1)"
    and "allocated c"
  defines "b \<equiv> rs_hash (re_ip (the_links c ! h)) (log_size c)"
  shows "\<exists>c' ch'. rs_unlink c head (In_hash b) = Some (Inr c') \<and> same_frame c c' \<and>
     same_entries (the_links c) (the_links c') \<and>
     linked (the_hash c') (the_links c') (log_size c) (S - {h}) ch'"
proof -
  have b: "b < 2 ^ (log_size c + 1)" unfolding b_def by (rule rs_hash_bound)
  with l have c: "chain (the_links c) (2 ^ log_size c) (the_hash c ! b) (ch b)" "distinct (ch b)"
    and s: "set (ch b) = {x \<in> S. rs_hash (re_ip (the_links c ! x)) (log_size c) = b}"
    by (auto simp: linked_def)
  then have "h \<in> set (ch b)" using assms(2) by (simp add: b_def)
  moreover have "b < length (the_hash c)" using b H by simp
  ultimately obtain c' where u: "rs_unlink c head (In_hash b) = Some (Inr c')" "same_frame c c'"
    and e: "same_entries (the_links c) (the_links c')"
    and x: "\<And>x. x \<notin> set (ch b) \<Longrightarrow> the_links c' ! x = the_links c ! x"
    and d: "\<And>d. d \<noteq> b \<Longrightarrow> the_hash c' ! d = the_hash c ! d"
    and r: "chain (the_links c') (2 ^ log_size c) (the_hash c' ! b) (remove1 h (ch b))"
    using rs_unlink_hash [OF c _ assms(3) L _ assms(6)] by metis
  have "chain (the_links c') (2 ^ log_size c) (the_hash c' ! d) ((ch(b := remove1 h (ch b))) d) \<and>
     distinct ((ch(b := remove1 h (ch b))) d) \<and>
     set ((ch(b := remove1 h (ch b))) d)
       = {x \<in> S - {h}. rs_hash (re_ip (the_links c' ! x)) (log_size c) = d}"
    if "d < 2 ^ (log_size c + 1)" for d
  proof -
    have ld: "chain (the_links c) (2 ^ log_size c) (the_hash c ! d) (ch d)" "distinct (ch d)"
      "set (ch d) = {x \<in> S. rs_hash (re_ip (the_links c ! x)) (log_size c) = d}"
      using l that by (auto simp: linked_def)
    have ip: "re_ip (the_links c' ! x) = re_ip (the_links c ! x)" if "x \<in> S" for x
      using linked_same(1) [OF l e L that] .
    show ?thesis
    proof (cases "d = b")
      case True
      then show ?thesis using r ld ip by (auto simp: set_remove1_eq)
    next
      case False
      then have "chain (the_links c') (2 ^ log_size c) (the_hash c' ! d) (ch d)"
        using ld s x d by (subst chain_cong [of "ch d" "the_links c'" "the_links c"]) auto
      moreover have "h \<notin> set (ch d)" using ld(3) False by (simp add: b_def)
      ultimately show ?thesis using ld ip False by auto
    qed
  qed
  then have "linked (the_hash c') (the_links c') (log_size c) (S - {h}) (ch(b := remove1 h (ch b)))"
    using l unfolding linked_def by blast
  with u e show ?thesis by blast
qed

section \<open>Entering an address\<close>

text \<open>Entering the entry \<open>h\<close> into its bucket: the chain members and then the address.\<close>

definition enter :: "rs_entry list \<Rightarrow> nat \<Rightarrow> 16 word \<Rightarrow> unw_word \<Rightarrow> bool \<Rightarrow> rs_entry list" where
  "enter L h first ip sig = L[h := (L ! h)\<lparr>re_coll_chain := first, re_ip := ip, re_valid := True,
     re_signal_frame := sig\<rparr>]"

lemma enter_simps [simp]:
  "length (enter L h first ip sig) = length L"
  "x \<noteq> h \<Longrightarrow> enter L h first ip sig ! x = L ! x"
  "h < length L \<Longrightarrow> re_ip (enter L h first ip sig ! h) = ip"
  "h < length L \<Longrightarrow> re_valid (enter L h first ip sig ! h)"
  "h < length L \<Longrightarrow> re_coll_chain (enter L h first ip sig ! h) = first"
  "h < length L \<Longrightarrow> re_signal_frame (enter L h first ip sig ! h) = sig"
  "h < length L \<Longrightarrow> re_hint (enter L h first ip sig ! h) = re_hint (L ! h)"
  by (simp_all add: enter_def)

lemma linked_enter:
  assumes l: "linked H L l S ch" and h: "h \<notin> S" "h < 2 ^ l" "h = unat head"
    and L: "length L = 2 ^ l" and H: "length H = 2 ^ (l + 1)" and b_def: "b = rs_hash ip l"
  shows "linked (H[b := head]) (enter L h (H ! b) ip sig) l (insert h S) (ch(b := h # ch b))"
proof -
  have b: "b < 2 ^ (l + 1)" unfolding b_def by (rule rs_hash_bound)
  have "chain (enter L h (H ! b) ip sig) (2 ^ l) (H[b := head] ! d) ((ch(b := h # ch b)) d) \<and>
     distinct ((ch(b := h # ch b)) d) \<and>
     set ((ch(b := h # ch b)) d)
       = {x \<in> insert h S. rs_hash (re_ip (enter L h (H ! b) ip sig ! x)) l = d}"
    if d: "d < 2 ^ (l + 1)" for d
  proof -
    have ld: "chain L (2 ^ l) (H ! d) (ch d)" "distinct (ch d)"
      "set (ch d) = {x \<in> S. rs_hash (re_ip (L ! x)) l = d}"
      using l d by (auto simp: linked_def)
    have ne: "enter L h (H ! b) ip sig ! x = L ! x" if "x \<in> S" for x
      using that h by (subst enter_simps) auto
    have c: "chain (enter L h (H ! b) ip sig) (2 ^ l) (H ! d) (ch d)"
      using ld ne by (subst chain_cong [of "ch d" _ L]) auto
    have s: "{x \<in> insert h S. rs_hash (re_ip (enter L h (H ! b) ip sig ! x)) l = d}
        = (if b = d then insert h (set (ch d)) else set (ch d))"
      unfolding ld(3) using ne h L by (auto simp: b_def)
    have "h \<notin> set (ch d)" unfolding ld(3) using h by simp
    then show ?thesis
      unfolding s using ld(2) c h L H b by (cases "d = b") simp_all
  qed
  then show ?thesis using l h unfolding linked_def by auto
qed

lemma same_entries_valid: "same_entries L L' \<Longrightarrow> valid_entries L' = valid_entries L"
  by (auto simp: same_entries_def valid_entries_def)

lemma same_entries_distinct: "same_entries L L' \<Longrightarrow> distinct_ips L \<Longrightarrow> distinct_ips L'"
  unfolding same_entries_def distinct_ips_def by (metis)

lemma distinct_ips_enter:
  assumes "distinct_ips L" and "h < length L" and "ip \<noteq> 0"
    and "\<And>x. x < length L \<Longrightarrow> re_valid (L ! x) \<Longrightarrow> re_ip (L ! x) \<noteq> ip"
  shows "distinct_ips (enter L h first ip sig)"
  unfolding distinct_ips_def
proof (intro conjI allI impI)
  fix x assume "x < length (enter L h first ip sig)"
  then show "re_valid (enter L h first ip sig ! x) \<longleftrightarrow> re_ip (enter L h first ip sig ! x) \<noteq> 0"
    using assms by (cases "x = h") (auto simp: distinct_ips_def)
next
  fix x y
  assume "x < length (enter L h first ip sig)" "y < length (enter L h first ip sig)"
    and "re_valid (enter L h first ip sig ! x) \<and> re_valid (enter L h first ip sig ! y) \<and>
      re_ip (enter L h first ip sig ! x) = re_ip (enter L h first ip sig ! y)"
  then show "x = y"
    using assms by (cases "x = h"; cases "y = h") (auto simp: distinct_ips_def)
qed

lemma valid_entries_enter:
  "h < length L \<Longrightarrow> valid_entries (enter L h first ip sig) = insert h (valid_entries L)"
  by (auto simp: valid_entries_def enter_def nth_list_update)

text \<open>The round-robin successor.\<close>

lemma rr_next:
  assumes "unat head < 2 ^ l" and "l \<le> 15"
  shows "unat ((head + 1) AND (word_of_nat (2 ^ l) - 1) :: 16 word) = (unat head + 1) mod 2 ^ l"
proof -
  have "word_of_nat (2 ^ l) - 1 = (mask l :: 16 word)"
    by (simp add: mask_eq_exp_minus_1)
  then have "unat ((head + 1) AND (word_of_nat (2 ^ l) - 1) :: 16 word) = unat (take_bit l (head + 1))"
    by (simp add: take_bit_eq_mask)
  also have "\<dots> = take_bit l (unat (head + 1))" by (simp add: unsigned_take_bit_eq)
  also have "\<dots> = take_bit l (unat head + 1)"
  proof -
    have "(2::nat) ^ l dvd 2 ^ 16" using assms(2) by (intro le_imp_power_dvd) simp
    then show ?thesis
      by (simp add: unat_word_ariths take_bit_eq_mod mod_mod_cancel)
  qed
  finally show ?thesis by (simp add: take_bit_eq_mod)
qed

section \<open>Replacement\<close>

text \<open>
  A new entry takes the place of the one at the round-robin position and nothing else
  changes.
\<close>

lemma rs_new_inv:
  assumes inv: "rs_inv cache" and ip: "c_ip c \<noteq> 0" and new: "cached cache (c_ip c) = None"
  shows "\<exists>cache' L. rs_new cache c = Inr (cache', unat (rr_head cache)) \<and> rs_inv cache' \<and>
     log_size cache' = log_size cache \<and> the_buckets cache' = the_buckets cache \<and>
     unat (rr_head cache') = (unat (rr_head cache) + 1) mod 2 ^ log_size cache \<and>
     same_entries (the_links cache) L \<and>
     (\<exists>first. the_links cache' = enter L (unat (rr_head cache)) first (c_ip c)
        (c_sigcontext_format c \<noteq> X86_64_SCF_NONE))"
proof -
  define h where "h = unat (rr_head cache)"
  define c0 where "c0 = cache\<lparr>rr_head := (rr_head cache + 1) AND
     (word_of_nat (DWARF_UNW_CACHE_SIZE (log_size cache)) - 1)\<rparr>"
  let ?L = "the_links cache" and ?H = "the_hash cache" and ?l = "log_size cache"
  from inv obtain ch where sh: "rs_shape cache" and d: "distinct_ips ?L"
    and l: "linked ?H ?L ?l (valid_entries ?L) ch" by (auto simp: rs_inv_def)
  note sh' = sh [unfolded rs_shape_def]
  have len: "length ?L = 2 ^ ?l" "length ?H = 2 ^ (?l + 1)" "h < length ?L" and al: "allocated cache"
    using sh' by (simp_all add: h_def)
  have c0: "the_links c0 = ?L" "the_hash c0 = ?H" "log_size c0 = ?l" "allocated c0"
     "the_buckets c0 = the_buckets cache"
    using al by (simp_all add: c0_def)
  have rr: "unat (rr_head c0) = (h + 1) mod 2 ^ ?l"
    using rr_next [of "rr_head cache" ?l] sh' by (simp add: c0_def h_def DWARF_UNW_CACHE_SIZE_def)
  have "\<exists>c1 ch1. (if re_ip (?L ! h) \<noteq> 0
        then returns (rs_unlink c0 (rr_head cache) (In_hash (rs_hash (re_ip (?L ! h)) ?l))) else Inr c0)
      = Inr c1 \<and> same_frame c0 c1 \<and> same_entries ?L (the_links c1) \<and>
     linked (the_hash c1) (the_links c1) ?l (valid_entries ?L - {h}) ch1"
  proof (cases "re_ip (?L ! h) = 0")
    case True
    then have "valid_entries ?L - {h} = valid_entries ?L"
      using d len(3) by (auto simp: distinct_ips_def valid_entries_def)
    then show ?thesis using True l c0 same_entries_refl by (auto simp: same_frame_def)
  next
    case False
    then have "h \<in> valid_entries ?L" using d len(3) by (auto simp: distinct_ips_def valid_entries_def)
    then show ?thesis
      using rs_unlink_linked [of c0 "valid_entries ?L" ch h "rr_head cache"] l len c0 False
      by (auto simp: h_def)
  qed
  then obtain c1 ch1 where u: "(if re_ip (?L ! h) \<noteq> 0
        then returns (rs_unlink c0 (rr_head cache) (In_hash (rs_hash (re_ip (?L ! h)) ?l))) else Inr c0) = Inr c1"
    and f: "same_frame c0 c1" and e: "same_entries ?L (the_links c1)"
    and l1: "linked (the_hash c1) (the_links c1) ?l (valid_entries ?L - {h}) ch1" by blast
  define b where "b = rs_hash (c_ip c) ?l"
  let ?L1 = "the_links c1" and ?H1 = "the_hash c1" and ?sig = "c_sigcontext_format c \<noteq> X86_64_SCF_NONE"
  have f1: "allocated c1" "log_size c1 = ?l" "rr_head c1 = rr_head c0" "the_buckets c1 = the_buckets cache"
    "length ?H1 = length ?H" "length ?L1 = length ?L"
    using f c0 by (simp_all add: same_frame_def)
  have b: "b < length ?H1" unfolding b_def f1 len by (rule rs_hash_bound)
  have h1: "h < length ?L1" using len(3) f1 by simp
  define L2 where "L2 = enter ?L1 h (?H1 ! b) (c_ip c) ?sig"
  define c2 where "c2 = with_links (with_hash (with_links c1 (set_chain ?L1 h (?H1 ! b)))
      (?H1[b := rr_head cache])) L2"
  have c2: "the_links c2 = L2" "the_hash c2 = ?H1[b := rr_head cache]" "log_size c2 = ?l"
     "rr_head c2 = rr_head c0" "the_buckets c2 = the_buckets cache" "allocated c2"
    using f1 by (simp_all add: c2_def)
  have L2: "(set_chain ?L1 h (?H1 ! b))[h := (set_chain ?L1 h (?H1 ! b) ! h)
      \<lparr>re_ip := c_ip c, re_valid := True, re_signal_frame := ?sig\<rparr>] = L2"
    using h1 by (simp add: set_chain_def L2_def enter_def)
  have "rs_hash (c_ip c) (log_size c1) = b" using f1 by (simp add: b_def)
  then have run: "rs_new cache c = Inr (c2, h)"
    using b h1 len(3) f1 c0 L2
    by (simp add: rs_new_def Let_def c0_def [symmetric] h_def [symmetric] u
        read_slot_def write_slot_link write_slot_hash c2_def split del: if_split cong: if_cong)
  have dL: "distinct_ips ?L1" using same_entries_distinct [OF e d] .
  have fresh: "re_ip (?L1 ! x) \<noteq> c_ip c" if "x < length ?L1" "re_valid (?L1 ! x)" for x
    using new that e f1 by (auto simp: cached_None same_entries_def)
  have v: "valid_entries L2 = insert h (valid_entries ?L - {h})"
    using h1 e by (simp add: L2_def valid_entries_enter same_entries_valid)
  have "linked (?H1[b := rr_head cache]) L2 ?l (valid_entries L2) (ch1(b := h # ch1 b))"
    unfolding v
    unfolding L2_def
    using linked_enter [OF l1, of h "rr_head cache" b "c_ip c" ?sig] h1 len f1 by (simp add: h_def b_def)
  moreover have "distinct_ips L2" unfolding L2_def using distinct_ips_enter [OF dL h1 ip fresh] .
  ultimately have "rs_inv c2"
    using sh' c2 f1 len rr by (auto simp: rs_inv_def rs_shape_def L2_def)
  then show ?thesis
    using run c2 rr e by (auto simp: h_def L2_def)
qed

end
