(* ===== verification/RsWindow.thy ===== *)
theory RsWindow
  imports RsCacheLemmas
begin

text \<open>
  The specification of the register-state cache: it holds the addresses of the last
  additions, as many as it has entries. The locale \<open>window_cache\<close> states what the unwinder
  relies on when it looks states up and adds them; it is interpreted on \<open>rs_lookup\<close> and
  \<open>rs_new\<close>.
\<close>

section \<open>The interface\<close>

text \<open>
  A cache with an invariant, a window of the last additions (oldest first, \<open>None\<close> for places that
  were never filled), a test whether a key is held, and the addition of an item.
\<close>

locale window_cache =
  fixes inv :: "'c \<Rightarrow> bool" and win :: "'c \<Rightarrow> 'k option list" and key :: "'x \<Rightarrow> 'k"
    and fit :: "'x \<Rightarrow> bool" and hit :: "'c \<Rightarrow> 'x \<Rightarrow> bool" and add :: "'c \<Rightarrow> 'x \<Rightarrow> 'c"
  assumes hit_win: "inv c \<Longrightarrow> hit c x \<longleftrightarrow> Some (key x) \<in> set (win c)"
    and add_inv: "inv c \<Longrightarrow> fit x \<Longrightarrow> \<not> hit c x \<Longrightarrow> inv (add c x)"
    and add_win: "inv c \<Longrightarrow> fit x \<Longrightarrow> \<not> hit c x \<Longrightarrow> win (add c x) = tl (win c) @ [Some (key x)]"
    and win_nonempty: "inv c \<Longrightarrow> win c \<noteq> []"
begin

definition touch :: "'c \<Rightarrow> 'x \<Rightarrow> 'c" where
  "touch c x = (if hit c x then c else add c x)"

lemma touch_inv: "inv c \<Longrightarrow> fit x \<Longrightarrow> inv (touch c x)"
  by (simp add: touch_def add_inv)

lemma touch_length: "inv c \<Longrightarrow> fit x \<Longrightarrow> length (win (touch c x)) = length (win c)"
  using win_nonempty [of c] by (simp add: touch_def add_win)

lemma touch_holds: "inv c \<Longrightarrow> fit x \<Longrightarrow> Some (key x) \<in> set (win (touch c x))"
  by (simp add: touch_def add_win hit_win)

lemma foldl_touch_inv: "inv c \<Longrightarrow> list_all fit xs \<Longrightarrow> inv (foldl touch c xs)"
  by (induction xs arbitrary: c) (simp_all add: touch_inv)

lemma foldl_touch_length:
  "inv c \<Longrightarrow> list_all fit xs \<Longrightarrow> length (win (foldl touch c xs)) = length (win c)"
  by (induction xs arbitrary: c) (simp_all add: touch_inv touch_length)

text \<open>A key moves at most one place towards the old end with every use of the cache.\<close>

lemma touch_shift:
  assumes "inv c" and "fit x" and "Some k \<in> set (drop (Suc j) (win c))"
  shows "Some k \<in> set (drop j (win (touch c x)))"
proof (cases "hit c x")
  case True
  then show ?thesis using assms(3) set_drop_subset_set_drop [of j "Suc j" "win c"]
    by (auto simp: touch_def)
next
  case False
  have "drop (Suc j) (win c) = drop j (tl (win c))" by (simp add: drop_Suc)
  with assms False show ?thesis by (auto simp: touch_def add_win)
qed

lemma foldl_touch_shift:
  assumes "inv c" and "list_all fit xs" and "Some k \<in> set (drop (length xs) (win c))"
  shows "Some k \<in> set (win (foldl touch c xs))"
  using assms
proof (induction xs arbitrary: c)
  case (Cons x xs)
  then have "Some k \<in> set (drop (length xs) (win (touch c x)))" by (intro touch_shift) simp_all
  with Cons show ?case by (simp add: touch_inv)
qed simp

text \<open>
  An item that was added is found again as long as fewer other uses follow than the cache has
  places.
\<close>

lemma recent_held:
  assumes "inv c" and "fit x" and "\<not> hit c x" and "list_all fit xs" and "length xs < length (win c)"
  shows "hit (foldl touch (touch c x) xs) x"
proof -
  have w: "win (touch c x) = tl (win c) @ [Some (key x)]"
    using assms by (simp add: touch_def add_win)
  have "Some (key x) \<in> set (drop (length xs) (win (touch c x)))"
    using assms(5) unfolding w by simp
  then have "Some (key x) \<in> set (win (foldl touch (touch c x) xs))"
    using foldl_touch_shift [OF touch_inv [OF assms(1,2)] assms(4)] by blast
  then show ?thesis using foldl_touch_inv touch_inv assms by (simp add: hit_win)
qed

end

section \<open>The window of the register-state cache\<close>

definition entry_key :: "rs_entry \<Rightarrow> unw_word option" where
  "entry_key e = (if re_valid e then Some (re_ip e) else None)"

definition window :: "rs_cache \<Rightarrow> unw_word option list" where
  "window c = rotate (unat (rr_head c)) (map entry_key (the_links c))"

lemma rotate_update:
  assumes "h < length xs"
  shows "rotate ((h + 1) mod length xs) (xs[h := v]) = tl (rotate h xs) @ [v]"
proof -
  have r: "rotate h ys = drop h ys @ take h ys" if "h < length ys" for ys :: "'a list"
    using that by (simp add: rotate_drop_take)
  have "rotate ((h + 1) mod length xs) (xs[h := v]) = rotate (h + 1) (xs[h := v])"
    using rotate_conv_mod [of "h + 1" "xs[h := v]"] by simp
  also have "\<dots> = rotate1 (rotate h (xs[h := v]))" by simp
  also have "\<dots> = rotate1 (v # drop (Suc h) xs @ take h xs)"
    using assms by (simp add: r drop_update_cancel Cons_nth_drop_Suc [symmetric])
  also have "\<dots> = tl (rotate h xs) @ [v]"
    using assms by (simp add: r Cons_nth_drop_Suc [symmetric])
  finally show ?thesis .
qed

lemma window_add:
  assumes "rs_inv cache" and "c_ip c \<noteq> 0" and "cached cache (c_ip c) = None"
  shows "\<exists>cache'. rs_new cache c = Inr (cache', unat (rr_head cache)) \<and> rs_inv cache' \<and>
     log_size cache' = log_size cache \<and> the_buckets cache' = the_buckets cache \<and>
     window cache' = tl (window cache) @ [Some (c_ip c)]"
proof -
  let ?h = "unat (rr_head cache)" and ?n = "2 ^ log_size cache :: nat"
  from rs_new_inv [OF assms] obtain cache' L first where
    n: "rs_new cache c = Inr (cache', ?h)" "rs_inv cache'" "log_size cache' = log_size cache"
      "the_buckets cache' = the_buckets cache" and
    rr: "unat (rr_head cache') = (?h + 1) mod ?n" and e: "same_entries (the_links cache) L" and
    l: "the_links cache' = enter L ?h first (c_ip c) (c_sigcontext_format c \<noteq> X86_64_SCF_NONE)"
    by blast
  have len: "length (the_links cache) = ?n" "?h < ?n" "length L = ?n"
    using assms(1) e by (simp_all add: rs_inv_def rs_shape_def same_entries_def)
  have m: "map entry_key L = map entry_key (the_links cache)"
    using e by (intro nth_equalityI) (auto simp: same_entries_def entry_key_def)
  have "map entry_key (the_links cache') = (map entry_key (the_links cache))[?h := Some (c_ip c)]"
    unfolding l enter_def map_update m by (simp add: entry_key_def)
  then have "window cache' = tl (window cache) @ [Some (c_ip c)]"
    unfolding window_def rr using rotate_update [of ?h "map entry_key (the_links cache)"] len by simp
  with n show ?thesis by blast
qed

lemma window_cached:
  "cached cache ip \<noteq> None \<longleftrightarrow> Some ip \<in> set (window cache)"
proof -
  have "cached cache ip \<noteq> None \<longleftrightarrow> (\<exists>e \<in> set (the_links cache). re_valid e \<and> re_ip e = ip)"
    unfolding cached_None by (metis in_set_conv_nth)
  then show ?thesis by (auto simp: window_def entry_key_def)
qed

lemma window_length: "rs_inv cache \<Longrightarrow> length (window cache) = 2 ^ log_size cache"
  by (simp add: window_def rs_inv_def rs_shape_def)

text \<open>The cache after an addition.\<close>

definition rs_add :: "rs_cache \<Rightarrow> cursor \<Rightarrow> rs_cache" where
  "rs_add cache c = (case rs_new cache c of Inl e \<Rightarrow> cache | Inr (cache', i) \<Rightarrow> cache')"

lemma rs_add_spec:
  assumes "rs_inv cache" and "c_ip c \<noteq> 0" and "cached cache (c_ip c) = None"
  shows "rs_new cache c = Inr (rs_add cache c, unat (rr_head cache))" and "rs_inv (rs_add cache c)"
    and "log_size (rs_add cache c) = log_size cache"
    and "window (rs_add cache c) = tl (window cache) @ [Some (c_ip c)]"
    and "the_buckets (rs_add cache c) = the_buckets cache"
  using window_add [OF assms] by (auto simp: rs_add_def)

definition rs_hit :: "rs_cache \<Rightarrow> cursor \<Rightarrow> bool" where
  "rs_hit cache c \<longleftrightarrow> cached cache (c_ip c) \<noteq> None"

interpretation rsc: window_cache rs_inv window c_ip "\<lambda>c. c_ip c \<noteq> 0" rs_hit rs_add
proof unfold_locales
  fix cache and x :: cursor
  show "rs_inv cache \<Longrightarrow> rs_hit cache x \<longleftrightarrow> Some (c_ip x) \<in> set (window cache)"
    unfolding rs_hit_def by (rule window_cached)
  assume "rs_inv cache" "c_ip x \<noteq> 0" "\<not> rs_hit cache x"
  then show "rs_inv (rs_add cache x)" "window (rs_add cache x) = tl (window cache) @ [Some (c_ip x)]"
    by (simp_all add: rs_add_spec rs_hit_def)
next
  fix cache assume "rs_inv cache"
  then show "window cache \<noteq> []" using window_length [of cache] by auto
qed

text \<open>The hint of a cursor is zero, negative, or names an entry of the cache.\<close>

definition hint_ok :: "rs_cache \<Rightarrow> cursor \<Rightarrow> bool" where
  "hint_ok cache c \<longleftrightarrow> (0 <s c_hint c \<longrightarrow> unat (c_hint c - 1) < 2 ^ log_size cache)"

section \<open>Flushing\<close>

text \<open>
  The arrays inside the structure have the default sizes, and what is mapped has the size that
  \<open>prev_log_size\<close> records.
\<close>

definition flushable :: "rs_cache \<Rightarrow> bool" where
  "flushable c \<longleftrightarrow> log_size c \<le> 15
     \<and> length (default_hash c) = 2 ^ 8 \<and> length (default_buckets c) = 2 ^ 7
     \<and> length (default_links c) = 2 ^ 7
     \<and> (\<forall>xs. rc_hash c = Mapped xs \<longrightarrow> length xs = 2 ^ (prev_log_size c + 1))
     \<and> (\<forall>xs. rc_buckets c = Mapped xs \<longrightarrow> length xs = 2 ^ prev_log_size c)
     \<and> (\<forall>xs. rc_links c = Mapped xs \<longrightarrow> length xs = 2 ^ prev_log_size c)"

lemma empty_inv:
  assumes "rs_shape c" and "rr_head c = 0"
    and "\<And>i. i < length (the_links c) \<Longrightarrow> re_ip (the_links c ! i) = 0 \<and> \<not> re_valid (the_links c ! i)"
    and "\<And>b. b < length (the_hash c) \<Longrightarrow> the_hash c ! b = - 1"
  shows "rs_inv c" and "window c = replicate (2 ^ log_size c) None"
proof -
  have l: "log_size c \<le> 15" using assms(1) by (simp add: rs_shape_def)
  have "(2::nat) ^ log_size c \<le> 2 ^ 15" using l by (intro power_increasing) simp_all
  then have e: "2 ^ log_size c \<le> unat (- 1 :: 16 word)" by (simp add: unsigned_minus_1_eq_mask mask_eq_exp_minus_1)
  have "valid_entries (the_links c) = {}" using assms(3) by (auto simp: valid_entries_def)
  then have "linked (the_hash c) (the_links c) (log_size c) (valid_entries (the_links c)) (\<lambda>_. [])"
    using assms(1,4) e by (simp add: linked_def rs_shape_def)
  moreover have "distinct_ips (the_links c)" using assms(3) by (auto simp: distinct_ips_def)
  ultimately show "rs_inv c" using assms(1) by (auto simp: rs_inv_def)
  have "map entry_key (the_links c) = replicate (2 ^ log_size c) None"
    using assms(1,3) by (intro nth_equalityI) (auto simp: rs_shape_def entry_key_def)
  then show "window c = replicate (2 ^ log_size c) None" using assms(2) by (simp add: window_def)
qed

lemma clear_cache_empty:
  assumes "allocated c" and "length (the_links c) = 2 ^ log_size c"
    and "length (the_hash c) = 2 ^ (log_size c + 1)" and "length (the_buckets c) = 2 ^ log_size c"
    and "log_size c \<le> 15"
  shows "\<exists>c'. clear_cache c = Inr c' \<and> rs_inv c' \<and> window c' = replicate (2 ^ log_size c) None
    \<and> log_size c' = log_size c \<and> rc_locked c' = rc_locked c"
proof -
  define c' where "c' = with_hash (with_links (c\<lparr>rr_head := 0\<rparr>) (map clear_entry (the_links c)))
     (replicate (2 ^ (log_size c + 1)) (- 1))"
  have r: "clear_cache c = Inr c'"
    using assms by (simp add: clear_cache_def Let_def c'_def DWARF_UNW_CACHE_SIZE_def DWARF_UNW_HASH_SIZE_def)
  have t: "the_links c' = map clear_entry (the_links c)" "the_hash c' = replicate (2 ^ (log_size c + 1)) (- 1)"
    "the_buckets c' = the_buckets c" "allocated c'" "rr_head c' = 0" "log_size c' = log_size c"
    using assms(1) by (simp_all add: c'_def)
  have k: "rc_locked c' = rc_locked c"
    by (simp add: c'_def with_hash_def with_links_def split: block.splits)
  have "rs_shape c'" using assms t by (simp add: rs_shape_def)
  then have "rs_inv c'" "window c' = replicate (2 ^ log_size c) None"
    using empty_inv [of c'] t by (simp_all add: clear_entry_def)
  with r t k show ?thesis by blast
qed

lemma clear_cache_flushable:
  assumes "clear_cache c = Inr c'" and "flushable c" and "allocated c"
  shows "flushable c'" and "rc_hash c' \<noteq> Null" and "rc_generation c' = rc_generation c"
  using assms
  by (auto simp: clear_cache_def Let_def flushable_def with_hash_def with_links_def the_links_def
      the_hash_def cells_def DWARF_UNW_CACHE_SIZE_def DWARF_UNW_HASH_SIZE_def allocated_def
      split: block.splits if_splits)

text \<open>
  A flush leaves an empty well-formed cache, of the default size when the cache has never been
  used or that size is asked for.
\<close>

lemma flush_empties:
  assumes f: "flushable c"
  shows "\<exists>c'. dwarf_flush_rs_cache (True, True, True) c = Inr (c', True) \<and> rs_inv c' \<and> flushable c' \<and>
     rc_hash c' \<noteq> Null \<and> log_size c' = (if rc_hash c = Null then 7 else log_size c) \<and>
     window c' = replicate (2 ^ log_size c') None \<and> rc_locked c' = rc_locked c"
proof (cases "log_size c = 7 \<or> rc_hash c = Null")
  case True
  let ?c = "c\<lparr>rc_hash := Default, rc_buckets := Default, rc_links := Default, log_size := 7\<rparr>"
  have a: "allocated ?c" "the_links ?c = default_links c" "the_hash ?c = default_hash c"
    "the_buckets ?c = default_buckets c"
    by (simp_all add: allocated_def the_links_def the_hash_def the_buckets_def cells_def)
  have "flushable ?c" using f by (simp add: flushable_def)
  note fl = clear_cache_flushable [OF _ this a(1)]
  have "length (the_links ?c) = 2 ^ log_size ?c" "length (the_hash ?c) = 2 ^ (log_size ?c + 1)"
    "length (the_buckets ?c) = 2 ^ log_size ?c" "log_size ?c \<le> 15"
    unfolding a(2-4) using f by (simp_all add: flushable_def)
  from clear_cache_empty [OF a(1) this] obtain c' where c': "clear_cache ?c = Inr c'" "rs_inv c'"
    "window c' = replicate (2 ^ 7) None" "log_size c' = 7" "rc_locked c' = rc_locked c" by auto
  with fl [OF c'(1)] show ?thesis using True by (auto simp: dwarf_flush_rs_cache_def)
next
  case False
  let ?l = "log_size c"
  let ?c = "c\<lparr>rc_hash := Mapped (replicate (2 ^ (?l + 1)) 0),
     rc_buckets := Mapped (replicate (2 ^ ?l) zero_reg_state),
     rc_links := Mapped (replicate (2 ^ ?l) zero_entry), prev_log_size := ?l\<rparr>"
  have a: "allocated ?c" "the_links ?c = replicate (2 ^ ?l) zero_entry"
    "the_hash ?c = replicate (2 ^ (?l + 1)) 0" "the_buckets ?c = replicate (2 ^ ?l) zero_reg_state"
    by (simp_all add: allocated_def the_links_def the_hash_def the_buckets_def cells_def)
  have "flushable ?c" using f by (simp add: flushable_def)
  note fl = clear_cache_flushable [OF _ this a(1)]
  have "length (the_links ?c) = 2 ^ log_size ?c" "length (the_hash ?c) = 2 ^ (log_size ?c + 1)"
    "length (the_buckets ?c) = 2 ^ log_size ?c" "log_size ?c \<le> 15"
    unfolding a(2-4) using f by (simp_all add: flushable_def)
  from clear_cache_empty [OF a(1) this] obtain c' where c': "clear_cache ?c = Inr c'" "rs_inv c'"
    "window c' = replicate (2 ^ ?l) None" "log_size c' = ?l" "rc_locked c' = rc_locked c" by auto
  have "munmap_block (rc_hash c) (DWARF_UNW_HASH_SIZE (prev_log_size c)) = Inr ()"
    "munmap_block (rc_buckets c) (DWARF_UNW_CACHE_SIZE (prev_log_size c)) = Inr ()"
    "munmap_block (rc_links c) (DWARF_UNW_CACHE_SIZE (prev_log_size c)) = Inr ()"
    using f by (auto simp: munmap_block_def flushable_def DWARF_UNW_CACHE_SIZE_def
        DWARF_UNW_HASH_SIZE_def split: block.splits)
  then have "dwarf_flush_rs_cache (True, True, True) c = Inr (c', True)"
    using False c'(1) by (simp add: dwarf_flush_rs_cache_def Let_def GET_MEMORY_def
        DWARF_UNW_CACHE_SIZE_def DWARF_UNW_HASH_SIZE_def)
  with c' fl [OF c'(1)] False show ?thesis by auto
qed

lemma zero_cache_flushable: "flushable zero_cache"
  by (simp add: flushable_def zero_cache_def DWARF_UNW_CACHE_SIZE_def DWARF_UNW_HASH_SIZE_def)

end
