(* ===== verification/RsCacheProps.thy ===== *)
theory RsCacheProps
  imports RsWindow Ram
begin

text \<open>Properties of the register-state cache and of the calls that configure it.\<close>

section \<open>Lookup and replacement\<close>

text \<open>The use that \<open>find_reg_state\<close> makes of the cache: look up, and add what is missing.\<close>

definition rs_use :: "rs_cache \<Rightarrow> cursor \<Rightarrow> rs_cache res" where
  "rs_use cache c = rbind (rs_lookup cache c) (\<lambda>r. case r of
       Some i \<Rightarrow> Inr cache
     | None \<Rightarrow> rbind (rs_new cache c) (\<lambda>(cache, i). Inr cache))"

fun rs_uses :: "rs_cache \<Rightarrow> cursor list \<Rightarrow> rs_cache res" where
  "rs_uses cache [] = Inr cache"
| "rs_uses cache (c # cs) = rbind (rs_use cache c) (\<lambda>cache. rs_uses cache cs)"

lemma rs_use_touch:
  assumes "rs_inv cache" and "hint_ok cache c" and "c_ip c \<noteq> 0"
  shows "rs_use cache c = Inr (rsc.touch cache c)"
    and "log_size (rsc.touch cache c) = log_size cache"
  using rs_lookup_cached [OF assms(1), of c] rs_add_spec [OF assms(1,3)] assms(2)
  by (auto simp: rs_use_def rsc.touch_def rs_hit_def hint_ok_def)

lemma rs_uses_touch:
  assumes "rs_inv cache" and "list_all (\<lambda>c. hint_ok cache c \<and> c_ip c \<noteq> 0) cs"
  shows "rs_uses cache cs = Inr (foldl rsc.touch cache cs)
    \<and> log_size (foldl rsc.touch cache cs) = log_size cache"
  using assms
proof (induction cs arbitrary: cache)
  case (Cons c cs)
  let ?c1 = "rsc.touch cache c"
  from Cons.prems have p: "hint_ok cache c" "c_ip c \<noteq> 0" by simp_all
  note u = rs_use_touch [OF Cons.prems(1) p]
  have "rs_inv ?c1" using Cons.prems(1) p(2) by (rule rsc.touch_inv)
  moreover have "list_all (\<lambda>c. hint_ok ?c1 c \<and> c_ip c \<noteq> 0) cs"
    using Cons.prems(2) unfolding hint_ok_def u(2) by simp
  ultimately have "rs_uses ?c1 cs = Inr (foldl rsc.touch ?c1 cs)
      \<and> log_size (foldl rsc.touch ?c1 cs) = log_size ?c1" by (rule Cons.IH)
  then show ?case unfolding rs_uses.simps foldl_Cons u rbind_simps .
qed simp

text \<open>C25. In a well-formed cache and for a cursor that has no hint or a hint within the tables of the cache,
  \<open>rs_lookup\<close> ends, accesses no table out of bounds and returns the entry of the cursor's instruction
  pointer; it returns null exactly when the instruction pointer is not among the addresses in the window of
  last additions. (The code does not check the hint: lemma \<open>stale_hint_out_of_bounds\<close>.)\<close>

theorem rs_lookup_window:
  assumes "rs_inv cache" and "hint_ok cache c"
  shows "\<exists>r. rs_lookup cache c = Inr r \<and> (r \<noteq> None \<longleftrightarrow> Some (c_ip c) \<in> set (window cache)) \<and>
    (\<forall>i. r = Some i \<longrightarrow> i < length (the_links cache) \<and> re_valid (the_links cache ! i)
       \<and> re_ip (the_links cache ! i) = c_ip c)"
proof -
  have "rs_lookup cache c = Inr (cached cache (c_ip c))"
    using rs_lookup_cached assms by (simp add: hint_ok_def)
  moreover have "distinct_ips (the_links cache)" using assms(1) by (simp add: rs_inv_def)
  ultimately show ?thesis
    using window_cached [of cache "c_ip c"] cached_Some_iff [of cache "c_ip c"]
    by (intro exI [of _ "cached cache (c_ip c)"]) simp
qed

text \<open>C26. For an instruction pointer that is not 0 and is not yet in the window (\<open>rs_new\<close> is called when the
  lookup has failed), \<open>rs_new\<close> keeps the cache well-formed (every bucket a finite chain through exactly its
  valid entries), forgets the oldest address of the window and adds the new one; it returns the
  position of the round-robin index. (The address 0 makes a chain a loop: lemma \<open>zero_ip_loop\<close>.)\<close>

theorem rs_new_window:
  assumes "rs_inv cache" and "c_ip c \<noteq> 0" and "Some (c_ip c) \<notin> set (window cache)"
  shows "\<exists>cache'. rs_new cache c = Inr (cache', unat (rr_head cache)) \<and> rs_inv cache' \<and>
     window cache' = tl (window cache) @ [Some (c_ip c)]"
  using window_add [OF assms(1,2)] assms(3) window_cached [of cache "c_ip c"] by auto

text \<open>An address that was added to the cache is found again after any uses of the cache that
  are fewer than its entries.\<close>

lemma recently_added_found:
  assumes "rs_inv cache" and "Some (c_ip c) \<notin> set (window cache)"
    and "list_all (\<lambda>c. hint_ok cache c \<and> c_ip c \<noteq> 0) (c # cs)" and "length cs < 2 ^ log_size cache"
  shows "\<exists>cache' i. rs_uses cache (c # cs) = Inr cache' \<and> rs_lookup cache' c = Inr (Some i)"
proof -
  let ?c' = "foldl rsc.touch cache (c # cs)"
  note u = rs_uses_touch [OF assms(1,3)]
  have "list_all (\<lambda>c. c_ip c \<noteq> 0) (c # cs)" using assms(3) by (auto simp: list_all_iff)
  moreover from this have inv: "rs_inv ?c'" by (rule rsc.foldl_touch_inv [OF assms(1)])
  moreover have "\<not> rs_hit cache c" using assms(2) window_cached by (simp add: rs_hit_def)
  ultimately have "rs_hit ?c' c"
    using rsc.recent_held [OF assms(1), of c cs] assms(4) window_length [OF assms(1)] by simp
  then have "cached ?c' (c_ip c) \<noteq> None" by (simp add: rs_hit_def)
  moreover have "rs_lookup ?c' c = Inr (cached ?c' (c_ip c))"
    using rs_lookup_cached [OF inv] u assms(3) by (simp add: hint_ok_def)
  ultimately show ?thesis using u by auto
qed

text \<open>A cursor with a given instruction pointer and no hint.\<close>

definition at_ip :: "unw_word \<Rightarrow> cursor" where
  "at_ip ip = (blank_cursor (ram (\<lambda>_. 0)))\<lparr>c_ip := ip, c_hint := 0\<rparr>"

lemma at_ip_simps [simp]:
  "c_ip (at_ip ip) = ip" "c_hint (at_ip ip) = 0" "hint_ok cache (at_ip ip)"
  "c_sigcontext_format (at_ip ip) = X86_64_SCF_NONE"
  by (simp_all add: at_ip_def hint_ok_def blank_cursor_def)

text \<open>The empty cache of default size.\<close>

lemma flushed_cache:
  obtains c where "dwarf_flush_rs_cache (True, True, True) zero_cache = Inr (c, True)" and "rs_inv c"
    and "log_size c = 7" and "window c = replicate 128 None"
  using flush_empties [OF zero_cache_flushable] by (auto simp: zero_cache_def)

section \<open>Flushing and resizing\<close>

text \<open>The round-up to a power of two.\<close>

declare round_log_size.simps [simp del]

lemma round_log_size_bounds:
  assumes "k \<le> 14" and "k = 0 \<or> 2 ^ (k - 1) < sz"
  shows "round_log_size sz (2 ^ k) k \<le> 15"
    and "sz \<le> 2 ^ 15 \<Longrightarrow> sz \<le> 2 ^ round_log_size sz (2 ^ k) k"
    and "round_log_size sz (2 ^ k) k = 0 \<or> 2 ^ (round_log_size sz (2 ^ k) k - 1) < sz"
proof -
  have "round_log_size sz (2 ^ k) k \<le> 15 \<and>
    (sz \<le> 2 ^ 15 \<longrightarrow> sz \<le> 2 ^ round_log_size sz (2 ^ k) k) \<and>
    (round_log_size sz (2 ^ k) k = 0 \<or> 2 ^ (round_log_size sz (2 ^ k) k - 1) < sz)"
    using assms
  proof (induction "14 - k" arbitrary: k)
    case 0
    then have "k = 14" by simp
    then have "round_log_size sz (2 ^ k) k = (if 2 ^ k < sz then 15 else 14)"
      by (simp add: round_log_size.simps [of sz 16384 14])
    with 0 \<open>k = 14\<close> show ?case by simp
  next
    case (Suc n)
    note step = round_log_size.simps [of sz "2 ^ k" k]
    show ?case
    proof (cases "2 ^ k < sz")
      case True
      have "k < 14" using Suc.hyps(2) by simp
      then have "round_log_size sz (2 ^ k) k = round_log_size sz (2 ^ (k + 1)) (k + 1)"
        using True by (simp add: step mult.commute)
      moreover have "n = 14 - (k + 1)" "k + 1 \<le> 14" "k + 1 = 0 \<or> 2 ^ (k + 1 - 1) < sz"
        using Suc.hyps(2) True by simp_all
      ultimately show ?thesis using Suc.hyps(1) [of "k + 1"] by metis
    next
      case False
      then show ?thesis using Suc.prems by (simp add: step)
    qed
  qed
  then show "round_log_size sz (2 ^ k) k \<le> 15"
    and "sz \<le> 2 ^ 15 \<Longrightarrow> sz \<le> 2 ^ round_log_size sz (2 ^ k) k"
    and "round_log_size sz (2 ^ k) k = 0 \<or> 2 ^ (round_log_size sz (2 ^ k) k - 1) < sz"
    by simp_all
qed

lemma round_log_size_ge: "k \<le> round_log_size sz p k"
proof (induction sz p k rule: round_log_size.induct)
  case (1 sz p l)
  then show ?case by (subst round_log_size.simps) auto
qed

lemmas round_log_size_top = round_log_size_bounds [of 0, simplified]

text \<open>After \<open>unw_flush_cache\<close> the next \<open>get_rs_cache\<close> locks the global cache and hands out
  a well-formed cache that holds no address; once it is put back, the next \<open>get_rs_cache\<close> hands
  out the same cache without flushing it again.\<close>

lemma flush_then_get_empty:
  assumes "caching_policy as = UNW_CACHE_GLOBAL" and "flushable (global_cache as)"
    and "\<not> rc_locked (global_cache as)" and "rc_generation (global_cache as) = cache_generation as"
  shows "\<exists>as' as''. get_rs_cache (True, True, True) (unw_flush_cache as) = Inr (as', True) \<and>
     rs_inv (global_cache as') \<and> set (window (global_cache as')) = {None} \<and>
     rc_locked (global_cache as') \<and> put_rs_cache as' = Inr as'' \<and> get_rs_cache mem as'' = Inr (as', True)"
proof -
  let ?c = "(global_cache as)\<lparr>rc_locked := True\<rparr>" and ?g = "cache_generation as + 1"
  have "flushable ?c" using assms(2) by (simp add: flushable_def)
  from flush_empties [OF this] obtain c' where
    f: "dwarf_flush_rs_cache (True, True, True) ?c = Inr (c', True)" and i: "rs_inv c'"
      "rc_hash c' \<noteq> Null" "window c' = replicate (2 ^ log_size c') None" "rc_locked c'"
    by auto
  let ?as' = "(unw_flush_cache as)\<lparr>global_cache := c'\<lparr>rc_generation := ?g\<rparr>\<rparr>"
  have run: "get_rs_cache (True, True, True) (unw_flush_cache as) = Inr (?as', True)"
    using assms f by (simp add: get_rs_cache_def lock_acquire_def unw_flush_cache_def)
  have same: "the_links (c'\<lparr>rc_generation := ?g\<rparr>) = the_links c'"
    "the_hash (c'\<lparr>rc_generation := ?g\<rparr>) = the_hash c'"
    "the_buckets (c'\<lparr>rc_generation := ?g\<rparr>) = the_buckets c'"
    by (simp_all add: the_links_def the_hash_def the_buckets_def)
  have inv: "rs_inv (global_cache ?as')"
    using i(1) by (simp add: rs_inv_def rs_shape_def same allocated_def)
  have w: "set (window (global_cache ?as')) = {None}"
    using i(3) by (simp add: window_def same)
  define as'' where "as'' = ?as'\<lparr>global_cache := (global_cache ?as')\<lparr>rc_locked := False\<rparr>\<rparr>"
  have p: "put_rs_cache ?as' = Inr as''"
    using assms(1) by (simp add: put_rs_cache_def as''_def unw_flush_cache_def)
  have "(c'\<lparr>rc_generation := ?g, rc_locked := True\<rparr>) = c'\<lparr>rc_generation := ?g\<rparr>" using i(4) by simp
  then have "get_rs_cache mem as'' = Inr (?as', True)"
    using assms(1) i(2) by (simp add: get_rs_cache_def as''_def lock_acquire_def unw_flush_cache_def)
  with run inv w p i(4) show ?thesis by force
qed

text \<open>On a cache that is in use, \<open>unw_set_cache_size\<close> leaves a cache that holds at least as
  many addresses as asked for, up to 32768, and less than twice as many; when the size changes,
  the cache is empty and well-formed.\<close>

lemma set_cache_size_at_least:
  assumes "flushable (global_cache as)" and "rc_hash (global_cache as) \<noteq> Null"
    and "rs_inv (global_cache as)" and "unat sz \<le> 2 ^ 15"
  shows "\<exists>as'. unw_set_cache_size (True, True, True) as sz 0 = Inr (as', True) \<and>
     rs_inv (global_cache as') \<and> unat sz \<le> length (window (global_cache as')) \<and>
     (length (window (global_cache as')) = 1 \<or> length (window (global_cache as')) < 2 * unat sz) \<and>
     (log_size (global_cache as') \<noteq> log_size (global_cache as) \<longrightarrow>
        set (window (global_cache as')) = {None})"
proof -
  define l where "l = round_log_size (unat sz) 1 0"
  have l: "l \<le> 15" "unat sz \<le> 2 ^ l" "(2::nat) ^ l = 1 \<or> 2 ^ l < 2 * unat sz"
  proof -
    show "l \<le> 15" "unat sz \<le> 2 ^ l"
      using round_log_size_top [of "unat sz"] assms(4) by (simp_all add: l_def)
    have "l = 0 \<or> 2 ^ (l - 1) < unat sz"
      using round_log_size_top(3) [of "unat sz"] by (simp add: l_def)
    then show "(2::nat) ^ l = 1 \<or> 2 ^ l < 2 * unat sz" by (cases l) auto
  qed
  show ?thesis
  proof (cases "l = log_size (global_cache as)")
    case True
    then have "unw_set_cache_size (True, True, True) as sz 0 = Inr (as, True)"
      by (simp add: unw_set_cache_size_def l_def)
    then show ?thesis using l True assms(3) window_length [OF assms(3)] by auto
  next
    case False
    let ?c = "(global_cache as)\<lparr>log_size := l\<rparr>"
    have "flushable ?c" using assms(1) l(1) by (simp add: flushable_def)
    from flush_empties [OF this] obtain c' where
      f: "dwarf_flush_rs_cache (True, True, True) ?c = Inr (c', True)" and i: "rs_inv c'"
        "log_size c' = l" "window c' = replicate (2 ^ l) None"
      using assms(2) by auto
    then have "unw_set_cache_size (True, True, True) as sz 0 =
        Inr ((unw_flush_cache (as\<lparr>global_cache := ?c\<rparr>))\<lparr>global_cache := c'\<rparr>, True)"
      using False by (simp add: unw_set_cache_size_def l_def Let_def unw_flush_cache_def)
    then show ?thesis using i l by auto
  qed
qed

text \<open>On an address space whose cache has never been used, \<open>unw_set_cache_size\<close> returns
  success for any larger size and leaves the default cache of 128 entries: the flush takes the
  missing hash table as a request for the default size.\<close>

lemma set_cache_size_fresh_ignored:
  assumes "global_cache as = zero_cache" and "128 < unat sz"
  shows "\<exists>as'. unw_set_cache_size (True, True, True) as sz 0 = Inr (as', True) \<and>
     length (window (global_cache as')) = 128 \<and> log_size (global_cache as') = 7"
proof -
  define l where "l = round_log_size (unat sz) 1 0"
  have l15: "l \<le> 15" using round_log_size_top(1) [of "unat sz"] by (simp add: l_def)
  have "l = round_log_size (unat sz) 2 1"
    using assms(2) round_log_size.simps [of "unat sz" 1 0] by (simp add: l_def)
  then have l0: "l \<noteq> 0" using round_log_size_ge [of 1 "unat sz" 2] by simp
  let ?c = "zero_cache\<lparr>log_size := l\<rparr>"
  have "flushable ?c" using zero_cache_flushable l15 by (simp add: flushable_def)
  from flush_empties [OF this] obtain c' where
    f: "dwarf_flush_rs_cache (True, True, True) ?c = Inr (c', True)" and i: "rs_inv c'" "log_size c' = 7"
    by (auto simp: zero_cache_def)
  have "unw_set_cache_size (True, True, True) as sz 0 =
      Inr ((unw_flush_cache (as\<lparr>global_cache := ?c\<rparr>))\<lparr>global_cache := c'\<rparr>, True)"
    using assms(1) l0 f by (simp add: unw_set_cache_size_def l_def Let_def unw_flush_cache_def zero_cache_def)
  then show ?thesis using i window_length [OF i(1)] by simp
qed

text \<open>C39. When a resized cache cannot get its memory, \<open>get_rs_cache\<close> returns null and keeps
  the lock that it acquired: the next \<open>get_rs_cache\<close> never returns.\<close>

theorem failed_flush_keeps_lock:
  assumes "caching_policy as = UNW_CACHE_GLOBAL" and "flushable (global_cache as)"
    and "\<not> rc_locked (global_cache as)" and "rc_generation (global_cache as) \<noteq> cache_generation as"
    and "rc_hash (global_cache as) \<noteq> Null" and "log_size (global_cache as) \<noteq> 7"
    and "\<not> (fst mem \<and> fst (snd mem) \<and> snd (snd mem))"
  shows "\<exists>as'. get_rs_cache mem as = Inr (as', False) \<and> get_rs_cache mem' as' = Inl Diverged"
proof -
  let ?c = "(global_cache as)\<lparr>rc_locked := True\<rparr>"
  have "munmap_block (rc_hash ?c) (DWARF_UNW_HASH_SIZE (prev_log_size ?c)) = Inr ()"
    "munmap_block (rc_buckets ?c) (DWARF_UNW_CACHE_SIZE (prev_log_size ?c)) = Inr ()"
    "munmap_block (rc_links ?c) (DWARF_UNW_CACHE_SIZE (prev_log_size ?c)) = Inr ()"
    using assms(2) by (auto simp: munmap_block_def flushable_def DWARF_UNW_CACHE_SIZE_def
        DWARF_UNW_HASH_SIZE_def split: block.splits)
  then have "\<exists>c'. dwarf_flush_rs_cache mem ?c = Inr (c', False) \<and> rc_locked c'"
    using assms(5-7) by (auto simp: dwarf_flush_rs_cache_def Let_def GET_MEMORY_def)
  then obtain c' where f: "dwarf_flush_rs_cache mem ?c = Inr (c', False)" "rc_locked c'" by blast
  have "get_rs_cache mem as = Inr (as\<lparr>global_cache := c'\<rparr>, False)"
    using assms(1,3,4) f(1) by (auto simp: get_rs_cache_def lock_acquire_def)
  moreover have "get_rs_cache mem' (as\<lparr>global_cache := c'\<rparr>) = Inl Diverged"
    using assms(1) f(2) by (simp add: get_rs_cache_def lock_acquire_def)
  ultimately show ?thesis by blast
qed

text \<open>
  Two more consequences of a resize: after a failed allocation the next flush unmaps blocks by the
  size of the mappings before, and a hint from before a shrink reads past the entries.
\<close>

lemma failed_resize_unmaps_too_much:
  assumes "log_size c < prev_log_size c" and "log_size c \<noteq> 7" and "flushable c" and "rc_hash c \<noteq> Null"
  shows "\<exists>c'. dwarf_flush_rs_cache (True, True, False) c = Inr (c', False) \<and>
     dwarf_flush_rs_cache mem c' = Inl Out_of_bounds"
proof -
  have "munmap_block (rc_hash c) (DWARF_UNW_HASH_SIZE (prev_log_size c)) = Inr ()"
    "munmap_block (rc_buckets c) (DWARF_UNW_CACHE_SIZE (prev_log_size c)) = Inr ()"
    "munmap_block (rc_links c) (DWARF_UNW_CACHE_SIZE (prev_log_size c)) = Inr ()"
    using assms(3) by (auto simp: munmap_block_def flushable_def DWARF_UNW_CACHE_SIZE_def
        DWARF_UNW_HASH_SIZE_def split: block.splits)
  moreover have "(2::nat) ^ (log_size c + 1) < 2 ^ (prev_log_size c + 1)"
    using assms(1) by (intro power_strict_increasing) simp_all
  ultimately show ?thesis
    using assms(2,4)
    by (auto simp: dwarf_flush_rs_cache_def Let_def GET_MEMORY_def munmap_block_def check_def
        DWARF_UNW_CACHE_SIZE_def DWARF_UNW_HASH_SIZE_def)
qed

lemma stale_hint_out_of_bounds:
  assumes "rs_inv cache" and "0 <s c_hint c" and "2 ^ log_size cache \<le> unat (c_hint c - 1)"
  shows "rs_lookup cache c = Inl Out_of_bounds"
  using assms by (simp add: rs_lookup_def Let_def cache_match_def arr_get_def rs_inv_def rs_shape_def)

section \<open>The address zero\<close>

text \<open>A cache with one entry.\<close>

definition one_cache :: rs_cache where
  "one_cache = \<lparr>rc_locked = False, rr_head = 0, log_size = 0, prev_log_size = 0, rc_generation = 0,
     rc_hash = Mapped [- 1, - 1], rc_buckets = Mapped [zero_reg_state],
     rc_links = Mapped [clear_entry zero_entry],
     default_hash = [], default_buckets = [], default_links = []\<rparr>"

lemma one_cache_inv: "rs_inv one_cache"
proof (rule empty_inv)
  show "rs_shape one_cache"
    by (simp add: rs_shape_def one_cache_def allocated_def the_links_def the_hash_def
        the_buckets_def cells_def)
qed (auto simp: one_cache_def the_links_def the_hash_def cells_def clear_entry_def less_Suc_eq nth_Cons')

lemma chain_self_loop:
  assumes "unat i < DWARF_UNW_CACHE_SIZE (log_size cache)"
    and "cache_match cache i ip = Inr False" and "arr_get (the_links cache) (unat i) = Inr e"
    and "re_coll_chain e = i"
  shows "rs_chain cache ip i = None"
proof -
  have "rs_chain c ip' j = Some r \<Longrightarrow> c = cache \<Longrightarrow> ip' = ip \<Longrightarrow> j = i \<Longrightarrow> False" for c ip' j r
  proof (induction rule: rs_chain.raw_induct [rotated, consumes 1])
    case (1 f c ip' j r)
    then show ?case using assms by simp
  qed
  then show ?thesis by (cases "rs_chain cache ip i") auto
qed

lemma rs_hash_values: "rs_hash 0 0 = 0" "rs_hash 1 0 = 1" "rs_hash 2 0 = 0"
  by (simp_all add: rs_hash_def drop_bit_eq_div)

lemma rs_chain_end:
  "DWARF_UNW_CACHE_SIZE (log_size c) \<le> unat i \<Longrightarrow> rs_chain c ip i = Some (Inr None)"
  by (simp add: rs_chain.simps [of c ip i])

lemma rs_chain_next:
  assumes "unat i < DWARF_UNW_CACHE_SIZE (log_size c)" and "the_links c = L" and "unat i < length L"
    and "\<not> (re_valid (L ! unat i) \<and> ip = re_ip (L ! unat i))"
  shows "rs_chain c ip i = rs_chain c ip (re_coll_chain (L ! unat i))"
  using assms by (auto simp: rs_chain.simps [of c ip i] cache_match_def)

lemma rs_unlink_here:
  assumes "unat head < DWARF_UNW_CACHE_SIZE (log_size c)" and "read_slot c p = Inr head"
  shows "rs_unlink c head p = Some (rbind (read_slot c (In_link (unat head))) (write_slot c p))"
  using assms by (simp add: rs_unlink.simps [of c head p])

text \<open>Caches of one entry, by the hash table and the entry.\<close>

definition small_cache :: "(16 word) list \<Rightarrow> unw_word \<Rightarrow> 16 word \<Rightarrow> rs_cache" where
  "small_cache hs ip i = one_cache\<lparr>rc_hash := Mapped hs, rc_links := Mapped
     [\<lparr>re_ip = ip, re_coll_chain = i, re_hint = 0, re_valid = True, re_signal_frame = False\<rparr>]\<rparr>"

lemma unat_minus_one_16: "unat (- 1 :: 16 word) = 65535"
  by (simp add: unsigned_minus_1_eq_mask mask_eq_exp_minus_1)

lemmas cache_run = unat_minus_one_16 rs_use_def rs_lookup_def rs_new_def Let_def the_hash_def the_links_def cells_def
  with_hash_def with_links_def read_slot_def write_slot_def cache_match_def rs_hash_values
  DWARF_UNW_CACHE_SIZE_def clear_entry_def zero_entry_def small_cache_def one_cache_def

lemma use_0: "rs_use one_cache (at_ip 0) = Inr (small_cache [0, - 1] 0 (- 1))"
  by (simp add: cache_run rs_chain_end)

lemma use_1: "rs_use (small_cache [0, - 1] 0 (- 1)) (at_ip 1) = Inr (small_cache [0, 0] 1 (- 1))"
  by (simp add: cache_run rs_chain_end)

lemma use_0_again: "rs_use (small_cache [0, 0] 1 (- 1)) (at_ip 0) = Inr (small_cache [0, - 1] 0 0)"
  by (simp add: cache_run rs_chain_end rs_chain_next rs_unlink_here)

text \<open>An entry for the address zero is never taken off its chain: with a cache of one entry,
  looking up and adding the addresses 0, 1 and 0 leaves a chain that runs in a circle, and the
  next lookup of another address in that bucket never returns.\<close>

lemma zero_ip_loop:
  "rs_inv one_cache \<and>
   rs_uses one_cache [at_ip 0, at_ip 1, at_ip 0] = Inr (small_cache [0, - 1] 0 0) \<and>
   rs_lookup (small_cache [0, - 1] 0 0) (at_ip 2) = Inl Diverged"
proof (intro conjI)
  show "rs_inv one_cache" by (rule one_cache_inv)
  show "rs_uses one_cache [at_ip 0, at_ip 1, at_ip 0] = Inr (small_cache [0, - 1] 0 0)"
    by (simp add: use_0 use_1 use_0_again)
  have "rs_chain (small_cache [0, - 1] 0 0) 2 0 = None"
    by (rule chain_self_loop [where e = "\<lparr>re_ip = 0, re_coll_chain = 0, re_hint = 0,
          re_valid = True, re_signal_frame = False\<rparr>"]) (simp_all add: cache_run)
  then show "rs_lookup (small_cache [0, - 1] 0 0) (at_ip 2) = Inl Diverged"
    by (simp add: rs_lookup_def rs_hash_values small_cache_def one_cache_def the_hash_def cells_def)
qed

section \<open>Witnesses\<close>

theorem rs_lookup_window_witness:
  "\<exists>c. rs_inv c \<and> window c = replicate 128 None \<and> rs_lookup c (at_ip 5) = Inr None"
proof -
  obtain c where c: "rs_inv c" "window c = replicate 128 None" using flushed_cache by metis
  have "\<exists>r. rs_lookup c (at_ip 5) = Inr r \<and> (r \<noteq> None \<longleftrightarrow> Some (c_ip (at_ip 5)) \<in> set (window c)) \<and>
    (\<forall>i. r = Some i \<longrightarrow> i < length (the_links c) \<and> re_valid (the_links c ! i)
       \<and> re_ip (the_links c ! i) = c_ip (at_ip 5))"
    by (rule rs_lookup_window [OF c(1)]) simp
  then show ?thesis using c by auto
qed

theorem rs_new_window_witness:
  "\<exists>c c'. rs_new c (at_ip 5) = Inr (c', 0) \<and> rs_inv c' \<and>
     window c' = replicate 127 None @ [Some 5]"
proof -
  obtain c where d: "dwarf_flush_rs_cache (True, True, True) zero_cache = Inr (c, True)"
    and c: "rs_inv c" "window c = replicate 128 None" using flushed_cache by metis
  have "rr_head c = 0"
    using d by (auto simp: dwarf_flush_rs_cache_def zero_cache_def clear_cache_def Let_def
        with_hash_def with_links_def res_iff split: if_splits)
  moreover have "\<exists>c'. rs_new c (at_ip 5) = Inr (c', unat (rr_head c)) \<and> rs_inv c' \<and>
     window c' = tl (window c) @ [Some (c_ip (at_ip 5))]"
    by (rule rs_new_window [OF c(1)]) (simp_all add: c(2))
  ultimately show ?thesis using c(2) by auto
qed

lemma recently_added_found_witness:
  "\<exists>c c' i. rs_uses c [at_ip 5, at_ip 6, at_ip 7, at_ip 6] = Inr c' \<and>
     rs_lookup c' (at_ip 5) = Inr (Some i)"
proof -
  obtain c where c: "rs_inv c" "window c = replicate 128 None" "log_size c = 7" using flushed_cache by metis
  have "\<exists>c' i. rs_uses c (at_ip 5 # [at_ip 6, at_ip 7, at_ip 6]) = Inr c' \<and>
     rs_lookup c' (at_ip 5) = Inr (Some i)"
    by (rule recently_added_found [OF c(1)]) (simp_all add: c)
  then show ?thesis by auto
qed

text \<open>A fresh address space with the global caching policy.\<close>

definition fresh_as :: as_caches where
  "fresh_as = \<lparr>caching_policy = UNW_CACHE_GLOBAL, cache_generation = 0, dyn_info_list_addr = 0,
     global_cache = zero_cache, debug_frames = 2\<rparr>"

lemma fresh_as_simps [simp]:
  "caching_policy fresh_as = UNW_CACHE_GLOBAL" "global_cache fresh_as = zero_cache"
  "cache_generation fresh_as = 0"
  by (simp_all add: fresh_as_def)

lemma flush_then_get_empty_witness:
  "\<exists>as'. get_rs_cache (True, True, True) (unw_flush_cache fresh_as) = Inr (as', True) \<and>
     rs_inv (global_cache as') \<and> rc_locked (global_cache as')"
proof -
  have "\<exists>as' as''. get_rs_cache (True, True, True) (unw_flush_cache fresh_as) = Inr (as', True) \<and>
     rs_inv (global_cache as') \<and> set (window (global_cache as')) = {None} \<and>
     rc_locked (global_cache as') \<and> put_rs_cache as' = Inr as''
     \<and> get_rs_cache (True, True, True) as'' = Inr (as', True)"
    by (rule flush_then_get_empty) (simp_all add: zero_cache_flushable, simp_all add: zero_cache_def)
  then show ?thesis by auto
qed

lemma set_cache_size_at_least_witness:
  "\<exists>as as'. unw_set_cache_size (True, True, True) as 1000 0 = Inr (as', True) \<and>
     1000 \<le> length (window (global_cache as')) \<and> length (window (global_cache as')) < 2000"
proof -
  obtain c where c: "rs_inv c" "flushable c" "rc_hash c \<noteq> Null"
    using flush_empties [OF zero_cache_flushable] by auto
  let ?as = "fresh_as\<lparr>global_cache := c\<rparr>"
  have "\<exists>as'. unw_set_cache_size (True, True, True) ?as 1000 0 = Inr (as', True) \<and>
     rs_inv (global_cache as') \<and> unat (1000 :: 64 word) \<le> length (window (global_cache as')) \<and>
     (length (window (global_cache as')) = 1
        \<or> length (window (global_cache as')) < 2 * unat (1000 :: 64 word)) \<and>
     (log_size (global_cache as') \<noteq> log_size (global_cache ?as) \<longrightarrow>
        set (window (global_cache as')) = {None})"
    by (rule set_cache_size_at_least) (simp_all add: c)
  then show ?thesis by auto
qed

lemma set_cache_size_fresh_ignored_witness:
  "\<exists>as'. unw_set_cache_size (True, True, True) fresh_as 1024 0 = Inr (as', True) \<and>
     length (window (global_cache as')) = 128"
proof -
  have "\<exists>as'. unw_set_cache_size (True, True, True) fresh_as 1024 0 = Inr (as', True) \<and>
     length (window (global_cache as')) = 128 \<and> log_size (global_cache as') = 7"
    by (rule set_cache_size_fresh_ignored) simp_all
  then show ?thesis by blast
qed

theorem failed_flush_keeps_lock_witness:
  "\<exists>as as'. get_rs_cache (True, False, True) as = Inr (as', False) \<and>
     get_rs_cache (True, True, True) as' = Inl Diverged"
proof -
  let ?as = "fresh_as\<lparr>cache_generation := 1,
     global_cache := zero_cache\<lparr>rc_hash := Default, log_size := 4\<rparr>\<rparr>"
  have "\<exists>as'. get_rs_cache (True, False, True) ?as = Inr (as', False) \<and>
     get_rs_cache (True, True, True) as' = Inl Diverged"
    using zero_cache_flushable
    by (intro failed_flush_keeps_lock) (simp_all add: flushable_def, simp_all add: zero_cache_def)
  then show ?thesis by blast
qed

end
