(* ===== verification/FindTable.thy ===== *)
theory FindTable
  imports Fde
begin

text \<open>
  Searching a table of unwind information: the entries and the binary searches of
  \<open>src/dwarf/Gfind_proc_info_i.h\<close>, and from \<open>src/dwarf/Gfind_proc_info-lsb.c\<close> the search in a remote table
  and \<open>dwarf_search_unwind_table\<close>, with the extraction of
  procedure information from registered dynamic information (\<open>src/mi/Gdyn-extract.c\<close>).
\<close>

section \<open>Tables\<close>

record table_entry =
  start_ip_offset :: "32 word"
  fde_offset :: "32 word"

record table_entry64 =
  start_ip_offset64 :: "64 word"
  fde_offset64 :: "64 word"

text \<open>
  A pointer to table entries is the function that reads the \<open>i\<close>-th entry. The index of
  \<open>.debug_frame\<close> is an array; a table in \<open>.eh_frame_hdr\<close> is dereferenced in the memory of the
  process.
\<close>

definition local_entry :: "memory \<Rightarrow> unw_word \<Rightarrow> nat \<Rightarrow> table_entry res" where
  "local_entry m table i =
     rbind (local_readu32 m (table + word_of_nat (8 * i))) (\<lambda>(s, addr).
     rbind (local_readu32 m addr) (\<lambda>(f, addr).
     Inr \<lparr>start_ip_offset = s, fde_offset = f\<rparr>))"

definition local_entry64 :: "memory \<Rightarrow> unw_word \<Rightarrow> nat \<Rightarrow> table_entry64 res" where
  "local_entry64 m table i =
     rbind (local_readu64 m (table + word_of_nat (16 * i))) (\<lambda>(s, addr).
     rbind (local_readu64 m addr) (\<lambda>(f, addr).
     Inr \<lparr>start_ip_offset64 = s, fde_offset64 = f\<rparr>))"

section \<open>Binary search\<close>

text \<open>
  The loop that \<open>lookup\<close>, \<open>lookup64\<close> and \<open>remote_lookup\<close> have in common, over the function that
  reads the \<open>start_ip_offset\<close> of an entry as a signed number. The result is the final \<open>hi\<close>.
\<close>

function search_loop :: "(nat \<Rightarrow> int res) \<Rightarrow> int \<Rightarrow> nat \<Rightarrow> nat \<Rightarrow> nat res" where
  "search_loop get rel_ip lo hi =
     (if lo < hi then
        (let mid = (lo + hi) div 2 in
         case get mid of
           Inl e \<Rightarrow> Inl e
         | Inr start \<Rightarrow> if rel_ip < start then search_loop get rel_ip lo mid
                         else search_loop get rel_ip (mid + 1) hi)
      else Inr hi)"
  by pat_completeness auto
termination by (relation "measure (\<lambda>(get, rel_ip, lo, hi). hi - lo)") (auto simp: less_Suc_eq_le)

declare search_loop.simps [simp del]

definition lookup :: "(nat \<Rightarrow> table_entry res) \<Rightarrow> nat \<Rightarrow> 32 word \<Rightarrow> table_entry option res" where
  "lookup table table_size rel_ip =
     (let table_len = table_size div 8 in
      rbind (search_loop (\<lambda>i. rbind (table i) (\<lambda>e. Inr (sint (start_ip_offset e)))) (sint rel_ip)
               0 table_len) (\<lambda>hi.
      if hi = 0 then Inr None else rbind (table (hi - 1)) (\<lambda>e. Inr (Some e))))"

definition lookup64 :: "(nat \<Rightarrow> table_entry64 res) \<Rightarrow> nat \<Rightarrow> 64 word \<Rightarrow> table_entry64 option res" where
  "lookup64 table table_size rel_ip =
     (let table_len = table_size div 16 in
      rbind (search_loop (\<lambda>i. rbind (table i) (\<lambda>e. Inr (sint (start_ip_offset64 e)))) (sint rel_ip)
               0 table_len) (\<lambda>hi.
      if hi = 0 then Inr None else rbind (table (hi - 1)) (\<lambda>e. Inr (Some e))))"

definition remote_read_entry :: "addr_space \<Rightarrow> bool \<Rightarrow> unw_word reader" where
  "remote_read_entry as is_64bit addr =
     (if is_64bit then dwarf_reads64 as addr
      else rbind (dwarf_reads32 as addr) (\<lambda>(val32, addr). Inr (scast val32, addr)))"

text \<open>
  \<open>remote_lookup\<close>, with the start and the FDE offset of the entry found. The member
  \<open>last_ip_offset\<close> is read when there is a next entry; no x86-64 build uses it.
\<close>

definition remote_lookup ::
  "addr_space \<Rightarrow> unw_word \<Rightarrow> nat \<Rightarrow> 64 word \<Rightarrow> bool \<Rightarrow> (unw_word \<times> unw_word) option res" where
  "remote_lookup as table table_size rel_ip is_64bit =
     (let entry_size = (if is_64bit then 16 else 8); table_len = table_size div entry_size;
          addr_of = (\<lambda>i. table + word_of_nat (i * entry_size)) in
      rbind (search_loop
               (\<lambda>i. rbind (remote_read_entry as is_64bit (addr_of i)) (\<lambda>(start, _). Inr (sint start)))
               (sint rel_ip) 0 table_len) (\<lambda>hi.
      if hi = 0 then Inr None else
      rbind (remote_read_entry as is_64bit (addr_of (hi - 1))) (\<lambda>(start_off, e_addr).
      rbind (remote_read_entry as is_64bit e_addr) (\<lambda>(fde_off, e_addr).
      rbind (if hi < table_len then remote_read_entry as is_64bit e_addr else Inr (0, e_addr)) (\<lambda>_.
      Inr (Some (start_off, fde_off)))))))"

section \<open>Tables of unwind information\<close>

text \<open>An element of the list of loaded \<open>.debug_frame\<close> sections.\<close>

record unw_debug_frame_list =
  df_debug_frame :: unw_word
  df_debug_frame_size :: unw_word
  df_index :: "table_entry list option"
  df_start :: unw_word
  df_end :: unw_word

text \<open>
  What the pointer \<open>u.ti.table_data\<close> points to: the descriptor of a \<open>.debug_frame\<close>, or an
  array of words that was copied from a target.
\<close>

datatype table_pointer = Null_table | Fdesc unw_debug_frame_list | Words "unw_word list"

text \<open>An instruction of a dynamic region, and a region.\<close>

record unw_dyn_op =
  dop_tag :: "8 word"
  dop_qp :: "8 word"
  dop_reg :: "16 word"
  dop_when :: "32 word"
  dop_val :: unw_word

record unw_dyn_region =
  dr_insn_count :: "32 word"
  dr_ops :: "unw_dyn_op list"

text \<open>
  \<open>unw_dyn_info_t\<close>. The format \<open>-1\<close> (and any other number that is no format) is \<open>None\<close>. The
  members of the union are members of their own; \<open>segbase\<close> is at the same place in \<open>u.ti\<close> and
  \<open>u.rti\<close>.
\<close>

record unw_dyn_info =
  di_start_ip :: unw_word
  di_end_ip :: unw_word
  di_gp :: unw_word
  di_format :: "unw_dyn_info_format option"
  di_handler :: unw_word
  di_flags :: "32 word"
  di_regions :: "unw_dyn_region list"
  di_segbase :: unw_word
  di_table_len :: unw_word
  di_table_data :: unw_word
  di_table :: table_pointer

definition zero_di :: unw_dyn_info where
  "zero_di = \<lparr>di_start_ip = 0, di_end_ip = 0, di_gp = 0, di_format = Some UNW_INFO_FORMAT_DYNAMIC,
     di_handler = 0, di_flags = 0, di_regions = [], di_segbase = 0, di_table_len = 0,
     di_table_data = 0, di_table = Null_table\<rparr>"

definition is_remote_table :: "unw_dyn_info_format option \<Rightarrow> bool" where
  "is_remote_table fmt \<longleftrightarrow> fmt = Some UNW_INFO_FORMAT_REMOTE_TABLE
     \<or> fmt = Some UNW_INFO_FORMAT_REMOTE_TABLE_64 \<or> fmt = Some UNW_INFO_FORMAT_IP_OFFSET"

text \<open>
  The unwinding process: its own address space, its memory, whether \<open>mempool_alloc\<close> finds room,
  what its stack holds where a procedure information is left uninitialised, and what the bytes of
  a dynamic information are when they are read as a \<open>dwarf_cie_info\<close>.
\<close>

record process =
  local_as :: addr_space
  local_mem :: memory
  pool_room :: bool
  stack_pi :: unw_proc_info
  di_as_cie :: "unw_dyn_info \<Rightarrow> dwarf_cie_info"

text \<open>
  The search part of \<open>dwarf_search_unwind_table\<close>: the offset of the FDE. \<open>is_local\<close> tells
  whether the table is searched in the process itself.
\<close>

definition search_table ::
  "process \<Rightarrow> bool \<Rightarrow> addr_space \<Rightarrow> unw_dyn_info \<Rightarrow> table_entry list option \<Rightarrow> unw_word
    \<Rightarrow> unw_word option res" where
  "search_table pr is_local as di index rel_ip =
     (let is_table64 = (di_format di = Some UNW_INFO_FORMAT_REMOTE_TABLE_64);
          data = di_table_data di; len = unat (di_table_len di * 8) in
      if is_local then
        (if is_table64 then
           rbind (lookup64 (local_entry64 (local_mem pr) data) len rel_ip) (\<lambda>e.
           Inr (map_option fde_offset64 e))
         else
           rbind (case index of
                    Some xs \<Rightarrow> lookup (arr_get xs) (length xs * 8) (ucast rel_ip)
                  | None \<Rightarrow> lookup (local_entry (local_mem pr) data) len (ucast rel_ip)) (\<lambda>e.
           Inr (map_option (\<lambda>e. scast (fde_offset e)) e)))
      else
        rbind (remote_lookup as data len rel_ip is_table64) (\<lambda>r. Inr (map_option snd r)))"

definition dwarf_search_unwind_table ::
  "process \<Rightarrow> bool \<Rightarrow> addr_space \<Rightarrow> unw_word \<Rightarrow> unw_dyn_info \<Rightarrow> unw_proc_info \<Rightarrow> bool
    \<Rightarrow> unw_proc_info res" where
  "dwarf_search_unwind_table pr is_local as ip di pi need_unwind_info =
     (if \<not> (is_remote_table (di_format di) \<or> di_format di = Some UNW_INFO_FORMAT_TABLE)
      then Inl Aborted
      else if \<not> (di_start_ip di \<le> ip \<and> ip < di_end_ip di) then Inl Aborted
      else
        rbind (if is_remote_table (di_format di) then Inr (is_local, as, None, 0)
               else (case di_table di of
                       Fdesc fdesc \<Rightarrow> Inr (True, local_as pr,
                         Some (case df_index fdesc of None \<Rightarrow> [] | Some xs \<Rightarrow> xs),
                         df_debug_frame fdesc)
                     | _ \<Rightarrow> Inl Out_of_bounds)) (\<lambda>(is_local, as, index, debug_frame_base).
        let segbase = di_segbase di;
            ip_base = (if di_format di = Some UNW_INFO_FORMAT_IP_OFFSET then di_start_ip di else segbase) in
        rbind (search_table pr is_local as di index (ip - ip_base)) (\<lambda>found.
        case found of
          None \<Rightarrow> Inl (Err UNW_ENOINFO)
        | Some found_fde_offset \<Rightarrow>
            let base = (if debug_frame_base \<noteq> 0 then debug_frame_base else segbase) in
            rbind (dwarf_extract_proc_info_from_fde as (pool_room pr) (found_fde_offset + base) pi base
                     need_unwind_info (debug_frame_base \<noteq> 0)) (\<lambda>(pi, _).
            let pi = (if di_format di = Some UNW_INFO_FORMAT_TABLE
                      then pi\<lparr>pi_start_ip := pi_start_ip pi + segbase,
                              pi_end_ip := pi_end_ip pi + segbase, pi_debug_frame := True\<rparr>
                      else pi) in
            if ip < pi_start_ip pi \<or> ip \<ge> pi_end_ip pi then Inl (Err UNW_ENOINFO)
            else Inr pi))))"

section \<open>Registered dynamic information\<close>

text \<open>
  \<open>unwi_extract_dynamic_proc_info\<close>. For the format \<open>DYNAMIC\<close> the untyped pointer \<open>unwind_info\<close>
  points to the dynamic information itself. A number that is no format is none of the cases.
\<close>

definition unwi_extract_dynamic_proc_info ::
  "process \<Rightarrow> bool \<Rightarrow> addr_space \<Rightarrow> unw_word \<Rightarrow> unw_proc_info \<Rightarrow> unw_dyn_info \<Rightarrow> bool
    \<Rightarrow> unw_proc_info res" where
  "unwi_extract_dynamic_proc_info pr is_local as ip pi di need_unwind_info =
     (case di_format di of
        None \<Rightarrow> Inl (Err UNW_EINVAL)
      | Some fmt \<Rightarrow>
          let pi = pi\<lparr>pi_start_ip := di_start_ip di, pi_end_ip := di_end_ip di, pi_gp := di_gp di,
                      pi_format := fmt\<rparr> in
          (case fmt of
             UNW_INFO_FORMAT_DYNAMIC \<Rightarrow>
               Inr (pi\<lparr>pi_handler := di_handler di, pi_lsda := 0,
                       pi_debug_frame := (di_flags di AND 32 \<noteq> 0),
                       pi_unwind_info := (if need_unwind_info then Some (di_as_cie pr di) else None)\<rparr>)
           | UNW_INFO_FORMAT_REMOTE_TABLE_64 \<Rightarrow> Inl (Err UNW_EINVAL)
           | _ \<Rightarrow> dwarf_search_unwind_table pr is_local as ip di pi need_unwind_info))"

text \<open>\<open>local_find_proc_info\<close>: the first entry of the list that covers the address.\<close>

fun local_find_proc_info ::
  "process \<Rightarrow> addr_space \<Rightarrow> unw_word \<Rightarrow> unw_proc_info \<Rightarrow> unw_dyn_info list \<Rightarrow> bool \<Rightarrow> unw_proc_info res"
where
  "local_find_proc_info pr as ip pi [] need_unwind_info = Inl (Err UNW_ENOINFO)"
| "local_find_proc_info pr as ip pi (di # rest) need_unwind_info =
     (if di_start_ip di \<le> ip \<and> ip < di_end_ip di
      then unwi_extract_dynamic_proc_info pr True as ip pi di need_unwind_info
      else local_find_proc_info pr as ip pi rest need_unwind_info)"

end
