(* ===== verification/DebugFrame.thy ===== *)
theory DebugFrame
  imports FindTable
begin

text \<open>
  The index of a loaded \<open>.debug_frame\<close> section, from \<open>src/dwarf/Gfind_proc_info-lsb.c\<close>: the two
  passes of \<open>debug_frame_index_make\<close>, the Shell sort of \<open>debug_frame_index_sort\<close>,
  \<open>locate_debug_info\<close> and \<open>dwarf_find_debug_frame\<close>.
\<close>

section \<open>Collecting the entries\<close>

text \<open>The header of an item: its end, and whether it is a CIE; \<open>None\<close> for a terminator.\<close>

definition index_item :: "addr_space \<Rightarrow> unw_word \<Rightarrow> (unw_word \<times> bool) option res" where
  "index_item as addr =
     rbind (dwarf_readu32 as addr) (\<lambda>(u32val, addr).
     if u32val = 0 then Inr None
     else if u32val \<noteq> 0xffffffff then
       (let item_end = addr + ucast u32val in
        rbind (dwarf_readu32 as addr) (\<lambda>(cie_id32, addr). Inr (Some (item_end, cie_id32 = 0xffffffff))))
     else
       rbind (dwarf_readu64 as addr) (\<lambda>(u64val, addr).
       let item_end = addr + u64val in
       rbind (dwarf_readu64 as addr) (\<lambda>(cie_id, addr). Inr (Some (item_end, cie_id = - 1)))))"

text \<open>
  An FDE of the section: the entry for it, or \<open>None\<close> when it cannot be parsed. The procedure
  information is an uninitialised variable of the loop.
\<close>

definition index_entry :: "process \<Rightarrow> unw_word \<Rightarrow> unw_word \<Rightarrow> table_entry option res" where
  "index_entry pr buf item_start =
     (case dwarf_extract_proc_info_from_fde (local_as pr) (pool_room pr) item_start (stack_pi pr) buf
             False True of
        Inr (this_pi, _) \<Rightarrow>
          Inr (Some \<lparr>start_ip_offset = ucast (pi_start_ip this_pi), fde_offset = ucast (item_start - buf)\<rparr>)
      | Inl (Err e) \<Rightarrow> Inr None
      | Inl f \<Rightarrow> Inl f)"

text \<open>
  \<open>debug_frame_index_make\<close>: the first pass has no index and counts, the second stores the
  entries. The reads are those of the buffer of the process itself; where one fails, the model
  stops with the failure.
\<close>

partial_function (option) index_make_loop ::
  "process \<Rightarrow> unw_word \<Rightarrow> unw_word \<Rightarrow> unw_word \<Rightarrow> table_entry list option \<Rightarrow> nat
    \<Rightarrow> (table_entry list option \<times> nat) res option"
where
  "index_make_loop pr buf buf_end addr index count =
     (if addr < buf_end then
        (case index_item (local_as pr) addr of
           Inl e \<Rightarrow> Some (Inl e)
         | Inr None \<Rightarrow> Some (Inr (index, count))
         | Inr (Some (item_end, is_cie)) \<Rightarrow>
             (case (if is_cie then Inr None else index_entry pr buf addr) of
                Inl e \<Rightarrow> Some (Inl e)
              | Inr None \<Rightarrow> index_make_loop pr buf buf_end item_end index count
              | Inr (Some e) \<Rightarrow>
                  (case (case index of None \<Rightarrow> Inr None
                         | Some xs \<Rightarrow> rbind (arr_set xs count e) (\<lambda>xs. Inr (Some xs))) of
                     Inl f \<Rightarrow> Some (Inl f)
                   | Inr index' \<Rightarrow> index_make_loop pr buf buf_end item_end index' (count + 1))))
      else Some (Inr (index, count)))"

definition debug_frame_index_make ::
  "process \<Rightarrow> unw_debug_frame_list \<Rightarrow> (unw_debug_frame_list \<times> nat) res" where
  "debug_frame_index_make pr fdesc =
     rbind (returns (index_make_loop pr (df_debug_frame fdesc)
              (df_debug_frame fdesc + df_debug_frame_size fdesc) (df_debug_frame fdesc) (df_index fdesc) 0))
       (\<lambda>(index, count). Inr (fdesc\<lparr>df_index := index\<rparr>, count))"

section \<open>Sorting the index\<close>

text \<open>The innermost loop: moves greater entries \<open>k\<close> places up and returns the free place.\<close>

function shell_shift ::
  "nat \<Rightarrow> table_entry \<Rightarrow> table_entry list \<Rightarrow> nat \<Rightarrow> table_entry list \<times> nat" where
  "shell_shift k t a j =
     (if k > 0 \<and> j \<ge> k then
        (if sint (start_ip_offset t) \<ge> sint (start_ip_offset (a ! (j - k))) then (a, j)
         else shell_shift k t (a[j := a ! (j - k)]) (j - k))
      else (a, j))"
  by pat_completeness auto
termination by (relation "measure (\<lambda>(k, t, a, j). j)") auto

declare shell_shift.simps [simp del]

definition shell_insert :: "nat \<Rightarrow> table_entry list \<Rightarrow> nat \<Rightarrow> table_entry list" where
  "shell_insert k a i = (let t = a ! i; (a, j) = shell_shift k t a i in a[j := t])"

definition shell_pass :: "nat \<Rightarrow> table_entry list \<Rightarrow> table_entry list" where
  "shell_pass k a = foldl (shell_insert k) a [k..<length a]"

function shell_passes :: "nat \<Rightarrow> table_entry list \<Rightarrow> table_entry list" where
  "shell_passes k a = (if k > 0 then shell_passes (k div 2) (shell_pass k a) else a)"
  by pat_completeness auto
termination by (relation "measure fst") auto

declare shell_passes.simps [simp del]

definition debug_frame_index_sort :: "table_entry list \<Rightarrow> table_entry list" where
  "debug_frame_index_sort a = shell_passes (length a div 2) a"

section \<open>Finding the section of an object\<close>

text \<open>
  What depends on the file system: the path of the binary that an address belongs to
  (\<open>find_binary_for_address\<close>), and the buffer with the \<open>.debug_frame\<close> section of a file
  (\<open>load_debug_frame\<close>). The list is the member \<open>debug_frames\<close> of the address space.
\<close>

record debug_files =
  find_binary_for_address :: "unw_word \<Rightarrow> string option"
  load_debug_frame :: "string \<Rightarrow> (unw_word \<times> unw_word) option"
  list_room :: bool
  index_room :: bool

definition locate_debug_info ::
  "debug_files \<Rightarrow> unw_debug_frame_list list \<Rightarrow> unw_word \<Rightarrow> string \<Rightarrow> unw_word \<Rightarrow> unw_word
    \<Rightarrow> (unw_debug_frame_list \<times> unw_debug_frame_list list) option" where
  "locate_debug_info fs frames addr dlname start endp =
     (case find (\<lambda>w. df_start w \<le> addr \<and> addr < df_end w) frames of
        Some w \<Rightarrow> Some (w, frames)
      | None \<Rightarrow>
          (case (if dlname = [] then find_binary_for_address fs addr else Some dlname) of
             None \<Rightarrow> None
           | Some name \<Rightarrow>
               (case load_debug_frame fs name of
                  None \<Rightarrow> None
                | Some (buf, bufsize) \<Rightarrow>
                    if \<not> list_room fs then None
                    else (let fdesc = \<lparr>df_debug_frame = buf, df_debug_frame_size = bufsize,
                            df_index = None, df_start = start, df_end = endp\<rparr>
                          in Some (fdesc, fdesc # frames)))))"

text \<open>
  The descriptor found is the first of the list that covers the address, so storing the index in
  it is an update of that element.
\<close>

fun store_fdesc ::
  "unw_word \<Rightarrow> unw_debug_frame_list \<Rightarrow> unw_debug_frame_list list \<Rightarrow> unw_debug_frame_list list" where
  "store_fdesc addr fdesc [] = []"
| "store_fdesc addr fdesc (w # ws) =
     (if df_start w \<le> addr \<and> addr < df_end w then fdesc # ws else w # store_fdesc addr fdesc ws)"

text \<open>Building the index of a descriptor that has none: count, allocate, fill, sort.\<close>

definition build_index ::
  "process \<Rightarrow> debug_files \<Rightarrow> unw_debug_frame_list \<Rightarrow> unw_debug_frame_list option res" where
  "build_index pr fs fdesc =
     rbind (debug_frame_index_make pr fdesc) (\<lambda>(_, count).
     if count = 0 \<or> \<not> index_room fs then Inr None
     else rbind (debug_frame_index_make pr
                   (fdesc\<lparr>df_index := Some (replicate count \<lparr>start_ip_offset = 0, fde_offset = 0\<rparr>)\<rparr>))
            (\<lambda>(fdesc, _).
          Inr (Some (fdesc\<lparr>df_index := map_option debug_frame_index_sort (df_index fdesc)\<rparr>))))"

text \<open>
  \<open>dwarf_find_debug_frame\<close>: the new value of \<open>found\<close>, the information about the table and the list
  of descriptors. A new descriptor that does not cover the address stays first in the list.
\<close>

definition dwarf_find_debug_frame ::
  "process \<Rightarrow> debug_files \<Rightarrow> unw_debug_frame_list list \<Rightarrow> bool \<Rightarrow> unw_dyn_info \<Rightarrow> unw_word
    \<Rightarrow> unw_word \<Rightarrow> string \<Rightarrow> unw_word \<Rightarrow> unw_word
    \<Rightarrow> (bool \<times> unw_dyn_info \<times> unw_debug_frame_list list) res" where
  "dwarf_find_debug_frame pr fs frames found di ip segbase obj_name start endp =
     (case locate_debug_info fs frames ip obj_name start endp of
        None \<Rightarrow> Inr (found, di, frames)
      | Some (fdesc, frames') \<Rightarrow>
          if df_debug_frame_size fdesc = 0 then Inr (found, di, frames')
          else
            rbind (case df_index fdesc of
                     Some xs \<Rightarrow> Inr (Some (fdesc, frames'))
                   | None \<Rightarrow>
                       rbind (build_index pr fs fdesc) (\<lambda>r. Inr (map_option (\<lambda>fdesc'.
                         (fdesc', if df_start fdesc \<le> ip \<and> ip < df_end fdesc
                                  then store_fdesc ip fdesc' frames' else fdesc' # tl frames')) r)))
              (\<lambda>r. case r of
                 None \<Rightarrow> Inr (found, di, frames')
               | Some (fdesc, frames') \<Rightarrow>
                   Inr (True, di\<lparr>di_format := Some UNW_INFO_FORMAT_TABLE, di_start_ip := df_start fdesc,
                          di_end_ip := df_end fdesc, di_table := Fdesc fdesc,
                          di_segbase := segbase\<rparr>, frames')))"

end
