(* ===== verification/FindProc.thy ===== *)
theory FindProc
  imports DebugFrame
begin

text \<open>
  Finding the procedure information for an address of the process itself, from
  \<open>src/dwarf/Gfind_proc_info-lsb.c\<close>: the linear search of \<open>.eh_frame\<close>, the callback for the
  loaded objects (\<open>dwarf_callback\<close>) and \<open>dwarf_find_proc_info\<close>.
\<close>

section \<open>Linear search\<close>

text \<open>
  \<open>linear_search\<close> over at most \<open>n\<close> entries, with whether it returns 1; the caller does not
  distinguish the other results. An entry that cannot be parsed leaves the procedure information
  of the entry before.
\<close>

fun linear_search ::
  "process \<Rightarrow> unw_word \<Rightarrow> unw_word \<Rightarrow> unw_word \<Rightarrow> nat \<Rightarrow> unw_word \<Rightarrow> unw_proc_info \<Rightarrow> bool
    \<Rightarrow> (unw_proc_info \<times> bool) res"
where
  "linear_search pr ip eh_frame_start eh_frame_end 0 addr pi need_unwind_info = Inr (pi, False)"
| "linear_search pr ip eh_frame_start eh_frame_end (Suc n) addr pi need_unwind_info =
     (if \<not> addr < eh_frame_end then Inr (pi, False)
      else
        (case dwarf_extract_proc_info_from_fde (local_as pr) (pool_room pr) addr pi eh_frame_start
                False False of
           Inl (Err e) \<Rightarrow> Inr (pi, False)
         | Inl f \<Rightarrow> Inl f
         | Inr (pi', addr') \<Rightarrow>
             if pi_start_ip pi' \<le> ip \<and> ip < pi_end_ip pi' then
               (if \<not> need_unwind_info then Inr (pi', True)
                else (case dwarf_extract_proc_info_from_fde (local_as pr) (pool_room pr) addr pi'
                              eh_frame_start True False of
                        Inl (Err e) \<Rightarrow> Inr (pi', False)
                      | Inl f \<Rightarrow> Inl f
                      | Inr (pi'', _) \<Rightarrow> Inr (pi'', True)))
             else linear_search pr ip eh_frame_start eh_frame_end n addr' pi' need_unwind_info))"

section \<open>Loaded objects\<close>

datatype segment_type = PT_LOAD | PT_DYNAMIC | PT_GNU_EH_FRAME | PT_OTHER "32 word"

record phdr =
  p_type :: segment_type
  p_vaddr :: unw_word
  p_memsz :: unw_word
  p_filesz :: unw_word

record dl_phdr_info =
  dlpi_addr :: unw_word
  dlpi_name :: string
  dlpi_phdr :: "phdr list"

text \<open>
  What the files of the objects hold, beside the \<open>.debug_frame\<close> sections: the address of
  \<open>.eh_frame\<close> in a file that \<open>elf_map_image\<close> can map, and the path of the executable.
\<close>

record object_files = debug_files +
  eh_frame_shdr :: "string \<Rightarrow> unw_word option"
  exe_image_path :: string

definition dwarf_find_eh_frame_section :: "object_files \<Rightarrow> dl_phdr_info \<Rightarrow> unw_word" where
  "dwarf_find_eh_frame_section fs info =
     (case eh_frame_shdr fs (if dlpi_name info = [] then exe_image_path fs else dlpi_name info) of
        None \<Rightarrow> 0
      | Some sh_addr \<Rightarrow> sh_addr + dlpi_addr info)"

text \<open>The first loop of \<open>dwarf_callback\<close>: the segments that matter, and the end of the loaded ones.\<close>

record segments =
  seg_text :: "phdr option"
  seg_eh_hdr :: "phdr option"
  seg_dynamic :: "phdr option"
  max_load_addr :: unw_word

definition scan_segment :: "unw_word \<Rightarrow> unw_word \<Rightarrow> segments \<Rightarrow> phdr \<Rightarrow> segments" where
  "scan_segment ip load_base s ph =
     (case p_type ph of
        PT_LOAD \<Rightarrow>
          (let vaddr = p_vaddr ph + load_base;
               s = (if vaddr \<le> ip \<and> ip < vaddr + p_memsz ph then s\<lparr>seg_text := Some ph\<rparr> else s)
           in if vaddr + p_filesz ph > max_load_addr s
              then s\<lparr>max_load_addr := vaddr + p_filesz ph\<rparr> else s)
      | PT_GNU_EH_FRAME \<Rightarrow> s\<lparr>seg_eh_hdr := Some ph\<rparr>
      | PT_DYNAMIC \<Rightarrow> s\<lparr>seg_dynamic := Some ph\<rparr>
      | PT_OTHER t \<Rightarrow> s)"

definition scan_segments :: "unw_word \<Rightarrow> dl_phdr_info \<Rightarrow> segments" where
  "scan_segments ip info = foldl (scan_segment ip (dlpi_addr info))
     \<lparr>seg_text = None, seg_eh_hdr = None, seg_dynamic = None, max_load_addr = 0\<rparr> (dlpi_phdr info)"

text \<open>The extent of all loaded segments, for the descriptor of a \<open>.debug_frame\<close>.\<close>

definition grow_extent :: "unw_word \<Rightarrow> unw_word \<times> unw_word \<Rightarrow> phdr \<Rightarrow> unw_word \<times> unw_word" where
  "grow_extent load_base se ph =
     (if p_type ph = PT_LOAD
      then (let seg_start = load_base + p_vaddr ph; seg_end = seg_start + p_memsz ph
            in (min seg_start (fst se), max seg_end (snd se)))
      else se)"

definition object_extent :: "dl_phdr_info \<Rightarrow> unw_word \<times> unw_word" where
  "object_extent info = foldl (grow_extent (dlpi_addr info)) (- 1, 0) (dlpi_phdr info)"

text \<open>The loop over the dynamic section: the value of \<open>DT_PLTGOT\<close> if there is one before the end.\<close>

partial_function (option) find_pltgot :: "memory \<Rightarrow> unw_word \<Rightarrow> unw_word option res option" where
  "find_pltgot m dyn =
     (case local_readu64 m dyn of
        Inl e \<Rightarrow> Some (Inl e)
      | Inr (d_tag, addr) \<Rightarrow>
          if d_tag = 0 then Some (Inr None)
          else if d_tag = 3 then
            Some (rbind (local_readu64 m addr) (\<lambda>(d_ptr, _). Inr (Some d_ptr)))
          else find_pltgot m (dyn + 16))"

section \<open>The callback\<close>

record dwarf_callback_data =
  cb_pi :: unw_proc_info
  cb_single_fde :: bool
  cb_di :: unw_dyn_info
  cb_di_debug :: unw_dyn_info

text \<open>The header of the table, in memory or made up for an object without one.\<close>

record eh_frame_hdr =
  hdr_addr :: unw_word
  hdr_synthetic :: "unw_word option"
  hdr_version :: "8 word"
  eh_frame_ptr_enc :: "8 word"
  fde_count_enc :: "8 word"
  table_enc :: "8 word"

definition locate_hdr :: "process \<Rightarrow> object_files \<Rightarrow> dl_phdr_info \<Rightarrow> segments \<Rightarrow> eh_frame_hdr option" where
  "locate_hdr pr fs info s =
     (case seg_eh_hdr s of
        Some ph \<Rightarrow>
          (let hdr = p_vaddr ph + dlpi_addr info; m = local_mem pr in
           if hdr = 0 then None
           else Some \<lparr>hdr_addr = hdr, hdr_synthetic = None, hdr_version = m hdr,
                  eh_frame_ptr_enc = m (hdr + 1), fde_count_enc = m (hdr + 2), table_enc = m (hdr + 3)\<rparr>)
      | None \<Rightarrow>
          (let eh_frame = dwarf_find_eh_frame_section fs info in
           if eh_frame = 0 then None
           else Some \<lparr>hdr_addr = 0, hdr_synthetic = Some eh_frame, hdr_version = 1,
                  eh_frame_ptr_enc = DW_EH_PE_absptr OR DW_EH_PE_udata8,
                  fde_count_enc = DW_EH_PE_omit, table_enc = DW_EH_PE_omit\<rparr>))"

text \<open>
  The two encoded values behind the header bytes: the start of \<open>.eh_frame\<close> and the number of
  table entries, with the address of the table. The made-up header holds the first one itself.
\<close>

definition read_hdr ::
  "process \<Rightarrow> eh_frame_hdr \<Rightarrow> unw_proc_info \<Rightarrow> (unw_word \<times> unw_word \<times> unw_word) res" where
  "read_hdr pr hdr pi =
     (case hdr_synthetic hdr of
        Some eh_frame \<Rightarrow> Inr (eh_frame, 0, 0)
      | None \<Rightarrow>
          rbind (dwarf_read_encoded_pointer (local_as pr) (eh_frame_ptr_enc hdr) pi (hdr_addr hdr + 4))
            (\<lambda>(eh_frame_start, addr).
          rbind (dwarf_read_encoded_pointer (local_as pr) (fde_count_enc hdr) pi addr)
            (\<lambda>(fde_count, addr).
          Inr (eh_frame_start, fde_count, addr))))"

text \<open>
  The part of \<open>dwarf_callback\<close> for an object with a header: the new callback data and whether
  something was found. A negative return value is the error in the place of the pair.
\<close>

definition use_hdr ::
  "process \<Rightarrow> dl_phdr_info \<Rightarrow> segments \<Rightarrow> phdr \<Rightarrow> eh_frame_hdr \<Rightarrow> unw_word \<Rightarrow> bool
    \<Rightarrow> dwarf_callback_data \<Rightarrow> (dwarf_callback_data \<times> bool) res" where
  "use_hdr pr info s text hdr ip need_unwind_info cb =
     rbind (read_hdr pr hdr (cb_pi cb)) (\<lambda>(eh_frame_start, fde_count, addr).
     let datarel4 = DW_EH_PE_datarel OR DW_EH_PE_sdata4; datarel8 = DW_EH_PE_datarel OR DW_EH_PE_sdata8 in
     if table_enc hdr \<noteq> datarel4 \<and> table_enc hdr \<noteq> datarel8 then
       (if eh_frame_ptr_enc hdr = DW_EH_PE_omit then Inl Aborted
        else
          let count = (if fde_count_enc hdr = DW_EH_PE_omit then - 1 else fde_count) in
          rbind (linear_search pr ip eh_frame_start (max_load_addr s) (unat count) eh_frame_start
                   (cb_pi cb) need_unwind_info) (\<lambda>(pi, found).
          Inr (cb\<lparr>cb_pi := pi, cb_single_fde := found \<or> cb_single_fde cb\<rparr>, found)))
     else
       let is_sdata8 = (table_enc hdr = datarel8);
           words = (if is_sdata8 then 2 else 1);
           start_ip = p_vaddr text + dlpi_addr info in
       Inr (cb\<lparr>cb_di := (cb_di cb)\<lparr>
              di_format := Some (if is_sdata8 then UNW_INFO_FORMAT_REMOTE_TABLE_64
                                 else UNW_INFO_FORMAT_REMOTE_TABLE),
              di_start_ip := start_ip, di_end_ip := start_ip + p_memsz text,
              di_table_data := addr, di_table_len := fde_count * (words * 8) div 8,
              di_segbase := hdr_addr hdr\<rparr>\<rparr>, True))"

text \<open>
  \<open>dwarf_callback\<close>, with the callback data, the list of descriptors and the return value it
  leaves. The argument \<open>info_size\<close> is the size of the structure that the C library passes.
\<close>

definition dwarf_callback ::
  "process \<Rightarrow> object_files \<Rightarrow> unw_word \<Rightarrow> bool \<Rightarrow> nat \<Rightarrow> dl_phdr_info
    \<Rightarrow> dwarf_callback_data \<times> unw_debug_frame_list list
    \<Rightarrow> (dwarf_callback_data \<times> unw_debug_frame_list list \<times> int) res" where
  "dwarf_callback pr fs ip need_unwind_info info_size info st =
     (let (cb, frames) = st in
      if info_size < 26 then Inr (cb, frames, - 1) else
      let s = scan_segments ip info in
      case seg_text s of
        None \<Rightarrow> Inr (cb, frames, 0)
      | Some text \<Rightarrow>
          let with_debug_frame = (\<lambda>cb found.
                let (start, endp) = object_extent info in
                rbind (dwarf_find_debug_frame pr (debug_files.truncate fs) frames found (cb_di_debug cb) ip
                         (dlpi_addr info) (dlpi_name info) start endp) (\<lambda>(found, di_debug, frames).
                Inr (cb\<lparr>cb_di_debug := di_debug\<rparr>, frames, if found then 1 else 0))) in
          (case locate_hdr pr fs info s of
             None \<Rightarrow> with_debug_frame cb False
           | Some hdr \<Rightarrow>
               rbind (case seg_dynamic s of
                        Some ph \<Rightarrow>
                          rbind (returns (find_pltgot (local_mem pr) (p_vaddr ph + dlpi_addr info))) (\<lambda>r.
                          Inr (case r of None \<Rightarrow> di_gp (cb_di cb) | Some gp \<Rightarrow> gp))
                      | None \<Rightarrow> Inr 0) (\<lambda>gp.
               let cb = cb\<lparr>cb_di := (cb_di cb)\<lparr>di_gp := gp\<rparr>, cb_pi := (cb_pi cb)\<lparr>pi_gp := gp\<rparr>\<rparr> in
               if hdr_version hdr \<noteq> 1 then Inr (cb, frames, 0)
               else (case use_hdr pr info s text hdr ip need_unwind_info cb of
                       Inl (Err e) \<Rightarrow> Inr (cb, frames, - unw_error_code e)
                     | Inl f \<Rightarrow> Inl f
                     | Inr (cb, found) \<Rightarrow> with_debug_frame cb found))))"

text \<open>
  \<open>dl_iterate_phdr\<close> of the C library, the default of \<open>iterate_phdr_function\<close>: it calls the
  callback for the objects in turn until one call returns a value that is not zero.
\<close>

fun iterate_phdr ::
  "(dl_phdr_info \<Rightarrow> 's \<Rightarrow> ('a \<times> 'b \<times> int) res) \<Rightarrow> ('a \<times> 'b \<Rightarrow> 's) \<Rightarrow> dl_phdr_info list \<Rightarrow> 'a \<times> 'b
    \<Rightarrow> ('a \<times> 'b \<times> int) res"
where
  "iterate_phdr callback mk [] (a, b) = Inr (a, b, 0)"
| "iterate_phdr callback mk (info # infos) (a, b) =
     rbind (callback info (mk (a, b))) (\<lambda>(a, b, ret).
     if ret \<noteq> 0 then Inr (a, b, ret) else iterate_phdr callback mk infos (a, b))"

text \<open>\<open>dwarf_find_proc_info\<close> for the process itself, with the list of descriptors it leaves.\<close>

definition dwarf_find_proc_info ::
  "process \<Rightarrow> object_files \<Rightarrow> dl_phdr_info list \<Rightarrow> unw_debug_frame_list list \<Rightarrow> unw_word
    \<Rightarrow> unw_proc_info \<Rightarrow> bool \<Rightarrow> unw_proc_info res \<times> unw_debug_frame_list list" where
  "dwarf_find_proc_info pr fs objects frames ip pi need_unwind_info =
     (let cb = \<lparr>cb_pi = pi, cb_single_fde = False, cb_di = zero_di\<lparr>di_format := None\<rparr>,
                cb_di_debug = zero_di\<lparr>di_format := None\<rparr>\<rparr> in
      case iterate_phdr (dwarf_callback pr fs ip need_unwind_info 64) id objects (cb, frames) of
        Inl f \<Rightarrow> (Inl f, frames)
      | Inr (cb, frames, ret) \<Rightarrow>
          (if ret > 0 then
             (if cb_single_fde cb then Inr (cb_pi cb)
              else
                (let look = (\<lambda>di. if di_format di = None then Inl (Err UNW_ENOINFO)
                       else dwarf_search_unwind_table pr True (local_as pr) ip di (cb_pi cb)
                              need_unwind_info) in
                 case look (cb_di cb) of
                   Inl f \<Rightarrow> if f = Err UNW_ENOINFO then look (cb_di_debug cb) else Inl f
                 | Inr pi \<Rightarrow> Inr pi))
           else Inl (Err UNW_ENOINFO), frames))"

end
