(* ===== verification/FindLemmas.thy ===== *)
theory FindLemmas
  imports FindProc Ram "HOL-Library.Multiset"
begin

text \<open>
  The binary search finds the last entry that does not start behind the address, in every
  representation of a sorted table; the Shell sort sorts; the two passes over a \<open>.debug_frame\<close>
  section agree.
\<close>

section \<open>Sorted tables\<close>

text \<open>
  What the binary searches rely on: a table in order, whose entries have keys that can be read and
  do not decrease.
\<close>

locale ordered_table =
  fixes ordered :: "'t \<Rightarrow> bool" and len :: "'t \<Rightarrow> nat" and key :: "'t \<Rightarrow> nat \<Rightarrow> int"
    and get :: "'t \<Rightarrow> nat \<Rightarrow> int res"
  assumes get_key: "ordered t \<Longrightarrow> i < len t \<Longrightarrow> get t i = Inr (key t i)"
    and key_mono: "ordered t \<Longrightarrow> i \<le> j \<Longrightarrow> j < len t \<Longrightarrow> key t i \<le> key t j"
begin

text \<open>The number of entries that do not start behind \<open>x\<close>; they come first.\<close>

definition below :: "'t \<Rightarrow> int \<Rightarrow> nat" where
  "below t x = length (takeWhile (\<lambda>i. key t i \<le> x) [0..<len t])"

lemma below_unique:
  assumes "r \<le> len t" and "\<And>i. i < r \<Longrightarrow> key t i \<le> x" and "r < len t \<Longrightarrow> x < key t r"
  shows "below t x = r"
proof -
  have "takeWhile (\<lambda>i. key t i \<le> x) [0..<len t] = take r [0..<len t]"
    using assms by (intro takeWhile_eq_take_P_nth) auto
  then show ?thesis using assms(1) by (simp add: below_def)
qed

lemma search_loop_below:
  assumes "ordered t" and "lo \<le> hi" and "hi \<le> len t"
    and "\<And>i. i < lo \<Longrightarrow> key t i \<le> x" and "\<And>i. hi \<le> i \<Longrightarrow> i < len t \<Longrightarrow> x < key t i"
  shows "search_loop (get t) x lo hi = Inr (below t x)"
  using assms(2-)
proof (induction "get t" x lo hi rule: search_loop.induct)
  case (1 rel_ip lo hi)
  show ?case
  proof (cases "lo < hi")
    case True
    let ?mid = "(lo + hi) div 2"
    have mid: "lo \<le> ?mid" "?mid < hi" "?mid < len t" using True "1.prems"(2) by simp_all
    then have g: "get t ?mid = Inr (key t ?mid)" using get_key [OF assms(1)] by blast
    show ?thesis
    proof (cases "rel_ip < key t ?mid")
      case less: True
      have "rel_ip < key t i" if "?mid \<le> i" "i < len t" for i
        using less key_mono [OF assms(1) that] by simp
      then have "search_loop (get t) rel_ip lo ?mid = Inr (below t rel_ip)"
        using "1.hyps"(1) [OF True refl g less] mid "1.prems" by simp
      then show ?thesis unfolding search_loop.simps [of _ _ lo hi] using True g less by simp
    next
      case False
      have "key t i \<le> rel_ip" if "i < ?mid + 1" for i
        using False key_mono [OF assms(1), of i ?mid] mid that by simp
      then have "search_loop (get t) rel_ip (?mid + 1) hi = Inr (below t rel_ip)"
        using "1.hyps"(2) [OF True refl g False] mid "1.prems" by simp
      then show ?thesis unfolding search_loop.simps [of _ _ lo hi] using True g False by simp
    qed
  next
    case False
    then have "lo = hi" using "1.prems"(1) by simp
    then show ?thesis
      unfolding search_loop.simps [of _ _ lo hi]
      using False "1.prems" by (auto intro!: below_unique [symmetric])
  qed
qed

lemma search_finds: "ordered t \<Longrightarrow> search_loop (get t) x 0 (len t) = Inr (below t x)"
  by (rule search_loop_below) simp_all

lemma below_le: "below t x \<le> len t"
  using length_takeWhile_le [of "\<lambda>i. key t i \<le> x" "[0..<len t]"] by (simp add: below_def)

text \<open>The entry before the result is the last one that does not start behind \<open>x\<close>.\<close>

lemma below_iff:
  assumes "ordered t" and "i < len t"
  shows "i < below t x \<longleftrightarrow> key t i \<le> x"
proof
  assume "i < below t x"
  then have "[0..<len t] ! i \<in> set (takeWhile (\<lambda>i. key t i \<le> x) [0..<len t])"
    unfolding below_def by (metis nth_mem takeWhile_nth)
  then show "key t i \<le> x" using assms(2) by (auto dest: set_takeWhileD)
next
  assume k: "key t i \<le> x"
  show "i < below t x"
  proof (rule ccontr)
    assume "\<not> i < below t x"
    then have b: "below t x \<le> i" by simp
    then have "below t x < length [0..<len t]" using assms(2) by simp
    then have "\<not> key t ([0..<len t] ! below t x) \<le> x"
      unfolding below_def by (rule nth_length_takeWhile)
    then have "x < key t (below t x)" using b assms(2) by simp
    also have "\<dots> \<le> key t i" using key_mono [OF assms(1) b assms(2)] .
    finally show False using k by simp
  qed
qed

end

text \<open>An array of entries, entries in memory and entries in a target are such tables.\<close>

definition entry_start :: "table_entry \<Rightarrow> int" where
  "entry_start e = sint (start_ip_offset e)"

interpretation index: ordered_table "\<lambda>xs. sorted (map entry_start xs)" length
  "\<lambda>xs i. entry_start (xs ! i)" "\<lambda>xs i. rbind (arr_get xs i) (\<lambda>e. Inr (sint (start_ip_offset e)))"
proof
  fix xs :: "table_entry list" and i j
  show "i < length xs \<Longrightarrow> rbind (arr_get xs i) (\<lambda>e. Inr (sint (start_ip_offset e))) = Inr (entry_start (xs ! i))"
    by (simp add: entry_start_def)
  show "sorted (map entry_start xs) \<Longrightarrow> i \<le> j \<Longrightarrow> j < length xs \<Longrightarrow> entry_start (xs ! i) \<le> entry_start (xs ! j)"
    using sorted_nth_mono [of "map entry_start xs" i j] by simp
qed

text \<open>
  A table in a target: the entries \<open>es\<close> (start and FDE offset) can be read behind one another
  from the address \<open>table\<close>.
\<close>

record target_table =
  tt_as :: addr_space
  tt_addr :: unw_word
  tt_64 :: bool
  tt_entries :: "(unw_word \<times> unw_word) list"

definition tt_size :: "target_table \<Rightarrow> nat" where
  "tt_size t = (if tt_64 t then 16 else 8)"

definition tt_pos :: "target_table \<Rightarrow> nat \<Rightarrow> unw_word" where
  "tt_pos t i = tt_addr t + word_of_nat (i * tt_size t)"

definition holds_entries :: "target_table \<Rightarrow> bool" where
  "holds_entries t \<longleftrightarrow> (\<forall>i < length (tt_entries t). \<exists>a b.
     remote_read_entry (tt_as t) (tt_64 t) (tt_pos t i) = Inr (fst (tt_entries t ! i), a) \<and>
     remote_read_entry (tt_as t) (tt_64 t) a = Inr (snd (tt_entries t ! i), b) \<and>
     (Suc i < length (tt_entries t) \<longrightarrow> b = tt_pos t (Suc i)))"

interpretation target: ordered_table
  "\<lambda>t. holds_entries t \<and> sorted (map (sint \<circ> fst) (tt_entries t))"
  "\<lambda>t. length (tt_entries t)" "\<lambda>t i. sint (fst (tt_entries t ! i))"
  "\<lambda>t i. rbind (remote_read_entry (tt_as t) (tt_64 t) (tt_pos t i)) (\<lambda>(s, _). Inr (sint s))"
proof
  fix t i j
  assume t: "holds_entries t \<and> sorted (map (sint \<circ> fst) (tt_entries t))"
  show "i < length (tt_entries t) \<Longrightarrow>
      rbind (remote_read_entry (tt_as t) (tt_64 t) (tt_pos t i)) (\<lambda>(s, _). Inr (sint s))
      = Inr (sint (fst (tt_entries t ! i)))"
    using t by (auto simp: holds_entries_def)
  show "i \<le> j \<Longrightarrow> j < length (tt_entries t) \<Longrightarrow>
      sint (fst (tt_entries t ! i)) \<le> sint (fst (tt_entries t ! j))"
    using t sorted_nth_mono [of "map (sint \<circ> fst) (tt_entries t)" i j] by simp
qed

section \<open>The entry found\<close>

text \<open>The specification: the last entry whose start is not behind the address.\<close>

definition last_entry :: "(unw_word \<times> unw_word) list \<Rightarrow> unw_word \<Rightarrow> (unw_word \<times> unw_word) option" where
  "last_entry es rel_ip =
     (let xs = filter (\<lambda>e. sint (fst e) \<le> sint rel_ip) es in if xs = [] then None else Some (last xs))"

lemma filter_take:
  assumes "r \<le> length es" and "\<And>i. i < length es \<Longrightarrow> i < r \<longleftrightarrow> P (es ! i)"
  shows "filter P es = take r es"
proof -
  have "P x" if m: "x \<in> set (take r es)" for x
  proof -
    obtain i where "i < length (take r es)" "take r es ! i = x"
      using m unfolding in_set_conv_nth by blast
    then have "x = es ! i" "i < r" by simp_all
    then show ?thesis using assms(1) assms(2) [of i] by simp
  qed
  then have "filter P (take r es) = take r es" by (simp add: filter_id_conv)
  moreover have "\<not> P x" if m: "x \<in> set (drop r es)" for x
  proof -
    obtain i where "i < length (drop r es)" "drop r es ! i = x"
      using m unfolding in_set_conv_nth by blast
    then have "x = es ! (r + i)" "r + i < length es" using assms(1) by simp_all
    then show ?thesis using assms(2) [of "r + i"] by simp
  qed
  then have "filter P (drop r es) = []" by (simp add: filter_empty_conv)
  then show ?thesis by (metis append_Nil2 append_take_drop_id calculation filter_append)
qed

lemma last_entry_below:
  assumes "r \<le> length es" and "\<And>i. i < length es \<Longrightarrow> i < r \<longleftrightarrow> sint (fst (es ! i)) \<le> sint rel_ip"
  shows "last_entry es rel_ip = (if r = 0 then None else Some (es ! (r - 1)))"
proof -
  have "filter (\<lambda>e. sint (fst e) \<le> sint rel_ip) es = take r es" by (rule filter_take [OF assms])
  then show ?thesis using assms(1) by (auto simp: last_entry_def Let_def last_conv_nth)
qed

lemma remote_lookup_last:
  assumes h: "holds_entries t" and s: "sorted (map (sint \<circ> fst) (tt_entries t))"
  shows "remote_lookup (tt_as t) (tt_addr t) (length (tt_entries t) * tt_size t) rel_ip (tt_64 t)
    = Inr (last_entry (tt_entries t) rel_ip)"
proof -
  let ?n = "length (tt_entries t)" and ?r = "target.below t (sint rel_ip)"
  have o: "holds_entries t \<and> sorted (map (sint \<circ> fst) (tt_entries t))" using h s by simp
  have len: "(length (tt_entries t) * tt_size t) div (if tt_64 t then 16 else 8) = ?n"
    by (simp add: tt_size_def)
  have pos: "tt_addr t + word_of_nat (i * (if tt_64 t then 16 else 8)) = tt_pos t i" for i
    by (simp add: tt_pos_def tt_size_def)
  have loop: "search_loop (\<lambda>i. rbind (remote_read_entry (tt_as t) (tt_64 t) (tt_pos t i))
       (\<lambda>(s, _). Inr (sint s))) (sint rel_ip) 0 ?n = Inr ?r"
    using target.search_finds [OF o] .
  have r: "?r \<le> ?n" "\<And>i. i < ?n \<Longrightarrow> i < ?r \<longleftrightarrow> sint (fst (tt_entries t ! i)) \<le> sint rel_ip"
    using target.below_le [of t] target.below_iff [OF o] by auto
  have last: "last_entry (tt_entries t) rel_ip = (if ?r = 0 then None else Some (tt_entries t ! (?r - 1)))"
    using last_entry_below [OF r] .
  show ?thesis
  proof (cases "?r = 0")
    case True
    then show ?thesis unfolding remote_lookup_def Let_def len pos loop using last by simp
  next
    case False
    then have i: "?r - 1 < ?n" using r(1) by simp
    then obtain a b where e: "remote_read_entry (tt_as t) (tt_64 t) (tt_pos t (?r - 1))
        = Inr (fst (tt_entries t ! (?r - 1)), a)"
      "remote_read_entry (tt_as t) (tt_64 t) a = Inr (snd (tt_entries t ! (?r - 1)), b)"
      and nx: "Suc (?r - 1) < ?n \<Longrightarrow> b = tt_pos t (Suc (?r - 1))"
      using h unfolding holds_entries_def by blast
    have "\<exists>x. (if ?r < ?n then remote_read_entry (tt_as t) (tt_64 t) b else Inr (0, b)) = Inr x"
    proof (cases "?r < ?n")
      case True
      then have "b = tt_pos t ?r" using nx False by simp
      then show ?thesis using h True unfolding holds_entries_def by auto
    qed simp
    then obtain x where "(if ?r < ?n then remote_read_entry (tt_as t) (tt_64 t) b else Inr (0, b)) = Inr x" ..
    then show ?thesis
      unfolding remote_lookup_def Let_def len pos loop using last False e by simp
  qed
qed

section \<open>Local and remote search\<close>

lemma sint_small_ucast:
  fixes w :: unw_word
  assumes "- (2 ^ 31) \<le> sint w" and "sint w < 2 ^ 31"
  shows "sint (ucast w :: 32 word) = sint w"
proof -
  have "sint (ucast w :: 32 word) = signed_take_bit 31 (sint w)"
    by transfer (simp add: signed_take_bit_signed_take_bit signed_take_bit_take_bit)
  also have "\<dots> = sint w" using assms by (simp add: signed_take_bit_int_eq_self)
  finally show ?thesis .
qed

lemma local_entry_reads:
  assumes "mirrors as m"
  shows "rbind (local_entry m table i) (\<lambda>e. Inr (sint (start_ip_offset e)))
    = rbind (remote_read_entry as False (table + word_of_nat (i * 8))) (\<lambda>(s, _). Inr (sint s))"
  and "rbind (local_entry64 m table i) (\<lambda>e. Inr (sint (start_ip_offset64 e)))
    = rbind (remote_read_entry as True (table + word_of_nat (i * 16))) (\<lambda>(s, _). Inr (sint s))"
  using assms
  by (simp_all add: local_entry_def local_entry64_def remote_read_entry_def dwarf_reads32_def
      dwarf_reads64_def reads_mirror local_readu32_def local_readu64_def mult.commute sint_up_scast is_up)

lemma search_loop_cong: "(\<And>i. get i = get' i) \<Longrightarrow> search_loop get x lo hi = search_loop get' x lo hi"
  by (rule arg_cong [of get get' "\<lambda>g. search_loop g x lo hi"]) (rule ext)

text \<open>
  A process that reads its own memory through the accessors finds the same entry as through
  pointers, as long as the offset fits into the 32 bits that a table of small entries compares.
\<close>

lemma search_table_local_remote:
  assumes m: "mirrors as (local_mem pr)"
    and fit: "di_format di \<noteq> Some UNW_INFO_FORMAT_REMOTE_TABLE_64 \<Longrightarrow>
      - (2 ^ 31) \<le> sint rel_ip \<and> sint rel_ip < 2 ^ 31"
  shows "search_table pr True as di None rel_ip = search_table pr False as di None rel_ip"
proof (cases "di_format di = Some UNW_INFO_FORMAT_REMOTE_TABLE_64")
  case True
  let ?t = "di_table_data di" and ?n = "unat (di_table_len di * 8) div 16"
  have "search_loop (\<lambda>i. rbind (local_entry64 (local_mem pr) ?t i) (\<lambda>e. Inr (sint (start_ip_offset64 e))))
      (sint rel_ip) 0 ?n =
    search_loop (\<lambda>i. rbind (remote_read_entry as True (?t + word_of_nat (i * 16))) (\<lambda>(s, _). Inr (sint s)))
      (sint rel_ip) 0 ?n" by (rule search_loop_cong) (rule local_entry_reads(2) [OF m])
  then show ?thesis using m True
    by (simp add: search_table_def Let_def lookup64_def remote_lookup_def)
      (auto simp: local_entry64_def remote_read_entry_def dwarf_reads64_def reads_mirror
        local_readu64_def mult.commute intro!: rbind_cong)
next
  case False
  let ?t = "di_table_data di" and ?n = "unat (di_table_len di * 8) div 8"
  have "search_loop (\<lambda>i. rbind (local_entry (local_mem pr) ?t i) (\<lambda>e. Inr (sint (start_ip_offset e))))
      (sint rel_ip) 0 ?n =
    search_loop (\<lambda>i. rbind (remote_read_entry as False (?t + word_of_nat (i * 8))) (\<lambda>(s, _). Inr (sint s)))
      (sint rel_ip) 0 ?n" by (rule search_loop_cong) (rule local_entry_reads(1) [OF m])
  moreover have "sint (ucast rel_ip :: 32 word) = sint rel_ip" using fit False sint_small_ucast by blast
  ultimately show ?thesis using m False
    by (simp add: search_table_def Let_def lookup_def remote_lookup_def)
      (auto simp: local_entry_def remote_read_entry_def dwarf_reads32_def reads_mirror
        local_readu32_def mult.commute intro!: rbind_cong)
qed

section \<open>Shell sort\<close>

lemma shell_shift_length: "shell_shift k t a j = (a', j') \<Longrightarrow> length a' = length a \<and> j' \<le> j"
proof (induction k t a j rule: shell_shift.induct)
  case (1 k t a j)
  then show ?case
    by (subst (asm) (2) shell_shift.simps) (fastforce split: if_splits)
qed

text \<open>The free place and the moved entries: with \<open>t\<close> put back, the entries are the same.\<close>

lemma shell_shift_mset:
  assumes "shell_shift k t a j = (a', j')" and "j < length a"
  shows "mset (a'[j' := t]) = mset (a[j := t])"
  using assms
proof (induction k t a j arbitrary: a' j' rule: shell_shift.induct)
  case (1 k t a j)
  note step = shell_shift.simps [of k t a j]
  show ?case
  proof (cases "k > 0 \<and> j \<ge> k \<and> \<not> sint (start_ip_offset t) \<ge> sint (start_ip_offset (a ! (j - k)))")
    case True
    let ?b = "a[j := a ! (j - k)]"
    have "shell_shift k t ?b (j - k) = (a', j')" using "1.prems"(1) True by (simp add: step)
    then have "mset (a'[j' := t]) = mset (?b[j - k := t])"
      using "1.IH" True "1.prems"(2) by simp
    also have "?b[j - k := t] = (a[j := t])[j := a ! (j - k), j - k := t]" by simp
    also have "mset \<dots> = mset (a[j := t])"
    proof -
      have "a[j := t] ! (j - k) = a ! (j - k)" by (intro nth_list_update_neq) (use True in auto)
      then show ?thesis using mset_swap [of "j - k" "a[j := t]" j] "1.prems"(2) by simp
    qed
    finally show ?thesis .
  next
    case False
    then show ?thesis using "1.prems"(1) by (auto simp: step split: if_splits)
  qed
qed

lemma shell_insert_mset: "i < length a \<Longrightarrow> mset (shell_insert k a i) = mset a"
  using shell_shift_mset [of k "a ! i" a i]
  by (simp add: shell_insert_def Let_def split: prod.split)

lemma shell_insert_length: "length (shell_insert k a i) = length a"
  using shell_shift_length [of k "a ! i" a i]
  by (simp add: shell_insert_def Let_def split: prod.split)

lemma foldl_insert_length: "length (foldl (shell_insert k) a is) = length a"
  by (induction "is" arbitrary: a) (simp_all add: shell_insert_length)

lemma shell_pass_length: "length (shell_pass k a) = length a"
  by (simp add: shell_pass_def foldl_insert_length)

lemma foldl_insert_mset:
  "set is \<subseteq> {..<length a} \<Longrightarrow> mset (foldl (shell_insert k) a is) = mset a"
  by (induction "is" arbitrary: a) (simp_all add: shell_insert_mset shell_insert_length)

lemma shell_pass_mset: "mset (shell_pass k a) = mset a"
  unfolding shell_pass_def by (rule foldl_insert_mset) auto

lemma shell_passes_mset: "mset (shell_passes k a) = mset a"
proof (induction k a rule: shell_passes.induct)
  case (1 k a)
  then show ?case by (subst shell_passes.simps) (simp add: shell_pass_mset)
qed

text \<open>The last pass has distance one and is an insertion sort.\<close>

lemma shell_shift_1:
  assumes "shell_shift k t a j = (a', j')" and "j < length a" and "k = 1"
  shows "j' \<le> j \<and> (\<forall>m. m \<noteq> j' \<longrightarrow> a' ! m = (if j' < m \<and> m \<le> j then a ! (m - k) else a ! m))
    \<and> (\<forall>m. j' \<le> m \<and> m < j \<longrightarrow> entry_start t < entry_start (a ! m))
    \<and> (0 < j' \<longrightarrow> entry_start (a ! (j' - k)) \<le> entry_start t)"
  using assms
proof (induction k t a j arbitrary: a' j' rule: shell_shift.induct)
  case (1 k t a j)
  note step = shell_shift.simps [of k t a j]
  show ?case
  proof (cases "0 < k \<and> k \<le> j \<and> \<not> sint (start_ip_offset (a ! (j - k))) \<le> sint (start_ip_offset t)")
    case True
    let ?b = "a[j := a ! (j - k)]"
    have c: "0 < k \<and> k \<le> j" and n: "\<not> sint (start_ip_offset (a ! (j - k))) \<le> sint (start_ip_offset t)"
      using True by simp_all
    have "shell_shift k t ?b (j - k) = (a', j')" using "1.prems"(1) True by (simp add: step)
    moreover have "j - k < length ?b" using "1.prems"(2) by simp
    ultimately have "j' \<le> j - k \<and> (\<forall>m. m \<noteq> j' \<longrightarrow>
        a' ! m = (if j' < m \<and> m \<le> j - k then ?b ! (m - k) else ?b ! m))
      \<and> (\<forall>m. j' \<le> m \<and> m < j - k \<longrightarrow> entry_start t < entry_start (?b ! m))
      \<and> (0 < j' \<longrightarrow> entry_start (?b ! (j' - k)) \<le> entry_start t)"
      using "1.IH" [OF c n] "1.prems"(3) by blast
    then have IH: "j' \<le> j - k"
      "\<And>m. m \<noteq> j' \<Longrightarrow> a' ! m = (if j' < m \<and> m \<le> j - k then ?b ! (m - k) else ?b ! m)"
      "\<And>m. j' \<le> m \<Longrightarrow> m < j - k \<Longrightarrow> entry_start t < entry_start (?b ! m)"
      "0 < j' \<Longrightarrow> entry_start (?b ! (j' - k)) \<le> entry_start t"
      by blast+
    have b: "?b ! m = (if m = j then a ! (j - k) else a ! m)" for m
      using "1.prems"(2) by (simp add: nth_list_update)
    have lt: "entry_start t < entry_start (a ! m)" if m: "j' \<le> m" "m < j" for m
    proof (cases "m = j - k")
      case True
      then show ?thesis using n by (simp add: entry_start_def)
    next
      case False
      then have "m < j - k" using m "1.prems"(3) by simp
      with IH(3) [OF m(1)] show ?thesis using m(2) by (simp add: b)
    qed
    have shift: "a' ! m = (if j' < m \<and> m \<le> j then a ! (m - k) else a ! m)" if "m \<noteq> j'" for m
    proof -
      have "m \<le> j \<Longrightarrow> \<not> m \<le> j - k \<Longrightarrow> m = j" using c "1.prems"(3) by linarith
      then show ?thesis using IH(1) IH(2) [OF that] c "1.prems"(3) unfolding b by auto
    qed
    have "entry_start (a ! (j' - k)) \<le> entry_start t" if "0 < j'"
      using IH(1) IH(4) [OF that] c "1.prems"(3) that by (auto simp: b split: if_splits)
    with lt shift IH(1) show ?thesis by auto
  next
    case False
    then have "a' = a \<and> j' = j" using "1.prems"(1) unfolding step by (auto split: if_splits)
    then show ?thesis using False "1.prems"(3) by (auto simp: entry_start_def)
  qed
qed

definition ascending :: "nat \<Rightarrow> table_entry list \<Rightarrow> bool" where
  "ascending n a \<longleftrightarrow> (\<forall>p q. p \<le> q \<longrightarrow> q < n \<longrightarrow> entry_start (a ! p) \<le> entry_start (a ! q))"

lemma shell_insert_1:
  assumes "ascending i a" and "i < length a"
  shows "ascending (Suc i) (shell_insert 1 a i)"
proof -
  let ?t = "a ! i"
  obtain a' j where s: "shell_shift 1 ?t a i = (a', j)" by (cases "shell_shift 1 ?t a i")
  note f = shell_shift_1 [OF s assms(2) refl]
  then have ji: "j \<le> i" by simp
  have len: "length a' = length a" using shell_shift_length [OF s] by simp
  let ?c = "a'[j := ?t]"
  have c: "?c ! m = (if m = j then ?t else if j < m \<and> m \<le> i then a ! (m - 1) else a ! m)" for m
    using f len assms(2) by (simp add: nth_list_update)
  have k: "entry_start (a ! p) \<le> entry_start (a ! q)" if "p \<le> q" "q < i" for p q
    using assms(1) that by (simp add: ascending_def)
  have low: "entry_start (a ! p) \<le> entry_start ?t" if "p < j" for p
  proof -
    have "p \<le> j - 1" "j - 1 < i" using that f assms(2) by linarith+
    then have "entry_start (a ! p) \<le> entry_start (a ! (j - 1))" by (rule k)
    also have "\<dots> \<le> entry_start ?t" using f that by simp
    finally show ?thesis .
  qed
  have high: "entry_start ?t \<le> entry_start (a ! q)" if "j \<le> q" "q < i" for q
    using f that by (simp add: less_imp_le)
  have "entry_start (?c ! p) \<le> entry_start (?c ! q)" if "p \<le> q" "q < Suc i" for p q
    using that ji k [of p q] k [of p "q - 1"] k [of "p - 1" "q - 1"] low [of p] high [of "q - 1"]
    unfolding c by (auto simp: not_less)
  moreover have "shell_insert 1 a i = ?c" unfolding shell_insert_def Let_def s by simp
  ultimately show ?thesis by (simp add: ascending_def)
qed

lemma shell_pass_1: "ascending (length a) (shell_pass 1 a)"
proof (cases "length a = 0")
  case False
  have "ascending (Suc 0 + n) (foldl (shell_insert 1) a [1..<Suc 0 + n])" if "Suc 0 + n \<le> length a" for n
    using that
  proof (induction n)
    case 0
    then show ?case by (simp add: ascending_def)
  next
    case (Suc n)
    then have "ascending (Suc 0 + n) (foldl (shell_insert 1) a [1..<Suc 0 + n])" by simp
    then show ?case
      using shell_insert_1 [of "Suc n" "foldl (shell_insert 1) a [1..<Suc n]"] Suc.prems
      by (simp add: foldl_insert_length)
  qed
  moreover have "Suc 0 + (length a - 1) = length a" using False by simp
  ultimately show ?thesis unfolding shell_pass_def by (metis order_refl)
qed (simp add: ascending_def)

lemma shell_passes_ascending: "0 < k \<Longrightarrow> ascending (length a) (shell_passes k a)"
proof (induction k a rule: shell_passes.induct)
  case (1 k a)
  show ?case
  proof (cases "k = 1")
    case True
    then have "shell_passes k a = shell_pass 1 a"
      by (simp add: shell_passes.simps del: One_nat_def)
    then show ?thesis using shell_pass_1 by simp
  next
    case False
    then have "0 < k div 2" using "1.prems" by auto
    then have "ascending (length (shell_pass k a)) (shell_passes (k div 2) (shell_pass k a))"
      using "1.IH" "1.prems" by simp
    then show ?thesis using "1.prems" by (simp add: shell_passes.simps [of k] shell_pass_length)
  qed
qed

lemma index_sort_sorts:
  "sorted (map entry_start (debug_frame_index_sort a))" "mset (debug_frame_index_sort a) = mset a"
proof -
  show m: "mset (debug_frame_index_sort a) = mset a"
    by (simp add: debug_frame_index_sort_def shell_passes_mset)
  show "sorted (map entry_start (debug_frame_index_sort a))"
  proof (cases "length a < 2")
    case True
    then have "length (debug_frame_index_sort a) < 2" using mset_eq_length [OF m] by simp
    then show ?thesis by (auto simp: sorted_iff_nth_mono less_2_cases_iff)
  next
    case False
    then have "0 < length a div 2" by auto
    then have "ascending (length a) (debug_frame_index_sort a)"
      unfolding debug_frame_index_sort_def by (rule shell_passes_ascending)
    moreover have "length (debug_frame_index_sort a) = length a" using m by (rule mset_eq_length)
    ultimately show ?thesis by (auto simp: sorted_iff_nth_mono ascending_def)
  qed
qed

section \<open>The two passes over a section\<close>

text \<open>
  When the counting pass ends, the storing pass visits the same items and stores as many entries,
  within the array allocated for them.
\<close>

text \<open>The result of storing from the position \<open>n\<close> on, given the result of counting.\<close>

definition stores ::
  "process \<Rightarrow> unw_word \<Rightarrow> unw_word \<Rightarrow> unw_word \<Rightarrow> nat \<Rightarrow> table_entry list option \<times> nat \<Rightarrow> bool" where
  "stores pr buf buf_end addr n r \<longleftrightarrow> fst r = None \<and> (\<exists>es. snd r = n + length es \<and>
     (\<forall>xs. length xs = snd r \<longrightarrow>
        index_make_loop pr buf buf_end addr (Some xs) n = Some (Inr (Some (take n xs @ es), snd r))))"

lemma stores_nothing:
  assumes "\<And>xs. index_make_loop pr buf buf_end addr (Some xs) n = Some (Inr (Some xs, n))"
  shows "stores pr buf buf_end addr n (None, n)"
  unfolding stores_def using assms by (intro conjI exI [of _ "[]"]) auto

lemma stores_entry:
  assumes "stores pr buf buf_end item_end (Suc n) r"
    and "\<And>xs. n < length xs \<Longrightarrow> index_make_loop pr buf buf_end addr (Some xs) n
      = index_make_loop pr buf buf_end item_end (Some (xs[n := e])) (Suc n)"
  shows "stores pr buf buf_end addr n r"
proof -
  from assms(1) obtain es where es: "fst r = None" "snd r = Suc n + length es"
    and run: "\<And>xs. length xs = snd r \<Longrightarrow> index_make_loop pr buf buf_end item_end (Some xs) (Suc n)
        = Some (Inr (Some (take (Suc n) xs @ es), snd r))"
    unfolding stores_def by blast
  have "index_make_loop pr buf buf_end addr (Some xs) n = Some (Inr (Some (take n xs @ (e # es)), snd r))"
    if "length xs = snd r" for xs
  proof -
    have n: "n < length xs" using that es(2) by simp
    then have "take (Suc n) (xs[n := e]) = take n xs @ [e]" by (simp add: take_Suc_conv_app_nth)
    then show ?thesis using assms(2) [OF n] run [of "xs[n := e]"] that by simp
  qed
  then show ?thesis unfolding stores_def using es by (intro conjI exI [of _ "e # es"]) auto
qed

lemma index_make_second_pass:
  assumes "index_make_loop pr buf buf_end addr index n = Some r" and "index = None"
  shows "case r of Inl f \<Rightarrow> True | Inr r' \<Rightarrow> stores pr buf buf_end addr n r'"
  using assms
proof (induction rule: index_make_loop.raw_induct [rotated, consumes 1])
  case (1 loop pr buf buf_end addr index n r)
  note step = index_make_loop.simps [of pr buf buf_end addr _ n]
  show ?case
  proof (cases "addr < buf_end")
    case False
    then have "stores pr buf buf_end addr n (None, n)" by (intro stores_nothing) (simp add: step)
    with False 1 show ?thesis by auto
  next
    case inside: True
    show ?thesis
    proof (cases "index_item (local_as pr) addr")
      case (Inl f)
      with inside 1 show ?thesis by auto
    next
      case (Inr item)
      show ?thesis
      proof (cases item)
        case None
        then have "stores pr buf buf_end addr n (None, n)"
          using inside Inr by (intro stores_nothing) (simp add: step)
        with inside Inr None 1 show ?thesis by auto
      next
        case (Some it)
        then obtain item_end is_cie where it: "item = Some (item_end, is_cie)" by (cases it) auto
        let ?e = "if is_cie then Inr None else index_entry pr buf addr"
        show ?thesis
        proof (cases ?e)
          case (Inl f)
          with inside Inr it 1 show ?thesis by auto
        next
          case e: (Inr x)
          show ?thesis
          proof (cases x)
            case None
            then have l: "loop pr buf buf_end item_end None n = Some r"
              using inside Inr it e "1.hyps" "1.prems" by simp
            have same: "index_make_loop pr buf buf_end addr (Some xs) n
                = index_make_loop pr buf buf_end item_end (Some xs) n" for xs
              using inside Inr it e None by (simp add: step)
            from "1.IH" [OF l refl] show ?thesis
              by (auto simp: stores_def same split: sum.splits)
          next
            case (Some e')
            then have l: "loop pr buf buf_end item_end None (Suc n) = Some r"
              using inside Inr it e "1.hyps" "1.prems" by simp
            have same: "index_make_loop pr buf buf_end addr (Some xs) n
                = index_make_loop pr buf buf_end item_end (Some (xs[n := e'])) (Suc n)" if "n < length xs" for xs
              using inside Inr it e Some that by (simp add: step)
            from "1.IH" [OF l refl] show ?thesis
              by (auto split: sum.splits intro: stores_entry [OF _ same])
          qed
        qed
      qed
    qed
  qed
qed

lemma debug_frame_index_make_twice:
  assumes "debug_frame_index_make pr fdesc = Inr (fdesc', n)" and "df_index fdesc = None"
  shows "\<exists>es. length es = n \<and> (\<forall>xs. length xs = n \<longrightarrow>
     debug_frame_index_make pr (fdesc\<lparr>df_index := Some xs\<rparr>) = Inr (fdesc\<lparr>df_index := Some es\<rparr>, n))"
proof -
  let ?b = "df_debug_frame fdesc" and ?e = "df_debug_frame fdesc + df_debug_frame_size fdesc"
  from assms obtain index' where r: "index_make_loop pr ?b ?e ?b None 0 = Some (Inr (index', n))"
    by (cases "index_make_loop pr ?b ?e ?b None 0") (auto simp: debug_frame_index_make_def res_iff)
  from index_make_second_pass [OF r refl] obtain es where "n = length es"
    and "\<And>xs. length xs = n \<Longrightarrow> index_make_loop pr ?b ?e ?b (Some xs) 0 = Some (Inr (Some es, n))"
    by (auto simp: stores_def)
  then show ?thesis by (intro exI [of _ es]) (simp add: debug_frame_index_make_def)
qed

end
