(* ===== verification/FindProps.thy ===== *)
theory FindProps
  imports FindLemmas ReadProps FdeProps
begin

text \<open>Properties of the search for procedure information.\<close>

text \<open>C9. In a sorted table of a target, \<open>dwarf_search_unwind_table\<close> takes the last entry that does
  not start behind the address, extracts its FDE and returns it when it covers the address; in
  every other case it reports that there is no information.\<close>

theorem search_unwind_table_finds:
  assumes "holds_entries t" and "sorted (map (sint \<circ> fst) (tt_entries t))"
    and "di_format di = Some (if tt_64 t then UNW_INFO_FORMAT_REMOTE_TABLE_64 else UNW_INFO_FORMAT_REMOTE_TABLE)"
    and "di_table_data di = tt_addr t" and "unat (di_table_len di * 8) = length (tt_entries t) * tt_size t"
    and "di_start_ip di \<le> ip" and "ip < di_end_ip di"
  shows "dwarf_search_unwind_table pr False (tt_as t) ip di pi need =
    (case last_entry (tt_entries t) (ip - di_segbase di) of
       None \<Rightarrow> Inl (Err UNW_ENOINFO)
     | Some (start, fde) \<Rightarrow>
         rbind (dwarf_extract_proc_info_from_fde (tt_as t) (pool_room pr) (fde + di_segbase di) pi
                  (di_segbase di) need False) (\<lambda>(pi, _).
         if pi_start_ip pi \<le> ip \<and> ip < pi_end_ip pi then Inr pi else Inl (Err UNW_ENOINFO)))"
proof -
  have f: "is_remote_table (di_format di)" "di_format di \<noteq> Some UNW_INFO_FORMAT_IP_OFFSET"
    "di_format di \<noteq> Some UNW_INFO_FORMAT_TABLE"
    "(di_format di = Some UNW_INFO_FORMAT_REMOTE_TABLE_64) = tt_64 t"
    using assms(3) by (auto simp: is_remote_table_def)
  have s: "search_table pr False (tt_as t) di None rel
      = Inr (map_option snd (last_entry (tt_entries t) rel))" for rel
    using remote_lookup_last [OF assms(1,2), of rel] f(4) assms(4,5)
    by (simp add: search_table_def Let_def)
  show ?thesis
    using f assms(6,7) s
    by (auto simp: dwarf_search_unwind_table_def Let_def not_less not_le
        split: option.splits intro!: rbind_cong)
qed

text \<open>Searching a table in the own process through pointers gives the same procedure
  information as searching it through the accessors of an address space that shows the same
  memory, for offsets that fit into the 32 bits compared in a table of small entries.\<close>

lemma local_remote_search_agree:
  assumes "mirrors (local_as pr) (local_mem pr)" and "is_remote_table (di_format di)"
    and "base = (if di_format di = Some UNW_INFO_FORMAT_IP_OFFSET then di_start_ip di else di_segbase di)"
    and "di_format di \<noteq> Some UNW_INFO_FORMAT_REMOTE_TABLE_64 \<Longrightarrow>
      - (2 ^ 31) \<le> sint (ip - base) \<and> sint (ip - base) < 2 ^ 31"
  shows "dwarf_search_unwind_table pr True (local_as pr) ip di pi need
       = dwarf_search_unwind_table pr False (local_as pr) ip di pi need"
  using search_table_local_remote [OF assms(1), of di "ip - base"] assms(2-4)
  by (auto simp: dwarf_search_unwind_table_def Let_def)

text \<open>C36. Building the index of a \<open>.debug_frame\<close> section stores every entry that was counted,
  within the array allocated for them, and leaves the index sorted by start address with the
  same entries.\<close>

theorem build_index_sorted:
  assumes "df_index fdesc = None" and "debug_frame_index_make pr fdesc = Inr (fdesc0, n)"
    and "0 < n" and "index_room fs"
  shows "\<exists>xs es. build_index pr fs fdesc = Inr (Some (fdesc\<lparr>df_index := Some xs\<rparr>)) \<and>
     sorted (map (\<lambda>e. sint (start_ip_offset e)) xs) \<and> length xs = n \<and> mset xs = mset es \<and>
     debug_frame_index_make pr (fdesc\<lparr>df_index := Some (replicate n e)\<rparr>) = Inr (fdesc\<lparr>df_index := Some es\<rparr>, n)"
proof -
  from debug_frame_index_make_twice [OF assms(2,1)] obtain es where n: "length es = n"
    and run: "\<And>xs. length xs = n \<Longrightarrow>
      debug_frame_index_make pr (fdesc\<lparr>df_index := Some xs\<rparr>) = Inr (fdesc\<lparr>df_index := Some es\<rparr>, n)"
    by blast
  let ?xs = "debug_frame_index_sort es"
  have "build_index pr fs fdesc = Inr (Some (fdesc\<lparr>df_index := Some ?xs\<rparr>))"
    using assms(2-4) by (simp add: build_index_def run)
  moreover have "map entry_start = map (\<lambda>e. sint (start_ip_offset e))"
    by (intro ext arg_cong [of _ _ map]) (simp add: entry_start_def fun_eq_iff)
  then have "sorted (map (\<lambda>e. sint (start_ip_offset e)) ?xs)" using index_sort_sorts(1) [of es] by simp
  moreover have "mset ?xs = mset es" by (rule index_sort_sorts(2))
  moreover from this have "length ?xs = n" using n by (metis mset_eq_length)
  ultimately show ?thesis using run [of "replicate n e"] by auto
qed

section \<open>Witnesses\<close>

text \<open>The sample section with a search table of three entries behind it, relative to 0x1000.\<close>

definition sample_rows :: "(int \<times> int) list" where
  "sample_rows = [(0, 0), (0x11c, 0x14), (0x200, 0x40)]"

definition sample_image :: "8 word list" where
  "sample_image = sample_eh_frame @ replicate 7 0 @ concat (map (\<lambda>(s, f). le32 s @ le32 f) sample_rows)"

definition sample_as :: addr_space where
  "sample_as = ram (bytes_from 0x1000 sample_image)"

definition sample_target :: target_table where
  "sample_target = \<lparr>tt_as = sample_as, tt_addr = 0x1030, tt_64 = False,
     tt_entries = map (\<lambda>(s, f). (word_of_int s, word_of_int f)) sample_rows\<rparr>"

definition sample_process :: process where
  "sample_process = \<lparr>local_as = sample_as, local_mem = bytes_from 0x1000 sample_image,
     pool_room = True, stack_pi = zero_pi, di_as_cie = (\<lambda>_. zero_cie)\<rparr>"

definition sample_di :: unw_dyn_info where
  "sample_di = zero_di\<lparr>di_format := Some UNW_INFO_FORMAT_REMOTE_TABLE, di_start_ip := 0x1000,
     di_end_ip := 0x2000, di_segbase := 0x1000, di_table_data := 0x1030, di_table_len := 3\<rparr>"

lemma sample_as_simps [simp]: "\<not> big_endian sample_as" "addr_size sample_as = 8"
  by (simp_all add: sample_as_def)

lemma sample_image_bytes: "bytes_at (as_byte sample_as) 0x1000 sample_image"
  unfolding sample_as_def
  by (intro bytes_at_bytes_from) (simp add: sample_image_def sample_length sample_rows_def)

lemma sample_image_parts:
  "bytes_at (as_byte sample_as) 0x1000 sample_eh_frame"
  "bytes_at (as_byte sample_as) 0x1030 (concat (map (\<lambda>(s, f). le32 s @ le32 f) sample_rows))"
  using sample_image_bytes unfolding sample_image_def bytes_at_append sample_length by simp_all

lemma sample_holds: "holds_entries sample_target"
proof -
  have b: "bytes_at (as_byte sample_as) 0x1030 (le32 0)" "bytes_at (as_byte sample_as) 0x1034 (le32 0)"
    "bytes_at (as_byte sample_as) 0x1038 (le32 0x11c)" "bytes_at (as_byte sample_as) 0x103c (le32 0x14)"
    "bytes_at (as_byte sample_as) 0x1040 (le32 0x200)" "bytes_at (as_byte sample_as) 0x1044 (le32 0x40)"
    using sample_image_parts(2) by (simp_all add: sample_rows_def bytes_at_append)
  have r: "remote_read_entry sample_as False 0x1030 = Inr (0, 0x1034)"
    "remote_read_entry sample_as False 0x1034 = Inr (0, 0x1038)"
    "remote_read_entry sample_as False 0x1038 = Inr (0x11c, 0x103c)"
    "remote_read_entry sample_as False 0x103c = Inr (0x14, 0x1040)"
    "remote_read_entry sample_as False 0x1040 = Inr (0x200, 0x1044)"
    "remote_read_entry sample_as False 0x1044 = Inr (0x40, 0x1048)"
    using b [THEN readu32_le32, OF sample_as_simps(1)]
    by (simp_all add: remote_read_entry_def dwarf_reads32_def)
  show ?thesis
    unfolding holds_entries_def sample_target_def tt_pos_def tt_size_def sample_rows_def
    by (auto simp: r less_Suc_eq numeral_3_eq_3 nth_Cons')
qed

lemma sample_last_entry: "last_entry (tt_entries sample_target) 0x130 = Some (0x11c, 0x14)"
  by (simp add: last_entry_def sample_target_def sample_rows_def)

text \<open>The procedure found for an address in it.\<close>

definition sample_pi :: unw_proc_info where
  "sample_pi = zero_pi\<lparr>pi_start_ip := 0x111c, pi_end_ip := 0x115c, pi_handler := cie_handler sample_dci,
     pi_lsda := 0, pi_format := UNW_INFO_FORMAT_TABLE,
     pi_unwind_info := Some (sample_dci\<lparr>fde_instr_start := 0x1025, fde_instr_end := 0x1029\<rparr>)\<rparr>"

theorem search_unwind_table_finds_witness:
  "dwarf_search_unwind_table sample_process False sample_as 0x1130 sample_di zero_pi True = Inr sample_pi"
proof -
  have "dwarf_search_unwind_table sample_process False (tt_as sample_target) 0x1130 sample_di zero_pi True =
    (case last_entry (tt_entries sample_target) (0x1130 - di_segbase sample_di) of
       None \<Rightarrow> Inl (Err UNW_ENOINFO)
     | Some (start, fde) \<Rightarrow>
         rbind (dwarf_extract_proc_info_from_fde (tt_as sample_target) (pool_room sample_process)
                  (fde + di_segbase sample_di) zero_pi (di_segbase sample_di) True False) (\<lambda>(pi, _).
         if pi_start_ip pi \<le> 0x1130 \<and> 0x1130 < pi_end_ip pi then Inr pi else Inl (Err UNW_ENOINFO)))"
    by (rule search_unwind_table_finds [OF sample_holds])
      (simp_all add: sample_target_def sample_rows_def sample_di_def tt_size_def)
  then show ?thesis
    using sample_last_entry sample_extracted [OF sample_image_parts(1) sample_as_simps, of zero_pi "0x1000"]
    by (simp add: sample_di_def sample_target_def sample_process_def sample_pi_def)
qed

lemma local_remote_search_agree_witness:
  "dwarf_search_unwind_table sample_process True sample_as 0x1130 sample_di zero_pi True
   = dwarf_search_unwind_table sample_process False sample_as 0x1130 sample_di zero_pi True"
proof -
  have m: "mirrors (local_as sample_process) (local_mem sample_process)"
    by (simp add: sample_process_def sample_as_def)
  have "dwarf_search_unwind_table sample_process True (local_as sample_process) 0x1130 sample_di zero_pi True
    = dwarf_search_unwind_table sample_process False (local_as sample_process) 0x1130 sample_di zero_pi True"
    by (rule local_remote_search_agree [OF m, where base = "0x1000"])
      (simp_all add: sample_di_def is_remote_table_def)
  then show ?thesis by (simp add: sample_process_def)
qed

text \<open>A \<open>.debug_frame\<close> section with a CIE and an FDE for the addresses from 0x400 to 0x440.\<close>

definition debug_image :: "8 word list" where
  "debug_image = [9, 0, 0, 0, 0xff, 0xff, 0xff, 0xff, 1, 0, 1, 0x78, 0x10,
     20, 0, 0, 0, 0, 0, 0, 0, 0, 4, 0, 0, 0, 0, 0, 0, 0x40, 0, 0, 0, 0, 0, 0, 0]"

definition debug_mem :: memory where
  "debug_mem = bytes_from 0x1000 debug_image"

definition debug_process :: process where
  "debug_process = \<lparr>local_as = ram debug_mem, local_mem = debug_mem, pool_room = True,
     stack_pi = zero_pi, di_as_cie = (\<lambda>_. zero_cie)\<rparr>"

definition debug_fdesc :: unw_debug_frame_list where
  "debug_fdesc = \<lparr>df_debug_frame = 0x1000, df_debug_frame_size = 37, df_index = None,
     df_start = 0x400, df_end = 0x500\<rparr>"

definition debug_fs :: debug_files where
  "debug_fs = \<lparr>find_binary_for_address = (\<lambda>_. None), load_debug_frame = (\<lambda>_. Some (0x1000, 37)),
     list_room = True, index_room = True\<rparr>"

lemma debug_bytes:
  "debug_mem 0x1000 = 9" "debug_mem 0x1001 = 0" "debug_mem 0x1002 = 0" "debug_mem 0x1003 = 0"
  "debug_mem 0x1004 = 255" "debug_mem 0x1005 = 255" "debug_mem 0x1006 = 255" "debug_mem 0x1007 = 255"
  "debug_mem 0x1008 = 1" "debug_mem 0x1009 = 0" "debug_mem 0x100a = 1" "debug_mem 0x100b = 120"
  "debug_mem 0x100c = 16" "debug_mem 0x100d = 20" "debug_mem 0x100e = 0" "debug_mem 0x100f = 0"
  "debug_mem 0x1010 = 0" "debug_mem 0x1011 = 0" "debug_mem 0x1012 = 0" "debug_mem 0x1013 = 0"
  "debug_mem 0x1014 = 0" "debug_mem 0x1015 = 0" "debug_mem 0x1016 = 4" "debug_mem 0x1017 = 0"
  "debug_mem 0x1018 = 0" "debug_mem 0x1019 = 0" "debug_mem 0x101a = 0" "debug_mem 0x101b = 0"
  "debug_mem 0x101c = 0" "debug_mem 0x101d = 64" "debug_mem 0x101e = 0" "debug_mem 0x101f = 0"
  "debug_mem 0x1020 = 0" "debug_mem 0x1021 = 0" "debug_mem 0x1022 = 0" "debug_mem 0x1023 = 0"
  "debug_mem 0x1024 = 0"
  by (simp_all add: debug_mem_def debug_image_def bytes_from_def)

lemma debug_readu8: "dwarf_readu8 (ram debug_mem) a = Inr (debug_mem a, a + 1)"
  using dwarf_readu8_mirrors [OF mirrors_ram] by (simp add: local_readu8_def)

lemma debug_readu32:
  "dwarf_readu32 (ram debug_mem) 0x1000 = Inr (9, 0x1004)"
  "dwarf_readu32 (ram debug_mem) 0x1004 = Inr (0xffffffff, 0x1008)"
  "dwarf_readu32 (ram debug_mem) 0x100d = Inr (20, 0x1011)"
  "dwarf_readu32 (ram debug_mem) 0x1011 = Inr (0, 0x1015)"
  using dwarf_readu32_mirrors [OF mirrors_ram, of debug_mem]
  by (simp_all add: local_readu32_def debug_bytes)

lemma debug_readu64:
  "dwarf_readu64 (ram debug_mem) 0x1015 = Inr (0x400, 0x101d)"
  "dwarf_readu64 (ram debug_mem) 0x101d = Inr (0x40, 0x1025)"
  using dwarf_readu64_mirrors [OF mirrors_ram, of debug_mem]
  by (simp_all add: local_readu64_def debug_bytes)

lemma debug_leb:
  "dwarf_read_uleb128 (ram debug_mem) 0x100a = Inr (1, 0x100b)"
  "dwarf_read_sleb128 (ram debug_mem) 0x100b = Inr (- 8, 0x100c)"
  by (simp_all add: dwarf_read_uleb128_def read_uleb128_def dwarf_read_sleb128_def read_sleb128_def
      leb128_loop.simps debug_readu8 debug_bytes mask_eq_exp_minus_1)

lemma debug_augstr: "read_augstr (ram debug_mem) 0x1009 [] = Some (Inr ([], 0x100a))"
  by (subst read_augstr.simps) (simp add: debug_readu8 debug_bytes)

lemma debug_version: "dwarf_readu8 (ram debug_mem) 0x1008 = Inr (1, 0x1009)"
  "dwarf_readu8 (ram debug_mem) 0x100c = Inr (0x10, 0x100d)"
  by (simp_all add: debug_readu8 debug_bytes)

lemma debug_cie: "\<exists>dci. parse_cie (ram debug_mem) pi zero_cie True 0x1000 = Inr dci \<and>
    fde_encoding dci = DW_EH_PE_udata8 \<and> lsda_encoding dci = DW_EH_PE_omit \<and> \<not> sized_augmentation dci"
  by (simp add: parse_cie_def parse_cie_header_def parse_cie_factors_def debug_readu32 debug_leb
      debug_augstr debug_version default_fde_encoding_def zero_cie_def Let_def)

lemma debug_index_entry: "index_entry debug_process 0x1000 0x100d
    = Inr (Some \<lparr>start_ip_offset = 0x400, fde_offset = 13\<rparr>)"
proof -
  obtain dci where dci: "parse_cie (ram debug_mem) zero_pi zero_cie True 0x1000 = Inr dci"
    "fde_encoding dci = DW_EH_PE_udata8" "lsda_encoding dci = DW_EH_PE_omit" "\<not> sized_augmentation dci"
    using debug_cie by blast
  have h: "parse_fde_header (ram debug_mem) 0x1000 True 0x100d = Inr (0x1025, Some (0x1000, 0x1015))"
    by (simp add: parse_fde_header_def debug_readu32 dwarf_reads32_def is_cie_id_def Let_def)
  have p: "dwarf_read_encoded_pointer (ram debug_mem) 0x04 pi 0x1015 = Inr (0x400, 0x101d)"
    "dwarf_read_encoded_pointer (ram debug_mem) 0x04 pi 0x101d = Inr (0x40, 0x1025)"
    "dwarf_read_encoded_pointer (ram debug_mem) 0xff pi x = Inr (0, x)" for pi x
    by (simp_all add: dwarf_read_encoded_pointer_def read_pe_format_def apply_pe_base_def
        trim_to_addr_size_def debug_readu64 Let_def)
  show ?thesis
    using dci by (simp add: index_entry_def debug_process_def dwarf_extract_proc_info_from_fde_def h p Let_def)
qed

lemma debug_count: "debug_frame_index_make debug_process debug_fdesc = Inr (debug_fdesc, 1)"
proof -
  have i: "index_item (ram debug_mem) 0x1000 = Inr (Some (0x100d, True))"
    "index_item (ram debug_mem) 0x100d = Inr (Some (0x1025, False))"
    by (simp_all add: index_item_def debug_readu32)
  have "local_as debug_process = ram debug_mem" by (simp add: debug_process_def)
  then have "index_make_loop debug_process 0x1000 0x1025 0x1000 None 0 = Some (Inr (None, 1))"
    using i debug_index_entry
    by (simp add: index_make_loop.simps [of _ _ _ "0x1000"] index_make_loop.simps [of _ _ _ "0x100d"]
        index_make_loop.simps [of _ _ _ "0x1025"])
  then show ?thesis by (simp add: debug_frame_index_make_def debug_fdesc_def)
qed

theorem build_index_sorted_witness:
  "\<exists>xs. build_index debug_process debug_fs debug_fdesc = Inr (Some (debug_fdesc\<lparr>df_index := Some xs\<rparr>))
     \<and> length xs = 1"
proof -
  have "\<exists>xs es. build_index debug_process debug_fs debug_fdesc
      = Inr (Some (debug_fdesc\<lparr>df_index := Some xs\<rparr>)) \<and>
     sorted (map (\<lambda>e. sint (start_ip_offset e)) xs) \<and> length xs = 1 \<and> mset xs = mset es \<and>
     debug_frame_index_make debug_process
       (debug_fdesc\<lparr>df_index := Some (replicate 1 \<lparr>start_ip_offset = 0, fde_offset = 0\<rparr>)\<rparr>)
     = Inr (debug_fdesc\<lparr>df_index := Some es\<rparr>, 1)"
    by (rule build_index_sorted [OF _ debug_count]) (simp_all add: debug_fdesc_def debug_fs_def)
  then show ?thesis by blast
qed

end
