(* ===== verification/DynRemote.thy ===== *)
theory DynRemote
  imports FindTable RsCache
begin

text \<open>
  Dynamic unwind information that a target registers: the fetch helpers of \<open>include/remote.h\<close> in
  the build that supports remote unwinding, \<open>src/mi/Gdyn-remote.c\<close>, and the dispatch and release
  in \<open>src/mi/Gfind_dynamic_proc_info.c\<close> and \<open>src/mi/Gput_dynamic_unwind_info.c\<close>.
\<close>

section \<open>Fetching\<close>

text \<open>
  \<open>fetch8\<close> to \<open>fetch32\<close> extract a value from the aligned word that holds it and reject one at an
  address that is not aligned; \<open>fetchw\<close> passes the address on as it is. No caller uses the value
  or the address of a failed fetch.
\<close>

definition fetch8 :: "addr_space \<Rightarrow> (8 word) reader" where
  "fetch8 as addr =
     (let aligned_addr = addr AND (NOT 8 + 1); off = addr - aligned_addr in
      rbind (lift_acc (access_mem as aligned_addr)) (\<lambda>val.
      Inr (ucast (drop_bit (8 * unat off) val), addr + 1)))"

definition fetch16 :: "addr_space \<Rightarrow> (16 word) reader" where
  "fetch16 as addr =
     (let aligned_addr = addr AND (NOT 8 + 1); off = addr - aligned_addr in
      if off AND 1 \<noteq> 0 then Inl (Err UNW_EINVAL)
      else rbind (lift_acc (access_mem as aligned_addr)) (\<lambda>val.
           Inr (ucast (drop_bit (8 * unat off) val), addr + 2)))"

definition fetch32 :: "addr_space \<Rightarrow> (32 word) reader" where
  "fetch32 as addr =
     (let aligned_addr = addr AND (NOT 8 + 1); off = addr - aligned_addr in
      if off AND 3 \<noteq> 0 then Inl (Err UNW_EINVAL)
      else rbind (lift_acc (access_mem as aligned_addr)) (\<lambda>val.
           Inr (ucast (drop_bit (8 * unat off) val), addr + 4)))"

definition fetchw :: "addr_space \<Rightarrow> unw_word reader" where
  "fetchw as addr = rbind (lift_acc (access_mem as addr)) (\<lambda>val. Inr (val, addr + 8))"

section \<open>Copying information out of the target\<close>

definition intern_op :: "addr_space \<Rightarrow> unw_dyn_op reader" where
  "intern_op as addr =
     rbind (fetch8 as addr) (\<lambda>(tag, addr).
     rbind (fetch8 as addr) (\<lambda>(qp, addr).
     rbind (fetch16 as addr) (\<lambda>(reg, addr).
     rbind (fetch32 as addr) (\<lambda>(when, addr).
     rbind (fetchw as addr) (\<lambda>(val, addr).
     Inr (\<lparr>dop_tag = tag, dop_qp = qp, dop_reg = reg, dop_when = when, dop_val = val\<rparr>, addr))))))"

primrec intern_ops :: "addr_space \<Rightarrow> nat \<Rightarrow> unw_dyn_op list reader" where
  "intern_ops as 0 addr = Inr ([], addr)"
| "intern_ops as (Suc n) addr =
     rbind (intern_op as addr) (\<lambda>(op, addr).
     rbind (intern_ops as n addr) (\<lambda>(ops, addr). Inr (op # ops, addr)))"

text \<open>
  \<open>intern_regions\<close>, with the list of regions it allocates. The parameter \<open>room\<close> tells whether
  \<open>calloc\<close> finds a number of bytes; a region has 16 bytes and 16 more for each operation. A cyclic
  list of regions is copied for ever.
\<close>

definition intern_region ::
  "(nat \<Rightarrow> bool) \<Rightarrow> addr_space \<Rightarrow> unw_word \<Rightarrow> (unw_word \<times> unw_dyn_region) res" where
  "intern_region room as addr =
     rbind (fetchw as addr) (\<lambda>(next_addr, addr).
     rbind (fetch32 as addr) (\<lambda>(insn_count, addr).
     rbind (fetch32 as addr) (\<lambda>(op_count, addr).
     rbind (check (room (16 + 16 * unat op_count)) (Err UNW_ENOMEM)) (\<lambda>_.
     rbind (intern_ops as (unat op_count) addr) (\<lambda>(ops, addr).
     Inr (next_addr, \<lparr>dr_insn_count = insn_count, dr_ops = ops\<rparr>))))))"

partial_function (option) intern_regions ::
  "(nat \<Rightarrow> bool) \<Rightarrow> addr_space \<Rightarrow> unw_word \<Rightarrow> unw_dyn_region list res option"
where
  "intern_regions room as addr =
     (if addr = 0 then Some (Inr [])
      else (case intern_region room as addr of
              Inl e \<Rightarrow> Some (Inl e)
            | Inr (next_addr, region) \<Rightarrow>
                if next_addr = 0 then Some (Inr [region])
                else Option.bind (intern_regions room as next_addr) (\<lambda>r.
                     Some (rbind r (\<lambda>regions. Inr (region # regions))))))"

text \<open>
  \<open>intern_array\<close>. When a word cannot be fetched, \<open>ret\<close> is still 0: the function reports success
  and leaves the table pointer null.
\<close>

primrec fetch_words :: "addr_space \<Rightarrow> nat \<Rightarrow> unw_word \<Rightarrow> unw_word list res" where
  "fetch_words as 0 addr = Inr []"
| "fetch_words as (Suc n) addr =
     rbind (fetchw as addr) (\<lambda>(w, addr).
     rbind (fetch_words as n addr) (\<lambda>ws. Inr (w # ws)))"

definition intern_array ::
  "(nat \<Rightarrow> bool) \<Rightarrow> addr_space \<Rightarrow> unw_word \<Rightarrow> unw_word \<Rightarrow> table_pointer res" where
  "intern_array room as addr table_len =
     (if \<not> room (8 * unat table_len) then Inl (Err UNW_ENOMEM)
      else (case fetch_words as (unat table_len) addr of
              Inl e \<Rightarrow> Inr Null_table
            | Inr ws \<Rightarrow> Inr (Words ws)))"

definition format_of :: "32 word \<Rightarrow> unw_dyn_info_format option" where
  "format_of n =
     (if n = 0 then Some UNW_INFO_FORMAT_DYNAMIC else if n = 1 then Some UNW_INFO_FORMAT_TABLE
      else if n = 2 then Some UNW_INFO_FORMAT_REMOTE_TABLE
      else if n = 3 then Some UNW_INFO_FORMAT_ARM_EXIDX
      else if n = 4 then Some UNW_INFO_FORMAT_IP_OFFSET
      else if n = 5 then Some UNW_INFO_FORMAT_REMOTE_TABLE_64 else None)"

definition intern_dyn_info ::
  "(nat \<Rightarrow> bool) \<Rightarrow> addr_space \<Rightarrow> unw_word \<Rightarrow> unw_dyn_info \<Rightarrow> unw_dyn_info res" where
  "intern_dyn_info room as addr di =
     (if di_format di = Some UNW_INFO_FORMAT_DYNAMIC then
        rbind (fetchw as addr) (\<lambda>(name_ptr, addr).
        rbind (fetchw as addr) (\<lambda>(handler, addr).
        rbind (fetch32 as addr) (\<lambda>(flags, addr).
        rbind (fetchw as (addr + 4)) (\<lambda>(first_region, addr).
        rbind (returns (intern_regions room as first_region)) (\<lambda>regions.
        Inr (di\<lparr>di_handler := handler, di_flags := flags, di_regions := regions\<rparr>))))))
      else if di_format di = Some UNW_INFO_FORMAT_TABLE then
        rbind (fetchw as addr) (\<lambda>(name_ptr, addr).
        rbind (fetchw as addr) (\<lambda>(segbase, addr).
        rbind (fetchw as addr) (\<lambda>(table_len, addr).
        rbind (intern_array room as addr table_len) (\<lambda>table.
        Inr (di\<lparr>di_segbase := segbase, di_table_len := table_len, di_table := table\<rparr>)))))
      else if di_format di = Some UNW_INFO_FORMAT_REMOTE_TABLE then
        rbind (fetchw as addr) (\<lambda>(name_ptr, addr).
        rbind (fetchw as addr) (\<lambda>(segbase, addr).
        rbind (fetchw as addr) (\<lambda>(table_len, addr).
        rbind (fetchw as addr) (\<lambda>(table_data, addr).
        Inr (di\<lparr>di_segbase := segbase, di_table_len := table_len, di_table_data := table_data\<rparr>)))))
      else Inl (Err UNW_ENOINFO))"

section \<open>Searching the list of the target\<close>

text \<open>
  What the search uses of the client: its memory, which changes while the target runs, as a
  snapshot for the head of the list, for the entries and for the check in each pass; the callback
  \<open>get_dyn_info_list_addr\<close>; and \<open>calloc\<close>.
\<close>

record dyn_target =
  dt_snapshot :: "nat \<Rightarrow> addr_space"
  dt_list_addr :: "unw_error + unw_word"
  dt_room :: "nat \<Rightarrow> bool"

text \<open>The first members of an entry: the next entry, its range, and the address behind them.\<close>

definition dyn_header :: "addr_space \<Rightarrow> unw_word \<Rightarrow> (unw_word \<times> unw_word \<times> unw_word \<times> unw_word) res" where
  "dyn_header as addr =
     rbind (fetchw as addr) (\<lambda>(next_addr, addr).
     rbind (fetchw as (addr + 8)) (\<lambda>(start_ip, addr).
     rbind (fetchw as addr) (\<lambda>(end_ip, addr).
     Inr (next_addr, start_ip, end_ip, addr))))"

text \<open>
  The entry that covers the address. Its structure of 80 bytes is zeroed; a null pointer of
  \<open>calloc\<close> is not checked.
\<close>

definition dyn_entry ::
  "process \<Rightarrow> (nat \<Rightarrow> bool) \<Rightarrow> addr_space \<Rightarrow> unw_word \<Rightarrow> unw_proc_info \<Rightarrow> bool \<Rightarrow> unw_word
    \<Rightarrow> unw_word \<Rightarrow> unw_word \<Rightarrow> unw_proc_info res" where
  "dyn_entry pr room as ip pi need_unwind_info start_ip end_ip addr =
     rbind (check (room 80) Out_of_bounds) (\<lambda>_.
     rbind (fetchw as addr) (\<lambda>(gp, addr).
     rbind (fetch32 as addr) (\<lambda>(fmt, addr).
     let di = zero_di\<lparr>di_start_ip := start_ip, di_end_ip := end_ip, di_gp := gp,
                      di_format := format_of fmt\<rparr> in
     rbind (if need_unwind_info then intern_dyn_info room as (addr + 4) di else Inr di) (\<lambda>di.
     unwi_extract_dynamic_proc_info pr False as ip pi di need_unwind_info))))"

text \<open>
  The loop over the entries: the information found, or \<open>None\<close> at the end of the list and at the
  first failure. A cyclic list without a match is searched for ever.
\<close>

partial_function (option) dyn_scan ::
  "process \<Rightarrow> (nat \<Rightarrow> bool) \<Rightarrow> addr_space \<Rightarrow> unw_word \<Rightarrow> unw_proc_info \<Rightarrow> bool \<Rightarrow> unw_word
    \<Rightarrow> unw_proc_info option res option"
where
  "dyn_scan pr room as ip pi need_unwind_info addr =
     (if addr = 0 then Some (Inr None)
      else (case dyn_header as addr of
              Inl e \<Rightarrow> Some (Inr None)
            | Inr (next_addr, start_ip, end_ip, addr) \<Rightarrow>
                if start_ip \<le> ip \<and> ip < end_ip then
                  (case dyn_entry pr room as ip pi need_unwind_info start_ip end_ip addr of
                     Inl (Err e) \<Rightarrow> Some (Inr None)
                   | Inl f \<Rightarrow> Some (Inl f)
                   | Inr pi' \<Rightarrow> Some (Inr (Some pi')))
                else dyn_scan pr room as ip pi need_unwind_info next_addr))"

text \<open>
  The passes, until the generation number is the same before and after one. A pass that finds
  nothing, or whose check cannot be read, returns \<open>UNW_ENOINFO\<close> resp. what it found.
\<close>

partial_function (option) dyn_passes ::
  "process \<Rightarrow> dyn_target \<Rightarrow> unw_word \<Rightarrow> unw_proc_info \<Rightarrow> bool \<Rightarrow> unw_word \<Rightarrow> nat
    \<Rightarrow> unw_proc_info res option"
where
  "dyn_passes pr t ip pi need_unwind_info dyn_list_addr n =
     (case rbind (fetchw (dt_snapshot t (3 * n)) dyn_list_addr) (\<lambda>(gen1, addr).
           rbind (fetchw (dt_snapshot t (3 * n)) addr) (\<lambda>(next_addr, addr). Inr (gen1, next_addr))) of
        Inl e \<Rightarrow> Some (Inl (Err UNW_ENOINFO))
      | Inr (gen1, next_addr) \<Rightarrow>
          (case dyn_scan pr (dt_room t) (dt_snapshot t (3 * n + 1)) ip pi need_unwind_info next_addr of
             None \<Rightarrow> None
           | Some (Inl f) \<Rightarrow> Some (Inl f)
           | Some (Inr found) \<Rightarrow>
               (case fetchw (dt_snapshot t (3 * n + 2)) dyn_list_addr of
                  Inl e \<Rightarrow> Some (case found of None \<Rightarrow> Inl (Err UNW_ENOINFO) | Some pi' \<Rightarrow> Inr pi')
                | Inr (gen2, addr) \<Rightarrow>
                    if gen1 \<noteq> gen2 then dyn_passes pr t ip pi need_unwind_info dyn_list_addr (n + 1)
                    else Some (case found of None \<Rightarrow> Inl (Err UNW_ENOINFO) | Some pi' \<Rightarrow> Inr pi'))))"

definition unwi_dyn_remote_find_proc_info ::
  "process \<Rightarrow> dyn_target \<Rightarrow> as_caches \<Rightarrow> unw_word \<Rightarrow> unw_proc_info \<Rightarrow> bool
    \<Rightarrow> as_caches \<times> unw_proc_info res" where
  "unwi_dyn_remote_find_proc_info pr t ca ip pi need_unwind_info =
     (if dyn_info_list_addr ca \<noteq> 0
      then (ca, returns (dyn_passes pr t ip pi need_unwind_info (dyn_info_list_addr ca) 0))
      else (case dt_list_addr t of
              Inl e \<Rightarrow> (ca, Inl (Err UNW_ENOINFO))
            | Inr a \<Rightarrow>
                (if caching_policy ca \<noteq> UNW_CACHE_NONE then ca\<lparr>dyn_info_list_addr := a\<rparr> else ca,
                 returns (dyn_passes pr t ip pi need_unwind_info a 0))))"

definition unwi_dyn_remote_put_unwind_info :: "unw_proc_info \<Rightarrow> unw_proc_info" where
  "unwi_dyn_remote_put_unwind_info pi =
     (if pi_unwind_info pi = None then pi else pi\<lparr>pi_unwind_info := None\<rparr>)"

text \<open>
  \<open>unwi_dyn_validate_cache\<close>, with the member \<open>dyn_generation\<close> as an argument of its own.
\<close>

definition unwi_dyn_validate_cache ::
  "addr_space \<Rightarrow> as_caches \<times> unw_word \<Rightarrow> (as_caches \<times> unw_word) \<times> int" where
  "unwi_dyn_validate_cache as st =
     (let (ca, dyn_generation) = st in
      if dyn_info_list_addr ca = 0 then (st, 0)
      else (case fetchw as (dyn_info_list_addr ca) of
              Inl e \<Rightarrow> (st, 1)
            | Inr (gen, addr) \<Rightarrow>
                if gen = dyn_generation then (st, 1) else ((unw_flush_cache ca, gen), - 1)))"

section \<open>Dispatch\<close>

text \<open>
  The registered information of the process itself is the list of \<open>_U_dyn_info_list\<close>; that of
  another address space is searched in the target.
\<close>

definition unwi_find_dynamic_proc_info ::
  "process \<Rightarrow> bool \<Rightarrow> unw_dyn_info list \<Rightarrow> dyn_target \<Rightarrow> as_caches \<Rightarrow> unw_word \<Rightarrow> unw_proc_info \<Rightarrow> bool
    \<Rightarrow> as_caches \<times> unw_proc_info res" where
  "unwi_find_dynamic_proc_info pr is_local dyn_list t ca ip pi need_unwind_info =
     (if is_local then (ca, local_find_proc_info pr (local_as pr) ip pi dyn_list need_unwind_info)
      else unwi_dyn_remote_find_proc_info pr t ca ip pi need_unwind_info)"

definition unwi_put_dynamic_unwind_info :: "bool \<Rightarrow> unw_proc_info \<Rightarrow> unw_proc_info" where
  "unwi_put_dynamic_unwind_info is_local pi =
     (case pi_format pi of
        UNW_INFO_FORMAT_DYNAMIC \<Rightarrow> if is_local then pi else unwi_dyn_remote_put_unwind_info pi
      | _ \<Rightarrow> pi)"

end
