(* ===== verification/DynProps.thy ===== *)
theory DynProps
  imports DynRemote Ram
begin

text \<open>
  The search for registered information in a target: the layout of a list of entries in the
  memory of the target, the lookup in such a list as a specification, and that the search
  implements it for the first pass during which the list does not change.
\<close>

section \<open>Lists in a target\<close>

text \<open>
  An entry of the format \<open>REMOTE_TABLE\<close>, or of the format \<open>DYNAMIC\<close> without regions, as its
  members lie in the memory of the target.
\<close>

definition holds_table :: "addr_space \<Rightarrow> unw_word \<Rightarrow> unw_dyn_info \<Rightarrow> bool" where
  "holds_table as a di \<longleftrightarrow> fetch32 as (a + 40) = Inr (2, a + 44)
     \<and> (\<exists>name. access_mem as (a + 48) = Inr name) \<and> access_mem as (a + 56) = Inr (di_segbase di)
     \<and> access_mem as (a + 64) = Inr (di_table_len di) \<and> access_mem as (a + 72) = Inr (di_table_data di)
     \<and> di = zero_di\<lparr>di_start_ip := di_start_ip di, di_end_ip := di_end_ip di, di_gp := di_gp di,
         di_format := Some UNW_INFO_FORMAT_REMOTE_TABLE, di_segbase := di_segbase di,
         di_table_len := di_table_len di, di_table_data := di_table_data di\<rparr>"

definition holds_proc :: "addr_space \<Rightarrow> unw_word \<Rightarrow> unw_dyn_info \<Rightarrow> bool" where
  "holds_proc as a di \<longleftrightarrow> fetch32 as (a + 40) = Inr (0, a + 44)
     \<and> (\<exists>name. access_mem as (a + 48) = Inr name) \<and> access_mem as (a + 56) = Inr (di_handler di)
     \<and> fetch32 as (a + 64) = Inr (di_flags di, a + 68) \<and> access_mem as (a + 72) = Inr 0
     \<and> di = zero_di\<lparr>di_start_ip := di_start_ip di, di_end_ip := di_end_ip di, di_gp := di_gp di,
         di_handler := di_handler di, di_flags := di_flags di\<rparr>"

fun dyn_list_at :: "addr_space \<Rightarrow> unw_word \<Rightarrow> unw_dyn_info list \<Rightarrow> bool" where
  "dyn_list_at as a [] \<longleftrightarrow> a = 0"
| "dyn_list_at as a (di # dis) \<longleftrightarrow> a \<noteq> 0 \<and> access_mem as (a + 16) = Inr (di_start_ip di)
     \<and> access_mem as (a + 24) = Inr (di_end_ip di) \<and> access_mem as (a + 32) = Inr (di_gp di)
     \<and> (holds_table as a di \<or> holds_proc as a di)
     \<and> (\<exists>next_addr. access_mem as a = Inr next_addr \<and> dyn_list_at as next_addr dis)"

text \<open>The specification: the first entry that covers the address decides.\<close>

definition dyn_lookup ::
  "process \<Rightarrow> addr_space \<Rightarrow> unw_word \<Rightarrow> unw_proc_info \<Rightarrow> unw_dyn_info list
    \<Rightarrow> unw_proc_info option res" where
  "dyn_lookup pr as ip pi dis =
     (case find (\<lambda>di. di_start_ip di \<le> ip \<and> ip < di_end_ip di) dis of
        None \<Rightarrow> Inr None
      | Some di \<Rightarrow>
          (case unwi_extract_dynamic_proc_info pr False as ip pi di True of
             Inl (Err e) \<Rightarrow> Inr None | Inl f \<Rightarrow> Inl f | Inr pi' \<Rightarrow> Inr (Some pi')))"

definition found_or_noinfo :: "unw_proc_info option \<Rightarrow> unw_proc_info res" where
  "found_or_noinfo r = (case r of None \<Rightarrow> Inl (Err UNW_ENOINFO) | Some pi \<Rightarrow> Inr pi)"

section \<open>One pass\<close>

lemma fetchw_access [simp]: "access_mem as a = Inr w \<Longrightarrow> fetchw as a = Inr (w, a + 8)"
  by (simp add: fetchw_def)

lemma dyn_entry_table:
  assumes "holds_table as a di" "access_mem as (a + 32) = Inr (di_gp di)" "room 80"
  shows "dyn_entry pr room as ip pi True (di_start_ip di) (di_end_ip di) (a + 32)
    = unwi_extract_dynamic_proc_info pr False as ip pi di True"
proof -
  obtain name where "access_mem as (a + 48) = Inr name"
    using assms(1) by (auto simp: holds_table_def)
  moreover have "di = zero_di\<lparr>di_start_ip := di_start_ip di, di_end_ip := di_end_ip di,
      di_gp := di_gp di, di_format := Some UNW_INFO_FORMAT_REMOTE_TABLE, di_segbase := di_segbase di,
      di_table_len := di_table_len di, di_table_data := di_table_data di\<rparr>"
    using assms(1) by (simp add: holds_table_def)
  ultimately show ?thesis
    using assms by (simp add: dyn_entry_def holds_table_def intern_dyn_info_def format_of_def
        add.assoc)
qed

lemma intern_no_regions [simp]: "intern_regions room as 0 = Some (Inr [])"
  by (subst intern_regions.simps) simp

lemma dyn_entry_proc:
  assumes "holds_proc as a di" "access_mem as (a + 32) = Inr (di_gp di)" "room 80"
  shows "dyn_entry pr room as ip pi True (di_start_ip di) (di_end_ip di) (a + 32)
    = unwi_extract_dynamic_proc_info pr False as ip pi di True"
proof -
  obtain name where "access_mem as (a + 48) = Inr name"
    using assms(1) by (auto simp: holds_proc_def)
  moreover have "di = zero_di\<lparr>di_start_ip := di_start_ip di, di_end_ip := di_end_ip di,
      di_gp := di_gp di, di_handler := di_handler di, di_flags := di_flags di\<rparr>"
    using assms(1) by (simp add: holds_proc_def)
  ultimately show ?thesis
    using assms by (simp add: dyn_entry_def holds_proc_def intern_dyn_info_def format_of_def
        zero_di_def add.assoc)
qed

lemma dyn_scan_list:
  assumes "dyn_list_at as a dis" and "room 80"
  shows "dyn_scan pr room as ip pi True a = Some (dyn_lookup pr as ip pi dis)"
  using assms(1)
proof (induction dis arbitrary: a)
  case Nil
  then show ?case by (subst dyn_scan.simps) (simp add: dyn_lookup_def)
next
  case (Cons di dis)
  obtain next_addr where n: "access_mem as a = Inr next_addr" "dyn_list_at as next_addr dis"
    using Cons.prems by auto
  have hd: "dyn_header as a = Inr (next_addr, di_start_ip di, di_end_ip di, a + 32)"
    using Cons.prems n(1) by (simp add: dyn_header_def add.assoc)
  have entry: "dyn_entry pr room as ip pi True (di_start_ip di) (di_end_ip di) (a + 32)
      = unwi_extract_dynamic_proc_info pr False as ip pi di True"
    using Cons.prems assms(2) dyn_entry_table dyn_entry_proc by auto
  show ?case
    using Cons.prems hd entry Cons.IH [OF n(2)]
    by (subst dyn_scan.simps) (simp add: dyn_lookup_def split: sum.splits fault.splits)
qed

section \<open>All passes\<close>

text \<open>
  The generation number before and after a pass, and the list at the time of the pass. In a
  changed pass the numbers differ; its result is dropped.
\<close>

definition pass_at :: "dyn_target \<Rightarrow> unw_word \<Rightarrow> nat \<Rightarrow> unw_word \<Rightarrow> unw_word \<Rightarrow> unw_dyn_info list \<Rightarrow> bool" where
  "pass_at t la n gen1 gen2 dis \<longleftrightarrow> access_mem (dt_snapshot t (3 * n)) la = Inr gen1
     \<and> (\<exists>first. access_mem (dt_snapshot t (3 * n)) (la + 8) = Inr first
          \<and> dyn_list_at (dt_snapshot t (3 * n + 1)) first dis)
     \<and> access_mem (dt_snapshot t (3 * n + 2)) la = Inr gen2"

definition changed_pass :: "process \<Rightarrow> dyn_target \<Rightarrow> unw_word \<Rightarrow> unw_proc_info \<Rightarrow> unw_word \<Rightarrow> nat \<Rightarrow> bool" where
  "changed_pass pr t ip pi la n \<longleftrightarrow> (\<exists>gen1 gen2 dis found. gen1 \<noteq> gen2 \<and> pass_at t la n gen1 gen2 dis
     \<and> dyn_lookup pr (dt_snapshot t (3 * n + 1)) ip pi dis = Inr found)"

lemma stable_pass:
  assumes "pass_at t la n gen gen dis" and "dt_room t 80"
  shows "dyn_passes pr t ip pi True la n
    = Some (rbind (dyn_lookup pr (dt_snapshot t (3 * n + 1)) ip pi dis) found_or_noinfo)"
proof -
  obtain first where f: "access_mem (dt_snapshot t (3 * n)) (la + 8) = Inr first"
    "dyn_list_at (dt_snapshot t (3 * n + 1)) first dis"
    using assms(1) by (auto simp: pass_at_def)
  show ?thesis
    using assms f dyn_scan_list [where room = "dt_room t", OF f(2) assms(2)]
    by (subst dyn_passes.simps)
      (simp add: pass_at_def found_or_noinfo_def split: sum.splits)
qed

lemma changed_pass_repeats:
  assumes "changed_pass pr t ip pi la n" and "dt_room t 80"
  shows "dyn_passes pr t ip pi True la n = dyn_passes pr t ip pi True la (n + 1)"
proof -
  obtain gen1 gen2 dis found first where p: "gen1 \<noteq> gen2" "pass_at t la n gen1 gen2 dis"
    "dyn_lookup pr (dt_snapshot t (3 * n + 1)) ip pi dis = Inr found"
    "access_mem (dt_snapshot t (3 * n)) (la + 8) = Inr first"
    "dyn_list_at (dt_snapshot t (3 * n + 1)) first dis"
    using assms(1) by (auto simp: changed_pass_def pass_at_def)
  show ?thesis
    using p dyn_scan_list [where room = "dt_room t", OF p(5) assms(2)]
    by (subst dyn_passes.simps) (simp add: pass_at_def)
qed

lemma passes_until_stable:
  assumes "\<And>i. i < n \<Longrightarrow> changed_pass pr t ip pi la i" and "pass_at t la n gen gen dis"
    and "dt_room t 80"
  shows "dyn_passes pr t ip pi True la 0
    = Some (rbind (dyn_lookup pr (dt_snapshot t (3 * n + 1)) ip pi dis) found_or_noinfo)"
proof -
  have "k \<le> n \<Longrightarrow> dyn_passes pr t ip pi True la 0 = dyn_passes pr t ip pi True la k" for k
    by (induction k) (simp_all add: changed_pass_repeats assms(1,3))
  then show ?thesis using stable_pass [OF assms(2,3)] by (metis order.refl)
qed

section \<open>A target whose list changes during the first pass\<close>

definition sample_words :: "unw_word \<Rightarrow> unw_word \<Rightarrow> unw_word" where
  "sample_words gen a =
     (if a = 0x100 then gen else if a = 0x108 then 0x200
      else if a = 0x210 then 0x1000 else if a = 0x218 then 0x2000 else if a = 0x220 then 0x9000
      else if a = 0x238 then 0x7000 else 0)"

definition sample_target :: dyn_target where
  "sample_target = \<lparr>dt_snapshot = (\<lambda>n. \<lparr>access_mem = (\<lambda>a. Inr (sample_words (if n = 0 then 1 else 2) a)),
     access_reg = (\<lambda>_. Inl UNW_EBADREG), big_endian = False, addr_size = 8\<rparr>),
     dt_list_addr = Inr 0x100, dt_room = (\<lambda>_. True)\<rparr>"

definition sample_entry :: unw_dyn_info where
  "sample_entry = zero_di\<lparr>di_start_ip := 0x1000, di_end_ip := 0x2000, di_gp := 0x9000,
     di_handler := 0x7000\<rparr>"

definition idle_process :: process where
  "idle_process = \<lparr>local_as = ram (\<lambda>_. 0), local_mem = (\<lambda>_. 0), pool_room = True,
     stack_pi = zero_pi, di_as_cie = (\<lambda>_. zero_cie)\<rparr>"

definition new_caches :: as_caches where
  "new_caches = \<lparr>caching_policy = UNW_CACHE_GLOBAL, cache_generation = 0, dyn_info_list_addr = 0,
     global_cache = zero_cache, debug_frames = 0\<rparr>"

lemma sample_snapshot:
  "access_mem (dt_snapshot sample_target n) a = Inr (sample_words (if n = 0 then 1 else 2) a)"
  by (simp add: sample_target_def)

lemma sample_list: "dyn_list_at (dt_snapshot sample_target n) 0x200 [sample_entry]"
  by (simp add: sample_snapshot sample_words_def sample_entry_def zero_di_def holds_proc_def
      fetch32_def)

lemma sample_pass:
  "pass_at sample_target 0x100 n (if n = 0 then 1 else 2) 2 [sample_entry]"
  using sample_list by (simp add: pass_at_def sample_snapshot) (simp add: sample_words_def)

lemma sample_lookup:
  "dyn_lookup idle_process as 0x1234 zero_pi [sample_entry]
    = Inr (Some (zero_pi\<lparr>pi_start_ip := 0x1000, pi_end_ip := 0x2000, pi_gp := 0x9000,
        pi_handler := 0x7000, pi_unwind_info := Some zero_cie\<rparr>))"
  by (simp add: dyn_lookup_def sample_entry_def zero_di_def zero_pi_def idle_process_def
      unwi_extract_dynamic_proc_info_def)

lemma sample_changed: "changed_pass idle_process sample_target 0x1234 zero_pi 0x100 0"
  unfolding changed_pass_def
proof (intro exI conjI)
  show "pass_at sample_target 0x100 0 1 2 [sample_entry]" using sample_pass [of 0] by simp
qed (simp_all add: sample_lookup)

section \<open>Property\<close>

text \<open>C27. The search for registered information in a running target implements the lookup in a
  list: passes during which the generation number changes are dropped, and the result is that of
  the first entry covering the address in the list of the first pass whose generation number is
  the same before and after, with any error reported as \<open>UNW_ENOINFO\<close>. The address of the list is
  remembered if caching is enabled.\<close>
theorem remote_info_found:
  assumes "dyn_info_list_addr ca = 0" and "dt_list_addr t = Inr la" and "dt_room t 80"
    and "\<And>i. i < n \<Longrightarrow> changed_pass pr t ip pi la i" and "pass_at t la n gen gen dis"
  shows "unwi_dyn_remote_find_proc_info pr t ca ip pi True
    = (if caching_policy ca = UNW_CACHE_NONE then ca else ca\<lparr>dyn_info_list_addr := la\<rparr>,
       rbind (dyn_lookup pr (dt_snapshot t (3 * n + 1)) ip pi dis) found_or_noinfo)"
  using passes_until_stable [OF assms(4,5,3)] assms(1,2)
  by (simp add: unwi_dyn_remote_find_proc_info_def)

theorem remote_info_found_witness:
  "unwi_dyn_remote_find_proc_info idle_process sample_target new_caches 0x1234 zero_pi True
    = (new_caches\<lparr>dyn_info_list_addr := 0x100\<rparr>,
       Inr (zero_pi\<lparr>pi_start_ip := 0x1000, pi_end_ip := 0x2000, pi_gp := 0x9000,
              pi_handler := 0x7000, pi_unwind_info := Some zero_cie\<rparr>))"
proof -
  have "pass_at sample_target 0x100 1 2 2 [sample_entry]" using sample_pass [of 1] by simp
  moreover have "dt_list_addr sample_target = Inr 0x100" "dt_room sample_target 80"
    by (simp_all add: sample_target_def)
  ultimately show ?thesis
    using remote_info_found [of new_caches sample_target "0x100" 1 idle_process "0x1234" zero_pi 2
        "[sample_entry]"] sample_changed
    by (simp add: sample_lookup found_or_noinfo_def new_caches_def)
qed

end
