(* ===== verification/Step.thy ===== *)
theory Step
  imports Cfi Expr DynRemote
begin

text \<open>
  One step of the DWARF unwinder, from \<open>src/dwarf/Gparser.c\<close>: finding the procedure information
  and the register state for an instruction address (\<open>fetch_proc_info\<close>, \<open>create_state_record_for\<close>,
  \<open>find_reg_state\<close>), applying it (\<open>eval_location_expr\<close>, \<open>apply_reg_state\<close>) and \<open>dwarf_step\<close>; with the
  hooks of x86-64 Linux (\<open>src/x86_64/Gos-linux.c\<close>, \<open>src/x86_64/Gstash_frame.c\<close>).
\<close>

text \<open>
  An operation that leaves a changed cursor also when it fails returns the cursor together with
  its error or value (\<open>attempt\<close>); a fault ends the program.
\<close>

section \<open>Hooks of the target\<close>

definition tdep_fetch_frame :: "cursor \<Rightarrow> bool \<Rightarrow> cursor res" where
  "tdep_fetch_frame c need_unwind_info =
     (if need_unwind_info \<and> (\<not> c_pi_valid c \<or> pi_unwind_info (c_pi c) = None) then Inl Aborted
      else Inr (c\<lparr>c_sigcontext_format :=
        (case pi_unwind_info (c_pi c) of
           Some dci \<Rightarrow> if c_pi_valid c \<and> signal_frame dci then X86_64_SCF_LINUX_RT_SIGFRAME
                       else X86_64_SCF_NONE
         | None \<Rightarrow> X86_64_SCF_NONE)\<rparr>))"

text \<open>The cached flag of a frame is one bit, which is the format to restore.\<close>

definition tdep_cache_frame :: "cursor \<Rightarrow> sigcontext_format" where
  "tdep_cache_frame c = c_sigcontext_format c"

definition tdep_reuse_frame :: "cursor \<Rightarrow> bool \<Rightarrow> cursor" where
  "tdep_reuse_frame c frame =
     (if frame
      then c\<lparr>c_sigcontext_format := X86_64_SCF_LINUX_RT_SIGFRAME,
             c_frame_info := (c_frame_info c)\<lparr>fr_type := UNW_X86_64_FRAME_SIGRETURN, cfa_reg_offset := 0\<rparr>,
             c_sigcontext_addr := c_cfa c\<rparr>
      else c\<lparr>c_sigcontext_format := X86_64_SCF_NONE\<rparr>)"

text \<open>
  \<open>tdep_stash_frame\<close>. \<open>labs\<close> of the least number is undefined in C; in the model it is not small.
  A one-bit field keeps whether the register is the stack pointer.
\<close>

definition saved_near :: "dwarf_reg_state \<Rightarrow> nat \<Rightarrow> bool" where
  "saved_near rs r =
     (case rs_where rs ! r of
        DWARF_WHERE_UNDEF \<Rightarrow> True | DWARF_WHERE_SAME \<Rightarrow> True | DWARF_WHERE_CFA \<Rightarrow> True
      | DWARF_WHERE_CFAREL \<Rightarrow> \<bar>sint (rs_val rs ! r)\<bar> < 2 ^ 14 \<and> rs_val rs ! r + 1 \<noteq> 0
      | _ \<Rightarrow> False)"

definition stash_aligned :: "cursor \<Rightarrow> dwarf_reg_state \<Rightarrow> unw_tdep_frame \<Rightarrow> unw_tdep_frame res" where
  "stash_aligned c rs f =
     (if rs_where rs ! DWARF_CFA_REG_COLUMN = DWARF_WHERE_EXPR \<and> rs_where rs ! RBP = DWARF_WHERE_EXPR
      then rbind (dwarf_stack_aligned (c_as c) (rs_val rs ! DWARF_CFA_REG_COLUMN) (rs_val rs ! RBP)) (\<lambda>r.
           Inr (case r of
                  Some cfa_offset \<Rightarrow> f\<lparr>fr_type := UNW_X86_64_FRAME_ALIGNED,
                    cfa_reg_offset := trunc_field 29 cfa_offset, cfa_reg_rsp := False\<rparr>
                | None \<Rightarrow> f))
      else Inr f)"

definition stash_offset :: "dwarf_reg_state \<Rightarrow> nat \<Rightarrow> int \<Rightarrow> int" where
  "stash_offset rs r old =
     (case rs_where rs ! r of
        DWARF_WHERE_CFAREL \<Rightarrow> trunc_field 15 (rs_val rs ! r) | DWARF_WHERE_CFA \<Rightarrow> 0 | _ \<Rightarrow> old)"

definition tdep_stash_frame :: "cursor \<Rightarrow> dwarf_reg_state \<Rightarrow> cursor res" where
  "tdep_stash_frame c rs =
     rbind (stash_aligned c rs (c_frame_info c)) (\<lambda>f.
     let cfa_reg = rs_val rs ! DWARF_CFA_REG_COLUMN; cfa_off = rs_val rs ! DWARF_CFA_OFF_COLUMN in
     if fr_type f = UNW_X86_64_FRAME_OTHER \<and> rs_where rs ! DWARF_CFA_REG_COLUMN = DWARF_WHERE_REG
        \<and> (cfa_reg = word_of_nat RBP \<or> cfa_reg = word_of_nat RSP) \<and> \<bar>sint cfa_off\<bar> < 2 ^ 28
        \<and> loc_val (c_loc c ! unat (ret_addr_column rs)) = c_cfa c - 8
        \<and> saved_near rs RBP \<and> saved_near rs RSP
     then Inr (c\<lparr>c_frame_info := f\<lparr>fr_type := UNW_X86_64_FRAME_STANDARD,
                 cfa_reg_rsp := (cfa_reg = word_of_nat RSP), cfa_reg_offset := trunc_field 29 cfa_off,
                 rbp_cfa_offset := stash_offset rs RBP (rbp_cfa_offset f),
                 rsp_cfa_offset := stash_offset rs RSP (rsp_cfa_offset f)\<rparr>\<rparr>)
     else if fr_type f = UNW_X86_64_FRAME_SIGRETURN
     then rbind (check (loc_val (c_loc c ! RIP) - c_sigcontext_addr c = 0xa8
                  \<and> loc_val (c_loc c ! RBP) - c_sigcontext_addr c = 0x78
                  \<and> loc_val (c_loc c ! RSP) - c_sigcontext_addr c = 0xa0) Aborted) (\<lambda>_.
          Inr (c\<lparr>c_frame_info := f\<rparr>))
     else Inr (c\<lparr>c_frame_info := f\<rparr>))"

section \<open>Applying a register state\<close>

definition eval_location_expr :: "cursor \<Rightarrow> unw_word \<Rightarrow> unw_word \<Rightarrow> dwarf_loc res" where
  "eval_location_expr c stack_val addr =
     rbind (dwarf_read_uleb128 (c_as c) addr) (\<lambda>(len, addr).
     rbind (returns (dwarf_eval_expr c stack_val addr len)) (\<lambda>(val, is_register, _).
     Inr (if is_register then DWARF_REG_LOC (dwarf_to_unw_regnum val) else DWARF_MEM_LOC val)))"

text \<open>The CFA of the frame. An expression must give a memory location.\<close>

definition eval_cfa :: "cursor \<Rightarrow> dwarf_reg_state \<Rightarrow> unw_word res" where
  "eval_cfa c rs =
     (let reg = rs_val rs ! DWARF_CFA_REG_COLUMN in
      case rs_where rs ! DWARF_CFA_REG_COLUMN of
        DWARF_WHERE_REG \<Rightarrow>
          rbind (if reg = word_of_nat TDEP_DWARF_SP \<and> DWARF_IS_NULL_LOC (c_loc c ! TDEP_DWARF_SP)
                 then Inr (c_cfa c)
                 else rbind (dwarf_to_unw_regnum_int (sint (ucast reg :: 32 word))) (\<lambda>regnum.
                      unw_get_reg c (int regnum))) (\<lambda>cfa.
          Inr (cfa + rs_val rs ! DWARF_CFA_OFF_COLUMN))
      | DWARF_WHERE_EXPR \<Rightarrow>
          rbind (eval_location_expr c 0 reg) (\<lambda>cfa_loc.
          if DWARF_IS_REG_LOC cfa_loc then Inl (Err UNW_EBADFRAME) else Inr (loc_val cfa_loc))
      | _ \<Rightarrow> Inl Aborted)"

text \<open>
  The loop over the columns, which updates \<open>new_loc\<close> in place: the rule \<open>DWARF_WHERE_REG\<close> reads
  the entry of the other register from \<open>new_loc\<close>, whatever the loop has left there.
\<close>

definition apply_rule ::
  "cursor \<Rightarrow> unw_word \<Rightarrow> dwarf_reg_state \<Rightarrow> dwarf_loc list \<Rightarrow> nat \<Rightarrow> dwarf_loc list res" where
  "apply_rule c cfa rs new_loc i =
     (let val = rs_val rs ! i in
      case rs_where rs ! i of
        DWARF_WHERE_UNDEF \<Rightarrow> Inr (new_loc[i := DWARF_NULL_LOC])
      | DWARF_WHERE_SAME \<Rightarrow> Inr new_loc
      | DWARF_WHERE_CFA \<Rightarrow> Inr (new_loc[i := DWARF_VAL_LOC cfa])
      | DWARF_WHERE_CFAREL \<Rightarrow> Inr (new_loc[i := DWARF_MEM_LOC (cfa + val)])
      | DWARF_WHERE_REG \<Rightarrow> rbind (arr_get new_loc (unat val)) (\<lambda>l. Inr (new_loc[i := l]))
      | DWARF_WHERE_EXPR \<Rightarrow> rbind (eval_location_expr c cfa val) (\<lambda>l. Inr (new_loc[i := l]))
      | DWARF_WHERE_VAL_EXPR \<Rightarrow> rbind (eval_location_expr c cfa val) (\<lambda>l.
          Inr (new_loc[i := DWARF_VAL_LOC (loc_val l)])))"

fun apply_rules ::
  "cursor \<Rightarrow> unw_word \<Rightarrow> dwarf_reg_state \<Rightarrow> dwarf_loc list \<Rightarrow> nat list \<Rightarrow> dwarf_loc list res" where
  "apply_rules c cfa rs new_loc [] = Inr new_loc"
| "apply_rules c cfa rs new_loc (i # is) =
     rbind (apply_rule c cfa rs new_loc i) (\<lambda>new_loc. apply_rules c cfa rs new_loc is)"

text \<open>
  \<open>apply_reg_state\<close>, with the cursor it leaves and whether it returns 1. Until the locations are
  stored an error leaves the cursor as it was.
\<close>

definition apply_reg_state :: "cursor \<Rightarrow> dwarf_reg_state \<Rightarrow> (cursor \<times> (unw_error + bool)) res" where
  "apply_reg_state c rs =
     (if ret_addr_column rs \<ge> word_of_nat DWARF_NUM_PRESERVED_REGS then Inr (c, Inl UNW_EBADFRAME)
      else
        rbind (attempt (rbind (eval_cfa c rs) (\<lambda>cfa.
                 rbind (apply_rules c cfa rs (c_loc c) [0..<DWARF_NUM_PRESERVED_REGS]) (\<lambda>new_loc.
                 Inr (cfa, new_loc))))) (\<lambda>r.
        case r of
          Inl e \<Rightarrow> Inr (c, Inl e)
        | Inr (cfa, new_loc) \<Rightarrow>
            let ra = new_loc ! unat (ret_addr_column rs);
                c' = c\<lparr>c_loc := new_loc, c_cfa := cfa\<rparr> in
            rbind (attempt (if DWARF_IS_NULL_LOC ra then Inr 0 else dwarf_get c' ra)) (\<lambda>r.
            case r of
              Inl e \<Rightarrow> Inr (c', Inl e)
            | Inr ip \<Rightarrow>
                let c' = c'\<lparr>c_ip := ip\<rparr> in
                if ip = c_ip c \<and> cfa = c_cfa c then Inr (c', Inl UNW_EBADFRAME)
                else rbind (if c_stash_frames c then tdep_stash_frame c' rs else Inr c') (\<lambda>c'.
                     Inr (c', Inr (ip \<noteq> 0))))))"

definition dwarf_apply_reg_state :: "cursor \<Rightarrow> dwarf_reg_state \<Rightarrow> (cursor \<times> (unw_error + bool)) res" where
  "dwarf_apply_reg_state c rs = apply_reg_state c rs"

section \<open>Finding the register state\<close>

text \<open>
  The surroundings of a step: the unwinding process, whether the address space is that of the
  process, the registered information of the process and of the target, the callback
  \<open>find_proc_info\<close> of the address space (that of the process is \<open>dwarf_find_proc_info\<close>), what a
  failed lookup leaves in the procedure information, and whether the allocations of register
  states and of cache memory succeed.
\<close>

record step_env =
  se_process :: process
  se_is_local :: bool
  se_dyn_list :: "unw_dyn_info list"
  se_target :: dyn_target
  se_find_proc_info :: "unw_word \<Rightarrow> unw_proc_info \<Rightarrow> unw_proc_info res"
  se_failed_pi :: unw_proc_info
  se_alloc :: "nat \<Rightarrow> bool"
  se_mem :: "nat \<Rightarrow> bool \<times> bool \<times> bool"

text \<open>The part of \<open>fetch_proc_info\<close> after the lookups.\<close>

definition accept_proc_info ::
  "cursor \<Rightarrow> bool \<Rightarrow> unw_error + unit \<Rightarrow> (cursor \<times> (unw_error + unit)) res" where
  "accept_proc_info c dynamic ret =
     (if pi_format (c_pi c) \<noteq> UNW_INFO_FORMAT_DYNAMIC \<and> pi_format (c_pi c) \<noteq> UNW_INFO_FORMAT_TABLE
         \<and> pi_format (c_pi c) \<noteq> UNW_INFO_FORMAT_REMOTE_TABLE
      then Inr (c, Inl UNW_ENOINFO)
      else (let c = c\<lparr>c_pi_valid := True, c_pi_is_dynamic := dynamic\<rparr> in
            case ret of
              Inl e \<Rightarrow> Inr (c, Inl e)
            | Inr u \<Rightarrow> rbind (tdep_fetch_frame c True) (\<lambda>c. Inr (c, Inr u))))"

definition fetch_proc_info ::
  "step_env \<Rightarrow> cursor \<Rightarrow> as_caches \<Rightarrow> unw_word \<Rightarrow> (cursor \<times> as_caches \<times> (unw_error + unit)) res" where
  "fetch_proc_info env c ca ip =
     (let ip = (if c_use_prev_instr c then ip - 1 else ip);
          (ca, found) = unwi_find_dynamic_proc_info (se_process env) (se_is_local env) (se_dyn_list env)
             (se_target env) ca ip zero_pi True in
      rbind (attempt found) (\<lambda>found.
      rbind (case found of
               Inr pi \<Rightarrow> accept_proc_info (c\<lparr>c_pi := pi\<rparr>) True (Inr ())
             | Inl e \<Rightarrow>
                 let c = c\<lparr>c_pi := se_failed_pi env\<rparr> in
                 if e \<noteq> UNW_ENOINFO then accept_proc_info c True (Inl e)
                 else rbind (attempt (se_find_proc_info env ip (c_pi c))) (\<lambda>found.
                      case found of
                        Inl e \<Rightarrow> Inr (c, Inl e)
                      | Inr pi \<Rightarrow> accept_proc_info (c\<lparr>c_pi := pi\<rparr>) False (Inr ()))) (\<lambda>(c, ret).
      Inr (c, ca, ret))))"

definition put_unwind_info :: "step_env \<Rightarrow> cursor \<Rightarrow> cursor" where
  "put_unwind_info env c =
     (let pi = c_pi c in
      c\<lparr>c_pi := (if c_pi_is_dynamic c then unwi_put_dynamic_unwind_info (se_is_local env) pi
                 else if pi_unwind_info pi \<noteq> None \<and> pi_format pi = UNW_INFO_FORMAT_TABLE
                 then pi\<lparr>pi_unwind_info := None\<rparr> else pi),
        c_pi_valid := False\<rparr>)"

text \<open>\<open>create_state_record_for\<close>; \<open>parse_dynamic\<close> is not implemented and fails.\<close>

definition create_state_record_for ::
  "step_env \<Rightarrow> cursor \<Rightarrow> unw_word \<Rightarrow> dwarf_state_record res" where
  "create_state_record_for env c ip =
     (let as = local_as (se_process env) in
      case pi_format (c_pi c) of
        UNW_INFO_FORMAT_TABLE \<Rightarrow> rbind (setup_fde as (se_alloc env) c) (parse_fde as (se_alloc env) c ip)
      | UNW_INFO_FORMAT_REMOTE_TABLE \<Rightarrow>
          rbind (setup_fde as (se_alloc env) c) (parse_fde as (se_alloc env) c ip)
      | UNW_INFO_FORMAT_DYNAMIC \<Rightarrow> Inl (Err UNW_ENOINFO)
      | _ \<Rightarrow> Inl (Err UNW_EINVAL))"

text \<open>
  The slow path of \<open>find_reg_state\<close>: the register state from the unwind tables. The cursor looks
  up the next frame by the instruction before its address unless this frame is a signal frame.
\<close>

definition uncached_reg_state ::
  "step_env \<Rightarrow> cursor \<Rightarrow> as_caches \<Rightarrow> (cursor \<times> as_caches \<times> (unw_error + dwarf_reg_state)) res" where
  "uncached_reg_state env c ca =
     rbind (fetch_proc_info env c ca (c_ip c)) (\<lambda>(c, ca, ret).
     rbind (case ret of
              Inl e \<Rightarrow> Inr (Inl e, c_use_prev_instr c)
            | Inr _ \<Rightarrow>
                (case pi_unwind_info (c_pi c) of
                   None \<Rightarrow> Inl Aborted
                 | Some dci \<Rightarrow>
                     rbind (attempt (create_state_record_for env c (c_ip c))) (\<lambda>sr.
                     Inr (map_sum id rs_current sr, \<not> signal_frame dci)))) (\<lambda>(ret, next_use_prev_instr).
     Inr ((put_unwind_info env c)\<lparr>c_use_prev_instr := next_use_prev_instr\<rparr>, ca, ret)))"

text \<open>Writing a member of an entry and of a register state.\<close>

definition set_hint :: "rs_cache \<Rightarrow> nat \<Rightarrow> 16 word \<Rightarrow> rs_cache res" where
  "set_hint cache i h =
     rbind (arr_get (the_links cache) i) (\<lambda>e.
     rbind (arr_set (the_links cache) i (e\<lparr>re_hint := h\<rparr>)) (\<lambda>links. Inr (with_links cache links)))"

definition store_reg_state :: "rs_cache \<Rightarrow> cursor \<Rightarrow> dwarf_reg_state \<Rightarrow> (rs_cache \<times> nat) res" where
  "store_reg_state cache c rs =
     rbind (rs_new cache c) (\<lambda>(cache, i).
     rbind (set_hint cache i 0) (\<lambda>cache.
     rbind (arr_set (the_buckets cache) i rs) (\<lambda>buckets.
     Inr (with_buckets cache buckets, i))))"

text \<open>
  The end of \<open>find_reg_state\<close> with the cache: the hints of the entry and of the one before it in
  the stack, and the frame's format.
\<close>

definition use_entry :: "rs_cache \<Rightarrow> cursor \<Rightarrow> nat \<Rightarrow> (cursor \<times> rs_cache) res" where
  "use_entry cache c i =
     rbind (arr_get (the_links cache) i) (\<lambda>e.
     rbind (set_hint cache (unat (c_prev_rs c)) (word_of_nat i + 1)) (\<lambda>cache.
     rbind (arr_get (the_links cache) i) (\<lambda>e'.
     Inr (tdep_reuse_frame (c\<lparr>c_hint := re_hint e, c_prev_rs := word_of_nat i\<rparr>) (re_signal_frame e'),
          cache))))"

definition finish_with_cache ::
  "cursor \<Rightarrow> as_caches \<Rightarrow> nat \<Rightarrow> dwarf_reg_state
    \<Rightarrow> (cursor \<times> as_caches \<times> (unw_error + dwarf_reg_state)) res" where
  "finish_with_cache c ca i rs =
     rbind (use_entry (global_cache ca) c i) (\<lambda>(c, cache).
     rbind (put_rs_cache (ca\<lparr>global_cache := cache\<rparr>)) (\<lambda>ca.
     Inr (c, ca, Inr rs)))"

text \<open>
  After the slow path: the register state found is entered into the cache, unless another thread
  has entered one for the address.
\<close>

definition cache_reg_state ::
  "step_env \<Rightarrow> cursor \<Rightarrow> as_caches \<Rightarrow> dwarf_reg_state
    \<Rightarrow> (cursor \<times> as_caches \<times> (unw_error + dwarf_reg_state)) res" where
  "cache_reg_state env c ca rs =
     rbind (get_rs_cache (se_mem env 1) ca) (\<lambda>(ca, have).
     if \<not> have then Inr (c, ca, Inr rs) else
     rbind (rs_lookup (global_cache ca) c) (\<lambda>hit.
     case hit of
       Some i \<Rightarrow> rbind (arr_get (the_buckets (global_cache ca)) i) (\<lambda>rs. finish_with_cache c ca i rs)
     | None \<Rightarrow>
         rbind (store_reg_state (global_cache ca) c rs) (\<lambda>(cache, i).
         finish_with_cache c (ca\<lparr>global_cache := cache\<rparr>) i rs)))"

definition find_reg_state ::
  "step_env \<Rightarrow> cursor \<Rightarrow> as_caches \<Rightarrow> (cursor \<times> as_caches \<times> (unw_error + dwarf_reg_state)) res" where
  "find_reg_state env c ca =
     rbind (get_rs_cache (se_mem env 0) ca) (\<lambda>(ca, have).
     rbind (if have then rs_lookup (global_cache ca) c else Inr None) (\<lambda>hit.
     case hit of
       Some i \<Rightarrow>
         rbind (arr_get (the_links (global_cache ca)) i) (\<lambda>e.
         rbind (arr_get (the_buckets (global_cache ca)) i) (\<lambda>rs.
         finish_with_cache (c\<lparr>c_use_prev_instr := \<not> re_signal_frame e\<rparr>) ca i rs))
     | None \<Rightarrow>
         rbind (if have then put_rs_cache ca else Inr ca) (\<lambda>ca.
         rbind (uncached_reg_state env c ca) (\<lambda>(c, ca, ret).
         case ret of
           Inl e \<Rightarrow> Inr (c, ca, Inl e)
         | Inr rs \<Rightarrow> cache_reg_state env c ca rs))))"

text \<open>\<open>dwarf_step\<close> and \<open>dwarf_make_proc_info\<close>.\<close>

definition dwarf_step ::
  "step_env \<Rightarrow> cursor \<Rightarrow> as_caches \<Rightarrow> (cursor \<times> as_caches \<times> (unw_error + bool)) res" where
  "dwarf_step env c ca =
     rbind (find_reg_state env c ca) (\<lambda>(c, ca, ret).
     case ret of
       Inl e \<Rightarrow> Inr (c, ca, Inl e)
     | Inr rs \<Rightarrow> rbind (apply_reg_state c rs) (\<lambda>(c, ret). Inr (c, ca, ret)))"

definition dwarf_make_proc_info ::
  "step_env \<Rightarrow> cursor \<Rightarrow> as_caches \<Rightarrow> (cursor \<times> as_caches \<times> (unw_error + unit)) res" where
  "dwarf_make_proc_info env c ca =
     rbind (fetch_proc_info env c ca (c_ip c)) (\<lambda>(c, ca, ret).
     rbind (case ret of Inl e \<Rightarrow> Inr (Inl e)
            | Inr _ \<Rightarrow> attempt (create_state_record_for env c (c_ip c))) (\<lambda>ret.
     let c = put_unwind_info env c in
     Inr (case ret of Inl e \<Rightarrow> (c, ca, Inl e)
          | Inr sr \<Rightarrow> (c\<lparr>c_args_size := args_size sr\<rparr>, ca, Inr ()))))"

end
