(* ===== verification/StepLemmas.thy ===== *)
theory StepLemmas
  imports Step
begin

text \<open>
  Applying a register state: the specification of a row of the call-frame table as the location
  of every register of the caller, all read in the frame of the callee, and that the loop of
  \<open>apply_reg_state\<close>, which overwrites the locations one after the other, implements it.
\<close>

section \<open>The caller's registers\<close>

text \<open>Where a row says that the caller's register is, given the CFA.\<close>

definition caller_loc :: "cursor \<Rightarrow> unw_word \<Rightarrow> dwarf_reg_state \<Rightarrow> nat \<Rightarrow> dwarf_loc res" where
  "caller_loc c cfa rs r =
     (let val = rs_val rs ! r in
      case rs_where rs ! r of
        DWARF_WHERE_UNDEF \<Rightarrow> Inr DWARF_NULL_LOC
      | DWARF_WHERE_SAME \<Rightarrow> arr_get (c_loc c) r
      | DWARF_WHERE_CFA \<Rightarrow> Inr (DWARF_VAL_LOC cfa)
      | DWARF_WHERE_CFAREL \<Rightarrow> Inr (DWARF_MEM_LOC (cfa + val))
      | DWARF_WHERE_REG \<Rightarrow> arr_get (c_loc c) (unat val)
      | DWARF_WHERE_EXPR \<Rightarrow> eval_location_expr c cfa val
      | DWARF_WHERE_VAL_EXPR \<Rightarrow> rbind (eval_location_expr c cfa val) (\<lambda>l. Inr (DWARF_VAL_LOC (loc_val l))))"

definition caller_value :: "cursor \<Rightarrow> unw_word \<Rightarrow> dwarf_reg_state \<Rightarrow> nat \<Rightarrow> unw_word res" where
  "caller_value c cfa rs r = rbind (caller_loc c cfa rs r) (dwarf_get c)"

text \<open>The address to return to; an undefined one is the end of the stack.\<close>

definition caller_ip :: "cursor \<Rightarrow> unw_word \<Rightarrow> dwarf_reg_state \<Rightarrow> unw_word res" where
  "caller_ip c cfa rs =
     rbind (caller_loc c cfa rs (unat (ret_addr_column rs))) (\<lambda>l.
     if DWARF_IS_NULL_LOC l then Inr 0 else dwarf_get c l)"

text \<open>
  A rule that refers to another register is only right if the loop has not replaced that
  register's location before: the register is not below, or its rule keeps the location.
\<close>

definition forward_registers :: "dwarf_reg_state \<Rightarrow> bool" where
  "forward_registers rs \<longleftrightarrow> (\<forall>i < DWARF_NUM_PRESERVED_REGS. rs_where rs ! i = DWARF_WHERE_REG \<longrightarrow>
     unat (rs_val rs ! i) \<ge> i \<or> rs_where rs ! unat (rs_val rs ! i) = DWARF_WHERE_SAME)"

section \<open>The loop\<close>

lemma apply_rule_length:
  "apply_rule c cfa rs L i = Inr L' \<Longrightarrow> length L' = length L"
  by (auto simp: apply_rule_def Let_def res_iff split: dwarf_where.splits)

lemma apply_rule_caller:
  assumes "length L = 17" "length (c_loc c) = 17" "i < 17"
    and old: "\<And>j. j < i \<Longrightarrow> caller_loc c cfa rs j = Inr (L ! j)"
    and todo: "\<And>j. i \<le> j \<Longrightarrow> j < 17 \<Longrightarrow> L ! j = c_loc c ! j"
    and l: "caller_loc c cfa rs i = Inr l" and fwd: "forward_registers rs"
  shows "apply_rule c cfa rs L i = Inr (L[i := l])"
proof (cases "rs_where rs ! i")
  case DWARF_WHERE_SAME
  then have "L[i := l] = L" using l todo [of i] assms(2,3)
    by (simp add: caller_loc_def Let_def) (metis list_update_id)
  with DWARF_WHERE_SAME show ?thesis by (simp add: apply_rule_def)
next
  case DWARF_WHERE_REG
  let ?v = "unat (rs_val rs ! i)"
  have v: "?v < 17" "l = c_loc c ! ?v"
    using l assms(2) by (auto simp: caller_loc_def DWARF_WHERE_REG Let_def arr_get_def split: if_splits)
  have "L ! ?v = l"
  proof (cases "?v < i")
    case True
    then have "rs_where rs ! ?v = DWARF_WHERE_SAME"
      using fwd assms(3) DWARF_WHERE_REG by (auto simp: forward_registers_def)
    then show ?thesis using old [OF True] v assms(2)
      by (simp add: caller_loc_def)
  qed (use todo [of ?v] v in simp)
  then show ?thesis using v assms(1) by (simp add: apply_rule_def DWARF_WHERE_REG)
qed (use l in \<open>auto simp: apply_rule_def caller_loc_def Let_def res_iff\<close>)

lemma apply_rules_caller:
  assumes n: "n = 17" and "length (c_loc c) = n" and "forward_registers rs"
    and "\<And>i. i < n \<Longrightarrow> caller_loc c cfa rs i = Inr (l i)"
  shows "apply_rules c cfa rs (c_loc c) [0..<n] = Inr (map l [0..<n])"
proof -
  have "apply_rules c cfa rs L [i..<n] = Inr (map l [0..<n])"
    if "i \<le> n" "length L = n" "\<And>j. j < i \<Longrightarrow> L ! j = l j"
      "\<And>j. i \<le> j \<Longrightarrow> j < n \<Longrightarrow> L ! j = c_loc c ! j" for i L
    using that
  proof (induction "n - i" arbitrary: i L)
    case 0
    then have "L = map l [0..<n]" by (intro nth_equalityI) simp_all
    with 0 show ?case by simp
  next
    case (Suc k)
    then have i: "i < n" by simp
    have "apply_rule c cfa rs L i = Inr (L[i := l i])"
      using Suc.prems i assms by (intro apply_rule_caller) simp_all
    moreover have "apply_rules c cfa rs (L[i := l i]) [Suc i..<n] = Inr (map l [0..<n])"
      using Suc.prems Suc.hyps(2) i by (intro Suc.hyps(1)) (auto simp: nth_list_update less_Suc_eq)
    ultimately show ?case using i by (simp add: upt_conv_Cons)
  qed
  from this [of 0 "c_loc c"] assms(2) show ?thesis by simp
qed

lemma if_check_eq_Inr:
  "(if p then Inr x else if q then rbind (check r e) (\<lambda>_. Inr y) else Inr y) = Inr z
    \<Longrightarrow> z = x \<or> z = y"
  by (cases p; cases q; cases r) simp_all

lemma tdep_stash_frame_only:
  assumes "tdep_stash_frame c rs = Inr c'"
  shows "\<exists>f. c' = c\<lparr>c_frame_info := f\<rparr>"
proof -
  obtain f where "stash_aligned c rs (c_frame_info c) = Inr f"
    using assms unfolding tdep_stash_frame_def rbind_eq_Inr by blast
  then show ?thesis
    using assms unfolding tdep_stash_frame_def Let_def by (auto dest!: if_check_eq_Inr)
qed

lemma dwarf_get_cong: "c_as c' = c_as c \<Longrightarrow> dwarf_get c' l = dwarf_get c l"
  by (simp add: dwarf_get_def)

text \<open>The whole operation, for a row whose rules can all be evaluated.\<close>

lemma apply_reg_state_stashed:
  assumes wf: "wf_cursor c" and col: "ret_addr_column rs < 17" and fwd: "forward_registers rs"
    and cfa: "eval_cfa c rs = Inr cfa" and l: "\<And>i. i < 17 \<Longrightarrow> caller_loc c cfa rs i = Inr (l i)"
    and ip: "caller_ip c cfa rs = Inr ip" and moved: "\<not> (ip = c_ip c \<and> cfa = c_cfa c)"
    and c': "c' = c\<lparr>c_loc := map l [0..<17], c_cfa := cfa, c_ip := ip\<rparr>"
  shows "apply_reg_state c rs = rbind (if c_stash_frames c then tdep_stash_frame c' rs else Inr c') (\<lambda>c'.
    Inr (c', Inr (ip \<noteq> 0)))"
proof -
  have u: "unat (ret_addr_column rs) < 17" using col by (simp add: word_less_nat_alt)
  have rules: "apply_rules c cfa rs (c_loc c) [0..<17] = Inr (map l [0..<17])"
    using wf by (intro apply_rules_caller [OF refl] fwd l) (simp_all add: wf_cursor_def)
  have ra: "map l [0..<17] ! unat (ret_addr_column rs) = l (unat (ret_addr_column rs))"
    using u by (simp del: upt_rec_numeral)
  have "(if DWARF_IS_NULL_LOC (l (unat (ret_addr_column rs))) then Inr 0
       else dwarf_get (c\<lparr>c_loc := map l [0..<17], c_cfa := cfa\<rparr>) (l (unat (ret_addr_column rs)))) = Inr ip"
    using ip l [OF u] dwarf_get_cong [of "c\<lparr>c_loc := map l [0..<17], c_cfa := cfa\<rparr>" c]
    by (auto simp: caller_ip_def split: if_splits)
  moreover have "\<not> ret_addr_column rs \<ge> 17" using col by simp
  ultimately show ?thesis
    using cfa rules moved
    by (auto simp add: apply_reg_state_def Let_def ra c' simp del: upt_rec_numeral cong: if_cong)
qed

lemma apply_reg_state_caller:
  assumes "wf_cursor c" "ret_addr_column rs < 17" "forward_registers rs" "eval_cfa c rs = Inr cfa"
    and "\<And>i. i < 17 \<Longrightarrow> caller_loc c cfa rs i = Inr (l i)" and "caller_ip c cfa rs = Inr ip"
    and "\<not> (ip = c_ip c \<and> cfa = c_cfa c)" and "\<not> c_stash_frames c"
  shows "apply_reg_state c rs
    = Inr (c\<lparr>c_loc := map l [0..<17], c_cfa := cfa, c_ip := ip\<rparr>, Inr (ip \<noteq> 0))"
  using apply_reg_state_stashed [OF assms(1-7) refl] assms(8) by simp

section \<open>The canonical frame address\<close>

text \<open>
  The value of a register in the frame of the callee: the arguments of an exception handler and the instruction
  address have places of their own. The stack pointer that has no location is the frame address of the callee.
\<close>

definition frame_register :: "cursor \<Rightarrow> nat \<Rightarrow> unw_word res" where
  "frame_register c r =
     (if r = 16 then Inr (c_ip c)
      else if r = 7 \<and> DWARF_IS_NULL_LOC (c_loc c ! 7) then Inr (c_cfa c)
      else if r < 2 \<and> bit (c_eh_valid_mask c) r then Inr (c_eh_args c ! r)
      else dwarf_get c (c_loc c ! r))"

text \<open>The CFA that a row describes: a register plus an offset, or the address that an expression computes.\<close>

definition caller_cfa :: "cursor \<Rightarrow> dwarf_reg_state \<Rightarrow> unw_word res" where
  "caller_cfa c rs =
     (let val = rs_val rs ! 17 in
      case rs_where rs ! 17 of
        DWARF_WHERE_REG \<Rightarrow>
          if unat val < 17 then rbind (frame_register c (unat val)) (\<lambda>v. Inr (v + rs_val rs ! 18)) else Inl (Err UNW_EBADREG)
      | DWARF_WHERE_EXPR \<Rightarrow>
          rbind (dwarf_read_uleb128 (c_as c) val) (\<lambda>(len, addr).
          rbind (returns (dwarf_eval_expr c 0 addr len)) (\<lambda>(v, is_register, _).
          if is_register then Inl (Err UNW_EBADFRAME) else Inr v))
      | _ \<Rightarrow> Inl (Err UNW_EBADFRAME))"

lemma sint_small_nat: "n < 17 \<Longrightarrow> sint (word_of_nat n :: 32 word) = int n"
  by (simp add: signed_of_nat signed_take_bit_int_eq_self)

lemma frame_register_read:
  assumes "wf_cursor c" "r < 17" "\<not> (r = 7 \<and> DWARF_IS_NULL_LOC (c_loc c ! 7))"
  shows "unw_get_reg c (int r) = frame_register c r"
proof -
  have len: "length (c_loc c) = 17" "length (c_eh_args c) = 2" using assms(1) by (simp_all add: wf_cursor_def)
  have mask: "c_eh_valid_mask c AND push_bit k 1 \<noteq> 0 \<longleftrightarrow> bit (c_eh_valid_mask c) k" for k
    using and_exp_eq_0_iff_not_bit [of "c_eh_valid_mask c" k] by (simp add: push_bit_of_1)
  show ?thesis
    using assms(2,3) len mask [of 0] mask [of 1]
    by (auto simp: unw_get_reg_def tdep_access_reg_read_def frame_register_def Let_def)
qed

lemma caller_cfa_eval:
  assumes "wf_cursor c" "caller_cfa c rs = Inr cfa"
  shows "eval_cfa c rs = Inr cfa"
proof (cases "rs_where rs ! 17")
  case DWARF_WHERE_REG
  let ?v = "rs_val rs ! 17"
  have v: "unat ?v < 17" using assms(2) DWARF_WHERE_REG by (auto simp: caller_cfa_def Let_def split: if_splits)
  have int: "dwarf_to_unw_regnum_int (sint (ucast ?v :: 32 word)) = Inr (unat ?v)"
  proof -
    have "ucast ?v = (word_of_nat (unat ?v) :: 32 word)" by simp
    then have "sint (ucast ?v :: 32 word) = int (unat ?v)"
      using sint_small_nat [OF v] by (simp only:)
    then show ?thesis using v dwarf_to_unw_regnum_int_nonneg [OF of_nat_0_le_iff, of "unat ?v"] by (simp del: of_nat_unat)
  qed
  have seven: "?v = 7 \<longleftrightarrow> unat ?v = 7" by (simp add: word_unat_eq_iff)
  show ?thesis
    using assms DWARF_WHERE_REG v int seven frame_register_read [OF assms(1) v]
    by (auto simp: eval_cfa_def caller_cfa_def frame_register_def Let_def)
next
  case DWARF_WHERE_EXPR
  then obtain len addr x where "dwarf_read_uleb128 (c_as c) (rs_val rs ! 17) = Inr (len, addr)"
    "returns (dwarf_eval_expr c 0 addr len) = Inr (cfa, False, x)"
    using assms(2) by (auto simp: caller_cfa_def Let_def res_iff split: if_splits)
  then show ?thesis using DWARF_WHERE_EXPR by (simp add: eval_cfa_def eval_location_expr_def loc_defs)
qed (use assms(2) in \<open>auto simp: caller_cfa_def Let_def\<close>)

section \<open>Rows of ordinary frames\<close>

text \<open>
  The row of a function that has moved the stack pointer by \<open>n - 8\<close> bytes and saved nothing: the
  CFA is the stack pointer plus \<open>n\<close>, and the return address is saved below it.
\<close>

definition plain_row :: "unw_word \<Rightarrow> dwarf_reg_state" where
  "plain_row n = \<lparr>ret_addr_column = 16,
     rs_where = (replicate 19 DWARF_WHERE_SAME)[7 := DWARF_WHERE_CFA, 16 := DWARF_WHERE_CFAREL,
       17 := DWARF_WHERE_REG, 18 := DWARF_WHERE_UNDEF],
     rs_val = (replicate 19 0)[16 := - 8, 17 := 7, 18 := n]\<rparr>"

lemma plain_row_simps [simp]:
  "ret_addr_column (plain_row n) = 16" "wf_rs (plain_row n)"
  "rs_where (plain_row n) ! 17 = DWARF_WHERE_REG" "rs_val (plain_row n) ! 17 = 7"
  "rs_val (plain_row n) ! 18 = n" "rs_val (plain_row n) ! 16 = - 8"
  by (simp_all add: plain_row_def wf_rs_def)

lemma plain_row_where:
  "i < 17 \<Longrightarrow> rs_where (plain_row n) ! i
    = (if i = 7 then DWARF_WHERE_CFA else if i = 16 then DWARF_WHERE_CFAREL else DWARF_WHERE_SAME)"
  by (simp add: plain_row_def nth_list_update)

lemma plain_row_forward [simp]: "forward_registers (plain_row n)"
  by (simp add: forward_registers_def plain_row_where)

lemma plain_row_loc:
  assumes "length (c_loc c) = 17" and "i < 17"
  shows "caller_loc c cfa (plain_row n) i
    = Inr (((c_loc c)[7 := DWARF_VAL_LOC cfa, 16 := DWARF_MEM_LOC (cfa - 8)]) ! i)"
  using assms by (simp add: caller_loc_def plain_row_where nth_list_update)

lemma plain_row_cfa:
  assumes "unw_get_reg c 7 = Inr sp" and "\<not> DWARF_IS_NULL_LOC (c_loc c ! 7)"
  shows "eval_cfa c (plain_row n) = Inr (sp + n)"
proof -
  have "sint (ucast (7 :: unw_word) :: 32 word) = 7" by simp
  then show ?thesis
    using assms by (simp add: eval_cfa_def dwarf_to_unw_regnum_int_nonneg)
qed

text \<open>
  What the cursor remembers of such a frame: if nothing is known of it yet and the frame is not too
  large, that it is a standard frame.
\<close>

definition stashed_plain :: "unw_tdep_frame \<Rightarrow> unw_word \<Rightarrow> unw_tdep_frame" where
  "stashed_plain f n =
     (if fr_type f = UNW_X86_64_FRAME_OTHER \<and> \<bar>sint n\<bar> < 2 ^ 28
      then f\<lparr>fr_type := UNW_X86_64_FRAME_STANDARD, cfa_reg_rsp := True, cfa_reg_offset := sint n,
             rsp_cfa_offset := 0\<rparr>
      else f)"

lemma trunc_field_small:
  assumes "\<bar>sint (w :: unw_word)\<bar> < 2 ^ 28"
  shows "trunc_field 29 w = sint w"
  using assms by (auto simp: trunc_field_def signed_take_bit_int_eq_self_iff)

lemma stash_plain:
  assumes "fr_type (c_frame_info c) \<noteq> UNW_X86_64_FRAME_SIGRETURN" and "loc_val (c_loc c ! 16) = c_cfa c - 8"
  shows "tdep_stash_frame c (plain_row n) = Inr (c\<lparr>c_frame_info := stashed_plain (c_frame_info c) n\<rparr>)"
proof -
  have w: "rs_where (plain_row n) ! 6 = DWARF_WHERE_SAME" "rs_where (plain_row n) ! 7 = DWARF_WHERE_CFA"
    by (simp_all add: plain_row_where)
  have a: "stash_aligned c (plain_row n) (c_frame_info c) = Inr (c_frame_info c)"
    by (simp add: stash_aligned_def)
  show ?thesis
    unfolding tdep_stash_frame_def a rbind_simps using assms w
    by (simp add: Let_def saved_near_def stash_offset_def stashed_plain_def trunc_field_small)
qed

lemma plain_row_stashed:
  assumes "wf_cursor c" and "unw_get_reg c 7 = Inr sp" and "\<not> DWARF_IS_NULL_LOC (c_loc c ! 7)"
    and "access_mem (c_as c) (sp + n - 8) = Inr ra" and "sp + n \<noteq> 8" and "sp + n \<noteq> c_cfa c"
    and "c_stash_frames c \<Longrightarrow> fr_type (c_frame_info c) \<noteq> UNW_X86_64_FRAME_SIGRETURN"
  shows "apply_reg_state c (plain_row n)
    = Inr (c\<lparr>c_loc := (c_loc c)[7 := DWARF_VAL_LOC (sp + n), 16 := DWARF_MEM_LOC (sp + n - 8)],
        c_cfa := sp + n, c_ip := ra,
        c_frame_info := (if c_stash_frames c then stashed_plain (c_frame_info c) n else c_frame_info c)\<rparr>,
      Inr (ra \<noteq> 0))"
proof -
  let ?L = "(c_loc c)[7 := DWARF_VAL_LOC (sp + n), 16 := DWARF_MEM_LOC (sp + n - 8)]"
  let ?c' = "c\<lparr>c_loc := ?L, c_cfa := sp + n, c_ip := ra\<rparr>"
  have len: "length (c_loc c) = 17" using assms(1) by (simp add: wf_cursor_def)
  have L: "map (\<lambda>i. ?L ! i) [0..<17] = ?L"
    using len by (intro nth_equalityI) (simp_all del: upt_rec_numeral)
  moreover have "caller_ip c (sp + n) (plain_row n) = Inr ra"
    using len assms(4,5) by (simp add: caller_ip_def plain_row_loc dwarf_get_def)
  moreover have "?c' = c\<lparr>c_loc := map (\<lambda>i. ?L ! i) [0..<17], c_cfa := sp + n, c_ip := ra\<rparr>"
    unfolding L by (rule refl)
  ultimately have "apply_reg_state c (plain_row n)
      = rbind (if c_stash_frames c then tdep_stash_frame ?c' (plain_row n) else Inr ?c') (\<lambda>c'.
        Inr (c', Inr (ra \<noteq> 0)))"
    using apply_reg_state_stashed [OF assms(1), of "plain_row n" "sp + n" "\<lambda>i. ?L ! i" ra ?c']
      plain_row_loc [OF len] plain_row_cfa [OF assms(2,3)] assms(6)
    by simp
  moreover have "loc_val (c_loc ?c' ! 16) = c_cfa ?c' - 8" using len by simp
  ultimately show ?thesis using stash_plain [of ?c' n] assms(7) by simp
qed

end
