(* ===== verification/StepProps.thy ===== *)
theory StepProps
  imports StepLemmas Ram
begin

text \<open>
  Properties of applying a register state: it recovers the caller's registers, and which rows
  make it read out of bounds; with an example of rules whose order matters.
\<close>

section \<open>The caller's registers\<close>

text \<open>C4. Applying a row recovers the frame of the caller: the CFA and the instruction address become those
  that the row describes, and every register reads as the value that the row assigns to it in the frame of
  the callee. This holds for a row whose rules can all be evaluated and in which no rule takes its register
  from a lower-numbered one that has a rule of its own (the code overwrites the locations one after the
  other); the frame of the caller must differ from that of the callee, and the cursor must not collect
  frames for the fast trace. The result is 1 unless the return address is 0 or undefined.\<close>

theorem apply_reg_state_recovers_caller:
  assumes "wf_cursor c" and "ret_addr_column rs < 17" and "forward_registers rs"
    and "caller_cfa c rs = Inr cfa" and "\<And>r. r < 17 \<Longrightarrow> \<exists>l. caller_loc c cfa rs r = Inr l"
    and "caller_ip c cfa rs = Inr ip" and "(ip, cfa) \<noteq> (c_ip c, c_cfa c)" and "\<not> c_stash_frames c"
  shows "\<exists>c'. apply_reg_state c rs = Inr (c', Inr (ip \<noteq> 0)) \<and> c_cfa c' = cfa \<and> c_ip c' = ip
    \<and> c_as c' = c_as c \<and> wf_cursor c'
    \<and> (\<forall>r < 17. dwarf_get c' (c_loc c' ! r) = caller_value c cfa rs r)"
proof -
  obtain l where l: "\<And>r. r < 17 \<Longrightarrow> caller_loc c cfa rs r = Inr (l r)" using assms(5) by metis
  let ?c' = "c\<lparr>c_loc := map l [0..<17], c_cfa := cfa, c_ip := ip\<rparr>"
  have "dwarf_get ?c' (c_loc ?c' ! r) = caller_value c cfa rs r" if "r < 17" for r
    using that l [OF that] dwarf_get_cong [of ?c' c]
    by (simp add: caller_value_def del: upt_rec_numeral)
  moreover have "wf_cursor ?c'" using assms(1) by (simp add: wf_cursor_def)
  ultimately show ?thesis
    using apply_reg_state_caller [OF assms(1-3) caller_cfa_eval [OF assms(1,4)] l assms(6) _ assms(8)] assms(7)
    by (intro exI [of _ ?c']) (simp del: upt_rec_numeral)
qed

section \<open>Bounds\<close>

definition register_rule_ok :: "dwarf_reg_state \<Rightarrow> nat \<Rightarrow> bool" where
  "register_rule_ok rs i \<longleftrightarrow> (rs_where rs ! i = DWARF_WHERE_REG \<longrightarrow> rs_val rs ! i < 17)"

definition no_expressions :: "dwarf_reg_state \<Rightarrow> bool" where
  "no_expressions rs \<longleftrightarrow> (\<forall>i < 17. rs_where rs ! i \<noteq> DWARF_WHERE_EXPR
     \<and> rs_where rs ! i \<noteq> DWARF_WHERE_VAL_EXPR)"

text \<open>A rule, and a list of rules, without expressions: the only failure is the access out of bounds.\<close>

lemma apply_rule_bounds:
  assumes "length L = 17" "i < 17" "no_expressions rs"
  shows "case apply_rule c cfa rs L i of
     Inr L' \<Rightarrow> register_rule_ok rs i \<and> length L' = 17
   | Inl f \<Rightarrow> \<not> register_rule_ok rs i \<and> f = Out_of_bounds"
  using assms
  by (cases "rs_where rs ! i")
    (simp_all add: apply_rule_def register_rule_ok_def no_expressions_def word_less_nat_alt arr_get_def Let_def)

lemma apply_rules_bounds:
  assumes "length L = 17" "list_all (\<lambda>i. i < 17) js" "no_expressions rs"
  shows "case apply_rules c cfa rs L js of
     Inr L' \<Rightarrow> list_all (register_rule_ok rs) js \<and> length L' = 17
   | Inl f \<Rightarrow> \<not> list_all (register_rule_ok rs) js \<and> f = Out_of_bounds"
  using assms(1,2)
proof (induction js arbitrary: L)
  case (Cons i js)
  show ?case
  proof (cases "apply_rule c cfa rs L i")
    case (Inr L')
    then have "register_rule_ok rs i" "length L' = 17"
      using Cons.prems apply_rule_bounds [of L i rs c cfa] assms(3) by simp_all
    with Inr Cons.IH [of L'] Cons.prems show ?thesis by (simp split: sum.splits)
  next
    case (Inl f)
    with Cons apply_rule_bounds [of L i rs c cfa] assms(3) show ?thesis by simp
  qed
qed simp

lemma tdep_stash_frame_bounds:
  assumes "rs_where rs ! RBP \<noteq> DWARF_WHERE_EXPR"
  shows "in_bounds (tdep_stash_frame c rs)"
  using assms by (simp add: tdep_stash_frame_def stash_aligned_def Let_def check_def)

lemma attempt_in_bounds [simp]: "in_bounds (attempt r) \<longleftrightarrow> in_bounds r"
  by (simp add: attempt_def in_bounds_def split: sum.splits fault.splits)

lemma apply_reg_state_after_rules:
  assumes "ret_addr_column rs < 17" "eval_cfa c rs = Inr cfa" "rs_where rs ! RBP \<noteq> DWARF_WHERE_EXPR"
    and "apply_rules c cfa rs (c_loc c) [0..<17] = Inr L"
  shows "in_bounds (apply_reg_state c rs)"
proof -
  have "\<not> ret_addr_column rs \<ge> 17" using assms(1) by simp
  then show ?thesis
    using assms tdep_stash_frame_bounds
    by (auto simp: apply_reg_state_def Let_def simp del: upt_rec_numeral
        intro!: in_bounds_rbind split: sum.splits)
qed

text \<open>For a row without expressions, applying it accesses the locations out of bounds exactly if
  some register rule names a register number of 17 or more. Nothing checks this operand of
  \<open>DW_CFA_register\<close> before.\<close>
lemma register_rule_bounds:
  assumes "wf_cursor c" and "ret_addr_column rs < 17" and "eval_cfa c rs = Inr cfa" and "no_expressions rs"
  shows "in_bounds (apply_reg_state c rs)
    \<longleftrightarrow> (\<forall>i < 17. rs_where rs ! i = DWARF_WHERE_REG \<longrightarrow> rs_val rs ! i < 17)"
proof -
  have "length (c_loc c) = 17" using assms(1) by (simp add: wf_cursor_def)
  moreover have "list_all (\<lambda>i. i < 17) [0..<17]" by (simp add: list_all_iff)
  ultimately have rules: "case apply_rules c cfa rs (c_loc c) [0..<17] of
      Inr L' \<Rightarrow> list_all (register_rule_ok rs) [0..<17] \<and> length L' = 17
    | Inl f \<Rightarrow> \<not> list_all (register_rule_ok rs) [0..<17] \<and> f = Out_of_bounds"
    using apply_rules_bounds assms(4) by blast
  have iff: "list_all (register_rule_ok rs) [0..<17]
      \<longleftrightarrow> (\<forall>i < 17. rs_where rs ! i = DWARF_WHERE_REG \<longrightarrow> rs_val rs ! i < 17)"
    unfolding list_all_iff set_upt register_rule_ok_def atLeastLessThan_iff Ball_def by blast
  show ?thesis
  proof (cases "apply_rules c cfa rs (c_loc c) [0..<17]")
    case (Inr L)
    moreover have "rs_where rs ! RBP \<noteq> DWARF_WHERE_EXPR" using assms(4) by (simp add: no_expressions_def)
    ultimately show ?thesis using rules iff apply_reg_state_after_rules assms(2,3) by fastforce
  next
    case (Inl f)
    moreover have "\<not> ret_addr_column rs \<ge> 17" using assms(2) by simp
    ultimately have "apply_reg_state c rs = Inl Out_of_bounds"
      using assms(3) rules by (simp add: apply_reg_state_def Let_def del: upt_rec_numeral)
    then show ?thesis using Inl rules iff by simp
  qed
qed

section \<open>Examples\<close>

text \<open>A function at 0x4000 with a frame of 16 bytes, called from 0x5000.\<close>

definition sample_stack :: memory where
  "sample_stack = bytes_from 0x7008 [0x00, 0x50, 0, 0, 0, 0, 0, 0]"

definition sample_frame :: cursor where
  "sample_frame = (blank_cursor (ram sample_stack))\<lparr>c_ip := 0x4000, c_cfa := 0x7000,
     c_loc := (replicate 17 DWARF_NULL_LOC)[3 := DWARF_VAL_LOC 42, 7 := DWARF_VAL_LOC 0x7000]\<rparr>"

lemma sample_return_address: "word_at sample_stack 0x7008 = 0x5000"
proof -
  have "sample_stack (0x7008 + word_of_nat i) = [0x00, 0x50, 0, 0, 0, 0, 0, 0] ! i" if "i < 8" for i
    unfolding sample_stack_def by (rule bytes_from_nth) (use that in simp_all)
  from this [of 0] this [of 1] this [of 2] this [of 3] this [of 4] this [of 5] this [of 6] this [of 7]
  show ?thesis by (simp add: word_at_def)
qed

lemma sample_frame_simps [simp]:
  "wf_cursor sample_frame" "c_ip sample_frame = 0x4000" "c_cfa sample_frame = 0x7000"
  "c_as sample_frame = ram sample_stack" "\<not> c_stash_frames sample_frame"
  "c_loc sample_frame = (replicate 17 DWARF_NULL_LOC)[3 := DWARF_VAL_LOC 42, 7 := DWARF_VAL_LOC 0x7000]"
  by (simp_all add: sample_frame_def wf_cursor_def blank_cursor_def)

lemma sample_frame_sp [simp]: "unw_get_reg sample_frame 7 = Inr 0x7000"
  by (simp add: unw_get_reg_def tdep_access_reg_read_def dwarf_get_def)

theorem apply_reg_state_recovers_caller_witness:
  "\<exists>c'. apply_reg_state sample_frame (plain_row 16) = Inr (c', Inr True) \<and> c_cfa c' = 0x7010
    \<and> c_ip c' = 0x5000 \<and> dwarf_get c' (c_loc c' ! 3) = Inr 42 \<and> dwarf_get c' (c_loc c' ! 7) = Inr 0x7010"
proof -
  have cfa: "caller_cfa sample_frame (plain_row 16) = Inr 0x7010"
    by (simp add: caller_cfa_def frame_register_def dwarf_get_def)
  have len: "length (c_loc sample_frame) = 17" by simp
  note loc = plain_row_loc [OF len]
  have ip: "caller_ip sample_frame 0x7010 (plain_row 16) = Inr 0x5000"
    by (simp add: caller_ip_def loc dwarf_get_def sample_return_address)
  have "\<exists>c'. apply_reg_state sample_frame (plain_row 16) = Inr (c', Inr (0x5000 \<noteq> (0 :: unw_word)))
    \<and> c_cfa c' = 0x7010 \<and> c_ip c' = 0x5000 \<and> c_as c' = c_as sample_frame \<and> wf_cursor c'
    \<and> (\<forall>r < 17. dwarf_get c' (c_loc c' ! r) = caller_value sample_frame 0x7010 (plain_row 16) r)"
    by (rule apply_reg_state_recovers_caller [OF _ _ _ cfa _ ip]) (simp_all add: loc)
  then obtain c' where "apply_reg_state sample_frame (plain_row 16) = Inr (c', Inr True)"
    "c_cfa c' = 0x7010" "c_ip c' = 0x5000"
    "\<And>r. r < 17 \<Longrightarrow> dwarf_get c' (c_loc c' ! r) = caller_value sample_frame 0x7010 (plain_row 16) r"
    by auto
  then show ?thesis
    by (intro exI [of _ c']) (simp add: caller_value_def loc dwarf_get_def)
qed

lemma register_rule_bounds_witness:
  "\<not> in_bounds (apply_reg_state sample_frame
     ((plain_row 16)\<lparr>rs_where := (rs_where (plain_row 16))[3 := DWARF_WHERE_REG],
        rs_val := (rs_val (plain_row 16))[3 := 32]\<rparr>))"
proof -
  let ?rs = "(plain_row 16)\<lparr>rs_where := (rs_where (plain_row 16))[3 := DWARF_WHERE_REG],
        rs_val := (rs_val (plain_row 16))[3 := 32]\<rparr>"
  have "eval_cfa sample_frame ?rs = eval_cfa sample_frame (plain_row 16)"
    by (simp add: eval_cfa_def plain_row_def)
  then have cfa: "eval_cfa sample_frame ?rs = Inr 0x7010"
    using plain_row_cfa [OF sample_frame_sp, of 16] by simp
  have rule3: "rs_where ?rs ! 3 = DWARF_WHERE_REG" "rs_val ?rs ! 3 = 32"
    by (simp_all add: plain_row_def)
  have "no_expressions ?rs"
    by (simp add: no_expressions_def plain_row_where nth_list_update plain_row_def)
  then have "in_bounds (apply_reg_state sample_frame ?rs)
    \<longleftrightarrow> (\<forall>i < 17. rs_where ?rs ! i = DWARF_WHERE_REG \<longrightarrow> rs_val ?rs ! i < 17)"
    by (intro register_rule_bounds [OF _ _ cfa]) simp_all
  moreover have "\<not> (\<forall>i < 17. rs_where ?rs ! i = DWARF_WHERE_REG \<longrightarrow> rs_val ?rs ! i < 17)"
    using rule3 by (auto intro!: exI [of _ 3])
  ultimately show ?thesis by blast
qed

text \<open>
  The order of the columns shows when a register rule names a lower register that the row gives
  up: the caller's RBX is saved in RAX, whose location is gone when the rule for RBX is applied.
\<close>

lemma lower_register_lost:
  assumes "rs_where rs ! 0 = DWARF_WHERE_UNDEF" "rs_where rs ! 1 = DWARF_WHERE_SAME"
    "rs_where rs ! 2 = DWARF_WHERE_SAME" "rs_where rs ! 3 = DWARF_WHERE_REG" "rs_val rs ! 3 = 0"
    and "c_loc c = DWARF_VAL_LOC v # L" "length L = 16"
  shows "\<exists>L'. apply_rules c cfa rs (c_loc c) [0, 1, 2, 3] = Inr L' \<and> L' ! 3 = DWARF_NULL_LOC"
    and "caller_value c cfa rs 3 = Inr v"
  using assms by (simp_all add: apply_rule_def caller_value_def caller_loc_def dwarf_get_def)

end
