(* ===== verification/StepCache.thy ===== *)
theory StepCache
  imports StepLemmas RsWindow
begin

text \<open>
  Finding register states through the cache: the cache holds for every valid entry the register
  state and the signal-frame mark that the unwind tables give for its address, and
  \<open>find_reg_state\<close> keeps it so.
\<close>

section \<open>What the slow path changes\<close>

text \<open>The slow path changes members of the cursor that do not describe the frame.\<close>

definition same_place :: "cursor \<Rightarrow> cursor \<Rightarrow> bool" where
  "same_place c c' \<longleftrightarrow> c_as c' = c_as c \<and> c_cfa c' = c_cfa c \<and> c_ip c' = c_ip c \<and> c_loc c' = c_loc c
     \<and> c_eh_args c' = c_eh_args c \<and> c_eh_valid_mask c' = c_eh_valid_mask c
     \<and> c_stash_frames c' = c_stash_frames c \<and> c_frames c' = c_frames c"

definition same_hints :: "cursor \<Rightarrow> cursor \<Rightarrow> bool" where
  "same_hints c c' \<longleftrightarrow> c_hint c' = c_hint c \<and> c_prev_rs c' = c_prev_rs c \<and> c_frame_info c' = c_frame_info c"

lemma same_place_refl [simp]: "same_place c c" "same_hints c c"
  by (simp_all add: same_place_def same_hints_def)

lemma same_place_trans: "same_place a b \<Longrightarrow> same_place b c \<Longrightarrow> same_place a c"
  by (simp add: same_place_def)

lemma tdep_fetch_frame_place:
  assumes "tdep_fetch_frame c True = Inr c'"
  shows "same_place c c' \<and> same_hints c c' \<and> c_pi c' = c_pi c \<and> c_use_prev_instr c' = c_use_prev_instr c
    \<and> (\<exists>dci. pi_unwind_info (c_pi c) = Some dci
        \<and> (c_sigcontext_format c' \<noteq> X86_64_SCF_NONE \<longleftrightarrow> signal_frame dci))"
  using assms by (auto simp: tdep_fetch_frame_def same_place_def same_hints_def split: if_splits)

lemma accept_proc_info_place:
  assumes "accept_proc_info c dyn ret = Inr (c', r)"
  shows "same_place c c' \<and> same_hints c c' \<and> c_use_prev_instr c' = c_use_prev_instr c
    \<and> (\<forall>u. r = Inr u \<longrightarrow> (\<exists>dci. pi_unwind_info (c_pi c') = Some dci
        \<and> (c_sigcontext_format c' \<noteq> X86_64_SCF_NONE \<longleftrightarrow> signal_frame dci)))"
proof (cases ret)
  case (Inl e)
  then show ?thesis using assms
    by (auto simp: accept_proc_info_def Let_def same_place_def same_hints_def split: if_splits)
next
  case (Inr u)
  show ?thesis
  proof (cases "r = Inl UNW_ENOINFO \<and> c' = c")
    case False
    then have "tdep_fetch_frame (c\<lparr>c_pi_valid := True, c_pi_is_dynamic := dyn\<rparr>) True = Inr c'"
      using assms Inr by (auto simp: accept_proc_info_def Let_def res_iff split: if_splits)
    from tdep_fetch_frame_place [OF this] show ?thesis by (auto simp: same_place_def same_hints_def)
  qed auto
qed

lemma fetch_proc_info_place:
  assumes "fetch_proc_info env c ca ip = Inr (c', ca', r)"
  shows "same_place c c' \<and> same_hints c c' \<and> c_use_prev_instr c' = c_use_prev_instr c
    \<and> (\<forall>u. r = Inr u \<longrightarrow> (\<exists>dci. pi_unwind_info (c_pi c') = Some dci
        \<and> (c_sigcontext_format c' \<noteq> X86_64_SCF_NONE \<longleftrightarrow> signal_frame dci)))"
proof -
  let ?ip = "if c_use_prev_instr c then ip - 1 else ip"
  obtain ca1 found where d: "unwi_find_dynamic_proc_info (se_process env) (se_is_local env)
      (se_dyn_list env) (se_target env) ca ?ip zero_pi True = (ca1, found)" by fastforce
  note f = assms [unfolded fetch_proc_info_def Let_def d prod.case]
  have "\<exists>p dyn ret. accept_proc_info (c\<lparr>c_pi := p\<rparr>) dyn ret = Inr (c', r)
      \<or> (\<exists>e. c' = c\<lparr>c_pi := p\<rparr> \<and> r = Inl e)"
  proof (cases "attempt found")
    case (Inr a)
    note f = f [unfolded Inr rbind_simps]
    show ?thesis
    proof (cases a)
      case (Inr p)
      then show ?thesis using f by (auto simp: rbind_eq_Inr)
    next
      case (Inl e)
      note f = f [unfolded Inl sum.case]
      show ?thesis
      proof (cases "e = UNW_ENOINFO")
        case True
        then obtain x where "attempt (se_find_proc_info env ?ip (se_failed_pi env)) = Inr x"
          "rbind (case x of Inl e \<Rightarrow> Inr (c\<lparr>c_pi := se_failed_pi env\<rparr>, Inl e)
             | Inr pi \<Rightarrow> accept_proc_info (c\<lparr>c_pi := pi\<rparr>) False (Inr ()))
             (\<lambda>(c, ret). Inr (c, ca1, ret)) = Inr (c', ca', r)"
          using f by (auto simp: rbind_eq_Inr)
        then show ?thesis by (cases x) (auto simp: rbind_eq_Inr)
      next
        case False
        then show ?thesis using f by (auto simp: rbind_eq_Inr)
      qed
    qed
  qed (use f in simp)
  then obtain p dyn ret where "accept_proc_info (c\<lparr>c_pi := p\<rparr>) dyn ret = Inr (c', r)
      \<or> (\<exists>e. c' = c\<lparr>c_pi := p\<rparr> \<and> r = Inl e)" by blast
  then show ?thesis
  proof
    assume "accept_proc_info (c\<lparr>c_pi := p\<rparr>) dyn ret = Inr (c', r)"
    from accept_proc_info_place [OF this] show ?thesis by (auto simp: same_place_def same_hints_def)
  qed (auto simp: same_place_def same_hints_def)
qed

lemma uncached_reg_state_place:
  assumes "uncached_reg_state env c ca = Inr (c', ca', Inr rs)"
  shows "same_place c c'" "same_hints c c'"
    and "c_sigcontext_format c' \<noteq> X86_64_SCF_NONE \<longleftrightarrow> \<not> c_use_prev_instr c'"
proof -
  obtain c1 r where f: "fetch_proc_info env c ca (c_ip c) = Inr (c1, ca', r)"
    and rest: "rbind (case r of
              Inl e \<Rightarrow> Inr (Inl e, c_use_prev_instr c1)
            | Inr _ \<Rightarrow>
                (case pi_unwind_info (c_pi c1) of
                   None \<Rightarrow> Inl Aborted
                 | Some dci \<Rightarrow>
                     rbind (attempt (create_state_record_for env c1 (c_ip c1))) (\<lambda>sr.
                     Inr (map_sum id rs_current sr, \<not> signal_frame dci)))) (\<lambda>(ret, next_use_prev_instr).
     Inr ((put_unwind_info env c1)\<lparr>c_use_prev_instr := next_use_prev_instr\<rparr>, ca', ret))
     = Inr (c', ca', Inr rs)"
    using assms unfolding uncached_reg_state_def by (auto simp: res_iff)
  from rest obtain u dci where r: "r = Inr u" "pi_unwind_info (c_pi c1) = Some dci"
    "c' = (put_unwind_info env c1)\<lparr>c_use_prev_instr := \<not> signal_frame dci\<rparr>"
    by (auto simp: res_iff split: sum.splits option.splits)
  from fetch_proc_info_place [OF f] r
  show "same_place c c'" "same_hints c c'"
    "c_sigcontext_format c' \<noteq> X86_64_SCF_NONE \<longleftrightarrow> \<not> c_use_prev_instr c'"
    by (auto simp: same_place_def same_hints_def put_unwind_info_def Let_def)
qed

section \<open>Tables and members that an update leaves alone\<close>

lemma with_buckets_simps [simp]:
  "allocated c \<Longrightarrow> the_buckets (with_buckets c xs) = xs"
  "the_links (with_buckets c xs) = the_links c" "the_hash (with_buckets c xs) = the_hash c"
  "allocated (with_buckets c xs) = allocated c" "log_size (with_buckets c xs) = log_size c"
  "rr_head (with_buckets c xs) = rr_head c"
  by (auto simp: allocated_def with_buckets_def the_hash_def the_links_def
      the_buckets_def cells_def split: block.splits)

lemma with_generation [simp]:
  "rc_generation (with_links c xs) = rc_generation c" "rc_generation (with_hash c hs) = rc_generation c"
  "rc_generation (with_buckets c bs) = rc_generation c"
  by (simp_all add: with_links_def with_hash_def with_buckets_def split: block.splits)

lemma locked_simps [simp]:
  "the_links (c\<lparr>rc_locked := b\<rparr>) = the_links c" "the_hash (c\<lparr>rc_locked := b\<rparr>) = the_hash c"
  "the_buckets (c\<lparr>rc_locked := b\<rparr>) = the_buckets c" "allocated (c\<lparr>rc_locked := b\<rparr>) = allocated c"
  by (simp_all add: the_links_def the_hash_def the_buckets_def allocated_def)

lemma rs_inv_cong:
  assumes "rs_inv c" and "the_hash c' = the_hash c" "log_size c' = log_size c" "allocated c'"
    "length (the_buckets c') = length (the_buckets c)" "rr_head c' = rr_head c"
    "length (the_links c') = length (the_links c)"
    and "\<And>x. x < length (the_links c) \<Longrightarrow> re_ip (the_links c' ! x) = re_ip (the_links c ! x)
      \<and> re_valid (the_links c' ! x) = re_valid (the_links c ! x)
      \<and> re_coll_chain (the_links c' ! x) = re_coll_chain (the_links c ! x)"
  shows "rs_inv c'"
proof -
  obtain ch where ch: "linked (the_hash c) (the_links c) (log_size c) (valid_entries (the_links c)) ch"
    using assms(1) by (auto simp: rs_inv_def)
  have len: "length (the_links c) = 2 ^ log_size c" using assms(1) by (simp add: rs_inv_def rs_shape_def)
  have v: "valid_entries (the_links c') = valid_entries (the_links c)"
    using assms(7,8) by (auto simp: valid_entries_def)
  have "linked (the_hash c') (the_links c') (log_size c') (valid_entries (the_links c')) ch"
    unfolding v assms(2,3) linked_def
  proof (intro conjI allI impI)
    fix b :: nat assume "b < 2 ^ (log_size c + 1)"
    with ch have b: "chain (the_links c) (2 ^ log_size c) (the_hash c ! b) (ch b)"
      "distinct (ch b)" "set (ch b) = {x \<in> valid_entries (the_links c). rs_hash (re_ip (the_links c ! x)) (log_size c) = b}"
      by (auto simp: linked_def)
    show "chain (the_links c') (2 ^ log_size c) (the_hash c ! b) (ch b)"
      using b(1) chain_cong [of "ch b" "the_links c'" "the_links c"] assms(8) chain_less [OF b(1)] len
      by simp
    show "distinct (ch b)" by (rule b(2))
    show "set (ch b) = {x \<in> valid_entries (the_links c). rs_hash (re_ip (the_links c' ! x)) (log_size c) = b}"
      unfolding b(3) using assms(8) by (auto simp: valid_entries_def)
  qed (use ch in \<open>simp add: linked_def\<close>)
  moreover have "distinct_ips (the_links c')"
    using assms(1,7,8) by (simp add: rs_inv_def distinct_ips_def)
  ultimately show ?thesis
    using assms by (auto simp: rs_inv_def rs_shape_def)
qed

lemma write_slot_generation: "write_slot c p v = Inr c' \<Longrightarrow> rc_generation c' = rc_generation c"
  by (auto simp: write_slot_def res_iff split: slot.splits)

lemma rs_unlink_generation:
  "rs_unlink c head p = Some r \<Longrightarrow> r = Inr c' \<Longrightarrow> rc_generation c' = rc_generation c"
proof (induction rule: rs_unlink.raw_induct [rotated, consumes 1])
  case (1 f c head p r)
  show ?case
  proof (cases "read_slot c p")
    case (Inr index)
    note hyp = 1(2) [unfolded Inr sum.case]
    show ?thesis
    proof (cases "unat index < DWARF_UNW_CACHE_SIZE (log_size c)")
      case True
      show ?thesis
      proof (cases "index = head")
        case True
        then show ?thesis
          using hyp \<open>unat index < _\<close> 1(3) by (auto simp: res_iff dest: write_slot_generation)
      next
        case False
        then show ?thesis using hyp \<open>unat index < _\<close> 1(1,3) by auto
      qed
    qed (use hyp 1(3) in auto)
  qed (use 1 in auto)
qed

lemma rs_new_generation:
  assumes "rs_new c x = Inr (c', i)"
  shows "rc_generation c' = rc_generation c"
proof -
  have u: "rc_generation d = rc_generation a"
    if "(if q then returns (rs_unlink a h p) else Inr a) = Inr d" for q a h p d
    using that rs_unlink_generation [of a h p]
    by (cases "rs_unlink a h p") (auto split: if_splits)
  show ?thesis
    using assms unfolding rs_new_def Let_def rbind_eq_Inr
    by (auto dest!: u write_slot_generation)
qed

section \<open>The invariant of the cached rows\<close>

text \<open>
  \<open>row\<close> gives for every address the register state and whether its frame is a signal frame. The
  hints of the entries and of a cursor name entries of the cache.
\<close>

definition holds_rows :: "(unw_word \<Rightarrow> dwarf_reg_state \<times> bool) \<Rightarrow> rs_cache \<Rightarrow> bool" where
  "holds_rows row cache \<longleftrightarrow> (\<forall>i < length (the_links cache). re_valid (the_links cache ! i) \<longrightarrow>
     (the_buckets cache ! i, re_signal_frame (the_links cache ! i)) = row (re_ip (the_links cache ! i)))"

definition hints_fit :: "rs_cache \<Rightarrow> bool" where
  "hints_fit cache \<longleftrightarrow> (\<forall>i < length (the_links cache). 0 <s re_hint (the_links cache ! i) \<longrightarrow>
     unat (re_hint (the_links cache ! i) - 1) < 2 ^ log_size cache)"

definition good_cache :: "(unw_word \<Rightarrow> dwarf_reg_state \<times> bool) \<Rightarrow> rs_cache \<Rightarrow> bool" where
  "good_cache row cache \<longleftrightarrow> rs_inv cache \<and> holds_rows row cache \<and> hints_fit cache"

definition good_cursor :: "rs_cache \<Rightarrow> cursor \<Rightarrow> bool" where
  "good_cursor cache c \<longleftrightarrow> hint_ok cache c \<and> unat (c_prev_rs c) < 2 ^ log_size cache"

lemma good_locked [simp]:
  "good_cache row (c\<lparr>rc_locked := b\<rparr>) = good_cache row c" "good_cursor (c\<lparr>rc_locked := b\<rparr>) x = good_cursor c x"
  "cached (c\<lparr>rc_locked := b\<rparr>) ip = cached c ip" "rs_inv (c\<lparr>rc_locked := b\<rparr>) = rs_inv c"
  "hint_ok (c\<lparr>rc_locked := b\<rparr>) x = hint_ok c x"
  by (simp_all add: good_cache_def rs_inv_def rs_shape_def holds_rows_def hints_fit_def
      good_cursor_def hint_ok_def cached_def)

lemma good_cache_sizes:
  assumes "good_cache row c"
  shows "allocated c" "length (the_links c) = 2 ^ log_size c" "length (the_buckets c) = 2 ^ log_size c"
    "(2::nat) ^ log_size c \<le> 2 ^ 15" "distinct_ips (the_links c)" "rs_inv c"
  using assms power_increasing [of "log_size c" 15 "2::nat"]
  by (auto simp: good_cache_def rs_inv_def rs_shape_def)

text \<open>Writing a hint that fits.\<close>

lemma set_hint_good:
  assumes g: "good_cache row c" and i: "i < 2 ^ log_size c"
    and h: "0 <s h \<Longrightarrow> unat (h - 1) < 2 ^ log_size c"
  shows "\<exists>c'. set_hint c i h = Inr c' \<and> good_cache row c' \<and> log_size c' = log_size c
    \<and> rc_generation c' = rc_generation c \<and> the_buckets c' = the_buckets c
    \<and> (\<forall>ip. cached c' ip = cached c ip) \<and> allocated c'
    \<and> (\<forall>x < 2 ^ log_size c. re_signal_frame (the_links c' ! x) = re_signal_frame (the_links c ! x))"
proof -
  note s = good_cache_sizes [OF g]
  let ?e = "the_links c ! i"
  let ?L = "(the_links c)[i := ?e\<lparr>re_hint := h\<rparr>]" and ?c' = "with_links c ((the_links c)[i := ?e\<lparr>re_hint := h\<rparr>])"
  have L: "the_links ?c' = ?L" "the_hash ?c' = the_hash c" "the_buckets ?c' = the_buckets c"
    using s(1) by simp_all
  have e: "re_ip (?L ! x) = re_ip (the_links c ! x)" "re_valid (?L ! x) = re_valid (the_links c ! x)"
    "re_coll_chain (?L ! x) = re_coll_chain (the_links c ! x)"
    "re_signal_frame (?L ! x) = re_signal_frame (the_links c ! x)"
    "re_hint (?L ! x) = (if x = i then h else re_hint (the_links c ! x))"
    if "x < 2 ^ log_size c" for x
    using that i s(2) by (simp_all add: nth_list_update)
  have "rs_inv ?c'"
    by (rule rs_inv_cong [OF s(6)]) (simp_all add: L s e)
  moreover have "holds_rows row ?c'"
    using g s(2) e unfolding good_cache_def holds_rows_def L by simp
  moreover have "hints_fit ?c'"
    using g s(2) e h unfolding good_cache_def hints_fit_def L by simp
  moreover have "cached ?c' ip = cached c ip" for ip
  proof -
    have "find (\<lambda>x. re_valid (?L ! x) \<and> re_ip (?L ! x) = ip) [0..<2 ^ log_size c]
        = find (\<lambda>x. re_valid (the_links c ! x) \<and> re_ip (the_links c ! x) = ip) [0..<2 ^ log_size c]"
      by (rule find_cong) (simp_all add: e)
    then show ?thesis unfolding cached_def L by (simp add: s(2))
  qed
  ultimately show ?thesis
    using i s e by (intro exI [of _ ?c']) (simp add: set_hint_def good_cache_def L)
qed

text \<open>Entering a row.\<close>

lemma store_reg_state_good:
  assumes g: "good_cache row c" and ip: "c_ip x \<noteq> 0" and new: "cached c (c_ip x) = None"
    and r: "row (c_ip x) = (rs, c_sigcontext_format x \<noteq> X86_64_SCF_NONE)"
  shows "\<exists>c' i. store_reg_state c x rs = Inr (c', i) \<and> good_cache row c' \<and> i < 2 ^ log_size c
    \<and> log_size c' = log_size c \<and> rc_generation c' = rc_generation c \<and> cached c' (c_ip x) = Some i"
proof -
  note s = good_cache_sizes [OF g]
  let ?i = "unat (rr_head c)"
  obtain c1 L first where n: "rs_new c x = Inr (c1, ?i)" "rs_inv c1" "log_size c1 = log_size c"
    "the_buckets c1 = the_buckets c" and L: "same_entries (the_links c) L"
    "the_links c1 = enter L ?i first (c_ip x) (c_sigcontext_format x \<noteq> X86_64_SCF_NONE)"
    using rs_new_inv [OF s(6) ip new] by blast
  have i: "?i < 2 ^ log_size c" using s(6) by (simp add: rs_inv_def rs_shape_def)
  have len: "length L = 2 ^ log_size c" using L(1) s(2) by (simp add: same_entries_def)
  have a1: "allocated c1" using n(2) by (simp add: rs_inv_def rs_shape_def)
  let ?L2 = "(the_links c1)[?i := (the_links c1 ! ?i)\<lparr>re_hint := 0\<rparr>]"
  let ?B = "(the_buckets c)[?i := rs]"
  let ?c2 = "with_buckets (with_links c1 ?L2) ?B"
  have l2: "the_links ?c2 = ?L2" "the_buckets ?c2 = ?B" using a1 by simp_all
  have at: "re_ip (?L2 ! ?i) = c_ip x" "re_valid (?L2 ! ?i)" "re_hint (?L2 ! ?i) = 0"
    "re_signal_frame (?L2 ! ?i) = (c_sigcontext_format x \<noteq> X86_64_SCF_NONE)"
    using len i L(2) by simp_all
  have other: "re_ip (?L2 ! j) = re_ip (the_links c ! j)" "re_valid (?L2 ! j) = re_valid (the_links c ! j)"
    "re_hint (?L2 ! j) = re_hint (the_links c ! j)"
    "re_signal_frame (?L2 ! j) = re_signal_frame (the_links c ! j)" "?B ! j = the_buckets c ! j"
    if "j < 2 ^ log_size c" "j \<noteq> ?i" for j
    using that L s(2) by (simp_all add: same_entries_def)
  have lens: "length ?L2 = 2 ^ log_size c" using len L(2) by simp
  have keep: "re_ip (?L2 ! x) = re_ip (the_links c1 ! x)" "re_valid (?L2 ! x) = re_valid (the_links c1 ! x)"
    "re_coll_chain (?L2 ! x) = re_coll_chain (the_links c1 ! x)" if "x < length (the_links c1)" for x
    using that by (cases "x = ?i"; simp)+
  have "rs_inv ?c2"
    using a1 n(4) by (intro rs_inv_cong [OF n(2)]) (simp_all add: keep)
  moreover have "holds_rows row ?c2"
    unfolding holds_rows_def l2 lens
  proof (intro allI impI)
    fix j assume j: "j < 2 ^ log_size c" "re_valid (?L2 ! j)"
    show "(?B ! j, re_signal_frame (?L2 ! j)) = row (re_ip (?L2 ! j))"
    proof (cases "j = ?i")
      case True
      then show ?thesis using at r s(3) i by simp
    next
      case False
      then show ?thesis
        using other [OF j(1)] j g s(2) unfolding good_cache_def holds_rows_def by simp
    qed
  qed
  moreover have "hints_fit ?c2"
    unfolding hints_fit_def l2 lens
  proof (intro allI impI)
    fix j assume j: "j < 2 ^ log_size c" "0 <s re_hint (?L2 ! j)"
    then have "j \<noteq> ?i" using at(3) by auto
    then show "unat (re_hint (?L2 ! j) - 1) < 2 ^ log_size ?c2"
      using other(3) [OF j(1)] j g s(2) n(3) unfolding good_cache_def hints_fit_def by simp
  qed
  ultimately have "good_cache row ?c2" by (simp add: good_cache_def)
  moreover have "cached ?c2 (c_ip x) = Some ?i"
  proof -
    have "distinct_ips (the_links ?c2)" using \<open>rs_inv ?c2\<close> by (simp add: rs_inv_def)
    then show ?thesis using cached_Some_iff [of ?c2] at i lens l2 by simp
  qed
  moreover have "store_reg_state c x rs = Inr (?c2, ?i)"
    using n a1 i s(3) len L(2) by (simp add: store_reg_state_def set_hint_def)
  ultimately show ?thesis
    using i n(3) rs_new_generation [OF n(1)] by (intro exI [of _ ?c2] exI [of _ ?i]) simp
qed

section \<open>Finding a register state\<close>

text \<open>A global cache that is not locked and not outdated.\<close>

definition steady :: "as_caches \<Rightarrow> bool" where
  "steady ca \<longleftrightarrow> caching_policy ca = UNW_CACHE_GLOBAL \<and> \<not> rc_locked (global_cache ca)
     \<and> cache_generation ca = rc_generation (global_cache ca)"

text \<open>
  The frame that a register state leads to, as the next lookup sees it, and what the cursor
  remembers of the frame.
\<close>

definition reused_frame :: "unw_tdep_frame \<Rightarrow> bool \<Rightarrow> unw_tdep_frame" where
  "reused_frame f sig = (if sig then f\<lparr>fr_type := UNW_X86_64_FRAME_SIGRETURN, cfa_reg_offset := 0\<rparr> else f)"

definition marked :: "cursor \<Rightarrow> cursor \<Rightarrow> bool \<Rightarrow> bool" where
  "marked c c' sig \<longleftrightarrow> c_use_prev_instr c' = (\<not> sig) \<and> (c_sigcontext_format c' \<noteq> X86_64_SCF_NONE) = sig
     \<and> c_frame_info c' = reused_frame (c_frame_info c) sig"

lemma get_rs_cache_steady:
  assumes "steady ca" and "good_cache row (global_cache ca)"
  shows "get_rs_cache mem ca = Inr (ca\<lparr>global_cache := (global_cache ca)\<lparr>rc_locked := True\<rparr>\<rparr>, True)"
  using assms good_cache_sizes(1) [OF assms(2)]
  by (simp add: get_rs_cache_def steady_def lock_acquire_def allocated_def)

lemma put_rs_cache_steady:
  assumes "steady ca"
  shows "put_rs_cache (ca\<lparr>global_cache := (global_cache ca)\<lparr>rc_locked := True\<rparr>\<rparr>) = Inr ca"
  using assms by (simp add: put_rs_cache_def steady_def)

lemma tdep_reuse_frame_place [simp]:
  "same_place c (tdep_reuse_frame c b)" "c_frame_info (tdep_reuse_frame c b) = reused_frame (c_frame_info c) b"
  "c_use_prev_instr (tdep_reuse_frame c b) = c_use_prev_instr c"
  "(c_sigcontext_format (tdep_reuse_frame c b) \<noteq> X86_64_SCF_NONE) = b"
  by (simp_all add: tdep_reuse_frame_def same_place_def reused_frame_def)

text \<open>The end of the search, from the entry of the address on.\<close>

lemma finish_with_cache_good:
  assumes st: "caching_policy ca = UNW_CACHE_GLOBAL" "cache_generation ca = rc_generation (global_cache ca)"
    and g: "good_cache row (global_cache ca)" and gc: "good_cursor (global_cache ca) c"
    and i: "cached (global_cache ca) (c_ip c) = Some i" and sig: "c_use_prev_instr c = (\<not> snd (row (c_ip c)))"
  shows "\<exists>c' ca'. finish_with_cache c ca i (fst (row (c_ip c))) = Inr (c', ca', Inr (fst (row (c_ip c))))
    \<and> same_place c c' \<and> marked c c' (snd (row (c_ip c))) \<and> steady ca' \<and> good_cache row (global_cache ca')
    \<and> good_cursor (global_cache ca') c' \<and> Some (c_ip c) \<in> set (window (global_cache ca'))"
proof -
  let ?C = "global_cache ca"
  note s = good_cache_sizes [OF g]
  have ei: "i < 2 ^ log_size ?C" "re_valid (the_links ?C ! i)" "re_ip (the_links ?C ! i) = c_ip c"
    using i cached_Some_iff [OF s(5)] s(2) by simp_all
  have prev: "unat (c_prev_rs c) < 2 ^ log_size ?C" using gc by (simp add: good_cursor_def)
  have ui: "unat (word_of_nat i :: 16 word) = i"
    using ei(1) s(4) by (simp add: unat_of_nat)
  obtain C' where C': "set_hint ?C (unat (c_prev_rs c)) (word_of_nat i + 1) = Inr C'" "good_cache row C'"
    "log_size C' = log_size ?C" "rc_generation C' = rc_generation ?C" "allocated C'"
    "\<And>ip. cached C' ip = cached ?C ip"
    "\<And>x. x < 2 ^ log_size ?C \<Longrightarrow> re_signal_frame (the_links C' ! x) = re_signal_frame (the_links ?C ! x)"
    using set_hint_good [OF g prev, of "word_of_nat i + 1"] ui ei(1) by auto
  note s' = good_cache_sizes [OF C'(2)]
  let ?c = "c\<lparr>c_hint := re_hint (the_links ?C ! i), c_prev_rs := word_of_nat i\<rparr>"
  let ?c' = "tdep_reuse_frame ?c (re_signal_frame (the_links C' ! i))"
  let ?ca' = "ca\<lparr>global_cache := C'\<lparr>rc_locked := False\<rparr>\<rparr>"
  have "(the_buckets ?C ! i, re_signal_frame (the_links ?C ! i)) = row (c_ip c)"
    using g ei s(2) by (auto simp: good_cache_def holds_rows_def)
  then have sg: "re_signal_frame (the_links C' ! i) = snd (row (c_ip c))"
    using C'(7) [OF ei(1)] by (metis snd_conv)
  have "finish_with_cache c ca i (fst (row (c_ip c))) = Inr (?c', ?ca', Inr (fst (row (c_ip c))))"
    using C' ei s s' st by (simp add: finish_with_cache_def use_entry_def put_rs_cache_def)
  moreover have "same_place c ?c'"
    by (simp add: same_place_def tdep_reuse_frame_def)
  moreover have "marked c ?c' (snd (row (c_ip c)))" using sig sg by (simp add: marked_def)
  moreover have "steady ?ca'" using st C'(4) by (simp add: steady_def)
  moreover have "good_cursor C' ?c'"
    using ui ei(1) g C'(3) s(2)
    by (simp add: good_cursor_def hint_ok_def tdep_reuse_frame_def good_cache_def hints_fit_def)
  moreover have "Some (c_ip c) \<in> set (window C')"
    using window_cached [of C' "c_ip c"] C'(6) i by simp
  moreover have "window (C'\<lparr>rc_locked := False\<rparr>) = window C'" by (simp add: window_def)
  ultimately show ?thesis using C'(2) by (intro exI [of _ ?c'] exI [of _ ?ca']) simp
qed

lemma find_reg_state_good:
  assumes st: "steady ca" and g: "good_cache row (global_cache ca)" and gc: "good_cursor (global_cache ca) c"
    and ip: "c_ip c \<noteq> 0"
    and tables: "Some (c_ip c) \<notin> set (window (global_cache ca)) \<Longrightarrow>
      \<exists>c'. uncached_reg_state env c ca = Inr (c', ca, Inr (fst (row (c_ip c))))
        \<and> c_use_prev_instr c' = (\<not> snd (row (c_ip c)))"
  shows "\<exists>c' ca'. find_reg_state env c ca = Inr (c', ca', Inr (fst (row (c_ip c))))
    \<and> same_place c c' \<and> marked c c' (snd (row (c_ip c))) \<and> steady ca' \<and> good_cache row (global_cache ca')
    \<and> good_cursor (global_cache ca') c' \<and> Some (c_ip c) \<in> set (window (global_cache ca'))"
proof -
  let ?C = "global_cache ca" and ?L = "(global_cache ca)\<lparr>rc_locked := True\<rparr>"
  note s = good_cache_sizes [OF g]
  note get = get_rs_cache_steady [OF st g]
  have look: "rs_lookup ?L x = Inr (cached ?C (c_ip x))" if "hint_ok ?C x" for x
    using rs_lookup_cached [of ?L x] that g by (simp add: good_cache_def hint_ok_def)
  have hint: "hint_ok ?C c" using gc by (simp add: good_cursor_def)
  have stL: "caching_policy (ca\<lparr>global_cache := X\<rparr>) = UNW_CACHE_GLOBAL"
    "cache_generation (ca\<lparr>global_cache := X\<rparr>) = rc_generation X" if "rc_generation X = rc_generation ?C" for X
    using st that by (simp_all add: steady_def)
  show ?thesis
  proof (cases "cached ?C (c_ip c)")
    case (Some i)
    have ei: "i < length (the_links ?C)" "re_valid (the_links ?C ! i)" "re_ip (the_links ?C ! i) = c_ip c"
      using Some cached_Some_iff [OF s(5)] by simp_all
    then have "(the_buckets ?C ! i, re_signal_frame (the_links ?C ! i)) = row (c_ip c)"
      using g by (auto simp: good_cache_def holds_rows_def)
    then have b: "the_buckets ?C ! i = fst (row (c_ip c))" "re_signal_frame (the_links ?C ! i) = snd (row (c_ip c))"
      by (metis fst_conv snd_conv)+
    let ?c = "c\<lparr>c_use_prev_instr := \<not> re_signal_frame (the_links ?C ! i)\<rparr>"
    have run: "find_reg_state env c ca = finish_with_cache ?c (ca\<lparr>global_cache := ?L\<rparr>) i (fst (row (c_ip ?c)))"
      using get look [OF hint] Some ei(1) s(2,3) b(1) by (simp add: find_reg_state_def)
    have place: "same_place c ?c" by (simp add: same_place_def)
    have "good_cursor (global_cache (ca\<lparr>global_cache := ?L\<rparr>)) ?c"
      using gc by (simp add: good_cursor_def hint_ok_def)
    moreover have "good_cache row (global_cache (ca\<lparr>global_cache := ?L\<rparr>))"
      "cached (global_cache (ca\<lparr>global_cache := ?L\<rparr>)) (c_ip ?c) = Some i"
      "c_use_prev_instr ?c = (\<not> snd (row (c_ip ?c)))"
      "cache_generation (ca\<lparr>global_cache := ?L\<rparr>) = rc_generation (global_cache (ca\<lparr>global_cache := ?L\<rparr>))"
      "caching_policy (ca\<lparr>global_cache := ?L\<rparr>) = UNW_CACHE_GLOBAL"
      using g Some b(2) stL [of ?L] by simp_all
    ultimately have "\<exists>c' ca'. find_reg_state env c ca = Inr (c', ca', Inr (fst (row (c_ip ?c))))
      \<and> same_place ?c c' \<and> marked ?c c' (snd (row (c_ip ?c))) \<and> steady ca' \<and> good_cache row (global_cache ca')
      \<and> good_cursor (global_cache ca') c' \<and> Some (c_ip ?c) \<in> set (window (global_cache ca'))"
      unfolding run by (intro finish_with_cache_good)
    then show ?thesis using same_place_trans [OF place] by (auto simp: marked_def)
  next
    case None
    then obtain c2 where u: "uncached_reg_state env c ca = Inr (c2, ca, Inr (fst (row (c_ip c))))"
      "c_use_prev_instr c2 = (\<not> snd (row (c_ip c)))"
      using tables window_cached [of ?C "c_ip c"] by auto
    note p = uncached_reg_state_place [OF u(1)]
    have p2: "c_ip c2 = c_ip c" "hint_ok ?C c2" "good_cursor ?C c2"
      using p(1,2) gc by (simp_all add: same_place_def same_hints_def good_cursor_def hint_ok_def)
    have r: "row (c_ip c2) = (fst (row (c_ip c)), c_sigcontext_format c2 \<noteq> X86_64_SCF_NONE)"
      using p(3) u(2) unfolding p2(1) by (intro prod_eqI) simp_all
    have "good_cache row ?L" "c_ip c2 \<noteq> 0" "cached ?L (c_ip c2) = None"
      using g ip p2(1) None by simp_all
    from store_reg_state_good [OF this r] obtain C1 i where
      st1: "store_reg_state ?L c2 (fst (row (c_ip c))) = Inr (C1, i)" "good_cache row C1"
        "log_size C1 = log_size ?C" "rc_generation C1 = rc_generation ?C" "cached C1 (c_ip c) = Some i"
      using p2(1) by auto
    have run: "find_reg_state env c ca = finish_with_cache c2 (ca\<lparr>global_cache := C1\<rparr>) i (fst (row (c_ip c2)))"
      by (simp add: find_reg_state_def cache_reg_state_def get look [OF hint] look [OF p2(2)] None p2(1)
          put_rs_cache_steady [OF st] u(1) st1(1))
    have "good_cursor (global_cache (ca\<lparr>global_cache := C1\<rparr>)) c2"
      using p2(3) st1(3) by (simp add: good_cursor_def hint_ok_def)
    moreover have "good_cache row (global_cache (ca\<lparr>global_cache := C1\<rparr>))"
      "cached (global_cache (ca\<lparr>global_cache := C1\<rparr>)) (c_ip c2) = Some i"
      "c_use_prev_instr c2 = (\<not> snd (row (c_ip c2)))"
      "cache_generation (ca\<lparr>global_cache := C1\<rparr>) = rc_generation (global_cache (ca\<lparr>global_cache := C1\<rparr>))"
      "caching_policy (ca\<lparr>global_cache := C1\<rparr>) = UNW_CACHE_GLOBAL"
      using st1 u(2) p2(1) stL [OF st1(4)] by simp_all
    ultimately have "\<exists>c' ca'. find_reg_state env c ca = Inr (c', ca', Inr (fst (row (c_ip c2))))
      \<and> same_place c2 c' \<and> marked c2 c' (snd (row (c_ip c2))) \<and> steady ca' \<and> good_cache row (global_cache ca')
      \<and> good_cursor (global_cache ca') c' \<and> Some (c_ip c2) \<in> set (window (global_cache ca'))"
      unfolding run by (intro finish_with_cache_good)
    moreover have "marked c2 c' sig \<Longrightarrow> marked c c' sig" for c' sig
      using p(2) by (simp add: marked_def same_hints_def)
    ultimately show ?thesis unfolding p2(1) using same_place_trans [OF p(1)] by blast
  qed
qed

end
