(* ===== verification/Unwind.thy ===== *)
theory Unwind
  imports Step
begin

text \<open>
  The interface of the unwinder on x86-64: initialising a cursor (\<open>common_init\<close> of
  \<open>src/x86_64/init.h\<close>), \<open>unw_step\<close> with its fallbacks (\<open>src/x86_64/Gstep.c\<close> and
  \<open>src/x86_64/Gos-linux.c\<close>), and the backtrace built from them (\<open>slow_backtrace\<close> of
  \<open>src/mi/backtrace.c\<close>).
\<close>

section \<open>Surroundings\<close>

text \<open>
  Beyond the surroundings of a DWARF step: the address range of the vsyscall page if the system
  headers define one, and the address space that checks every address before it reads. Setting
  the flag for it is a bitwise or, so the flag is never cleared.
\<close>

record unw_env = step_env +
  ue_vsyscall :: "(unw_word \<times> unw_word) option"
  ue_validating :: "addr_space \<Rightarrow> addr_space"

definition dwarf_set_validate :: "unw_env \<Rightarrow> bool \<Rightarrow> cursor \<Rightarrow> cursor" where
  "dwarf_set_validate env validate c =
     (if validate then c\<lparr>c_as := ue_validating env (c_as c)\<rparr> else c)"

text \<open>\<open>common_init\<close>: every register is where the accessor has it.\<close>

definition common_init :: "cursor \<Rightarrow> bool \<Rightarrow> (cursor \<times> (unw_error + unit)) res" where
  "common_init c use_prev_instr =
     (let c = c\<lparr>c_loc := map DWARF_REG_LOC [0..<DWARF_NUM_PRESERVED_REGS]\<rparr> in
      rbind (attempt (dwarf_get c (c_loc c ! RIP))) (\<lambda>r.
      case r of
        Inl e \<Rightarrow> Inr (c, Inl e)
      | Inr ip \<Rightarrow>
          let c = c\<lparr>c_ip := ip\<rparr> in
          rbind (attempt (dwarf_get c (DWARF_REG_LOC RSP))) (\<lambda>r.
          Inr (case r of
                 Inl e \<Rightarrow> (c, Inl e)
               | Inr sp \<Rightarrow>
                   (c\<lparr>c_cfa := sp, c_sigcontext_format := X86_64_SCF_NONE, c_sigcontext_addr := 0,
                      c_args_size := 0, c_stash_frames := False, c_use_prev_instr := use_prev_instr,
                      c_pi_valid := False, c_pi_is_dynamic := False, c_hint := 0, c_prev_rs := 0,
                      c_eh_valid_mask := 0\<rparr>, Inr ())))))"

text \<open>
  \<open>unw_init_local\<close> and \<open>unw_init_local2\<close> of \<open>src/x86_64/Ginit_local.c\<close>, on a cursor for the process
  itself; the flag is 0 or \<open>UNW_INIT_SIGNAL_FRAME\<close>, which is 1.
\<close>

definition unw_init_local_common :: "cursor \<Rightarrow> bool \<Rightarrow> (cursor \<times> (unw_error + unit)) res" where
  "unw_init_local_common c use_prev_instr = common_init (c\<lparr>c_frames := 0\<rparr>) use_prev_instr"

definition unw_init_local2 :: "cursor \<Rightarrow> int \<Rightarrow> (cursor \<times> (unw_error + unit)) res" where
  "unw_init_local2 c flag =
     (if flag = 0 then unw_init_local_common c True
      else if flag = 1 then unw_init_local_common c False
      else Inr (c, Inl UNW_EINVAL))"

section \<open>Fallbacks\<close>

definition is_plt_entry :: "cursor \<Rightarrow> bool" where
  "is_plt_entry c =
     (case access_mem (c_as c) (c_ip c) of
        Inl e \<Rightarrow> False
      | Inr w0 \<Rightarrow>
          (case access_mem (c_as c) (c_ip c + 8) of
             Inl e \<Rightarrow> False
           | Inr w1 \<Rightarrow> w0 AND 0xffff = 0x25ff \<and> drop_bit 48 w0 AND 0xff = 0x68
                       \<and> drop_bit 24 w1 AND 0xff = 0xe9))"

definition unw_is_plt_entry :: "cursor \<Rightarrow> bool" where
  "unw_is_plt_entry c = is_plt_entry c"

definition unw_is_signal_frame :: "cursor \<Rightarrow> bool" where
  "unw_is_signal_frame c \<longleftrightarrow> c_sigcontext_format c \<noteq> X86_64_SCF_NONE"

text \<open>\<open>x86_64_handle_signal_frame\<close> is not expected to be called and fails.\<close>

definition x86_64_handle_signal_frame :: "cursor \<Rightarrow> unw_error + unit" where
  "x86_64_handle_signal_frame c = Inl UNW_EBADFRAME"

definition is_vsyscall :: "unw_env \<Rightarrow> cursor \<Rightarrow> bool" where
  "is_vsyscall env c =
     (case ue_vsyscall env of None \<Rightarrow> False
      | Some (start, endp) \<Rightarrow> start \<le> c_ip c \<and> c_ip c < endp)"

definition x86_64_os_step :: "unw_env \<Rightarrow> cursor \<Rightarrow> cursor \<times> bool" where
  "x86_64_os_step env c =
     (if is_vsyscall env c
      then (c\<lparr>c_frame_info := (c_frame_info c)\<lparr>cfa_reg_offset := 8, cfa_reg_rsp := True,
                fr_type := UNW_X86_64_FRAME_GUESSED\<rparr>,
              c_loc := (c_loc c)[RIP := DWARF_LOC (c_cfa c) 0], c_cfa := c_cfa c + 8\<rparr>, True)
      else (c, False))"

text \<open>A call of \<open>dwarf_get\<close> whose result is ignored: on failure the target keeps its value.\<close>

definition get_or_keep :: "cursor \<Rightarrow> dwarf_loc \<Rightarrow> unw_word \<Rightarrow> unw_word res" where
  "get_or_keep c l old = rbind (attempt (dwarf_get c l)) (\<lambda>r.
     Inr (case r of Inl e \<Rightarrow> old | Inr v \<Rightarrow> v))"

text \<open>The end of a successful fallback: the CFA and the address from the new locations.\<close>

definition settle :: "cursor \<Rightarrow> cursor res" where
  "settle c =
     rbind (get_or_keep c (c_loc c ! RSP) (c_cfa c)) (\<lambda>cfa.
     let c = c\<lparr>c_cfa := cfa\<rparr> in
     rbind (get_or_keep c (c_loc c ! RIP) (c_ip c)) (\<lambda>ip. Inr (c\<lparr>c_ip := ip\<rparr>)))"

definition plt_step :: "cursor \<Rightarrow> cursor res" where
  "plt_step c =
     settle (c\<lparr>c_frame_info := (c_frame_info c)\<lparr>cfa_reg_offset := 8, cfa_reg_rsp := True,
                 fr_type := UNW_X86_64_FRAME_STANDARD\<rparr>,
               c_loc := (c_loc c)[RIP := DWARF_MEM_LOC (c_cfa c), RSP := DWARF_VAL_LOC (c_cfa c + 8)]\<rparr>)"

text \<open>\<open>_try_rip_fixup\<close>, with the cursor it leaves and whether it returns \<open>UNW_ESUCCESS\<close>.\<close>

definition try_rip_fixup :: "cursor \<Rightarrow> (cursor \<times> bool) res" where
  "try_rip_fixup c =
     rbind (attempt (rbind (dwarf_get c (c_loc c ! RSP)) (\<lambda>rsp.
              rbind (dwarf_get c (DWARF_MEM_LOC rsp)) (\<lambda>new_ip. Inr (rsp, new_ip))))) (\<lambda>r.
     case r of
       Inl e \<Rightarrow> Inr (c, False)
     | Inr (rsp, new_ip) \<Rightarrow>
         if new_ip = 0
         then Inr (c\<lparr>c_loc := (c_loc c)[RBP := DWARF_NULL_LOC, RSP := DWARF_NULL_LOC,
                       RIP := DWARF_NULL_LOC], c_ip := 0\<rparr>, True)
         else rbind (attempt (dwarf_get c (DWARF_MEM_LOC new_ip))) (\<lambda>r.
              case r of
                Inl e \<Rightarrow> Inr (c, False)
              | Inr not_used \<Rightarrow>
                  rbind (settle (c\<lparr>c_frame_info := (c_frame_info c)\<lparr>cfa_reg_offset := 8,
                             cfa_reg_rsp := True, rbp_cfa_offset := - 1, rsp_cfa_offset := - 1,
                             fr_type := UNW_X86_64_FRAME_OTHER\<rparr>,
                           c_loc := (c_loc c)[RIP := DWARF_VAL_LOC new_ip,
                             RSP := DWARF_VAL_LOC (rsp + 8)]\<rparr>)) (\<lambda>c.
                  Inr (c\<lparr>c_use_prev_instr := True\<rparr>, True))))"

text \<open>
  \<open>_try_rbp_frame_walk\<close>. The new location of the stack pointer is the memory behind the return
  address, so the CFA becomes the contents of that memory.
\<close>

definition try_rbp_frame_walk :: "cursor \<Rightarrow> (cursor \<times> bool) res" where
  "try_rbp_frame_walk c =
     rbind (attempt (rbind (dwarf_get c (c_loc c ! RBP)) (\<lambda>cur_rbp.
              if cur_rbp < c_cfa c then Inl (Err UNW_EBADFRAME)
              else rbind (dwarf_get c (DWARF_MEM_LOC cur_rbp)) (\<lambda>new_rbp. Inr (cur_rbp, new_rbp))))) (\<lambda>r.
     case r of
       Inl e \<Rightarrow> Inr (c, False)
     | Inr (cur_rbp, new_rbp) \<Rightarrow>
         if new_rbp < c_cfa c \<or> new_rbp - c_cfa c > 0x4000
         then Inr (c\<lparr>c_loc := (c_loc c)[RBP := DWARF_NULL_LOC, RIP := DWARF_NULL_LOC,
                       RSP := DWARF_NULL_LOC], c_ip := 0\<rparr>, False)
         else rbind (settle (c\<lparr>c_frame_info := (c_frame_info c)\<lparr>fr_type := UNW_X86_64_FRAME_GUESSED,
                         cfa_reg_rsp := False, cfa_reg_offset := 16, rbp_cfa_offset := - 16\<rparr>,
                       c_loc := (c_loc c)[RBP := DWARF_VAL_LOC new_rbp,
                         RIP := DWARF_MEM_LOC (cur_rbp + 8), RSP := DWARF_MEM_LOC (cur_rbp + 16)]\<rparr>)) (\<lambda>c.
              Inr (c\<lparr>c_use_prev_instr := True\<rparr>, True)))"

definition unw_step_fallback :: "unw_env \<Rightarrow> cursor \<Rightarrow> (cursor \<times> (unw_error + bool)) res" where
  "unw_step_fallback env c =
     (let (c, os) = x86_64_os_step env c in
      if os then Inr (c, Inr True)
      else if unw_is_signal_frame c
      then Inr (c, map_sum id (\<lambda>_. True) (x86_64_handle_signal_frame c))
      else if is_plt_entry c then rbind (plt_step c) (\<lambda>c. Inr (c, Inr True))
      else
        rbind (attempt (dwarf_get c (DWARF_MEM_LOC (c_ip c)))) (\<lambda>r.
        rbind (case r of Inl e \<Rightarrow> try_rip_fixup c | Inr not_used \<Rightarrow> try_rbp_frame_walk c) (\<lambda>(c, ok).
        Inr (if c_ip c = 0 \<and> DWARF_IS_NULL_LOC (c_loc c ! RBP)
             then (c\<lparr>c_loc := replicate DWARF_NUM_PRESERVED_REGS DWARF_NULL_LOC\<rparr>, Inr False)
             else (c, Inr ok)))))"

section \<open>Stepping\<close>

text \<open>
  \<open>unw_step\<close> in the default configuration, in which the process itself is read with checks. It
  returns whether there is a next frame, or an error.
\<close>

definition unw_step ::
  "unw_env \<Rightarrow> cursor \<Rightarrow> as_caches \<Rightarrow> (cursor \<times> as_caches \<times> (unw_error + bool)) res" where
  "unw_step env c ca =
     (let c = (if se_is_local env then dwarf_set_validate env True c else c) in
      rbind (dwarf_step (step_env.truncate env) (c\<lparr>c_sigcontext_format := X86_64_SCF_NONE\<rparr>) ca)
        (\<lambda>(c, ca, ret).
      if ret = Inl UNW_ENOINFO then
        (let c = (if se_is_local env then dwarf_set_validate env True c else c) in
         rbind (unw_step_fallback env c) (\<lambda>(c', ret).
         Inr (case ret of
                Inl e \<Rightarrow> (c', ca, Inl e)
              | Inr again \<Rightarrow> (c'\<lparr>c_frames := c_frames c' + 1\<rparr>, ca,
                  Inr (again \<and> \<not> (c_ip c' = c_ip c \<and> c_cfa c' = c_cfa c))))))
      else Inr (case ret of
             Inl e \<Rightarrow> (c, ca, Inl e)
           | Inr again \<Rightarrow> (c\<lparr>c_frames := c_frames c + 1\<rparr>, ca, Inr again))))"

text \<open>
  The loop of \<open>slow_backtrace\<close> with room for \<open>n\<close> more addresses: one step is made before the room
  is tested. A step that fails ends the backtrace like the last frame does.
\<close>

fun backtrace_loop ::
  "unw_env \<Rightarrow> cursor \<Rightarrow> as_caches \<Rightarrow> nat \<Rightarrow> unw_word list res"
where
  "backtrace_loop env c ca n =
     rbind (unw_step env c ca) (\<lambda>(c, ca, ret).
     case ret of
       Inr True \<Rightarrow>
         (case n of
            0 \<Rightarrow> Inr []
          | Suc n \<Rightarrow>
              rbind (attempt (unw_get_reg c UNW_REG_IP)) (\<lambda>r.
              case r of
                Inl e \<Rightarrow> Inr []
              | Inr ip \<Rightarrow> rbind (backtrace_loop env c ca n) (\<lambda>ips. Inr (ip # ips))))
     | _ \<Rightarrow> Inr [])"

declare backtrace_loop.simps [simp del]

definition slow_backtrace ::
  "unw_env \<Rightarrow> cursor \<Rightarrow> as_caches \<Rightarrow> int \<Rightarrow> nat \<Rightarrow> unw_word list res" where
  "slow_backtrace env c ca flag n =
     rbind (unw_init_local2 c flag) (\<lambda>(c, ret).
     case ret of Inl e \<Rightarrow> Inr [] | Inr _ \<Rightarrow> backtrace_loop env c ca n)"

end
