(* ===== verification/CfiColumn.thy ===== *)
theory CfiColumn
  imports CfiRows StepLemmas
begin

text \<open>
  From the bytes of call-frame programs to the register state that the slow path of
  \<open>find_reg_state\<close> delivers: no instruction changes the return address column, so the row that the
  programs compute determines the register state.
\<close>

section \<open>The return address column\<close>

definition column_ok :: "unw_word \<Rightarrow> cfi_state \<Rightarrow> bool" where
  "column_ok r s \<longleftrightarrow> ret_addr_column (rs_current (cs_sr s)) = r
     \<and> (\<forall>rs \<in> set (cs_stack s). ret_addr_column rs = r)"

definition keeps_column :: "unw_word \<Rightarrow> cfi_state res \<Rightarrow> bool" where
  "keeps_column r res \<longleftrightarrow> (\<forall>s. res = Inr s \<longrightarrow> column_ok r s)"

lemma keeps_column_simps [simp]: "keeps_column r (Inr s) = column_ok r s" "keeps_column r (Inl f)"
  by (simp_all add: keeps_column_def)

lemma keeps_column_rbind: "(\<And>x. m = Inr x \<Longrightarrow> keeps_column r (f x)) \<Longrightarrow> keeps_column r (rbind m f)"
  by (cases m) simp_all

lemma column_ok_simps [simp]:
  "column_ok r (s\<lparr>cs_addr := a\<rparr>) = column_ok r s" "column_ok r (s\<lparr>cs_ip := i\<rparr>) = column_ok r s"
  "column_ok r (s\<lparr>cs_sr := (cs_sr s)\<lparr>args_size := n\<rparr>\<rparr>) = column_ok r s"
  by (simp_all add: column_ok_def)

lemma cfi_set_column: "column_ok r s \<Longrightarrow> cfi_set s a n w v = Inr s' \<Longrightarrow> column_ok r s'"
  by (auto simp: cfi_set_def set_reg_def Let_def column_ok_def res_iff)

lemma cfi_set_keeps_column: "column_ok r s \<Longrightarrow> keeps_column r (cfi_set s a n w v)"
  by (simp add: keeps_column_def cfi_set_column)

lemmas column_intros = keeps_column_rbind cfi_set_keeps_column

lemma misc_column: "column_ok r s \<Longrightarrow> keeps_column r (cfi_misc env opc s)"
  by (cases opc) (auto simp: cfi_misc_def intro!: column_intros)

lemma expr_column: "column_ok r s \<Longrightarrow> keeps_column r (cfi_expr env opc s)"
  by (cases opc) (auto simp: cfi_expr_def Let_def misc_column intro!: column_intros dest: cfi_set_column)

lemma def_cfa_column: "column_ok r s \<Longrightarrow> keeps_column r (cfi_def_cfa env opc s)"
  by (cases opc) (auto simp: cfi_def_cfa_def Let_def expr_column cfi_set_cfa_off_def
      intro!: column_intros dest: cfi_set_column)

lemma remember_column: "column_ok r s \<Longrightarrow> keeps_column r (cfi_remember env opc s)"
  by (cases opc) (auto simp: cfi_remember_def def_cfa_column push_rstate_stack_def
      pop_rstate_stack_def column_ok_def split: list.splits intro!: keeps_column_rbind)

lemma rule_column: "column_ok r s \<Longrightarrow> keeps_column r (cfi_rule env opc s)"
  by (cases opc) (auto simp: cfi_rule_def Let_def remember_column intro!: column_intros)

lemma restore_column: "column_ok r s \<Longrightarrow> keeps_column r (cfi_restore env opc n s)"
  by (cases opc) (auto simp: cfi_restore_def cfi_restore_reg_def rule_column intro!: column_intros)

lemma offset_column: "column_ok r s \<Longrightarrow> keeps_column r (cfi_offset env opc n s)"
  by (cases opc) (auto simp: cfi_offset_def Let_def restore_column intro!: column_intros)

lemma advance_column: "column_ok r s \<Longrightarrow> keeps_column r (cfi_advance env opc n s)"
  by (cases opc) (auto simp: cfi_advance_def Let_def offset_column intro!: column_intros)

lemma step_column: "column_ok r s \<Longrightarrow> keeps_column r (cfi_step env s)"
  by (auto simp: cfi_step_def Let_def advance_column intro!: keeps_column_rbind)

lemma loop_column:
  assumes "cfi_loop env e ea s = Some res" and "column_ok r s"
  shows "keeps_column r res"
  using assms
proof (induction rule: cfi_loop.raw_induct [rotated, consumes 1])
  case (1 loop env e ea s res)
  note step = step_column [OF "1.prems", of env]
  show ?case
  proof (cases "cs_ip s \<le> e \<and> cs_addr s < ea")
    case False
    with 1 show ?thesis by auto
  next
    case True
    with 1 step show ?thesis by (cases "cfi_step env s") simp_all
  qed
qed

lemma run_cfi_program_column:
  assumes "run_cfi_program las alloc c dci sr ip pc a ea = Inr sr'"
  shows "ret_addr_column (rs_current sr') = ret_addr_column (rs_current sr)"
proof -
  obtain env s where "cfi_loop env pc ea \<lparr>cs_sr = sr, cs_ip = ip, cs_addr = a, cs_stack = [], cs_allocs = 0\<rparr>
      = Some (Inr s)" "sr' = cs_sr s"
    using assms unfolding run_cfi_program_def Let_def
    by (auto simp: returns_def res_iff split: option.splits)
  then show ?thesis using loop_column by (fastforce simp: column_ok_def)
qed

lemma setup_parse_column:
  assumes "rbind (setup_fde as alloc c) (parse_fde as alloc c ip) = Inr sr"
    and "pi_unwind_info (c_pi c) = Some dci"
  shows "ret_addr_column (rs_current sr) = cie_ret_addr_column dci"
  using assms
  by (auto simp: setup_fde_def parse_fde_def cursor_dci_def Let_def res_iff split: if_splits
      dest!: run_cfi_program_column)

text \<open>A well-formed register state is its column and its row.\<close>

lemma reg_state_eqI:
  assumes "wf_rs a" "wf_rs b" "ret_addr_column a = ret_addr_column b" "row_of a = row_of b"
  shows "a = (b :: dwarf_reg_state)"
proof -
  have "rs_where a ! i = rs_where b ! i" "rs_val a ! i = rs_val b ! i" for i
    using fun_cong [OF assms(4), of i] by (simp_all add: row_of_def)
  then have "rs_where a = rs_where b" "rs_val a = rs_val b"
    using assms(1,2) by (auto simp: wf_rs_def intro: nth_equalityI)
  with assms(3) show ?thesis by simp
qed

section \<open>Described functions\<close>

text \<open>
  The unwind tables describe an ordinary frame of \<open>n\<close> bytes at an address: nothing is registered
  dynamically, the procedure information found has a CIE and an FDE whose bytes encode two
  programs, and the table machine computes the row of such a frame from them.
\<close>

definition described :: "step_env \<Rightarrow> addr_space \<Rightarrow> unw_word \<Rightarrow> unw_word \<Rightarrow> bool" where
  "described env as ip n \<longleftrightarrow> se_is_local env \<and> se_dyn_list env = [] \<and> (\<forall>n. se_alloc env n) \<and>
     (\<exists>pi dci ci fi t0. (\<forall>a \<in> {ip, ip - 1}. se_find_proc_info env a (se_failed_pi env) = Inr pi)
        \<and> pi_format pi = UNW_INFO_FORMAT_TABLE \<and> \<not> pi_debug_frame pi \<and> pi_unwind_info pi = Some dci
        \<and> \<not> signal_frame dci \<and> cie_ret_addr_column dci = 16
        \<and> program_at as (cie_instr_start dci) (cie_instr_end dci) ci
        \<and> program_at as (fde_instr_start dci) (fde_instr_end dci) fi
        \<and> run_insns (cie_env dci (row_of zero_reg_state)) (- 1) ci
             \<lparr>t_loc = 0, t_row = row_of default_reg_state, t_saved = []\<rparr> = Inr t0
        \<and> (\<forall>a \<in> {ip, ip - 1}. \<exists>t. run_insns (cie_env dci (t_row t0)) a fi
             \<lparr>t_loc = pi_start_ip pi, t_row = t_row t0, t_saved = []\<rparr> = Inr t
             \<and> t_row t = row_of (plain_row n)))"

text \<open>The cursor after its procedure information has been fetched from a table.\<close>

abbreviation with_table_info :: "cursor \<Rightarrow> unw_proc_info \<Rightarrow> cursor" where
  "with_table_info c pi \<equiv> c\<lparr>c_pi := pi, c_pi_valid := True, c_pi_is_dynamic := False,
      c_sigcontext_format := X86_64_SCF_NONE\<rparr>"

lemma described_state:
  assumes d: "described env as ip n" and c: "c_as c = as" "c_ip c = ip"
  obtains pi dci sr where "fetch_proc_info env c ca (c_ip c) = Inr (with_table_info c pi, ca, Inr ())"
    and "create_state_record_for env (with_table_info c pi) ip = Inr sr" and "rs_current sr = plain_row n"
    and "pi_unwind_info pi = Some dci" and "\<not> signal_frame dci" and "pi_format pi = UNW_INFO_FORMAT_TABLE"
    and "\<forall>a \<in> {ip, ip - 1}. se_find_proc_info env a (se_failed_pi env) = Inr pi"
proof -
  let ?a = "ip - (if c_use_prev_instr c then 1 else 0)"
  obtain pi dci ci fi t0 where p: "se_is_local env" "se_dyn_list env = []" "\<forall>n. se_alloc env n"
    "\<forall>a \<in> {ip, ip - 1}. se_find_proc_info env a (se_failed_pi env) = Inr pi"
    "pi_format pi = UNW_INFO_FORMAT_TABLE" "\<not> pi_debug_frame pi" "pi_unwind_info pi = Some dci"
    "\<not> signal_frame dci" "cie_ret_addr_column dci = 16"
    "program_at as (cie_instr_start dci) (cie_instr_end dci) ci"
    "program_at as (fde_instr_start dci) (fde_instr_end dci) fi"
    "run_insns (cie_env dci (row_of zero_reg_state)) (- 1) ci
       \<lparr>t_loc = 0, t_row = row_of default_reg_state, t_saved = []\<rparr> = Inr t0"
    "\<forall>a \<in> {ip, ip - 1}. \<exists>t. run_insns (cie_env dci (t_row t0)) a fi
       \<lparr>t_loc = pi_start_ip pi, t_row = t_row t0, t_saved = []\<rparr> = Inr t \<and> t_row t = row_of (plain_row n)"
    using d unfolding described_def by blast
  have a: "?a \<in> {ip, ip - 1}" by simp
  then obtain t where t: "run_insns (cie_env dci (t_row t0)) ?a fi
       \<lparr>t_loc = pi_start_ip pi, t_row = t_row t0, t_saved = []\<rparr> = Inr t" "t_row t = row_of (plain_row n)"
    using p(13) by blast
  have find: "se_find_proc_info env ip (se_failed_pi env) = Inr pi"
    "se_find_proc_info env (ip - 1) (se_failed_pi env) = Inr pi" using p(4) by simp_all
  define c1 where "c1 = with_table_info c pi"
  have c1: "c_pi_valid c1" "c_pi c1 = pi" "c_as c1 = as" "c_use_prev_instr c1 = c_use_prev_instr c"
    "c_ip c1 = ip"
    using c by (simp_all add: c1_def)
  have fetch: "fetch_proc_info env c ca (c_ip c) = Inr (c1, ca, Inr ())"
    using find p(1,2,5,7,8) c(2)
    by (simp add: fetch_proc_info_def unwi_find_dynamic_proc_info_def accept_proc_info_def
        tdep_fetch_frame_def c1_def Let_def cong: if_cong)
  have "\<exists>sr. rbind (setup_fde (local_as (se_process env)) (se_alloc env) c1)
        (parse_fde (local_as (se_process env)) (se_alloc env) c1 ip) = Inr sr
      \<and> wf_sr sr \<and> row_of (rs_current sr) = t_row t"
  proof (rule fde_row)
    show "program_at (c_as c1) (cie_instr_start dci) (cie_instr_end dci) ci"
      "program_at (c_as c1) (fde_instr_start dci) (fde_instr_end dci) fi"
      using p(10,11) c1(3) by simp_all
    show "run_insns (cie_env dci (t_row t0)) (ip - (if c_use_prev_instr c1 then 1 else 0)) fi
        \<lparr>t_loc = pi_start_ip (c_pi c1), t_row = t_row t0, t_saved = []\<rparr> = Inr t"
      using t(1) c1 by simp
  qed (use p c1 in simp_all)
  then obtain sr where sr: "rbind (setup_fde (local_as (se_process env)) (se_alloc env) c1)
        (parse_fde (local_as (se_process env)) (se_alloc env) c1 ip) = Inr sr"
    "wf_sr sr" "row_of (rs_current sr) = row_of (plain_row n)" using t(2) by auto
  have "ret_addr_column (rs_current sr) = 16"
    using setup_parse_column [OF sr(1)] p(7,9) c1(2) by simp
  then have "rs_current sr = plain_row n"
    using sr(2,3) by (intro reg_state_eqI) (simp_all add: wf_sr_def)
  moreover have "create_state_record_for env c1 ip = Inr sr"
    using sr(1) p(5) c1(2) by (simp add: create_state_record_for_def Let_def)
  ultimately show ?thesis
    using that [of pi sr dci] fetch p(4,5,7,8) by (simp add: c1_def)
qed

lemma described_row:
  assumes d: "described env as ip n" and c: "c_as c = as" "c_ip c = ip"
  shows "\<exists>c'. uncached_reg_state env c ca = Inr (c', ca, Inr (plain_row n)) \<and> c_use_prev_instr c'"
proof -
  obtain pi dci sr where p: "fetch_proc_info env c ca (c_ip c) = Inr (with_table_info c pi, ca, Inr ())"
    "create_state_record_for env (with_table_info c pi) ip = Inr sr" "rs_current sr = plain_row n"
    "pi_unwind_info pi = Some dci" "\<not> signal_frame dci" "pi_format pi = UNW_INFO_FORMAT_TABLE"
    "\<forall>a \<in> {ip, ip - 1}. se_find_proc_info env a (se_failed_pi env) = Inr pi"
    by (rule described_state [OF d c, where ca = ca])
  then show ?thesis using c by (simp add: uncached_reg_state_def)
qed

text \<open>The procedure information of such a frame; fetching it leaves the frame in the cursor alone.\<close>

lemma described_proc_info:
  assumes d: "described env as ip n" and c: "c_as c = as" "c_ip c = ip"
  obtains pi c' where "dwarf_make_proc_info env c ca = Inr (c', ca, Inr ())"
    and "c_pi c' = pi\<lparr>pi_unwind_info := None\<rparr>"
    and "\<forall>a \<in> {ip, ip - 1}. se_find_proc_info env a (se_failed_pi env) = Inr pi"
    and "c' = c\<lparr>c_pi := c_pi c', c_pi_valid := False, c_pi_is_dynamic := False,
      c_sigcontext_format := X86_64_SCF_NONE, c_args_size := c_args_size c'\<rparr>"
proof -
  obtain pi dci sr where p: "fetch_proc_info env c ca (c_ip c) = Inr (with_table_info c pi, ca, Inr ())"
    "create_state_record_for env (with_table_info c pi) ip = Inr sr" "rs_current sr = plain_row n"
    "pi_unwind_info pi = Some dci" "\<not> signal_frame dci" "pi_format pi = UNW_INFO_FORMAT_TABLE"
    "\<forall>a \<in> {ip, ip - 1}. se_find_proc_info env a (se_failed_pi env) = Inr pi"
    by (rule described_state [OF d c, where ca = ca])
  have e: "dwarf_make_proc_info env c ca
      = Inr ((put_unwind_info env (with_table_info c pi))\<lparr>c_args_size := args_size sr\<rparr>, ca, Inr ())"
    using p c by (simp add: dwarf_make_proc_info_def Let_def)
  show thesis
    by (rule that [OF e]) (use p(4,6,7) in \<open>simp_all add: put_unwind_info_def Let_def\<close>)
qed

end
