(* ===== verification/Backtrace.thy ===== *)
theory Backtrace
  imports StepCache Unwind CfiColumn
begin

text \<open>
  Whole backtraces: a call stack of functions with ordinary frames as an inductive relation
  between the registers of the innermost function and the list of return addresses, and that
  \<open>slow_backtrace\<close> (initialisation, cached DWARF steps, application of the rows) finds this list.
\<close>

section \<open>Call stacks\<close>

text \<open>
  The registers \<open>ip\<close> and \<open>sp\<close> of a function belong to a call stack with the given return
  addresses: its frame has \<open>f ip\<close> bytes, and the return address lies at its upper end. The
  outermost function has the return address zero.
\<close>

inductive calls ::
  "step_env \<Rightarrow> addr_space \<Rightarrow> (unw_word \<Rightarrow> unw_word) \<Rightarrow> unw_word \<Rightarrow> unw_word \<Rightarrow> unw_word list \<Rightarrow> bool"
  for env as f
where
  outermost: "\<lbrakk>described env as ip (f ip); ip \<noteq> 0; f ip \<noteq> 0; sp + f ip \<noteq> 8;
     access_mem as (sp + f ip - 8) = Inr 0\<rbrakk> \<Longrightarrow> calls env as f ip sp []"
| call: "\<lbrakk>described env as ip (f ip); ip \<noteq> 0; f ip \<noteq> 0; sp + f ip \<noteq> 8;
     access_mem as (sp + f ip - 8) = Inr ra; ra \<noteq> 0; calls env as f ra (sp + f ip) ras\<rbrakk>
     \<Longrightarrow> calls env as f ip sp (ra # ras)"

inductive_cases calls_NilE: "calls env as f ip sp []"
inductive_cases calls_ConsE: "calls env as f ip sp (ra # ras)"

section \<open>One step\<close>

text \<open>The address space a step reads from, and where the stack pointer of a cursor is.\<close>

definition read_as :: "unw_env \<Rightarrow> addr_space \<Rightarrow> addr_space" where
  "read_as env as = (if se_is_local env then ue_validating env as else as)"

definition checks_only :: "unw_env \<Rightarrow> bool" where
  "checks_only env \<longleftrightarrow> (\<forall>as. ue_validating env (ue_validating env as) = ue_validating env as
     \<and> access_reg (ue_validating env as) = access_reg as)"

definition sp_is :: "unw_env \<Rightarrow> cursor \<Rightarrow> unw_word \<Rightarrow> bool" where
  "sp_is env c sp \<longleftrightarrow> \<not> DWARF_IS_NULL_LOC (c_loc c ! 7)
     \<and> dwarf_get (c\<lparr>c_as := read_as env (c_as c)\<rparr>) (c_loc c ! 7) = Inr sp"

text \<open>
  What holds of the cursor and the caches between two steps; outside the fast trace, frames are
  not stashed.
\<close>

definition at_frame ::
  "unw_env \<Rightarrow> addr_space \<Rightarrow> (unw_word \<Rightarrow> unw_word) \<Rightarrow> cursor \<Rightarrow> as_caches \<Rightarrow> unw_word \<Rightarrow> unw_word \<Rightarrow> bool" where
  "at_frame env as f c ca ip sp \<longleftrightarrow> steady ca \<and> good_cache (\<lambda>ip. (plain_row (f ip), False)) (global_cache ca)
     \<and> good_cursor (global_cache ca) c \<and> wf_cursor c
     \<and> read_as env (c_as c) = as \<and> c_ip c = ip \<and> c_cfa c = sp \<and> sp_is env c sp"

definition ready ::
  "unw_env \<Rightarrow> addr_space \<Rightarrow> (unw_word \<Rightarrow> unw_word) \<Rightarrow> cursor \<Rightarrow> as_caches \<Rightarrow> unw_word \<Rightarrow> unw_word \<Rightarrow> bool" where
  "ready env as f c ca ip sp \<longleftrightarrow> at_frame env as f c ca ip sp \<and> \<not> c_stash_frames c"

lemma unw_get_reg_sp:
  "wf_cursor c \<Longrightarrow> unw_get_reg c 7 = dwarf_get c (c_loc c ! 7)"
  by (simp add: unw_get_reg_def tdep_access_reg_read_def wf_cursor_def)

lemma unw_step_row:
  assumes r: "at_frame env as f c ca ip sp" and env: "checks_only env"
    and t: "described (step_env.truncate env) as ip (f ip)" and "ip \<noteq> 0" "f ip \<noteq> 0" "sp + f ip \<noteq> 8"
    and ra: "access_mem as (sp + f ip - 8) = Inr ra"
    and fi: "c_stash_frames c \<Longrightarrow> fr_type (c_frame_info c) \<noteq> UNW_X86_64_FRAME_SIGRETURN"
  shows "\<exists>c' ca'. unw_step env c ca = Inr (c', ca', Inr (ra \<noteq> 0))
    \<and> at_frame env as f c' ca' ra (sp + f ip) \<and> c_stash_frames c' = c_stash_frames c
    \<and> c_use_prev_instr c' \<and> c_as c' = as
    \<and> (c_stash_frames c \<longrightarrow> c_frame_info c' = stashed_plain (c_frame_info c) (f ip))"
proof -
  define c1 where "c1 = (if se_is_local env then dwarf_set_validate env True c else c)
     \<lparr>c_sigcontext_format := X86_64_SCF_NONE\<rparr>"
  let ?row = "\<lambda>ip. (plain_row (f ip), False)"
  have c1: "c_as c1 = as" "c_ip c1 = ip" "c_cfa c1 = sp" "c_loc c1 = c_loc c" "wf_cursor c1"
    "c_stash_frames c1 = c_stash_frames c" "good_cursor (global_cache ca) c1" "c_frame_info c1 = c_frame_info c"
    using r by (auto simp: at_frame_def c1_def dwarf_set_validate_def read_as_def wf_cursor_def
        good_cursor_def hint_ok_def split: if_split_asm)
  have run: "unw_step env c ca = rbind (dwarf_step (step_env.truncate env) c1 ca) (\<lambda>(c, ca, ret).
      if ret = Inl UNW_ENOINFO then
        (let c = (if se_is_local env then dwarf_set_validate env True c else c) in
         rbind (unw_step_fallback env c) (\<lambda>(c', ret).
         Inr (case ret of
                Inl e \<Rightarrow> (c', ca, Inl e)
              | Inr again \<Rightarrow> (c'\<lparr>c_frames := c_frames c' + 1\<rparr>, ca,
                  Inr (again \<and> \<not> (c_ip c' = c_ip c \<and> c_cfa c' = c_cfa c))))))
      else Inr (case ret of
             Inl e \<Rightarrow> (c, ca, Inl e)
           | Inr again \<Rightarrow> (c\<lparr>c_frames := c_frames c + 1\<rparr>, ca, Inr again)))"
    by (simp add: unw_step_def c1_def Let_def)
  have tab: "\<exists>c'. uncached_reg_state (step_env.truncate env) c1 ca = Inr (c', ca, Inr (fst (?row (c_ip c1))))
      \<and> c_use_prev_instr c' = (\<not> snd (?row (c_ip c1)))"
    using described_row [OF t c1(1,2)] c1(2) by auto
  have g: "steady ca" "good_cache ?row (global_cache ca)" using r by (simp_all add: at_frame_def)
  obtain c2 ca2 where f2: "find_reg_state (step_env.truncate env) c1 ca = Inr (c2, ca2, Inr (plain_row (f ip)))"
    "same_place c1 c2" "steady ca2" "good_cache ?row (global_cache ca2)" "good_cursor (global_cache ca2) c2"
    "marked c1 c2 False"
    using find_reg_state_good [OF g c1(7) _ tab] assms(4) c1(2) by auto
  have c2: "c_as c2 = as" "c_loc c2 = c_loc c" "c_cfa c2 = sp" "wf_cursor c2"
    "c_stash_frames c2 = c_stash_frames c" "c_frame_info c2 = c_frame_info c" "c_use_prev_instr c2"
    using f2(2,6) c1 by (simp_all add: same_place_def wf_cursor_def marked_def reused_frame_def)
  have "dwarf_get c2 (c_loc c2 ! 7) = Inr sp" "\<not> DWARF_IS_NULL_LOC (c_loc c2 ! 7)"
    using r dwarf_get_cong [of c2 "c\<lparr>c_as := read_as env (c_as c)\<rparr>"] c2
    by (auto simp: at_frame_def sp_is_def)
  then have sp: "unw_get_reg c2 7 = Inr sp" "\<not> DWARF_IS_NULL_LOC (c_loc c2 ! 7)"
    using unw_get_reg_sp [OF c2(4)] by simp_all
  let ?c3 = "c2\<lparr>c_loc := (c_loc c2)[7 := DWARF_VAL_LOC (sp + f ip), 16 := DWARF_MEM_LOC (sp + f ip - 8)],
      c_cfa := sp + f ip, c_ip := ra,
      c_frame_info := (if c_stash_frames c2 then stashed_plain (c_frame_info c2) (f ip) else c_frame_info c2)\<rparr>"
  have "apply_reg_state c2 (plain_row (f ip)) = Inr (?c3, Inr (ra \<noteq> 0))"
    using plain_row_stashed [OF c2(4) sp, of "f ip" ra] c2 ra assms(5,6) fi by simp
  then have "unw_step env c ca = Inr (?c3\<lparr>c_frames := c_frames ?c3 + 1\<rparr>, ca2, Inr (ra \<noteq> 0))"
    unfolding run dwarf_step_def using f2(1) by simp
  moreover have "read_as env as = as"
    using env r by (auto simp: at_frame_def read_as_def checks_only_def)
  then have "at_frame env as f (?c3\<lparr>c_frames := c_frames ?c3 + 1\<rparr>) ca2 ra (sp + f ip)"
    using f2 c2 by (simp add: at_frame_def sp_is_def wf_cursor_def good_cursor_def hint_ok_def dwarf_get_def)
  ultimately show ?thesis
    using c2 by (intro exI [of _ "?c3\<lparr>c_frames := c_frames ?c3 + 1\<rparr>"] exI [of _ ca2]) simp
qed

lemma unw_step_plain:
  assumes "ready env as f c ca ip sp" and "checks_only env" and "described (step_env.truncate env) as ip (f ip)"
    and "ip \<noteq> 0" "f ip \<noteq> 0" "sp + f ip \<noteq> 8" and "access_mem as (sp + f ip - 8) = Inr ra"
  shows "\<exists>c' ca'. unw_step env c ca = Inr (c', ca', Inr (ra \<noteq> 0)) \<and> c_ip c' = ra
    \<and> ready env as f c' ca' ra (sp + f ip)"
proof -
  have "at_frame env as f c ca ip sp" "\<not> c_stash_frames c" using assms(1) by (simp_all add: ready_def)
  then show ?thesis
    using unw_step_row [of env as f c ca ip sp ra] assms(2-7) by (auto simp: ready_def at_frame_def)
qed

section \<open>All steps\<close>

lemma backtrace_loop_calls:
  assumes "calls (step_env.truncate env) as f ip sp ras" and "checks_only env"
    and "ready env as f c ca ip sp"
  shows "backtrace_loop env c ca n = Inr (take n ras)"
  using assms(1,3)
proof (induction arbitrary: c ca n rule: calls.induct)
  case (outermost ip sp)
  then show ?case
    using unw_step_plain [OF outermost.prems assms(2)] by (subst backtrace_loop.simps) fastforce
next
  case (call ip sp ra ras)
  obtain c' ca' where s: "unw_step env c ca = Inr (c', ca', Inr True)" "c_ip c' = ra"
    "ready env as f c' ca' ra (sp + f ip)"
    using unw_step_plain [OF call.prems assms(2)] call.hyps by fastforce
  show ?case
  proof (cases n)
    case 0
    then show ?thesis using s by (subst backtrace_loop.simps) simp
  next
    case (Suc m)
    then show ?thesis
      using s call.IH [OF s(3), of m] by (subst backtrace_loop.simps) (simp add: unw_get_reg_def)
  qed
qed

lemma init_ready:
  assumes "steady ca" and "good_cache (\<lambda>ip. (plain_row (f ip), False)) (global_cache ca)"
    and "length (c_eh_args c) = 2" and "access_reg (c_as c) 16 = Inr ip" and "access_reg (c_as c) 7 = Inr sp"
    and "checks_only env" and "flag = 0 \<or> flag = 1"
  shows "\<exists>c'. unw_init_local2 c flag = Inr (c', Inr ()) \<and> ready env (read_as env (c_as c)) f c' ca ip sp"
proof -
  have reg: "sint (ucast (16 :: unw_word) :: 32 word) = 16" "sint (ucast (7 :: unw_word) :: 32 word) = 7"
    by simp_all
  have acc: "access_reg (read_as env (c_as c)) 7 = Inr sp"
    using assms(5,6) by (simp add: read_as_def checks_only_def)
  have log: "0 < (2::nat) ^ log_size (global_cache ca)" by simp
  have locs: "map DWARF_REG_LOC [0..<17] ! 16 = DWARF_REG_LOC 16"
    "map DWARF_REG_LOC [0..<17] ! 7 = DWARF_REG_LOC 7" "length (map DWARF_REG_LOC [0..<17]) = 17"
    by (simp_all del: upt_rec_numeral)
  have init: "\<exists>c'. common_init (c\<lparr>c_frames := 0\<rparr>) b = Inr (c', Inr ()) \<and> ready env (read_as env (c_as c)) f c' ca ip sp"
    for b
    using assms(1-5) locs reg acc
    by (simp add: common_init_def Let_def dwarf_get_def ready_def at_frame_def good_cursor_def hint_ok_def
        wf_cursor_def sp_is_def del: upt_rec_numeral)
  then show ?thesis
    using assms(7) by (auto simp: unw_init_local2_def unw_init_local_common_def)
qed

lemma slow_backtrace_calls:
  assumes "calls (step_env.truncate env) (read_as env (c_as c)) f ip sp ras" and "checks_only env"
    and "access_reg (c_as c) 16 = Inr ip" and "access_reg (c_as c) 7 = Inr sp" and "length (c_eh_args c) = 2"
    and "steady ca" and "good_cache (\<lambda>ip. (plain_row (f ip), False)) (global_cache ca)"
    and "flag = 0 \<or> flag = 1"
  shows "slow_backtrace env c ca flag n = Inr (take n ras)"
proof -
  obtain c' where "unw_init_local2 c flag = Inr (c', Inr ())" "ready env (read_as env (c_as c)) f c' ca ip sp"
    using init_ready [OF assms(6,7,5,3,4,2,8)] by blast
  then show ?thesis
    using backtrace_loop_calls [OF assms(1,2)] by (simp add: slow_backtrace_def)
qed

end
