(* ===== verification/UnwindProps.thy ===== *)
theory UnwindProps
  imports Backtrace DynProps
begin

text \<open>
  Properties of stepping as a whole: the cache keeps the rows of the unwind tables, and the
  backtrace of a call stack; with a small process in which both are evaluated.
\<close>

section \<open>The cached rows\<close>

text \<open>C6. Looking a register state up through the cache gives the row of the unwind tables. If the
  cache holds for every valid entry the register state and the signal-frame mark of its address,
  then \<open>find_reg_state\<close> returns those of the cursor's address, consulting the tables only when the
  address is not among the last additions; it leaves the frame in the cursor alone, marks it for
  the next lookup, and keeps the cache as it was: unlocked, well-formed, with hints that name
  entries, holding rows of the tables only and now also that of this address.\<close>
theorem find_reg_state_keeps_rows:
  assumes "steady ca" and "good_cache row (global_cache ca)" and "good_cursor (global_cache ca) c"
    and "c_ip c \<noteq> 0"
    and "Some (c_ip c) \<notin> set (window (global_cache ca)) \<Longrightarrow>
      \<exists>c'. uncached_reg_state env c ca = Inr (c', ca, Inr (fst (row (c_ip c))))
        \<and> c_use_prev_instr c' = (\<not> snd (row (c_ip c)))"
  shows "\<exists>c' ca'. find_reg_state env c ca = Inr (c', ca', Inr (fst (row (c_ip c))))
    \<and> same_place c c' \<and> marked c c' (snd (row (c_ip c))) \<and> steady ca' \<and> good_cache row (global_cache ca')
    \<and> good_cursor (global_cache ca') c' \<and> Some (c_ip c) \<in> set (window (global_cache ca'))"
  by (rule find_reg_state_good [OF assms])

section \<open>Backtraces\<close>

text \<open>C3. On a call stack of functions with ordinary frames, \<open>slow_backtrace\<close> with room for \<open>n\<close>
  addresses returns exactly the first \<open>n\<close> return addresses, innermost first: initialising the
  cursor from the registers, looking every function up through the cache or the unwind tables,
  applying its row and moving to the caller, until the return address is zero.\<close>
theorem backtrace_of_call_stack:
  assumes "calls (step_env.truncate env) (read_as env (c_as c)) f ip sp ras" and "checks_only env"
    and "access_reg (c_as c) 16 = Inr ip" and "access_reg (c_as c) 7 = Inr sp" and "length (c_eh_args c) = 2"
    and "steady ca" and "good_cache (\<lambda>ip. (plain_row (f ip), False)) (global_cache ca)"
    and "flag = 0 \<or> flag = 1"
  shows "slow_backtrace env c ca flag n = Inr (take n ras)"
  by (rule slow_backtrace_calls [OF assms])

section \<open>A small process\<close>

text \<open>
  Two functions with frames of 16 bytes: the inner one at 0x4000 is called from 0x5000 in the
  outer one, whose return address is zero. Both are described by one CIE at 0x100.
\<close>

definition small_program :: "insn list" where
  "small_program = [Def_cfa 7 16, Offset 16 1]"

definition stack_as :: "(unw_word \<times> unw_word) list \<Rightarrow> addr_space" where
  "stack_as stk = \<lparr>access_mem = (\<lambda>a. Inr (case map_of stk a of Some v \<Rightarrow> v
       | None \<Rightarrow> word_at (bytes_from 0x100 (encode_insns small_program)) a)),
     access_reg = (\<lambda>r. Inr (if r = 16 then 0x4000 else 0x7000)), big_endian = False, addr_size = 8\<rparr>"

definition small_as :: addr_space where
  "small_as = stack_as [(0x7008, 0x5000), (0x7018, 0)]"

definition small_pi :: unw_proc_info where
  "small_pi = zero_pi\<lparr>pi_start_ip := 0x4000, pi_end_ip := 0x6000, pi_format := UNW_INFO_FORMAT_TABLE,
     pi_unwind_info := Some (zero_cie\<lparr>cie_instr_start := 0x100, cie_instr_end := 0x105,
       fde_instr_start := 0x105, fde_instr_end := 0x105, code_align := 1, data_align := - 8,
       cie_ret_addr_column := 16\<rparr>)\<rparr>"

definition small_env :: unw_env where
  "small_env = \<lparr>se_process = idle_process, se_is_local = True, se_dyn_list = [],
     se_target = sample_target, se_find_proc_info = (\<lambda>ip pi. Inr small_pi), se_failed_pi = zero_pi,
     se_alloc = (\<lambda>_. True), se_mem = (\<lambda>_. (True, True, True)), ue_vsyscall = None,
     ue_validating = (\<lambda>as. as)\<rparr>"

definition small_caches :: as_caches where
  "small_caches = new_caches\<lparr>global_cache := zero_cache\<lparr>rc_hash := Default, rc_buckets := Default,
     rc_links := Default, log_size := 7, default_hash := replicate 256 (- 1),
     default_links := replicate 128 (clear_entry zero_entry)\<rparr>\<rparr>"

lemma small_bytes:
  assumes "map_of stk 0x100 = None"
  shows "bytes_at (as_byte (stack_as stk)) 0x100 (encode_insns small_program)"
proof -
  have same: "as_byte (stack_as stk) a = as_byte (ram (bytes_from 0x100 (encode_insns small_program))) a"
    if "a \<in> {0x100, 0x101, 0x102, 0x103, 0x104}" for a
    using that assms by (auto simp: as_byte_def stack_as_def ram_def)
  have "bytes_at (as_byte (ram (bytes_from 0x100 (encode_insns small_program)))) 0x100
      (encode_insns small_program)"
    by (rule bytes_at_bytes_from) (simp add: small_program_def uleb_encode.simps)
  then show ?thesis
    using same by (simp add: small_program_def uleb_encode.simps)
qed

lemma stack_described:
  assumes "map_of stk 0x100 = None"
  shows "described (step_env.truncate small_env) (stack_as stk) ip 16"
proof -
  let ?dci = "the (pi_unwind_info small_pi)"
  have cie: "program_at (stack_as stk) 0x100 0x105 small_program"
    using small_bytes [OF assms] by (simp add: program_at_def small_program_def uleb_encode.simps)
  have fde: "program_at (stack_as stk) 0x105 0x105 []" by (simp add: program_at_def)
  let ?t0 = "\<lparr>t_loc = 0, t_row = row_of (plain_row 16), t_saved = []\<rparr>"
  have row: "(row_of default_reg_state)(17 := (DWARF_WHERE_REG, 7), 18 := (DWARF_WHERE_UNDEF, 16),
      16 := (DWARF_WHERE_CFAREL, - 8)) = row_of (plain_row 16)"
    by (rule ext) (simp add: row_of_def plain_row_def default_reg_state_def nth_list_update)
  have run: "run_insns (cie_env ?dci (row_of zero_reg_state)) (- 1) small_program
      \<lparr>t_loc = 0, t_row = row_of default_reg_state, t_saved = []\<rparr> = Inr ?t0"
    by (simp add: small_program_def rule_def cie_env_def small_pi_def row)
  have find: "\<forall>a \<in> {ip, ip - 1}. se_find_proc_info (step_env.truncate small_env) a
      (se_failed_pi (step_env.truncate small_env)) = Inr small_pi"
    by (simp add: small_env_def step_env.truncate_def)
  have rows: "\<forall>a \<in> {ip, ip - 1}. \<exists>t. run_insns (cie_env ?dci (t_row ?t0)) a []
      \<lparr>t_loc = pi_start_ip small_pi, t_row = t_row ?t0, t_saved = []\<rparr> = Inr t
      \<and> t_row t = row_of (plain_row 16)"
    by simp
  have info: "pi_format small_pi = UNW_INFO_FORMAT_TABLE" "\<not> pi_debug_frame small_pi"
    "pi_unwind_info small_pi = Some ?dci" "\<not> signal_frame ?dci" "cie_ret_addr_column ?dci = 16"
    "cie_instr_start ?dci = 0x100" "cie_instr_end ?dci = 0x105"
    "fde_instr_start ?dci = 0x105" "fde_instr_end ?dci = 0x105"
    by (simp_all add: small_pi_def zero_pi_def zero_cie_def)
  have env: "se_is_local (step_env.truncate small_env)" "se_dyn_list (step_env.truncate small_env) = []"
    "\<forall>n. se_alloc (step_env.truncate small_env) n"
    by (simp_all add: small_env_def step_env.truncate_def)
  show ?thesis
    unfolding described_def
    by (intro conjI exI [of _ small_pi] exI [of _ ?dci] exI [of _ small_program] exI [of _ "[]"]
        exI [of _ ?t0]) (use env find rows info cie fde run in simp_all)
qed

lemma small_described: "described (step_env.truncate small_env) small_as ip 16"
  unfolding small_as_def by (rule stack_described) simp

lemma small_calls: "calls (step_env.truncate small_env) small_as (\<lambda>_. 16) 0x4000 0x7000 [0x5000]"
proof -
  have "calls (step_env.truncate small_env) small_as (\<lambda>_. 16) 0x5000 (0x7000 + 16) []"
    by (rule calls.outermost) (simp_all add: small_described, simp add: small_as_def stack_as_def)
  then show ?thesis
    by (intro calls.call) (simp_all add: small_described, simp add: small_as_def stack_as_def)
qed

lemma small_cache_good:
  "steady small_caches" "good_cache row (global_cache small_caches)"
  "window (global_cache small_caches) = replicate 128 None"
proof -
  let ?c = "global_cache small_caches"
  have t: "the_links ?c = replicate 128 (clear_entry zero_entry)" "the_hash ?c = replicate 256 (- 1)"
    "log_size ?c = 7" "rr_head ?c = 0" "allocated ?c" "length (the_buckets ?c) = 128"
    by (simp_all add: small_caches_def new_caches_def zero_cache_def the_links_def the_hash_def
        the_buckets_def cells_def allocated_def DWARF_UNW_CACHE_SIZE_def)
  have sh: "rs_shape ?c" using t by (simp add: rs_shape_def)
  have e: "re_ip (the_links ?c ! i) = 0 \<and> \<not> re_valid (the_links ?c ! i)" if "i < length (the_links ?c)" for i
    using that t(1) by (simp add: clear_entry_def)
  have h: "the_hash ?c ! b = - 1" if "b < length (the_hash ?c)" for b
    using that t(2) by simp
  show "window ?c = replicate 128 None" using empty_inv(2) [OF sh t(4) e h] t(3) by simp
  show "good_cache row ?c"
    using empty_inv(1) [OF sh t(4) e h] t(1)
    by (simp add: good_cache_def holds_rows_def hints_fit_def clear_entry_def zero_entry_def)
  show "steady small_caches"
    by (simp add: steady_def small_caches_def new_caches_def zero_cache_def)
qed

theorem backtrace_of_call_stack_witness:
  "slow_backtrace small_env (blank_cursor small_as) small_caches 0 10 = Inr [0x5000]"
proof -
  have "read_as small_env (c_as (blank_cursor small_as)) = small_as"
    by (simp add: read_as_def small_env_def)
  moreover have "checks_only small_env" by (simp add: checks_only_def small_env_def)
  moreover have "access_reg small_as 16 = Inr 0x4000" "access_reg small_as 7 = Inr 0x7000"
    by (simp_all add: small_as_def stack_as_def)
  moreover have "length (c_eh_args (blank_cursor small_as)) = 2" by (simp add: blank_cursor_def)
  ultimately show ?thesis
    using backtrace_of_call_stack [of small_env "blank_cursor small_as" "\<lambda>_. 16" "0x4000" "0x7000"
        "[0x5000]" small_caches 0 10] small_calls small_cache_good by simp
qed

theorem find_reg_state_keeps_rows_witness:
  "\<exists>c' ca'. find_reg_state (step_env.truncate small_env) ((blank_cursor small_as)\<lparr>c_ip := 0x4000\<rparr>)
      small_caches = Inr (c', ca', Inr (plain_row 16))
    \<and> marked ((blank_cursor small_as)\<lparr>c_ip := 0x4000\<rparr>) c' False \<and> Some 0x4000 \<in> set (window (global_cache ca'))"
proof -
  let ?c = "(blank_cursor small_as)\<lparr>c_ip := 0x4000\<rparr>" and ?row = "\<lambda>ip :: unw_word. (plain_row 16, False)"
  have "good_cursor (global_cache small_caches) ?c"
    by (simp add: good_cursor_def hint_ok_def blank_cursor_def)
  moreover have "\<exists>c'. uncached_reg_state (step_env.truncate small_env) ?c small_caches
        = Inr (c', small_caches, Inr (fst (?row (c_ip ?c)))) \<and> c_use_prev_instr c' = (\<not> snd (?row (c_ip ?c)))"
    using described_row [OF small_described [of "0x4000"], of ?c small_caches] by simp
  ultimately have "\<exists>c' ca'. find_reg_state (step_env.truncate small_env) ?c small_caches
      = Inr (c', ca', Inr (fst (?row (c_ip ?c))))
    \<and> same_place ?c c' \<and> marked ?c c' (snd (?row (c_ip ?c))) \<and> steady ca' \<and> good_cache ?row (global_cache ca')
    \<and> good_cursor (global_cache ca') c' \<and> Some (c_ip ?c) \<in> set (window (global_cache ca'))"
    by (intro find_reg_state_keeps_rows small_cache_good) simp_all
  then show ?thesis by auto
qed

end
