(* ===== verification/Mempool.thy ===== *)
theory Mempool
  imports Prelude
begin

text \<open>
  The memory pools of \<open>src/mi/mempool.c\<close>, from which register states and CIE records are
  allocated: the emergency memory \<open>sos_memory\<close>, the free list of a pool with its expansion, and
  initialisation, allocation and release.
\<close>

section \<open>State\<close>

text \<open>
  The structure \<open>mempool\<close> without its lock. The free list is linked through the first word of
  each free object; a null pointer ends it.
\<close>

record mempool =
  mp_obj_size :: unw_word
  mp_chunk_size :: unw_word
  mp_reserve :: unw_word
  mp_num_free :: unw_word
  mp_free_list :: unw_word

text \<open>
  The memory that the pools share with the rest of the process, as words at aligned addresses,
  and the position of the free part of \<open>sos_memory\<close>.
\<close>

record pool_memory =
  pm_word :: "unw_word \<Rightarrow> unw_word"
  sos_freepos :: unw_word

text \<open>
  What the platform fixes: the address of \<open>sos_memory\<close>, the page size and the number of bytes of
  \<open>sos_memory\<close>. The largest alignment of x86-64 is 16.
\<close>

record pool_platform =
  sos_memory :: unw_word
  page_size :: unw_word
  sos_size :: unw_word

definition MAX_ALIGN :: unw_word where
  "MAX_ALIGN = 16"

definition UNW_ALIGN :: "unw_word \<Rightarrow> unw_word \<Rightarrow> unw_word" where
  "UNW_ALIGN x a = (x + a - 1) AND NOT (a - 1)"

section \<open>Emergency memory\<close>

text \<open>
  \<open>sos_alloc\<close>. The position is advanced by an atomic addition, before the assertions. Memory is
  never given back.
\<close>

definition sos_alloc :: "pool_platform \<Rightarrow> pool_memory \<Rightarrow> unw_word \<Rightarrow> (unw_word \<times> pool_memory) res" where
  "sos_alloc pf m n =
     (let n = UNW_ALIGN n MAX_ALIGN; pos = sos_freepos m in
      rbind (check (sos_memory pf AND (MAX_ALIGN - 1) = 0) Aborted) (\<lambda>_.
      rbind (check ((sos_memory pf + pos) AND (MAX_ALIGN - 1) = 0) Aborted) (\<lambda>_.
      rbind (check (pos + n \<le> sos_size pf) Aborted) (\<lambda>_.
      Inr (sos_memory pf + pos, m\<lparr>sos_freepos := pos + n\<rparr>)))))"

section \<open>The free list\<close>

definition free_object :: "mempool \<Rightarrow> pool_memory \<Rightarrow> unw_word \<Rightarrow> mempool \<times> pool_memory" where
  "free_object pool m obj =
     (pool\<lparr>mp_free_list := obj, mp_num_free := mp_num_free pool + 1\<rparr>,
      m\<lparr>pm_word := (pm_word m)(obj := mp_free_list pool)\<rparr>)"

text \<open>
  The loop of \<open>add_memory\<close> from the object \<open>obj\<close>, up to the last address at which an object fits.
  It compares addresses, so it would not end with objects of no size, or in memory at the very
  end of the address space.
\<close>

partial_function (option) add_objects ::
  "unw_word \<Rightarrow> unw_word \<Rightarrow> unw_word \<Rightarrow> mempool \<times> pool_memory \<Rightarrow> (mempool \<times> pool_memory) res option"
where
  "add_objects last_obj obj_size obj s =
     (if obj \<le> last_obj
      then add_objects last_obj obj_size (obj + obj_size) (free_object (fst s) (snd s) obj)
      else Some (Inr s))"

definition add_memory ::
  "mempool \<Rightarrow> pool_memory \<Rightarrow> unw_word \<Rightarrow> unw_word \<Rightarrow> unw_word \<Rightarrow> (mempool \<times> pool_memory) res" where
  "add_memory pool m mem n obj_size = returns (add_objects (mem + n - obj_size) obj_size mem (pool, m))"

text \<open>
  \<open>expand\<close>. The argument holds what the two calls of \<open>GET_MEMORY\<close> return, null when the system
  has no memory.
\<close>

definition expand ::
  "pool_platform \<Rightarrow> unw_word \<times> unw_word \<Rightarrow> mempool \<Rightarrow> pool_memory \<Rightarrow> (mempool \<times> pool_memory) res" where
  "expand pf mem pool m =
     (let add = (\<lambda>m mem n. add_memory pool m mem n (mp_obj_size pool)) in
      if fst mem \<noteq> 0 then add m (fst mem) (mp_chunk_size pool)
      else if snd mem \<noteq> 0 then add m (snd mem) (UNW_ALIGN (mp_obj_size pool) (page_size pf))
      else rbind (sos_alloc pf m (mp_obj_size pool)) (\<lambda>(mem, m). add m mem (mp_obj_size pool)))"

section \<open>Operations\<close>

text \<open>
  \<open>mempool_init\<close>, \<open>mempool_alloc\<close> and \<open>mempool_free\<close>. The latter two hold the lock of the pool
  throughout, so they are single steps. An object size of zero divides by zero.
\<close>

definition mempool_init ::
  "pool_platform \<Rightarrow> unw_word \<times> unw_word \<Rightarrow> pool_memory \<Rightarrow> unw_word \<Rightarrow> unw_word \<Rightarrow> (mempool \<times> pool_memory) res" where
  "mempool_init pf mem m obj_size reserve =
     (let obj_size = UNW_ALIGN obj_size MAX_ALIGN in
      rbind (if reserve \<noteq> 0 then Inr reserve
             else rbind (check (obj_size \<noteq> 0) Bad_div) (\<lambda>_.
                  let r = page_size pf div obj_size div 4 in Inr (if r = 0 then 16 else r))) (\<lambda>reserve.
      expand pf mem
        \<lparr>mp_obj_size = obj_size, mp_chunk_size = UNW_ALIGN (2 * reserve * obj_size) (page_size pf),
         mp_reserve = reserve, mp_num_free = 0, mp_free_list = 0\<rparr> m))"

definition mempool_alloc ::
  "pool_platform \<Rightarrow> unw_word \<times> unw_word \<Rightarrow> mempool \<Rightarrow> pool_memory
    \<Rightarrow> (unw_word \<times> mempool \<times> pool_memory) res" where
  "mempool_alloc pf mem pool m =
     rbind (if mp_num_free pool \<le> mp_reserve pool then expand pf mem pool m else Inr (pool, m)) (\<lambda>(pool, m).
     rbind (check (mp_num_free pool > 0) Aborted) (\<lambda>_.
     let obj = mp_free_list pool in
     rbind (check (obj \<noteq> 0) Out_of_bounds) (\<lambda>_.
     Inr (obj, pool\<lparr>mp_num_free := mp_num_free pool - 1, mp_free_list := pm_word m obj\<rparr>, m))))"

definition mempool_free :: "mempool \<Rightarrow> pool_memory \<Rightarrow> unw_word \<Rightarrow> mempool \<times> pool_memory" where
  "mempool_free pool m object = free_object pool m object"

end
