(* ===== verification/MempoolProps.thy ===== *)
theory MempoolProps
  imports Mempool
begin

text \<open>
  The memory pools hand out every object once: the invariant of the free list, over all sequences
  of allocations, releases and writes of the clients to their objects.
\<close>

section \<open>Rounding\<close>

lemma unat_word_inverse: "word_of_nat (unat w) = (w :: unw_word)"
  by simp

lemma unat_word_less: "unat (w :: unw_word) < 2 ^ 64"
  using unsigned_less [of w] by simp

lemma unat_exp: "k \<le> 30 \<Longrightarrow> unat (2 ^ k :: unw_word) = 2 ^ k"
proof -
  assume "k \<le> 30"
  then have "unat (word_of_nat (2 ^ k) :: unw_word) = 2 ^ k"
    by (simp only: unsigned_of_nat) (simp add: take_bit_nat_eq_self)
  then show ?thesis by simp
qed

lemma unat_and_not_mask:
  fixes w :: unw_word
  assumes "k < 64"
  shows "unat (w AND NOT (2 ^ k - 1)) = unat w div 2 ^ k * 2 ^ k"
proof -
  have "w AND NOT (2 ^ k - 1) = push_bit k (drop_bit k w)"
    using assms by (intro bit_word_eqI) (auto simp: bit_simps simp flip: mask_eq_exp_minus_1)
  moreover have "unat (push_bit k (drop_bit k w)) = unat w div 2 ^ k * 2 ^ k"
  proof -
    have "unat w div 2 ^ k * 2 ^ k \<le> unat w" by simp
    then have "unat w div 2 ^ k * 2 ^ k < 2 ^ 64"
      by (rule le_less_trans [OF _ unat_word_less])
    then show ?thesis
      by (simp only: unsigned_push_bit_eq unat_drop_bit_eq) (simp add: push_bit_eq_mult drop_bit_eq_div
          take_bit_nat_eq_self)
  qed
  ultimately show ?thesis by simp
qed

lemma unat_UNW_ALIGN:
  assumes "k < 64" and "unat x + 2 ^ k \<le> 2 ^ 64"
  shows "unat (UNW_ALIGN x (2 ^ k)) = (unat x + 2 ^ k - 1) div 2 ^ k * 2 ^ k"
proof -
  have p: "(1 :: nat) \<le> 2 ^ k" by simp
  have "x + 2 ^ k - 1 = word_of_nat (unat x + (2 ^ k - 1))"
    by (simp only: of_nat_add of_nat_diff [OF p] of_nat_power of_nat_numeral of_nat_1 unat_word_inverse
        add_diff_eq)
  moreover have "unat x + (2 ^ k - 1) < 2 ^ 64" using assms(2) p by linarith
  ultimately have "unat (x + 2 ^ k - 1) = unat x + 2 ^ k - 1"
    using p by (simp only: unat_of_nat take_bit_nat_eq_self) (simp add: take_bit_nat_eq_self)
  then show ?thesis by (simp add: UNW_ALIGN_def unat_and_not_mask [OF assms(1)])
qed

lemma UNW_ALIGN_bounds:
  assumes "k < 64" and "unat x + 2 ^ k \<le> 2 ^ 64"
  shows "unat x \<le> unat (UNW_ALIGN x (2 ^ k))" "2 ^ k dvd unat (UNW_ALIGN x (2 ^ k))"
    "unat (UNW_ALIGN x (2 ^ k)) < unat x + 2 ^ k"
proof -
  let ?a = "2 ^ k :: nat" and ?y = "unat x + 2 ^ k - 1"
  have d: "?y div ?a * ?a + ?y mod ?a = ?y" by (rule div_mult_mod_eq)
  have m: "?y mod ?a < ?a" by simp
  have p: "(1 :: nat) \<le> ?a" by simp
  show "unat x \<le> unat (UNW_ALIGN x (2 ^ k))" "unat (UNW_ALIGN x (2 ^ k)) < unat x + 2 ^ k"
    "2 ^ k dvd unat (UNW_ALIGN x (2 ^ k))"
    unfolding unat_UNW_ALIGN [OF assms] using d m p by (linarith, linarith, simp)
qed

section \<open>The invariant\<close>

text \<open>The bytes of an object, and a free list in memory.\<close>

definition bytes_of :: "unw_word \<Rightarrow> unw_word \<Rightarrow> nat set" where
  "bytes_of a n = {unat a ..< unat a + unat n}"

fun free_chain :: "(unw_word \<Rightarrow> unw_word) \<Rightarrow> unw_word \<Rightarrow> unw_word list \<Rightarrow> bool" where
  "free_chain word a [] \<longleftrightarrow> a = 0"
| "free_chain word a (x # xs) \<longleftrightarrow> a = x \<and> x \<noteq> 0 \<and> free_chain word (word x) xs"

lemma free_chain_upd: "a \<notin> set xs \<Longrightarrow> free_chain (w(a := v)) h xs = free_chain w h xs"
  by (induction xs arbitrary: h) auto

text \<open>
  Objects lie apart from each other, within the address space, at aligned addresses, and outside
  of a set of bytes that are not yet used.
\<close>

definition placed :: "unw_word \<Rightarrow> nat set \<Rightarrow> unw_word set \<Rightarrow> bool" where
  "placed n unused objs \<longleftrightarrow>
     (\<forall>x \<in> objs. x \<noteq> 0 \<and> 16 dvd unat x \<and> unat x + unat n \<le> 2 ^ 64 \<and> bytes_of x n \<inter> unused = {})
     \<and> (\<forall>x \<in> objs. \<forall>y \<in> objs. x \<noteq> y \<longrightarrow> bytes_of x n \<inter> bytes_of y n = {})"

text \<open>The pool with the objects in use and the bytes that it has not used yet.\<close>

definition pool_inv :: "mempool \<Rightarrow> pool_memory \<Rightarrow> unw_word set \<Rightarrow> nat set \<Rightarrow> bool" where
  "pool_inv pool m used unused \<longleftrightarrow>
     (\<exists>free. free_chain (pm_word m) (mp_free_list pool) free \<and> distinct free \<and> set free \<inter> used = {}
        \<and> length free = unat (mp_num_free pool) \<and> placed (mp_obj_size pool) unused (set free \<union> used))"

lemma placed_mono: "placed n unused objs \<Longrightarrow> unused' \<subseteq> unused \<Longrightarrow> placed n unused' objs"
  unfolding placed_def by blast

lemma pool_inv_mono: "pool_inv pool m used unused \<Longrightarrow> unused' \<subseteq> unused \<Longrightarrow> pool_inv pool m used unused'"
  unfolding pool_inv_def using placed_mono by blast

lemma placed_insert:
  assumes "placed n unused objs" and "bytes_of x n \<subseteq> unused" and "x \<noteq> 0" and "16 dvd unat x"
    and "unat x + unat n \<le> 2 ^ 64"
  shows "placed n (unused - bytes_of x n) (insert x objs)"
  using assms unfolding placed_def by blast

lemma placed_fresh:
  assumes "placed n unused objs" and "bytes_of x n \<subseteq> unused" and "n \<noteq> 0"
  shows "x \<notin> objs"
proof
  assume "x \<in> objs"
  then have "bytes_of x n \<inter> unused = {}" using assms(1) by (simp add: placed_def)
  moreover have "unat x \<in> bytes_of x n" using assms(3) by (simp add: bytes_of_def unat_gt_0)
  ultimately show False using assms(2) by blast
qed

section \<open>Adding memory\<close>

lemma free_object_inv:
  assumes inv: "pool_inv pool m used unused" and sub: "bytes_of x (mp_obj_size pool) \<subseteq> unused"
    and x: "x \<noteq> 0" "16 dvd unat x" "unat x + unat (mp_obj_size pool) \<le> 2 ^ 64"
    and n: "mp_obj_size pool \<noteq> 0" and room: "unat (mp_num_free pool) + 1 < 2 ^ 64"
    and s: "free_object pool m x = (pool', m')"
  shows "pool_inv pool' m' used (unused - bytes_of x (mp_obj_size pool))"
proof -
  obtain free where f: "free_chain (pm_word m) (mp_free_list pool) free" "distinct free"
    "set free \<inter> used = {}" "length free = unat (mp_num_free pool)"
    "placed (mp_obj_size pool) unused (set free \<union> used)"
    using inv unfolding pool_inv_def by blast
  have new: "x \<notin> set free \<union> used" by (rule placed_fresh [OF f(5) sub n])
  have e: "pool' = pool\<lparr>mp_free_list := x, mp_num_free := mp_num_free pool + 1\<rparr>"
    "m' = m\<lparr>pm_word := (pm_word m)(x := mp_free_list pool)\<rparr>"
    using s by (simp_all add: free_object_def)
  have "unat (mp_num_free pool + 1) = unat (mp_num_free pool) + 1"
    using room by (simp add: unat_word_ariths)
  moreover have "free_chain (pm_word m') x (x # free)"
    using f(1) new x(1) by (simp add: e free_chain_upd)
  ultimately show ?thesis
    unfolding pool_inv_def using f new placed_insert [OF f(5) sub x]
    by (intro exI [of _ "x # free"]) (simp add: e)
qed

text \<open>
  The objects of a pool are disjoint parts of the address space, so there are fewer of them than
  addresses.
\<close>

lemma placed_card:
  assumes "placed n unused objs" and "n \<ge> 16"
  shows "card objs \<le> 2 ^ 60"
proof -
  let ?f = "\<lambda>x. unat (x :: unw_word) div 16"
  have "inj_on ?f objs"
  proof (rule inj_onI)
    fix x y assume "x \<in> objs" "y \<in> objs" and e: "?f x = ?f y"
    then have "16 dvd unat x" "16 dvd unat y" using assms(1) by (simp_all add: placed_def)
    then have "unat x = unat y" using e by (metis dvd_div_mult_self)
    then show "x = y" by (rule unsigned_word_eqI)
  qed
  moreover have "?f ` objs \<subseteq> {..< 2 ^ 60}"
  proof -
    have "unat x div 16 < 2 ^ 60" for x :: unw_word
      using unat_word_less [of x] by simp
    then show ?thesis by auto
  qed
  ultimately have "card objs \<le> card {..< 2 ^ 60 :: nat}"
    by (intro card_inj_on_le) simp_all
  then show ?thesis by simp
qed

lemma pool_inv_num_free:
  assumes "pool_inv pool m used unused" and "mp_obj_size pool \<ge> 16"
  shows "unat (mp_num_free pool) \<le> 2 ^ 60"
proof -
  obtain free where f: "distinct free" "length free = unat (mp_num_free pool)"
    "placed (mp_obj_size pool) unused (set free \<union> used)"
    using assms(1) unfolding pool_inv_def by blast
  have "placed (mp_obj_size pool) unused (set free)"
    using f(3) unfolding placed_def by blast
  then show ?thesis using placed_card [OF _ assms(2)] f(1,2) distinct_card by fastforce
qed


text \<open>
  The loop of \<open>add_memory\<close>: as long as it has memory for at least one object, it ends, and every
  object it adds keeps the invariant.
\<close>

lemma add_objects_inv:
  assumes "pool_inv pool m used unused" and "mp_obj_size pool = n" and "16 \<le> n" and "16 dvd unat n"
    and "x \<noteq> 0" and "16 dvd unat x" and "unat last_obj + 2 * unat n \<le> 2 ^ 64"
    and "{unat x ..< unat last_obj + unat n} \<subseteq> unused"
  shows "\<exists>pool' m'. add_objects last_obj n x (pool, m) = Some (Inr (pool', m'))
    \<and> pool_inv pool' m' used (unused - {unat x ..< unat last_obj + unat n})
    \<and> pool' = pool\<lparr>mp_num_free := mp_num_free pool', mp_free_list := mp_free_list pool'\<rparr>
    \<and> mp_num_free pool \<le> mp_num_free pool' \<and> (x \<le> last_obj \<longrightarrow> mp_num_free pool < mp_num_free pool')
    \<and> sos_freepos m' = sos_freepos m \<and> (\<forall>a. unat a \<notin> unused \<longrightarrow> pm_word m' a = pm_word m a)"
  using assms
proof (induction "unat last_obj + unat n - unat x" arbitrary: pool m x unused rule: less_induct)
  case less
  show ?case
  proof (cases "x \<le> last_obj")
    case False
    then have "\<not> unat x < unat last_obj + unat n \<or> unat last_obj < unat x" by (simp add: word_le_nat_alt)
    with False show ?thesis
      using less.prems(1) pool_inv_mono [OF less.prems(1)]
      by (subst add_objects.simps) (auto intro!: exI)
  next
    case True
    obtain p1 m1 where s: "free_object pool m x = (p1, m1)" by fastforce
    have le: "unat x \<le> unat last_obj" using True by (simp add: word_le_nat_alt)
    have n: "unat n \<ge> 16" using less.prems(3) by (simp add: word_le_nat_alt)
    have nx: "unat (x + n) = unat x + unat n"
      using le n less.prems(7) by (simp add: unat_word_ariths)
    have sub: "bytes_of x n \<subseteq> unused"
      using less.prems(8) le n by (auto simp: bytes_of_def)
    have few: "unat (mp_num_free pool) + 1 < 2 ^ 64"
      using pool_inv_num_free [OF less.prems(1)] less.prems(2,3) by simp
    have one: "pool_inv p1 m1 used (unused - bytes_of x n)"
      using free_object_inv [OF less.prems(1) _ less.prems(5,6) _ _ few s] sub le n less.prems(2,7)
      by fastforce
    have p1: "mp_obj_size p1 = n" "p1 = pool\<lparr>mp_num_free := mp_num_free pool + 1, mp_free_list := x\<rparr>"
      "sos_freepos m1 = sos_freepos m" "pm_word m1 = (pm_word m)(x := mp_free_list pool)"
      using s less.prems(2) by (auto simp: free_object_def)
    have up: "mp_num_free pool < mp_num_free p1"
      using few p1(2) by (simp add: word_less_nat_alt unat_word_ariths)
    have ne: "x + n \<noteq> 0" using nx n by (metis unat_0 add_is_0 not_numeral_le_zero)
    have al: "16 dvd unat (x + n)" using nx less.prems(4,6) by simp
    have todo: "{unat (x + n) ..< unat last_obj + unat n} \<subseteq> unused - bytes_of x n"
      using less.prems(8) nx by (auto simp: bytes_of_def)
    have dec: "unat last_obj + unat n - unat (x + n) < unat last_obj + unat n - unat x"
      using nx n le by simp
    obtain p2 m2 where r: "add_objects last_obj n (x + n) (p1, m1) = Some (Inr (p2, m2))"
      "pool_inv p2 m2 used (unused - bytes_of x n - {unat (x + n) ..< unat last_obj + unat n})"
      "p2 = p1\<lparr>mp_num_free := mp_num_free p2, mp_free_list := mp_free_list p2\<rparr>"
      "mp_num_free p1 \<le> mp_num_free p2" "sos_freepos m2 = sos_freepos m1"
      "\<forall>a. unat a \<notin> unused - bytes_of x n \<longrightarrow> pm_word m2 a = pm_word m1 a"
      using less.hyps [OF dec one p1(1) less.prems(3,4) ne al less.prems(7) todo] by (elim exE conjE) rule
    have "add_objects last_obj n x (pool, m) = Some (Inr (p2, m2))"
      using True r(1) s by (subst add_objects.simps) simp
    moreover have "unused - bytes_of x n - {unat (x + n) ..< unat last_obj + unat n}
        = unused - {unat x ..< unat last_obj + unat n}"
      using nx n le by (auto simp: bytes_of_def)
    moreover have "p2 = pool\<lparr>mp_num_free := mp_num_free p2, mp_free_list := mp_free_list p2\<rparr>"
      using r(3) p1(2) by (metis (no_types) mempool.surjective mempool.update_convs(4,5))
    moreover have "mp_num_free pool < mp_num_free p2" using up r(4) by simp
    moreover have "unat x \<in> unused" using sub n by (auto simp: bytes_of_def)
    then have "pm_word m2 a = pm_word m a" if "unat a \<notin> unused" for a
      using r(6) p1(4) that by auto
    ultimately show ?thesis using r(2,5) p1(3) by (simp add: order_less_imp_le)
  qed
qed


section \<open>Expansion\<close>

text \<open>
  A platform: pages of a power of two, and \<open>sos_memory\<close> at an aligned address of the lower half of
  the address space; the sizes of a pool; and the bytes of \<open>sos_memory\<close> that have been handed out.
\<close>

definition platform_ok :: "pool_platform \<Rightarrow> bool" where
  "platform_ok pf \<longleftrightarrow> (\<exists>k. 4 \<le> k \<and> k \<le> 30 \<and> page_size pf = 2 ^ k) \<and> sos_memory pf \<noteq> 0
     \<and> 16 dvd unat (sos_memory pf) \<and> unat (sos_memory pf) + unat (sos_size pf) \<le> 2 ^ 62"

definition pool_sizes :: "mempool \<Rightarrow> bool" where
  "pool_sizes pool \<longleftrightarrow> 16 dvd unat (mp_obj_size pool) \<and> 16 \<le> mp_obj_size pool
     \<and> mp_obj_size pool \<le> mp_chunk_size pool \<and> unat (mp_obj_size pool) \<le> 2 ^ 40"

definition sos_array :: "pool_platform \<Rightarrow> nat set" where
  "sos_array pf = bytes_of (sos_memory pf) (sos_size pf)"

definition sos_taken :: "pool_platform \<Rightarrow> pool_memory \<Rightarrow> nat set" where
  "sos_taken pf m = bytes_of (sos_memory pf) (sos_freepos m)"

text \<open>
  The memory that \<open>expand\<close> gets from the system: what the system maps is new, aligned and in the lower
  half of the address space.
\<close>

definition grant :: "pool_platform \<Rightarrow> mempool \<Rightarrow> unw_word \<times> unw_word \<Rightarrow> nat set" where
  "grant pf pool mem =
     (if fst mem \<noteq> 0 then bytes_of (fst mem) (mp_chunk_size pool)
      else if snd mem \<noteq> 0 then bytes_of (snd mem) (UNW_ALIGN (mp_obj_size pool) (page_size pf)) else {})"

definition granted :: "pool_platform \<Rightarrow> nat set \<Rightarrow> mempool \<Rightarrow> unw_word \<times> unw_word \<Rightarrow> bool" where
  "granted pf mapped pool mem \<longleftrightarrow> grant pf pool mem \<inter> (mapped \<union> sos_array pf) = {}
     \<and> (\<forall>b \<in> grant pf pool mem. b < 2 ^ 62) \<and> 16 dvd unat (fst mem) \<and> 16 dvd unat (snd mem)"

text \<open>The invariant over the bytes of the system and of \<open>sos_memory\<close>.\<close>

definition whole_inv ::
  "pool_platform \<Rightarrow> mempool \<Rightarrow> pool_memory \<Rightarrow> unw_word set \<Rightarrow> nat set \<Rightarrow> bool" where
  "whole_inv pf pool m used mapped \<longleftrightarrow> pool_sizes pool \<and> mapped \<inter> sos_array pf = {}
     \<and> sos_freepos m \<le> sos_size pf \<and> 16 dvd unat (sos_freepos m)
     \<and> pool_inv pool m used (- (mapped \<union> sos_taken pf m))"

lemma add_memory_inv:
  assumes inv: "pool_inv pool m used unused" and sz: "pool_sizes pool" and mem: "mem \<noteq> 0" "16 dvd unat mem"
    and n: "mp_obj_size pool \<le> n" and top: "unat mem + unat n \<le> 2 ^ 62" and sub: "bytes_of mem n \<subseteq> unused"
  shows "\<exists>pool' m'. add_memory pool m mem n (mp_obj_size pool) = Inr (pool', m')
    \<and> pool_inv pool' m' used (unused - bytes_of mem n)
    \<and> pool' = pool\<lparr>mp_num_free := mp_num_free pool', mp_free_list := mp_free_list pool'\<rparr>
    \<and> mp_num_free pool' > 0
    \<and> sos_freepos m' = sos_freepos m \<and> (\<forall>a. unat a \<notin> unused \<longrightarrow> pm_word m' a = pm_word m a)"
proof -
  let ?s = "mp_obj_size pool" and ?l = "mem + n - mp_obj_size pool"
  have s: "16 \<le> ?s" "16 dvd unat ?s" "unat ?s \<le> 2 ^ 40" "unat ?s \<le> unat n"
    using sz n by (simp_all add: pool_sizes_def word_le_nat_alt)
  have "unat (mem + n) = unat mem + unat n" using top by (simp add: unat_word_ariths)
  then have l: "unat ?l = unat mem + unat n - unat ?s"
    using s(4) by (subst unat_sub) (simp_all add: word_le_nat_alt)
  have e: "{unat mem ..< unat ?l + unat ?s} = bytes_of mem n"
    using l s(4) by (simp add: bytes_of_def)
  have le: "mem \<le> ?l" using l s(4) by (simp add: word_le_nat_alt)
  have t: "unat ?l + 2 * unat ?s \<le> 2 ^ 64" using l top s(3,4) by simp
  obtain pool' m' where r: "add_objects ?l ?s mem (pool, m) = Some (Inr (pool', m'))"
    "pool_inv pool' m' used (unused - bytes_of mem n)"
    "pool' = pool\<lparr>mp_num_free := mp_num_free pool', mp_free_list := mp_free_list pool'\<rparr>"
    "mp_num_free pool < mp_num_free pool'" "sos_freepos m' = sos_freepos m"
    "\<forall>a. unat a \<notin> unused \<longrightarrow> pm_word m' a = pm_word m a"
    using add_objects_inv [OF inv refl s(1,2) mem t, unfolded e, OF sub] le by blast
  have "mp_num_free pool' > 0" using r(4) by (metis word_gt_0 word_not_simps(1))
  with r show ?thesis by (simp add: add_memory_def)
qed

lemma sos_alloc_pos:
  assumes pf: "platform_ok pf" and pos: "sos_freepos m \<le> sos_size pf" "16 dvd unat (sos_freepos m)"
    and n: "unat n \<le> 2 ^ 40" and r: "sos_alloc pf m n = Inr (a, m')"
  shows "a = sos_memory pf + sos_freepos m" "m' = m\<lparr>sos_freepos := sos_freepos m + UNW_ALIGN n 16\<rparr>"
    "unat (sos_freepos m + UNW_ALIGN n 16) = unat (sos_freepos m) + unat (UNW_ALIGN n 16)"
    "sos_freepos m' \<le> sos_size pf" "16 dvd unat (sos_freepos m')"
proof -
  have al: "16 dvd unat (UNW_ALIGN n 16)" "unat (UNW_ALIGN n 16) < unat n + 16"
    using UNW_ALIGN_bounds [of 4 n] n by simp_all
  have "unat (sos_freepos m) \<le> 2 ^ 62" using pf pos(1) by (simp add: platform_ok_def word_le_nat_alt)
  then show u: "unat (sos_freepos m + UNW_ALIGN n 16) = unat (sos_freepos m) + unat (UNW_ALIGN n 16)"
    using al(2) n by (simp add: unat_word_ariths)
  show "a = sos_memory pf + sos_freepos m" and m': "m' = m\<lparr>sos_freepos := sos_freepos m + UNW_ALIGN n 16\<rparr>"
    and "sos_freepos m' \<le> sos_size pf"
    using r by (auto simp: sos_alloc_def Let_def MAX_ALIGN_def check_def split: if_splits)
  show "16 dvd unat (sos_freepos m')" using al(1) pos(2) u by (simp add: m')
qed


text \<open>
  What an expansion achieves, whether its memory comes from the system or from \<open>sos_memory\<close>.
\<close>

definition expanded ::
  "pool_platform \<Rightarrow> mempool \<Rightarrow> pool_memory \<Rightarrow> unw_word set \<Rightarrow> nat set \<Rightarrow> mempool \<Rightarrow> pool_memory \<Rightarrow> bool" where
  "expanded pf pool m used mapped pool' m' \<longleftrightarrow> whole_inv pf pool' m' used mapped
     \<and> mp_obj_size pool' = mp_obj_size pool \<and> mp_num_free pool' > 0
     \<and> (\<forall>u \<in> used. \<forall>a. unat a \<in> bytes_of u (mp_obj_size pool) \<longrightarrow> pm_word m' a = pm_word m a)"

lemma expandedI:
  assumes inv: "whole_inv pf pool m used mapped"
    and new: "pool_inv pool' m' used (- (mapped' \<union> sos_taken pf m'))"
    and pool': "pool' = pool\<lparr>mp_num_free := mp_num_free pool', mp_free_list := mp_free_list pool'\<rparr>"
    and "mp_num_free pool' > 0" and "mapped' \<inter> sos_array pf = {}"
    and "sos_freepos m' \<le> sos_size pf" "16 dvd unat (sos_freepos m')"
    and same: "\<forall>a. unat a \<notin> - (mapped \<union> sos_taken pf m) \<longrightarrow> pm_word m' a = pm_word m a"
  shows "expanded pf pool m used mapped' pool' m'"
proof -
  have sz: "mp_obj_size pool' = mp_obj_size pool" "mp_chunk_size pool' = mp_chunk_size pool"
    by (subst pool', simp)+
  have "pm_word m' a = pm_word m a" if "u \<in> used" "unat a \<in> bytes_of u (mp_obj_size pool)" for u a
  proof -
    have "bytes_of u (mp_obj_size pool) \<inter> - (mapped \<union> sos_taken pf m) = {}"
      using inv that(1) unfolding whole_inv_def pool_inv_def placed_def by blast
    then show ?thesis using that(2) same by blast
  qed
  then show ?thesis using assms sz by (simp add: expanded_def whole_inv_def pool_sizes_def)
qed

lemma expand_mapped:
  assumes inv: "whole_inv pf pool m used mapped" and mem: "mem \<noteq> 0" "16 dvd unat mem"
    and n: "mp_obj_size pool \<le> n" and new: "bytes_of mem n \<inter> (mapped \<union> sos_array pf) = {}"
    and low: "\<forall>b \<in> bytes_of mem n. b < 2 ^ 62"
  shows "\<exists>pool' m'. add_memory pool m mem n (mp_obj_size pool) = Inr (pool', m')
    \<and> expanded pf pool m used (mapped \<union> bytes_of mem n) pool' m'"
proof -
  have w: "pool_sizes pool" "mapped \<inter> sos_array pf = {}" "sos_freepos m \<le> sos_size pf"
    "16 dvd unat (sos_freepos m)" "pool_inv pool m used (- (mapped \<union> sos_taken pf m))"
    using inv by (simp_all add: whole_inv_def)
  have pos: "unat n > 0"
    using n w(1) by (auto simp: pool_sizes_def word_le_nat_alt)
  have "unat mem + unat n - 1 \<in> bytes_of mem n" using pos by (auto simp: bytes_of_def)
  then have top: "unat mem + unat n \<le> 2 ^ 62" using low pos by fastforce
  have taken: "sos_taken pf m \<subseteq> sos_array pf"
    using w(3) by (auto simp: sos_taken_def sos_array_def bytes_of_def word_le_nat_alt)
  have sub: "bytes_of mem n \<subseteq> - (mapped \<union> sos_taken pf m)" using new taken by blast
  obtain pool' m' where r: "add_memory pool m mem n (mp_obj_size pool) = Inr (pool', m')"
    "pool_inv pool' m' used (- (mapped \<union> sos_taken pf m) - bytes_of mem n)"
    "pool' = pool\<lparr>mp_num_free := mp_num_free pool', mp_free_list := mp_free_list pool'\<rparr>"
    "mp_num_free pool' > 0" "sos_freepos m' = sos_freepos m"
    "\<forall>a. unat a \<notin> - (mapped \<union> sos_taken pf m) \<longrightarrow> pm_word m' a = pm_word m a"
    using add_memory_inv [OF w(5,1) mem n top sub] by blast
  have "- (mapped \<union> sos_taken pf m) - bytes_of mem n = - (mapped \<union> bytes_of mem n \<union> sos_taken pf m')"
    using r(5) by (auto simp: sos_taken_def)
  then have "expanded pf pool m used (mapped \<union> bytes_of mem n) pool' m'"
    using r w(2,3,4) new by (intro expandedI [OF inv]) auto
  with r(1) show ?thesis by blast
qed

lemma expand_sos:
  assumes pf: "platform_ok pf" and inv: "whole_inv pf pool m used mapped"
    and r: "sos_alloc pf m (mp_obj_size pool) = Inr (mem, m1)"
  shows "\<exists>pool' m'. add_memory pool m1 mem (mp_obj_size pool) (mp_obj_size pool) = Inr (pool', m')
    \<and> expanded pf pool m used mapped pool' m'"
proof -
  let ?n = "mp_obj_size pool"
  have w: "pool_sizes pool" "mapped \<inter> sos_array pf = {}" "sos_freepos m \<le> sos_size pf"
    "16 dvd unat (sos_freepos m)" "pool_inv pool m used (- (mapped \<union> sos_taken pf m))"
    using inv by (simp_all add: whole_inv_def)
  have n: "unat ?n \<le> 2 ^ 40" "16 dvd unat ?n" using w(1) by (simp_all add: pool_sizes_def)
  have al: "UNW_ALIGN ?n 16 = ?n"
  proof (rule unsigned_word_eqI)
    have b: "unat ?n \<le> unat (UNW_ALIGN ?n 16)" "16 dvd unat (UNW_ALIGN ?n 16)"
      "unat (UNW_ALIGN ?n 16) < unat ?n + 16"
      using UNW_ALIGN_bounds [of 4 ?n] n by simp_all
    then show "unat (UNW_ALIGN ?n 16) = unat ?n" using n(2) by presburger
  qed
  have s: "mem = sos_memory pf + sos_freepos m" "m1 = m\<lparr>sos_freepos := sos_freepos m + ?n\<rparr>"
    "unat (sos_freepos m + ?n) = unat (sos_freepos m) + unat ?n" "sos_freepos m1 \<le> sos_size pf"
    "16 dvd unat (sos_freepos m1)"
    using sos_alloc_pos [OF pf w(3,4) n(1) r] al by simp_all
  have p: "unat (sos_memory pf) + unat (sos_size pf) \<le> 2 ^ 62" "sos_memory pf \<noteq> 0"
    "16 dvd unat (sos_memory pf)"
    using pf by (simp_all add: platform_ok_def)
  have pos: "unat (sos_freepos m) + unat ?n \<le> unat (sos_size pf)"
    using s(2,3,4) by (simp add: word_le_nat_alt)
  have um: "unat mem = unat (sos_memory pf) + unat (sos_freepos m)"
    unfolding s(1) using p(1) pos by (simp add: unat_word_ariths)
  have mem: "mem \<noteq> 0" "16 dvd unat mem"
    using um p(2,3) w(4) by (metis add_is_0 unat_0 unat_eq_zero, simp)
  have b: "bytes_of mem ?n \<inter> sos_taken pf m = {}" "bytes_of mem ?n \<subseteq> sos_array pf"
    "sos_taken pf m1 = sos_taken pf m \<union> bytes_of mem ?n"
    using pos by (auto simp: bytes_of_def sos_taken_def sos_array_def um s(2,3))
  have inv1: "pool_inv pool m1 used (- (mapped \<union> sos_taken pf m))"
    using w(5) by (simp add: pool_inv_def s(2))
  have sub: "bytes_of mem ?n \<subseteq> - (mapped \<union> sos_taken pf m)" using b(1,2) w(2) by blast
  have top: "unat mem + unat ?n \<le> 2 ^ 62" using um pos p(1) by simp
  obtain pool' m' where a: "add_memory pool m1 mem ?n ?n = Inr (pool', m')"
    "pool_inv pool' m' used (- (mapped \<union> sos_taken pf m) - bytes_of mem ?n)"
    "pool' = pool\<lparr>mp_num_free := mp_num_free pool', mp_free_list := mp_free_list pool'\<rparr>"
    "mp_num_free pool' > 0" "sos_freepos m' = sos_freepos m1"
    "\<forall>a. unat a \<notin> - (mapped \<union> sos_taken pf m) \<longrightarrow> pm_word m' a = pm_word m1 a"
    using add_memory_inv [OF inv1 w(1) mem order_refl top sub] by blast
  have "- (mapped \<union> sos_taken pf m) - bytes_of mem ?n = - (mapped \<union> sos_taken pf m')"
    using a(5) b(3) by (auto simp: sos_taken_def)
  then have "expanded pf pool m used mapped pool' m'"
    using a w(2) s(2,4,5) by (intro expandedI [OF inv]) auto
  with a(1) show ?thesis by blast
qed

text \<open>The sizes of a pool are fixed.\<close>

lemma add_objects_sizes:
  assumes "add_objects last_obj n x s = Some r" and "r = Inr s'"
  shows "mp_obj_size (fst s') = mp_obj_size (fst s) \<and> mp_chunk_size (fst s') = mp_chunk_size (fst s)"
  using assms
proof (induction rule: add_objects.raw_induct [rotated, consumes 1])
  case (1 loop last_obj n x s r)
  show ?case
  proof (cases "x \<le> last_obj")
    case True
    then show ?thesis using 1(2,3) 1(1) [of last_obj n "x + n"] by (simp add: free_object_def)
  next
    case False
    then show ?thesis using 1(2,3) by auto
  qed
qed

lemma expand_sizes:
  assumes "expand pf mem pool m = Inr (pool', m')"
  shows "mp_obj_size pool' = mp_obj_size pool \<and> mp_chunk_size pool' = mp_chunk_size pool"
proof -
  have "mp_obj_size p' = mp_obj_size pool \<and> mp_chunk_size p' = mp_chunk_size pool"
    if "add_memory pool m a n s = Inr (p', m')" for m a n s p' m'
    using that add_objects_sizes [of "a + n - s" s a "(pool, m)" _ "(p', m')"]
    by (auto simp: add_memory_def returns_def split: option.splits)
  then show ?thesis
    using assms by (auto simp: expand_def Let_def res_iff split: if_splits)
qed

text \<open>An expansion fails only when the system has no memory and \<open>sos_memory\<close> is used up.\<close>

lemma expand_inv:
  assumes pf: "platform_ok pf" and inv: "whole_inv pf pool m used mapped" and g: "granted pf mapped pool mem"
  shows "(\<exists>pool' m'. expand pf mem pool m = Inr (pool', m')
      \<and> expanded pf pool m used (mapped \<union> grant pf pool mem) pool' m')
    \<or> expand pf mem pool m = Inl Aborted \<and> fst mem = 0 \<and> snd mem = 0"
proof -
  have sz: "pool_sizes pool" using inv by (simp add: whole_inv_def)
  have page: "mp_obj_size pool \<le> UNW_ALIGN (mp_obj_size pool) (page_size pf)"
  proof -
    obtain k where k: "k \<le> 30" "page_size pf = 2 ^ k" using pf by (auto simp: platform_ok_def)
    have "(2 :: nat) ^ k \<le> 2 ^ 30" by (rule power_increasing [OF k(1)]) simp
    then have "unat (mp_obj_size pool) + 2 ^ k \<le> 2 ^ 64"
      using sz by (simp add: pool_sizes_def)
    then show ?thesis using UNW_ALIGN_bounds(1) [of k "mp_obj_size pool"] k by (simp add: word_le_nat_alt)
  qed
  consider "fst mem \<noteq> 0" | "fst mem = 0" "snd mem \<noteq> 0" | "fst mem = 0" "snd mem = 0" by blast
  then show ?thesis
  proof cases
    case 1
    then show ?thesis
      using expand_mapped [OF inv 1, of "mp_chunk_size pool"] g sz
      by (auto simp: expand_def Let_def granted_def grant_def pool_sizes_def)
  next
    case 2
    then show ?thesis
      using expand_mapped [OF inv 2(2) _ page] g
      by (auto simp: expand_def Let_def granted_def grant_def)
  next
    case 3
    show ?thesis
    proof (cases "sos_alloc pf m (mp_obj_size pool)")
      case (Inl f)
      then have "f = Aborted" by (auto simp: sos_alloc_def Let_def check_def split: if_splits)
      then show ?thesis using 3 Inl by (simp add: expand_def Let_def)
    next
      case (Inr r)
      then show ?thesis
        using 3 expand_sos [OF pf inv, of "fst r" "snd r"] by (cases r) (auto simp: expand_def Let_def grant_def)
    qed
  qed
qed


section \<open>All histories of a pool\<close>

text \<open>
  The states of a pool after its initialisation: allocations and releases in any order, writes of
  the clients to the objects they hold, and other uses of \<open>sos_memory\<close>. The state has the objects in
  use and the bytes that the system has mapped.
\<close>

definition grown :: "pool_platform \<Rightarrow> mempool \<Rightarrow> unw_word \<times> unw_word \<Rightarrow> nat set \<Rightarrow> nat set" where
  "grown pf pool mem mapped =
     (if mp_num_free pool \<le> mp_reserve pool then mapped \<union> grant pf pool mem else mapped)"

definition fresh_memory :: "pool_platform \<Rightarrow> pool_memory \<Rightarrow> nat set \<Rightarrow> bool" where
  "fresh_memory pf m mapped \<longleftrightarrow> mapped \<inter> sos_array pf = {} \<and> sos_freepos m \<le> sos_size pf
     \<and> 16 dvd unat (sos_freepos m)"

inductive pool_run ::
  "pool_platform \<Rightarrow> mempool \<times> pool_memory \<times> unw_word set \<times> nat set \<Rightarrow> bool"
for pf where
  init: "mempool_init pf mem m n r = Inr (pool, m') \<Longrightarrow> fresh_memory pf m mapped \<Longrightarrow> granted pf mapped pool mem
    \<Longrightarrow> 0 < n \<Longrightarrow> n \<le> 2 ^ 32 \<Longrightarrow> r \<le> 2 ^ 20 \<Longrightarrow> pool_run pf (pool, m', {}, mapped \<union> grant pf pool mem)"
| alloc: "pool_run pf (pool, m, used, mapped) \<Longrightarrow> granted pf mapped pool mem
    \<Longrightarrow> mempool_alloc pf mem pool m = Inr (x, pool', m')
    \<Longrightarrow> pool_run pf (pool', m', insert x used, grown pf pool mem mapped)"
| free: "pool_run pf (pool, m, used, mapped) \<Longrightarrow> x \<in> used \<Longrightarrow> mempool_free pool m x = (pool', m')
    \<Longrightarrow> pool_run pf (pool', m', used - {x}, mapped)"
| use: "pool_run pf (pool, m, used, mapped) \<Longrightarrow> x \<in> used \<Longrightarrow> unat a \<in> bytes_of x (mp_obj_size pool)
    \<Longrightarrow> pool_run pf (pool, m\<lparr>pm_word := (pm_word m)(a := w)\<rparr>, used, mapped)"
| sos: "pool_run pf (pool, m, used, mapped) \<Longrightarrow> sos_alloc pf m n = Inr (a, m') \<Longrightarrow> n \<le> 2 ^ 32
    \<Longrightarrow> pool_run pf (pool, m', used, mapped)"

lemma take_first:
  assumes inv: "whole_inv pf pool m used mapped" and some: "mp_num_free pool > 0"
  shows "mp_free_list pool \<noteq> 0" "mp_free_list pool \<notin> used" "16 dvd unat (mp_free_list pool)"
    "\<forall>u \<in> used. bytes_of u (mp_obj_size pool) \<inter> bytes_of (mp_free_list pool) (mp_obj_size pool) = {}"
    "whole_inv pf (pool\<lparr>mp_num_free := mp_num_free pool - 1, mp_free_list := pm_word m (mp_free_list pool)\<rparr>)
       m (insert (mp_free_list pool) used) mapped"
proof -
  obtain free where f: "free_chain (pm_word m) (mp_free_list pool) free" "distinct free"
    "set free \<inter> used = {}" "length free = unat (mp_num_free pool)"
    "placed (mp_obj_size pool) (- (mapped \<union> sos_taken pf m)) (set free \<union> used)"
    using inv unfolding whole_inv_def pool_inv_def by blast
  obtain x xs where free: "free = x # xs" using f(4) some by (cases free) (auto simp: unat_eq_zero)
  have x: "mp_free_list pool = x" "x \<noteq> 0" "free_chain (pm_word m) (pm_word m x) xs"
    using f(1) free by auto
  show "mp_free_list pool \<noteq> 0" "mp_free_list pool \<notin> used" "16 dvd unat (mp_free_list pool)"
    using x f(3,5) free by (auto simp: placed_def)
  show "\<forall>u \<in> used. bytes_of u (mp_obj_size pool) \<inter> bytes_of (mp_free_list pool) (mp_obj_size pool) = {}"
    using f(3,5) free x(1) unfolding placed_def by (metis UnCI disjoint_iff list.set_intros(1))
  have "unat (mp_num_free pool - 1) = length xs"
    using some f(4) free by (simp add: unat_minus_one word_gt_0)
  then have "pool_inv (pool\<lparr>mp_num_free := mp_num_free pool - 1, mp_free_list := pm_word m (mp_free_list pool)\<rparr>)
      m (insert (mp_free_list pool) used) (- (mapped \<union> sos_taken pf m))"
    using f free x unfolding pool_inv_def by (intro exI [of _ xs]) (auto simp: insert_commute)
  then show "whole_inv pf (pool\<lparr>mp_num_free := mp_num_free pool - 1,
      mp_free_list := pm_word m (mp_free_list pool)\<rparr>) m (insert (mp_free_list pool) used) mapped"
    using inv by (simp add: whole_inv_def pool_sizes_def)
qed

lemma alloc_inv:
  assumes pf: "platform_ok pf" and inv: "whole_inv pf pool m used mapped" and g: "granted pf mapped pool mem"
  shows "(\<exists>x pool' m'. mempool_alloc pf mem pool m = Inr (x, pool', m')
      \<and> whole_inv pf pool' m' (insert x used) (grown pf pool mem mapped)
      \<and> x \<noteq> 0 \<and> x \<notin> used \<and> 16 dvd unat x
      \<and> (\<forall>u \<in> used. bytes_of u (mp_obj_size pool) \<inter> bytes_of x (mp_obj_size pool) = {}
           \<and> (\<forall>a. unat a \<in> bytes_of u (mp_obj_size pool) \<longrightarrow> pm_word m' a = pm_word m a)))
    \<or> mempool_alloc pf mem pool m = Inl Aborted \<and> mp_num_free pool \<le> mp_reserve pool \<and> fst mem = 0 \<and> snd mem = 0"
proof (cases "mp_num_free pool \<le> mp_reserve pool")
  case True
  from expand_inv [OF pf inv g] show ?thesis
  proof (elim disjE exE conjE)
    fix p1 m1
    assume e: "expand pf mem pool m = Inr (p1, m1)" "expanded pf pool m used (mapped \<union> grant pf pool mem) p1 m1"
    then have i: "whole_inv pf p1 m1 used (mapped \<union> grant pf pool mem)" "mp_num_free p1 > 0"
      "mp_obj_size p1 = mp_obj_size pool"
      by (simp_all add: expanded_def)
    show ?thesis
      using True e i(2) take_first [OF i(1,2)]
      by (intro disjI1) (simp add: mempool_alloc_def Let_def grown_def expanded_def i(3))
  qed (simp add: mempool_alloc_def True)
next
  case False
  then have some: "mp_num_free pool > 0" by (simp add: word_gt_0) (metis word_zero_le)
  show ?thesis
    using False some take_first [OF inv some]
    by (intro disjI1) (simp add: mempool_alloc_def Let_def grown_def)
qed

lemma free_inv:
  assumes inv: "whole_inv pf pool m used mapped" and x: "x \<in> used" and r: "mempool_free pool m x = (pool', m')"
  shows "whole_inv pf pool' m' (used - {x}) mapped"
proof -
  obtain free where f: "free_chain (pm_word m) (mp_free_list pool) free" "distinct free"
    "set free \<inter> used = {}" "length free = unat (mp_num_free pool)"
    "placed (mp_obj_size pool) (- (mapped \<union> sos_taken pf m)) (set free \<union> used)"
    using inv unfolding whole_inv_def pool_inv_def by blast
  have e: "pool' = pool\<lparr>mp_free_list := x, mp_num_free := mp_num_free pool + 1\<rparr>"
    "m' = m\<lparr>pm_word := (pm_word m)(x := mp_free_list pool)\<rparr>"
    using r by (simp_all add: mempool_free_def free_object_def)
  have x0: "x \<noteq> 0" using f(5) x by (auto simp: placed_def)
  have new: "x \<notin> set free" using f(3) x by blast
  have "unat (mp_num_free pool) \<le> 2 ^ 60"
    using pool_inv_num_free inv by (auto simp: whole_inv_def pool_sizes_def)
  then have "unat (mp_num_free pool + 1) = length (x # free)" using f(4) by (simp add: unat_word_ariths)
  moreover have "free_chain (pm_word m') x (x # free)"
    using f(1) new x0 by (simp add: e(2) free_chain_upd)
  moreover have "set (x # free) \<union> (used - {x}) = set free \<union> used" using x by auto
  ultimately have "pool_inv pool' m' (used - {x}) (- (mapped \<union> sos_taken pf m))"
    unfolding pool_inv_def using f(2,3,5) new by (intro exI [of _ "x # free"]) (auto simp: e(1))
  then show ?thesis using inv by (simp add: whole_inv_def e pool_sizes_def sos_taken_def)
qed

lemma use_inv:
  assumes inv: "whole_inv pf pool m used mapped" and x: "x \<in> used" "unat a \<in> bytes_of x (mp_obj_size pool)"
  shows "whole_inv pf pool (m\<lparr>pm_word := (pm_word m)(a := w)\<rparr>) used mapped"
proof -
  obtain free where f: "free_chain (pm_word m) (mp_free_list pool) free" "distinct free"
    "set free \<inter> used = {}" "length free = unat (mp_num_free pool)"
    "placed (mp_obj_size pool) (- (mapped \<union> sos_taken pf m)) (set free \<union> used)"
    using inv unfolding whole_inv_def pool_inv_def by blast
  have "a \<notin> set free"
  proof
    assume a: "a \<in> set free"
    then have "a \<noteq> x" using f(3) x(1) by blast
    then have "bytes_of a (mp_obj_size pool) \<inter> bytes_of x (mp_obj_size pool) = {}"
      using f(5) a x(1) unfolding placed_def by blast
    moreover have "unat a \<in> bytes_of a (mp_obj_size pool)"
      using inv by (auto simp: bytes_of_def whole_inv_def pool_sizes_def word_le_nat_alt)
    ultimately show False using x(2) by blast
  qed
  then have "pool_inv pool (m\<lparr>pm_word := (pm_word m)(a := w)\<rparr>) used (- (mapped \<union> sos_taken pf m))"
    unfolding pool_inv_def using f by (intro exI [of _ free]) (simp add: free_chain_upd)
  then show ?thesis using inv by (simp add: whole_inv_def sos_taken_def)
qed


text \<open>The sizes that \<open>mempool_init\<close> chooses.\<close>

lemma init_reserve:
  assumes pf: "platform_ok pf" and o: "16 \<le> obj_size" and r: "r \<le> 2 ^ 20"
  shows "\<exists>r'. (if r \<noteq> 0 then Inr r
      else rbind (check (obj_size \<noteq> 0) Bad_div) (\<lambda>_.
           let r = page_size pf div obj_size div 4 in Inr (if r = 0 then 16 else r))) = Inr r'
    \<and> 0 < r' \<and> unat r' \<le> 2 ^ 26"
proof -
  obtain k where k: "k \<le> 30" "page_size pf = 2 ^ k" using pf by (auto simp: platform_ok_def)
  have "(2 :: nat) ^ k \<le> 2 ^ 30" by (rule power_increasing [OF k(1)]) simp
  moreover have "unat (page_size pf) = 2 ^ k" using k unat_exp by simp
  ultimately have page: "unat (page_size pf) \<le> 2 ^ 30" by simp
  have "unat (page_size pf div obj_size div 4) \<le> unat (page_size pf) div 16"
  proof -
    have "unat (page_size pf div obj_size div 4) \<le> unat (page_size pf) div unat obj_size"
      by (simp add: unat_div)
    also have "\<dots> \<le> unat (page_size pf) div 16" using o by (intro div_le_mono2) (simp_all add: word_le_nat_alt)
    finally show ?thesis .
  qed
  then have "unat (page_size pf div obj_size div 4) \<le> 2 ^ 26" using page by simp
  moreover have "obj_size \<noteq> 0" using o by auto
  moreover have "unat r \<le> 2 ^ 26" using r by (simp add: word_le_nat_alt)
  ultimately show ?thesis by (auto simp: Let_def word_gt_0)
qed

lemma init_inv:
  assumes pf: "platform_ok pf" and m: "fresh_memory pf m mapped" and g: "granted pf mapped pool mem"
    and n: "0 < n" "n \<le> 2 ^ 32" "r \<le> 2 ^ 20" and i: "mempool_init pf mem m n r = Inr (pool, m')"
  shows "whole_inv pf pool m' {} (mapped \<union> grant pf pool mem)"
proof -
  let ?o = "UNW_ALIGN n MAX_ALIGN"
  have un: "unat n \<le> 2 ^ 32" "unat n > 0" using n by (simp_all add: word_le_nat_alt word_less_nat_alt)
  have o: "unat n \<le> unat ?o" "16 dvd unat ?o" "unat ?o < unat n + 16"
    using UNW_ALIGN_bounds [of 4 n] un by (simp_all add: MAX_ALIGN_def)
  have "16 \<le> unat ?o" using o un by (intro dvd_imp_le) simp_all
  then have o16: "16 \<le> ?o" by (simp add: word_le_nat_alt)
  obtain r' where r': "(if r \<noteq> 0 then Inr r else rbind (check (?o \<noteq> 0) Bad_div) (\<lambda>_.
      let r = page_size pf div ?o div 4 in Inr (if r = 0 then 16 else r))) = Inr r'"
    "0 < r'" "unat r' \<le> 2 ^ 26"
    using init_reserve [OF pf o16 n(3)] by blast
  let ?p0 = "\<lparr>mp_obj_size = ?o, mp_chunk_size = UNW_ALIGN (2 * r' * ?o) (page_size pf),
    mp_reserve = r', mp_num_free = 0, mp_free_list = 0\<rparr>"
  have e: "expand pf mem ?p0 m = Inr (pool, m')"
    using i r'(1) by (simp add: mempool_init_def Let_def)
  obtain k where k: "k \<le> 30" "page_size pf = 2 ^ k" using pf by (auto simp: platform_ok_def)
  have k30: "(2 :: nat) ^ k \<le> 2 ^ 30" by (rule power_increasing [OF k(1)]) simp
  have "unat r' * unat ?o \<le> 2 ^ 26 * 2 ^ 33"
    using r'(3) o(3) un(1) by (intro mult_le_mono) simp_all
  then have c: "unat (2 * r' * ?o) = 2 * (unat r' * unat ?o)" "unat (2 * r' * ?o) \<le> 2 ^ 60"
    using r'(3) by (simp_all add: unat_word_ariths)
  have "unat ?o \<le> unat r' * unat ?o" using r'(2) by (simp add: word_less_nat_alt)
  moreover have "unat (2 * r' * ?o) \<le> unat (UNW_ALIGN (2 * r' * ?o) (page_size pf))"
    unfolding k(2) using c k k30 by (intro UNW_ALIGN_bounds(1)) simp_all
  ultimately have "?o \<le> UNW_ALIGN (2 * r' * ?o) (page_size pf)"
    using c(1) unfolding word_le_nat_alt by linarith
  then have w0: "whole_inv pf ?p0 m {} mapped"
    using m o16 o un by (auto simp: whole_inv_def pool_sizes_def fresh_memory_def pool_inv_def placed_def
        intro!: exI [of _ "[]"])
  have sizes: "mp_obj_size pool = mp_obj_size ?p0 \<and> mp_chunk_size pool = mp_chunk_size ?p0"
    by (rule expand_sizes [OF e])
  then have same: "grant pf ?p0 mem = grant pf pool mem" by (simp add: grant_def)
  then have "granted pf mapped ?p0 mem" using g unfolding granted_def by simp
  then show ?thesis using expand_inv [OF pf w0, of mem] e same by (auto simp: expanded_def)
qed


lemma pool_run_inv:
  assumes "pool_run pf (pool, m, used, mapped)" and pf: "platform_ok pf"
  shows "whole_inv pf pool m used mapped"
  using assms(1)
proof (induction "(pool, m, used, mapped)" arbitrary: pool m used mapped rule: pool_run.induct)
  case (init mem m n r pool m' mapped)
  then show ?case using init_inv [OF pf] by blast
next
  case (alloc pool m used mapped mem x pool' m')
  then show ?case using alloc_inv [OF pf alloc(2,3)] by auto
next
  case (free pool m used mapped x pool' m')
  then show ?case using free_inv by blast
next
  case (use pool m used mapped x a w)
  then show ?case using use_inv by blast
next
  case (sos pool m used mapped n a m')
  have n: "unat n \<le> 2 ^ 40" using sos(4) by (simp add: word_le_nat_alt)
  have w: "whole_inv pf pool m used mapped" by (rule sos(2))
  then have p: "sos_freepos m \<le> sos_size pf" "16 dvd unat (sos_freepos m)" by (simp_all add: whole_inv_def)
  note s = sos_alloc_pos [OF pf p n sos(3)]
  have "sos_taken pf m \<subseteq> sos_taken pf m'"
    using s(2,3) by (auto simp: sos_taken_def bytes_of_def)
  then have "pool_inv pool m used (- (mapped \<union> sos_taken pf m'))"
    using w by (auto simp: whole_inv_def intro: pool_inv_mono)
  moreover have "pm_word m' = pm_word m" by (simp add: s(2))
  ultimately have "pool_inv pool m' used (- (mapped \<union> sos_taken pf m'))"
    by (simp add: pool_inv_def)
  then show ?case using w s(4,5) by (simp add: whole_inv_def)
qed

section \<open>Properties\<close>

text \<open>C24. In every history of a pool, \<open>mempool_alloc\<close> returns an aligned object that is not in use and
  overlaps no object in use, and leaves the contents of the objects in use alone; it fails only
  when the system refuses memory twice while the pool is at its reserve, and then the process is
  aborted.\<close>
theorem mempool_alloc_fresh:
  assumes "pool_run pf (pool, m, used, mapped)" and "platform_ok pf" and "granted pf mapped pool mem"
  shows "case mempool_alloc pf mem pool m of
      Inr (x, pool', m') \<Rightarrow> x \<noteq> 0 \<and> x \<notin> used \<and> 16 dvd unat x
        \<and> (\<forall>u \<in> used. bytes_of u (mp_obj_size pool) \<inter> bytes_of x (mp_obj_size pool) = {}
             \<and> (\<forall>a. unat a \<in> bytes_of u (mp_obj_size pool) \<longrightarrow> pm_word m' a = pm_word m a))
    | Inl f \<Rightarrow> f = Aborted \<and> mp_num_free pool \<le> mp_reserve pool \<and> fst mem = 0 \<and> snd mem = 0"
  using alloc_inv [OF assms(2) pool_run_inv [OF assms(1,2)] assms(3)] by auto

text \<open>
  The reserve cannot be used: a pool with free objects aborts the process when neither the system
  nor \<open>sos_memory\<close> has memory for another one.
\<close>

lemma reserve_not_used:
  assumes "mp_num_free pool \<le> mp_reserve pool" and "sos_freepos m + UNW_ALIGN (mp_obj_size pool) 16 > sos_size pf"
  shows "mempool_alloc pf (0, 0) pool m = Inl Aborted"
  using assms by (auto simp: mempool_alloc_def expand_def sos_alloc_def MAX_ALIGN_def Let_def check_def)

section \<open>A small pool\<close>

definition small_platform :: pool_platform where
  "small_platform = \<lparr>sos_memory = 0x1000, page_size = 64, sos_size = 128\<rparr>"

definition blank_memory :: pool_memory where
  "blank_memory = \<lparr>pm_word = (\<lambda>_. 0), sos_freepos = 0\<rparr>"

theorem mempool_alloc_fresh_witness:
  "\<exists>pool m x pool' m'. mempool_init small_platform (0x2000, 0) blank_memory 24 1 = Inr (pool, m)
    \<and> mempool_alloc small_platform (0, 0) pool m = Inr (x, pool', m') \<and> x \<noteq> 0 \<and> 16 dvd unat x"
proof -
  have pf: "platform_ok small_platform"
    by (auto simp: platform_ok_def small_platform_def intro!: exI [of _ 6])
  have add: "add_objects 0x2020 32 0x2000 (p, m)
      = Some (Inr (p\<lparr>mp_num_free := mp_num_free p + 1 + 1, mp_free_list := 0x2020\<rparr>,
          m\<lparr>pm_word := (pm_word m)(0x2000 := mp_free_list p, 0x2020 := 0x2000)\<rparr>))" for p m
    by (simp add: add_objects.simps free_object_def)
  let ?pool = "\<lparr>mp_obj_size = 32, mp_chunk_size = 64, mp_reserve = 1, mp_num_free = 2,
      mp_free_list = 0x2020\<rparr>"
  let ?m = "blank_memory\<lparr>pm_word := (\<lambda>_. 0)(0x2000 := 0, 0x2020 := 0x2000)\<rparr>"
  have init: "mempool_init small_platform (0x2000, 0) blank_memory 24 1 = Inr (?pool, ?m)"
    using add by (simp add: mempool_init_def expand_def add_memory_def Let_def UNW_ALIGN_def MAX_ALIGN_def
        small_platform_def blank_memory_def)
  have g: "granted small_platform {} ?pool (0x2000, 0)"
    by (auto simp: granted_def grant_def bytes_of_def sos_array_def small_platform_def)
  have "pool_run small_platform (?pool, ?m, {}, {} \<union> grant small_platform ?pool (0x2000, 0))"
    using init g by (intro pool_run.init) (auto simp: fresh_memory_def blank_memory_def)
  moreover have "granted small_platform mapped ?pool (0, 0)" for mapped
    by (simp add: granted_def grant_def)
  ultimately have "case mempool_alloc small_platform (0, 0) ?pool ?m of
      Inr (x, pool', m') \<Rightarrow> x \<noteq> 0 \<and> x \<notin> {} \<and> 16 dvd unat x
        \<and> (\<forall>u \<in> {}. bytes_of u (mp_obj_size ?pool) \<inter> bytes_of x (mp_obj_size ?pool) = {}
             \<and> (\<forall>a. unat a \<in> bytes_of u (mp_obj_size ?pool) \<longrightarrow> pm_word m' a = pm_word ?m a))
    | Inl f \<Rightarrow> f = Aborted \<and> mp_num_free ?pool \<le> mp_reserve ?pool \<and> fst ((0, 0) :: unw_word \<times> unw_word) = 0
        \<and> snd ((0, 0) :: unw_word \<times> unw_word) = 0"
    using pf by (intro mempool_alloc_fresh)
  then show ?thesis using init by (auto simp: word_le_nat_alt split: sum.splits)
qed

end
