(* ===== verification/Trace.thy ===== *)
theory Trace
  imports Unwind Mempool
begin

text \<open>
  The fast trace of \<open>src/x86_64/Gtrace.c\<close>: a thread's cache of frame descriptions, filled by single
  steps of the unwinder, and the loop that walks the stack with them; and \<open>unw_backtrace\<close> of
  \<open>src/mi/backtrace.c\<close>, which falls back to \<open>slow_backtrace\<close>.

  The trace is only used for the process itself, where the location of a register in a new cursor
  is its slot in the saved context; the model reads and writes these slots as registers of the
  address space.
\<close>

section \<open>The cache of a thread\<close>

record trace_cache =
  tc_frames :: "unw_tdep_frame list"
  tc_log_size :: nat
  tc_used :: nat
  tc_dtor_count :: nat

text \<open>
  The variables of a thread: its cache and whether it has been destroyed. What the functions use of
  the system is whether memory for a number of frames is found.
\<close>

record trace_thread =
  tls_cache :: "trace_cache option"
  tls_cache_destroyed :: bool

definition HASH_MIN_BITS :: nat where "HASH_MIN_BITS = 14"

definition empty_frame :: unw_tdep_frame where
  "empty_frame = \<lparr>virtual_address = 0, fr_type = UNW_X86_64_FRAME_OTHER, last_frame = True, cfa_reg_rsp = True,
     cfa_reg_offset = 0, rbp_cfa_offset = - 1, rsp_cfa_offset = - 1\<rparr>"

definition trace_cache_buckets :: "(nat \<Rightarrow> bool) \<Rightarrow> nat \<Rightarrow> unw_tdep_frame list option" where
  "trace_cache_buckets room n = (if room n then Some (replicate n empty_frame) else None)"

text \<open>
  \<open>trace_cache_create\<close>; the pool from which the structure comes aborts the process instead of
  returning null. The unused entry of the structure when the frames find no memory is given back.
\<close>

definition trace_cache_create :: "(nat \<Rightarrow> bool) \<Rightarrow> trace_thread \<Rightarrow> trace_cache option \<times> trace_thread" where
  "trace_cache_create room t =
     (if tls_cache_destroyed t then (None, t)
      else (case trace_cache_buckets room (2 ^ HASH_MIN_BITS) of
              None \<Rightarrow> (None, t)
            | Some frames \<Rightarrow>
                (Some \<lparr>tc_frames = frames, tc_log_size = HASH_MIN_BITS, tc_used = 0, tc_dtor_count = 0\<rparr>,
                 t\<lparr>tls_cache_destroyed := False\<rparr>)))"

definition trace_cache_expand :: "(nat \<Rightarrow> bool) \<Rightarrow> trace_cache \<Rightarrow> trace_cache option" where
  "trace_cache_expand room cache =
     (let new_log_size = tc_log_size cache + 2 in
      case trace_cache_buckets room (2 ^ new_log_size) of
        None \<Rightarrow> None
      | Some frames \<Rightarrow> Some (cache\<lparr>tc_frames := frames, tc_log_size := new_log_size, tc_used := 0\<rparr>))"

text \<open>\<open>trace_cache_get\<close> in a process with threads, where it creates the cache of a thread on first use.\<close>

definition trace_cache_get :: "(nat \<Rightarrow> bool) \<Rightarrow> trace_thread \<Rightarrow> trace_cache option \<times> trace_thread" where
  "trace_cache_get room t =
     (case tls_cache t of
        Some cache \<Rightarrow> (Some cache, t)
      | None \<Rightarrow> (let (cache, t) = trace_cache_create room t in (cache, t\<lparr>tls_cache := cache\<rparr>)))"

text \<open>
  \<open>trace_cache_free\<close>, the destructor of the thread's key with the cache as its argument: it asks to
  be called again until the last of the four rounds (\<open>PTHREAD_DESTRUCTOR_ITERATIONS\<close>). The result
  is the cache to pass in the next round.
\<close>

definition trace_cache_free :: "trace_cache \<Rightarrow> trace_thread \<Rightarrow> trace_cache option \<times> trace_thread" where
  "trace_cache_free cache t =
     (let cache = cache\<lparr>tc_dtor_count := tc_dtor_count cache + 1\<rparr> in
      if tc_dtor_count cache < 4 then (Some cache, t\<lparr>tls_cache := Some cache\<rparr>)
      else (None, t\<lparr>tls_cache_destroyed := True, tls_cache := None\<rparr>))"

section \<open>Filling a slot\<close>

text \<open>Writing a register of the saved context.\<close>

definition put_register :: "cursor \<Rightarrow> nat \<Rightarrow> unw_word \<Rightarrow> cursor" where
  "put_register c r v =
     c\<lparr>c_as := (c_as c)\<lparr>access_reg := (access_reg (c_as c))(int r := Inr v)\<rparr>\<rparr>"

definition unknown_frame :: "unw_word \<Rightarrow> unw_tdep_frame" where
  "unknown_frame rip = \<lparr>virtual_address = rip, fr_type = UNW_X86_64_FRAME_OTHER, last_frame = False,
     cfa_reg_rsp = True, cfa_reg_offset = 0, rbp_cfa_offset = - 1, rsp_cfa_offset = - 1\<rparr>"

text \<open>The cursor at an address with three registers known.\<close>

definition cursor_at ::
  "cursor \<Rightarrow> unw_word \<Rightarrow> unw_word \<Rightarrow> unw_word \<Rightarrow> unw_word \<Rightarrow> cursor" where
  "cursor_at c cfa rip rbp rsp =
     (let c = c\<lparr>c_ip := rip + (if c_use_prev_instr c then 1 else 0), c_cfa := cfa,
            c_loc := (replicate DWARF_NUM_PRESERVED_REGS DWARF_NULL_LOC)
              [RIP := DWARF_REG_LOC RIP, RBP := DWARF_REG_LOC RBP, RSP := DWARF_REG_LOC RSP],
            c_frame_info := unknown_frame rip\<rparr> in
      put_register (put_register (put_register c RIP rip) RBP rbp) RSP rsp)"

text \<open>
  \<open>trace_init_addr\<close>: one step of the unwinder from the address, which stashes the description in the
  cursor. A step that stops is remembered as the end of the stack.
\<close>

definition trace_init_addr ::
  "unw_env \<Rightarrow> cursor \<Rightarrow> as_caches \<Rightarrow> unw_word \<Rightarrow> unw_word \<Rightarrow> unw_word \<Rightarrow> unw_word
    \<Rightarrow> (unw_tdep_frame \<times> cursor \<times> as_caches) res" where
  "trace_init_addr env c ca cfa rip rbp rsp =
     rbind (unw_step env (cursor_at c cfa rip rbp rsp) ca) (\<lambda>(c, ca, ret).
     Inr (case ret of
            Inl e \<Rightarrow> unknown_frame rip
          | Inr again \<Rightarrow> if again then c_frame_info c else (c_frame_info c)\<lparr>last_frame := True\<rparr>, c, ca))"

section \<open>Looking an address up\<close>

definition trace_slot :: "unw_word \<Rightarrow> nat \<Rightarrow> nat" where
  "trace_slot rip n = unat (drop_bit 43 (rip * 0x9e3779b97f4a7c16)) mod 2 ^ n"

text \<open>
  The probes from a slot, with at most \<open>n\<close> further ones: the slot at which they end and the address
  found there, which is the one sought, zero in a free slot, or that of another frame.
\<close>

fun trace_probe :: "nat \<Rightarrow> unw_tdep_frame list \<Rightarrow> unw_word \<Rightarrow> nat \<Rightarrow> nat \<Rightarrow> (nat \<times> unw_word) res" where
  "trace_probe cache_size frames rip slot n =
     rbind (arr_get frames slot) (\<lambda>f.
     let addr = virtual_address f in
     if addr = rip \<or> addr = 0 then Inr (slot, addr)
     else (case n of
             0 \<Rightarrow> Inr (slot, addr)
           | Suc n \<Rightarrow> trace_probe cache_size frames rip
               (if slot + 1 \<ge> cache_size then slot + 1 - cache_size else slot + 1) n))"

declare trace_probe.simps [simp del]

text \<open>
  \<open>trace_lookup\<close>: the description, or \<open>None\<close> when the cache has to be expanded and there is no
  memory. The first component tells whether the unwinder has made a step, which leaves the
  validation of addresses switched on.
\<close>

definition trace_lookup ::
  "unw_env \<Rightarrow> (nat \<Rightarrow> bool) \<Rightarrow> cursor \<Rightarrow> as_caches \<Rightarrow> trace_cache
    \<Rightarrow> unw_word \<Rightarrow> unw_word \<Rightarrow> unw_word \<Rightarrow> unw_word
    \<Rightarrow> (bool \<times> unw_tdep_frame option \<times> cursor \<times> as_caches \<times> trace_cache) res" where
  "trace_lookup env room c ca cache cfa rip rbp rsp =
     (let cache_size = 2 ^ tc_log_size cache in
      rbind (trace_probe cache_size (tc_frames cache) rip (trace_slot rip (tc_log_size cache)) 15) (\<lambda>(slot, addr).
      if addr = rip then
        rbind (arr_get (tc_frames cache) slot) (\<lambda>f. Inr (False, Some f, c, ca, cache))
      else
        case (if addr \<noteq> 0 \<or> tc_used cache \<ge> cache_size div 2
              then map_option (\<lambda>cache. (cache, trace_slot rip (tc_log_size cache)))
                     (trace_cache_expand room cache)
              else Some (cache, slot)) of
          None \<Rightarrow> Inr (False, None, c, ca, cache)
        | Some (cache, slot) \<Rightarrow>
            rbind (arr_get (tc_frames cache) slot) (\<lambda>frame.
            let cache = (if virtual_address frame = 0 then cache\<lparr>tc_used := tc_used cache + 1\<rparr> else cache) in
            rbind (trace_init_addr env c ca cfa rip rbp rsp) (\<lambda>(f, c, ca).
            rbind (arr_set (tc_frames cache) slot f) (\<lambda>frames.
            Inr (True, Some f, c, ca, cache\<lparr>tc_frames := frames\<rparr>))))))"

section \<open>Walking the stack\<close>

text \<open>The registers of the loop.\<close>

record trace_regs =
  tr_cfa :: unw_word
  tr_rip :: unw_word
  tr_rbp :: unw_word
  tr_rsp :: unw_word

text \<open>
  \<open>ACCESS_MEM_FAST\<close>: with validation a read can fail; without it the memory is read directly, and the
  process crashes when it is not there.
\<close>

definition access_mem_fast :: "bool \<Rightarrow> cursor \<Rightarrow> unw_word \<Rightarrow> unw_word res" where
  "access_mem_fast validate c addr =
     (if validate then dwarf_get c (DWARF_MEM_LOC addr)
      else (case access_mem (c_as c) addr of Inl e \<Rightarrow> Inl Out_of_bounds | Inr v \<Rightarrow> Inr v))"

text \<open>The registers of the next frame, by the type of the frame.\<close>

definition advance_standard ::
  "bool \<Rightarrow> cursor \<Rightarrow> unw_tdep_frame \<Rightarrow> trace_regs \<Rightarrow> trace_regs res" where
  "advance_standard validate c f r =
     (let cfa = (if cfa_reg_rsp f then tr_rsp r else tr_rbp r) + word_of_int (cfa_reg_offset f) in
      rbind (access_mem_fast validate c (cfa - 8)) (\<lambda>rip.
      rbind (if rbp_cfa_offset f \<noteq> - 1
             then access_mem_fast validate c (cfa + word_of_int (rbp_cfa_offset f)) else Inr (tr_rbp r)) (\<lambda>rbp.
      Inr \<lparr>tr_cfa = cfa, tr_rip = rip, tr_rbp = rbp, tr_rsp = cfa\<rparr>)))"

definition advance_sigreturn ::
  "bool \<Rightarrow> cursor \<Rightarrow> unw_tdep_frame \<Rightarrow> trace_regs \<Rightarrow> trace_regs res" where
  "advance_sigreturn validate c f r =
     (let cfa = tr_cfa r + word_of_int (cfa_reg_offset f) in
      rbind (access_mem_fast validate c (cfa + 0xa8)) (\<lambda>rip.
      rbind (access_mem_fast validate c (cfa + 0x78)) (\<lambda>rbp.
      rbind (access_mem_fast validate c (cfa + 0xa0)) (\<lambda>rsp.
      Inr \<lparr>tr_cfa = rsp, tr_rip = rip, tr_rbp = rbp, tr_rsp = rsp\<rparr>))))"

definition advance_aligned ::
  "bool \<Rightarrow> cursor \<Rightarrow> unw_tdep_frame \<Rightarrow> trace_regs \<Rightarrow> trace_regs res" where
  "advance_aligned validate c f r =
     (let cfa = (if cfa_reg_rsp f then tr_rsp r else tr_rbp r) + word_of_int (cfa_reg_offset f) in
      rbind (access_mem_fast validate c cfa) (\<lambda>cfa.
      rbind (access_mem_fast validate c (cfa - 8)) (\<lambda>rip.
      rbind (access_mem_fast validate c (tr_rbp r)) (\<lambda>rbp.
      Inr \<lparr>tr_cfa = cfa, tr_rip = rip, tr_rbp = rbp, tr_rsp = cfa\<rparr>))))"

text \<open>
  The switch over the types, with whether reads are validated from now on, the cursor, and the
  registers or an error. A guessed frame forces the validation.
\<close>

definition trace_advance ::
  "unw_env \<Rightarrow> bool \<Rightarrow> cursor \<Rightarrow> unw_tdep_frame \<Rightarrow> trace_regs
    \<Rightarrow> (bool \<times> cursor \<times> (unw_error + trace_regs)) res" where
  "trace_advance env validate c f r =
     (let go = (\<lambda>validate c next prev. rbind (attempt (next validate c f r)) (\<lambda>r.
                  Inr (validate, c\<lparr>c_use_prev_instr := prev\<rparr>, r))) in
      case fr_type f of
        UNW_X86_64_FRAME_GUESSED \<Rightarrow>
          if se_is_local env then go True (dwarf_set_validate env True c) advance_standard True
          else go validate c advance_standard True
      | UNW_X86_64_FRAME_STANDARD \<Rightarrow> go validate c advance_standard True
      | UNW_X86_64_FRAME_SIGRETURN \<Rightarrow> go validate c advance_sigreturn False
      | UNW_X86_64_FRAME_ALIGNED \<Rightarrow> go validate c advance_aligned True
      | UNW_X86_64_FRAME_OTHER \<Rightarrow> Inr (validate, c, Inl UNW_ESTOPUNWIND))"

text \<open>
  The loop with room for \<open>n\<close> more addresses: the result code, the addresses it records, and the
  caches it leaves.
\<close>

primrec trace_loop ::
  "nat \<Rightarrow> unw_env \<Rightarrow> (nat \<Rightarrow> bool) \<Rightarrow> bool \<Rightarrow> cursor \<Rightarrow> as_caches \<Rightarrow> trace_cache \<Rightarrow> trace_regs
    \<Rightarrow> ((unw_error + unit) \<times> unw_word list \<times> as_caches \<times> trace_cache) res" where
  "trace_loop 0 env room validate c ca cache r = Inr (Inr (), [], ca, cache)"
| "trace_loop (Suc n) env room validate c ca cache r =
     (let rip = tr_rip r - (if c_use_prev_instr c then 1 else 0) in
      rbind (trace_lookup env room c ca cache (tr_cfa r) rip (tr_rbp r) (tr_rsp r)) (\<lambda>(stepped, f, c, ca, cache).
      case f of
        None \<Rightarrow> Inr (Inl UNW_ENOINFO, [], ca, cache)
      | Some f \<Rightarrow>
          rbind (check (virtual_address f = rip) Aborted) (\<lambda>_.
          if last_frame f then Inr (Inr (), [], ca, cache)
          else
            rbind (trace_advance env (validate \<or> stepped \<and> se_is_local env) c f r) (\<lambda>(validate, c, next).
            case next of
              Inl e \<Rightarrow> Inr (Inl e, [], ca, cache)
            | Inr r \<Rightarrow>
                if tr_rip r < 0x4000 then Inr (Inr (), [], ca, cache)
                else rbind (trace_loop n env room validate c ca cache r) (\<lambda>(ret, ips, ca, cache).
                     Inr (ret, tr_rip r # ips, ca, cache))))))"

text \<open>
  \<open>tdep_trace\<close> on a cursor that has just been initialised, whose registers are in the saved context.
\<close>

definition tdep_trace ::
  "unw_env \<Rightarrow> (nat \<Rightarrow> bool) \<Rightarrow> cursor \<Rightarrow> as_caches \<Rightarrow> trace_thread \<Rightarrow> nat
    \<Rightarrow> ((unw_error + unit) \<times> unw_word list \<times> as_caches \<times> trace_thread) res" where
  "tdep_trace env room c ca t maxdepth =
     (if maxdepth = 0 then Inr (Inl UNW_EINVAL, [], ca, t) else
      rbind (case dwarf_get c (c_loc c ! RBP) of Inl e \<Rightarrow> Inl Out_of_bounds | Inr v \<Rightarrow> Inr v) (\<lambda>rbp.
      let (cache, t) = trace_cache_get room t in
      case cache of
        None \<Rightarrow> Inr (Inl UNW_ENOMEM, [], ca, t)
      | Some cache \<Rightarrow>
          rbind (trace_loop maxdepth env room False (c\<lparr>c_stash_frames := True\<rparr>) ca cache
                   \<lparr>tr_cfa = c_cfa c, tr_rip = c_ip c, tr_rbp = rbp, tr_rsp = c_cfa c\<rparr>) (\<lambda>(ret, ips, ca, cache).
          Inr (ret, ips, ca, t\<lparr>tls_cache := Some cache\<rparr>))))"

section \<open>Backtraces\<close>

text \<open>
  \<open>unw_backtrace\<close>, with the addresses it stores. The trace overwrites the saved context, so the
  registers are captured again for the slow way; the two cursors are for the two captures.
\<close>

definition unw_backtrace ::
  "unw_env \<Rightarrow> (nat \<Rightarrow> bool) \<Rightarrow> cursor \<Rightarrow> cursor \<Rightarrow> as_caches \<Rightarrow> trace_thread \<Rightarrow> nat
    \<Rightarrow> unw_word list res" where
  "unw_backtrace env room c again ca t n =
     rbind (unw_init_local_common c True) (\<lambda>(c, ret).
     case ret of
       Inl e \<Rightarrow> Inr []
     | Inr _ \<Rightarrow>
         rbind (tdep_trace env room c ca t n) (\<lambda>(ret, ips, ca, t).
         case ret of
           Inl e \<Rightarrow> slow_backtrace env again ca 0 n
         | Inr _ \<Rightarrow> Inr ips))"

text \<open>
  \<open>unw_backtrace2\<close> for a context of the caller: the trace works on a copy of it, so the slow way starts
  from the same one. Its first address is that of the context.
\<close>

definition unw_backtrace2 ::
  "unw_env \<Rightarrow> (nat \<Rightarrow> bool) \<Rightarrow> cursor \<Rightarrow> as_caches \<Rightarrow> trace_thread \<Rightarrow> int \<Rightarrow> nat
    \<Rightarrow> unw_word list res" where
  "unw_backtrace2 env room uc2 ca t flag n =
     (if n = 0 then Inr [] else
      rbind (unw_init_local2 uc2 flag) (\<lambda>(c, ret).
      case ret of
        Inl e \<Rightarrow> Inr []
      | Inr _ \<Rightarrow>
          rbind (attempt (unw_get_reg c UNW_REG_IP)) (\<lambda>ip.
          case ip of
            Inl e \<Rightarrow> Inr []
          | Inr ip \<Rightarrow>
              rbind (tdep_trace env room c ca t (n - 1)) (\<lambda>(ret, ips, ca, t).
              rbind (case ret of Inl e \<Rightarrow> slow_backtrace env uc2 ca flag (n - 1) | Inr _ \<Rightarrow> Inr ips) (\<lambda>ips.
              Inr (ip # ips))))))"

end
