(* ===== verification/TraceLemmas.thy ===== *)
theory TraceLemmas
  imports Trace Backtrace
begin

text \<open>
  The fast trace on a call stack of functions with ordinary frames: the cache of the thread holds the
  descriptions that a step of the unwinder gives, and the loop finds the return addresses or gives up.
\<close>

section \<open>The surroundings\<close>

text \<open>
  What validation does to an address space: reads fail or give what is there, and registers are not
  affected.
\<close>

definition validates :: "unw_env \<Rightarrow> bool" where
  "validates env \<longleftrightarrow> se_is_local env \<and> checks_only env
     \<and> (\<forall>as r. ue_validating env (as\<lparr>access_reg := r\<rparr>) = (ue_validating env as)\<lparr>access_reg := r\<rparr>)
     \<and> (\<forall>as a v. access_mem (ue_validating env as) a = Inr v \<longrightarrow> access_mem as a = Inr v)"

lemma validatesD:
  assumes "validates env"
  shows "se_is_local env" "checks_only env" "read_as env as = ue_validating env as"
    "ue_validating env (as\<lparr>access_reg := r\<rparr>) = (ue_validating env as)\<lparr>access_reg := r\<rparr>"
    "access_mem (ue_validating env as) a = Inr v \<Longrightarrow> access_mem as a = Inr v"
    "ue_validating env (ue_validating env as) = ue_validating env as"
    "access_reg (ue_validating env as) = access_reg as"
proof -
  show l: "se_is_local env" "checks_only env"
    "ue_validating env (as\<lparr>access_reg := r\<rparr>) = (ue_validating env as)\<lparr>access_reg := r\<rparr>"
    "access_mem (ue_validating env as) a = Inr v \<Longrightarrow> access_mem as a = Inr v"
    using assms unfolding validates_def by blast+
  show "read_as env as = ue_validating env as" using l(1) by (simp add: read_as_def)
  show "ue_validating env (ue_validating env as) = ue_validating env as"
    "access_reg (ue_validating env as) = access_reg as"
    using l(2) unfolding checks_only_def by blast+
qed

text \<open>The stack and the tables do not depend on the registers.\<close>

lemma program_at_regs: "program_at (as\<lparr>access_reg := r\<rparr>) = program_at as"
proof -
  have "as_byte (as\<lparr>access_reg := r\<rparr>) = as_byte as" by (rule ext) (simp add: as_byte_def)
  then show ?thesis by (intro ext) (simp add: program_at_def)
qed

lemma described_regs [simp]: "described env (as\<lparr>access_reg := r\<rparr>) ip n = described env as ip n"
  by (simp only: described_def program_at_regs)

lemma calls_regs:
  assumes "calls env as f ip sp ras"
  shows "calls env (as\<lparr>access_reg := r\<rparr>) f ip sp ras"
  using assms by induction (auto intro: calls.intros)

section \<open>Descriptions of frames\<close>

text \<open>
  The description of the frame at an address, which is the one before a return address; a function in
  \<open>outer\<close> may be remembered as the last one of a stack.
\<close>

definition trace_frame :: "(unw_word \<Rightarrow> unw_word) \<Rightarrow> unw_word \<Rightarrow> bool \<Rightarrow> unw_tdep_frame" where
  "trace_frame f rip l = (stashed_plain (unknown_frame rip) (f (rip + 1)))\<lparr>last_frame := l\<rparr>"

definition cache_fits :: "(unw_word \<Rightarrow> unw_word) \<Rightarrow> unw_word set \<Rightarrow> trace_cache \<Rightarrow> bool" where
  "cache_fits f outer cache \<longleftrightarrow> length (tc_frames cache) = 2 ^ tc_log_size cache
     \<and> (\<forall>e \<in> set (tc_frames cache). virtual_address e \<noteq> 0 \<longrightarrow>
          e = trace_frame f (virtual_address e) (last_frame e)
          \<and> (last_frame e \<longrightarrow> virtual_address e + 1 \<in> outer))"

lemma trace_frame_simps [simp]:
  "virtual_address (trace_frame f rip l) = rip" "last_frame (trace_frame f rip l) = l"
  by (simp_all add: trace_frame_def stashed_plain_def unknown_frame_def)

lemma cache_fits_empty:
  "cache_fits f outer \<lparr>tc_frames = replicate (2 ^ n) empty_frame, tc_log_size = n, tc_used = u, tc_dtor_count = d\<rparr>"
  by (simp add: cache_fits_def empty_frame_def)

lemma trace_cache_expand_fits:
  "trace_cache_expand room cache = Some cc \<Longrightarrow> cache_fits f outer cc"
  by (auto simp: trace_cache_expand_def trace_cache_buckets_def Let_def cache_fits_def empty_frame_def
      split: if_splits)

lemma cache_fits_set:
  assumes "cache_fits f outer cache" and "l \<longrightarrow> rip + 1 \<in> outer"
  shows "cache_fits f outer (cache\<lparr>tc_used := u, tc_frames := (tc_frames cache)[i := trace_frame f rip l]\<rparr>)"
  using assms set_update_subset_insert [of "tc_frames cache" i "trace_frame f rip l"]
  by (auto simp: cache_fits_def)

lemma trace_slot_less: "trace_slot rip n < 2 ^ n"
  by (simp add: trace_slot_def)

lemma trace_probe_fits:
  assumes "length frames = k" and "slot < k"
  shows "\<exists>slot' addr. trace_probe k frames rip slot n = Inr (slot', addr)
    \<and> slot' < k \<and> addr = virtual_address (frames ! slot')"
  using assms
proof (induction n arbitrary: slot)
  case 0
  then show ?case by (subst trace_probe.simps) (simp add: Let_def)
next
  case (Suc n)
  let ?next = "if slot + 1 \<ge> k then slot + 1 - k else slot + 1"
  have "?next < k" using Suc.prems by auto
  from Suc.IH [OF Suc.prems(1) this] show ?case
    using Suc.prems by (subst trace_probe.simps) (simp add: Let_def)
qed


section \<open>One frame\<close>

text \<open>What holds in the loop of the caches and the cursor, for the memory of the process.\<close>

definition trace_ready ::
  "unw_env \<Rightarrow> addr_space \<Rightarrow> (unw_word \<Rightarrow> unw_word) \<Rightarrow> cursor \<Rightarrow> as_caches \<Rightarrow> bool" where
  "trace_ready env as f c ca \<longleftrightarrow> steady ca \<and> good_cache (\<lambda>ip. (plain_row (f ip), False)) (global_cache ca)
     \<and> good_cursor (global_cache ca) c \<and> length (c_eh_args c) = 2 \<and> c_stash_frames c \<and> c_use_prev_instr c
     \<and> (\<exists>r. ue_validating env (c_as c) = as\<lparr>access_reg := r\<rparr>)"

text \<open>A function with an ordinary frame, as in \<^const>\<open>calls\<close>.\<close>

definition plain_frame ::
  "unw_env \<Rightarrow> addr_space \<Rightarrow> (unw_word \<Rightarrow> unw_word) \<Rightarrow> unw_word \<Rightarrow> unw_word \<Rightarrow> unw_word \<Rightarrow> bool" where
  "plain_frame env as f ip sp ra \<longleftrightarrow> described (step_env.truncate env) as ip (f ip) \<and> ip \<noteq> 0 \<and> ip \<noteq> 1
     \<and> f ip \<noteq> 0 \<and> sp + f ip \<noteq> 8 \<and> access_mem as (sp + f ip - 8) = Inr ra"

lemma cursor_at_frame:
  assumes env: "validates env" and r: "trace_ready env as f c ca"
  shows "\<exists>r. at_frame env (as\<lparr>access_reg := r\<rparr>) f (cursor_at c sp (ip - 1) rbp sp) ca ip sp"
    and "c_stash_frames (cursor_at c sp (ip - 1) rbp sp)"
    and "c_frame_info (cursor_at c sp (ip - 1) rbp sp) = unknown_frame (ip - 1)"
proof -
  let ?c = "cursor_at c sp (ip - 1) rbp sp"
  have prev: "c_use_prev_instr c" "c_stash_frames c" using r by (simp_all add: trace_ready_def)
  obtain q where q: "ue_validating env (c_as c) = as\<lparr>access_reg := q\<rparr>"
    using r by (auto simp: trace_ready_def)
  let ?R = "(access_reg (c_as c))(16 := Inr (ip - 1), 6 := Inr rbp, 7 := Inr sp)"
  have as: "c_as ?c = (c_as c)\<lparr>access_reg := ?R\<rparr>"
    by (simp add: cursor_at_def put_register_def Let_def)
  then have read: "read_as env (c_as ?c) = as\<lparr>access_reg := ?R\<rparr>"
    using q by (simp add: validatesD(3,4) [OF env])
  have loc: "c_loc ?c ! 7 = DWARF_REG_LOC 7" "length (c_loc ?c) = 17" "c_ip ?c = ip" "c_cfa ?c = sp"
    using prev(1) by (simp_all add: cursor_at_def put_register_def Let_def)
  have "sint (ucast (7 :: unw_word) :: 32 word) = 7" by simp
  then have "sp_is env ?c sp"
    using loc(1) read by (simp add: sp_is_def dwarf_get_def)
  moreover have "good_cursor (global_cache ca) ?c" "length (c_eh_args ?c) = 2"
    using r by (simp_all add: trace_ready_def good_cursor_def hint_ok_def cursor_at_def put_register_def Let_def)
  ultimately have "at_frame env (as\<lparr>access_reg := ?R\<rparr>) f ?c ca ip sp"
    using r loc read by (simp add: at_frame_def trace_ready_def wf_cursor_def)
  then show "\<exists>r. at_frame env (as\<lparr>access_reg := r\<rparr>) f ?c ca ip sp" by blast
  show "c_stash_frames ?c" "c_frame_info ?c = unknown_frame (ip - 1)"
    using prev(2) by (simp_all add: cursor_at_def put_register_def Let_def)
qed

lemma trace_init_plain:
  assumes env: "validates env" and r: "trace_ready env as f c ca" and p: "plain_frame env as f ip sp ra"
  shows "\<exists>c' ca'. trace_init_addr env c ca sp (ip - 1) rbp sp = Inr (trace_frame f (ip - 1) (ra = 0), c', ca')
    \<and> trace_ready env as f c' ca'"
proof -
  let ?c = "cursor_at c sp (ip - 1) rbp sp"
  obtain q where at: "at_frame env (as\<lparr>access_reg := q\<rparr>) f ?c ca ip sp"
    using cursor_at_frame(1) [OF env r] by blast
  note c = cursor_at_frame(2,3) [OF env r, of sp ip rbp]
  have fi: "fr_type (c_frame_info ?c) \<noteq> UNW_X86_64_FRAME_SIGRETURN"
    by (simp add: c(2) unknown_frame_def)
  obtain c' ca' where s: "unw_step env ?c ca = Inr (c', ca', Inr (ra \<noteq> 0))"
    "at_frame env (as\<lparr>access_reg := q\<rparr>) f c' ca' ra (sp + f ip)" "c_stash_frames c'" "c_use_prev_instr c'"
    "c_frame_info c' = stashed_plain (unknown_frame (ip - 1)) (f ip)"
    using unw_step_row [OF at validatesD(2) [OF env], of ra] p fi c
    by (auto simp: plain_frame_def)
  have "trace_ready env as f c' ca'"
    using s(2,3,4) by (auto simp: at_frame_def trace_ready_def wf_cursor_def validatesD(3) [OF env])
  moreover have "\<not> last_frame (stashed_plain (unknown_frame (ip - 1)) (f ip))"
    by (simp add: stashed_plain_def unknown_frame_def)
  ultimately show ?thesis
    using s(1,5) by (simp add: trace_init_addr_def trace_frame_def)
qed

text \<open>
  Looking the address up gives the description of its frame, or nothing when memory for a larger
  cache is missing. Only the end of the stack can make the cache unfit.
\<close>

lemma trace_lookup_plain:
  assumes env: "validates env" and r: "trace_ready env as f c ca" and p: "plain_frame env as f ip sp ra"
    and fits: "cache_fits f outer cache"
  shows "\<exists>stepped fo c' ca' cache'. trace_lookup env room c ca cache sp (ip - 1) rbp sp
      = Inr (stepped, fo, c', ca', cache') \<and> trace_ready env as f c' ca'
    \<and> (\<forall>e. fo = Some e \<longrightarrow> (\<exists>l. e = trace_frame f (ip - 1) l \<and> (l \<longrightarrow> ra = 0 \<or> ip \<in> outer)))
    \<and> (ra \<noteq> 0 \<longrightarrow> cache_fits f outer cache')"
proof -
  let ?rip = "ip - 1" and ?n = "tc_log_size cache"
  have len: "length (tc_frames cache) = 2 ^ ?n" using fits by (simp add: cache_fits_def)
  have rip: "?rip \<noteq> 0" using p by (simp add: plain_frame_def)
  obtain slot addr where s: "trace_probe (2 ^ ?n) (tc_frames cache) ?rip (trace_slot ?rip ?n) 15 = Inr (slot, addr)"
    "slot < 2 ^ ?n" "addr = virtual_address (tc_frames cache ! slot)"
    using trace_probe_fits [OF len trace_slot_less] by blast
  obtain ci cai where i: "trace_init_addr env c ca sp ?rip rbp sp = Inr (trace_frame f ?rip (ra = 0), ci, cai)"
    "trace_ready env as f ci cai"
    using trace_init_plain [OF env r p] by blast
  have fill: "\<exists>cache'. rbind (arr_get (tc_frames cc) k) (\<lambda>frame.
            let cache = (if virtual_address frame = 0 then cc\<lparr>tc_used := tc_used cc + 1\<rparr> else cc) in
            rbind (trace_init_addr env c ca sp ?rip rbp sp) (\<lambda>(f, c, ca).
            rbind (arr_set (tc_frames cache) k f) (\<lambda>frames.
            Inr (True, Some f, c, ca, cache\<lparr>tc_frames := frames\<rparr>))))
        = Inr (True, Some (trace_frame f ?rip (ra = 0)), ci, cai, cache')
      \<and> (ra \<noteq> 0 \<longrightarrow> cache_fits f outer cache')"
    if "cache_fits f outer cc" "k < 2 ^ tc_log_size cc" for cc k
  proof -
    have "length (tc_frames cc) = 2 ^ tc_log_size cc" using that(1) by (simp add: cache_fits_def)
    moreover have "cache_fits f outer (cc\<lparr>tc_frames := (tc_frames cc)[k := trace_frame f ?rip False]\<rparr>)"
      "cache_fits f outer (cc\<lparr>tc_used := u, tc_frames := (tc_frames cc)[k := trace_frame f ?rip False]\<rparr>)" for u
      using cache_fits_set [OF that(1), where l = False and rip = ?rip and u = "tc_used cc" and i = k]
        cache_fits_set [OF that(1), where l = False and rip = ?rip and u = u and i = k] by simp_all
    ultimately show ?thesis using i(1) that(2) by (simp add: Let_def)
  qed
  show ?thesis
  proof (cases "addr = ?rip")
    case True
    let ?e = "tc_frames cache ! slot"
    have "?e \<in> set (tc_frames cache)" using s(2) len by simp
    then have "?e = trace_frame f ?rip (last_frame ?e)" "last_frame ?e \<longrightarrow> ip \<in> outer"
      using fits rip True s(3) by (auto simp: cache_fits_def)
    then show ?thesis
      using True s len r fits by (simp add: trace_lookup_def Let_def) blast
  next
    case False
    let ?new = "if addr \<noteq> 0 \<or> tc_used cache \<ge> 2 ^ ?n div 2
              then map_option (\<lambda>cache. (cache, trace_slot ?rip (tc_log_size cache)))
                     (trace_cache_expand room cache)
              else Some (cache, slot)"
    show ?thesis
    proof (cases ?new)
      case None
      then have "trace_lookup env room c ca cache sp ?rip rbp sp = Inr (False, None, c, ca, cache)"
        using False s(1) by (simp add: trace_lookup_def Let_def)
      then show ?thesis using r fits by blast
    next
      case (Some x)
      then obtain cc k where x: "?new = Some (cc, k)" by (cases x) auto
      have "cache_fits f outer cc \<and> k < 2 ^ tc_log_size cc"
      proof (cases "addr \<noteq> 0 \<or> tc_used cache \<ge> 2 ^ ?n div 2")
        case True
        then have "trace_cache_expand room cache = Some cc" "k = trace_slot ?rip (tc_log_size cc)"
          using x by auto
        then show ?thesis using trace_slot_less trace_cache_expand_fits by blast
      next
        case False
        then show ?thesis using x fits s(2) by auto
      qed
      from fill [OF conjunct1 [OF this] conjunct2 [OF this]] show ?thesis
        using False s(1) x i(2) by (auto simp: trace_lookup_def Let_def)
    qed
  qed
qed


section \<open>The loop\<close>

lemma access_mem_fast_plain:
  assumes env: "validates env" and r: "trace_ready env as f c ca" and a: "a \<noteq> 0" "access_mem as a = Inr v"
  shows "access_mem_fast b c a = Inr v"
proof -
  have "access_mem (ue_validating env (c_as c)) a = Inr v"
    using r a(2) by (auto simp: trace_ready_def)
  then have "access_mem (c_as c) a = Inr v" by (rule validatesD(5) [OF env])
  then show ?thesis using a(1) by (simp add: access_mem_fast_def dwarf_get_def)
qed

lemma trace_advance_plain:
  assumes env: "validates env" and r: "trace_ready env as f c ca" and p: "plain_frame env as f ip sp ra"
  shows "trace_advance env v c (trace_frame f (ip - 1) l) \<lparr>tr_cfa = sp, tr_rip = x, tr_rbp = rbp, tr_rsp = sp\<rparr>
      = Inr (v, c\<lparr>c_use_prev_instr := True\<rparr>,
          Inr \<lparr>tr_cfa = sp + f ip, tr_rip = ra, tr_rbp = rbp, tr_rsp = sp + f ip\<rparr>)
    \<or> trace_advance env v c (trace_frame f (ip - 1) l) \<lparr>tr_cfa = sp, tr_rip = x, tr_rbp = rbp, tr_rsp = sp\<rparr>
      = Inr (v, c, Inl UNW_ESTOPUNWIND)"
proof (cases "\<bar>sint (f ip)\<bar> < 2 ^ 28")
  case True
  then have e: "fr_type (trace_frame f (ip - 1) l) = UNW_X86_64_FRAME_STANDARD"
    "cfa_reg_rsp (trace_frame f (ip - 1) l)" "cfa_reg_offset (trace_frame f (ip - 1) l) = sint (f ip)"
    "rbp_cfa_offset (trace_frame f (ip - 1) l) = - 1"
    by (simp_all add: trace_frame_def stashed_plain_def unknown_frame_def)
  have "access_mem_fast v c (sp + f ip - 8) = Inr ra"
    using p by (intro access_mem_fast_plain [OF env r]) (simp_all add: plain_frame_def)
  then show ?thesis by (simp add: trace_advance_def e advance_standard_def Let_def)
next
  case False
  then have "fr_type (trace_frame f (ip - 1) l) = UNW_X86_64_FRAME_OTHER"
    by (simp add: trace_frame_def stashed_plain_def unknown_frame_def)
  then show ?thesis by (simp add: trace_advance_def)
qed

lemma trace_loop_calls:
  assumes "calls (step_env.truncate env) as f ip sp ras" and env: "validates env"
    and "trace_ready env as f c ca" and "cache_fits f outer cache"
    and "set (butlast (ip # ras)) \<inter> outer = {}" and "\<forall>a \<in> set (ip # ras). 0x4000 \<le> a"
  shows "\<exists>ret ips ca' cache'. trace_loop n env room v c ca cache
      \<lparr>tr_cfa = sp, tr_rip = ip, tr_rbp = rbp, tr_rsp = sp\<rparr> = Inr (ret, ips, ca', cache')
    \<and> steady ca' \<and> good_cache (\<lambda>ip. (plain_row (f ip), False)) (global_cache ca')
    \<and> (ret = Inr () \<longrightarrow> ips = take n ras)"
  using assms(1,3-)
proof (induction arbitrary: c ca cache v n rbp rule: calls.induct)
  case (outermost ip sp)
  show ?case
  proof (cases n)
    case 0
    then show ?thesis using outermost.prems by (simp add: trace_ready_def)
  next
    case (Suc m)
    have p: "plain_frame env as f ip sp 0" using outermost by (auto simp: plain_frame_def word_le_nat_alt)
    obtain st fo c' ca' cache' where l: "trace_lookup env room c ca cache sp (ip - 1) rbp sp
        = Inr (st, fo, c', ca', cache')" "trace_ready env as f c' ca'"
      "\<forall>e. fo = Some e \<longrightarrow> (\<exists>l. e = trace_frame f (ip - 1) l)"
      using trace_lookup_plain [OF env outermost.prems(1) p outermost.prems(2)] by blast
    have prev: "c_use_prev_instr c" using outermost.prems(1) by (simp add: trace_ready_def)
    have g: "steady ca'" "good_cache (\<lambda>ip. (plain_row (f ip), False)) (global_cache ca')"
      using l(2) by (simp_all add: trace_ready_def)
    show ?thesis
    proof (cases fo)
      case None
      then show ?thesis using Suc l(1) g prev by simp
    next
      case (Some e)
      then obtain b where e: "e = trace_frame f (ip - 1) b" using l(3) by blast
      show ?thesis
        using trace_advance_plain [OF env l(2) p, of "v \<or> st \<and> se_is_local env" b ip rbp] Suc l(1) g prev Some e
        by (cases b) auto
    qed
  qed
next
  case (call ip sp ra ras)
  show ?case
  proof (cases n)
    case 0
    then show ?thesis using call.prems by (simp add: trace_ready_def)
  next
    case (Suc m)
    have p: "plain_frame env as f ip sp ra" using call by (auto simp: plain_frame_def word_le_nat_alt)
    have in_stack: "ip \<notin> outer" "set (butlast (ra # ras)) \<inter> outer = {}" "\<forall>a \<in> set (ra # ras). 0x4000 \<le> a"
      using call.prems(3,4) by auto
    obtain st fo c' ca' cache' where l: "trace_lookup env room c ca cache sp (ip - 1) rbp sp
        = Inr (st, fo, c', ca', cache')" "trace_ready env as f c' ca'"
      "\<forall>e. fo = Some e \<longrightarrow> (\<exists>l. e = trace_frame f (ip - 1) l \<and> (l \<longrightarrow> ra = 0 \<or> ip \<in> outer))"
      "cache_fits f outer cache'"
      using trace_lookup_plain [OF env call.prems(1) p call.prems(2)] call.hyps(6) by blast
    have prev: "c_use_prev_instr c" using call.prems(1) by (simp add: trace_ready_def)
    have g: "steady ca'" "good_cache (\<lambda>ip. (plain_row (f ip), False)) (global_cache ca')"
      using l(2) by (simp_all add: trace_ready_def)
    show ?thesis
    proof (cases fo)
      case None
      then show ?thesis using Suc l(1) g prev by simp
    next
      case (Some e)
      then have e: "e = trace_frame f (ip - 1) False" using l(3) in_stack(1) call.hyps(6) by auto
      let ?v = "v \<or> st \<and> se_is_local env" and ?c = "c'\<lparr>c_use_prev_instr := True\<rparr>"
      have "trace_ready env as f ?c ca'" using l(2) by (simp add: trace_ready_def good_cursor_def hint_ok_def)
      from call.IH [OF this l(4) in_stack(2,3), of m ?v rbp] obtain ret ips ca2 cache2 where
        r: "trace_loop m env room ?v ?c ca' cache' \<lparr>tr_cfa = sp + f ip, tr_rip = ra, tr_rbp = rbp,
            tr_rsp = sp + f ip\<rparr> = Inr (ret, ips, ca2, cache2)"
          "steady ca2" "good_cache (\<lambda>ip. (plain_row (f ip), False)) (global_cache ca2)"
          "ret = Inr () \<longrightarrow> ips = take m ras"
        by blast
      have low: "\<not> ra < 0x4000" using in_stack(3) by (simp add: not_less)
      from trace_advance_plain [OF env l(2) p, of ?v False ip rbp] show ?thesis
      proof
        assume "trace_advance env ?v c' (trace_frame f (ip - 1) False)
            \<lparr>tr_cfa = sp, tr_rip = ip, tr_rbp = rbp, tr_rsp = sp\<rparr>
          = Inr (?v, ?c, Inr \<lparr>tr_cfa = sp + f ip, tr_rip = ra, tr_rbp = rbp, tr_rsp = sp + f ip\<rparr>)"
        then show ?thesis using Suc l(1) prev Some e low r by simp
      next
        assume "trace_advance env ?v c' (trace_frame f (ip - 1) False)
            \<lparr>tr_cfa = sp, tr_rip = ip, tr_rbp = rbp, tr_rsp = sp\<rparr> = Inr (?v, c', Inl UNW_ESTOPUNWIND)"
        then show ?thesis using Suc l(1) prev Some e g by simp
      qed
    qed
  qed
qed


section \<open>Traces and backtraces\<close>

lemma init_registers:
  assumes "access_reg (c_as c) 16 = Inr ip" and "access_reg (c_as c) 7 = Inr sp"
    and "unw_init_local_common c b = Inr (c', Inr ())"
  shows "c_as c' = c_as c" "c_use_prev_instr c' = b" "c_loc c' ! 6 = DWARF_REG_LOC 6"
proof -
  have locs: "map DWARF_REG_LOC [0..<17] ! 16 = DWARF_REG_LOC 16" "map DWARF_REG_LOC [0..<17] ! 6 = DWARF_REG_LOC 6"
    by (simp_all del: upt_rec_numeral)
  have reg: "sint (ucast (16 :: unw_word) :: 32 word) = 16" "sint (ucast (7 :: unw_word) :: 32 word) = 7"
    by simp_all
  show "c_as c' = c_as c" "c_use_prev_instr c' = b" "c_loc c' ! 6 = DWARF_REG_LOC 6"
    using assms locs reg
    by (auto simp: unw_init_local_common_def common_init_def Let_def dwarf_get_def simp del: upt_rec_numeral)
qed

definition thread_fits :: "(unw_word \<Rightarrow> unw_word) \<Rightarrow> unw_word set \<Rightarrow> trace_thread \<Rightarrow> bool" where
  "thread_fits f outer t \<longleftrightarrow> (\<forall>cache. tls_cache t = Some cache \<longrightarrow> cache_fits f outer cache)"

lemma trace_cache_get_fits:
  assumes "thread_fits f outer t" and "trace_cache_get room t = (Some cache, t')"
  shows "cache_fits f outer cache"
  using assms cache_fits_empty
  by (auto simp: trace_cache_get_def trace_cache_create_def trace_cache_buckets_def thread_fits_def Let_def
      split: option.splits if_splits)

lemma tdep_trace_calls:
  assumes "calls (step_env.truncate env) as f ip sp ras" and env: "validates env"
    and r: "ready env as f c ca ip sp" and prev: "c_use_prev_instr c"
    and rbp: "dwarf_get c (c_loc c ! 6) = Inr rbp"
    and t: "thread_fits f outer t" and "set (butlast (ip # ras)) \<inter> outer = {}" and "\<forall>a \<in> set (ip # ras). 0x4000 \<le> a"
  shows "\<exists>ret ips ca' t'. tdep_trace env room c ca t n = Inr (ret, ips, ca', t')
    \<and> steady ca' \<and> good_cache (\<lambda>ip. (plain_row (f ip), False)) (global_cache ca')
    \<and> (ret = Inr () \<longrightarrow> ips = take n ras)"
proof -
  have g: "steady ca" "good_cache (\<lambda>ip. (plain_row (f ip), False)) (global_cache ca)" "c_ip c = ip" "c_cfa c = sp"
    using r by (simp_all add: ready_def at_frame_def)
  have "as\<lparr>access_reg := access_reg as\<rparr> = as" by simp
  then have "trace_ready env as f (c\<lparr>c_stash_frames := True\<rparr>) ca"
    using r prev by (auto simp: ready_def at_frame_def trace_ready_def wf_cursor_def good_cursor_def
        hint_ok_def validatesD(3) [OF env] intro: exI [of _ "access_reg as"])
  note loop = trace_loop_calls [OF assms(1) env this _ assms(7,8), of _ n room False rbp]
  obtain fo t1 where get: "trace_cache_get room t = (fo, t1)" by fastforce
  show ?thesis
  proof (cases "n = 0 \<or> fo = None")
    case True
    then show ?thesis using g rbp get by (auto simp: tdep_trace_def Let_def)
  next
    case False
    then obtain cache where c: "fo = Some cache" by auto
    from loop [OF trace_cache_get_fits [OF t get [unfolded c]]] False c get rbp g show ?thesis
      by (auto simp: tdep_trace_def Let_def)
  qed
qed

lemma unw_backtrace_calls:
  assumes env: "validates env"
    and "calls (step_env.truncate env) (ue_validating env (c_as c)) f ip sp ras"
    and regs: "access_reg (c_as c) 16 = Inr ip" "access_reg (c_as c) 7 = Inr sp" "access_reg (c_as c) 6 = Inr rbp"
    and "calls (step_env.truncate env) (ue_validating env (c_as again)) f ip2 sp ras"
    and "access_reg (c_as again) 16 = Inr ip2" "access_reg (c_as again) 7 = Inr sp"
    and "length (c_eh_args c) = 2" "length (c_eh_args again) = 2"
    and ca: "steady ca" "good_cache (\<lambda>ip. (plain_row (f ip), False)) (global_cache ca)"
    and t: "thread_fits f outer t" and s: "set (butlast (ip # ras)) \<inter> outer = {}" "\<forall>a \<in> set (ip # ras). 0x4000 \<le> a"
  shows "unw_backtrace env room c again ca t n = Inr (take n ras)"
proof -
  note v = validatesD [OF env]
  obtain c' where c': "unw_init_local_common c True = Inr (c', Inr ())"
    "ready env (ue_validating env (c_as c)) f c' ca ip sp"
    using init_ready [OF ca assms(9) regs(1,2) v(2), of 0] by (auto simp: unw_init_local2_def v(3))
  note i = init_registers [OF regs(1,2) c'(1)]
  have prev: "c_use_prev_instr c'" using i(2) by simp
  have "sint (ucast (6 :: unw_word) :: 32 word) = 6" by simp
  then have rbp: "dwarf_get c' (c_loc c' ! 6) = Inr rbp" using regs(3) i by (simp add: dwarf_get_def)
  obtain ret ips ca' t' where tr: "tdep_trace env room c' ca t n = Inr (ret, ips, ca', t')" "steady ca'"
    "good_cache (\<lambda>ip. (plain_row (f ip), False)) (global_cache ca')" "ret = Inr () \<longrightarrow> ips = take n ras"
    using tdep_trace_calls [OF assms(2) env c'(2) prev rbp t s, of room n] by auto
  have "slow_backtrace env again ca' 0 n = Inr (take n ras)"
    using slow_backtrace_calls [of env again f ip2 sp ras ca' 0 n] assms(6-8,10) v(2,3) tr(2,3) by simp
  then show ?thesis using c'(1) tr by (cases ret) (auto simp: unw_backtrace_def)
qed

end
