(* ===== verification/TraceProps.thy ===== *)
theory TraceProps
  imports TraceLemmas UnwindProps
begin

text \<open>The property of the fast trace, with an instance.\<close>

text \<open>C2. On a call stack of functions with ordinary frames, \<open>unw_backtrace\<close> returns exactly the first \<open>n\<close>
  return addresses, whether the fast trace walks the stack with the thread's cache, fills it on the
  way, expands it, or gives up and leaves the work to the steps of \<open>slow_backtrace\<close>. The
  descriptions that the cache holds must be those of the frames, and none of a function with a
  caller may be marked as the last one.\<close>
theorem unw_backtrace_of_call_stack:
  assumes "validates env"
    and "calls (step_env.truncate env) (ue_validating env (c_as c)) f ip sp ras"
    and "access_reg (c_as c) 16 = Inr ip" and "access_reg (c_as c) 7 = Inr sp" and "access_reg (c_as c) 6 = Inr rbp"
    and "calls (step_env.truncate env) (ue_validating env (c_as again)) f ip2 sp ras"
    and "access_reg (c_as again) 16 = Inr ip2" and "access_reg (c_as again) 7 = Inr sp"
    and "length (c_eh_args c) = 2" and "length (c_eh_args again) = 2"
    and "steady ca" and "good_cache (\<lambda>ip. (plain_row (f ip), False)) (global_cache ca)"
    and "thread_fits f outer t" and "set (butlast (ip # ras)) \<inter> outer = {}"
    and "\<forall>a \<in> set (ip # ras). 0x4000 \<le> a"
  shows "unw_backtrace env room c again ca t n = Inr (take n ras)"
  by (rule unw_backtrace_calls [OF assms])

theorem unw_backtrace_of_call_stack_witness:
  "unw_backtrace small_env (\<lambda>_. True) (blank_cursor small_as) (blank_cursor small_as) small_caches
     \<lparr>tls_cache = None, tls_cache_destroyed = False\<rparr> 10 = Inr [0x5000]"
proof -
  have e: "ue_validating small_env as = as" "se_is_local small_env" for as by (simp_all add: small_env_def)
  then have v: "validates small_env" by (simp add: validates_def checks_only_def)
  have c: "calls (step_env.truncate small_env) (ue_validating small_env (c_as (blank_cursor small_as)))
      (\<lambda>_. 16) 0x4000 0x7000 [0x5000]"
    using small_calls by (simp add: e)
  have r: "access_reg (c_as (blank_cursor small_as)) 16 = Inr 0x4000"
    "access_reg (c_as (blank_cursor small_as)) 7 = Inr 0x7000"
    "access_reg (c_as (blank_cursor small_as)) 6 = Inr 0x7000"
    by (simp_all add: small_as_def stack_as_def)
  have l: "length (c_eh_args (blank_cursor small_as)) = 2" by (simp add: blank_cursor_def)
  have "unw_backtrace small_env (\<lambda>_. True) (blank_cursor small_as) (blank_cursor small_as) small_caches
     \<lparr>tls_cache = None, tls_cache_destroyed = False\<rparr> 10 = Inr (take 10 [0x5000])"
    by (rule unw_backtrace_of_call_stack [OF v c r c r(1,2) l l small_cache_good(1,2), of "{}"])
      (simp_all add: thread_fits_def word_le_nat_alt)
  then show ?thesis by simp
qed

end
