(* ===== verification/Regs.thy ===== *)
theory Regs
  imports Unwind DwarfReadLemmas
begin

text \<open>
  Writing registers and resuming: \<open>dwarf_put\<close>, the write side of \<open>tdep_access_reg\<close> and
  \<open>unw_set_reg\<close> (\<open>src/x86_64/Gregs.c\<close>), save locations and procedure information of a frame,
  \<open>unw_resume\<close> (\<open>src/x86_64/Gresume.c\<close>), and the accessors of the process itself
  (\<open>src/x86_64/Ginit.c\<close>) over its memory and its saved context.
\<close>

section \<open>Writing through the accessors\<close>

text \<open>
  The accessors called with \<open>write = 1\<close>: they change what the address space delivers afterwards,
  or fail.
\<close>

record writer =
  write_mem :: "addr_space \<Rightarrow> unw_word \<Rightarrow> unw_word \<Rightarrow> unw_error + addr_space"
  write_reg :: "addr_space \<Rightarrow> int \<Rightarrow> unw_word \<Rightarrow> unw_error + addr_space"

definition dwarf_put :: "writer \<Rightarrow> cursor \<Rightarrow> dwarf_loc \<Rightarrow> unw_word \<Rightarrow> cursor res" where
  "dwarf_put W c l v =
     (if DWARF_IS_VAL_LOC l then Inl Aborted
      else if DWARF_IS_NULL_LOC l then Inl (Err UNW_EBADREG)
      else rbind (lift_acc (if DWARF_IS_REG_LOC l
                            then write_reg W (c_as c) (sint (ucast (loc_val l) :: 32 word)) v
                            else write_mem W (c_as c) (loc_val l) v)) (\<lambda>as.
           Inr (c\<lparr>c_as := as\<rparr>)))"

text \<open>The end of \<open>tdep_access_reg\<close> with \<open>write = 1\<close>: an error leaves the cursor as it is.\<close>

definition put_location ::
  "writer \<Rightarrow> cursor \<Rightarrow> nat \<Rightarrow> unw_word \<Rightarrow> (cursor \<times> (unw_error + unit)) res" where
  "put_location W c i v =
     rbind (arr_get (c_loc c) i) (\<lambda>l.
     rbind (attempt (dwarf_put W c l v)) (\<lambda>r.
     Inr (case r of Inl e \<Rightarrow> (c, Inl e) | Inr c' \<Rightarrow> (c', Inr ()))))"

text \<open>
  \<open>tdep_access_reg\<close> with \<open>write = 1\<close>. The cached address of the cursor is replaced first; the two
  registers that carry values to an exception handler are kept in the cursor.
\<close>

definition tdep_access_reg_write ::
  "writer \<Rightarrow> cursor \<Rightarrow> int \<Rightarrow> unw_word \<Rightarrow> (cursor \<times> (unw_error + unit)) res" where
  "tdep_access_reg_write W c reg v =
     (if reg = UNW_X86_64_RIP then put_location W (c\<lparr>c_ip := v\<rparr>) RIP v
      else if reg = UNW_X86_64_CFA then Inr (c, Inl UNW_EREADONLYREG)
      else if reg = int RAX \<or> reg = int RDX then
        (let arg_num = nat (reg - int RAX); mask = push_bit arg_num 1 in
         rbind (arr_set (c_eh_args c) arg_num v) (\<lambda>args.
         Inr (c\<lparr>c_eh_args := args, c_eh_valid_mask := c_eh_valid_mask c OR mask\<rparr>, Inr ())))
      else if 2 \<le> reg \<and> reg \<le> 15 then put_location W c (nat reg) v
      else Inr (c, Inl UNW_EBADREG))"

definition unw_set_reg ::
  "writer \<Rightarrow> cursor \<Rightarrow> int \<Rightarrow> unw_word \<Rightarrow> (cursor \<times> (unw_error + unit)) res" where
  "unw_set_reg W c regnum valp = tdep_access_reg_write W c regnum valp"

text \<open>Floating-point registers are not supported.\<close>

definition unw_is_fpreg :: "int \<Rightarrow> bool" where
  "unw_is_fpreg regnum \<longleftrightarrow> False"

section \<open>What is known of a frame\<close>

datatype unw_save_loc = UNW_SLT_NONE | UNW_SLT_MEMORY unw_word | UNW_SLT_REG unw_word

text \<open>A location that is a value is reported as memory at this value.\<close>

definition unw_get_save_loc :: "cursor \<Rightarrow> int \<Rightarrow> unw_save_loc res" where
  "unw_get_save_loc c reg =
     rbind (if reg \<in> {int RBX, int RSP, int RBP, 12, 13, 14, 15, UNW_X86_64_RIP}
            then arr_get (c_loc c) (nat reg) else Inr DWARF_NULL_LOC) (\<lambda>l.
     Inr (if DWARF_IS_NULL_LOC l then UNW_SLT_NONE
          else if DWARF_IS_REG_LOC l then UNW_SLT_REG (loc_val l)
          else UNW_SLT_MEMORY (loc_val l)))"

text \<open>\<open>unw_get_proc_info\<close> never fails: without unwind information it describes one address.\<close>

definition unw_get_proc_info ::
  "step_env \<Rightarrow> cursor \<Rightarrow> as_caches \<Rightarrow> (cursor \<times> as_caches \<times> unw_proc_info) res" where
  "unw_get_proc_info env c ca =
     rbind (dwarf_make_proc_info env c ca) (\<lambda>(c, ca, ret).
     Inr (c, ca, case ret of
            Inl e \<Rightarrow> zero_pi\<lparr>pi_start_ip := c_ip c, pi_end_ip := c_ip c + 1\<rparr>
          | Inr _ \<Rightarrow> c_pi c))"

text \<open>
  \<open>unw_get_proc_info_by_ip\<close>; \<open>find_info\<close> is the callback \<open>find_proc_info\<close> without the unwind
  information.
\<close>

definition unw_get_proc_info_by_ip ::
  "step_env \<Rightarrow> (unw_word \<Rightarrow> unw_proc_info \<Rightarrow> unw_proc_info res) \<Rightarrow> as_caches \<Rightarrow> unw_word
    \<Rightarrow> unw_proc_info \<Rightarrow> (as_caches \<times> (unw_error + unw_proc_info)) res" where
  "unw_get_proc_info_by_ip env find_info ca ip pi =
     (let (ca, found) = unwi_find_dynamic_proc_info (se_process env) (se_is_local env) (se_dyn_list env)
             (se_target env) ca ip pi False in
      rbind (attempt found) (\<lambda>r.
      case r of
        Inr pi \<Rightarrow> Inr (ca, Inr pi)
      | Inl e \<Rightarrow> if e = UNW_ENOINFO then rbind (attempt (find_info ip pi)) (\<lambda>r. Inr (ca, r))
                 else Inr (ca, Inl e)))"

text \<open>\<open>unw_init_remote\<close>. It leaves the member \<open>frames\<close> as the caller has it.\<close>

definition unw_init_remote :: "cursor \<Rightarrow> addr_space \<Rightarrow> (cursor \<times> (unw_error + unit)) res" where
  "unw_init_remote c as = common_init (c\<lparr>c_as := as\<rparr>) False"

section \<open>Resuming\<close>

text \<open>\<open>establish_machine_state\<close>: every register the cursor can read is written to the target.\<close>

definition write_or_keep :: "writer \<Rightarrow> cursor \<Rightarrow> int \<Rightarrow> unw_word \<Rightarrow> cursor" where
  "write_or_keep W c reg v =
     (case write_reg W (c_as c) reg v of Inl e \<Rightarrow> c | Inr as \<Rightarrow> c\<lparr>c_as := as\<rparr>)"

definition copy_out_reg :: "writer \<Rightarrow> cursor \<Rightarrow> int \<Rightarrow> cursor res" where
  "copy_out_reg W c reg =
     (if unw_is_fpreg reg then Inr c
      else rbind (attempt (tdep_access_reg_read c reg)) (\<lambda>r.
           Inr (case r of Inl e \<Rightarrow> c | Inr v \<Rightarrow> write_or_keep W c reg v)))"

fun copy_out :: "writer \<Rightarrow> cursor \<Rightarrow> nat list \<Rightarrow> cursor res" where
  "copy_out W c [] = Inr c"
| "copy_out W c (r # rs) = rbind (copy_out_reg W c (int r)) (\<lambda>c. copy_out W c rs)"

definition establish_machine_state :: "writer \<Rightarrow> cursor \<Rightarrow> cursor res" where
  "establish_machine_state W c =
     rbind (copy_out W c [0..<17]) (\<lambda>c.
     if c_args_size c \<noteq> 0
     then rbind (attempt (tdep_access_reg_read c (int RSP))) (\<lambda>r.
          Inr (case r of Inl e \<Rightarrow> c | Inr v \<Rightarrow> write_or_keep W c (int RSP) (v + c_args_size c)))
     else Inr c)"

text \<open>\<open>unw_resume\<close>, with the callback \<open>resume\<close> of the address space.\<close>

definition unw_resume :: "writer \<Rightarrow> (cursor \<Rightarrow> 'a res) \<Rightarrow> cursor \<Rightarrow> 'a res" where
  "unw_resume W resume c = rbind (establish_machine_state W c) resume"

section \<open>The process itself\<close>

text \<open>
  The saved context of a thread lies in its memory, a word for every register at the offsets of
  \<open>src/x86_64/ucontext_i.h\<close>; a register number selects the address of its word.
\<close>

definition uc_gregs :: "unw_word list" where
  "uc_gregs = [0x90, 0x88, 0x98, 0x80, 0x70, 0x68, 0x78, 0xa0, 0x28, 0x30, 0x38, 0x40, 0x48, 0x50,
     0x58, 0x60, 0xa8]"

definition x86_64_r_uc_addr :: "unw_word \<Rightarrow> int \<Rightarrow> unw_word option" where
  "x86_64_r_uc_addr uc reg =
     (if 0 \<le> reg \<and> reg < 17 then Some (uc + uc_gregs ! nat reg) else None)"

text \<open>
  Reading with the accessors \<open>access_mem\<close> and \<open>access_reg\<close> of the process; \<open>is_valid\<close> tells which
  words can be read, which is checked on demand.
\<close>

definition local_access_mem ::
  "(unw_word \<Rightarrow> bool) \<Rightarrow> bool \<Rightarrow> memory \<Rightarrow> unw_word \<Rightarrow> unw_error + unw_word" where
  "local_access_mem is_valid validate m addr =
     (if validate \<and> \<not> is_valid addr then Inl UNW_EUNSPEC else Inr (word_at m addr))"

definition local_access_reg :: "memory \<Rightarrow> unw_word \<Rightarrow> int \<Rightarrow> unw_error + unw_word" where
  "local_access_reg m uc reg =
     (if unw_is_fpreg reg then Inl UNW_EBADREG
      else case x86_64_r_uc_addr uc reg of
             None \<Rightarrow> Inl UNW_EBADREG | Some addr \<Rightarrow> Inr (word_at m addr))"

definition local_space :: "(unw_word \<Rightarrow> bool) \<Rightarrow> bool \<Rightarrow> memory \<Rightarrow> unw_word \<Rightarrow> addr_space" where
  "local_space is_valid validate m uc =
     \<lparr>access_mem = local_access_mem is_valid validate m, access_reg = local_access_reg m uc,
      big_endian = False, addr_size = 8\<rparr>"

text \<open>
  Writing: the eight bytes of a word are stored, and every word that overlaps them, in memory or
  in the saved context, is read differently from then on.
\<close>

definition stored :: "unw_word \<Rightarrow> unw_word \<Rightarrow> memory \<Rightarrow> memory" where
  "stored a v m = (\<lambda>x. if unat (x - a) < 8 then ucast (drop_bit (8 * unat (x - a)) v) else m x)"

definition overlay :: "unw_word \<Rightarrow> unw_word \<Rightarrow> unw_word \<Rightarrow> unw_word \<Rightarrow> unw_word" where
  "overlay a v b old = word_at (stored a v (\<lambda>x. ucast (drop_bit (8 * unat (x - b)) old))) b"

definition store_word :: "unw_word \<Rightarrow> unw_word \<Rightarrow> unw_word \<Rightarrow> addr_space \<Rightarrow> addr_space" where
  "store_word uc a v as =
     as\<lparr>access_mem := (\<lambda>b. map_sum id (overlay a v b) (access_mem as b)),
        access_reg := (\<lambda>r. case x86_64_r_uc_addr uc r of
            None \<Rightarrow> access_reg as r | Some b \<Rightarrow> map_sum id (overlay a v b) (access_reg as r))\<rparr>"

definition local_writer :: "unw_word \<Rightarrow> writer" where
  "local_writer uc =
     \<lparr>write_mem = (\<lambda>as a v. Inr (store_word uc a v as)),
      write_reg = (\<lambda>as r v. if unw_is_fpreg r then Inl UNW_EBADREG
        else case x86_64_r_uc_addr uc r of
               None \<Rightarrow> Inl UNW_EBADREG | Some a \<Rightarrow> Inr (store_word uc a v as))\<rparr>"

text \<open>
  How \<open>x86_64_local_resume\<close> leaves: by installing the saved context, or by returning from the
  signal whose frame lies at an address, after its registers have been replaced by those of the
  saved context. Neither returns. The words of a context are copied in the order of their
  addresses.
\<close>

datatype machine = Setcontext | Sigreturn unw_word

definition gregs_order :: "nat list" where
  "gregs_order = [8, 9, 10, 11, 12, 13, 14, 15, 5, 4, 6, 3, 1, 0, 2, 7, 16]"

definition x86_64_sigreturn :: "unw_word \<Rightarrow> cursor \<Rightarrow> cursor res" where
  "x86_64_sigreturn uc c =
     rbind (foldl (\<lambda>as i. rbind as (\<lambda>as.
              rbind (lift_acc (access_reg as (int (gregs_order ! i)))) (\<lambda>v.
              Inr (store_word uc (c_sigcontext_addr c + 0x28 + word_of_nat (8 * i)) v as))))
            (Inr (c_as c)) [0..<17]) (\<lambda>as.
     Inr (c\<lparr>c_as := as\<rparr>))"

definition x86_64_local_resume ::
  "step_env \<Rightarrow> unw_word \<Rightarrow> as_caches \<Rightarrow> cursor \<Rightarrow> (cursor \<times> as_caches \<times> machine) res" where
  "x86_64_local_resume env uc ca c =
     rbind (dwarf_make_proc_info env c ca) (\<lambda>(c, ca, ret).
     if c_sigcontext_addr c \<noteq> 0
     then rbind (x86_64_sigreturn uc c) (\<lambda>c. Inr (c, ca, Sigreturn (c_sigcontext_addr c)))
     else Inr (c, ca, Setcontext))"

end
