(* ===== verification/RegsLemmas.thy ===== *)
theory RegsLemmas
  imports Regs
begin

text \<open>
  Register writes: the contract between the accessors and the cursor as a locale (what is read
  after a write), the lemmas on writing registers and on resuming proved in it, and its
  interpretation on the accessors of the process itself.
\<close>

section \<open>Bytes of words\<close>

lemma word_at_eqI:
  assumes "\<And>i. i < 8 \<Longrightarrow> m (a + word_of_nat i) = ucast (drop_bit (8 * i) w)"
  shows "word_at m a = w"
proof (rule bit_word_eqI)
  fix n assume "n < LENGTH(64)"
  then have n: "n div 8 < 8" by simp
  have "(ucast (drop_bit (8 * (n div 8)) (word_at m a)) :: 8 word) = ucast (drop_bit (8 * (n div 8)) w)"
    using word_at_byte [OF n] assms [OF n] by metis
  then have "bit (ucast (drop_bit (8 * (n div 8)) (word_at m a)) :: 8 word) (n mod 8)
      = bit (ucast (drop_bit (8 * (n div 8)) w) :: 8 word) (n mod 8)" by simp
  then show "bit (word_at m a) n = bit w n"
    by (simp add: bit_simps)
qed

text \<open>Two words that do not overlap.\<close>

definition apart :: "unw_word \<Rightarrow> unw_word \<Rightarrow> bool" where
  "apart a b \<longleftrightarrow> 8 \<le> unat (b - a) \<and> 8 \<le> unat (a - b)"

lemma apart_sym: "apart a b \<Longrightarrow> apart b a"
  by (simp add: apart_def)

lemma apart_offset: "apart (u + a) (u + b) = apart a b"
  by (simp add: apart_def)

lemma apart_byte:
  assumes "apart a b" and "i < 8"
  shows "8 \<le> unat (b + word_of_nat i - a)"
proof (rule ccontr)
  assume "\<not> 8 \<le> unat (b + word_of_nat i - a)"
  moreover have "b + word_of_nat i - a = word_of_nat (unat (b + word_of_nat i - a))" by simp
  ultimately obtain k where k: "k < 8" "b + word_of_nat i - a = word_of_nat k"
    by (metis not_le)
  show False
  proof (cases "i \<le> k")
    case True
    have "b - a = word_of_nat k - word_of_nat i" using k(2) by (simp add: algebra_simps)
    also have "\<dots> = word_of_nat (k - i)" using True by (simp add: of_nat_diff)
    finally have "unat (b - a) = k - i" using k(1) by (simp add: unat_of_nat)
    then show False using assms(1) k(1) unfolding apart_def by arith
  next
    case False
    have "a - b = word_of_nat i - word_of_nat k" using k(2) by (simp add: algebra_simps)
    also have "\<dots> = word_of_nat (i - k)" using False by (simp add: of_nat_diff)
    finally have "unat (a - b) = i - k" using assms(2) by (simp add: unat_of_nat)
    then show False using assms unfolding apart_def by arith
  qed
qed

lemma unat_small: "i < 8 \<Longrightarrow> unat (word_of_nat i :: unw_word) = i"
  by (simp add: unat_of_nat)

lemma overlay_same: "overlay a v a old = v"
  unfolding overlay_def by (rule word_at_eqI) (simp add: stored_def unat_small)

lemma overlay_apart: "apart a b \<Longrightarrow> overlay a v b old = old"
  unfolding overlay_def
  by (rule word_at_eqI) (use apart_byte [of a b] in \<open>fastforce simp: stored_def unat_small\<close>)

text \<open>Storing a word into the address space of a memory gives that of the changed memory.\<close>

lemma overlay_memory: "overlay a v b (word_at m b) = word_at (stored a v m) b"
  unfolding overlay_def
proof (rule word_at_eqI)
  fix i :: nat assume "i < 8"
  then show "stored a v (\<lambda>x. ucast (drop_bit (8 * unat (x - b)) (word_at m b))) (b + word_of_nat i)
      = ucast (drop_bit (8 * i) (word_at (stored a v m) b))"
    using word_at_byte [of i m b] word_at_byte [of i "stored a v m" b] by (simp add: stored_def unat_small)
qed

lemma store_word_memory:
  "store_word uc a v (local_space is_valid validate m uc) = local_space is_valid validate (stored a v m) uc"
  by (auto simp: store_word_def local_space_def local_access_mem_def local_access_reg_def overlay_memory
      unw_is_fpreg_def fun_eq_iff split: option.split)

section \<open>The contract of the accessors\<close>

text \<open>
  In an address space that satisfies \<open>ok\<close>, exactly the registers 0 to 16 can be read and written; a
  write changes the register or word it is for, no word of memory \<open>outside\<close> the saved registers
  overlaps them, and words that do not overlap are independent.
\<close>

locale register_file =
  fixes W :: writer and ok :: "addr_space \<Rightarrow> bool" and outside :: "unw_word \<Rightarrow> bool"
  assumes reg_read: "ok as \<Longrightarrow> (\<exists>v. access_reg as r = Inr v) \<longleftrightarrow> 0 \<le> r \<and> r < 17"
    and reg_write: "ok as \<Longrightarrow> 0 \<le> r \<Longrightarrow> r < 17 \<Longrightarrow> \<exists>as'. write_reg W as r v = Inr as' \<and> ok as'
      \<and> access_reg as' = (access_reg as)(r := Inr v)
      \<and> (\<forall>a. outside a \<longrightarrow> access_mem as' a = access_mem as a)"
    and mem_write: "ok as \<Longrightarrow> access_mem as a = Inr old \<Longrightarrow> \<exists>as'. write_mem W as a v = Inr as' \<and> ok as'
      \<and> access_mem as' a = Inr v \<and> (\<forall>b. apart a b \<longrightarrow> access_mem as' b = access_mem as b)
      \<and> (outside a \<longrightarrow> access_reg as' = access_reg as)"

text \<open>When writing to one location leaves another as it is.\<close>

definition locs_apart :: "(unw_word \<Rightarrow> bool) \<Rightarrow> dwarf_loc \<Rightarrow> dwarf_loc \<Rightarrow> bool" where
  "locs_apart outside l l' \<longleftrightarrow>
     (if DWARF_IS_REG_LOC l'
      then (if DWARF_IS_REG_LOC l
            then sint (ucast (loc_val l) :: 32 word) \<noteq> sint (ucast (loc_val l') :: 32 word)
            else outside (loc_val l))
      else DWARF_IS_MEM_LOC l' \<longrightarrow>
           (if DWARF_IS_REG_LOC l then outside (loc_val l') else apart (loc_val l) (loc_val l')))"

text \<open>
  A location that is not disturbed while registers below a number are replaced: a value, a
  register from that number on, or memory outside the saved registers.
\<close>

definition late_loc :: "(unw_word \<Rightarrow> bool) \<Rightarrow> nat \<Rightarrow> dwarf_loc \<Rightarrow> bool" where
  "late_loc outside r l \<longleftrightarrow> (\<exists>v. l = DWARF_VAL_LOC v) \<or> (\<exists>j. l = DWARF_REG_LOC j \<and> r \<le> j \<and> j < 17)
     \<or> (\<exists>a. l = DWARF_MEM_LOC a \<and> outside a)"

lemma regnum_roundtrip: "j < 17 \<Longrightarrow> sint (ucast (word_of_nat j :: unw_word) :: 32 word) = int j"
proof -
  assume "j < 17"
  then have "j = 0 \<or> j = 1 \<or> j = 2 \<or> j = 3 \<or> j = 4 \<or> j = 5 \<or> j = 6 \<or> j = 7 \<or> j = 8 \<or> j = 9 \<or> j = 10
      \<or> j = 11 \<or> j = 12 \<or> j = 13 \<or> j = 14 \<or> j = 15 \<or> j = 16" by arith
  then show ?thesis by (elim disjE) simp_all
qed


lemma rip_location [simp]: "c_loc (c\<lparr>c_ip := v\<rparr>) = c_loc c" "c_as (c\<lparr>c_ip := v\<rparr>) = c_as c"
  by simp_all

text \<open>Where the value of a register of the caller is found.\<close>

definition kept_in_cursor :: "cursor \<Rightarrow> int \<Rightarrow> bool" where
  "kept_in_cursor c r \<longleftrightarrow> (r = 0 \<or> r = 1) \<and> c_eh_valid_mask c AND push_bit (nat r) 1 \<noteq> 0"

lemma read_kept:
  assumes "kept_in_cursor c r" and "wf_cursor c"
  shows "tdep_access_reg_read c r = Inr (c_eh_args c ! nat r)"
  using assms by (auto simp: kept_in_cursor_def tdep_access_reg_read_def wf_cursor_def Let_def)

lemma read_location:
  assumes "\<not> kept_in_cursor c r" and "wf_cursor c" and "0 \<le> r" and "r < 17"
  shows "tdep_access_reg_read c r = dwarf_get c (c_loc c ! nat r)"
proof -
  have "r = 0 \<or> r = 1 \<or> r = 16 \<or> 2 \<le> r \<and> r \<le> 15" using assms(3,4) by arith
  then show ?thesis
    using assms(1,2) by (elim disjE) (auto simp: kept_in_cursor_def tdep_access_reg_read_def wf_cursor_def Let_def)
qed

text \<open>Setting one of the two argument registers of a handler keeps its value in the cursor.\<close>

lemma kept_after_set:
  "r = 0 \<or> r = 1 \<Longrightarrow> kept_in_cursor (c\<lparr>c_eh_args := xs, c_eh_valid_mask := m OR push_bit (nat r) 1\<rparr>) r"
  "\<lbrakk>r = 0 \<or> r = 1; q \<noteq> r\<rbrakk> \<Longrightarrow> kept_in_cursor
    (c\<lparr>c_eh_args := xs, c_eh_valid_mask := c_eh_valid_mask c OR push_bit (nat r) 1\<rparr>) q = kept_in_cursor c q"
  by (auto simp: kept_in_cursor_def bit.conj_disj_distrib2)

text \<open>Every register of the caller can be copied out in the order of the registers.\<close>

definition copies_well :: "(unw_word \<Rightarrow> bool) \<Rightarrow> cursor \<Rightarrow> bool" where
  "copies_well outside c \<longleftrightarrow> (\<forall>r < 17. kept_in_cursor c (int r) \<or> late_loc outside r (c_loc c ! r))
     \<and> (c_args_size c \<noteq> 0 \<longrightarrow> c_loc c ! 7 = DWARF_REG_LOC 7 \<or> \<not> DWARF_IS_REG_LOC (c_loc c ! 7))"

lemma late_loc_mono: "late_loc outside r l \<Longrightarrow> k \<le> r \<Longrightarrow> late_loc outside k l"
  by (auto simp: late_loc_def)

lemma late_get:
  assumes "late_loc outside r l"
    and "\<forall>j. r \<le> j \<and> j < 17 \<longrightarrow> access_reg as' (int j) = access_reg (c_as c) (int j)"
    and "\<forall>a. outside a \<longrightarrow> access_mem as' a = access_mem (c_as c) a"
  shows "dwarf_get (c\<lparr>c_as := as'\<rparr>) l = dwarf_get c l"
  using assms by (auto simp: late_loc_def dwarf_get_def regnum_roundtrip)

text \<open>The registers below \<open>k\<close> have been copied to the address space, nothing else has changed.\<close>

definition copied ::
  "(addr_space \<Rightarrow> bool) \<Rightarrow> (unw_word \<Rightarrow> bool) \<Rightarrow> cursor \<Rightarrow> (nat \<Rightarrow> unw_word) \<Rightarrow> nat \<Rightarrow> addr_space \<Rightarrow> bool" where
  "copied ok outside c val k as' \<longleftrightarrow> ok as' \<and> (\<forall>j < k. access_reg as' (int j) = Inr (val j))
     \<and> (\<forall>j. k \<le> j \<and> j < 17 \<longrightarrow> access_reg as' (int j) = access_reg (c_as c) (int j))
     \<and> (\<forall>a. outside a \<longrightarrow> access_mem as' a = access_mem (c_as c) a)"

context register_file
begin

lemma put_get:
  assumes "ok (c_as c)" and "dwarf_get c l = Inr old" and "\<not> DWARF_IS_VAL_LOC l"
  shows "\<exists>as'. dwarf_put W c l v = Inr (c\<lparr>c_as := as'\<rparr>) \<and> ok as' \<and> dwarf_get (c\<lparr>c_as := as'\<rparr>) l = Inr v
    \<and> (\<forall>l'. locs_apart outside l l' \<longrightarrow> dwarf_get (c\<lparr>c_as := as'\<rparr>) l' = dwarf_get c l')"
proof (cases "DWARF_IS_REG_LOC l")
  case True
  let ?r = "sint (ucast (loc_val l) :: 32 word)"
  have n: "\<not> DWARF_IS_NULL_LOC l" using assms(2) by (auto simp: dwarf_get_def)
  then have "access_reg (c_as c) ?r = Inr old"
    using assms(2) True by (auto simp: dwarf_get_def lift_acc_eq_Inr)
  then have "0 \<le> ?r \<and> ?r < 17" using reg_read [OF assms(1), of ?r] by simp
  then obtain as' where w: "write_reg W (c_as c) ?r v = Inr as'" "ok as'"
    "access_reg as' = (access_reg (c_as c))(?r := Inr v)" "\<forall>a. outside a \<longrightarrow> access_mem as' a = access_mem (c_as c) a"
    using reg_write [OF assms(1), of ?r v] by blast
  then show ?thesis
    using True n assms(3) by (intro exI [of _ as'])
      (auto simp: dwarf_put_def dwarf_get_def locs_apart_def split: if_split_asm)
next
  case False
  have n: "\<not> DWARF_IS_NULL_LOC l" and m: "DWARF_IS_MEM_LOC l" and rd: "access_mem (c_as c) (loc_val l) = Inr old"
    using assms(2,3) False by (auto simp: dwarf_get_def lift_acc_eq_Inr split: if_split_asm)
  obtain as' where w: "write_mem W (c_as c) (loc_val l) v = Inr as'" "ok as'" "access_mem as' (loc_val l) = Inr v"
    "\<forall>b. apart (loc_val l) b \<longrightarrow> access_mem as' b = access_mem (c_as c) b"
    "outside (loc_val l) \<longrightarrow> access_reg as' = access_reg (c_as c)"
    using mem_write [OF assms(1) rd, of v] by blast
  then show ?thesis
    using False n m assms(3) by (intro exI [of _ as'])
      (auto simp: dwarf_put_def dwarf_get_def locs_apart_def split: if_split_asm)
qed

text \<open>Setting a register and reading it again; other registers keep their values.\<close>

lemma set_get:
  assumes "ok (c_as c)" and "wf_cursor c" and "0 \<le> r" and "r < 17"
    and "tdep_access_reg_read c r = Inr old" and "r = 0 \<or> r = 1 \<or> \<not> DWARF_IS_VAL_LOC (c_loc c ! nat r)"
  shows "\<exists>c'. unw_set_reg W c r v = Inr (c', Inr ()) \<and> ok (c_as c') \<and> wf_cursor c'
    \<and> tdep_access_reg_read c' r = Inr v \<and> c_ip c' = (if r = 16 then v else c_ip c)
    \<and> (\<forall>q. 0 \<le> q \<and> q < 17 \<and> q \<noteq> r \<and> (r = 0 \<or> r = 1 \<or> locs_apart outside (c_loc c ! nat r) (c_loc c ! nat q))
        \<longrightarrow> tdep_access_reg_read c' q = tdep_access_reg_read c q)"
proof (cases "r = 0 \<or> r = 1")
  case True
  let ?c = "c\<lparr>c_eh_args := (c_eh_args c)[nat r := v], c_eh_valid_mask := c_eh_valid_mask c OR push_bit (nat r) 1\<rparr>"
  have set: "unw_set_reg W c r v = Inr (?c, Inr ())"
    using True assms(2) by (auto simp: unw_set_reg_def tdep_access_reg_write_def wf_cursor_def Let_def)
  have wf: "wf_cursor ?c" using assms(2) by (simp add: wf_cursor_def)
  have "tdep_access_reg_read ?c r = Inr v"
    using read_kept [OF kept_after_set(1) [OF True] wf] True assms(2) by (auto simp: wf_cursor_def)
  moreover have "tdep_access_reg_read ?c q = tdep_access_reg_read c q" if "0 \<le> q" "q < 17" "q \<noteq> r" for q
  proof (cases "kept_in_cursor c q")
    case k: True
    then show ?thesis
      using read_kept [of ?c q] read_kept [OF k assms(2)] kept_after_set(2) [OF True that(3), of c] wf that assms(3)
      by (auto simp: nth_list_update eq_nat_nat_iff)
  next
    case False
    then show ?thesis
      using read_location [of ?c q] read_location [OF False assms(2) that(1,2)] wf that
        kept_after_set(2) [OF True that(3), of c] by (simp add: dwarf_get_def)
  qed
  ultimately show ?thesis
    using set wf assms(1) True by (intro exI [of _ ?c]) auto
next
  case False
  define c1 where "c1 = (if r = 16 then c\<lparr>c_ip := v\<rparr> else c)"
  have c1: "c_as c1 = c_as c" "c_loc c1 = c_loc c" "wf_cursor c1" "\<And>l. dwarf_get c1 l = dwarf_get c l"
    "c_ip c1 = (if r = 16 then v else c_ip c)" "\<And>q. kept_in_cursor c1 q = kept_in_cursor c q" "c_eh_args c1 = c_eh_args c"
    using assms(2) by (auto simp: c1_def wf_cursor_def dwarf_get_def kept_in_cursor_def)
  have nk: "\<not> kept_in_cursor c r" using False by (simp add: kept_in_cursor_def)
  let ?l = "c_loc c ! nat r"
  have old: "dwarf_get c1 ?l = Inr old" using read_location [OF nk assms(2-4)] assms(5) c1(4) by simp
  obtain as' where p: "dwarf_put W c1 ?l v = Inr (c1\<lparr>c_as := as'\<rparr>)" "ok as'"
    "dwarf_get (c1\<lparr>c_as := as'\<rparr>) ?l = Inr v"
    "\<forall>l'. locs_apart outside ?l l' \<longrightarrow> dwarf_get (c1\<lparr>c_as := as'\<rparr>) l' = dwarf_get c1 l'"
    using put_get [of c1 ?l old v] old assms(1,6) False c1(1) by auto
  let ?c = "c1\<lparr>c_as := as'\<rparr>"
  have len: "nat r < length (c_loc c)" using assms(2-4) by (simp add: wf_cursor_def)
  have "r = 16 \<or> 2 \<le> r \<and> r \<le> 15" using False assms(3,4) by arith
  then have set: "unw_set_reg W c r v = Inr (?c, Inr ())"
    using p(1) len by (elim disjE) (simp_all add: unw_set_reg_def tdep_access_reg_write_def put_location_def c1_def)
  have wf: "wf_cursor ?c" using c1(3) by (simp add: wf_cursor_def)
  have kept: "kept_in_cursor ?c q = kept_in_cursor c q" for q
    using c1(6) [of q] by (simp add: kept_in_cursor_def)
  have get: "tdep_access_reg_read ?c q = dwarf_get ?c (c_loc c ! nat q)" if "\<not> kept_in_cursor c q" "0 \<le> q" "q < 17" for q
    using read_location [of ?c q] that kept wf c1(2) by simp
  have "tdep_access_reg_read ?c r = Inr v" using get [OF nk assms(3,4)] p(3) by simp
  moreover have "tdep_access_reg_read ?c q = tdep_access_reg_read c q"
    if "0 \<le> q" "q < 17" "locs_apart outside ?l (c_loc c ! nat q)" for q
  proof (cases "kept_in_cursor c q")
    case k: True
    then show ?thesis using read_kept [of ?c q] read_kept [OF k assms(2)] kept wf c1(7) by simp
  next
    case nk: False
    then show ?thesis
      using get [OF nk that(1,2)] p(4) that c1(4) read_location [OF nk assms(2) that(1,2)] by simp
  qed
  ultimately show ?thesis
    using set p(2) wf c1(5) False by (intro exI [of _ ?c]) auto
qed

lemma read_undisturbed:
  assumes "wf_cursor c" and "r < 17" and "kept_in_cursor c (int r) \<or> late_loc outside r (c_loc c ! r)"
    and "copied ok outside c val k as'" and "k \<le> r"
  shows "tdep_access_reg_read (c\<lparr>c_as := as'\<rparr>) (int r) = tdep_access_reg_read c (int r)"
proof (cases "kept_in_cursor c (int r)")
  case True
  moreover have "kept_in_cursor (c\<lparr>c_as := as'\<rparr>) (int r)" using True by (simp add: kept_in_cursor_def)
  ultimately show ?thesis
    using read_kept [of c "int r"] read_kept [of "c\<lparr>c_as := as'\<rparr>" "int r"] assms(1) by (simp add: wf_cursor_def)
next
  case False
  have "\<not> kept_in_cursor (c\<lparr>c_as := as'\<rparr>) (int r)" using False by (simp add: kept_in_cursor_def)
  moreover have "dwarf_get (c\<lparr>c_as := as'\<rparr>) (c_loc c ! r) = dwarf_get c (c_loc c ! r)"
    using late_get [of outside r "c_loc c ! r" as' c] assms False by (auto simp: copied_def)
  ultimately show ?thesis
    using read_location [of c "int r"] read_location [of "c\<lparr>c_as := as'\<rparr>" "int r"] False assms(1,2)
    by (simp add: wf_cursor_def)
qed

lemma copy_out_rest:
  assumes "wf_cursor c" and "\<forall>r < 17. kept_in_cursor c (int r) \<or> late_loc outside r (c_loc c ! r)"
    and "\<forall>r < 17. tdep_access_reg_read c (int r) = Inr (val r)"
    and "copied ok outside c val k as'" and "k \<le> 17"
  shows "\<exists>as''. copy_out W (c\<lparr>c_as := as'\<rparr>) [k..<17] = Inr (c\<lparr>c_as := as''\<rparr>) \<and> copied ok outside c val 17 as''"
  using assms(4,5)
proof (induction "17 - k" arbitrary: k as')
  case 0
  then have "k = 17" by simp
  then show ?case using 0(2) by (auto simp del: upt_rec_numeral)
next
  case (Suc n)
  have k: "k < 17" using Suc.hyps(2) by simp
  have rd: "tdep_access_reg_read (c\<lparr>c_as := as'\<rparr>) (int k) = Inr (val k)"
    using read_undisturbed [OF assms(1) k _ Suc.prems(1)] assms(2,3) k by simp
  obtain as1 where w: "write_reg W as' (int k) (val k) = Inr as1" "ok as1"
    "access_reg as1 = (access_reg as')(int k := Inr (val k))" "\<forall>a. outside a \<longrightarrow> access_mem as1 a = access_mem as' a"
    using reg_write [of as' "int k" "val k"] Suc.prems(1) k by (auto simp: copied_def)
  have "copied ok outside c val (Suc k) as1"
    using w Suc.prems(1) by (auto simp: copied_def less_Suc_eq)
  moreover have "n = 17 - Suc k" "Suc k \<le> 17" using Suc.hyps(2) by arith+
  ultimately obtain as'' where "copy_out W (c\<lparr>c_as := as1\<rparr>) [Suc k..<17] = Inr (c\<lparr>c_as := as''\<rparr>)"
    "copied ok outside c val 17 as''"
    using Suc.hyps(1) by blast
  then show ?case
    using rd w(1) by (intro exI [of _ as'']) (simp add: upt_conv_Cons [OF k] copy_out_reg_def unw_is_fpreg_def
        write_or_keep_def del: upt_rec_numeral)
qed

lemma establish_registers:
  assumes "ok (c_as c)" and "wf_cursor c" and "copies_well outside c"
    and "\<forall>r < 17. tdep_access_reg_read c (int r) = Inr (val r)"
  shows "\<exists>as'. establish_machine_state W c = Inr (c\<lparr>c_as := as'\<rparr>)
    \<and> (\<forall>r < 17. access_reg as' (int r) = Inr (val r + (if r = RSP then c_args_size c else 0)))
    \<and> (\<forall>a. outside a \<longrightarrow> access_mem as' a = access_mem (c_as c) a)"
proof -
  have cw: "\<forall>r < 17. kept_in_cursor c (int r) \<or> late_loc outside r (c_loc c ! r)"
    using assms(3) by (simp add: copies_well_def)
  have "copied ok outside c val 0 (c_as c)" using assms(1) by (simp add: copied_def)
  then obtain as1 where c1: "copy_out W c [0..<17] = Inr (c\<lparr>c_as := as1\<rparr>)" "copied ok outside c val 17 as1"
    using copy_out_rest [OF assms(2) cw assms(4), of 0 "c_as c"] by (auto simp del: upt_rec_numeral)
  show ?thesis
  proof (cases "c_args_size c = 0")
    case True
    then show ?thesis
      using c1 by (intro exI [of _ as1]) (simp add: establish_machine_state_def copied_def del: upt_rec_numeral)
  next
    case False
    let ?c = "c\<lparr>c_as := as1\<rparr>"
    have l: "late_loc outside 7 (c_loc c ! 7)"
      using cw [rule_format, of 7] by (simp add: kept_in_cursor_def)
    have "\<not> kept_in_cursor c 7" "\<not> kept_in_cursor ?c 7" by (simp_all add: kept_in_cursor_def)
    then have rd: "tdep_access_reg_read ?c 7 = dwarf_get ?c (c_loc c ! 7)"
      "dwarf_get c (c_loc c ! 7) = Inr (val 7)"
      using read_location [of ?c 7] read_location [of c 7] assms(2) assms(4) [rule_format, of 7]
      by (simp_all add: wf_cursor_def)
    have "c_loc c ! 7 = DWARF_REG_LOC 7 \<or> \<not> DWARF_IS_REG_LOC (c_loc c ! 7)"
      using assms(3) False by (simp add: copies_well_def)
    then have "dwarf_get ?c (c_loc c ! 7) = Inr (val 7)"
    proof
      assume "c_loc c ! 7 = DWARF_REG_LOC 7"
      moreover have "\<forall>j < 17. access_reg as1 (int j) = Inr (val j)" using c1(2) by (simp add: copied_def)
      then have "access_reg as1 7 = Inr (val 7)" by (auto dest: spec [of _ 7])
      ultimately show ?thesis using regnum_roundtrip [of 7] by (simp add: dwarf_get_def)
    next
      assume "\<not> DWARF_IS_REG_LOC (c_loc c ! 7)"
      then have "dwarf_get ?c (c_loc c ! 7) = dwarf_get c (c_loc c ! 7)"
        using l c1(2) by (auto simp: late_loc_def dwarf_get_def copied_def)
      then show ?thesis using rd(2) by simp
    qed
    then have sp: "tdep_access_reg_read ?c 7 = Inr (val 7)" using rd(1) by simp
    obtain as' where w: "write_reg W as1 7 (val 7 + c_args_size c) = Inr as'"
      "access_reg as' = (access_reg as1)(7 := Inr (val 7 + c_args_size c))"
      "\<forall>a. outside a \<longrightarrow> access_mem as' a = access_mem as1 a"
      using reg_write [of as1 7 "val 7 + c_args_size c"] c1(2) by (auto simp: copied_def)
    then show ?thesis
      using c1 sp False by (auto simp: establish_machine_state_def write_or_keep_def copied_def simp del: upt_rec_numeral)
  qed
qed

end

section \<open>The accessors of the process\<close>

text \<open>The words of the saved registers do not overlap; \<open>off_context\<close> is memory beside them.\<close>

definition off_context :: "unw_word \<Rightarrow> unw_word \<Rightarrow> bool" where
  "off_context uc a \<longleftrightarrow> (\<forall>o' \<in> set uc_gregs. apart (uc + o') a)"

definition reads_registers :: "addr_space \<Rightarrow> bool" where
  "reads_registers as \<longleftrightarrow> (\<forall>r. (\<exists>v. access_reg as r = Inr v) \<longleftrightarrow> 0 \<le> r \<and> r < 17)"

lemma gregs_apart:
  assumes "i < 17" and "j < 17" and "i \<noteq> j"
  shows "apart (uc_gregs ! i) (uc_gregs ! j)"
proof -
  have s: "sorted_wrt apart uc_gregs" by (simp add: uc_gregs_def apart_def)
  have l: "length uc_gregs = 17" by (simp add: uc_gregs_def)
  show ?thesis
    using sorted_wrt_nth_less [OF s, of i j] sorted_wrt_nth_less [OF s, of j i] assms l apart_sym
    by (cases "i < j") auto
qed

lemma store_word_reads: "reads_registers as \<Longrightarrow> reads_registers (store_word uc a v as)"
proof -
  assume ok: "reads_registers as"
  have "(\<exists>w. access_reg (store_word uc a v as) r = Inr w) = (\<exists>w. access_reg as r = Inr w)" for r
    by (cases "access_reg as r") (auto simp: store_word_def split: option.split)
  then show ?thesis using ok by (simp add: reads_registers_def)
qed

lemma store_word_apart:
  "apart a b \<Longrightarrow> access_mem (store_word uc a v as) b = access_mem as b"
  by (cases "access_mem as b") (simp_all add: store_word_def overlay_apart)

lemma store_word_reg:
  assumes "reads_registers as" and "0 \<le> r" and "r < 17" and a: "x86_64_r_uc_addr uc r = Some a"
  shows "access_reg (store_word uc a v as) = (access_reg as)(r := Inr v)"
proof
  fix q
  obtain old where old: "access_reg as r = Inr old" using assms(1-3) by (auto simp: reads_registers_def)
  show "access_reg (store_word uc a v as) q = ((access_reg as)(r := Inr v)) q"
  proof (cases "q = r \<or> \<not> (0 \<le> q \<and> q < 17)")
    case True
    then show ?thesis
      using old a assms(2,3) by (auto simp: store_word_def overlay_same x86_64_r_uc_addr_def)
  next
    case False
    then have "nat r \<noteq> nat q" "nat r < 17" "nat q < 17" using assms(2,3) by auto
    then have "apart a (uc + uc_gregs ! nat q)"
      using gregs_apart [of "nat r" "nat q"] a assms(2,3) by (auto simp: x86_64_r_uc_addr_def apart_offset)
    then show ?thesis
      using False by (cases "access_reg as q") (auto simp: store_word_def x86_64_r_uc_addr_def overlay_apart)
  qed
qed

lemma store_word_off:
  assumes "off_context uc a"
  shows "access_reg (store_word uc a v as) = access_reg as"
proof
  fix q
  show "access_reg (store_word uc a v as) q = access_reg as q"
  proof (cases "0 \<le> q \<and> q < 17")
    case True
    then have "uc_gregs ! nat q \<in> set uc_gregs" by (intro nth_mem) (simp add: uc_gregs_def nat_less_iff)
    then have "apart a (uc + uc_gregs ! nat q)"
      using assms apart_sym by (auto simp: off_context_def)
    then show ?thesis
      using True by (cases "access_reg as q") (auto simp: store_word_def x86_64_r_uc_addr_def overlay_apart)
  next
    case False
    then show ?thesis by (auto simp: store_word_def x86_64_r_uc_addr_def)
  qed
qed

interpretation proc: register_file "local_writer uc" reads_registers "off_context uc" for uc
proof
  fix as :: addr_space and r :: int and v :: unw_word
  assume ok: "reads_registers as" and r: "0 \<le> r" "r < 17"
  let ?a = "uc + uc_gregs ! nat r"
  have a: "x86_64_r_uc_addr uc r = Some ?a" using r by (simp add: x86_64_r_uc_addr_def)
  have "uc_gregs ! nat r \<in> set uc_gregs" using r by (intro nth_mem) (simp add: uc_gregs_def nat_less_iff)
  then have "access_mem (store_word uc ?a v as) b = access_mem as b" if "off_context uc b" for b
    using that by (intro store_word_apart) (simp add: off_context_def)
  then show "\<exists>as'. write_reg (local_writer uc) as r v = Inr as' \<and> reads_registers as'
      \<and> access_reg as' = (access_reg as)(r := Inr v)
      \<and> (\<forall>a. off_context uc a \<longrightarrow> access_mem as' a = access_mem as a)"
    using store_word_reads [OF ok] store_word_reg [OF ok r a] a
    by (simp add: local_writer_def unw_is_fpreg_def)
next
  fix as :: addr_space and a v old :: unw_word
  assume ok: "reads_registers as" and "access_mem as a = Inr old"
  then have "access_mem (store_word uc a v as) a = Inr v" by (simp add: store_word_def overlay_same)
  then show "\<exists>as'. write_mem (local_writer uc) as a v = Inr as' \<and> reads_registers as'
      \<and> access_mem as' a = Inr v \<and> (\<forall>b. apart a b \<longrightarrow> access_mem as' b = access_mem as b)
      \<and> (off_context uc a \<longrightarrow> access_reg as' = access_reg as)"
    using store_word_reads [OF ok] store_word_apart store_word_off by (simp add: local_writer_def)
qed (simp add: reads_registers_def)

lemma local_space_ok: "reads_registers (local_space is_valid validate m uc)"
  by (auto simp: reads_registers_def local_space_def local_access_reg_def x86_64_r_uc_addr_def unw_is_fpreg_def)

end
