(* ===== verification/RegsProps.thy ===== *)
theory RegsProps
  imports RegsLemmas Ram
begin

text \<open>
  Properties of register writes and of resuming, on the accessors of the process itself.
\<close>

section \<open>Writing a register\<close>

lemma set_value_location:
  assumes "wf_cursor c" and "2 \<le> r" and "r < 17" and "DWARF_IS_VAL_LOC (c_loc c ! nat r)"
  shows "unw_set_reg W c r v = Inl Aborted"
proof -
  have "r = 16 \<or> 2 \<le> r \<and> r \<le> 15" using assms(2,3) by arith
  moreover have "nat r < length (c_loc c)" using assms(1-3) by (simp add: wf_cursor_def)
  ultimately show ?thesis
    using assms by (elim disjE)
      (simp_all add: unw_set_reg_def tdep_access_reg_write_def put_location_def dwarf_put_def)
qed

lemma get_reg_tdep: "unw_get_reg c r = (if r = 16 then Inr (c_ip c) else tdep_access_reg_read c r)"
  by (simp add: unw_get_reg_def)

text \<open>C23. Writing a register of a frame and reading it again. If a register of the caller can be
  read and its location is not a bare value, \<open>unw_set_reg\<close> succeeds, reading the register gives the
  value written, and every register whose location does not overlap keeps its value; this holds
  also for the two registers that carry values to an exception handler, which are kept in the
  cursor. If the location is a bare value, as it is for the stack pointer of every caller found by
  unwinding, the write is an assertion failure.\<close>
theorem set_register_then_read:
  assumes "reads_registers (c_as c)" and "wf_cursor c" and "0 \<le> r" and "r < 17"
    and "tdep_access_reg_read c r = Inr old"
  shows "if 2 \<le> r \<and> DWARF_IS_VAL_LOC (c_loc c ! nat r)
    then unw_set_reg (local_writer uc) c r v = Inl Aborted
    else \<exists>c'. unw_set_reg (local_writer uc) c r v = Inr (c', Inr ()) \<and> unw_get_reg c' r = Inr v
      \<and> (\<forall>q. 0 \<le> q \<and> q < 17 \<and> q \<noteq> r
           \<and> (r < 2 \<or> locs_apart (off_context uc) (c_loc c ! nat r) (c_loc c ! nat q))
           \<longrightarrow> unw_get_reg c' q = unw_get_reg c q)"
proof (cases "2 \<le> r \<and> DWARF_IS_VAL_LOC (c_loc c ! nat r)")
  case True
  then show ?thesis using set_value_location [OF assms(2) _ assms(4)] by simp
next
  case False
  have r: "r = 0 \<or> r = 1 \<longleftrightarrow> r < 2" using assms(3) by arith
  have "r = 0 \<or> r = 1 \<or> \<not> DWARF_IS_VAL_LOC (c_loc c ! nat r)" using False assms(3) by auto
  then obtain c' where c': "unw_set_reg (local_writer uc) c r v = Inr (c', Inr ())" "tdep_access_reg_read c' r = Inr v"
    "c_ip c' = (if r = 16 then v else c_ip c)"
    "\<forall>q. 0 \<le> q \<and> q < 17 \<and> q \<noteq> r \<and> (r = 0 \<or> r = 1 \<or> locs_apart (off_context uc) (c_loc c ! nat r) (c_loc c ! nat q))
        \<longrightarrow> tdep_access_reg_read c' q = tdep_access_reg_read c q"
    using proc.set_get [OF assms(1-5), of uc v] by blast
  then show ?thesis
    using False r by (auto simp: get_reg_tdep)
qed

section \<open>Resuming\<close>

text \<open>C12. Resuming at a frame installs its registers. If every register of the frame can be read
  and is found where copying the registers out does not disturb it (as a value, in a register from
  its own number on, or in memory beside the saved context), then \<open>unw_resume\<close> hands to the
  callback of the address space a cursor under which each of the 17 registers of the process has
  the value it has in the frame, the stack pointer raised by the size of the arguments; memory
  beside the saved context is unchanged.\<close>
theorem resume_restores_registers:
  assumes "reads_registers (c_as c)" and "wf_cursor c" and "copies_well (off_context uc) c"
    and "\<forall>r < 17. tdep_access_reg_read c (int r) = Inr (val r)"
  shows "\<exists>as'. unw_resume (local_writer uc) resume c = resume (c\<lparr>c_as := as'\<rparr>)
    \<and> (\<forall>r < 17. access_reg as' (int r) = Inr (val r + (if r = RSP then c_args_size c else 0)))
    \<and> (\<forall>a. off_context uc a \<longrightarrow> access_mem as' a = access_mem (c_as c) a)"
proof -
  obtain as' where "establish_machine_state (local_writer uc) c = Inr (c\<lparr>c_as := as'\<rparr>)"
    "\<forall>r < 17. access_reg as' (int r) = Inr (val r + (if r = RSP then c_args_size c else 0))"
    "\<forall>a. off_context uc a \<longrightarrow> access_mem as' a = access_mem (c_as c) a"
    using proc.establish_registers [OF assms] by blast
  then show ?thesis by (intro exI [of _ as']) (simp add: unw_resume_def)
qed

text \<open>
  A register found in one with a lower number is lost: that one has been replaced when it is
  read. Here the two registers 3 and 12 of the caller are found in each other.
\<close>

definition swapping :: "addr_space \<Rightarrow> cursor" where
  "swapping as = (blank_cursor as)
     \<lparr>c_loc := (replicate 17 DWARF_NULL_LOC)[3 := DWARF_REG_LOC 12, 12 := DWARF_REG_LOC 3]\<rparr>"

definition replacing :: writer where
  "replacing = \<lparr>write_mem = (\<lambda>as a v. Inl UNW_EUNSPEC),
     write_reg = (\<lambda>as r v. Inr (as\<lparr>access_reg := (access_reg as)(r := Inr v)\<rparr>))\<rparr>"

lemma swapping_simps:
  "wf_cursor (swapping as)" "c_as (swapping as) = as" "(swapping as)\<lparr>c_as := as'\<rparr> = swapping as'"
  "\<not> kept_in_cursor (swapping as) r" "c_args_size (swapping as) = 0"
  by (simp_all add: swapping_def blank_cursor_def wf_cursor_def kept_in_cursor_def)

lemma swapping_read:
  "r < 17 \<Longrightarrow> tdep_access_reg_read (swapping as) (int r)
     = (if r = 3 then lift_acc (access_reg as 12) else if r = 12 then lift_acc (access_reg as 3)
        else Inl (Err UNW_EBADREG))"
  using read_location [of "swapping as" "int r"] regnum_roundtrip [of 12] regnum_roundtrip [of 3]
  by (simp add: swapping_simps) (simp add: swapping_def nth_list_update dwarf_get_def blank_cursor_def)

lemma swapping_copy:
  "r < 17 \<Longrightarrow> access_reg as 3 = Inr v \<Longrightarrow> access_reg as 12 = Inr w \<Longrightarrow>
   copy_out_reg replacing (swapping as) (int r) = Inr (swapping
     (if r = 3 then as\<lparr>access_reg := (access_reg as)(3 := Inr w)\<rparr>
      else if r = 12 then as\<lparr>access_reg := (access_reg as)(12 := Inr v)\<rparr> else as))"
  by (simp add: copy_out_reg_def unw_is_fpreg_def swapping_read write_or_keep_def replacing_def swapping_simps)

lemma swapped_register_lost:
  assumes "access_reg as 3 = Inr v" and "access_reg as 12 = Inr w"
  shows "\<exists>as'. establish_machine_state replacing (swapping as) = Inr (swapping as')
    \<and> access_reg as' 3 = Inr w \<and> access_reg as' 12 = Inr w"
proof -
  let ?skip = "\<lambda>r. r \<noteq> 3 \<and> r \<noteq> 12 \<and> r < (17 :: nat)"
  have skip: "copy_out replacing (swapping as) rs = Inr (swapping as)"
    if "\<forall>r \<in> set rs. ?skip r" "access_reg as 3 = Inr v" "access_reg as 12 = Inr w" for rs as v w
    using that(1) by (induction rs) (simp_all add: swapping_copy [OF _ that(2,3)])
  have app: "copy_out W c (xs @ ys) = rbind (copy_out W c xs) (\<lambda>c. copy_out W c ys)" for W c xs ys
    by (induction xs arbitrary: c) simp_all
  define xs ys zs :: "nat list" where l: "xs = [0, 1, 2]" "ys = [4, 5, 6, 7, 8, 9, 10, 11]" "zs = [13, 14, 15, 16]"
  have n: "[0..<17] = xs @ 3 # ys @ 12 # zs" by (simp add: upt_rec l)
  have s: "\<forall>r \<in> set xs. ?skip r" "\<forall>r \<in> set ys. ?skip r" "\<forall>r \<in> set zs. ?skip r" by (simp_all add: l)
  let ?as1 = "as\<lparr>access_reg := (access_reg as)(3 := Inr w)\<rparr>"
  let ?as2 = "?as1\<lparr>access_reg := (access_reg ?as1)(12 := Inr w)\<rparr>"
  have "copy_out replacing (swapping as) [0..<17] = Inr (swapping ?as2)"
    unfolding n using skip [OF s(1) assms] swapping_copy [OF _ assms, of 3]
      skip [OF s(2), of ?as1 w w] swapping_copy [of 12 ?as1 w w] skip [OF s(3), of ?as2 w w] assms(2)
    by (simp add: app)
  then show ?thesis
    by (intro exI [of _ ?as2]) (simp add: establish_machine_state_def swapping_simps del: upt_rec_numeral)
qed

section \<open>A frame\<close>

text \<open>A process at 0x4000 whose saved context lies at 0x1000, and the cursor of its first frame.\<close>

definition context_space :: addr_space where
  "context_space = local_space (\<lambda>_. True) False (stored 0x10a8 0x4000 (\<lambda>_. 0)) 0x1000"

definition first_frame :: cursor where
  "first_frame = (blank_cursor context_space)\<lparr>c_loc := map DWARF_REG_LOC [0..<17], c_ip := 0x4000\<rparr>"

lemma first_frame_simps:
  "reads_registers (c_as first_frame)" "wf_cursor first_frame" "c_args_size first_frame = 0"
  "i < 17 \<Longrightarrow> c_loc first_frame ! i = DWARF_REG_LOC i"
  "\<not> kept_in_cursor first_frame r"
  by (simp_all add: first_frame_def context_space_def local_space_ok wf_cursor_def blank_cursor_def
      kept_in_cursor_def del: upt_rec_numeral)

lemma first_frame_read:
  assumes "r < 17"
  shows "tdep_access_reg_read first_frame (int r)
    = Inr (word_at (stored 0x10a8 0x4000 (\<lambda>_. 0)) (0x1000 + uc_gregs ! r))"
proof -
  have "tdep_access_reg_read first_frame (int r) = dwarf_get first_frame (DWARF_REG_LOC r)"
    using read_location [of first_frame "int r"] first_frame_simps assms by simp
  also have "\<dots> = lift_acc (access_reg (c_as first_frame) (int r))"
    using regnum_roundtrip [OF assms] by (simp add: dwarf_get_def)
  finally show ?thesis
    using assms by (simp add: first_frame_def context_space_def local_space_def local_access_reg_def
        x86_64_r_uc_addr_def unw_is_fpreg_def)
qed

theorem set_register_then_read_witness:
  "\<exists>c'. unw_set_reg (local_writer 0x1000) first_frame 3 7 = Inr (c', Inr ()) \<and> unw_get_reg c' 3 = Inr 7"
proof -
  have "\<exists>old. tdep_access_reg_read first_frame 3 = Inr old" using first_frame_read [of 3] by simp
  moreover have "\<not> DWARF_IS_VAL_LOC (c_loc first_frame ! 3)"
    by (simp add: first_frame_simps loc_defs)
  ultimately show ?thesis
    using set_register_then_read [of first_frame 3 _ "0x1000" 7] first_frame_simps(1,2) by auto
qed

theorem resume_restores_registers_witness:
  "\<exists>c'. unw_resume (local_writer 0x1000) Inr first_frame = Inr c' \<and> access_reg (c_as c') 16 = Inr 0x4000"
proof -
  let ?val = "\<lambda>r. word_at (stored 0x10a8 0x4000 (\<lambda>_. 0)) (0x1000 + uc_gregs ! r)"
  have "copies_well (off_context 0x1000) first_frame"
    using first_frame_simps by (auto simp: copies_well_def late_loc_def)
  then obtain as' where r: "unw_resume (local_writer 0x1000) Inr first_frame = Inr (first_frame\<lparr>c_as := as'\<rparr>)"
    and "\<forall>r < 17. access_reg as' (int r) = Inr (?val r + (if r = RSP then c_args_size first_frame else 0))"
    using resume_restores_registers [of first_frame "0x1000" ?val Inr] first_frame_simps first_frame_read by blast
  then have "access_reg as' 16 = Inr (?val 16)" by (auto dest: spec [of _ 16])
  moreover have "?val 16 = 0x4000"
    by (rule word_at_eqI) (simp add: uc_gregs_def stored_def unat_small)
  ultimately show ?thesis using r by (intro exI [of _ "first_frame\<lparr>c_as := as'\<rparr>"]) simp
qed

end
