(* ===== verification/Exception.thy ===== *)
theory Exception
  imports Regs
begin

text \<open>
  The exception interface of the C++ ABI (\<open>include/unwind.h\<close>, \<open>src/unwind\<close>) over the operations on
  cursors: raising an exception in two phases, forced unwinding, resuming after a cleanup, and what
  the routines it calls may ask of a frame.
\<close>

section \<open>Exceptions and contexts\<close>

datatype reason_code =
    URC_NO_REASON | URC_FOREIGN_EXCEPTION_CAUGHT | URC_FATAL_PHASE2_ERROR | URC_FATAL_PHASE1_ERROR
  | URC_NORMAL_STOP | URC_END_OF_STACK | URC_HANDLER_FOUND | URC_INSTALL_CONTEXT | URC_CONTINUE_UNWIND

type_synonym unwind_action = "32 word"

abbreviation (input) UA_SEARCH_PHASE :: unwind_action where "UA_SEARCH_PHASE \<equiv> 1"
abbreviation (input) UA_CLEANUP_PHASE :: unwind_action where "UA_CLEANUP_PHASE \<equiv> 2"
abbreviation (input) UA_HANDLER_FRAME :: unwind_action where "UA_HANDLER_FRAME \<equiv> 4"
abbreviation (input) UA_FORCE_UNWIND :: unwind_action where "UA_FORCE_UNWIND \<equiv> 8"
abbreviation (input) UA_END_OF_STACK :: unwind_action where "UA_END_OF_STACK \<equiv> 16"

abbreviation (input) U_VERSION :: "32 word" where "U_VERSION \<equiv> 1"

record unwind_exception =
  exception_class :: "64 word"
  exception_cleanup :: unw_word
  private_1 :: unw_word
  private_2 :: unw_word

record unwind_context =
  ctx_cursor :: cursor
  end_of_stack :: bool

text \<open>
  The state of an unwinding: the exception object, the context, the caches of the address space,
  and whatever else the routines of the program change.
\<close>

record 'w unwinding =
  un_exception :: unwind_exception
  un_context :: unwind_context
  un_caches :: as_caches
  un_client :: 'w

definition un_cursor :: "'w unwinding \<Rightarrow> cursor" where
  "un_cursor s = ctx_cursor (un_context s)"

definition with_cursor :: "'w unwinding \<Rightarrow> cursor \<Rightarrow> 'w unwinding" where
  "with_cursor s c = s\<lparr>un_context := (un_context s)\<lparr>ctx_cursor := c\<rparr>\<rparr>"

text \<open>
  The program that is unwound: its personality routines, stop functions, trace functions and
  cleanup functions by the addresses of their code, and the address of the context that
  \<open>unw_getcontext\<close> saves together with the address space that results, or an error. A routine that
  does not return is a fault. An address space of the process is given anew, without the flag for
  checks, each time a cursor is initialised.
\<close>

record 'w program =
  pr_personality :: "unw_word \<Rightarrow> 32 word \<Rightarrow> unwind_action \<Rightarrow> 64 word \<Rightarrow> 'w unwinding
    \<Rightarrow> (reason_code \<times> 'w unwinding) res"
  pr_stop :: "unw_word \<Rightarrow> 32 word \<Rightarrow> unwind_action \<Rightarrow> 64 word \<Rightarrow> unw_word \<Rightarrow> 'w unwinding
    \<Rightarrow> (reason_code \<times> 'w unwinding) res"
  pr_trace :: "unw_word \<Rightarrow> unw_word \<Rightarrow> 'w unwinding \<Rightarrow> (reason_code \<times> 'w unwinding) res"
  pr_cleanup :: "unw_word \<Rightarrow> reason_code \<Rightarrow> unwind_exception \<Rightarrow> 'w \<Rightarrow> 'w res"
  pr_uc :: unw_word
  pr_getcontext :: "unw_error + addr_space"
  pr_unchecked :: "addr_space \<Rightarrow> addr_space"

text \<open>How an operation of the interface ends: it returns, or another context is installed.\<close>

datatype unwind_end = Returned reason_code | Installed machine

section \<open>Walking the frames\<close>

definition unw_init_local :: "cursor \<Rightarrow> (cursor \<times> (unw_error + unit)) res" where
  "unw_init_local c = unw_init_local_common c True"

text \<open>
  Initialising the cursor of a context on an address space, with whether that succeeds, and the
  macro \<open>_Unwind_InitContext\<close>.
\<close>

definition init_cursor :: "addr_space \<Rightarrow> 'w unwinding \<Rightarrow> ('w unwinding \<times> bool) res" where
  "init_cursor as s =
     rbind (unw_init_local ((un_cursor s)\<lparr>c_as := as\<rparr>)) (\<lambda>(c, ret).
     Inr (with_cursor s c, case ret of Inl e \<Rightarrow> False | Inr _ \<Rightarrow> True))"

definition Unwind_InitContext :: "'w program \<Rightarrow> 'w unwinding \<Rightarrow> ('w unwinding \<times> bool) res" where
  "Unwind_InitContext pr s =
     (let s = s\<lparr>un_context := (un_context s)\<lparr>end_of_stack := False\<rparr>\<rparr> in
      case pr_getcontext pr of
        Inl e \<Rightarrow> Inr (s, False)
      | Inr as \<Rightarrow> init_cursor as s)"

text \<open>\<open>unw_step\<close> and \<open>unw_get_proc_info\<close> on the cursor of a context.\<close>

definition step_context :: "unw_env \<Rightarrow> 'w unwinding \<Rightarrow> ('w unwinding \<times> (unw_error + bool)) res" where
  "step_context env s =
     rbind (unw_step env (un_cursor s) (un_caches s)) (\<lambda>(c, ca, ret).
     Inr ((with_cursor s c)\<lparr>un_caches := ca\<rparr>, ret))"

definition context_info :: "unw_env \<Rightarrow> 'w unwinding \<Rightarrow> ('w unwinding \<times> unw_proc_info) res" where
  "context_info env s =
     rbind (unw_get_proc_info (step_env.truncate env) (un_cursor s) (un_caches s)) (\<lambda>(c, ca, pi).
     Inr ((with_cursor s c)\<lparr>un_caches := ca\<rparr>, pi))"

section \<open>The second phase\<close>

text \<open>\<open>unw_resume\<close> on the process itself; should it return, \<open>abort\<close> is called.\<close>

definition install_context ::
  "unw_env \<Rightarrow> 'w program \<Rightarrow> 'w unwinding \<Rightarrow> ('w unwinding \<times> unwind_end) res" where
  "install_context env pr s =
     rbind (unw_resume (local_writer (pr_uc pr))
        (x86_64_local_resume (step_env.truncate env) (pr_uc pr) (un_caches s)) (un_cursor s)) (\<lambda>(c, ca, m).
     Inr ((with_cursor s c)\<lparr>un_caches := ca\<rparr>, Installed m))"

text \<open>What follows the call of a personality routine in the second phase.\<close>

definition after_cleanup ::
  "unw_env \<Rightarrow> 'w program \<Rightarrow> unwind_action \<Rightarrow> reason_code \<times> 'w unwinding
    \<Rightarrow> (unwind_action \<times> 'w unwinding + 'w unwinding \<times> unwind_end) res" where
  "after_cleanup env pr actions = (\<lambda>(reason, s).
     if reason \<noteq> URC_CONTINUE_UNWIND
     then if reason = URC_INSTALL_CONTEXT
          then rbind (install_context env pr s) (\<lambda>r. Inr (Inr r))
          else Inr (Inr (s, Returned URC_FATAL_PHASE2_ERROR))
     else if actions AND UA_HANDLER_FRAME \<noteq> 0 then Inl Aborted
     else Inr (Inl (actions, s)))"

definition cleanup_frame ::
  "unw_env \<Rightarrow> 'w program \<Rightarrow> unw_word \<Rightarrow> 64 word \<Rightarrow> unw_word \<Rightarrow> unwind_action \<Rightarrow> 'w unwinding
    \<Rightarrow> (unwind_action \<times> 'w unwinding + 'w unwinding \<times> unwind_end) res" where
  "cleanup_frame env pr stop class stop_parameter actions s =
     rbind (context_info env s) (\<lambda>(s, pi).
     if pi_handler pi = 0 then Inr (Inl (actions, s))
     else
       rbind (if stop \<noteq> 0 then Inr (Inr actions)
              else rbind (attempt (unw_get_reg (un_cursor s) UNW_REG_IP)) (\<lambda>r.
                   Inr (case r of
                          Inl e \<Rightarrow> Inl e
                        | Inr ip \<Rightarrow> Inr (if stop_parameter = ip then actions OR UA_HANDLER_FRAME else actions)))) (\<lambda>r.
       case r of
         Inl e \<Rightarrow> Inr (Inr (s, Returned URC_FATAL_PHASE2_ERROR))
       | Inr actions \<Rightarrow>
           rbind (pr_personality pr (pi_handler pi) U_VERSION actions class s) (after_cleanup env pr actions)))"

text \<open>One round of the loop of \<open>_Unwind_Phase2\<close>.\<close>

definition phase2_frame ::
  "unw_env \<Rightarrow> 'w program \<Rightarrow> unw_word \<Rightarrow> 64 word \<Rightarrow> unw_word \<Rightarrow> unwind_action \<times> 'w unwinding
    \<Rightarrow> (unwind_action \<times> 'w unwinding + 'w unwinding \<times> unwind_end) res" where
  "phase2_frame env pr stop class stop_parameter = (\<lambda>(actions, s).
     rbind (step_context env s) (\<lambda>(s, ret).
     case ret of
       Inl e \<Rightarrow> Inr (Inr (s, Returned URC_FATAL_PHASE2_ERROR))
     | Inr more_frames \<Rightarrow>
         let actions = (if more_frames then actions else actions OR UA_END_OF_STACK);
             s = (if more_frames then s else s\<lparr>un_context := (un_context s)\<lparr>end_of_stack := True\<rparr>\<rparr>) in
         rbind (if stop \<noteq> 0 then pr_stop pr stop U_VERSION actions class stop_parameter s
                else Inr (URC_NO_REASON, s)) (\<lambda>(reason, s).
         if reason \<noteq> URC_NO_REASON \<or> end_of_stack (un_context s)
         then Inr (Inr (s, Returned URC_FATAL_PHASE2_ERROR))
         else cleanup_frame env pr stop class stop_parameter actions s)))"

definition Unwind_Phase2 :: "unw_env \<Rightarrow> 'w program \<Rightarrow> 'w unwinding \<Rightarrow> ('w unwinding \<times> unwind_end) res" where
  "Unwind_Phase2 env pr s =
     (let e = un_exception s; stop = private_1 e;
          actions = (if stop \<noteq> 0 then UA_CLEANUP_PHASE OR UA_FORCE_UNWIND else UA_CLEANUP_PHASE) in
      returns (iterate (phase2_frame env pr stop (exception_class e) (private_2 e)) (actions, s)))"

section \<open>Raising an exception\<close>

text \<open>One round of the search phase; its end is the reason to return, or that a handler is found.\<close>

definition search_frame ::
  "unw_env \<Rightarrow> 'w program \<Rightarrow> 64 word \<Rightarrow> 'w unwinding \<Rightarrow> ('w unwinding + 'w unwinding \<times> reason_code option) res" where
  "search_frame env pr class s =
     rbind (step_context env s) (\<lambda>(s, ret).
     case ret of
       Inl e \<Rightarrow> Inr (Inr (s, Some URC_FATAL_PHASE1_ERROR))
     | Inr more_frames \<Rightarrow>
         if \<not> more_frames then Inr (Inr (s, Some URC_END_OF_STACK))
         else
           rbind (context_info env s) (\<lambda>(s, pi).
           if pi_handler pi = 0 then Inr (Inl s)
           else
             rbind (pr_personality pr (pi_handler pi) U_VERSION UA_SEARCH_PHASE class s) (\<lambda>(reason, s).
             Inr (if reason = URC_CONTINUE_UNWIND then Inl s
                  else if reason = URC_HANDLER_FOUND then Inr (s, None)
                  else Inr (s, Some URC_FATAL_PHASE1_ERROR)))))"

definition Unwind_RaiseException ::
  "unw_env \<Rightarrow> 'w program \<Rightarrow> 'w unwinding \<Rightarrow> ('w unwinding \<times> unwind_end) res" where
  "Unwind_RaiseException env pr s =
     rbind (Unwind_InitContext pr s) (\<lambda>(s, initialised).
     if \<not> initialised then Inr (s, Returned URC_FATAL_PHASE1_ERROR)
     else
       rbind (returns (iterate (search_frame env pr (exception_class (un_exception s))) s)) (\<lambda>(s, ret).
       case ret of
         Some reason \<Rightarrow> Inr (s, Returned reason)
       | None \<Rightarrow>
           rbind (attempt (unw_get_reg (un_cursor s) UNW_REG_IP)) (\<lambda>r.
           case r of
             Inl e \<Rightarrow> Inr (s, Returned URC_FATAL_PHASE1_ERROR)
           | Inr ip \<Rightarrow>
               let s = s\<lparr>un_exception := (un_exception s)\<lparr>private_1 := 0, private_2 := ip\<rparr>\<rparr> in
               rbind (init_cursor (pr_unchecked pr (c_as (un_cursor s))) s) (\<lambda>(s, initialised).
               if \<not> initialised then Inr (s, Returned URC_FATAL_PHASE1_ERROR)
               else Unwind_Phase2 env pr s))))"

section \<open>The other ways to unwind\<close>

definition Unwind_ForcedUnwind ::
  "unw_env \<Rightarrow> 'w program \<Rightarrow> unw_word \<Rightarrow> unw_word \<Rightarrow> 'w unwinding \<Rightarrow> ('w unwinding \<times> unwind_end) res" where
  "Unwind_ForcedUnwind env pr stop stop_parameter s =
     (if stop = 0 then Inr (s, Returned URC_FATAL_PHASE2_ERROR)
      else
        rbind (Unwind_InitContext pr s) (\<lambda>(s, initialised).
        if \<not> initialised then Inr (s, Returned URC_FATAL_PHASE2_ERROR)
        else Unwind_Phase2 env pr
               (s\<lparr>un_exception := (un_exception s)\<lparr>private_1 := stop, private_2 := stop_parameter\<rparr>\<rparr>)))"

text \<open>\<open>_Unwind_Resume\<close> does not return: if the second phase does, it calls \<open>abort\<close>.\<close>

definition Unwind_Resume :: "unw_env \<Rightarrow> 'w program \<Rightarrow> 'w unwinding \<Rightarrow> ('w unwinding \<times> unwind_end) res" where
  "Unwind_Resume env pr s =
     rbind (Unwind_InitContext pr s) (\<lambda>(s, initialised).
     if \<not> initialised then Inl Aborted
     else
       rbind (Unwind_Phase2 env pr s) (\<lambda>(s, r).
       case r of Installed m \<Rightarrow> Inr (s, Installed m) | Returned reason \<Rightarrow> Inl Aborted))"

definition Unwind_Resume_or_Rethrow ::
  "unw_env \<Rightarrow> 'w program \<Rightarrow> 'w unwinding \<Rightarrow> ('w unwinding \<times> unwind_end) res" where
  "Unwind_Resume_or_Rethrow env pr s =
     (if private_1 (un_exception s) \<noteq> 0
      then rbind (Unwind_InitContext pr s) (\<lambda>(s, initialised).
           if \<not> initialised then Inr (s, Returned URC_FATAL_PHASE2_ERROR)
           else Unwind_Phase2 env pr s)
      else Unwind_RaiseException env pr s)"

definition trace_frame ::
  "unw_env \<Rightarrow> 'w program \<Rightarrow> unw_word \<Rightarrow> unw_word \<Rightarrow> 'w unwinding \<Rightarrow> ('w unwinding + 'w unwinding \<times> reason_code) res" where
  "trace_frame env pr trace trace_parameter s =
     rbind (step_context env s) (\<lambda>(s, ret).
     case ret of
       Inl e \<Rightarrow> Inr (Inr (s, URC_FATAL_PHASE1_ERROR))
     | Inr more_frames \<Rightarrow>
         if \<not> more_frames then Inr (Inr (s, URC_END_OF_STACK))
         else
           rbind (pr_trace pr trace trace_parameter s) (\<lambda>(reason, s).
           Inr (if reason \<noteq> URC_NO_REASON then Inr (s, URC_FATAL_PHASE1_ERROR) else Inl s)))"

definition Unwind_Backtrace ::
  "unw_env \<Rightarrow> 'w program \<Rightarrow> unw_word \<Rightarrow> unw_word \<Rightarrow> 'w unwinding \<Rightarrow> ('w unwinding \<times> reason_code) res" where
  "Unwind_Backtrace env pr trace trace_parameter s =
     rbind (Unwind_InitContext pr s) (\<lambda>(s, initialised).
     if \<not> initialised then Inr (s, URC_FATAL_PHASE1_ERROR)
     else returns (iterate (trace_frame env pr trace trace_parameter) s))"

definition Unwind_DeleteException :: "'w program \<Rightarrow> 'w unwinding \<Rightarrow> 'w unwinding res" where
  "Unwind_DeleteException pr s =
     (let e = un_exception s in
      if exception_cleanup e \<noteq> 0
      then rbind (pr_cleanup pr (exception_cleanup e) URC_FOREIGN_EXCEPTION_CAUGHT e (un_client s)) (\<lambda>w.
           Inr (s\<lparr>un_client := w\<rparr>))
      else Inr s)"

section \<open>What a routine may ask of a context\<close>

text \<open>
  The results of these calls are not tested: if a register cannot be read, the value is what the
  uninitialised variable \<open>val\<close> holds.
\<close>

definition read_context :: "unw_word \<Rightarrow> unwind_context \<Rightarrow> int \<Rightarrow> unw_word res" where
  "read_context val ctx reg =
     rbind (attempt (unw_get_reg (ctx_cursor ctx) reg)) (\<lambda>r.
     Inr (case r of Inl e \<Rightarrow> val | Inr v \<Rightarrow> v))"

definition Unwind_GetCFA :: "unw_word \<Rightarrow> unwind_context \<Rightarrow> unw_word res" where
  "Unwind_GetCFA val ctx = read_context val ctx (int RSP)"

definition Unwind_GetGR :: "unw_word \<Rightarrow> unwind_context \<Rightarrow> int \<Rightarrow> unw_word res" where
  "Unwind_GetGR val ctx index =
     (if index = int RSP \<and> end_of_stack ctx then Inr 0 else read_context val ctx index)"

definition Unwind_GetIP :: "unw_word \<Rightarrow> unwind_context \<Rightarrow> unw_word res" where
  "Unwind_GetIP val ctx = read_context val ctx UNW_REG_IP"

definition Unwind_GetIPInfo :: "unw_word \<Rightarrow> unwind_context \<Rightarrow> (unw_word \<times> bool) res" where
  "Unwind_GetIPInfo val ctx =
     rbind (read_context val ctx UNW_REG_IP) (\<lambda>v. Inr (v, unw_is_signal_frame (ctx_cursor ctx)))"

definition Unwind_GetLanguageSpecificData :: "unw_env \<Rightarrow> 'w unwinding \<Rightarrow> ('w unwinding \<times> unw_word) res" where
  "Unwind_GetLanguageSpecificData env s = rbind (context_info env s) (\<lambda>(s, pi). Inr (s, pi_lsda pi))"

definition Unwind_GetRegionStart :: "unw_env \<Rightarrow> 'w unwinding \<Rightarrow> ('w unwinding \<times> unw_word) res" where
  "Unwind_GetRegionStart env s = rbind (context_info env s) (\<lambda>(s, pi). Inr (s, pi_start_ip pi))"

definition Unwind_GetDataRelBase :: "unw_env \<Rightarrow> 'w unwinding \<Rightarrow> ('w unwinding \<times> unw_word) res" where
  "Unwind_GetDataRelBase env s = rbind (context_info env s) (\<lambda>(s, pi). Inr (s, pi_gp pi))"

definition Unwind_GetTextRelBase :: "unwind_context \<Rightarrow> unw_word" where
  "Unwind_GetTextRelBase ctx = 0"

definition Unwind_GetBSP :: "unwind_context \<Rightarrow> unw_word" where
  "Unwind_GetBSP ctx = 0"

definition Unwind_SetGR :: "'w program \<Rightarrow> 'w unwinding \<Rightarrow> int \<Rightarrow> unw_word \<Rightarrow> 'w unwinding res" where
  "Unwind_SetGR pr s index new_value =
     rbind (unw_set_reg (local_writer (pr_uc pr)) (un_cursor s) index new_value) (\<lambda>(c, ret).
     Inr (with_cursor s c))"

definition Unwind_SetIP :: "'w program \<Rightarrow> 'w unwinding \<Rightarrow> unw_word \<Rightarrow> 'w unwinding res" where
  "Unwind_SetIP pr s new_value =
     rbind (unw_set_reg (local_writer (pr_uc pr)) (un_cursor s) UNW_REG_IP new_value) (\<lambda>(c, ret).
     Inr (with_cursor s c))"

definition Unwind_FindEnclosingFunction ::
  "step_env \<Rightarrow> (unw_word \<Rightarrow> unw_proc_info \<Rightarrow> unw_proc_info res) \<Rightarrow> as_caches \<Rightarrow> unw_word \<Rightarrow> unw_proc_info
    \<Rightarrow> unw_word res" where
  "Unwind_FindEnclosingFunction env find_info ca ip pi =
     rbind (unw_get_proc_info_by_ip env find_info ca ip pi) (\<lambda>(ca, r).
     Inr (case r of Inl e \<Rightarrow> 0 | Inr pi \<Rightarrow> pi_start_ip pi))"

end
