(* ===== verification/ExceptionLemmas.thy ===== *)
theory ExceptionLemmas
  imports Exception Backtrace
begin

text \<open>
  Unwinding over a chain of frames: the contract between stepping and the exception interface as a
  locale (what a step, the procedure information and a restart give for each frame), the lemmas on
  both phases proved in it, and its interpretation on the frames of a call stack.
\<close>

section \<open>The contract\<close>

lemma un_cursor_simps [simp]:
  "un_cursor (s\<lparr>un_client := w\<rparr>) = un_cursor s" "un_cursor (s\<lparr>un_exception := e\<rparr>) = un_cursor s"
  "un_cursor (s\<lparr>un_caches := ca\<rparr>) = un_cursor s" "un_cursor (with_cursor s c) = c"
  "un_caches (with_cursor s c) = un_caches s" "un_client (with_cursor s c) = un_client s"
  "un_exception (with_cursor s c) = un_exception s"
  "end_of_stack (un_context (with_cursor s c)) = end_of_stack (un_context s)"
  by (simp_all add: un_cursor_def with_cursor_def)

text \<open>The parts of the state that unwinding itself does not change.\<close>

definition same_client :: "'w unwinding \<Rightarrow> 'w unwinding \<Rightarrow> bool" where
  "same_client s s' \<longleftrightarrow> un_exception s' = un_exception s \<and> un_client s' = un_client s
     \<and> end_of_stack (un_context s') = end_of_stack (un_context s)"

text \<open>
  A chain of frames at the addresses \<open>ips\<close>: \<open>frame i\<close> holds of the states in which \<open>i\<close> steps have
  been made, \<open>h\<close> gives the personality routine of an address, \<open>cfa\<close> the frame address after \<open>i\<close>
  steps.
\<close>

locale frame_chain =
  fixes env :: unw_env and pr :: "'w program" and h :: "unw_word \<Rightarrow> unw_word" and ips :: "unw_word list"
    and cfa :: "nat \<Rightarrow> unw_word" and frame :: "nat \<Rightarrow> 'w unwinding \<Rightarrow> bool"
  assumes step_more: "frame i s \<Longrightarrow> i < length ips \<Longrightarrow>
      \<exists>s'. step_context env s = Inr (s', Inr True) \<and> frame (Suc i) s' \<and> same_client s s'"
    and step_end: "frame (length ips) s \<Longrightarrow>
      \<exists>s'. step_context env s = Inr (s', Inr False) \<and> same_client s s'"
    and info: "frame (Suc i) s \<Longrightarrow>
      \<exists>s' pi. context_info env s = Inr (s', pi) \<and> pi_handler pi = h (ips ! i) \<and> frame (Suc i) s' \<and> same_client s s'"
    and place: "frame (Suc i) s \<Longrightarrow> c_ip (un_cursor s) = ips ! i \<and> c_cfa (un_cursor s) = cfa (Suc i)"
    and restart: "frame i s \<Longrightarrow> \<exists>s'. init_cursor (pr_unchecked pr (c_as (un_cursor s))) s = Inr (s', True)
      \<and> frame 0 s' \<and> same_client s s'"
    and open_stack: "frame i s \<Longrightarrow> \<not> end_of_stack (un_context s)"
    and client: "frame i s \<Longrightarrow> frame i (s\<lparr>un_client := w\<rparr>)" "frame i s \<Longrightarrow> frame i (s\<lparr>un_exception := e\<rparr>)"

section \<open>The routines of the program\<close>

text \<open>
  The personality routine of an address gives a certain answer to certain actions, and does no more
  than note the call in the state of the program.
\<close>

definition answers ::
  "'w program \<Rightarrow> (unw_word \<Rightarrow> unw_word) \<Rightarrow> 64 word \<Rightarrow> (unw_word \<Rightarrow> unwind_action \<Rightarrow> 'w \<Rightarrow> 'w)
    \<Rightarrow> unwind_action \<Rightarrow> reason_code \<Rightarrow> unw_word \<Rightarrow> bool" where
  "answers pr h class note a r ip \<longleftrightarrow> (h ip \<noteq> 0 \<longrightarrow> (\<forall>s. c_ip (un_cursor s) = ip \<longrightarrow>
     pr_personality pr (h ip) U_VERSION a class s = Inr (r, s\<lparr>un_client := note ip a (un_client s)\<rparr>)))"

text \<open>What the personality routines of a list of frames note when they are called in order.\<close>

definition noted ::
  "(unw_word \<Rightarrow> unw_word) \<Rightarrow> (unw_word \<Rightarrow> unwind_action \<Rightarrow> 'w \<Rightarrow> 'w) \<Rightarrow> unwind_action \<Rightarrow> unw_word list \<Rightarrow> 'w \<Rightarrow> 'w" where
  "noted h note a ips w = fold (\<lambda>ip w. if h ip = 0 then w else note ip a w) ips w"

lemma noted_simps [simp]:
  "noted h note a [] w = w"
  "noted h note a (ips @ [ip]) w = (if h ip = 0 then noted h note a ips w else note ip a (noted h note a ips w))"
  by (simp_all add: noted_def)

text \<open>How raising an exception ends, given the answer of the handler's frame in the second phase.\<close>

definition handler_outcome ::
  "unw_env \<Rightarrow> 'w program \<Rightarrow> reason_code \<times> 'w unwinding \<Rightarrow> ('w unwinding \<times> unwind_end) res" where
  "handler_outcome env pr = (\<lambda>(reason, s).
     if reason = URC_CONTINUE_UNWIND then Inl Aborted
     else if reason = URC_INSTALL_CONTEXT then install_context env pr s
     else Inr (s, Returned URC_FATAL_PHASE2_ERROR))"

lemma iterate_handler:
  assumes "body x = rbind m (after_cleanup env pr (UA_CLEANUP_PHASE OR UA_HANDLER_FRAME))"
  shows "returns (iterate body x) = rbind m (handler_outcome env pr)"
proof (cases m)
  case (Inl e)
  then show ?thesis using assms by (subst iterate.simps) simp
next
  case (Inr rs)
  obtain r s where rs: "rs = (r, s)" by (cases rs)
  show ?thesis
  proof (cases "r = URC_INSTALL_CONTEXT")
    case True
    then show ?thesis
      using assms Inr rs
      by (cases "install_context env pr s") (subst iterate.simps, simp add: after_cleanup_def handler_outcome_def)+
  next
    case False
    then show ?thesis
      using assms Inr rs by (subst iterate.simps) (simp add: after_cleanup_def handler_outcome_def)
  qed
qed

text \<open>
  A stop function that lets the unwinding go on and notes its calls, one that leaves the mark for the
  end of the stack, and what it and the personality routines note during a forced unwinding; a trace
  function that notes its calls.
\<close>

abbreviation (input) UA_FORCED :: unwind_action where "UA_FORCED \<equiv> UA_CLEANUP_PHASE OR UA_FORCE_UNWIND"

definition stop_passes ::
  "'w program \<Rightarrow> unw_word \<Rightarrow> 64 word \<Rightarrow> unw_word \<Rightarrow> (unw_word \<Rightarrow> 'w \<Rightarrow> 'w) \<Rightarrow> bool" where
  "stop_passes pr stop class parm snote \<longleftrightarrow> (\<forall>s. pr_stop pr stop U_VERSION UA_FORCED class parm s
     = Inr (URC_NO_REASON, s\<lparr>un_client := snote (c_ip (un_cursor s)) (un_client s)\<rparr>))"

definition keeps_end :: "'w program \<Rightarrow> unw_word \<Rightarrow> 64 word \<Rightarrow> unw_word \<Rightarrow> bool" where
  "keeps_end pr stop class parm \<longleftrightarrow> (\<forall>t r t'. end_of_stack (un_context t)
     \<and> pr_stop pr stop U_VERSION (UA_FORCED OR UA_END_OF_STACK) class parm t = Inr (r, t')
     \<longrightarrow> end_of_stack (un_context t'))"

definition noted_forced ::
  "(unw_word \<Rightarrow> unw_word) \<Rightarrow> (unw_word \<Rightarrow> unwind_action \<Rightarrow> 'w \<Rightarrow> 'w) \<Rightarrow> (unw_word \<Rightarrow> 'w \<Rightarrow> 'w) \<Rightarrow> unw_word list \<Rightarrow> 'w \<Rightarrow> 'w"
where
  "noted_forced h note snote ips w = fold (\<lambda>ip w. noted h note UA_FORCED [ip] (snote ip w)) ips w"

lemma noted_forced_simps [simp]:
  "noted_forced h note snote [] w = w"
  "noted_forced h note snote (ips @ [ip]) w = noted h note UA_FORCED [ip] (snote ip (noted_forced h note snote ips w))"
  by (simp_all add: noted_forced_def)

definition trace_notes :: "'w program \<Rightarrow> unw_word \<Rightarrow> unw_word \<Rightarrow> (unw_word \<Rightarrow> 'w \<Rightarrow> 'w) \<Rightarrow> bool" where
  "trace_notes pr trace parm tnote \<longleftrightarrow> (\<forall>s. pr_trace pr trace parm s
     = Inr (URC_NO_REASON, s\<lparr>un_client := tnote (c_ip (un_cursor s)) (un_client s)\<rparr>))"

section \<open>Both phases\<close>

context frame_chain
begin

lemma next_frame:
  assumes "frame j s" and "j < length ips"
  obtains s1 s2 pi where "step_context env s = Inr (s1, Inr True)" and "\<not> end_of_stack (un_context s1)"
    and "same_client s s1" and "frame (Suc j) s1"
    and "context_info env s1 = Inr (s2, pi)" and "pi_handler pi = h (ips ! j)" and "frame (Suc j) s2"
    and "same_client s s2"
proof -
  obtain s1 where s1: "step_context env s = Inr (s1, Inr True)" "frame (Suc j) s1" "same_client s s1"
    using step_more [OF assms] by blast
  obtain s2 pi where "context_info env s1 = Inr (s2, pi)" "pi_handler pi = h (ips ! j)" "frame (Suc j) s2"
    "same_client s1 s2" using info [OF s1(2)] by blast
  then show thesis
    using that s1 open_stack [OF s1(2)] by (simp add: same_client_def)
qed

lemma search_pass:
  assumes "frame j s" and "j < length ips" and "answers pr h class note UA_SEARCH_PHASE URC_CONTINUE_UNWIND (ips ! j)"
  shows "\<exists>s'. search_frame env pr class s = Inr (Inl s') \<and> frame (Suc j) s' \<and> un_exception s' = un_exception s
    \<and> un_client s' = noted h note UA_SEARCH_PHASE [ips ! j] (un_client s)"
proof -
  obtain s1 s2 pi where n: "step_context env s = Inr (s1, Inr True)" "context_info env s1 = Inr (s2, pi)"
    "pi_handler pi = h (ips ! j)" "frame (Suc j) s2" "same_client s s2"
    using next_frame [OF assms(1,2)] by metis
  show ?thesis
  proof (cases "h (ips ! j) = 0")
    case True
    then show ?thesis
      using n by (intro exI [of _ s2]) (simp add: search_frame_def same_client_def noted_def)
  next
    case False
    have "pr_personality pr (h (ips ! j)) 1 1 class s2
        = Inr (URC_CONTINUE_UNWIND, s2\<lparr>un_client := note (ips ! j) 1 (un_client s2)\<rparr>)"
      using assms(3) False place [OF n(4)] by (simp add: answers_def)
    then show ?thesis
      using n False client(1) [OF n(4)]
      by (intro exI [of _ "s2\<lparr>un_client := note (ips ! j) 1 (un_client s2)\<rparr>"])
        (simp add: search_frame_def same_client_def noted_def)
  qed
qed

lemma search_found:
  assumes "frame j s" and "j < length ips" and "h (ips ! j) \<noteq> 0"
    and "answers pr h class note UA_SEARCH_PHASE URC_HANDLER_FOUND (ips ! j)"
  shows "\<exists>s'. search_frame env pr class s = Inr (Inr (s', None)) \<and> frame (Suc j) s'
    \<and> un_exception s' = un_exception s \<and> un_client s' = note (ips ! j) UA_SEARCH_PHASE (un_client s)"
proof -
  obtain s1 s2 pi where n: "step_context env s = Inr (s1, Inr True)" "context_info env s1 = Inr (s2, pi)"
    "pi_handler pi = h (ips ! j)" "frame (Suc j) s2" "same_client s s2"
    using next_frame [OF assms(1,2)] by metis
  have "pr_personality pr (h (ips ! j)) 1 1 class s2
      = Inr (URC_HANDLER_FOUND, s2\<lparr>un_client := note (ips ! j) 1 (un_client s2)\<rparr>)"
    using assms(3,4) place [OF n(4)] by (simp add: answers_def)
  then show ?thesis
    using n assms(3) client(1) [OF n(4)]
    by (intro exI [of _ "s2\<lparr>un_client := note (ips ! j) 1 (un_client s2)\<rparr>"])
      (simp add: search_frame_def same_client_def)
qed

lemma cleanup_pass:
  assumes "frame j s" and "j < length ips" and "h (ips ! j) = 0 \<or> ips ! j \<noteq> marker"
    and "answers pr h class note UA_CLEANUP_PHASE URC_CONTINUE_UNWIND (ips ! j)"
  shows "\<exists>s'. phase2_frame env pr 0 class marker (UA_CLEANUP_PHASE, s) = Inr (Inl (UA_CLEANUP_PHASE, s'))
    \<and> frame (Suc j) s' \<and> un_exception s' = un_exception s
    \<and> un_client s' = noted h note UA_CLEANUP_PHASE [ips ! j] (un_client s)"
proof -
  obtain s1 s2 pi where n: "step_context env s = Inr (s1, Inr True)" "\<not> end_of_stack (un_context s1)"
    "context_info env s1 = Inr (s2, pi)" "pi_handler pi = h (ips ! j)" "frame (Suc j) s2" "same_client s s2"
    using next_frame [OF assms(1,2)] by metis
  show ?thesis
  proof (cases "h (ips ! j) = 0")
    case True
    then show ?thesis
      using n by (intro exI [of _ s2]) (simp add: phase2_frame_def cleanup_frame_def same_client_def noted_def)
  next
    case False
    have "pr_personality pr (h (ips ! j)) 1 2 class s2
        = Inr (URC_CONTINUE_UNWIND, s2\<lparr>un_client := note (ips ! j) 2 (un_client s2)\<rparr>)"
      using assms(4) False place [OF n(5)] by (simp add: answers_def)
    moreover have "ips ! j \<noteq> marker" using False assms(3) by simp
    ultimately show ?thesis
      using n False client(1) [OF n(5)] place [OF n(5)]
      by (intro exI [of _ "s2\<lparr>un_client := note (ips ! j) 2 (un_client s2)\<rparr>"])
        (simp add: phase2_frame_def cleanup_frame_def after_cleanup_def unw_get_reg_def same_client_def noted_def)
  qed
qed

lemma cleanup_handler:
  assumes "frame j s" and "j < length ips" and "h (ips ! j) \<noteq> 0"
  shows "\<exists>s'. phase2_frame env pr 0 class (ips ! j) (UA_CLEANUP_PHASE, s)
      = rbind (pr_personality pr (h (ips ! j)) U_VERSION (UA_CLEANUP_PHASE OR UA_HANDLER_FRAME) class s')
          (after_cleanup env pr (UA_CLEANUP_PHASE OR UA_HANDLER_FRAME))
    \<and> frame (Suc j) s' \<and> same_client s s'"
proof -
  obtain s1 s2 pi where n: "step_context env s = Inr (s1, Inr True)" "\<not> end_of_stack (un_context s1)"
    "context_info env s1 = Inr (s2, pi)" "pi_handler pi = h (ips ! j)" "frame (Suc j) s2" "same_client s s2"
    using next_frame [OF assms(1,2)] by metis
  then show ?thesis
    using assms(3) place [OF n(5)]
    by (intro exI [of _ s2]) (simp add: phase2_frame_def cleanup_frame_def unw_get_reg_def)
qed

text \<open>The search phase over the first \<open>k\<close> frames.\<close>

lemma search_frames:
  assumes "frame 0 s" and "k \<le> length ips"
    and "\<forall>j < k. answers pr h class note UA_SEARCH_PHASE URC_CONTINUE_UNWIND (ips ! j)"
  shows "\<exists>s'. iterate (search_frame env pr class) s = iterate (search_frame env pr class) s' \<and> frame k s'
    \<and> un_exception s' = un_exception s \<and> un_client s' = noted h note UA_SEARCH_PHASE (take k ips) (un_client s)"
proof -
  let ?P = "\<lambda>j s'. frame j s' \<and> un_exception s' = un_exception s
    \<and> un_client s' = noted h note UA_SEARCH_PHASE (take j ips) (un_client s)"
  have step: "\<exists>s2. search_frame env pr class s1 = Inr (Inl s2) \<and> ?P (Suc j) s2" if jk: "j < k" and Pj: "?P j s1" for j s1
  proof -
    have j: "j < length ips" using jk assms(2) by simp
    obtain s2 where "search_frame env pr class s1 = Inr (Inl s2)" "frame (Suc j) s2"
      "un_exception s2 = un_exception s1" "un_client s2 = noted h note UA_SEARCH_PHASE [ips ! j] (un_client s1)"
      using search_pass [of j s1 "class" "note"] jk Pj j assms(3) by blast
    then show ?thesis
      using Pj by (intro exI [of _ s2]) (simp add: take_Suc_conv_app_nth [OF j], simp add: noted_def)
  qed
  have "?P 0 s" using assms(1) by simp
  then show ?thesis
    using iterate_steps [where P = "?P" and body = "search_frame env pr class" and s = s and k = k, OF step] by blast
qed

text \<open>The second phase over the first \<open>k\<close> frames, none of which is the marked one.\<close>

lemma cleanup_frames:
  assumes "frame 0 s" and "k \<le> length ips"
    and "\<forall>j < k. answers pr h class note UA_CLEANUP_PHASE URC_CONTINUE_UNWIND (ips ! j)
      \<and> (h (ips ! j) = 0 \<or> ips ! j \<noteq> marker)"
  shows "\<exists>s'. iterate (phase2_frame env pr 0 class marker) (UA_CLEANUP_PHASE, s)
      = iterate (phase2_frame env pr 0 class marker) (UA_CLEANUP_PHASE, s') \<and> frame k s'
    \<and> un_exception s' = un_exception s \<and> un_client s' = noted h note UA_CLEANUP_PHASE (take k ips) (un_client s)"
proof -
  let ?P = "\<lambda>j x. fst x = UA_CLEANUP_PHASE \<and> frame j (snd x) \<and> un_exception (snd x) = un_exception s
    \<and> un_client (snd x) = noted h note UA_CLEANUP_PHASE (take j ips) (un_client s)"
  have step: "\<exists>y. phase2_frame env pr 0 class marker x = Inr (Inl y) \<and> ?P (Suc j) y" if jk: "j < k" and Pj: "?P j x" for j x
  proof -
    obtain s1 where x: "x = (UA_CLEANUP_PHASE, s1)" using Pj by (cases x) simp
    have j: "j < length ips" using jk assms(2) by simp
    obtain s2 where "phase2_frame env pr 0 class marker (UA_CLEANUP_PHASE, s1) = Inr (Inl (UA_CLEANUP_PHASE, s2))"
      "frame (Suc j) s2" "un_exception s2 = un_exception s1"
      "un_client s2 = noted h note UA_CLEANUP_PHASE [ips ! j] (un_client s1)"
      using cleanup_pass [of j s1 "marker" "class" "note"] jk Pj j assms(3) x by auto
    then show ?thesis
      using Pj x by (intro exI [of _ "(UA_CLEANUP_PHASE, s2)"])
        (simp add: take_Suc_conv_app_nth [OF j], simp add: noted_def)
  qed
  have "?P 0 (UA_CLEANUP_PHASE, s)" using assms(1) by simp
  then obtain y where "iterate (phase2_frame env pr 0 class marker) (UA_CLEANUP_PHASE, s)
      = iterate (phase2_frame env pr 0 class marker) y" "?P k y"
    using iterate_steps [where P = "?P" and body = "phase2_frame env pr 0 class marker"
        and s = "(UA_CLEANUP_PHASE, s)" and k = k, OF step] by blast
  then show ?thesis by (intro exI [of _ "snd y"]) (metis prod.collapse)
qed

text \<open>No handler: the search phase ends at the outermost frame.\<close>

lemma search_uncaught:
  assumes "frame 0 s"
    and "\<forall>j < length ips. answers pr h class note UA_SEARCH_PHASE URC_CONTINUE_UNWIND (ips ! j)"
  shows "\<exists>s'. iterate (search_frame env pr class) s = Some (Inr (s', Some URC_END_OF_STACK))
    \<and> un_exception s' = un_exception s \<and> un_client s' = noted h note UA_SEARCH_PHASE ips (un_client s)"
proof -
  obtain s1 where s1: "iterate (search_frame env pr class) s = iterate (search_frame env pr class) s1"
    "frame (length ips) s1" "un_exception s1 = un_exception s"
    "un_client s1 = noted h note UA_SEARCH_PHASE ips (un_client s)"
    using search_frames [of s "length ips" "class" "note"] assms by auto
  obtain s2 where s2: "step_context env s1 = Inr (s2, Inr False)" "same_client s1 s2"
    using step_end [OF s1(2)] by blast
  then have "search_frame env pr class s1 = Inr (Inr (s2, Some URC_END_OF_STACK))"
    by (simp add: search_frame_def)
  then show ?thesis
    using s1 s2 iterate_end by (intro exI [of _ s2]) (simp add: same_client_def)
qed

text \<open>From the search phase into the second phase, up to the frame of the handler.\<close>

lemma both_phases:
  assumes "frame 0 s" and k: "k < length ips" and "h (ips ! k) \<noteq> 0"
    and "answers pr h class note UA_SEARCH_PHASE URC_HANDLER_FOUND (ips ! k)"
    and "\<forall>j < k. answers pr h class note UA_SEARCH_PHASE URC_CONTINUE_UNWIND (ips ! j)
      \<and> answers pr h class note UA_CLEANUP_PHASE URC_CONTINUE_UNWIND (ips ! j)"
    and cl: "class = exception_class (un_exception s)"
    and init: "Unwind_InitContext pr s0 = Inr (s, True)"
  shows "\<exists>s'. Unwind_RaiseException env pr s0
      = rbind (pr_personality pr (h (ips ! k)) U_VERSION (UA_CLEANUP_PHASE OR UA_HANDLER_FRAME) class s')
          (handler_outcome env pr)
    \<and> frame (Suc k) s' \<and> un_exception s' = (un_exception s)\<lparr>private_1 := 0, private_2 := ips ! k\<rparr>
    \<and> un_client s' = noted h note UA_CLEANUP_PHASE (take k ips)
        (note (ips ! k) UA_SEARCH_PHASE (noted h note UA_SEARCH_PHASE (take k ips) (un_client s)))"
proof -
  have distinct: "h (ips ! j) = 0 \<or> ips ! j \<noteq> ips ! k" if "j < k" for j
  proof (rule ccontr)
    assume "\<not> ?thesis"
    then have c: "answers pr h class note UA_SEARCH_PHASE URC_CONTINUE_UNWIND (ips ! k)" using assms(5) that by metis
    obtain t :: "'w unwinding" where t: "c_ip (un_cursor t) = ips ! k"
      using that [of "with_cursor s ((un_cursor s)\<lparr>c_ip := ips ! k\<rparr>)"] by simp
    have "pr_personality pr (h (ips ! k)) 1 1 class t = Inr (r, t\<lparr>un_client := note (ips ! k) 1 (un_client t)\<rparr>)"
      if "r = URC_CONTINUE_UNWIND \<or> r = URC_HANDLER_FOUND" for r
      using c assms(3,4) t that by (auto simp: answers_def)
    from this [of URC_CONTINUE_UNWIND] this [of URC_HANDLER_FOUND] show False by simp
  qed
  obtain s1 where s1: "iterate (search_frame env pr class) s = iterate (search_frame env pr class) s1"
    "frame k s1" "un_exception s1 = un_exception s"
    "un_client s1 = noted h note UA_SEARCH_PHASE (take k ips) (un_client s)"
    using search_frames [of s k "class" "note"] assms(1,5) k by auto
  obtain s2 where s2: "search_frame env pr class s1 = Inr (Inr (s2, None))" "frame (Suc k) s2"
    "un_exception s2 = un_exception s1" "un_client s2 = note (ips ! k) UA_SEARCH_PHASE (un_client s1)"
    using search_found [OF s1(2) k assms(3,4)] by blast
  define e where "e = (un_exception s)\<lparr>private_1 := 0, private_2 := ips ! k\<rparr>"
  define s3 where "s3 = s2\<lparr>un_exception := e\<rparr>"
  have "frame (Suc k) s3" "un_cursor s3 = un_cursor s2"
    using client(2) [OF s2(2)] by (simp_all add: s3_def un_cursor_def)
  then obtain s4 where s4: "init_cursor (pr_unchecked pr (c_as (un_cursor s2))) s3 = Inr (s4, True)" "frame 0 s4"
    "same_client s3 s4" using restart by metis
  have e4: "un_exception s4 = e" "un_client s4 = un_client s2"
    using s4(3) by (simp_all add: same_client_def s3_def)
  obtain s5 where s5: "iterate (phase2_frame env pr 0 class (ips ! k)) (UA_CLEANUP_PHASE, s4)
      = iterate (phase2_frame env pr 0 class (ips ! k)) (UA_CLEANUP_PHASE, s5)" "frame k s5"
    "un_exception s5 = e" "un_client s5 = noted h note UA_CLEANUP_PHASE (take k ips) (un_client s2)"
    using cleanup_frames [of s4 k "class" "note" "ips ! k"] s4(2) k assms(5) distinct e4 by auto
  obtain s6 where s6: "phase2_frame env pr 0 class (ips ! k) (UA_CLEANUP_PHASE, s5)
      = rbind (pr_personality pr (h (ips ! k)) U_VERSION (UA_CLEANUP_PHASE OR UA_HANDLER_FRAME) class s6)
          (after_cleanup env pr (UA_CLEANUP_PHASE OR UA_HANDLER_FRAME))"
    "frame (Suc k) s6" "same_client s5 s6"
    using cleanup_handler [OF s5(2) k assms(3)] by blast
  have "private_1 e = 0" "private_2 e = ips ! k" "exception_class e = class" using cl by (simp_all add: e_def)
  then have phase2: "Unwind_Phase2 env pr s4
      = rbind (pr_personality pr (h (ips ! k)) U_VERSION (UA_CLEANUP_PHASE OR UA_HANDLER_FRAME) class s6)
          (handler_outcome env pr)"
    using e4(1) s5(1) iterate_handler [where body = "phase2_frame env pr 0 class (ips ! k)" and x = "(2, s5)", OF s6(1)] by (simp add: Unwind_Phase2_def Let_def)
  have ip: "unw_get_reg (un_cursor s2) UNW_REG_IP = Inr (ips ! k)"
    using place [OF s2(2)] by (simp add: unw_get_reg_def)
  have "Unwind_RaiseException env pr s0 = Unwind_Phase2 env pr s4"
    using init cl s1(1,3) s2(1,3) iterate_end [of "search_frame env pr class" s1] ip s4(1)
    by (simp add: Unwind_RaiseException_def Let_def e_def s3_def)
  then show ?thesis
    using phase2 s6(2,3) s5(3,4) s2(4) s1(4) by (intro exI [of _ s6]) (simp add: same_client_def e_def)
qed

text \<open>Forced unwinding: one frame, and all of them.\<close>

lemma forced_pass:
  assumes "frame j s" and "j < length ips" and "stop \<noteq> 0" and "stop_passes pr stop class parm snote"
    and "answers pr h class note UA_FORCED URC_CONTINUE_UNWIND (ips ! j)"
  shows "\<exists>s'. phase2_frame env pr stop class parm (UA_FORCED, s) = Inr (Inl (UA_FORCED, s'))
    \<and> frame (Suc j) s' \<and> un_client s' = noted h note UA_FORCED [ips ! j] (snote (ips ! j) (un_client s))"
proof -
  obtain s1 where s1: "step_context env s = Inr (s1, Inr True)" "frame (Suc j) s1" "same_client s s1"
    using step_more [OF assms(1,2)] by blast
  define t where "t = s1\<lparr>un_client := snote (ips ! j) (un_client s1)\<rparr>"
  have t: "frame (Suc j) t" "\<not> end_of_stack (un_context t)"
    "pr_stop pr stop 1 UA_FORCED class parm s1 = Inr (URC_NO_REASON, t)"
    using client(1) [OF s1(2)] open_stack [OF s1(2)] place [OF s1(2)] assms(4)
    by (auto simp: t_def stop_passes_def)
  obtain s2 pi where s2: "context_info env t = Inr (s2, pi)" "pi_handler pi = h (ips ! j)" "frame (Suc j) s2"
    "same_client t s2" using info [OF t(1)] by blast
  have run: "phase2_frame env pr stop class parm (UA_FORCED, s) = cleanup_frame env pr stop class parm UA_FORCED t"
    using s1(1) t(2,3) assms(3) by (simp add: phase2_frame_def)
  show ?thesis
  proof (cases "h (ips ! j) = 0")
    case True
    then show ?thesis
      using run s2 s1(3) by (intro exI [of _ s2]) (simp add: cleanup_frame_def same_client_def noted_def t_def)
  next
    case False
    have "pr_personality pr (h (ips ! j)) 1 UA_FORCED class s2
        = Inr (URC_CONTINUE_UNWIND, s2\<lparr>un_client := note (ips ! j) UA_FORCED (un_client s2)\<rparr>)"
      using assms(5) False place [OF s2(3)] by (simp add: answers_def)
    then show ?thesis
      using run s2 s1(3) False client(1) [OF s2(3)] assms(3)
      by (intro exI [of _ "s2\<lparr>un_client := note (ips ! j) UA_FORCED (un_client s2)\<rparr>"])
        (simp add: cleanup_frame_def after_cleanup_def same_client_def noted_def t_def)
  qed
qed

lemma forced_frames:
  assumes "frame 0 s" and "k \<le> length ips" and "stop \<noteq> 0" and "stop_passes pr stop class parm snote"
    and "\<forall>j < k. answers pr h class note UA_FORCED URC_CONTINUE_UNWIND (ips ! j)"
  shows "\<exists>s'. iterate (phase2_frame env pr stop class parm) (UA_FORCED, s)
      = iterate (phase2_frame env pr stop class parm) (UA_FORCED, s') \<and> frame k s'
    \<and> un_client s' = noted_forced h note snote (take k ips) (un_client s)"
proof -
  let ?P = "\<lambda>j x. fst x = UA_FORCED \<and> frame j (snd x)
    \<and> un_client (snd x) = noted_forced h note snote (take j ips) (un_client s)"
  have step: "\<exists>y. phase2_frame env pr stop class parm x = Inr (Inl y) \<and> ?P (Suc j) y"
    if jk: "j < k" and Pj: "?P j x" for j x
  proof -
    obtain s1 where x: "x = (UA_FORCED, s1)" using Pj by (cases x) simp
    have j: "j < length ips" using jk assms(2) by simp
    obtain s2 where "phase2_frame env pr stop class parm (UA_FORCED, s1) = Inr (Inl (UA_FORCED, s2))"
      "frame (Suc j) s2" "un_client s2 = noted h note UA_FORCED [ips ! j] (snote (ips ! j) (un_client s1))"
      using forced_pass [of j s1 stop "class" parm snote "note"] jk Pj j assms(3-5) x by auto
    then show ?thesis
      using Pj x by (intro exI [of _ "(UA_FORCED, s2)"]) (simp add: take_Suc_conv_app_nth [OF j])
  qed
  have "?P 0 (UA_FORCED, s)" using assms(1) by simp
  then obtain y where "iterate (phase2_frame env pr stop class parm) (UA_FORCED, s)
      = iterate (phase2_frame env pr stop class parm) y" "?P k y"
    using iterate_steps [where P = "?P" and body = "phase2_frame env pr stop class parm"
        and s = "(UA_FORCED, s)" and k = k, OF step] by blast
  then show ?thesis by (intro exI [of _ "snd y"]) (metis prod.collapse)
qed

text \<open>At the outermost frame the stop function is called a last time.\<close>

lemma forced_end:
  assumes "frame 0 s" and "stop \<noteq> 0" and "stop_passes pr stop class parm snote"
    and "\<forall>j < length ips. answers pr h class note UA_FORCED URC_CONTINUE_UNWIND (ips ! j)"
    and keeps: "keeps_end pr stop class parm"
  shows "\<exists>s'. returns (iterate (phase2_frame env pr stop class parm) (UA_FORCED, s))
      = rbind (pr_stop pr stop U_VERSION (UA_FORCED OR UA_END_OF_STACK) class parm s')
          (\<lambda>(r, s). Inr (s, Returned URC_FATAL_PHASE2_ERROR))
    \<and> end_of_stack (un_context s') \<and> un_client s' = noted_forced h note snote ips (un_client s)"
proof -
  let ?body = "phase2_frame env pr stop class parm"
  obtain s1 where s1: "iterate ?body (UA_FORCED, s) = iterate ?body (UA_FORCED, s1)" "frame (length ips) s1"
    "un_client s1 = noted_forced h note snote ips (un_client s)"
    using forced_frames [of s "length ips" stop "class" parm snote "note"] assms(1-4) by auto
  obtain s2 where s2: "step_context env s1 = Inr (s2, Inr False)" "same_client s1 s2"
    using step_end [OF s1(2)] by blast
  define t where "t = s2\<lparr>un_context := (un_context s2)\<lparr>end_of_stack := True\<rparr>\<rparr>"
  have t: "end_of_stack (un_context t)" "un_client t = un_client s1"
    using s2(2) by (simp_all add: t_def same_client_def)
  have "returns (iterate ?body (UA_FORCED, s1))
      = rbind (pr_stop pr stop U_VERSION (UA_FORCED OR UA_END_OF_STACK) class parm t)
          (\<lambda>(r, s). Inr (s, Returned URC_FATAL_PHASE2_ERROR))"
  proof (cases "pr_stop pr stop U_VERSION (UA_FORCED OR UA_END_OF_STACK) class parm t")
    case (Inl e)
    then have "?body (UA_FORCED, s1) = Inl e"
      using s2(1) assms(2) by (simp add: phase2_frame_def t_def)
    then show ?thesis using Inl by (subst iterate.simps) simp
  next
    case (Inr a)
    obtain r t' where a: "a = (r, t')" by (cases a)
    have "end_of_stack (un_context t')" using keeps t(1) Inr a unfolding keeps_end_def by blast
    then have "?body (UA_FORCED, s1) = Inr (Inr (t', Returned URC_FATAL_PHASE2_ERROR))"
      using s2(1) assms(2) Inr a by (simp add: phase2_frame_def t_def)
    then show ?thesis using Inr a iterate_end [of ?body "(UA_FORCED, s1)"] by simp
  qed
  then show ?thesis using s1 t by (intro exI [of _ t]) simp
qed

text \<open>A backtrace calls the trace function for every frame.\<close>

lemma trace_frames:
  assumes "frame 0 s" and "trace_notes pr trace parm tnote" and "k \<le> length ips"
  shows "\<exists>s'. iterate (trace_frame env pr trace parm) s = iterate (trace_frame env pr trace parm) s' \<and> frame k s'
    \<and> un_client s' = fold tnote (take k ips) (un_client s)"
proof -
  let ?P = "\<lambda>j s'. frame j s' \<and> un_client s' = fold tnote (take j ips) (un_client s)"
  have step: "\<exists>s2. trace_frame env pr trace parm s1 = Inr (Inl s2) \<and> ?P (Suc j) s2"
    if jk: "j < k" and Pj: "?P j s1" for j s1
  proof -
    have j: "j < length ips" using jk assms(3) by simp
    obtain s2 where s2: "step_context env s1 = Inr (s2, Inr True)" "frame (Suc j) s2" "same_client s1 s2"
      using step_more [of j s1] Pj j by blast
    have "pr_trace pr trace parm s2 = Inr (URC_NO_REASON, s2\<lparr>un_client := tnote (ips ! j) (un_client s2)\<rparr>)"
      using assms(2) place [OF s2(2)] by (simp add: trace_notes_def)
    then show ?thesis
      using s2 client(1) [OF s2(2)] Pj
      by (intro exI [of _ "s2\<lparr>un_client := tnote (ips ! j) (un_client s2)\<rparr>"])
        (simp add: trace_frame_def same_client_def take_Suc_conv_app_nth [OF j])
  qed
  have "?P 0 s" using assms(1) by simp
  then show ?thesis
    using iterate_steps [where P = "?P" and body = "trace_frame env pr trace parm" and s = s and k = k, OF step]
    by blast
qed

lemma trace_all:
  assumes "frame 0 s" and "trace_notes pr trace parm tnote"
  shows "\<exists>s'. iterate (trace_frame env pr trace parm) s = Some (Inr (s', URC_END_OF_STACK))
    \<and> un_client s' = fold tnote ips (un_client s)"
proof -
  obtain s1 where s1: "iterate (trace_frame env pr trace parm) s = iterate (trace_frame env pr trace parm) s1"
    "frame (length ips) s1" "un_client s1 = fold tnote ips (un_client s)"
    using trace_frames [OF assms, of "length ips"] by auto
  obtain s2 where "step_context env s1 = Inr (s2, Inr False)" "same_client s1 s2"
    using step_end [OF s1(2)] by blast
  then have "trace_frame env pr trace parm s1 = Inr (Inr (s2, URC_END_OF_STACK))" "un_client s2 = un_client s1"
    by (simp_all add: trace_frame_def same_client_def)
  then show ?thesis using s1 iterate_end [of "trace_frame env pr trace parm" s1] by (intro exI [of _ s2]) simp
qed

end

section \<open>The frames of a call stack\<close>

text \<open>The frame address after \<open>i\<close> steps: that of the innermost function and the sizes of the frames.\<close>

definition frame_sp :: "(unw_word \<Rightarrow> unw_word) \<Rightarrow> unw_word \<Rightarrow> unw_word list \<Rightarrow> nat \<Rightarrow> unw_word" where
  "frame_sp f sp ips i = foldl (\<lambda>sp ip. sp + f ip) sp (take i ips)"

text \<open>Initialising anew does away with the flag for checks only.\<close>

definition forgets_checks :: "unw_env \<Rightarrow> 'w program \<Rightarrow> bool" where
  "forgets_checks env pr \<longleftrightarrow> se_is_local env \<and> (\<forall>as. ue_validating env (pr_unchecked pr as) = ue_validating env as
     \<and> access_reg (pr_unchecked pr as) = access_reg as)"

text \<open>The unwind information of an address names its personality routine.\<close>

definition handled_by :: "unw_env \<Rightarrow> (unw_word \<Rightarrow> unw_word) \<Rightarrow> unw_word \<Rightarrow> bool" where
  "handled_by env h ip \<longleftrightarrow> (\<forall>pi. (\<forall>a \<in> {ip, ip - 1}. se_find_proc_info env a (se_failed_pi env) = Inr pi)
     \<longrightarrow> pi_handler pi = h ip)"

text \<open>A program on a call stack, and the state after \<open>i\<close> steps.\<close>

definition on_stack ::
  "unw_env \<Rightarrow> 'w program \<Rightarrow> addr_space \<Rightarrow> (unw_word \<Rightarrow> unw_word) \<Rightarrow> (unw_word \<Rightarrow> unw_word) \<Rightarrow> unw_word \<Rightarrow> unw_word
    \<Rightarrow> unw_word list \<Rightarrow> bool" where
  "on_stack env pr as f h ip sp ips \<longleftrightarrow> checks_only env \<and> forgets_checks env pr
     \<and> calls (step_env.truncate env) as f ip sp ips \<and> (\<forall>ip \<in> set ips. handled_by env h ip)
     \<and> access_reg as 16 = Inr ip \<and> access_reg as 7 = Inr sp"

definition frame_at ::
  "unw_env \<Rightarrow> 'w program \<Rightarrow> addr_space \<Rightarrow> (unw_word \<Rightarrow> unw_word) \<Rightarrow> (unw_word \<Rightarrow> unw_word) \<Rightarrow> unw_word \<Rightarrow> unw_word
    \<Rightarrow> unw_word list \<Rightarrow> nat \<Rightarrow> 'w unwinding \<Rightarrow> bool" where
  "frame_at env pr as f h ip sp ips i s \<longleftrightarrow> on_stack env pr as f h ip sp ips \<and> i \<le> length ips
     \<and> \<not> end_of_stack (un_context s) \<and> (0 < i \<longrightarrow> c_as (un_cursor s) = as)
     \<and> ready env as f (un_cursor s) (un_caches s) ((ip # ips) ! i) (frame_sp f sp (ip # ips) i)"

lemma frame_sp_Suc: "i \<le> length ips \<Longrightarrow> frame_sp f sp (ip # ips) (Suc i) = frame_sp f sp (ip # ips) i + f ((ip # ips) ! i)"
  by (simp add: frame_sp_def take_Suc_conv_app_nth del: take_Suc_Cons)

lemma calls_drop:
  "calls env as f ip sp ips \<Longrightarrow> i \<le> length ips \<Longrightarrow>
   calls env as f ((ip # ips) ! i) (frame_sp f sp (ip # ips) i) (drop i ips)"
proof (induction i)
  case 0
  then show ?case by (simp add: frame_sp_def)
next
  case (Suc i)
  then have "calls env as f ((ip # ips) ! i) (frame_sp f sp (ip # ips) i) (ips ! i # drop (Suc i) ips)"
    by (simp add: Cons_nth_drop_Suc)
  then show ?case using Suc.prems(2) by (auto simp: frame_sp_Suc elim: calls_ConsE)
qed

lemma calls_frame:
  assumes "calls env as f ip sp ips"
  shows "described env as ip (f ip)" "ip \<noteq> 0" "f ip \<noteq> 0" "sp + f ip \<noteq> 8"
    and "access_mem as (sp + f ip - 8) = Inr (case ips of [] \<Rightarrow> 0 | ra # _ \<Rightarrow> ra)"
    and "ips = ra # ras \<Longrightarrow> ra \<noteq> 0"
  using assms by (auto elim: calls.cases)


lemma frame_at_step:
  assumes "frame_at env pr as f h ip sp ips i s"
  shows "\<exists>s'. step_context env s = Inr (s', Inr (i < length ips)) \<and> same_client s s'
    \<and> (i < length ips \<longrightarrow> frame_at env pr as f h ip sp ips (Suc i) s')"
proof -
  let ?ip = "(ip # ips) ! i" and ?sp = "frame_sp f sp (ip # ips) i"
  have i: "i \<le> length ips" and env: "checks_only env" and c: "calls (step_env.truncate env) as f ?ip ?sp (drop i ips)"
    using assms calls_drop by (auto simp: frame_at_def on_stack_def)
  have r: "at_frame env as f (un_cursor s) (un_caches s) ?ip ?sp" "\<not> c_stash_frames (un_cursor s)"
    using assms by (simp_all add: frame_at_def ready_def)
  let ?ra = "case drop i ips of [] \<Rightarrow> 0 | ra # _ \<Rightarrow> ra"
  obtain c' ca' where s: "unw_step env (un_cursor s) (un_caches s) = Inr (c', ca', Inr (?ra \<noteq> 0))"
    "at_frame env as f c' ca' ?ra (?sp + f ?ip)" "c_stash_frames c' = c_stash_frames (un_cursor s)" "c_as c' = as"
    using unw_step_row [OF r(1) env calls_frame(1-5) [OF c]] r(2) by blast
  have ra: "(?ra \<noteq> 0 \<longleftrightarrow> i < length ips) \<and> (i < length ips \<longrightarrow> ?ra = ips ! i)"
  proof (cases "i < length ips")
    case True
    then have "drop i ips = ips ! i # drop (Suc i) ips" by (simp add: Cons_nth_drop_Suc)
    then show ?thesis using True calls_frame(6) [OF c] by simp
  qed simp
  let ?s = "(with_cursor s c')\<lparr>un_caches := ca'\<rparr>"
  have "frame_at env pr as f h ip sp ips (Suc i) ?s" if "i < length ips"
    using assms s(2-4) r(2) that ra frame_sp_Suc [OF i] by (simp add: frame_at_def ready_def)
  then show ?thesis
    using s(1) ra by (intro exI [of _ ?s]) (simp add: step_context_def same_client_def)
qed

lemma ready_same:
  assumes "ready env as f c ca ip sp" and "same_place c c'" and "c_hint c' = c_hint c" and "c_prev_rs c' = c_prev_rs c"
  shows "ready env as f c' ca ip sp"
proof -
  have "dwarf_get (c'\<lparr>c_as := x\<rparr>) l = dwarf_get (c\<lparr>c_as := x\<rparr>) l" for x l by (simp add: dwarf_get_def)
  then show ?thesis
    using assms by (auto simp: ready_def at_frame_def good_cursor_def hint_ok_def wf_cursor_def sp_is_def same_place_def)
qed

lemma frame_at_info:
  assumes "frame_at env pr as f h ip sp ips (Suc i) s"
  shows "\<exists>s' pi. context_info env s = Inr (s', pi) \<and> pi_handler pi = h (ips ! i)
    \<and> frame_at env pr as f h ip sp ips (Suc i) s' \<and> same_client s s'"
proof -
  have i: "Suc i \<le> length ips" and c: "calls (step_env.truncate env) as f (ips ! i) (frame_sp f sp (ip # ips) (Suc i)) (drop (Suc i) ips)"
    using assms calls_drop [of "step_env.truncate env" as f ip sp ips "Suc i"] by (auto simp: frame_at_def on_stack_def)
  have at: "c_as (un_cursor s) = as" "c_ip (un_cursor s) = ips ! i"
    using assms by (simp_all add: frame_at_def ready_def at_frame_def)
  obtain pi c' where p: "dwarf_make_proc_info (step_env.truncate env) (un_cursor s) (un_caches s) = Inr (c', un_caches s, Inr ())"
    "c_pi c' = pi\<lparr>pi_unwind_info := None\<rparr>"
    "\<forall>a \<in> {ips ! i, ips ! i - 1}. se_find_proc_info (step_env.truncate env) a (se_failed_pi (step_env.truncate env)) = Inr pi"
    "c' = (un_cursor s)\<lparr>c_pi := c_pi c', c_pi_valid := False, c_pi_is_dynamic := False,
      c_sigcontext_format := X86_64_SCF_NONE, c_args_size := c_args_size c'\<rparr>"
    by (rule described_proc_info [OF calls_frame(1) [OF c] at, where ca = "un_caches s"])
  have "handled_by env h (ips ! i)" using assms i by (simp add: frame_at_def on_stack_def)
  then have h: "pi_handler (c_pi c') = h (ips ! i)"
    using p(2,3) by (simp add: handled_by_def step_env.truncate_def)
  have "same_place (un_cursor s) c'" "c_hint c' = c_hint (un_cursor s)" "c_prev_rs c' = c_prev_rs (un_cursor s)"
    by (subst p(4), simp add: same_place_def)+
  then have "ready env as f c' (un_caches s) (ips ! i) (frame_sp f sp (ip # ips) (Suc i))" "c_as c' = as"
    using assms at ready_same [of env as f "un_cursor s"] by (simp_all add: frame_at_def same_place_def)
  then have "frame_at env pr as f h ip sp ips (Suc i) (with_cursor s c')"
    using assms by (simp add: frame_at_def)
  moreover have "(with_cursor s c')\<lparr>un_caches := un_caches s\<rparr> = with_cursor s c'" by (simp add: with_cursor_def)
  ultimately show ?thesis
    using p(1) h by (intro exI [of _ "with_cursor s c'"] exI [of _ "c_pi c'"])
      (simp add: context_info_def unw_get_proc_info_def same_client_def)
qed

lemma init_cursor_ready:
  assumes "steady (un_caches s)" and "good_cache (\<lambda>ip. (plain_row (f ip), False)) (global_cache (un_caches s))"
    and "length (c_eh_args (un_cursor s)) = 2" and "access_reg as0 16 = Inr ip" and "access_reg as0 7 = Inr sp"
    and "checks_only env"
  shows "\<exists>s'. init_cursor as0 s = Inr (s', True) \<and> ready env (read_as env as0) f (un_cursor s') (un_caches s') ip sp
    \<and> same_client s s'"
proof -
  obtain c' where "unw_init_local2 ((un_cursor s)\<lparr>c_as := as0\<rparr>) 0 = Inr (c', Inr ())"
    "ready env (read_as env as0) f c' (un_caches s) ip sp"
    using init_ready [of "un_caches s" f "(un_cursor s)\<lparr>c_as := as0\<rparr>" ip sp env 0] assms by auto
  then show ?thesis
    by (intro exI [of _ "with_cursor s c'"])
      (simp add: init_cursor_def unw_init_local_def unw_init_local2_def same_client_def)
qed

lemma frame_at_restart:
  assumes "frame_at env pr as f h ip sp ips i s"
  shows "\<exists>s'. init_cursor (pr_unchecked pr (c_as (un_cursor s))) s = Inr (s', True)
    \<and> frame_at env pr as f h ip sp ips 0 s' \<and> same_client s s'"
proof -
  let ?x = "c_as (un_cursor s)"
  have st: "on_stack env pr as f h ip sp ips" "\<not> end_of_stack (un_context s)"
    and r: "at_frame env as f (un_cursor s) (un_caches s) ((ip # ips) ! i) (frame_sp f sp (ip # ips) i)"
    using assms by (simp_all add: frame_at_def ready_def)
  have loc: "se_is_local env" "ue_validating env (pr_unchecked pr ?x) = ue_validating env ?x"
    "access_reg (pr_unchecked pr ?x) = access_reg ?x" "access_reg (ue_validating env ?x) = access_reg ?x"
    using st(1) by (simp_all add: on_stack_def forgets_checks_def checks_only_def)
  have as: "read_as env ?x = as" "read_as env (pr_unchecked pr ?x) = as"
    using r loc by (simp_all add: at_frame_def read_as_def)
  then have "access_reg (pr_unchecked pr ?x) = access_reg as"
    using loc by (simp add: read_as_def)
  then obtain s' where "init_cursor (pr_unchecked pr ?x) s = Inr (s', True)"
    "ready env as f (un_cursor s') (un_caches s') ip sp" "same_client s s'"
    using init_cursor_ready [of s f "pr_unchecked pr ?x" ip sp env] as r st(1)
    by (auto simp: at_frame_def wf_cursor_def on_stack_def)
  then show ?thesis
    using st by (intro exI [of _ s']) (simp add: frame_at_def frame_sp_def same_client_def)
qed

interpretation stack: frame_chain env pr h ips "frame_sp f sp (ip # ips)" "frame_at env pr as f h ip sp ips"
  for env and pr :: "'w program" and as f h ip sp ips
proof
  fix i and s :: "'w unwinding"
  show "frame_at env pr as f h ip sp ips i s \<Longrightarrow> i < length ips \<Longrightarrow>
      \<exists>s'. step_context env s = Inr (s', Inr True) \<and> frame_at env pr as f h ip sp ips (Suc i) s' \<and> same_client s s'"
    using frame_at_step by fastforce
  show "frame_at env pr as f h ip sp ips (length ips) s \<Longrightarrow>
      \<exists>s'. step_context env s = Inr (s', Inr False) \<and> same_client s s'"
    using frame_at_step by fastforce
  show "frame_at env pr as f h ip sp ips (Suc i) s \<Longrightarrow>
      \<exists>s' pi. context_info env s = Inr (s', pi) \<and> pi_handler pi = h (ips ! i)
        \<and> frame_at env pr as f h ip sp ips (Suc i) s' \<and> same_client s s'"
    by (rule frame_at_info)
  show "frame_at env pr as f h ip sp ips i s \<Longrightarrow>
      \<exists>s'. init_cursor (pr_unchecked pr (c_as (un_cursor s))) s = Inr (s', True)
        \<and> frame_at env pr as f h ip sp ips 0 s' \<and> same_client s s'"
    by (rule frame_at_restart)
  show "frame_at env pr as f h ip sp ips (Suc i) s \<Longrightarrow>
      c_ip (un_cursor s) = ips ! i \<and> c_cfa (un_cursor s) = frame_sp f sp (ip # ips) (Suc i)"
    by (simp add: frame_at_def ready_def at_frame_def)
qed (simp_all add: frame_at_def)

text \<open>The first state, from the macro that initialises the context.\<close>

lemma init_context_frame:
  assumes "on_stack env pr (read_as env as0) f h ip sp ips" and "pr_getcontext pr = Inr as0"
    and "steady (un_caches s)" and "good_cache (\<lambda>ip. (plain_row (f ip), False)) (global_cache (un_caches s))"
    and "length (c_eh_args (un_cursor s)) = 2"
  shows "\<exists>s'. Unwind_InitContext pr s = Inr (s', True) \<and> frame_at env pr (read_as env as0) f h ip sp ips 0 s'
    \<and> un_exception s' = un_exception s \<and> un_client s' = un_client s"
proof -
  let ?s = "s\<lparr>un_context := (un_context s)\<lparr>end_of_stack := False\<rparr>\<rparr>"
  have "access_reg as0 = access_reg (read_as env as0)"
    using assms(1) by (simp add: on_stack_def checks_only_def read_as_def)
  moreover have "un_cursor ?s = un_cursor s" by (simp add: un_cursor_def)
  ultimately obtain s' where s': "init_cursor as0 ?s = Inr (s', True)"
    "ready env (read_as env as0) f (un_cursor s') (un_caches s') ip sp" "same_client ?s s'"
    using init_cursor_ready [of ?s f as0 ip sp env] assms by (auto simp: on_stack_def)
  then show ?thesis
    using assms(1,2) by (intro exI [of _ s'])
      (simp add: Unwind_InitContext_def Let_def frame_at_def frame_sp_def same_client_def)
qed

end
