(* ===== verification/ExceptionProps.thy ===== *)
theory ExceptionProps
  imports ExceptionLemmas UnwindProps
begin

text \<open>
  Properties of the exception interface on a call stack, with a small program whose frames have a
  personality routine.
\<close>

section \<open>Raising an exception\<close>

text \<open>C1. Raising an exception on a call stack finds the nearest handler and runs the cleanups up to
  it. Suppose that the personality routines of the callers in \<open>pre\<close> decline in the search phase and
  go on after their cleanup, and that of the caller \<open>hip\<close> accepts. Then \<open>_Unwind_RaiseException\<close> asks
  every routine of \<open>pre\<close> and of \<open>hip\<close> once, walks the stack again and has every routine of \<open>pre\<close>
  clean up once, in the same order, and ends as the routine of \<open>hip\<close> decides, which is called with
  the mark for the handler's frame, on a cursor at the frame of \<open>hip\<close>, the exception carrying its
  address: the context it asks for is installed, its refusal to go on is an error, and a change
  of its mind is \<open>abort\<close>. Callers beyond \<open>hip\<close> are not asked.\<close>
theorem exception_reaches_handler:
  assumes "on_stack env pr (read_as env as) f h ip sp (pre @ hip # post)" and "pr_getcontext pr = Inr as"
    and "steady (un_caches s)" and "good_cache (\<lambda>ip. (plain_row (f ip), False)) (global_cache (un_caches s))"
    and "length (c_eh_args (un_cursor s)) = 2" and "c = exception_class (un_exception s)"
    and "\<forall>a \<in> set pre. answers pr h c note UA_SEARCH_PHASE URC_CONTINUE_UNWIND a
      \<and> answers pr h c note UA_CLEANUP_PHASE URC_CONTINUE_UNWIND a"
    and "h hip \<noteq> 0" and "answers pr h c note UA_SEARCH_PHASE URC_HANDLER_FOUND hip"
  shows "\<exists>s'. Unwind_RaiseException env pr s
      = rbind (pr_personality pr (h hip) U_VERSION (UA_CLEANUP_PHASE OR UA_HANDLER_FRAME) c s') (handler_outcome env pr)
    \<and> c_ip (un_cursor s') = hip \<and> c_cfa (un_cursor s') = frame_sp f sp (ip # pre @ hip # post) (Suc (length pre))
    \<and> un_exception s' = (un_exception s)\<lparr>private_1 := 0, private_2 := hip\<rparr>
    \<and> un_client s' = noted h note UA_CLEANUP_PHASE pre
        (note hip UA_SEARCH_PHASE (noted h note UA_SEARCH_PHASE pre (un_client s)))"
proof -
  let ?ips = "pre @ hip # post" and ?k = "length pre"
  obtain s0 where s0: "Unwind_InitContext pr s = Inr (s0, True)" "frame_at env pr (read_as env as) f h ip sp ?ips 0 s0"
    "un_exception s0 = un_exception s" "un_client s0 = un_client s"
    using init_context_frame [OF assms(1-5)] by blast
  have k: "?k < length ?ips" "?ips ! ?k = hip" "take ?k ?ips = pre" by simp_all
  have pre: "\<forall>j < ?k. answers pr h c note UA_SEARCH_PHASE URC_CONTINUE_UNWIND (?ips ! j)
      \<and> answers pr h c note UA_CLEANUP_PHASE URC_CONTINUE_UNWIND (?ips ! j)"
    using assms(7) by (simp add: nth_append)
  show ?thesis
    using stack.both_phases [OF s0(2) k(1) _ _ pre _ s0(1)] assms(6,8,9) s0(3,4) k stack.place by fastforce
qed

text \<open>C10. An exception that nobody handles runs no cleanup. If the personality routines of all callers
  decline in the search phase, \<open>_Unwind_RaiseException\<close> reports the end of the stack; each routine has been
  asked once, innermost first, none has been called to clean up, and the exception is as it was.\<close>
theorem uncaught_exception_runs_no_cleanup:
  assumes "on_stack env pr (read_as env as) f h ip sp ips" and "pr_getcontext pr = Inr as"
    and "steady (un_caches s)" and "good_cache (\<lambda>ip. (plain_row (f ip), False)) (global_cache (un_caches s))"
    and "length (c_eh_args (un_cursor s)) = 2"
    and "\<forall>a \<in> set ips. answers pr h (exception_class (un_exception s)) note UA_SEARCH_PHASE URC_CONTINUE_UNWIND a"
  shows "\<exists>s'. Unwind_RaiseException env pr s = Inr (s', Returned URC_END_OF_STACK)
    \<and> un_exception s' = un_exception s \<and> un_client s' = noted h note UA_SEARCH_PHASE ips (un_client s)"
proof -
  obtain s0 where s0: "Unwind_InitContext pr s = Inr (s0, True)" "frame_at env pr (read_as env as) f h ip sp ips 0 s0"
    "un_exception s0 = un_exception s" "un_client s0 = un_client s"
    using init_context_frame [OF assms(1-5)] by blast
  have "\<forall>j < length ips. answers pr h (exception_class (un_exception s)) note UA_SEARCH_PHASE URC_CONTINUE_UNWIND (ips ! j)"
    using assms(6) by simp
  from stack.search_uncaught [OF s0(2) this] obtain s' where
    "iterate (search_frame env pr (exception_class (un_exception s))) s0 = Some (Inr (s', Some URC_END_OF_STACK))"
    "un_exception s' = un_exception s0" "un_client s' = noted h note UA_SEARCH_PHASE ips (un_client s0)"
    by blast
  then show ?thesis
    using s0 by (intro exI [of _ s']) (simp add: Unwind_RaiseException_def)
qed

section \<open>The other ways to unwind\<close>

text \<open>C11. Forced unwinding calls the stop function for every caller before the caller's personality
  routine, both with the mark of a forced cleanup, and once more at the end of the stack, where the
  stack pointer that a routine reads is zero; if the stop function returns then, the result is an error
  of the second phase. Here the stop function lets every frame pass, and the routines go on.\<close>
theorem forced_unwind_visits_all:
  assumes "on_stack env pr (read_as env as) f h ip sp ips" and "pr_getcontext pr = Inr as"
    and "steady (un_caches s)" and "good_cache (\<lambda>ip. (plain_row (f ip), False)) (global_cache (un_caches s))"
    and "length (c_eh_args (un_cursor s)) = 2" and "c = exception_class (un_exception s)"
    and "stop \<noteq> 0" and "stop_passes pr stop c parm snote"
    and "\<forall>a \<in> set ips. answers pr h c note UA_FORCED URC_CONTINUE_UNWIND a"
    and "keeps_end pr stop c parm"
  shows "\<exists>s'. Unwind_ForcedUnwind env pr stop parm s
      = rbind (pr_stop pr stop U_VERSION (UA_FORCED OR UA_END_OF_STACK) c parm s')
          (\<lambda>(r, s). Inr (s, Returned URC_FATAL_PHASE2_ERROR))
    \<and> un_client s' = noted_forced h note snote ips (un_client s)
    \<and> (\<forall>val. Unwind_GetGR val (un_context s') (int RSP) = Inr 0)"
proof -
  obtain s0 where s0: "Unwind_InitContext pr s = Inr (s0, True)" "frame_at env pr (read_as env as) f h ip sp ips 0 s0"
    "un_exception s0 = un_exception s" "un_client s0 = un_client s"
    using init_context_frame [OF assms(1-5)] by blast
  define s1 where "s1 = s0\<lparr>un_exception := (un_exception s0)\<lparr>private_1 := stop, private_2 := parm\<rparr>\<rparr>"
  have s1: "frame_at env pr (read_as env as) f h ip sp ips 0 s1" "un_client s1 = un_client s"
    using stack.client(2) [OF s0(2)] s0(4) by (simp_all add: s1_def)
  have a: "\<forall>j < length ips. answers pr h c note UA_FORCED URC_CONTINUE_UNWIND (ips ! j)" using assms(9) by simp
  obtain s' where "returns (iterate (phase2_frame env pr stop c parm) (UA_FORCED, s1))
      = rbind (pr_stop pr stop U_VERSION (UA_FORCED OR UA_END_OF_STACK) c parm s')
          (\<lambda>(r, s). Inr (s, Returned URC_FATAL_PHASE2_ERROR))"
    "end_of_stack (un_context s')" "un_client s' = noted_forced h note snote ips (un_client s1)"
    using stack.forced_end [OF s1(1) assms(7,8) a assms(10)] by blast
  then show ?thesis
    using s0 s1(2) assms(6,7)
    by (intro exI [of _ s']) (simp add: Unwind_ForcedUnwind_def Unwind_Phase2_def s1_def Unwind_GetGR_def)
qed

text \<open>\<open>_Unwind_Backtrace\<close> calls the trace function once for every caller, innermost first, with the
  cursor at its frame, and reports the end of the stack.\<close>
lemma backtrace_calls_all:
  assumes "on_stack env pr (read_as env as) f h ip sp ips" and "pr_getcontext pr = Inr as"
    and "steady (un_caches s)" and "good_cache (\<lambda>ip. (plain_row (f ip), False)) (global_cache (un_caches s))"
    and "length (c_eh_args (un_cursor s)) = 2" and "trace_notes pr trace parm tnote"
  shows "\<exists>s'. Unwind_Backtrace env pr trace parm s = Inr (s', URC_END_OF_STACK)
    \<and> un_client s' = fold tnote ips (un_client s)"
proof -
  obtain s0 where s0: "Unwind_InitContext pr s = Inr (s0, True)" "frame_at env pr (read_as env as) f h ip sp ips 0 s0"
    "un_client s0 = un_client s"
    using init_context_frame [OF assms(1-5)] by blast
  obtain s' where "iterate (trace_frame env pr trace parm) s0 = Some (Inr (s', URC_END_OF_STACK))"
    "un_client s' = fold tnote ips (un_client s0)"
    using stack.trace_all [OF s0(2) assms(6)] by blast
  then show ?thesis using s0 by (intro exI [of _ s']) (simp add: Unwind_Backtrace_def)
qed

section \<open>A small program\<close>

text \<open>Giving every function a personality routine leaves the rows of the unwind tables alone.\<close>

definition with_handler :: "unw_word \<Rightarrow> unw_env \<Rightarrow> unw_env" where
  "with_handler pers env = env\<lparr>se_find_proc_info := (\<lambda>ip pi. map_sum id (pi_handler_update (\<lambda>_. pers)) (se_find_proc_info env ip pi))\<rparr>"

lemma with_handler_simps:
  "step_env.truncate (with_handler pers env) = (step_env.truncate env)\<lparr>se_find_proc_info :=
     (\<lambda>ip pi. map_sum id (pi_handler_update (\<lambda>_. pers)) (se_find_proc_info env ip pi))\<rparr>"
  "ue_validating (with_handler pers env) = ue_validating env" "se_is_local (with_handler pers env) = se_is_local env"
  by (simp_all add: with_handler_def step_env.truncate_def)

lemma described_with_handler:
  "described (step_env.truncate env) as ip n \<Longrightarrow> described (step_env.truncate (with_handler pers env)) as ip n"
  unfolding described_def
proof (elim conjE exE, intro conjI, goal_cases)
  case (4 pi dci ci fi t0)
  then show ?case
    apply -
    apply (rule exI [of _ "pi\<lparr>pi_handler := pers\<rparr>"])
    apply (rule exI [of _ dci])
    apply (rule exI [of _ ci])
    apply (rule exI [of _ fi])
    apply (rule exI [of _ t0])
    apply (simp add: with_handler_def step_env.truncate_def cie_env_def)
    done
qed (simp_all add: with_handler_simps)


text \<open>
  Three functions with frames of 16 bytes on top of each other, at 0x4000, 0x5000 and 0x5100; the
  personality routine at 0x900 logs its calls, handles exceptions at 0x5100 only and goes on
  otherwise. The stop function at 0x910 and the trace function at 0x920 log their calls.
\<close>

definition call_stack :: addr_space where
  "call_stack = stack_as [(0x7008, 0x5000), (0x7018, 0x5100), (0x7028, 0)]"

definition routines :: "unw_env" where
  "routines = with_handler 0x900 small_env"

type_synonym log = "(unw_word \<times> unwind_action) list"

definition logs :: "unw_word \<Rightarrow> unwind_action \<Rightarrow> log \<Rightarrow> log" where
  "logs ip a l = l @ [(ip, a)]"

definition small_routines :: "bool \<Rightarrow> log program" where
  "small_routines handles = \<lparr>
     pr_personality = (\<lambda>addr version a class s. let ip = c_ip (un_cursor s) in
       Inr (if \<not> handles \<or> ip \<noteq> 0x5100 then URC_CONTINUE_UNWIND
            else if a = UA_SEARCH_PHASE then URC_HANDLER_FOUND else URC_INSTALL_CONTEXT,
            s\<lparr>un_client := logs ip a (un_client s)\<rparr>)),
     pr_stop = (\<lambda>addr version a class parm s.
       Inr (URC_NO_REASON, s\<lparr>un_client := logs (c_ip (un_cursor s)) 0 (un_client s)\<rparr>)),
     pr_trace = (\<lambda>addr parm s. Inr (URC_NO_REASON, s\<lparr>un_client := logs (c_ip (un_cursor s)) 0 (un_client s)\<rparr>)),
     pr_cleanup = (\<lambda>addr r e w. Inr w), pr_uc = 0x1000, pr_getcontext = Inr call_stack,
     pr_unchecked = (\<lambda>as. as)\<rparr>"

definition small_start :: "log unwinding" where
  "small_start = \<lparr>un_exception = \<lparr>exception_class = 1, exception_cleanup = 0, private_1 = 0, private_2 = 0\<rparr>,
     un_context = \<lparr>ctx_cursor = blank_cursor small_as, end_of_stack = False\<rparr>, un_caches = small_caches,
     un_client = []\<rparr>"

lemma routines_described: "described (step_env.truncate routines) call_stack ip 16"
  unfolding routines_def call_stack_def by (intro described_with_handler stack_described) simp

lemma routines_calls: "calls (step_env.truncate routines) call_stack (\<lambda>_. 16) 0x4000 0x7000 [0x5000, 0x5100]"
proof -
  have m: "access_mem call_stack 0x7008 = Inr 0x5000" "access_mem call_stack 0x7018 = Inr 0x5100"
    "access_mem call_stack 0x7028 = Inr 0"
    by (simp_all add: call_stack_def stack_as_def)
  have c1: "calls (step_env.truncate routines) call_stack (\<lambda>_. 16) 0x5100 0x7020 []"
    by (rule calls.outermost) (simp_all add: routines_described m)
  have c2: "calls (step_env.truncate routines) call_stack (\<lambda>_. 16) 0x5000 0x7010 [0x5100]"
    by (rule calls.call) (simp_all add: routines_described m c1)
  show ?thesis
    by (rule calls.call) (simp_all add: routines_described m c2)
qed

lemma routines_on_stack:
  "on_stack routines (small_routines b) (read_as routines call_stack) (\<lambda>_. 16) (\<lambda>_. 0x900) 0x4000 0x7000 [0x5000, 0x5100]"
proof -
  have "read_as routines call_stack = call_stack"
    by (simp add: read_as_def routines_def with_handler_simps small_env_def)
  moreover have "checks_only routines" "forgets_checks routines (small_routines b)"
    by (simp_all add: checks_only_def forgets_checks_def routines_def with_handler_simps small_env_def small_routines_def)
  moreover have "handled_by routines (\<lambda>_. 0x900) ip" for ip
    by (auto simp: handled_by_def routines_def with_handler_def small_env_def)
  ultimately show ?thesis
    using routines_calls by (simp add: on_stack_def call_stack_def stack_as_def)
qed

lemma small_start_facts:
  "pr_getcontext (small_routines b) = Inr call_stack" "un_client small_start = []"
  "steady (un_caches small_start)" "good_cache (\<lambda>_. (plain_row 16, False)) (global_cache (un_caches small_start))"
  "length (c_eh_args (un_cursor small_start)) = 2" "exception_class (un_exception small_start) = 1"
  using small_cache_good by (simp_all add: small_routines_def small_start_def un_cursor_def blank_cursor_def)

text \<open>The routine of 0x5000 declines and cleans up, that of 0x5100 installs its context.\<close>

theorem exception_reaches_handler_witness:
  "\<exists>s'. Unwind_RaiseException routines (small_routines True) small_start = install_context routines (small_routines True) s'
    \<and> c_ip (un_cursor s') = 0x5100 \<and> un_client s' = [(0x5000, 1), (0x5100, 1), (0x5000, 2), (0x5100, 6)]"
proof -
  let ?pr = "small_routines True"
  have "\<forall>a \<in> set [0x5000]. answers ?pr (\<lambda>_. 0x900) 1 logs UA_SEARCH_PHASE URC_CONTINUE_UNWIND a
      \<and> answers ?pr (\<lambda>_. 0x900) 1 logs UA_CLEANUP_PHASE URC_CONTINUE_UNWIND a"
    and "answers ?pr (\<lambda>_. 0x900) 1 logs UA_SEARCH_PHASE URC_HANDLER_FOUND 0x5100"
    by (simp_all add: answers_def small_routines_def)
  then obtain s' where s': "Unwind_RaiseException routines ?pr small_start
      = rbind (pr_personality ?pr 0x900 1 6 1 s') (handler_outcome routines ?pr)" "c_ip (un_cursor s') = 0x5100"
    "un_client s' = [(0x5000, 1), (0x5100, 1), (0x5000, 2)]"
    using exception_reaches_handler [of routines ?pr call_stack "\<lambda>_. 16" "\<lambda>_. 0x900" "0x4000" "0x7000" "[0x5000]" "0x5100"
        "[]" small_start 1 logs] routines_on_stack small_start_facts
    by (auto simp: noted_def logs_def)
  let ?s = "s'\<lparr>un_client := logs 0x5100 6 (un_client s')\<rparr>"
  have "pr_personality ?pr 0x900 1 6 1 s' = Inr (URC_INSTALL_CONTEXT, ?s)"
    using s'(2) by (simp add: small_routines_def)
  then show ?thesis
    using s' by (intro exI [of _ ?s]) (simp add: handler_outcome_def logs_def)
qed

theorem uncaught_exception_runs_no_cleanup_witness:
  "\<exists>s'. Unwind_RaiseException routines (small_routines False) small_start = Inr (s', Returned URC_END_OF_STACK)
    \<and> un_client s' = [(0x5000, 1), (0x5100, 1)]"
proof -
  have "\<forall>a \<in> set [0x5000, 0x5100]. answers (small_routines False) (\<lambda>_. 0x900) (exception_class (un_exception small_start))
      logs UA_SEARCH_PHASE URC_CONTINUE_UNWIND a"
    by (simp add: answers_def small_routines_def)
  then obtain s' where "Unwind_RaiseException routines (small_routines False) small_start = Inr (s', Returned URC_END_OF_STACK)"
    "un_client s' = noted (\<lambda>_. 0x900) logs 1 [0x5000, 0x5100] (un_client small_start)"
    using uncaught_exception_runs_no_cleanup [OF routines_on_stack small_start_facts(1,3,4,5)] by blast
  then show ?thesis by (auto simp: noted_def logs_def small_start_facts)
qed

theorem forced_unwind_visits_all_witness:
  "\<exists>s'. Unwind_ForcedUnwind routines (small_routines False) 0x910 0 small_start = Inr (s', Returned URC_FATAL_PHASE2_ERROR)
    \<and> take 4 (un_client s') = [(0x5000, 0), (0x5000, 10), (0x5100, 0), (0x5100, 10)]"
proof -
  let ?pr = "small_routines False"
  have stop: "stop_passes ?pr 0x910 1 0 (\<lambda>ip. logs ip 0)"
    and fin: "keeps_end ?pr 0x910 1 0"
    and ans: "\<forall>a \<in> set [0x5000, 0x5100]. answers ?pr (\<lambda>_. 0x900) 1 logs UA_FORCED URC_CONTINUE_UNWIND a"
    by (auto simp: stop_passes_def keeps_end_def small_routines_def answers_def)
  obtain s' where s': "Unwind_ForcedUnwind routines ?pr 0x910 0 small_start
      = rbind (pr_stop ?pr 0x910 1 (UA_FORCED OR 16) 1 0 s') (\<lambda>(r, s). Inr (s, Returned URC_FATAL_PHASE2_ERROR))"
    "un_client s' = noted_forced (\<lambda>_. 0x900) logs (\<lambda>ip. logs ip 0) [0x5000, 0x5100] (un_client small_start)"
    using forced_unwind_visits_all [OF routines_on_stack small_start_facts(1,3,4,5) _ _ stop ans fin] small_start_facts(6)
    by auto
  let ?s = "s'\<lparr>un_client := logs (c_ip (un_cursor s')) 0 (un_client s')\<rparr>"
  have "pr_stop ?pr 0x910 1 (UA_FORCED OR 16) 1 0 s' = Inr (URC_NO_REASON, ?s)" by (simp add: small_routines_def)
  then show ?thesis
    using s' by (intro exI [of _ ?s]) (simp add: noted_forced_def noted_def logs_def small_start_facts)
qed

lemma backtrace_calls_all_witness:
  "\<exists>s'. Unwind_Backtrace routines (small_routines False) 0x920 0 small_start = Inr (s', URC_END_OF_STACK)
    \<and> un_client s' = [(0x5000, 0), (0x5100, 0)]"
proof -
  have "trace_notes (small_routines False) 0x920 0 (\<lambda>ip. logs ip 0)"
    by (simp add: trace_notes_def small_routines_def)
  from backtrace_calls_all [OF routines_on_stack small_start_facts(1,3,4,5) this] show ?thesis
    by (auto simp: logs_def small_start_facts)
qed

end
