(* ===== verification/Validator.thy ===== *)
theory Validator
  imports Prelude
begin

text \<open>
  Checking addresses before they are read (\<open>src/mi/Gaddress_validator.c\<close>): the probe through a pipe, the
  cache of validated pages in its variant for each thread and in the one that all threads share by
  atomic operations, and \<open>unw_address_is_valid\<close>.
\<close>

section \<open>Probing a byte\<close>

text \<open>
  The system calls on the descriptors of a pipe and the error number, over a state of the operating
  system: closing a descriptor, making a pipe (of which both ends do not block), reading a byte from
  a descriptor, and writing the byte at an address to one.
\<close>

datatype errno = EINTR | EAGAIN | Other_errno int

record 'w os =
  os_close :: "int \<Rightarrow> 'w \<Rightarrow> 'w"
  os_pipe2 :: "'w \<Rightarrow> (int \<times> int) option \<times> 'w"
  os_read :: "int \<Rightarrow> 'w \<Rightarrow> int \<times> 'w"
  os_write :: "int \<Rightarrow> unw_word \<Rightarrow> 'w \<Rightarrow> int \<times> 'w"
  os_errno :: "'w \<Rightarrow> errno"

text \<open>The descriptors of the thread and the state of the system.\<close>

type_synonym 'w probe = "(int \<times> int) \<times> 'w"

definition no_pipe :: "int \<times> int" where
  "no_pipe = (- 1, - 1)"

definition open_pipe :: "'w os \<Rightarrow> 'w probe \<Rightarrow> bool \<times> 'w probe" where
  "open_pipe os = (\<lambda>(fds, w).
     let w = (if fst fds \<noteq> - 1 then os_close os (fst fds) w else w);
         w = (if snd fds \<noteq> - 1 then os_close os (snd fds) w else w) in
     case os_pipe2 os w of
       (None, w) \<Rightarrow> (False, fds, w)
     | (Some fds, w) \<Rightarrow> (True, fds, w))"

text \<open>A call is repeated as long as the error number says that it was interrupted.\<close>

definition repeat_call :: "'w os \<Rightarrow> ('w \<Rightarrow> int \<times> 'w) \<Rightarrow> 'w \<Rightarrow> (int \<times> 'w) res" where
  "repeat_call os call w =
     returns (iterate (\<lambda>w. let (r, w) = call w in
       Inr (if os_errno os w = EINTR then Inl w else Inr (r, w))) w)"

definition write_validate :: "'w os \<Rightarrow> unw_word \<Rightarrow> 'w probe \<Rightarrow> (bool \<times> 'w probe) res" where
  "write_validate os addr = (\<lambda>(fds, w).
     let (opened, fds, w) = (if fst fds = - 1 then open_pipe os (fds, w) else (True, fds, w)) in
     if \<not> opened then Inr (False, fds, w)
     else
       rbind (repeat_call os (os_read os (fst fds)) w) (\<lambda>(bytes, w).
       let (opened, fds, w) =
         (if bytes > 0 \<or> os_errno os w = EAGAIN then (True, fds, w) else open_pipe os (fds, w)) in
       if \<not> opened then Inr (False, fds, w)
       else rbind (repeat_call os (os_write os (snd fds) addr) w) (\<lambda>(ret, w). Inr (ret > 0, fds, w))))"

section \<open>The cache of validated pages\<close>

abbreviation (input) NLGA :: nat where "NLGA \<equiv> 4"

record validator =
  last_good_addr :: "unw_word list"
  lga_victim :: nat

definition zero_validator :: validator where
  "zero_validator = \<lparr>last_good_addr = replicate NLGA 0, lga_victim = 0\<rparr>"

definition is_cached_valid_mem :: "validator \<Rightarrow> unw_word \<Rightarrow> bool" where
  "is_cached_valid_mem v page_addr \<longleftrightarrow> list_ex (\<lambda>i. page_addr = last_good_addr v ! i) [0..<NLGA]"

text \<open>The variant for each thread: the first empty slot from the victim on, or the victim itself.\<close>

fun fill_slot :: "unw_word \<Rightarrow> unw_word list \<Rightarrow> nat \<Rightarrow> nat \<Rightarrow> (unw_word list option \<times> nat) res" where
  "fill_slot page_addr slots victim 0 = Inr (None, victim)"
| "fill_slot page_addr slots victim (Suc n) =
     rbind (arr_get slots victim) (\<lambda>a.
     if a = 0 then Inr (Some (slots[victim := page_addr]), victim)
     else fill_slot page_addr slots ((victim + 1) mod NLGA) n)"

definition cache_valid_mem_thread :: "validator \<Rightarrow> unw_word \<Rightarrow> validator res" where
  "cache_valid_mem_thread v page_addr =
     rbind (fill_slot page_addr (last_good_addr v) (lga_victim v) NLGA) (\<lambda>(filled, victim).
     case filled of
       Some slots \<Rightarrow> Inr (v\<lparr>last_good_addr := slots\<rparr>)
     | None \<Rightarrow>
         rbind (arr_set (last_good_addr v) victim page_addr) (\<lambda>slots.
         Inr \<lparr>last_good_addr = slots, lga_victim = (victim + 1) mod NLGA\<rparr>))"

text \<open>
  The variant that threads share, as a sequence of atomic operations: the load of the victim, up to
  four exchanges, and the stores. An exchange that fails puts the value it has found into \<open>zero\<close>,
  which the next one compares with.
\<close>

datatype cache_pc = Load | Exchange nat nat unw_word | Store nat | Advance nat | Finished

definition cache_step :: "unw_word \<Rightarrow> validator \<Rightarrow> cache_pc \<Rightarrow> (validator \<times> cache_pc) res" where
  "cache_step page_addr v pc =
     (case pc of
        Load \<Rightarrow> Inr (v, Exchange 0 (lga_victim v) 0)
      | Exchange i victim zero \<Rightarrow>
          if i < NLGA
          then rbind (arr_get (last_good_addr v) victim) (\<lambda>a.
               if a = zero then Inr (v\<lparr>last_good_addr := (last_good_addr v)[victim := page_addr]\<rparr>, Finished)
               else Inr (v, Exchange (i + 1) ((victim + 1) mod NLGA) a))
          else Inr (v, Store victim)
      | Store victim \<Rightarrow>
          rbind (arr_set (last_good_addr v) victim page_addr) (\<lambda>slots.
          Inr (v\<lparr>last_good_addr := slots\<rparr>, Advance ((victim + 1) mod NLGA)))
      | Advance victim \<Rightarrow> Inr (v\<lparr>lga_victim := victim\<rparr>, Finished)
      | Finished \<Rightarrow> Inr (v, Finished))"

text \<open>One thread running alone.\<close>

definition cache_valid_mem :: "validator \<Rightarrow> unw_word \<Rightarrow> validator res" where
  "cache_valid_mem v page_addr =
     returns (iterate (\<lambda>(v, pc). if pc = Finished then Inr (Inr v)
       else rbind (cache_step page_addr v pc) (\<lambda>x. Inr (Inl x))) (v, Load))"

section \<open>Validating a range\<close>

definition unw_page_start :: "unw_word \<Rightarrow> unw_word \<Rightarrow> unw_word" where
  "unw_page_start page_size addr = addr AND NOT (page_size - 1)"

text \<open>
  One round of the loop over the pages. How a page is put into the cache is chosen when the library
  is built.
\<close>

type_synonym 'w walk = "unw_word \<times> 'w probe \<times> validator"

definition check_page ::
  "(validator \<Rightarrow> unw_word \<Rightarrow> validator res) \<Rightarrow> 'w os \<Rightarrow> unw_word \<Rightarrow> unw_word \<Rightarrow> unw_word \<Rightarrow> unw_word
    \<Rightarrow> 'w walk \<Rightarrow> ('w walk + bool \<times> 'w probe \<times> validator) res" where
  "check_page remember os page_size addr start_page_addr end_page_addr = (\<lambda>(page_addr, w, v).
     if \<not> page_addr < end_page_addr then Inr (Inr (True, w, v))
     else if is_cached_valid_mem v page_addr then Inr (Inl (page_addr + page_size, w, v))
     else
       rbind (write_validate os (if page_addr = start_page_addr then addr else page_addr) w) (\<lambda>(valid, w).
       if \<not> valid then Inr (Inr (False, w, v))
       else rbind (remember v page_addr) (\<lambda>v. Inr (Inl (page_addr + page_size, w, v)))))"

definition unw_address_is_valid ::
  "(validator \<Rightarrow> unw_word \<Rightarrow> validator res) \<Rightarrow> 'w os \<Rightarrow> unw_word \<Rightarrow> unw_word \<Rightarrow> unw_word \<Rightarrow> 'w probe
    \<Rightarrow> validator \<Rightarrow> (bool \<times> 'w probe \<times> validator) res" where
  "unw_address_is_valid remember os page_size addr len w v =
     (if len = 0 then Inr (True, w, v)
      else
        let start_page_addr = unw_page_start page_size addr in
        if start_page_addr = 0 then Inr (False, w, v)
        else if addr > - 1 - len - page_size then Inr (False, w, v)
        else
          let end_page_addr = unw_page_start page_size (addr + (len - 1)) + page_size in
          returns (iterate (check_page remember os page_size addr start_page_addr end_page_addr)
            (start_page_addr, w, v)))"

section \<open>Threads that share the cache\<close>

text \<open>
  What a thread is doing with the shared cache: the slot its lookup has come to, what the lookup has
  found, or how far it has come in putting a page into the cache. Between two atomic operations of
  a thread any other may run.
\<close>

datatype thread = Idle | Looking unw_word nat | Found unw_word | Missed unw_word | Caching unw_word cache_pc

text \<open>The loop of the lookup, one atomic load at a time.\<close>

definition lookup_step :: "unw_word \<Rightarrow> validator \<Rightarrow> nat \<Rightarrow> thread res" where
  "lookup_step page_addr v i =
     (if i < NLGA
      then rbind (arr_get (last_good_addr v) i) (\<lambda>a.
           Inr (if page_addr = a then Found page_addr else Looking page_addr (i + 1)))
      else Inr (Missed page_addr))"

text \<open>
  A thread looks a page up, and when it misses and the probe tells it that the page can be read, it
  puts the page into the cache.
\<close>

inductive share_step ::
  "(unw_word \<Rightarrow> bool) \<Rightarrow> validator \<times> (nat \<Rightarrow> thread) \<Rightarrow> validator \<times> (nat \<Rightarrow> thread) \<Rightarrow> bool"
  for readable where
  call: "ts k = Idle \<Longrightarrow> page \<noteq> 0 \<Longrightarrow> share_step readable (v, ts) (v, ts(k := Looking page 0))"
| look: "ts k = Looking page i \<Longrightarrow> lookup_step page v i = Inr t \<Longrightarrow> share_step readable (v, ts) (v, ts(k := t))"
| found: "ts k = Found page \<Longrightarrow> share_step readable (v, ts) (v, ts(k := Idle))"
| rejected: "ts k = Missed page \<Longrightarrow> \<not> readable page \<Longrightarrow> share_step readable (v, ts) (v, ts(k := Idle))"
| probed: "ts k = Missed page \<Longrightarrow> readable page \<Longrightarrow> share_step readable (v, ts) (v, ts(k := Caching page Load))"
| atomic: "ts k = Caching page pc \<Longrightarrow> pc \<noteq> Finished \<Longrightarrow> cache_step page v pc = Inr (v', pc')
    \<Longrightarrow> share_step readable (v, ts) (v', ts(k := Caching page pc'))"
| cached: "ts k = Caching page Finished \<Longrightarrow> share_step readable (v, ts) (v, ts(k := Idle))"

inductive shared :: "(unw_word \<Rightarrow> bool) \<Rightarrow> validator \<times> (nat \<Rightarrow> thread) \<Rightarrow> bool" for readable where
  start: "shared readable (zero_validator, \<lambda>_. Idle)"
| step: "shared readable s \<Longrightarrow> share_step readable s s' \<Longrightarrow> shared readable s'"

end
