(* ===== verification/ValidatorLemmas.thy ===== *)
theory ValidatorLemmas
  imports Validator
begin

text \<open>
  The cache of validated pages keeps to readable pages in both of its variants, the pages of a range
  in arithmetic, and what the probe tells when the pipe works.
\<close>

section \<open>Pages\<close>

lemma word_unat_less_2p: "unat (a :: unw_word) < 2 ^ 64"
  using unsigned_less [of a, where ?'a = nat] by simp

lemma unat_page_start:
  assumes "k < 64" shows "unat (unw_page_start (2 ^ k) a) = unat a div 2 ^ k * 2 ^ k"
proof -
  have m: "(2::unw_word) ^ k - 1 = mask k" by (simp add: mask_eq_decr_exp)
  have bits: "a AND NOT (mask k) = push_bit k (drop_bit k a)"
    by (rule bit_word_eqI) (auto simp: bit_simps)
  have low: "unat a div 2 ^ k * 2 ^ k < 2 ^ 64"
    using word_unat_less_2p [of a] div_times_less_eq_dividend [of "unat a" "2 ^ k"] by linarith
  have "unat (push_bit k (drop_bit k a)) = unat a div 2 ^ k * 2 ^ k"
    unfolding unsigned_push_bit_eq unsigned_drop_bit_eq using low
    by (simp add: push_bit_eq_mult drop_bit_eq_div take_bit_nat_eq_self word_unat_less_2p [simplified])
  then show ?thesis unfolding unw_page_start_def m bits .
qed

text \<open>Readability is a matter of pages.\<close>

definition by_pages :: "unw_word \<Rightarrow> (unw_word \<Rightarrow> bool) \<Rightarrow> bool" where
  "by_pages page_size readable \<longleftrightarrow>
     (\<forall>a b. unw_page_start page_size a = unw_page_start page_size b \<longrightarrow> readable a = readable b)"

lemma by_pagesD:
  assumes "by_pages (2 ^ k) readable" "k < 64" "x < 2 ^ 64" "y < 2 ^ 64" "x div 2 ^ k = y div 2 ^ k"
  shows "readable (word_of_nat x) = readable (word_of_nat y)"
proof -
  have "unw_page_start (2 ^ k) (word_of_nat x) = unw_page_start (2 ^ k) (word_of_nat y)"
    using assms(2-5) by (intro word_unat_eq_iff [THEN iffD2]) (simp add: unat_page_start unat_of_nat)
  then show ?thesis using assms(1) unfolding by_pages_def by blast
qed

lemma pages_cover:
  fixes P :: nat
  assumes "0 < L" and const: "\<And>x y. x < A + L \<Longrightarrow> y < A + L \<Longrightarrow> x div P = y div P \<Longrightarrow> R x = R y" and "0 < P"
  shows "(\<forall>i < Suc ((A + L - 1) div P - A div P). R (A div P * P + i * P)) \<longleftrightarrow> (\<forall>i < L. R (A + i))"
    (is "?pages \<longleftrightarrow> ?bytes")
proof
  assume p: ?pages
  show ?bytes
  proof (intro allI impI)
    fix i assume i: "i < L"
    define j where "j = (A + i) div P - A div P"
    have le: "A div P \<le> (A + i) div P" "(A + i) div P \<le> (A + L - 1) div P"
      using i by (simp_all add: div_le_mono)
    have page: "A div P * P + j * P = (A + i) div P * P"
      using le(1) by (simp add: j_def flip: add_mult_distrib)
    have "R ((A + i) div P * P)" using p le page unfolding j_def by (metis diff_le_mono le_imp_less_Suc)
    moreover have "(A + i) div P * P < A + L"
      using i div_times_less_eq_dividend [of "A + i" P] by linarith
    ultimately show "R (A + i)" using const [of "(A + i) div P * P" "A + i"] i \<open>0 < P\<close> by simp
  qed
next
  assume b: ?bytes
  show ?pages
  proof (intro allI impI)
    fix j assume j: "j < Suc ((A + L - 1) div P - A div P)"
    show "R (A div P * P + j * P)"
    proof (cases "j = 0")
      case True
      have "A div P * P < A + L" using \<open>0 < L\<close> div_times_less_eq_dividend [of A P] by linarith
      then show ?thesis using const [of "A div P * P" A] b [rule_format, of 0] True \<open>0 < L\<close> \<open>0 < P\<close> by simp
    next
      case False
      let ?x = "(A div P + j) * P"
      have "Suc (A div P) * P \<le> ?x" using False by (intro mult_le_mono1) simp
      then have lo: "A \<le> ?x" using dividend_less_div_times [OF \<open>0 < P\<close>, of A] by simp
      have "A div P \<le> (A + L - 1) div P" using \<open>0 < L\<close> by (intro div_le_mono) simp
      then have "A div P + j \<le> (A + L - 1) div P" using j by simp
      then have "?x \<le> A + L - 1" by (metis div_times_less_eq_dividend le_trans mult_le_mono1)
      then have "?x - A < L" using lo \<open>0 < L\<close> by linarith
      then have "R (A + (?x - A))" using b by blast
      then show ?thesis using lo by (simp add: add_mult_distrib)
    qed
  qed
qed

section \<open>The cache\<close>

definition validator_ok :: "validator \<Rightarrow> bool" where
  "validator_ok v \<longleftrightarrow> length (last_good_addr v) = NLGA \<and> lga_victim v < NLGA"

definition good_pages :: "(unw_word \<Rightarrow> bool) \<Rightarrow> validator \<Rightarrow> bool" where
  "good_pages readable v \<longleftrightarrow> (\<forall>page \<in> set (last_good_addr v). page \<noteq> 0 \<longrightarrow> readable page)"

lemma good_pages_insert:
  "good_pages readable v \<Longrightarrow> readable page \<Longrightarrow> set (last_good_addr v') \<subseteq> insert page (set (last_good_addr v))
    \<Longrightarrow> good_pages readable v'"
  by (auto simp: good_pages_def)

lemma zero_validator_ok [simp]: "validator_ok zero_validator" "good_pages readable zero_validator"
  by (simp_all add: zero_validator_def validator_ok_def good_pages_def)

lemma is_cached_iff:
  "validator_ok v \<Longrightarrow> is_cached_valid_mem v page \<longleftrightarrow> page \<in> set (last_good_addr v)"
  by (auto simp: is_cached_valid_mem_def validator_ok_def list_ex_iff in_set_conv_nth)

text \<open>What each way of putting a page into the cache promises.\<close>

locale page_cache =
  fixes remember :: "validator \<Rightarrow> unw_word \<Rightarrow> validator res"
  assumes remember: "validator_ok v \<Longrightarrow> \<exists>v'. remember v page = Inr v' \<and> validator_ok v'
    \<and> page \<in> set (last_good_addr v') \<and> set (last_good_addr v') \<subseteq> insert page (set (last_good_addr v))"
begin

lemma remember_good:
  assumes "validator_ok v" "good_pages readable v" "readable page"
  obtains v' where "remember v page = Inr v'" "validator_ok v'" "good_pages readable v'"
    "is_cached_valid_mem v' page"
  using remember [OF assms(1), of page] good_pages_insert [OF assms(2,3)] is_cached_iff by blast

end

text \<open>The steps of the shared variant.\<close>

definition pc_ok :: "cache_pc \<Rightarrow> bool" where
  "pc_ok pc = (case pc of Exchange i victim zero \<Rightarrow> victim < NLGA | Store victim \<Rightarrow> victim < NLGA
     | Advance victim \<Rightarrow> victim < NLGA | _ \<Rightarrow> True)"

fun pc_left :: "cache_pc \<Rightarrow> nat" where
  "pc_left Load = 8"
| "pc_left (Exchange i victim zero) = 3 + (NLGA - i)"
| "pc_left (Store victim) = 2"
| "pc_left (Advance victim) = 1"
| "pc_left Finished = 0"

fun pc_stored :: "cache_pc \<Rightarrow> bool" where
  "pc_stored (Advance victim) = True"
| "pc_stored Finished = True"
| "pc_stored pc = False"

lemma cache_step_keeps:
  assumes "validator_ok v" "pc_ok pc"
  obtains v' pc' where "cache_step page v pc = Inr (v', pc')" "validator_ok v'" "pc_ok pc'"
    "set (last_good_addr v') \<subseteq> insert page (set (last_good_addr v))"
    "pc \<noteq> Finished \<Longrightarrow> pc_left pc' < pc_left pc"
    "pc_stored pc' \<Longrightarrow> pc_stored pc \<Longrightarrow> set (last_good_addr v') = set (last_good_addr v)"
    "pc_stored pc' \<Longrightarrow> \<not> pc_stored pc \<Longrightarrow> page \<in> set (last_good_addr v')"
proof -
  have "\<exists>v' pc'. cache_step page v pc = Inr (v', pc') \<and> validator_ok v' \<and> pc_ok pc'
      \<and> set (last_good_addr v') \<subseteq> insert page (set (last_good_addr v))
      \<and> (pc \<noteq> Finished \<longrightarrow> pc_left pc' < pc_left pc)
      \<and> (pc_stored pc' \<longrightarrow> (if pc_stored pc then set (last_good_addr v') = set (last_good_addr v)
           else page \<in> set (last_good_addr v')))"
    using assms
    by (cases pc) (auto simp: cache_step_def validator_ok_def pc_ok_def set_update_subset_insert set_update_memI)
  then show ?thesis using that by auto
qed

lemma shared_cache_alone:
  assumes "validator_ok v" "pc_ok pc" "pc_stored pc \<longrightarrow> page \<in> set (last_good_addr v)"
  shows "\<exists>v'. iterate (\<lambda>(v, pc). if pc = Finished then Inr (Inr v)
      else rbind (cache_step page v pc) (\<lambda>x. Inr (Inl x))) (v, pc) = Some (Inr v') \<and> validator_ok v'
    \<and> page \<in> set (last_good_addr v') \<and> set (last_good_addr v') \<subseteq> insert page (set (last_good_addr v))"
  using assms
proof (induction "pc_left pc" arbitrary: v pc rule: less_induct)
  case less
  show ?case
  proof (cases "pc = Finished")
    case True
    then show ?thesis using less.prems by (auto simp: iterate_end)
  next
    case False
    obtain v' pc' where s: "cache_step page v pc = Inr (v', pc')" "validator_ok v'" "pc_ok pc'"
        "set (last_good_addr v') \<subseteq> insert page (set (last_good_addr v))" "pc_left pc' < pc_left pc"
        "pc_stored pc' \<longrightarrow> page \<in> set (last_good_addr v')"
      using cache_step_keeps [OF less.prems(1,2), of page] False less.prems(3) by metis
    from less.hyps [OF s(5,2,3,6)] s(1,4) False show ?thesis by (subst iterate_next) auto
  qed
qed

interpretation shared_cache: page_cache cache_valid_mem
proof unfold_locales
  fix v page assume "validator_ok v"
  from shared_cache_alone [OF this, of Load page]
  show "\<exists>v'. cache_valid_mem v page = Inr v' \<and> validator_ok v'
    \<and> page \<in> set (last_good_addr v') \<and> set (last_good_addr v') \<subseteq> insert page (set (last_good_addr v))"
    by (auto simp: cache_valid_mem_def pc_ok_def)
qed

lemma fill_slot_keeps:
  assumes "length slots = NLGA" "victim < NLGA"
  shows "\<exists>filled victim'. fill_slot page slots victim n = Inr (filled, victim') \<and> victim' < NLGA
    \<and> (\<forall>slots'. filled = Some slots' \<longrightarrow> length slots' = NLGA \<and> page \<in> set slots' \<and> set slots' \<subseteq> insert page (set slots))"
  using assms(2)
proof (induction n arbitrary: victim)
  case (Suc n)
  from Suc.IH [of "(victim + 1) mod NLGA"] Suc.prems assms(1) show ?case
    by (auto simp: set_update_subset_insert set_update_memI)
qed simp

interpretation thread_cache: page_cache cache_valid_mem_thread
proof unfold_locales
  fix v page assume v: "validator_ok v"
  obtain filled victim where f: "fill_slot page (last_good_addr v) (lga_victim v) NLGA = Inr (filled, victim)" "victim < NLGA"
      "\<And>slots'. filled = Some slots' \<Longrightarrow> length slots' = NLGA \<and> page \<in> set slots' \<and> set slots' \<subseteq> insert page (set (last_good_addr v))"
    using fill_slot_keeps [of "last_good_addr v" "lga_victim v" page NLGA] v by (auto simp: validator_ok_def)
  show "\<exists>v'. cache_valid_mem_thread v page = Inr v' \<and> validator_ok v'
    \<and> page \<in> set (last_good_addr v') \<and> set (last_good_addr v') \<subseteq> insert page (set (last_good_addr v))"
    using f v by (cases filled)
      (auto simp: cache_valid_mem_thread_def validator_ok_def set_update_subset_insert set_update_memI)
qed

section \<open>The probe\<close>

text \<open>
  What the code relies on of a pipe whose ends do not block: making one succeeds, a read is
  interrupted at most finitely often and otherwise leaves a pipe of at most one byte empty, and a
  write of one byte to an empty one is not interrupted and succeeds exactly if the byte can be read.
\<close>

record 'w pipe_state =
  pipe_at :: "int \<times> int \<Rightarrow> 'w \<Rightarrow> bool"
  empty_at :: "int \<times> int \<Rightarrow> 'w \<Rightarrow> bool"
  pending :: "'w \<Rightarrow> nat"

definition pipe_works :: "'w os \<Rightarrow> 'w pipe_state \<Rightarrow> (unw_word \<Rightarrow> bool) \<Rightarrow> bool" where
  "pipe_works os p readable \<longleftrightarrow>
     (\<forall>w. \<exists>fds w'. os_pipe2 os w = (Some fds, w') \<and> fst fds \<noteq> - 1 \<and> empty_at p fds w'
        \<and> (os_errno os w \<noteq> EINTR \<longrightarrow> os_errno os w' \<noteq> EINTR)) \<and>
     (\<forall>fd w. os_errno os w \<noteq> EINTR \<longrightarrow> os_errno os (os_close os fd w) \<noteq> EINTR) \<and>
     (\<forall>fds w. empty_at p fds w \<longrightarrow> pipe_at p fds w) \<and>
     (\<forall>fds w. pipe_at p fds w \<longrightarrow> (let (r, w') = os_read os (fst fds) w in
        if os_errno os w' = EINTR then pipe_at p fds w' \<and> pending p w' < pending p w else empty_at p fds w')) \<and>
     (\<forall>fds w a. empty_at p fds w \<longrightarrow> os_errno os w \<noteq> EINTR \<longrightarrow> (let (r, w') = os_write os (snd fds) a w in
        pipe_at p fds w' \<and> os_errno os w' \<noteq> EINTR \<and> (0 < r \<longleftrightarrow> readable a)))"

definition probe_ok :: "'w pipe_state \<Rightarrow> 'w probe \<Rightarrow> bool" where
  "probe_ok p s \<longleftrightarrow> fst (fst s) = - 1 \<or> pipe_at p (fst s) (snd s)"

lemma pipe_worksD:
  assumes "pipe_works os p readable"
  shows "\<exists>fds w'. os_pipe2 os w = (Some fds, w') \<and> fst fds \<noteq> - 1 \<and> empty_at p fds w'
      \<and> (os_errno os w \<noteq> EINTR \<longrightarrow> os_errno os w' \<noteq> EINTR)"
    and "os_errno os w \<noteq> EINTR \<Longrightarrow> os_errno os (os_close os fd w) \<noteq> EINTR"
    and "empty_at p fds w \<Longrightarrow> pipe_at p fds w"
    and "pipe_at p fds w \<Longrightarrow> os_read os (fst fds) w = (r, w')
      \<Longrightarrow> if os_errno os w' = EINTR then pipe_at p fds w' \<and> pending p w' < pending p w else empty_at p fds w'"
    and "empty_at p fds w \<Longrightarrow> os_errno os w \<noteq> EINTR \<Longrightarrow> os_write os (snd fds) a w = (r, w')
      \<Longrightarrow> pipe_at p fds w' \<and> os_errno os w' \<noteq> EINTR \<and> (0 < r \<longleftrightarrow> readable a)"
proof -
  note laws = assms [unfolded pipe_works_def]
  show "\<exists>fds w'. os_pipe2 os w = (Some fds, w') \<and> fst fds \<noteq> - 1 \<and> empty_at p fds w'
      \<and> (os_errno os w \<noteq> EINTR \<longrightarrow> os_errno os w' \<noteq> EINTR)"
    using laws [THEN conjunct1] by (rule spec)
  show "os_errno os (os_close os fd w) \<noteq> EINTR" if "os_errno os w \<noteq> EINTR"
    using laws [THEN conjunct2, THEN conjunct1] that by simp
  show "pipe_at p fds w" if "empty_at p fds w"
    using laws [THEN conjunct2, THEN conjunct2, THEN conjunct1, rule_format, OF that] .
  show "if os_errno os w' = EINTR then pipe_at p fds w' \<and> pending p w' < pending p w else empty_at p fds w'"
    if "pipe_at p fds w" "os_read os (fst fds) w = (r, w')"
    using laws [THEN conjunct2, THEN conjunct2, THEN conjunct2, THEN conjunct1, rule_format, OF that(1)] that(2)
    by simp
  show "pipe_at p fds w' \<and> os_errno os w' \<noteq> EINTR \<and> (0 < r \<longleftrightarrow> readable a)"
    if "empty_at p fds w" "os_errno os w \<noteq> EINTR" "os_write os (snd fds) a w = (r, w')"
    using laws [THEN conjunct2, THEN conjunct2, THEN conjunct2, THEN conjunct2, rule_format, OF that(1,2), of a] that(3)
    by simp
qed

lemma open_pipe_works:
  assumes works: "pipe_works os p readable"
  shows "\<exists>fds' w'. open_pipe os (fds, w) = (True, fds', w') \<and> empty_at p fds' w'
    \<and> (os_errno os w \<noteq> EINTR \<longrightarrow> os_errno os w' \<noteq> EINTR)"
proof -
  define close where "close fd w = (if fd \<noteq> - 1 then os_close os fd w else w)" for fd w
  have close: "os_errno os (close fd w) \<noteq> EINTR" if "os_errno os w \<noteq> EINTR" for fd w
    using pipe_worksD(2) [OF works that] that by (simp add: close_def)
  obtain fds' w' where new: "os_pipe2 os (close (snd fds) (close (fst fds) w)) = (Some fds', w')" "empty_at p fds' w'"
      "os_errno os (close (snd fds) (close (fst fds) w)) \<noteq> EINTR \<longrightarrow> os_errno os w' \<noteq> EINTR"
    using pipe_worksD(1) [OF works, of "close (snd fds) (close (fst fds) w)"] by auto
  have "open_pipe os (fds, w) = (True, fds', w')"
    using new(1) by (simp add: open_pipe_def close_def Let_def)
  then show ?thesis using new(2,3) close by auto
qed

lemma repeat_read:
  assumes works: "pipe_works os p readable" and "pipe_at p fds w"
  shows "\<exists>r w'. repeat_call os (os_read os (fst fds)) w = Inr (r, w') \<and> empty_at p fds w' \<and> os_errno os w' \<noteq> EINTR"
  using assms(2)
proof (induction "pending p w" arbitrary: w rule: less_induct)
  case less
  obtain r w' where rd: "os_read os (fst fds) w = (r, w')" by (cases "os_read os (fst fds) w")
  note step = pipe_worksD(4) [OF works less.prems rd]
  show ?case
  proof (cases "os_errno os w' = EINTR")
    case True
    then have "repeat_call os (os_read os (fst fds)) w = repeat_call os (os_read os (fst fds)) w'"
      using rd by (simp add: repeat_call_def iterate_next)
    then show ?thesis using less.hyps [of w'] step True by simp
  next
    case False
    then show ?thesis using rd step by (simp add: repeat_call_def iterate_end)
  qed
qed

lemma repeat_write:
  assumes works: "pipe_works os p readable" and at: "empty_at p fds w" "os_errno os w \<noteq> EINTR"
  shows "\<exists>r w'. repeat_call os (os_write os (snd fds) a) w = Inr (r, w') \<and> pipe_at p fds w' \<and> (0 < r \<longleftrightarrow> readable a)"
proof -
  obtain r w' where wr: "os_write os (snd fds) a w = (r, w')" by (cases "os_write os (snd fds) a w")
  then show ?thesis using pipe_worksD(5) [OF works at wr] by (simp add: repeat_call_def iterate_end)
qed

lemma write_validate_works:
  assumes works: "pipe_works os p readable" and "probe_ok p s"
  shows "\<exists>s'. write_validate os a s = Inr (readable a, s') \<and> probe_ok p s'"
proof -
  obtain fds w where s: "s = (fds, w)" by (cases s)
  obtain fds1 w1 where o1: "(if fst fds = - 1 then open_pipe os (fds, w) else (True, fds, w)) = (True, fds1, w1)"
      "pipe_at p fds1 w1"
    using open_pipe_works [OF works, of fds w] pipe_worksD(3) [OF works] assms(2)
    by (cases "fst fds = - 1") (auto simp: s probe_ok_def)
  obtain r w2 where rd: "repeat_call os (os_read os (fst fds1)) w1 = Inr (r, w2)" "empty_at p fds1 w2" "os_errno os w2 \<noteq> EINTR"
    using repeat_read [OF works o1(2)] by auto
  obtain fds3 w3 where o2: "(if r > 0 \<or> os_errno os w2 = EAGAIN then (True, fds1, w2) else open_pipe os (fds1, w2))
      = (True, fds3, w3)" "empty_at p fds3 w3" "os_errno os w3 \<noteq> EINTR"
    using open_pipe_works [OF works, of fds1 w2] rd(2,3) by (cases "r > 0 \<or> os_errno os w2 = EAGAIN") auto
  obtain r' w4 where wr: "repeat_call os (os_write os (snd fds3) a) w3 = Inr (r', w4)" "pipe_at p fds3 w4" "0 < r' \<longleftrightarrow> readable a"
    using repeat_write [OF works o2(2,3), of a] by auto
  have "write_validate os a s = Inr (readable a, fds3, w4)"
    using wr(1,3) by (simp add: write_validate_def s o1(1) rd(1) o2(1))
  then show ?thesis using wr(2) by (simp add: probe_ok_def)
qed

section \<open>The walk over the pages\<close>

text \<open>
  The walk from a page on, \<open>n\<close> pages short of the end, tells whether all of them can be read, with
  any cache that keeps its promises.
\<close>

context page_cache
begin

lemma walk_pages:
  fixes page :: unw_word
  assumes works: "pipe_works os p readable" and size: "k < 64"
    and start: "start \<noteq> 0" "readable addr = readable start"
    and "start \<le> page" "unat stop = unat page + n * 2 ^ k"
    and "probe_ok p s" "validator_ok v" "good_pages readable v"
  shows "\<exists>s' v'. iterate (check_page remember os (2 ^ k) addr start stop) (page, s, v)
      = Some (Inr (\<forall>i<n. readable (page + word_of_nat (i * 2 ^ k)), s', v'))
    \<and> probe_ok p s' \<and> validator_ok v' \<and> good_pages readable v'"
  using assms(5-)
proof (induction n arbitrary: page s v)
  case 0
  then have "\<not> page < stop" by (simp add: word_less_nat_alt)
  then show ?case using 0 by (simp add: iterate_end check_page_def)
next
  case (Suc n)
  let ?body = "check_page remember os (2 ^ k) addr start stop"
  have lt: "page < stop" using Suc.prems(2) by (simp add: word_less_nat_alt)
  have k64: "(2::nat) ^ k < 2 ^ 64" using size by (intro power_strict_increasing) auto
  have two_to_unat: "unat ((2::unw_word) ^ k) = 2 ^ k"
    using unat_of_nat [of "2 ^ k", where ?'a = 64] k64 by simp
  have stop64: "unat stop < 2 ^ 64" using unsigned_less [of stop, where ?'a = nat] by simp
  have step: "unat (page + 2 ^ k) = unat page + 2 ^ k"
    using Suc.prems(2) stop64 k64 by (simp add: unat_word_ariths two_to_unat)
  have next_page: "start \<le> page + 2 ^ k" "unat stop = unat (page + 2 ^ k) + n * 2 ^ k"
    using Suc.prems(1,2) step by (auto simp: word_le_nat_alt)
  have nz: "page \<noteq> 0" using Suc.prems(1) start(1) by auto
  have rest: "(\<forall>i<Suc n. readable (page + word_of_nat (i * 2 ^ k)))
      \<longleftrightarrow> readable page \<and> (\<forall>i<n. readable (page + 2 ^ k + word_of_nat (i * 2 ^ k)))"
    by (simp add: All_less_Suc2 algebra_simps)
  have probe: "readable (if page = start then addr else page) = readable page" using start(2) by simp
  show ?case
  proof (cases "is_cached_valid_mem v page")
    case True
    then have "readable page" using Suc.prems nz by (auto simp: is_cached_iff good_pages_def)
    moreover have "?body (page, s, v) = Inr (Inl (page + 2 ^ k, s, v))"
      using lt True by (simp add: check_page_def)
    ultimately show ?thesis
      using Suc.IH [OF next_page Suc.prems(3-5)] unfolding rest by (simp add: iterate_next)
  next
    case False
    obtain s' where wv: "write_validate os (if page = start then addr else page) s = Inr (readable page, s')" "probe_ok p s'"
      using write_validate_works [OF works Suc.prems(3), of "if page = start then addr else page"]
      unfolding probe by (elim exE conjE)
    show ?thesis
    proof (cases "readable page")
      case rp: True
      obtain v' where v': "remember v page = Inr v'" "validator_ok v'" "good_pages readable v'"
        by (rule remember_good [OF Suc.prems(4,5) rp])
      have "?body (page, s, v) = Inr (Inl (page + 2 ^ k, s', v'))"
        using lt False wv(1) rp v'(1) by (simp add: check_page_def)
      then show ?thesis
        using Suc.IH [OF next_page wv(2) v'(2,3)] rp unfolding rest by (simp add: iterate_next)
    next
      case rp: False
      have "?body (page, s, v) = Inr (Inr (False, s', v))"
        using lt False wv(1) rp by (simp add: check_page_def)
      then show ?thesis using wv(2) Suc.prems(4,5) rp unfolding rest by (simp add: iterate_end)
    qed
  qed
qed

lemma range_pages:
  assumes "by_pages (2 ^ k) readable" "k < 64" "0 < unat len" "unat addr + unat len < 2 ^ 64"
  shows "(\<forall>i < Suc ((unat addr + unat len - 1) div 2 ^ k - unat addr div 2 ^ k).
        readable (unw_page_start (2 ^ k) addr + word_of_nat (i * 2 ^ k)))
    \<longleftrightarrow> (\<forall>i < unat len. readable (addr + word_of_nat i))" (is "?pages \<longleftrightarrow> _")
proof -
  have start: "unw_page_start (2 ^ k) addr = word_of_nat (unat addr div 2 ^ k * 2 ^ k)"
    by (simp flip: unat_page_start [OF assms(2)])
  have "?pages \<longleftrightarrow> (\<forall>i < Suc ((unat addr + unat len - 1) div 2 ^ k - unat addr div 2 ^ k).
        readable (word_of_nat (unat addr div 2 ^ k * 2 ^ k + i * 2 ^ k)))"
    unfolding start of_nat_add ..
  also have "\<dots> \<longleftrightarrow> (\<forall>i < unat len. readable (word_of_nat (unat addr + i)))"
  proof (rule pages_cover [OF assms(3), where R = "\<lambda>x. readable (word_of_nat x)"])
    show "readable (word_of_nat x) = readable (word_of_nat y)"
      if "x < unat addr + unat len" "y < unat addr + unat len" "x div 2 ^ k = y div 2 ^ k" for x y
      using that assms(4) by (intro by_pagesD [OF assms(1,2)]) auto
  qed simp
  finally show ?thesis by simp
qed

lemma address_valid:
  assumes works: "pipe_works os p readable" and size: "k < 64" and pages: "by_pages (2 ^ k) readable"
    and ok: "probe_ok p s" "validator_ok v" "good_pages readable v"
    and short: "unat len + 2 ^ k < 2 ^ 64"
  shows "\<exists>s' v'. unw_address_is_valid remember os (2 ^ k) addr len s v
      = Inr (len = 0 \<or> unw_page_start (2 ^ k) addr \<noteq> 0 \<and> unat addr + unat len + 2 ^ k < 2 ^ 64
          \<and> (\<forall>i < unat len. readable (addr + word_of_nat i)), s', v')
    \<and> probe_ok p s' \<and> validator_ok v' \<and> good_pages readable v'"
proof (cases "len = 0 \<or> unw_page_start (2 ^ k) addr = 0")
  case True
  then show ?thesis using ok by (cases s) (auto simp: unw_address_is_valid_def)
next
  case False
  have two_to: "unat ((2::unw_word) ^ k) = 2 ^ k"
    using unat_of_nat [of "2 ^ k", where ?'a = 64] short by simp
  have max: "unat (- 1 :: unw_word) = 2 ^ 64 - 1" by (simp add: unsigned_minus_1_eq_mask mask_eq_exp_minus_1)
  have top: "unat (- 1 - len - 2 ^ k) = 2 ^ 64 - 1 - unat len - 2 ^ k"
    using short two_to by (simp add: unat_sub word_le_nat_alt max)
  have above: "addr > - 1 - len - 2 ^ k \<longleftrightarrow> \<not> unat addr + unat len + 2 ^ k < 2 ^ 64"
    using short unfolding word_less_nat_alt top by linarith
  show ?thesis
  proof (cases "unat addr + unat len + 2 ^ k < 2 ^ 64")
    case fits: True
    let ?start = "unw_page_start (2 ^ k) addr"
    let ?stop = "unw_page_start (2 ^ k) (addr + (len - 1)) + 2 ^ k"
    let ?n = "Suc ((unat addr + unat len - 1) div 2 ^ k - unat addr div 2 ^ k)"
    have len: "0 < unat len" using False by (simp add: unat_gt_0)
    have last_byte: "unat (addr + (len - 1)) = unat addr + unat len - 1"
    proof -
      have "unat (len - 1) = unat len - 1" using len by (intro unat_minus_one) auto
      then show ?thesis using fits len by (simp add: unat_word_ariths(1))
    qed
    have low: "(unat addr + unat len - 1) div 2 ^ k * 2 ^ k + 2 ^ k < 2 ^ 64"
      using fits div_times_less_eq_dividend [of "unat addr + unat len - 1" "2 ^ k"] by linarith
    have le: "unat addr div 2 ^ k \<le> (unat addr + unat len - 1) div 2 ^ k"
      using len by (intro div_le_mono) linarith
    have "unat ?stop = (unat addr + unat len - 1) div 2 ^ k * 2 ^ k + 2 ^ k"
      unfolding unat_word_ariths(1) [of "unw_page_start _ _"] two_to unat_page_start [OF size] last_byte
      using low by simp
    also have "\<dots> = unat ?start + ?n * 2 ^ k"
      unfolding unat_page_start [OF size] using le by (simp flip: add_mult_distrib)
    finally have stop: "unat ?stop = unat ?start + ?n * 2 ^ k" .
    have same: "readable addr = readable ?start"
      using pages unat_page_start [OF size] unfolding by_pages_def
      by (metis dvd_triv_right dvd_div_mult_self word_unat_eq_iff)
    from walk_pages [OF works size _ same order_refl stop ok] False
    obtain s' v' where w: "iterate (check_page remember os (2 ^ k) addr ?start ?stop) (?start, s, v)
        = Some (Inr (\<forall>i<?n. readable (?start + word_of_nat (i * 2 ^ k)), s', v'))"
        "probe_ok p s'" "validator_ok v'" "good_pages readable v'" by auto
    have "unat addr + unat len < 2 ^ 64" using fits by linarith
    from range_pages [OF pages size len this] w fits False above show ?thesis
      by (simp add: unw_address_is_valid_def Let_def)
  next
    case no: False
    then show ?thesis using False above ok by (simp add: unw_address_is_valid_def Let_def)
  qed
qed

end

text \<open>The two ways in which the library is built.\<close>

lemma address_valid_either:
  assumes "remember = cache_valid_mem \<or> remember = cache_valid_mem_thread"
    "pipe_works os p readable" "k < 64" "by_pages (2 ^ k) readable"
    "probe_ok p s" "validator_ok v" "good_pages readable v" "unat len + 2 ^ k < 2 ^ 64"
  shows "\<exists>s' v'. unw_address_is_valid remember os (2 ^ k) addr len s v
      = Inr (len = 0 \<or> unw_page_start (2 ^ k) addr \<noteq> 0 \<and> unat addr + unat len + 2 ^ k < 2 ^ 64
          \<and> (\<forall>i < unat len. readable (addr + word_of_nat i)), s', v')
    \<and> probe_ok p s' \<and> validator_ok v' \<and> good_pages readable v'"
  using assms shared_cache.address_valid thread_cache.address_valid by blast

section \<open>Threads that share the cache\<close>

definition thread_ok :: "(unw_word \<Rightarrow> bool) \<Rightarrow> thread \<Rightarrow> bool" where
  "thread_ok readable t = (case t of Idle \<Rightarrow> True | Looking page i \<Rightarrow> page \<noteq> 0 | Found page \<Rightarrow> readable page
     | Missed page \<Rightarrow> page \<noteq> 0 | Caching page pc \<Rightarrow> readable page \<and> pc_ok pc)"

lemma lookup_step_keeps:
  assumes "validator_ok v" "good_pages readable v" "page \<noteq> 0"
  shows "\<exists>t. lookup_step page v i = Inr t \<and> thread_ok readable t"
  using assms by (auto simp: lookup_step_def validator_ok_def good_pages_def thread_ok_def)

lemma share_step_keeps:
  assumes "share_step readable (v, ts) (v', ts')" "validator_ok v" "good_pages readable v" "\<forall>k. thread_ok readable (ts k)"
  shows "validator_ok v' \<and> good_pages readable v' \<and> (\<forall>k. thread_ok readable (ts' k))"
  using assms(1)
proof cases
  case (look k page i t)
  then show ?thesis
    using lookup_step_keeps [OF assms(2,3), of page i] assms(2,3) assms(4) assms(4) [rule_format, of k]
    by (auto simp: thread_ok_def)
next
  case (atomic k page pc pc')
  have t: "readable page" "pc_ok pc" using assms(4) [rule_format, of k] atomic by (auto simp: thread_ok_def)
  obtain v1 pc1 where "cache_step page v pc = Inr (v1, pc1)" "validator_ok v1" "pc_ok pc1"
      "set (last_good_addr v1) \<subseteq> insert page (set (last_good_addr v))"
    by (rule cache_step_keeps [OF assms(2) t(2)])
  then show ?thesis using atomic t(1) assms(4) good_pages_insert [OF assms(3) t(1)] by (auto simp: thread_ok_def)
qed (use assms in \<open>auto simp: thread_ok_def pc_ok_def\<close>)

lemma shared_keeps:
  assumes "shared readable s"
  shows "validator_ok (fst s) \<and> good_pages readable (fst s) \<and> (\<forall>k. thread_ok readable (snd s k))"
  using assms
proof induction
  case start
  then show ?case by (simp add: thread_ok_def)
next
  case (step s s')
  then show ?case using share_step_keeps [of readable "fst s" "snd s" "fst s'" "snd s'"] by simp
qed

text \<open>One more operation of the thread \<open>k\<close>.\<close>

lemma shared_next:
  assumes "shared readable (v, ts(k := t))" "share_step readable (v, ts(k := t)) (v', (ts(k := t))(k := t'))"
  shows "shared readable (v', ts(k := t'))"
  using shared.step [OF assms] by simp

lemma shared_look:
  "shared readable (v, ts(k := Looking page i)) \<Longrightarrow> lookup_step page v i = Inr t \<Longrightarrow> shared readable (v, ts(k := t))"
  by (erule shared_next, rule share_step.look) simp_all

lemma shared_probed:
  "shared readable (v, ts(k := Missed page)) \<Longrightarrow> readable page \<Longrightarrow> shared readable (v, ts(k := Caching page Load))"
  by (erule shared_next, rule share_step.probed) simp_all

lemma shared_atomic:
  "shared readable (v, ts(k := Caching page pc)) \<Longrightarrow> pc \<noteq> Finished \<Longrightarrow> cache_step page v pc = Inr (v', pc')
    \<Longrightarrow> shared readable (v', ts(k := Caching page pc'))"
  by (erule shared_next, rule share_step.atomic) simp_all

end
