(* ===== verification/ValidatorProps.thy ===== *)
theory ValidatorProps
  imports ValidatorLemmas
begin

text \<open>
  The properties of the address validator: its answer for a range, the cache that threads share, and
  what the code does where the pipe, the length or the exchanges do not behave as it expects.
\<close>

section \<open>The answer for a range\<close>

text \<open>C22. As long as the pipe works as the code expects it to, memory is readable by whole pages, the cache
  holds readable pages only, and the length leaves room for a page below the end of the address space,
  then \<open>unw_address_is_valid\<close> returns, whichever cache the library is built with, and it accepts exactly
  the empty ranges and those ranges that start above the first page, end a page below the end of the
  address space and of which every byte can be read; the cache still holds readable pages only.
\<close>

theorem address_valid_exact:
  assumes "remember = cache_valid_mem \<or> remember = cache_valid_mem_thread"
    and "pipe_works os p readable" "by_pages (2 ^ k) readable" "k < 64"
    and "probe_ok p s" "validator_ok v" "good_pages readable v"
    and "unat len + 2 ^ k < 2 ^ 64"
  shows "\<exists>s' v'. unw_address_is_valid remember os (2 ^ k) addr len s v
      = Inr (len = 0 \<or> unw_page_start (2 ^ k) addr \<noteq> 0 \<and> unat addr + unat len + 2 ^ k < 2 ^ 64
          \<and> (\<forall>i < unat len. readable (addr + word_of_nat i)), s', v')
    \<and> probe_ok p s' \<and> validator_ok v' \<and> good_pages readable v'"
  by (rule address_valid_either [OF assms(1,2,4,3,5-8)])

text \<open>
  A pipe of a given capacity: its fill and the error number. Descriptors 3 and 4 are its ends.
\<close>

definition kernel_pipe :: "nat \<Rightarrow> (unw_word \<Rightarrow> bool) \<Rightarrow> (nat \<times> errno) os" where
  "kernel_pipe capacity readable = \<lparr>
     os_close = (\<lambda>fd w. w),
     os_pipe2 = (\<lambda>(fill, e). (Some (3, 4), (0, e))),
     os_read = (\<lambda>fd (fill, e). if fill = 0 then (- 1, (fill, EAGAIN)) else (1, (fill - 1, e))),
     os_write = (\<lambda>fd a (fill, e). if fill = capacity then (- 1, (fill, EAGAIN))
       else if readable a then (1, (fill + 1, e)) else (- 1, (fill, Other_errno 14))),
     os_errno = snd\<rparr>"

definition kernel_pipe_state :: "(nat \<times> errno) pipe_state" where
  "kernel_pipe_state = \<lparr>pipe_at = (\<lambda>fds (fill, e). fds = (3, 4) \<and> fill \<le> 1),
     empty_at = (\<lambda>fds (fill, e). fds = (3, 4) \<and> fill = 0), pending = fst\<rparr>"

lemma kernel_pipe_works: "0 < capacity \<Longrightarrow> pipe_works (kernel_pipe capacity readable) kernel_pipe_state readable"
  by (auto simp: pipe_works_def kernel_pipe_def kernel_pipe_state_def)

text \<open>The second page can be read: a range in it is accepted, one that leaves it is not.\<close>

theorem address_valid_exact_witness:
  "(\<exists>s v. unw_address_is_valid cache_valid_mem (kernel_pipe 65536 (\<lambda>a. unw_page_start 4096 a = 4096)) 4096
       0x1ff0 16 (no_pipe, (0, EINTR)) zero_validator = Inr (True, s, v))
    \<and> (\<exists>s v. unw_address_is_valid cache_valid_mem (kernel_pipe 65536 (\<lambda>a. unw_page_start 4096 a = 4096)) 4096
       0x1ff0 17 (no_pipe, (0, EINTR)) zero_validator = Inr (False, s, v))"
proof -
  let ?readable = "\<lambda>a. unw_page_start 4096 a = 4096"
  note exact = address_valid_exact [of cache_valid_mem "kernel_pipe 65536 ?readable" kernel_pipe_state ?readable 12
      "(no_pipe, (0, EINTR))" zero_validator]
  have page: "?readable a \<longleftrightarrow> unat a div 4096 = 1" for a
    using unat_page_start [of 12 a] by (auto simp: word_unat_eq_iff)
  have pages: "by_pages (2 ^ 12) ?readable" by (simp add: by_pages_def)
  have ok: "probe_ok kernel_pipe_state (no_pipe, (0, EINTR))" by (simp add: probe_ok_def no_pipe_def)
  have start: "unw_page_start 4096 0x1ff0 \<noteq> 0" by (simp add: unw_page_start_def)
  have byte: "unat (0x1ff0 + word_of_nat i :: unw_word) = 0x1ff0 + i" if "i < 17" for i
    using that by (simp add: unat_word_ariths unat_of_nat)
  have all: "\<forall>i < 16. ?readable (0x1ff0 + word_of_nat i)"
    unfolding page by (auto simp: byte intro!: div_nat_eqI)
  have not_all: "\<not> (\<forall>i < 17. ?readable (0x1ff0 + word_of_nat i))"
    unfolding page using byte [of 16] by (intro notI) (drule spec [of _ 16], simp)
  have "\<exists>s v. unw_address_is_valid cache_valid_mem (kernel_pipe 65536 ?readable) 4096
       0x1ff0 16 (no_pipe, (0, EINTR)) zero_validator = Inr (True, s, v)"
    using exact [of 16 "0x1ff0", OF _ kernel_pipe_works pages _ ok] all start by auto
  moreover have "\<exists>s v. unw_address_is_valid cache_valid_mem (kernel_pipe 65536 ?readable) 4096
       0x1ff0 17 (no_pipe, (0, EINTR)) zero_validator = Inr (False, s, v)"
    using exact [of 17 "0x1ff0", OF _ kernel_pipe_works pages _ ok] not_all start by auto
  ultimately show ?thesis by blast
qed

section \<open>Threads that share the cache\<close>

text \<open>C40. However the atomic operations of any number of threads interleave from the empty cache on, every
  page in the cache can be read, every page that a lookup has found can be read, no operation leaves
  the array of the slots, and each thread that puts a page into the cache is done after at most eight
  operations of its own, whatever the others do.
\<close>

theorem shared_cache_sound:
  assumes "shared readable (v, ts)"
  shows "good_pages readable v
    \<and> (ts k = Found page \<longrightarrow> readable page)
    \<and> (ts k = Looking page i \<longrightarrow> (\<exists>t. lookup_step page v i = Inr t))
    \<and> (ts k = Caching page pc \<longrightarrow> pc \<noteq> Finished
        \<longrightarrow> (\<exists>v' pc'. cache_step page v pc = Inr (v', pc') \<and> pc_left pc' < pc_left pc))
    \<and> pc_left pc \<le> 8"
proof -
  have ok: "validator_ok v" "good_pages readable v" "thread_ok readable (ts k)"
    using shared_keeps [OF assms] by simp_all
  have "\<exists>v' pc'. cache_step page v pc = Inr (v', pc') \<and> pc_left pc' < pc_left pc"
    if busy: "ts k = Caching page pc" "pc \<noteq> Finished"
  proof -
    have "pc_ok pc" using ok(3) busy(1) by (simp add: thread_ok_def)
    show ?thesis
      by (rule cache_step_keeps [OF ok(1) \<open>pc_ok pc\<close>, of page]) (use busy(2) in blast)
  qed
  moreover have "pc_left pc \<le> 8" by (cases pc) auto
  moreover have "\<exists>t. lookup_step page v i = Inr t" if "ts k = Looking page i"
    using lookup_step_keeps [OF ok(1,2), of page i] ok(3) that by (auto simp: thread_ok_def)
  ultimately show ?thesis using ok by (auto simp: thread_ok_def)
qed

text \<open>One thread has put a page into the cache while it is still returning; a second one finds it.\<close>

theorem shared_cache_sound_witness:
  "\<exists>v ts. shared (\<lambda>a. a \<noteq> 0) (v, ts) \<and> ts 1 = Found 0x1000 \<and> ts 0 = Caching 0x1000 Finished
    \<and> good_pages (\<lambda>a. a \<noteq> 0) v"
proof -
  let ?R = "\<lambda>a :: unw_word. a \<noteq> 0" and ?z = zero_validator
  let ?v = "zero_validator\<lparr>last_good_addr := [0x1000, 0, 0, 0]\<rparr>"
  define ts :: "nat \<Rightarrow> thread" where "ts = (\<lambda>_. Idle)"
  have start: "shared ?R (?z, ts(0 := Looking 0x1000 0))"
    unfolding ts_def by (rule shared.step [OF shared.start share_step.call]) simp_all
  have miss: "lookup_step 0x1000 ?z i = Inr (if i < 4 then Looking 0x1000 (i + 1) else Missed 0x1000)" for i
    by (auto simp: lookup_step_def zero_validator_def)
  have l1: "shared ?R (?z, ts(0 := Looking 0x1000 1))" by (rule shared_look [OF start]) (simp add: miss)
  have l2: "shared ?R (?z, ts(0 := Looking 0x1000 2))" by (rule shared_look [OF l1]) (simp add: miss)
  have l3: "shared ?R (?z, ts(0 := Looking 0x1000 3))" by (rule shared_look [OF l2]) (simp add: miss)
  have l4: "shared ?R (?z, ts(0 := Looking 0x1000 4))" by (rule shared_look [OF l3]) (simp add: miss)
  have l5: "shared ?R (?z, ts(0 := Missed 0x1000))" by (rule shared_look [OF l4]) (simp add: miss)
  have l6: "shared ?R (?z, ts(0 := Caching 0x1000 Load))" by (rule shared_probed [OF l5]) simp
  have l7: "shared ?R (?z, ts(0 := Caching 0x1000 (Exchange 0 0 0)))"
    by (rule shared_atomic [OF l6]) (simp_all add: cache_step_def zero_validator_def)
  have l8: "shared ?R (?v, ts(0 := Caching 0x1000 Finished))"
    by (rule shared_atomic [OF l7]) (simp_all add: cache_step_def zero_validator_def numeral_eq_Suc)
  have l9: "shared ?R (?v, ts(0 := Caching 0x1000 Finished, 1 := Looking 0x1000 0))"
    by (rule shared.step [OF l8 share_step.call]) (simp_all add: ts_def)
  have l10: "shared ?R (?v, ts(0 := Caching 0x1000 Finished, 1 := Found 0x1000))"
    by (rule shared_look [OF l9]) (simp add: lookup_step_def zero_validator_def)
  show ?thesis using shared_cache_sound [OF l10, THEN conjunct1] l10
    by (intro exI conjI) (assumption | simp)+
qed

section \<open>Where the code does not do what it means to\<close>

text \<open>
  Three pages put into an empty cache by the exchanges, where a failed exchange has overwritten
  \<open>zero\<close>: the third page evicts the first one though slots are still empty. The variant for each
  thread keeps all three.
\<close>

lemma exchange_overwrites_zero:
  "rbind (cache_valid_mem zero_validator 0x1000) (\<lambda>v. rbind (cache_valid_mem v 0x2000)
     (\<lambda>v. cache_valid_mem v 0x3000)) = Inr \<lparr>last_good_addr = [0x3000, 0, 0x2000, 0], lga_victim = 1\<rparr>"
  "rbind (cache_valid_mem_thread zero_validator 0x1000) (\<lambda>v. rbind (cache_valid_mem_thread v 0x2000)
     (\<lambda>v. cache_valid_mem_thread v 0x3000)) = Inr \<lparr>last_good_addr = [0x1000, 0x2000, 0x3000, 0], lga_victim = 0\<rparr>"
proof -
  have four_empty: "replicate 4 (0::unw_word) = [0, 0, 0, 0]" by (simp add: eval_nat_numeral)
  let ?z = "\<lambda>l. \<lparr>last_good_addr = l, lga_victim = 0\<rparr>"
  have "cache_valid_mem (?z [0, 0, 0, 0]) 0x1000 = Inr (?z [0x1000, 0, 0, 0])"
    "cache_valid_mem (?z [0x1000, 0, 0, 0]) 0x2000 = Inr (?z [0x1000, 0, 0x2000, 0])"
    "cache_valid_mem (?z [0x1000, 0, 0x2000, 0]) 0x3000 = Inr \<lparr>last_good_addr = [0x3000, 0, 0x2000, 0], lga_victim = 1\<rparr>"
    unfolding cache_valid_mem_def
    by (simp_all add: iterate_next iterate_end cache_step_def)
  then show "rbind (cache_valid_mem zero_validator 0x1000) (\<lambda>v. rbind (cache_valid_mem v 0x2000)
     (\<lambda>v. cache_valid_mem v 0x3000)) = Inr \<lparr>last_good_addr = [0x3000, 0, 0x2000, 0], lga_victim = 1\<rparr>"
    by (simp add: zero_validator_def four_empty)
  have four: "fill_slot page slots victim 4 = fill_slot page slots victim (Suc (Suc (Suc (Suc 0))))" for page slots victim
    by (rule arg_cong [where f = "fill_slot page slots victim"]) simp
  show "rbind (cache_valid_mem_thread zero_validator 0x1000) (\<lambda>v. rbind (cache_valid_mem_thread v 0x2000)
     (\<lambda>v. cache_valid_mem_thread v 0x3000)) = Inr \<lparr>last_good_addr = [0x1000, 0x2000, 0x3000, 0], lga_victim = 0\<rparr>"
    by (simp add: cache_valid_mem_thread_def zero_validator_def four_empty four)
qed

text \<open>A length that reaches the end of the address space: the bound wraps around and no page is checked.\<close>

lemma huge_length_accepted:
  "unw_address_is_valid remember os 4096 0x5000 (- 1) s v = Inr (True, s, v)"
  by (simp add: unw_address_is_valid_def unw_page_start_def check_page_def iterate.simps)

text \<open>A pipe that cannot be made anew: the closed descriptors stay those of the thread.\<close>

lemma closed_descriptors_kept:
  "a \<noteq> - 1 \<Longrightarrow> b \<noteq> - 1 \<Longrightarrow> os_pipe2 os (os_close os b (os_close os a w)) = (None, w')
    \<Longrightarrow> open_pipe os ((a, b), w) = (False, (a, b), w')"
  by (simp add: open_pipe_def)

text \<open>
  A write that is interrupted and then succeeds does not reset the error number: it is repeated until
  the pipe is full, and the address is rejected.
\<close>

definition interrupted_pipe :: "nat \<Rightarrow> (unw_word \<Rightarrow> bool) \<Rightarrow> (nat \<times> errno) os" where
  "interrupted_pipe capacity readable = (kernel_pipe capacity readable)\<lparr>
     os_write := (\<lambda>fd a (fill, e). if fill = 0 \<and> e = EAGAIN then (- 1, (fill, EINTR))
       else os_write (kernel_pipe capacity readable) fd a (fill, e))\<rparr>"

lemma interrupted_fills:
  assumes "readable a" "fill \<le> capacity"
  shows "repeat_call (interrupted_pipe capacity readable) (os_write (interrupted_pipe capacity readable) fd a) (fill, EINTR)
    = Inr (- 1, capacity, EAGAIN)"
  using assms(2)
proof (induction "capacity - fill" arbitrary: fill)
  case 0
  then show ?case
    by (simp add: repeat_call_def iterate_end interrupted_pipe_def kernel_pipe_def)
next
  case (Suc n)
  have "repeat_call (interrupted_pipe capacity readable) (os_write (interrupted_pipe capacity readable) fd a) (fill, EINTR)
     = repeat_call (interrupted_pipe capacity readable) (os_write (interrupted_pipe capacity readable) fd a) (fill + 1, EINTR)"
    unfolding repeat_call_def
    by (subst iterate_next [where s' = "(fill + 1, EINTR)"])
      (use assms(1) Suc.hyps(2) in \<open>auto simp: interrupted_pipe_def kernel_pipe_def\<close>)
  moreover have "n = capacity - (fill + 1)" "fill + 1 \<le> capacity" using Suc.hyps(2) by linarith+
  ultimately show ?case using Suc.hyps(1) by presburger
qed

lemma interrupted_write_rejects:
  assumes "readable a"
  shows "write_validate (interrupted_pipe capacity readable) a (no_pipe, w) = Inr (False, (3, 4), capacity, EAGAIN)"
proof -
  have read: "repeat_call (interrupted_pipe capacity readable) (os_read (interrupted_pipe capacity readable) 3) (0, e)
      = Inr (- 1, 0, EAGAIN)" for e
    by (simp add: repeat_call_def iterate_end interrupted_pipe_def kernel_pipe_def)
  have "repeat_call (interrupted_pipe capacity readable) (os_write (interrupted_pipe capacity readable) 4 a) (0, EAGAIN)
      = repeat_call (interrupted_pipe capacity readable) (os_write (interrupted_pipe capacity readable) 4 a) (0, EINTR)"
    unfolding repeat_call_def
    by (subst iterate_next [where s' = "(0, EINTR)"]) (simp_all add: interrupted_pipe_def kernel_pipe_def)
  then have wr: "repeat_call (interrupted_pipe capacity readable) (os_write (interrupted_pipe capacity readable) 4 a) (0, EAGAIN)
      = Inr (- 1, capacity, EAGAIN)"
    using interrupted_fills [where fill = 0 and capacity = capacity and fd = 4 and readable = readable and a = a] assms by simp
  obtain fill e where w: "w = (fill, e)" by (cases w)
  have "open_pipe (interrupted_pipe capacity readable) (no_pipe, w) = (True, (3, 4), 0, e)"
    by (simp add: open_pipe_def no_pipe_def interrupted_pipe_def kernel_pipe_def w)
  then show ?thesis using read wr
    by (simp add: write_validate_def no_pipe_def) (simp add: interrupted_pipe_def kernel_pipe_def)
qed

end
