(* ===== verification/RegStates.thy ===== *)
theory RegStates
  imports Step CfiRows
begin

text \<open>
  Iterating over the register states of a procedure and queries for a single frame:
  \<open>dwarf_reg_states_iterate\<close> (\<open>src/dwarf/Gparser.c\<close>), \<open>unw_reg_states_iterate\<close>, \<open>unw_apply_reg_state\<close>
  (\<open>src/x86_64\<close>) and \<open>unw_get_proc_info_in_range\<close> (\<open>src/dwarf/Gget_proc_info_in_range.c\<close>).
\<close>

section \<open>Iterating\<close>

text \<open>
  A callback gets a register state, the range of addresses it holds for and its token, which stands
  for all that it may change. A negative number it returns is an error.
\<close>

type_synonym 't callback = "dwarf_reg_state \<Rightarrow> unw_word \<Rightarrow> unw_word \<Rightarrow> 't \<Rightarrow> int \<times> 't"

text \<open>
  One round of the loop: the program runs past the current location, and what it has run up to is
  reported for the addresses in between.
\<close>

definition report_segment ::
  "cfi_env \<Rightarrow> unw_word \<Rightarrow> unw_word \<Rightarrow> 't callback \<Rightarrow> cfi_state \<times> int \<times> 't
    \<Rightarrow> (cfi_state \<times> int \<times> 't + cfi_state \<times> int \<times> 't) res" where
  "report_segment env end_ip end_addr cb = (\<lambda>(s, ret, token).
     if \<not> (ret \<ge> 0 \<and> cs_ip s < end_ip \<and> cs_addr s < end_addr) then Inr (Inr (s, ret, token))
     else
       let prev_ip = cs_ip s in
       rbind (attempt (returns (cfi_loop env prev_ip end_addr s))) (\<lambda>r.
       Inr (Inl (case r of
         Inl e \<Rightarrow> (s, - unw_error_code e, token)
       | Inr s \<Rightarrow> (s, if prev_ip < cs_ip s then cb (rs_current (cs_sr s)) prev_ip (cs_ip s) token else (0, token))))))"

definition dwarf_reg_states_table_iterate ::
  "addr_space \<Rightarrow> (nat \<Rightarrow> bool) \<Rightarrow> cursor \<Rightarrow> 't callback \<Rightarrow> 't \<Rightarrow> (int \<times> 't) res" where
  "dwarf_reg_states_table_iterate las alloc c cb token =
     rbind (attempt (setup_fde las alloc c)) (\<lambda>r.
     rbind (cursor_dci c) (\<lambda>dci.
     case r of
       Inl e \<Rightarrow> Inr (- unw_error_code e, token)
     | Inr sr \<Rightarrow>
         let env = \<lparr>ce_as = (if pi_debug_frame (c_pi c) then las else c_as c), ce_pi = c_pi c,
                    ce_dci = dci, ce_alloc = alloc\<rparr>;
             end_ip = pi_end_ip (c_pi c) in
         rbind (returns (iterate (report_segment env end_ip (fde_instr_end dci) cb)
           (\<lparr>cs_sr = sr, cs_ip = pi_start_ip (c_pi c), cs_addr = fde_instr_start dci, cs_stack = [],
             cs_allocs = 0\<rparr>, 0, token))) (\<lambda>(s, ret, token).
         Inr (if ret \<ge> 0 \<and> cs_ip s < end_ip then cb (rs_current (cs_sr s)) (cs_ip s) end_ip token
              else (ret, token)))))"

text \<open>\<open>dwarf_reg_states_dynamic_iterate\<close> is not implemented and fails.\<close>

definition dwarf_reg_states_iterate ::
  "step_env \<Rightarrow> cursor \<Rightarrow> as_caches \<Rightarrow> 't callback \<Rightarrow> 't \<Rightarrow> (cursor \<times> as_caches \<times> int \<times> 't) res" where
  "dwarf_reg_states_iterate env c ca cb token =
     rbind (fetch_proc_info env c ca (c_ip c)) (\<lambda>(c, ca, ret).
     rbind (case ret of
              Inl e \<Rightarrow> Inr (- unw_error_code e, token, c_use_prev_instr c)
            | Inr _ \<Rightarrow>
                (case pi_unwind_info (c_pi c) of
                   None \<Rightarrow> Inl Aborted
                 | Some dci \<Rightarrow>
                     rbind (case pi_format (c_pi c) of
                              UNW_INFO_FORMAT_TABLE \<Rightarrow>
                                dwarf_reg_states_table_iterate (local_as (se_process env)) (se_alloc env) c cb token
                            | UNW_INFO_FORMAT_REMOTE_TABLE \<Rightarrow>
                                dwarf_reg_states_table_iterate (local_as (se_process env)) (se_alloc env) c cb token
                            | UNW_INFO_FORMAT_DYNAMIC \<Rightarrow> Inr (- unw_error_code UNW_ENOINFO, token)
                            | _ \<Rightarrow> Inr (- unw_error_code UNW_EINVAL, token)) (\<lambda>(ret, token).
                     Inr (ret, token, \<not> signal_frame dci)))) (\<lambda>(ret, token, next_use_prev_instr).
     Inr ((put_unwind_info env c)\<lparr>c_use_prev_instr := next_use_prev_instr\<rparr>, ca, ret, token)))"

definition unw_reg_states_iterate ::
  "step_env \<Rightarrow> cursor \<Rightarrow> as_caches \<Rightarrow> 't callback \<Rightarrow> 't \<Rightarrow> (cursor \<times> as_caches \<times> int \<times> 't) res" where
  "unw_reg_states_iterate env c ca cb token = dwarf_reg_states_iterate env c ca cb token"

definition unw_apply_reg_state :: "cursor \<Rightarrow> dwarf_reg_state \<Rightarrow> (cursor \<times> (unw_error + bool)) res" where
  "unw_apply_reg_state c reg_states_data = dwarf_apply_reg_state c reg_states_data"

section \<open>The procedure information in a given table\<close>

text \<open>
  The first four bytes of the header come from one word. \<open>is_local\<close> tells whether the address space
  is that of the process.
\<close>

definition unw_get_proc_info_in_range ::
  "process \<Rightarrow> bool \<Rightarrow> unw_word \<Rightarrow> unw_word \<Rightarrow> unw_word \<Rightarrow> addr_space \<Rightarrow> unw_word \<Rightarrow> unw_proc_info \<Rightarrow> bool
    \<Rightarrow> unw_proc_info res" where
  "unw_get_proc_info_in_range pr is_local start_ip end_ip eh_frame_table as ip pi need_unwind_info =
     (if eh_frame_table = 0 then Inl (Err UNW_ENOINFO)
      else
        (case access_mem as eh_frame_table of
          Inl _ \<Rightarrow> Inl (Err UNW_EINVAL)
        | Inr data \<Rightarrow>
            let version = ucast data :: 8 word; eh_frame_ptr_enc = ucast (drop_bit 8 data) :: 8 word;
                fde_count_enc = ucast (drop_bit 16 data) :: 8 word; table_enc = ucast (drop_bit 24 data) :: 8 word;
                datarel4 = DW_EH_PE_datarel OR DW_EH_PE_sdata4; datarel8 = DW_EH_PE_datarel OR DW_EH_PE_sdata8 in
            if version \<noteq> 1 then Inl (Err UNW_EBADVERSION)
            else
              rbind (dwarf_read_encoded_pointer as eh_frame_ptr_enc pi (eh_frame_table + 4)) (\<lambda>(eh_frame_start, addr).
              rbind (dwarf_read_encoded_pointer as fde_count_enc pi addr) (\<lambda>(fde_count, addr).
              if fde_count = 0 then Inl (Err UNW_ENOINFO)
              else if table_enc \<noteq> datarel4 \<and> table_enc \<noteq> datarel8 then Inl (Err UNW_EINVAL)
              else
                let is_sdata8 = (table_enc = datarel8); entry_size = (if is_sdata8 then 16 else 8);
                    di = zero_di\<lparr>di_start_ip := start_ip, di_end_ip := end_ip, di_gp := pi_gp pi,
                      di_format := Some (if is_sdata8 then UNW_INFO_FORMAT_REMOTE_TABLE_64
                                         else UNW_INFO_FORMAT_REMOTE_TABLE),
                      di_table_data := addr, di_table_len := fde_count * entry_size div 8,
                      di_segbase := eh_frame_table\<rparr> in
                rbind (dwarf_search_unwind_table pr is_local as ip di pi need_unwind_info) (\<lambda>pi.
                if ip < pi_start_ip pi \<or> ip \<ge> pi_end_ip pi then Inl (Err UNW_ENOINFO) else Inr pi)))))"

section \<open>Running a program piece by piece\<close>

text \<open>\<open>n\<close> instructions are executed before the program stops.\<close>

fun runs_in :: "cfi_env \<Rightarrow> unw_word \<Rightarrow> unw_word \<Rightarrow> nat \<Rightarrow> cfi_state \<Rightarrow> cfi_state \<Rightarrow> bool" where
  "runs_in env pc ea 0 s t \<longleftrightarrow> \<not> (cs_ip s \<le> pc \<and> cs_addr s < ea) \<and> t = s"
| "runs_in env pc ea (Suc n) s t \<longleftrightarrow>
     cs_ip s \<le> pc \<and> cs_addr s < ea \<and> (case cfi_step env s of Inl _ \<Rightarrow> False | Inr s' \<Rightarrow> runs_in env pc ea n s' t)"

lemma loop_stops: "\<not> (cs_ip s \<le> pc \<and> cs_addr s < ea) \<Longrightarrow> cfi_loop env pc ea s = Some (Inr s)"
  by (subst cfi_loop.simps) (simp only: if_False)

lemma loop_goes_on:
  "cs_ip s \<le> pc \<Longrightarrow> cs_addr s < ea \<Longrightarrow> cfi_step env s = Inr s' \<Longrightarrow> cfi_loop env pc ea s = cfi_loop env pc ea s'"
  by (subst cfi_loop.simps) simp

lemma runs_in_loop: "runs_in env pc ea n s t \<Longrightarrow> cfi_loop env pc ea s = Some (Inr t)"
  by (induction n arbitrary: s) (auto simp: loop_stops loop_goes_on split: sum.splits)

lemma loop_runs_in:
  assumes "cfi_loop env pc ea s = Some r" and "r = Inr t" shows "\<exists>n. runs_in env pc ea n s t"
  using assms
proof (induction rule: cfi_loop.raw_induct [rotated, consumes 1])
  case (1 loop env pc ea s r)
  show ?case
  proof (cases "cs_ip s \<le> pc \<and> cs_addr s < ea")
    case False
    with 1 show ?thesis by (auto intro: exI [of _ 0])
  next
    case True
    with "1.hyps" "1.prems" obtain s' where s': "cfi_step env s = Inr s'" "loop env pc ea s' = Some r"
      by (cases "cfi_step env s") auto
    from "1.IH" [OF s'(2) "1.prems"] obtain n where "runs_in env pc ea n s' t" by blast
    with s'(1) True show ?thesis by (intro exI [of _ "Suc n"]) simp
  qed
qed

text \<open>A run to a later location starts with the run to an earlier one.\<close>

lemma runs_in_split:
  assumes "p \<le> pc" "runs_in env pc ea n s t"
  shows "\<exists>m s'. m \<le> n \<and> runs_in env p ea m s s' \<and> runs_in env pc ea (n - m) s' t"
  using assms(2)
proof (induction n arbitrary: s)
  case 0
  then show ?case using assms(1) by (intro exI [of _ 0] exI [of _ s]) auto
next
  case (Suc n)
  show ?case
  proof (cases "cs_ip s \<le> p \<and> cs_addr s < ea")
    case False
    then show ?thesis using Suc.prems by (intro exI [of _ 0] exI [of _ s]) auto
  next
    case True
    then obtain s1 where s1: "cfi_step env s = Inr s1" "runs_in env pc ea n s1 t"
      using Suc.prems by (auto split: sum.splits)
    from Suc.IH [OF s1(2)] obtain m s' where "m \<le> n" "runs_in env p ea m s1 s'" "runs_in env pc ea (n - m) s' t"
      by blast
    then show ?thesis using s1(1) True by (intro exI [of _ "Suc m"] exI [of _ s']) auto
  qed
qed

text \<open>Once a run to \<open>p\<close> is known, a run to a later location goes on from its end.\<close>

lemma loop_split:
  assumes "p \<le> pc" "runs_in env p ea m s s'" shows "cfi_loop env pc ea s = cfi_loop env pc ea s'"
  using assms(2)
proof (induction m arbitrary: s)
  case (Suc m)
  then obtain s1 where s1: "cfi_step env s = Inr s1" "runs_in env p ea m s1 s'" "cs_ip s \<le> pc" "cs_addr s < ea"
    using assms(1) by (auto split: sum.splits)
  then show ?case using Suc.IH [OF s1(2)] loop_goes_on [OF s1(3,4,1)] by simp
qed simp

section \<open>The ranges that are reported\<close>

type_synonym reported = "dwarf_reg_state \<times> unw_word \<times> unw_word"

definition collect :: "reported list callback" where
  "collect rs lo hi calls = (0, calls @ [(rs, lo, hi)])"

definition covers :: "unw_word \<Rightarrow> reported \<Rightarrow> bool" where
  "covers pc = (\<lambda>(rs, lo, hi). lo \<le> pc \<and> pc < hi)"

definition with_rest :: "unw_word \<Rightarrow> cfi_state \<Rightarrow> reported list \<Rightarrow> reported list" where
  "with_rest end_ip s calls = (if cs_ip s < end_ip then calls @ [(rs_current (cs_sr s), cs_ip s, end_ip)] else calls)"

text \<open>
  A callback that returns 0 or the negative code of an error, and what it makes of reported ranges: its
  first error ends the calls and is the result.
\<close>

definition conforming :: "'t callback \<Rightarrow> bool" where
  "conforming cb \<longleftrightarrow> (\<forall>rs lo hi token. fst (cb rs lo hi token) \<le> 0)"

fun told :: "'t callback \<Rightarrow> 't \<Rightarrow> reported list \<Rightarrow> int \<times> 't" where
  "told cb token [] = (0, token)"
| "told cb token ((rs, lo, hi) # calls) =
     (case cb rs lo hi token of (ret, token) \<Rightarrow> if ret < 0 then (ret, token) else told cb token calls)"

lemma told_append:
  "told cb token (xs @ ys) = (case told cb token xs of (ret, token) \<Rightarrow> if ret < 0 then (ret, token) else told cb token ys)"
  by (induction cb token xs rule: told.induct) (auto split: prod.split)

lemma conformingD: "conforming cb \<Longrightarrow> cb rs lo hi token = (ret, token') \<Longrightarrow> ret < 0 \<or> ret = 0"
  unfolding conforming_def by (metis fst_conv order_le_less)

lemma told_result: "told cb token xs = (ret, token') \<Longrightarrow> ret < 0 \<or> ret = 0"
  by (induction cb token xs rule: told.induct) (auto split: prod.splits if_splits)

lemma report_segments:
  fixes cb :: "'t callback"
  assumes "runs_in env (- 1) ea n s e"
  shows "\<exists>more fin. iterate (report_segment env end_ip ea collect) (s, 0, calls) = Some (Inr (fin, 0, calls @ more))
    \<and> (\<forall>pc. cs_ip s \<le> pc \<longrightarrow> pc < end_ip \<longrightarrow>
         (\<exists>rs lo hi t. List.find (covers pc) (with_rest end_ip fin more) = Some (rs, lo, hi)
            \<and> cfi_loop env pc ea s = Some (Inr t) \<and> rs_current (cs_sr t) = rs))
    \<and> (\<forall>token. conforming cb \<longrightarrow> (\<exists>fin'. (0 \<le> fst (told cb token more) \<longrightarrow> fin' = fin)
         \<and> iterate (report_segment env end_ip ea cb) (s, 0, token) = Some (Inr (fin', told cb token more))))"
  using assms
proof (induction n arbitrary: s calls rule: less_induct)
  case (less n)
  let ?body = "report_segment env end_ip ea collect" and ?told = "report_segment env end_ip ea cb"
  show ?case
  proof (cases "cs_ip s < end_ip \<and> cs_addr s < ea")
    case False
    then have "iterate ?body (s, 0, calls) = Some (Inr (s, 0, calls @ []))"
      "iterate ?told (s, 0, token) = Some (Inr (s, told cb token []))" for token
      by (auto simp: report_segment_def iterate_end)
    moreover have "\<exists>rs lo hi t. List.find (covers pc) (with_rest end_ip s []) = Some (rs, lo, hi)
        \<and> cfi_loop env pc ea s = Some (Inr t) \<and> rs_current (cs_sr t) = rs"
      if "cs_ip s \<le> pc" "pc < end_ip" for pc
      using that False by (auto simp: with_rest_def covers_def loop_stops)
    ultimately show ?thesis by blast
  next
    case True
    let ?prev = "cs_ip s"
    obtain m s' where m: "m \<le> n" "runs_in env ?prev ea m s s'" "runs_in env (- 1) ea (n - m) s' e"
      using runs_in_split [OF _ less.prems, of ?prev] by auto
    have "m \<noteq> 0" using m(2) True by (cases m) auto
    then have shorter: "n - m < n" using m(1) by simp
    let ?new = "if ?prev < cs_ip s' then [(rs_current (cs_sr s'), ?prev, cs_ip s')] else []"
    have round: "?body (s, 0, calls) = Inr (Inl (s', 0, calls @ ?new))"
      using True runs_in_loop [OF m(2)] by (simp add: report_segment_def collect_def)
    obtain more fin where r: "iterate ?body (s', 0, calls @ ?new) = Some (Inr (fin, 0, (calls @ ?new) @ more))"
      and later: "\<And>pc. cs_ip s' \<le> pc \<Longrightarrow> pc < end_ip \<Longrightarrow>
         \<exists>rs lo hi t. List.find (covers pc) (with_rest end_ip fin more) = Some (rs, lo, hi)
            \<and> cfi_loop env pc ea s' = Some (Inr t) \<and> rs_current (cs_sr t) = rs"
      and tells: "\<And>token. conforming cb \<Longrightarrow> \<exists>fin'. (0 \<le> fst (told cb token more) \<longrightarrow> fin' = fin)
         \<and> iterate ?told (s', 0, token) = Some (Inr (fin', told cb token more))"
      using less.IH [OF shorter m(3), of "calls @ ?new"] by blast
    have "\<exists>rs lo hi t. List.find (covers pc) (with_rest end_ip fin (?new @ more)) = Some (rs, lo, hi)
        \<and> cfi_loop env pc ea s = Some (Inr t) \<and> rs_current (cs_sr t) = rs"
      if pc: "?prev \<le> pc" "pc < end_ip" for pc
    proof (cases "pc < cs_ip s'")
      case inside: True
      have "cfi_loop env pc ea s = Some (Inr s')"
        using inside loop_split [OF pc(1) m(2)] loop_stops [of s' pc ea env] by (simp add: not_le)
      moreover have "List.find (covers pc) (with_rest end_ip fin (?new @ more)) = Some (rs_current (cs_sr s'), ?prev, cs_ip s')"
        using inside pc by (auto simp: with_rest_def covers_def)
      ultimately show ?thesis by blast
    next
      case False
      then have "List.find (covers pc) (with_rest end_ip fin (?new @ more)) = List.find (covers pc) (with_rest end_ip fin more)"
        by (auto simp: with_rest_def covers_def)
      then show ?thesis using later [of pc] False pc(2) loop_split [OF pc(1) m(2)] by (simp add: not_less)
    qed
    moreover have "iterate ?body (s, 0, calls) = Some (Inr (fin, 0, calls @ (?new @ more)))"
      using iterate_next [where body = ?body, OF round] r by simp
    moreover have "\<exists>fin'. (0 \<le> fst (told cb token (?new @ more)) \<longrightarrow> fin' = fin)
        \<and> iterate ?told (s, 0, token) = Some (Inr (fin', told cb token (?new @ more)))"
      if l: "conforming cb" for token
    proof -
      let ?next = "if ?prev < cs_ip s' then cb (rs_current (cs_sr s')) ?prev (cs_ip s') token else (0, token)"
      have "?told (s, 0, token) = Inr (Inl (s', ?next))"
        using True runs_in_loop [OF m(2)] by (simp add: report_segment_def)
      then have step: "iterate ?told (s, 0, token) = iterate ?told (s', ?next)" by (rule iterate_next)
      obtain ret token' where n: "?next = (ret, token')" by (cases ?next)
      have told: "told cb token (?new @ more) = (if ret < 0 then (ret, token') else told cb token' more)"
        using n by (auto split: if_splits)
      show ?thesis
      proof (cases "ret < 0")
        case True
        then have "iterate ?told (s', ret, token') = Some (Inr (s', ret, token'))"
          by (intro iterate_end) (simp add: report_segment_def)
        then show ?thesis unfolding step n told using True by (intro exI [of _ s']) simp
      next
        case False
        then have "ret = 0" using n l by (auto simp: conforming_def dest!: spec split: if_splits dest: conformingD [OF l])
        then show ?thesis unfolding step n told using tells [OF l, of token'] by simp
      qed
    qed
    ultimately show ?thesis by blast
  qed
qed

end
