(* ===== verification/RegStatesProps.thy ===== *)
theory RegStatesProps
  imports RegStates CfiProps
begin

text \<open>
  The iteration over register states agrees with the lookup of each address.
\<close>

section \<open>The ranges agree with the lookup\<close>

text \<open>C7. When the whole program of an FDE runs without an error, the iteration over the register states of
  the procedure returns, and the ranges it reports are a table of the procedure: for every
  instruction address whose lookup falls into the procedure, the first range that covers it comes with
  the register state that the lookup by \<open>parse_fde\<close> computes. A callback that returns 0, or the negative
  code of an error, is called with these ranges in their order until its first error, which is then the
  result; without one the result is 0.\<close>

theorem reported_states_agree:
  assumes "setup_fde las alloc c = Inr sr" and "pi_unwind_info (c_pi c) = Some dci"
    and "run_cfi_program las alloc c dci sr (pi_start_ip (c_pi c)) (- 1) (fde_instr_start dci)
      (fde_instr_end dci) = Inr sr_last"
    and "conforming cb"
  shows "\<exists>calls. dwarf_reg_states_table_iterate las alloc c collect [] = Inr (0, calls)
    \<and> (\<forall>ip. let pc = ip - (if c_use_prev_instr c then 1 else 0) in
         pi_start_ip (c_pi c) \<le> pc \<longrightarrow> pc < pi_end_ip (c_pi c) \<longrightarrow>
         (\<exists>rs lo hi sr'. List.find (covers pc) calls = Some (rs, lo, hi)
            \<and> parse_fde las alloc c ip sr = Inr sr' \<and> rs_current sr' = rs))
    \<and> dwarf_reg_states_table_iterate las alloc c cb token = Inr (told cb token calls)"
proof -
  let ?env = "\<lparr>ce_as = (if pi_debug_frame (c_pi c) then las else c_as c), ce_pi = c_pi c,
    ce_dci = dci, ce_alloc = alloc\<rparr>"
  let ?s = "\<lparr>cs_sr = sr, cs_ip = pi_start_ip (c_pi c), cs_addr = fde_instr_start dci, cs_stack = [],
    cs_allocs = 0\<rparr>"
  let ?stop = "pi_end_ip (c_pi c)" and ?ea = "fde_instr_end dci"
  obtain e where "cfi_loop ?env (- 1) ?ea ?s = Some (Inr e)"
    using assms(3) by (auto simp: run_cfi_program_def Let_def returns_def res_iff split: option.splits)
  then obtain n where "runs_in ?env (- 1) ?ea n ?s e" using loop_runs_in by blast
  from report_segments [OF this, of ?stop "[]" cb]
  obtain calls fin where r: "iterate (report_segment ?env ?stop ?ea collect) (?s, 0, []) = Some (Inr (fin, 0, calls))"
    and found: "\<And>pc. pi_start_ip (c_pi c) \<le> pc \<Longrightarrow> pc < ?stop \<Longrightarrow>
         \<exists>rs lo hi t. List.find (covers pc) (with_rest ?stop fin calls) = Some (rs, lo, hi)
            \<and> cfi_loop ?env pc ?ea ?s = Some (Inr t) \<and> rs_current (cs_sr t) = rs"
    and "\<exists>fin'. (0 \<le> fst (told cb token calls) \<longrightarrow> fin' = fin)
         \<and> iterate (report_segment ?env ?stop ?ea cb) (?s, 0, token) = Some (Inr (fin', told cb token calls))"
    using assms(4) by auto
  then obtain fin' where tells: "0 \<le> fst (told cb token calls) \<Longrightarrow> fin' = fin"
      "iterate (report_segment ?env ?stop ?ea cb) (?s, 0, token) = Some (Inr (fin', told cb token calls))" by blast
  note run = dwarf_reg_states_table_iterate_def cursor_dci_def Let_def with_rest_def assms(1,2)
  have "dwarf_reg_states_table_iterate las alloc c collect [] = Inr (0, with_rest ?stop fin calls)"
    using r by (simp add: run collect_def)
  moreover have "dwarf_reg_states_table_iterate las alloc c cb token = Inr (told cb token (with_rest ?stop fin calls))"
  proof (cases "told cb token calls")
    case (Pair ret token')
    note told = told_result [OF Pair]
    show ?thesis
    proof (cases "ret < 0")
      case True
      then show ?thesis using tells(2) Pair by (simp add: run told_append)
    next
      case False
      then have "ret = 0" "fin' = fin" using told tells(1) Pair by auto
      then show ?thesis
        using tells(2) Pair conformingD [OF assms(4), of "rs_current (cs_sr fin)" "cs_ip fin" ?stop token']
        by (cases "cb (rs_current (cs_sr fin)) (cs_ip fin) ?stop token'") (auto simp: run told_append)
    qed
  qed
  moreover have "\<exists>rs lo hi sr'. List.find (covers pc) (with_rest ?stop fin calls) = Some (rs, lo, hi)
      \<and> parse_fde las alloc c ip sr = Inr sr' \<and> rs_current sr' = rs"
    if "pc = ip - (if c_use_prev_instr c then 1 else 0)" "pi_start_ip (c_pi c) \<le> pc" "pc < ?stop" for pc ip
    using found [OF that(2,3)] assms(2) that(1)
    by (auto simp: parse_fde_def cursor_dci_def run_cfi_program_def Let_def)
  ultimately show ?thesis unfolding Let_def by blast
qed

text \<open>
  A function that pushes its frame pointer: the range that covers the instruction behind the \<open>push\<close>
  comes with the frame pointer saved sixteen bytes below the CFA. A callback that counts its calls fails
  in the second one.
\<close>

definition sample_procedure :: cursor where
  "sample_procedure = sample_cursor\<lparr>c_pi := (c_pi sample_cursor)\<lparr>pi_end_ip := 0x4020\<rparr>\<rparr>"

lemma sample_procedure_simps [simp]:
  "c_pi_valid sample_procedure" "c_as sample_procedure = c_as sample_cursor" "\<not> c_use_prev_instr sample_procedure"
  "pi_unwind_info (c_pi sample_procedure) = Some sample_dci" "\<not> pi_debug_frame (c_pi sample_procedure)"
  "pi_start_ip (c_pi sample_procedure) = 0x4000" "pi_end_ip (c_pi sample_procedure) = 0x4020"
  by (simp_all add: sample_procedure_def sample_cursor_def blank_cursor_def zero_pi_def)

theorem reported_states_agree_witness:
  "\<exists>calls rs lo hi. dwarf_reg_states_table_iterate (ram (\<lambda>_. 0)) (\<lambda>_. True) sample_procedure collect [] = Inr (0, calls)
    \<and> List.find (covers 0x4002) calls = Some (rs, lo, hi) \<and> row_of rs 6 = (DWARF_WHERE_CFAREL, - 16)
    \<and> dwarf_reg_states_table_iterate (ram (\<lambda>_. 0)) (\<lambda>_. True) sample_procedure
        (\<lambda>rs lo hi n. (if n = 0 then 0 else - 8, Suc n)) (0 :: nat)
      = Inr (told (\<lambda>rs lo hi n. (if n = 0 then 0 else - 8, Suc n)) 0 calls)"
proof -
  let ?las = "ram (\<lambda>_. 0)" and ?count = "\<lambda>rs lo hi n. (if n = 0 then 0 else - 8 :: int, Suc n)"
  have row: "\<exists>sr. rbind (setup_fde ?las (\<lambda>_. True) sample_procedure) (parse_fde ?las (\<lambda>_. True) sample_procedure ip) = Inr sr
      \<and> row_of (rs_current sr) 6 = (DWARF_WHERE_CFAREL, - 16)" if "ip = 0x4002 \<or> ip = - 1" for ip
    using fde_row [of sample_procedure sample_dci "\<lambda>_. True" sample_cie sample_fde _ ip _ ?las] sample_programs that
    by (fastforce simp: sample_dci_def sample_cie_def sample_fde_def rule_def cie_env_def)
  obtain sr where sr: "setup_fde ?las (\<lambda>_. True) sample_procedure = Inr sr"
    using row [of "- 1"] by (auto simp: res_iff)
  obtain sr_last where "parse_fde ?las (\<lambda>_. True) sample_procedure (- 1) sr = Inr sr_last"
    using row [of "- 1"] sr by auto
  then have whole: "run_cfi_program ?las (\<lambda>_. True) sample_procedure sample_dci sr (pi_start_ip (c_pi sample_procedure)) (- 1)
      (fde_instr_start sample_dci) (fde_instr_end sample_dci) = Inr sr_last"
    by (simp add: parse_fde_def cursor_dci_def)
  have "conforming ?count" by (simp add: conforming_def)
  from reported_states_agree [OF sr _ whole this, of 0]
  obtain calls where calls: "dwarf_reg_states_table_iterate ?las (\<lambda>_. True) sample_procedure collect [] = Inr (0, calls)"
    and agree: "\<forall>ip. let pc = ip - (if c_use_prev_instr sample_procedure then 1 else 0) in
         pi_start_ip (c_pi sample_procedure) \<le> pc \<longrightarrow> pc < pi_end_ip (c_pi sample_procedure) \<longrightarrow>
         (\<exists>rs lo hi sr'. List.find (covers pc) calls = Some (rs, lo, hi)
            \<and> parse_fde ?las (\<lambda>_. True) sample_procedure ip sr = Inr sr' \<and> rs_current sr' = rs)"
    and counted: "dwarf_reg_states_table_iterate ?las (\<lambda>_. True) sample_procedure ?count 0 = Inr (told ?count 0 calls)"
    by auto
  obtain rs lo hi sr' where found: "List.find (covers 0x4002) calls = Some (rs, lo, hi)"
      "parse_fde ?las (\<lambda>_. True) sample_procedure 0x4002 sr = Inr sr'" "rs_current sr' = rs"
    using agree [rule_format, of "0x4002"] by (auto simp: Let_def)
  moreover have "row_of rs 6 = (DWARF_WHERE_CFAREL, - 16)" using row [of "0x4002"] sr found(2,3) by auto
  ultimately show ?thesis using calls counted by blast
qed

end
