(* ===== verification/DynRegister.thy ===== *)
theory DynRegister
  imports DynRemote
begin

text \<open>
  Registering and cancelling dynamic unwind information in a process (\<open>src/mi/dyn-register.c\<close>,
  \<open>src/mi/dyn-cancel.c\<close>, \<open>src/mi/dyn-info-list.c\<close>): a doubly linked list through the entries
  themselves, which \<open>local_find_proc_info\<close> (\<open>src/mi/Gfind_dynamic_proc_info.c\<close>) walks. Both
  operations hold the lock of the list while they change it; cancelling clears the links of the entry
  itself after that.
\<close>

section \<open>The list\<close>

text \<open>
  The entries in the memory of the process by their addresses, with the two links; the list with the
  number of its changes. The null pointer is 0.
\<close>

record dyn_node =
  nd_info :: unw_dyn_info
  nd_next :: unw_word
  nd_prev :: unw_word

record unw_dyn_info_list =
  dl_nodes :: "unw_word \<Rightarrow> dyn_node option"
  dl_generation :: "32 word"
  dl_first :: unw_word

definition node_get :: "unw_dyn_info_list \<Rightarrow> unw_word \<Rightarrow> dyn_node res" where
  "node_get l di = (if di = 0 then Inl Out_of_bounds else case dl_nodes l di of None \<Rightarrow> Inl Out_of_bounds | Some n \<Rightarrow> Inr n)"

definition node_upd :: "unw_dyn_info_list \<Rightarrow> unw_word \<Rightarrow> (dyn_node \<Rightarrow> dyn_node) \<Rightarrow> unw_dyn_info_list res" where
  "node_upd l di f = rbind (node_get l di) (\<lambda>n. Inr (l\<lparr>dl_nodes := (dl_nodes l)(di \<mapsto> f n)\<rparr>))"

definition U_dyn_register :: "unw_dyn_info_list \<Rightarrow> unw_word \<Rightarrow> unw_dyn_info_list res" where
  "U_dyn_register l di =
     (let l = l\<lparr>dl_generation := dl_generation l + 1\<rparr> in
      rbind (node_upd l di (nd_next_update (\<lambda>_. dl_first l))) (\<lambda>l.
      rbind (node_upd l di (nd_prev_update (\<lambda>_. 0))) (\<lambda>l.
      rbind (node_get l di) (\<lambda>n.
      rbind (if nd_next n \<noteq> 0 then node_upd l (nd_next n) (nd_prev_update (\<lambda>_. di)) else Inr l) (\<lambda>l.
      Inr (l\<lparr>dl_first := di\<rparr>))))))"

definition U_dyn_cancel :: "unw_dyn_info_list \<Rightarrow> unw_word \<Rightarrow> unw_dyn_info_list res" where
  "U_dyn_cancel l di =
     (let l = l\<lparr>dl_generation := dl_generation l + 1\<rparr> in
      rbind (node_get l di) (\<lambda>n.
      rbind (if nd_prev n \<noteq> 0 then node_upd l (nd_prev n) (nd_next_update (\<lambda>_. nd_next n))
             else Inr (l\<lparr>dl_first := nd_next n\<rparr>)) (\<lambda>l.
      rbind (node_get l di) (\<lambda>n.
      rbind (if nd_next n \<noteq> 0 then node_upd l (nd_next n) (nd_prev_update (\<lambda>_. nd_prev n)) else Inr l) (\<lambda>l.
      node_upd l di (\<lambda>n. n\<lparr>nd_next := 0, nd_prev := 0\<rparr>))))))"

text \<open>The loop of \<open>local_find_proc_info\<close> over the links, without the lock.\<close>

definition find_registered_body ::
  "process \<Rightarrow> addr_space \<Rightarrow> unw_word \<Rightarrow> unw_proc_info \<Rightarrow> bool \<Rightarrow> unw_dyn_info_list \<Rightarrow> unw_word
    \<Rightarrow> (unw_word + unw_proc_info res) res" where
  "find_registered_body pr as ip pi need_unwind_info l di =
     (if di = 0 then Inr (Inr (Inl (Err UNW_ENOINFO)))
      else rbind (node_get l di) (\<lambda>n.
           if di_start_ip (nd_info n) \<le> ip \<and> ip < di_end_ip (nd_info n)
           then Inr (Inr (unwi_extract_dynamic_proc_info pr True as ip pi (nd_info n) need_unwind_info))
           else Inr (Inl (nd_next n))))"

definition find_registered ::
  "process \<Rightarrow> addr_space \<Rightarrow> unw_word \<Rightarrow> unw_proc_info \<Rightarrow> bool \<Rightarrow> unw_dyn_info_list \<Rightarrow> unw_proc_info res" where
  "find_registered pr as ip pi need_unwind_info l =
     rbind (returns (iterate (find_registered_body pr as ip pi need_unwind_info l) (dl_first l))) id"

section \<open>The entries of the list\<close>

text \<open>
  A part of the list: from the pointer \<open>a\<close>, with \<open>p\<close> before it, through the entries \<open>ds\<close> to the
  last entry \<open>q\<close> and its link \<open>b\<close>.
\<close>

fun links :: "(unw_word \<Rightarrow> dyn_node option) \<Rightarrow> unw_word \<Rightarrow> unw_word \<Rightarrow> unw_word list \<Rightarrow> unw_word \<Rightarrow> unw_word \<Rightarrow> bool" where
  "links h p a [] q b \<longleftrightarrow> q = p \<and> b = a"
| "links h p a (d # ds) q b \<longleftrightarrow> a = d \<and> d \<noteq> 0 \<and> (case h d of None \<Rightarrow> False | Some n \<Rightarrow> nd_prev n = p \<and> links h d (nd_next n) ds q b)"

lemma links_append:
  "links h p a (xs @ ys) q b \<longleftrightarrow> (\<exists>r c. links h p a xs r c \<and> links h r c ys q b)"
  by (induction xs arbitrary: p a) (auto split: option.splits)

lemma links_frame: "d \<notin> set ds \<Longrightarrow> links (h(d := n)) p a ds q b = links h p a ds q b"
  by (induction ds arbitrary: p a) (auto split: option.splits)

lemma links_last: "links h p a ds q b \<Longrightarrow> q = (if ds = [] then p else last ds)"
  by (induction ds arbitrary: p a) (auto split: option.splits)

lemma links_first: "links h p a ds q 0 \<Longrightarrow> a = (case ds of [] \<Rightarrow> 0 | d # _ \<Rightarrow> d)"
  by (cases ds) auto

lemma links_nonzero: "links h p a ds q b \<Longrightarrow> d \<in> set ds \<Longrightarrow> d \<noteq> 0 \<and> h d \<noteq> None"
  by (induction ds arbitrary: p a) (auto split: option.splits)

text \<open>Changing the link that leaves a part, and the one that points back from its start.\<close>

lemma links_set_next:
  assumes "links h p a (ds @ [d]) q b" "distinct (ds @ [d])" "h d = Some n"
  shows "links (h(d \<mapsto> n\<lparr>nd_next := c\<rparr>)) p a (ds @ [d]) d c"
  using assms by (auto simp: links_append links_frame)

lemma links_set_prev:
  assumes "links h p a (d # ds) q b" "d \<notin> set ds" "h d = Some n"
  shows "links (h(d \<mapsto> n\<lparr>nd_prev := c\<rparr>)) c d (d # ds) q b"
  using assms by (auto simp: links_frame)

section \<open>Histories\<close>

text \<open>The list holds the entries \<open>ds\<close>, the last registered one first.\<close>

definition holds :: "unw_dyn_info_list \<Rightarrow> unw_word list \<Rightarrow> bool" where
  "holds l ds \<longleftrightarrow> distinct ds \<and> (\<exists>q. links (dl_nodes l) 0 (dl_first l) ds q 0)"

definition infos :: "unw_dyn_info_list \<Rightarrow> unw_word list \<Rightarrow> unw_dyn_info list" where
  "infos l ds = map (\<lambda>d. nd_info (the (dl_nodes l d))) ds"

text \<open>The memory keeps its entries and what they say; only links change.\<close>

definition same_infos :: "unw_dyn_info_list \<Rightarrow> unw_dyn_info_list \<Rightarrow> bool" where
  "same_infos l l' \<longleftrightarrow> (\<forall>d. map_option nd_info (dl_nodes l' d) = map_option nd_info (dl_nodes l d))"

lemma register_holds:
  assumes "holds l ds" "di \<notin> set ds" "di \<noteq> 0" "dl_nodes l di = Some n"
  shows "\<exists>l'. U_dyn_register l di = Inr l' \<and> holds l' (di # ds) \<and> same_infos l l'
    \<and> dl_generation l' = dl_generation l + 1"
proof (cases ds)
  case Nil
  then show ?thesis using assms
    by (auto simp: U_dyn_register_def node_upd_def node_get_def holds_def same_infos_def)
next
  case (Cons d rest)
  then obtain q m where d: "d \<noteq> 0" "dl_first l = d" "dl_nodes l d = Some m" "nd_prev m = 0"
      "links (dl_nodes l) d (nd_next m) rest q 0" "d \<notin> set rest"
    using assms(1) by (auto simp: holds_def split: option.splits)
  then show ?thesis using assms(2-4) Cons assms(1)
    by (auto simp: U_dyn_register_def node_upd_def node_get_def holds_def links_frame same_infos_def)
qed

text \<open>The two halves of a removal: the link around the entry forwards, and the one backwards.\<close>

lemma bypass_next:
  assumes "links (dl_nodes l) 0 (dl_first l) xs p di" "distinct xs" "links (dl_nodes l) di b ys q 0"
    and "set xs \<inter> set ys = {}" "di \<notin> set xs"
  shows "\<exists>l'. (if p \<noteq> 0 then node_upd l p (nd_next_update (\<lambda>_. b)) else Inr (l\<lparr>dl_first := b\<rparr>)) = Inr l'
    \<and> links (dl_nodes l') 0 (dl_first l') xs p b \<and> links (dl_nodes l') di b ys q 0
    \<and> dl_nodes l' di = dl_nodes l di \<and> same_infos l l' \<and> dl_generation l' = dl_generation l"
proof (cases xs rule: rev_cases)
  case Nil
  then show ?thesis using assms by (auto simp: same_infos_def)
next
  case (snoc zs x)
  then have px: "p = x" using links_last [OF assms(1)] by simp
  obtain m where m: "x \<noteq> 0" "dl_nodes l x = Some m" using links_nonzero [OF assms(1), of x] snoc by auto
  have "links ((dl_nodes l)(x \<mapsto> m\<lparr>nd_next := b\<rparr>)) 0 (dl_first l) xs x b"
    using links_set_next [of "dl_nodes l" 0 "dl_first l" zs x p di m b] assms(1,2) m(2) snoc by simp
  then show ?thesis using assms(3-5) m px snoc
    by (auto simp: node_upd_def node_get_def links_frame same_infos_def)
qed

lemma bypass_prev:
  assumes "links (dl_nodes l) 0 (dl_first l) xs p b" "links (dl_nodes l) di b ys q 0"
    and "distinct ys" "set xs \<inter> set ys = {}" "di \<notin> set ys"
  shows "\<exists>l' q'. (if b \<noteq> 0 then node_upd l b (nd_prev_update (\<lambda>_. p)) else Inr l) = Inr l'
    \<and> links (dl_nodes l') 0 (dl_first l') (xs @ ys) q' 0
    \<and> dl_nodes l' di = dl_nodes l di \<and> same_infos l l' \<and> dl_generation l' = dl_generation l"
proof (cases ys)
  case Nil
  then show ?thesis using assms by (auto simp: same_infos_def)
next
  case (Cons y zs)
  then obtain m where m: "b = y" "y \<noteq> 0" "dl_nodes l y = Some m"
    using assms(2) by (auto split: option.splits)
  have behind: "links ((dl_nodes l)(y \<mapsto> m\<lparr>nd_prev := p\<rparr>)) p b ys q 0"
    using links_set_prev [of "dl_nodes l" di b y zs q 0 m p] assms(2,3) m Cons by simp
  have "links ((dl_nodes l)(y \<mapsto> m\<lparr>nd_prev := p\<rparr>)) 0 (dl_first l) xs p b"
    using assms(1,4) Cons by (simp add: links_frame)
  then have "links ((dl_nodes l)(y \<mapsto> m\<lparr>nd_prev := p\<rparr>)) 0 (dl_first l) (xs @ ys) q 0"
    using behind unfolding links_append by blast
  then show ?thesis using assms(5) m Cons
    by (auto simp: node_upd_def node_get_def same_infos_def)
qed

lemma cancel_holds:
  assumes "holds l (xs @ di # ys)"
  shows "\<exists>l'. U_dyn_cancel l di = Inr l' \<and> holds l' (xs @ ys) \<and> same_infos l l'
    \<and> dl_generation l' = dl_generation l + 1"
proof -
  let ?l = "l\<lparr>dl_generation := dl_generation l + 1\<rparr>"
  obtain p n q where parts: "links (dl_nodes ?l) 0 (dl_first ?l) xs p di" "dl_nodes ?l di = Some n" "nd_prev n = p"
      "di \<noteq> 0" "links (dl_nodes ?l) di (nd_next n) ys q 0"
    using assms by (auto simp: holds_def links_append split: option.splits)
  have d: "distinct xs" "distinct ys" "set xs \<inter> set ys = {}" "di \<notin> set xs" "di \<notin> set ys"
    using assms by (auto simp: holds_def)
  from bypass_next [OF parts(1) d(1) parts(5) d(3,4)]
  obtain l1 where l1: "(if p \<noteq> 0 then node_upd ?l p (nd_next_update (\<lambda>_. nd_next n))
        else Inr (?l\<lparr>dl_first := nd_next n\<rparr>)) = Inr l1"
      "links (dl_nodes l1) 0 (dl_first l1) xs p (nd_next n)" "links (dl_nodes l1) di (nd_next n) ys q 0"
      "dl_nodes l1 di = Some n" "same_infos ?l l1" "dl_generation l1 = dl_generation ?l"
    using parts(2) by auto
  from bypass_prev [OF l1(2,3) d(2,3,5)]
  obtain l2 q' where l2: "(if nd_next n \<noteq> 0 then node_upd l1 (nd_next n) (nd_prev_update (\<lambda>_. p)) else Inr l1) = Inr l2"
      "links (dl_nodes l2) 0 (dl_first l2) (xs @ ys) q' 0" "dl_nodes l2 di = Some n"
      "same_infos l1 l2" "dl_generation l2 = dl_generation ?l"
    using l1(4,6) by auto
  let ?l3 = "l2\<lparr>dl_nodes := (dl_nodes l2)(di \<mapsto> n\<lparr>nd_next := 0, nd_prev := 0\<rparr>)\<rparr>"
  have get: "node_get l' di = Inr n" if "dl_nodes l' di = Some n" for l'
    using that parts(4) by (simp add: node_get_def)
  have "U_dyn_cancel l di = Inr ?l3"
    unfolding U_dyn_cancel_def Let_def get [OF parts(2)] rbind_simps parts(3) l1(1)
      get [OF l1(4)] l2(1)
    by (simp add: node_upd_def get [OF l2(3)])
  moreover have "holds ?l3 (xs @ ys)"
    using l2(2) d by (auto simp: holds_def links_frame)
  moreover have "same_infos l ?l3"
    using l1(4,5) l2(4) parts(2) by (simp add: same_infos_def)
  ultimately show ?thesis using l2(5) by auto
qed

text \<open>The walk over the links is the search of the list of the entries' contents.\<close>

lemma find_registered_links:
  assumes "links (dl_nodes l) p a ds q 0"
  shows "rbind (returns (iterate (find_registered_body pr as ip pi need l) a)) id
    = local_find_proc_info pr as ip pi (infos l ds) need"
  using assms
proof (induction ds arbitrary: p a)
  case Nil
  then show ?case by (simp add: iterate_end find_registered_body_def infos_def)
next
  case (Cons d ds)
  then obtain n where n: "a = d" "d \<noteq> 0" "dl_nodes l d = Some n" "links (dl_nodes l) d (nd_next n) ds q 0"
    by (auto split: option.splits)
  then show ?case using Cons.IH [OF n(4)]
    by (cases "di_start_ip (nd_info n) \<le> ip \<and> ip < di_end_ip (nd_info n)")
      (auto simp: iterate_end iterate_next find_registered_body_def node_get_def infos_def)
qed

lemma find_registered_holds:
  "holds l ds \<Longrightarrow> find_registered pr as ip pi need l = local_find_proc_info pr as ip pi (infos l ds) need"
  unfolding holds_def find_registered_def using find_registered_links by blast

lemma same_infos_infos: "same_infos l l' \<Longrightarrow> \<forall>d \<in> set ds. dl_nodes l d \<noteq> None \<Longrightarrow> infos l' ds = infos l ds"
  unfolding infos_def same_infos_def
  by (rule map_cong) (auto, metis option.map_sel option.map_disc_iff option.distinct(1))

end
