(* ===== verification/DynRegisterProps.thy ===== *)
theory DynRegisterProps
  imports DynRegister DynProps
begin

text \<open>
  The properties of the list of registered information of a process, over all sequences of
  registrations and cancellations.
\<close>

text \<open>
  The histories of the list: an entry that is in memory and not in the list is registered, an entry of
  the list is cancelled. \<open>ds\<close> are the registered entries.
\<close>

inductive registry :: "unw_dyn_info_list \<Rightarrow> unw_dyn_info_list \<Rightarrow> unw_word list \<Rightarrow> bool" for l0 where
  start: "dl_first l0 = 0 \<Longrightarrow> registry l0 l0 []"
| register: "registry l0 l ds \<Longrightarrow> di \<notin> set ds \<Longrightarrow> di \<noteq> 0 \<Longrightarrow> dl_nodes l0 di \<noteq> None \<Longrightarrow> U_dyn_register l di = Inr l'
    \<Longrightarrow> registry l0 l' (di # ds)"
| cancel: "registry l0 l ds \<Longrightarrow> di \<in> set ds \<Longrightarrow> U_dyn_cancel l di = Inr l' \<Longrightarrow> registry l0 l' (remove1 di ds)"

lemma same_infos_refl [simp]: "same_infos l l"
  by (simp add: same_infos_def)

lemma same_infos_trans: "same_infos l l' \<Longrightarrow> same_infos l' l'' \<Longrightarrow> same_infos l l''"
  by (simp add: same_infos_def)

lemma same_infos_None: "same_infos l l' \<Longrightarrow> dl_nodes l' d = None \<longleftrightarrow> dl_nodes l d = None"
  unfolding same_infos_def by (metis option.map_disc_iff)

lemma registry_register:
  assumes "holds l ds" "same_infos l0 l" "di \<notin> set ds" "di \<noteq> 0" "dl_nodes l0 di \<noteq> None"
  shows "\<exists>l'. U_dyn_register l di = Inr l' \<and> holds l' (di # ds) \<and> same_infos l0 l'"
proof -
  obtain n where "dl_nodes l di = Some n" using assms(5) same_infos_None [OF assms(2), of di] by auto
  then show ?thesis using register_holds [OF assms(1,3,4)] same_infos_trans [OF assms(2)] by blast
qed

lemma registry_cancel:
  assumes "holds l ds" "same_infos l0 l" "di \<in> set ds"
  shows "\<exists>l'. U_dyn_cancel l di = Inr l' \<and> holds l' (remove1 di ds) \<and> same_infos l0 l'"
proof -
  obtain xs ys where ds: "ds = xs @ di # ys" "di \<notin> set xs" using split_list_first [OF assms(3)] by blast
  then have "remove1 di ds = xs @ ys" by (simp add: remove1_append)
  then show ?thesis using cancel_holds [of l xs di ys] assms(1) ds(1) same_infos_trans [OF assms(2)] by auto
qed

lemma registry_holds: "registry l0 l ds \<Longrightarrow> holds l ds \<and> same_infos l0 l \<and> (\<forall>d \<in> set ds. dl_nodes l0 d \<noteq> None)"
proof (induction rule: registry.induct)
  case start
  then show ?case by (auto simp: holds_def)
next
  case (register l ds di l')
  then show ?case using registry_register [of l ds l0 di] by auto
next
  case (cancel l ds di l')
  then show ?case using registry_cancel [of l ds l0 di] notin_set_remove1 by fastforce
qed

text \<open>C28. After any sequence of registrations and cancellations, walking the links finds what a search of the
  abstract list finds, in which registering puts an entry in front and cancelling takes it out;
  registering an entry that is not in the list and cancelling one that is always succeed, and both
  keep what the entries say.\<close>

theorem registered_list_refines:
  assumes "registry l0 l ds"
  shows "find_registered pr as ip pi need l = local_find_proc_info pr as ip pi (infos l0 ds) need
    \<and> (di \<notin> set ds \<longrightarrow> di \<noteq> 0 \<longrightarrow> dl_nodes l0 di \<noteq> None \<longrightarrow>
         (\<exists>l'. U_dyn_register l di = Inr l' \<and> registry l0 l' (di # ds)))
    \<and> (di \<in> set ds \<longrightarrow> (\<exists>l'. U_dyn_cancel l di = Inr l' \<and> registry l0 l' (remove1 di ds)))"
proof -
  have h: "holds l ds" "same_infos l0 l" "\<forall>d \<in> set ds. dl_nodes l0 d \<noteq> None"
    using registry_holds [OF assms] by simp_all
  have "infos l ds = infos l0 ds" by (rule same_infos_infos [OF h(2,3)])
  then show ?thesis
    using find_registered_holds [OF h(1)] registry_register [OF h(1,2)] registry_cancel [OF h(1,2)]
      registry.register [OF assms] registry.cancel [OF assms] by metis
qed

text \<open>Three entries are registered and the middle one is cancelled; the other two stay.\<close>

definition blank_nodes :: unw_dyn_info_list where
  "blank_nodes = \<lparr>dl_nodes = (\<lambda>a. if a \<in> {0x100, 0x200, 0x300}
     then Some \<lparr>nd_info = zero_di\<lparr>di_start_ip := a, di_end_ip := a + 0x10\<rparr>, nd_next = 0, nd_prev = 0\<rparr> else None),
     dl_generation = 0, dl_first = 0\<rparr>"

theorem registered_list_refines_witness:
  "\<exists>l. registry blank_nodes l [0x300, 0x100]
    \<and> (\<forall>pr as ip pi need. find_registered pr as ip pi need l = local_find_proc_info pr as ip pi
        [zero_di\<lparr>di_start_ip := 0x300, di_end_ip := 0x310\<rparr>, zero_di\<lparr>di_start_ip := 0x100, di_end_ip := 0x110\<rparr>] need)"
proof -
  note ops = registered_list_refines [of blank_nodes, THEN conjunct2]
  have "registry blank_nodes blank_nodes []" by (rule registry.start) (simp add: blank_nodes_def)
  from ops [OF this, of "0x100"] obtain l1 where "registry blank_nodes l1 [0x100]" by (auto simp: blank_nodes_def)
  from ops [OF this, of "0x200"] obtain l2 where "registry blank_nodes l2 [0x200, 0x100]" by (auto simp: blank_nodes_def)
  from ops [OF this, of "0x300"] obtain l3 where "registry blank_nodes l3 [0x300, 0x200, 0x100]" by (auto simp: blank_nodes_def)
  from ops [OF this, of "0x200"] obtain l4 where l4: "registry blank_nodes l4 [0x300, 0x100]" by auto
  from registered_list_refines [OF l4, THEN conjunct1] l4 show ?thesis
    by (auto simp: infos_def blank_nodes_def)
qed

section \<open>Where the list is not protected\<close>

text \<open>Cancelling an entry that is not in the list (a second time, say) empties the list.\<close>

lemma cancel_twice_loses_list:
  assumes "di \<noteq> 0" "dl_nodes l di = Some n" "nd_next n = 0" "nd_prev n = 0"
  shows "\<exists>l'. U_dyn_cancel l di = Inr l' \<and> dl_first l' = 0"
  using assms by (simp add: U_dyn_cancel_def node_get_def node_upd_def)

text \<open>
  The search takes no lock. When it has come to an entry that does not cover the address and the entry
  is cancelled before the search reads the link, the search ends without looking at the entries behind.
\<close>

lemma cancel_ends_search:
  assumes "U_dyn_cancel l di = Inr l'" "dl_nodes l' di = Some n"
    and "\<not> (di_start_ip (nd_info n) \<le> ip \<and> ip < di_end_ip (nd_info n))"
  shows "rbind (returns (iterate (find_registered_body pr as ip pi need l') di)) id = Inl (Err UNW_ENOINFO)"
proof -
  have "di \<noteq> 0" "nd_next n = 0"
    using assms(1,2) by (auto simp: U_dyn_cancel_def Let_def res_iff node_upd_def node_get_def split: if_splits option.splits)
  then show ?thesis using assms(2,3)
    by (auto simp: iterate_next [of _ di 0] iterate_end find_registered_body_def node_get_def)
qed

end
