(* ===== verification/ArmEx.thy ===== *)
theory ArmEx
  imports DwarfTypes
begin

text \<open>
  Unwinding by the exception tables of 32-bit ARM (\<open>src/arm/Gex_tables.c\<close>, \<open>src/arm/Gstep.c\<close>,
  \<open>include/tdep-arm\<close>), in the library that supports remote unwinding: the search of the index, the
  extraction of the unwind instructions of a function, their interpreter and the step with them.
\<close>

type_synonym arm_word = "32 word"

section \<open>The cursor\<close>

text \<open>A location is a value and whether it names a register; the null location is the memory at 0.\<close>

record arm_loc =
  al_val :: arm_word
  al_reg :: bool

abbreviation arm_mem_loc :: "arm_word \<Rightarrow> arm_loc" where
  "arm_mem_loc a \<equiv> \<lparr>al_val = a, al_reg = False\<rparr>"

definition arm_null_loc :: arm_loc where
  "arm_null_loc = \<lparr>al_val = 0, al_reg = False\<rparr>"

text \<open>The accessors of the target for reading.\<close>

record arm_space =
  arm_access_mem :: "arm_word \<Rightarrow> unw_error + arm_word"
  arm_access_reg :: "arm_word \<Rightarrow> unw_error + arm_word"

record arm_proc_info =
  ap_start_ip :: arm_word
  ap_end_ip :: arm_word
  ap_lsda :: arm_word
  ap_handler :: arm_word
  ap_format :: unw_dyn_info_format
  ap_unwind_info :: arm_word

record arm_cursor =
  ac_as :: arm_space
  ac_loc :: "arm_loc list"
  ac_cfa :: arm_word
  ac_ip :: arm_word
  ac_use_prev_instr :: bool
  ac_pi_valid :: bool
  ac_pi :: arm_proc_info

abbreviation (input) UNW_ARM_R0 :: nat where "UNW_ARM_R0 \<equiv> 0"
abbreviation (input) UNW_ARM_R13 :: nat where "UNW_ARM_R13 \<equiv> 13"
abbreviation (input) UNW_ARM_R14 :: nat where "UNW_ARM_R14 \<equiv> 14"
abbreviation (input) UNW_ARM_R15 :: nat where "UNW_ARM_R15 \<equiv> 15"
abbreviation (input) UNW_ARM_S0 :: nat where "UNW_ARM_S0 \<equiv> 64"
abbreviation (input) ARM_NUM_PRESERVED_REGS :: nat where "ARM_NUM_PRESERVED_REGS \<equiv> 128"

definition arm_get :: "arm_cursor \<Rightarrow> arm_loc \<Rightarrow> arm_word res" where
  "arm_get c l =
     (if l = arm_null_loc then Inl (Err UNW_EBADREG)
      else if al_reg l then lift_acc (arm_access_reg (ac_as c) (al_val l))
      else lift_acc (arm_access_mem (ac_as c) (al_val l)))"

text \<open>A read whose failure is ignored leaves the variable as it was.\<close>

definition arm_get_or :: "arm_cursor \<Rightarrow> arm_loc \<Rightarrow> arm_word \<Rightarrow> arm_word" where
  "arm_get_or c l old = (case arm_get c l of Inl _ \<Rightarrow> old | Inr v \<Rightarrow> v)"

definition arm_loc_at :: "arm_cursor \<Rightarrow> nat \<Rightarrow> arm_loc res" where
  "arm_loc_at c r = arr_get (ac_loc c) r"

definition arm_set_loc :: "arm_cursor \<Rightarrow> nat \<Rightarrow> arm_loc \<Rightarrow> arm_cursor res" where
  "arm_set_loc c r l = rbind (arr_set (ac_loc c) r l) (\<lambda>ls. Inr (c\<lparr>ac_loc := ls\<rparr>))"

section \<open>Commands\<close>

datatype arm_exbuf_cmd =
    ARM_EXIDX_CMD_FINISH | ARM_EXIDX_CMD_DATA_PUSH | ARM_EXIDX_CMD_DATA_POP | ARM_EXIDX_CMD_REG_POP
  | ARM_EXIDX_CMD_REG_TO_SP | ARM_EXIDX_CMD_VFP_POP | ARM_EXIDX_CMD_WREG_POP | ARM_EXIDX_CMD_WCGR_POP
  | ARM_EXIDX_CMD_RESERVED | ARM_EXIDX_CMD_REFUSED

record arm_exbuf_data =
  ed_cmd :: arm_exbuf_cmd
  ed_data :: arm_word

abbreviation (input) ARM_EXIDX_VFP_SHIFT_16 :: arm_word where "ARM_EXIDX_VFP_SHIFT_16 \<equiv> 2 ^ 16"
abbreviation (input) ARM_EXIDX_VFP_DOUBLE :: arm_word where "ARM_EXIDX_VFP_DOUBLE \<equiv> 2 ^ 17"

definition ARM_EXBUF_START :: "arm_word \<Rightarrow> nat" where
  "ARM_EXBUF_START x = unat (drop_bit 4 x AND 0x0f)"

definition ARM_EXBUF_COUNT :: "arm_word \<Rightarrow> nat" where
  "ARM_EXBUF_COUNT x = unat (x AND 0x0f)"

definition ARM_EXBUF_END :: "arm_word \<Rightarrow> nat" where
  "ARM_EXBUF_END x = ARM_EXBUF_START x + ARM_EXBUF_COUNT x"

text \<open>The loops over registers: each is found at the virtual stack pointer, which moves behind it.\<close>

fun pop_regs :: "nat list \<Rightarrow> arm_word \<Rightarrow> arm_cursor \<Rightarrow> arm_cursor res" where
  "pop_regs [] n c = Inr c"
| "pop_regs (r # rs) n c =
     rbind (arm_set_loc c r (arm_mem_loc (ac_cfa c))) (\<lambda>c. pop_regs rs n (c\<lparr>ac_cfa := ac_cfa c + n\<rparr>))"

definition regs_of_mask :: "arm_word \<Rightarrow> nat list" where
  "regs_of_mask data = [i \<leftarrow> [0..<16]. bit data i]"

definition arm_exidx_apply_cmd :: "arm_exbuf_data \<Rightarrow> arm_cursor \<Rightarrow> (arm_cursor \<times> (unw_error + unit)) res" where
  "arm_exidx_apply_cmd edata c =
     (let data = ed_data edata; ok = (\<lambda>c. Inr (c, Inr ()));
          regs = [ARM_EXBUF_START data..<ARM_EXBUF_END data + 1] in
      case ed_cmd edata of
        ARM_EXIDX_CMD_FINISH \<Rightarrow>
          rbind (arm_loc_at c UNW_ARM_R15) (\<lambda>pc.
          rbind (if pc = arm_null_loc
                 then rbind (arm_loc_at c UNW_ARM_R14) (arm_set_loc c UNW_ARM_R15) else Inr c) (\<lambda>c.
          rbind (arm_loc_at c UNW_ARM_R15) (\<lambda>pc. ok (c\<lparr>ac_ip := arm_get_or c pc (ac_ip c)\<rparr>))))
      | ARM_EXIDX_CMD_DATA_PUSH \<Rightarrow> ok (c\<lparr>ac_cfa := ac_cfa c - data\<rparr>)
      | ARM_EXIDX_CMD_DATA_POP \<Rightarrow> ok (c\<lparr>ac_cfa := ac_cfa c + data\<rparr>)
      | ARM_EXIDX_CMD_REG_POP \<Rightarrow>
          rbind (pop_regs (map ((+) UNW_ARM_R0) (regs_of_mask data)) 4 c) (\<lambda>c.
          if bit data 13
          then rbind (arm_loc_at c UNW_ARM_R13) (\<lambda>sp. ok (c\<lparr>ac_cfa := arm_get_or c sp (ac_cfa c)\<rparr>))
          else ok c)
      | ARM_EXIDX_CMD_REG_TO_SP \<Rightarrow>
          if \<not> data < 16 then Inl Aborted
          else rbind (arm_loc_at c (UNW_ARM_R0 + unat data)) (\<lambda>l.
               rbind (arm_set_loc c UNW_ARM_R13 l) (\<lambda>c. ok (c\<lparr>ac_cfa := arm_get_or c l (ac_cfa c)\<rparr>)))
      | ARM_EXIDX_CMD_VFP_POP \<Rightarrow>
          rbind (pop_regs (map ((+) UNW_ARM_S0) regs) 8 c) (\<lambda>c.
          ok (if data AND ARM_EXIDX_VFP_DOUBLE = 0 then c\<lparr>ac_cfa := ac_cfa c + 4\<rparr> else c))
      | ARM_EXIDX_CMD_WREG_POP \<Rightarrow> ok (c\<lparr>ac_cfa := foldl (\<lambda>cfa i. cfa + 8) (ac_cfa c) regs\<rparr>)
      | ARM_EXIDX_CMD_WCGR_POP \<Rightarrow>
          ok (c\<lparr>ac_cfa := foldl (\<lambda>cfa i. if bit data i then cfa + 4 else cfa) (ac_cfa c) [0..<4]\<rparr>)
      | ARM_EXIDX_CMD_REFUSED \<Rightarrow> Inr (c, Inl UNW_EUNSPEC)
      | ARM_EXIDX_CMD_RESERVED \<Rightarrow> Inr (c, Inl UNW_EUNSPEC))"

section \<open>Decoding\<close>

text \<open>
  The operand of \<open>0xb2\<close>. A byte shifted beyond the sign bit of \<open>int\<close> is undefined.
\<close>

definition uleb_operand_body ::
  "8 word list \<Rightarrow> nat \<times> arm_word \<times> nat \<Rightarrow> (nat \<times> arm_word \<times> nat + nat \<times> arm_word) res" where
  "uleb_operand_body buf = (\<lambda>(i, offset, shift).
     rbind (arr_get buf i) (\<lambda>byte.
     if shift \<ge> 32 \<or> unat (byte AND 0x7f) * 2 ^ shift \<ge> 2 ^ 31 then Inl Bad_shift
     else
       let offset = offset OR push_bit shift (ucast (byte AND 0x7f)) in
       if byte AND 0x80 \<noteq> 0 then Inr (Inl (i + 1, offset, shift + 7)) else Inr (Inr (i + 1, offset))))"

text \<open>
  One instruction from the byte \<open>i\<close> of the buffer on, with the index behind it; \<open>n\<close> is the number of
  bytes to decode. A command without data leaves the data of the one before, which it does not use.
\<close>

definition exbuf :: "arm_exbuf_cmd \<Rightarrow> arm_word \<Rightarrow> arm_exbuf_data" where
  "exbuf cmd data = \<lparr>ed_cmd = cmd, ed_data = data\<rparr>"

definition decode_pop :: "8 word list \<Rightarrow> nat \<Rightarrow> 8 word \<Rightarrow> nat \<Rightarrow> (arm_exbuf_data \<times> nat) res" where
  "decode_pop buf n op i =
     (let reserved = exbuf ARM_EXIDX_CMD_RESERVED 0 in
      if op = 0xb0 then Inr (exbuf ARM_EXIDX_CMD_FINISH 0, n)
      else if op = 0xb1 then
        rbind (arr_get buf i) (\<lambda>op2.
        Inr (if op2 = 0 \<or> op2 AND 0xf0 \<noteq> 0 then reserved
             else exbuf ARM_EXIDX_CMD_REG_POP (ucast (op2 AND 0x0f)), i + 1))
      else if op = 0xb2 then
        rbind (returns (iterate (uleb_operand_body buf) (i, 0, 0))) (\<lambda>(i, offset).
        Inr (exbuf ARM_EXIDX_CMD_DATA_POP (offset * 4 + 0x204), i))
      else if op = 0xb3 \<or> op = 0xc8 \<or> op = 0xc9 then
        rbind (arr_get buf i) (\<lambda>op2.
        let data = ucast op2; data = (if op = 0xc8 then data OR ARM_EXIDX_VFP_SHIFT_16 else data);
            data = (if op \<noteq> 0xb3 then data OR ARM_EXIDX_VFP_DOUBLE else data) in
        Inr (exbuf ARM_EXIDX_CMD_VFP_POP data, i + 1))
      else if op AND 0xf8 = 0xb8 \<or> op AND 0xf8 = 0xd0 then
        let data = 0x80 OR ucast (op AND 0x07) in
        Inr (exbuf ARM_EXIDX_CMD_VFP_POP (if op AND 0xf8 = 0xd0 then data OR ARM_EXIDX_VFP_DOUBLE else data), i)
      else if op \<ge> 0xc0 \<and> op \<le> 0xc5 then Inr (exbuf ARM_EXIDX_CMD_WREG_POP (0xa0 OR ucast (op AND 0x07)), i)
      else if op = 0xc6 then
        rbind (arr_get buf i) (\<lambda>op2. Inr (exbuf ARM_EXIDX_CMD_WREG_POP (ucast op2), i + 1))
      else if op = 0xc7 then
        rbind (arr_get buf i) (\<lambda>op2.
        Inr (if op2 = 0 \<or> op2 AND 0xf0 \<noteq> 0 then reserved
             else exbuf ARM_EXIDX_CMD_WCGR_POP (ucast (op2 AND 0x0f)), i + 1))
      else Inr (reserved, i))"

definition decode_insn :: "8 word list \<Rightarrow> nat \<Rightarrow> nat \<Rightarrow> (arm_exbuf_data \<times> nat) res" where
  "decode_insn buf n i =
     rbind (arr_get buf i) (\<lambda>op.
     let i = i + 1 in
     if op AND 0xc0 = 0x00 then Inr (exbuf ARM_EXIDX_CMD_DATA_POP (push_bit 2 (ucast op AND 0x3f) + 4), i)
     else if op AND 0xc0 = 0x40 then Inr (exbuf ARM_EXIDX_CMD_DATA_PUSH (push_bit 2 (ucast op AND 0x3f) + 4), i)
     else if op AND 0xf0 = 0x80 then
       rbind (arr_get buf i) (\<lambda>op2.
       Inr (if op = 0x80 \<and> op2 = 0x00 then exbuf ARM_EXIDX_CMD_REFUSED 0
            else exbuf ARM_EXIDX_CMD_REG_POP (push_bit 4 (push_bit 8 (ucast op AND 0xf) OR ucast op2)), i + 1))
     else if op AND 0xf0 = 0x90 then
       Inr (if op = 0x9d \<or> op = 0x9f then exbuf ARM_EXIDX_CMD_RESERVED 0
            else exbuf ARM_EXIDX_CMD_REG_TO_SP (ucast (op AND 0x0f)), i)
     else if op AND 0xf0 = 0xa0 then
       let data = push_bit 4 (push_bit (unat (op AND 0x07) + 1) 1 - 1) in
       Inr (exbuf ARM_EXIDX_CMD_REG_POP (if op AND 0x08 \<noteq> 0 then data OR push_bit 14 1 else data), i)
     else decode_pop buf n op i)"

definition decode_body ::
  "8 word list \<Rightarrow> nat \<Rightarrow> nat \<times> arm_cursor \<Rightarrow> (nat \<times> arm_cursor + arm_cursor \<times> (unw_error + unit)) res" where
  "decode_body buf n = (\<lambda>(i, c).
     if \<not> i < n then Inr (Inr (c, Inr ()))
     else
       rbind (decode_insn buf n i) (\<lambda>(edata, i).
       rbind (arm_exidx_apply_cmd edata c) (\<lambda>(c, ret).
       Inr (case ret of Inl e \<Rightarrow> Inr (c, Inl e) | Inr u \<Rightarrow> Inl (i, c)))))"

definition arm_exidx_decode :: "8 word list \<Rightarrow> nat \<Rightarrow> arm_cursor \<Rightarrow> (arm_cursor \<times> (unw_error + unit)) res" where
  "arm_exidx_decode buf n c =
     (if n = 0 then Inl Aborted else returns (iterate (decode_body buf n) (0, c)))"

end
