(* ===== verification/ArmTable.thy ===== *)
theory ArmTable
  imports ArmEx
begin

text \<open>
  The exception tables of 32-bit ARM: extracting the unwind instructions of a function, searching the
  index for an address, finding the index of a loaded object (\<open>src/arm/Gex_tables.c\<close>), and the step of
  a cursor with them (\<open>src/arm/Gstep.c\<close>).
\<close>

section \<open>Extracting the instructions\<close>

abbreviation (input) ARM_EXIDX_CANT_UNWIND :: arm_word where "ARM_EXIDX_CANT_UNWIND \<equiv> 1"
abbreviation (input) ARM_EXIDX_COMPACT :: arm_word where "ARM_EXIDX_COMPACT \<equiv> 0x80000000"
abbreviation (input) ARM_EXTBL_OP_FINISH :: "8 word" where "ARM_EXTBL_OP_FINISH \<equiv> 0xb0"

text \<open>An offset of 31 bits relative to its own address. Every failure of an access is \<open>UNW_EINVAL\<close>.\<close>

definition arm_read :: "arm_space \<Rightarrow> arm_word \<Rightarrow> arm_word res" where
  "arm_read as a = (case arm_access_mem as a of Inl _ \<Rightarrow> Inl (Err UNW_EINVAL) | Inr v \<Rightarrow> Inr v)"

definition prel31_to_addr :: "arm_space \<Rightarrow> arm_word \<Rightarrow> arm_word res" where
  "prel31_to_addr as prel31 =
     rbind (arm_read as prel31) (\<lambda>offset. Inr (prel31 + signed_drop_bit 1 (push_bit 1 offset)))"

text \<open>The low bytes of a word, the highest first.\<close>

definition low_bytes :: "nat \<Rightarrow> arm_word \<Rightarrow> 8 word list" where
  "low_bytes n data = map (\<lambda>i. ucast (drop_bit (8 * i) data)) (rev [0..<n])"

fun read_table_words :: "arm_space \<Rightarrow> arm_word \<Rightarrow> nat \<Rightarrow> 8 word list res" where
  "read_table_words as addr 0 = Inr []"
| "read_table_words as addr (Suc n) =
     rbind (arm_read as addr) (\<lambda>data.
     rbind (read_table_words as (addr + 4) n) (\<lambda>bytes. Inr (low_bytes 4 data @ bytes)))"

definition add_finish :: "8 word list \<Rightarrow> 8 word list" where
  "add_finish buf = (if buf \<noteq> [] \<and> last buf \<noteq> ARM_EXTBL_OP_FINISH then buf @ [ARM_EXTBL_OP_FINISH] else buf)"

text \<open>The bytes that \<open>arm_exidx_extract\<close> writes to the buffer of its caller.\<close>

definition extract_table :: "arm_space \<Rightarrow> arm_word \<Rightarrow> 8 word list res" where
  "extract_table as entry =
     rbind (prel31_to_addr as (entry + 4)) (\<lambda>extbl_data.
     rbind (arm_read as extbl_data) (\<lambda>data.
     rbind (if data AND ARM_EXIDX_COMPACT \<noteq> 0 then
              (let pers = unat (drop_bit 24 data AND 0x0f) in
               Inr (if pers = 1 \<or> pers = 2
                    then (low_bytes 2 data, unat (drop_bit 16 data AND 0xff), extbl_data + 4)
                    else (low_bytes 3 data, 0, extbl_data)))
            else
              rbind (prel31_to_addr as extbl_data) (\<lambda>_.
              rbind (arm_read as (extbl_data + 4)) (\<lambda>data.
              Inr (low_bytes 3 data, unat (drop_bit 24 data), extbl_data + 8)))) (\<lambda>(buf, n_table_words, extbl_data).
     if \<not> n_table_words \<le> 5 then Inl Aborted
     else rbind (read_table_words as extbl_data n_table_words) (\<lambda>bytes. Inr (buf @ bytes)))))"

definition arm_exidx_extract :: "arm_cursor \<Rightarrow> 8 word list res" where
  "arm_exidx_extract c =
     (let as = ac_as c; entry = ap_unwind_info (ac_pi c) in
      rbind (prel31_to_addr as entry) (\<lambda>addr.
      rbind (arm_read as (entry + 4)) (\<lambda>data.
      if data = ARM_EXIDX_CANT_UNWIND then Inl (Err UNW_ESTOPUNWIND)
      else
        rbind (if data AND ARM_EXIDX_COMPACT \<noteq> 0 then Inr (low_bytes 3 data) else extract_table as entry) (\<lambda>buf.
        Inr (add_finish buf)))))"

section \<open>Searching the index\<close>

record arm_di =
  ad_start_ip :: arm_word
  ad_end_ip :: arm_word
  ad_format :: "unw_dyn_info_format option"
  ad_table_data :: arm_word
  ad_table_len :: arm_word

definition search_body ::
  "arm_space \<Rightarrow> arm_word \<Rightarrow> arm_word \<times> arm_word \<Rightarrow> (arm_word \<times> arm_word + arm_word) res" where
  "search_body as ip = (\<lambda>(first, last).
     if \<not> first < last - 8 then Inr (Inr first)
     else
       let entry = first + drop_bit 1 ((last - first) div 8 + 1) * 8 in
       rbind (prel31_to_addr as entry) (\<lambda>val. Inr (Inl (if ip < val then (first, entry) else (entry, last)))))"

text \<open>The personality routine of an entry that has its own, and the data behind it.\<close>

definition arm_handler :: "arm_space \<Rightarrow> arm_word \<Rightarrow> arm_proc_info \<Rightarrow> arm_proc_info" where
  "arm_handler as entry pi =
     (case arm_access_mem as (entry + 4) of
        Inl _ \<Rightarrow> pi
      | Inr data \<Rightarrow>
          if data = ARM_EXIDX_CANT_UNWIND \<or> data AND ARM_EXIDX_COMPACT \<noteq> 0 then pi
          else
            (case prel31_to_addr as (entry + 4) of
               Inl _ \<Rightarrow> pi
             | Inr extbl_data \<Rightarrow>
                 (case arm_access_mem as extbl_data of
                    Inl _ \<Rightarrow> pi
                  | Inr extbl_word0 \<Rightarrow>
                      if extbl_word0 AND ARM_EXIDX_COMPACT \<noteq> 0 then pi
                      else (case prel31_to_addr as extbl_data of
                              Inl _ \<Rightarrow> pi\<lparr>ap_lsda := extbl_data\<rparr>
                            | Inr pers \<Rightarrow> pi\<lparr>ap_handler := pers, ap_lsda := extbl_data\<rparr>))))"

definition arm_search_unwind_table ::
  "arm_space \<Rightarrow> arm_word \<Rightarrow> arm_di \<Rightarrow> arm_proc_info \<Rightarrow> bool \<Rightarrow> arm_proc_info res" where
  "arm_search_unwind_table as ip di pi need_unwind_info =
     (let first = ad_table_data di; last = ad_table_data di + ad_table_len di - 8 in
      case prel31_to_addr as first of
        Inl _ \<Rightarrow> Inl (Err UNW_ENOINFO)
      | Inr val \<Rightarrow>
          if ip < val then Inl (Err UNW_ENOINFO)
          else
            rbind (prel31_to_addr as last) (\<lambda>val.
            rbind (if ip \<ge> val
                   then rbind (prel31_to_addr as last) (\<lambda>start. Inr (last, start, ad_end_ip di - 1))
                   else
                     rbind (returns (iterate (search_body as ip) (first, last))) (\<lambda>entry.
                     rbind (prel31_to_addr as entry) (\<lambda>start.
                     rbind (prel31_to_addr as (entry + 8)) (\<lambda>next_start.
                     Inr (entry, start, next_start - 1))))) (\<lambda>(entry, start, stop).
            let pi = pi\<lparr>ap_start_ip := start, ap_end_ip := stop\<rparr>;
                pi = (if need_unwind_info
                      then pi\<lparr>ap_unwind_info := entry, ap_format := UNW_INFO_FORMAT_ARM_EXIDX\<rparr> else pi) in
            Inr (arm_handler as entry pi))))"

text \<open>
  \<open>tdep_search_unwind_table\<close>. The methods that the environment enables are those of the exception
  tables and of DWARF, whose search in a 32-bit target is the parameter.
\<close>

definition arm_tdep_search_unwind_table ::
  "bool \<Rightarrow> bool \<Rightarrow> (arm_di \<Rightarrow> arm_proc_info \<Rightarrow> arm_proc_info res) \<Rightarrow> arm_space \<Rightarrow> arm_word \<Rightarrow> arm_di
    \<Rightarrow> arm_proc_info \<Rightarrow> bool \<Rightarrow> arm_proc_info res" where
  "arm_tdep_search_unwind_table exidx dwarf dwarf_search as ip di pi need_unwind_info =
     (if exidx \<and> ad_format di = Some UNW_INFO_FORMAT_ARM_EXIDX
      then arm_search_unwind_table as ip di pi need_unwind_info
      else if dwarf \<and> ad_format di \<noteq> Some UNW_INFO_FORMAT_ARM_EXIDX then dwarf_search di pi
      else Inl (Err UNW_ENOINFO))"

section \<open>Loaded objects\<close>

datatype arm_segment = Arm_load | Arm_exidx | Arm_other

record arm_phdr =
  ah_type :: arm_segment
  ah_vaddr :: arm_word
  ah_memsz :: arm_word

record arm_object =
  ao_addr :: arm_word
  ao_phdr :: "arm_phdr list"

definition scan_arm_phdr ::
  "arm_word \<Rightarrow> arm_object \<Rightarrow> arm_phdr option \<times> arm_phdr option \<Rightarrow> arm_phdr \<Rightarrow> arm_phdr option \<times> arm_phdr option" where
  "scan_arm_phdr ip info = (\<lambda>(text, exidx) ph.
     case ah_type ph of
       Arm_load \<Rightarrow>
         (if ip \<ge> ah_vaddr ph + ao_addr info \<and> ip < ah_vaddr ph + ao_addr info + ah_memsz ph then Some ph else text,
          exidx)
     | Arm_exidx \<Rightarrow> (text, Some ph)
     | Arm_other \<Rightarrow> (text, exidx))"

text \<open>The callback, with whether it ends the iteration.\<close>

definition arm_phdr_cb :: "arm_word \<Rightarrow> arm_object \<Rightarrow> arm_di \<Rightarrow> arm_di \<times> bool" where
  "arm_phdr_cb ip info di =
     (case foldl (scan_arm_phdr ip info) (None, None) (ao_phdr info) of
        (Some text, Some exidx) \<Rightarrow>
          (let start = ah_vaddr text + ao_addr info in
           (\<lparr>ad_start_ip = start, ad_end_ip = start + ah_memsz text, ad_format = Some UNW_INFO_FORMAT_ARM_EXIDX,
             ad_table_data = ah_vaddr exidx + ao_addr info, ad_table_len = ah_memsz exidx\<rparr>, True))
      | _ \<Rightarrow> (di, False))"

fun arm_iterate_phdr :: "arm_word \<Rightarrow> arm_object list \<Rightarrow> arm_di \<Rightarrow> arm_di" where
  "arm_iterate_phdr ip [] di = di"
| "arm_iterate_phdr ip (info # infos) di =
     (case arm_phdr_cb ip info di of (di, found) \<Rightarrow> if found then di else arm_iterate_phdr ip infos di)"

definition no_arm_di :: arm_di where
  "no_arm_di = \<lparr>ad_start_ip = 0, ad_end_ip = 0, ad_format = None, ad_table_data = 0, ad_table_len = 0\<rparr>"

definition zero_arm_pi :: arm_proc_info where
  "zero_arm_pi = \<lparr>ap_start_ip = 0, ap_end_ip = 0, ap_lsda = 0, ap_handler = 0,
     ap_format = UNW_INFO_FORMAT_DYNAMIC, ap_unwind_info = 0\<rparr>"

text \<open>
  \<open>arm_find_proc_info2\<close>, where \<open>dwarf\<close> and \<open>exidx\<close> say which methods are both enabled and asked for,
  \<open>dwarf_find\<close> is the search by DWARF and \<open>failed_pi\<close> what it leaves when it fails.
\<close>

definition arm_find_proc_info2 ::
  "bool \<Rightarrow> bool \<Rightarrow> arm_proc_info res \<Rightarrow> arm_proc_info \<Rightarrow> arm_object list \<Rightarrow> arm_space \<Rightarrow> arm_word
    \<Rightarrow> arm_proc_info \<Rightarrow> bool \<Rightarrow> arm_proc_info res" where
  "arm_find_proc_info2 dwarf exidx dwarf_find failed_pi objects as ip pi need_unwind_info =
     (let di = arm_iterate_phdr ip objects no_arm_di in
      rbind (if dwarf then attempt dwarf_find else Inr (Inl UNW_EUNSPEC)) (\<lambda>found.
      case found of
        Inr pi \<Rightarrow>
          if ap_handler pi = 0 \<and> exidx \<and> ad_format di \<noteq> None then
            rbind (attempt (arm_search_unwind_table as ip di zero_arm_pi need_unwind_info)) (\<lambda>r.
            Inr (case r of
                   Inr exidx_pi \<Rightarrow>
                     if ap_handler exidx_pi \<noteq> 0
                     then pi\<lparr>ap_handler := ap_handler exidx_pi, ap_lsda := ap_lsda exidx_pi\<rparr> else pi
                 | Inl _ \<Rightarrow> pi))
          else Inr pi
      | Inl e \<Rightarrow>
          if exidx then
            (if ad_format di \<noteq> None
             then arm_search_unwind_table as ip di (if dwarf then failed_pi else pi) need_unwind_info
             else Inl (Err UNW_ENOINFO))
          else Inl (Err e)))"

section \<open>The step\<close>

text \<open>
  \<open>arm_exidx_step\<close>, with the cursor it leaves and whether it returns 1. \<open>lookup_pi\<close> is the search for the
  procedure, in the registered information and then by the target; \<open>stack\<close> is what the buffer on the
  stack holds.
\<close>

definition arm_exidx_step ::
  "(arm_word \<Rightarrow> arm_proc_info res) \<Rightarrow> 8 word list \<Rightarrow> arm_cursor \<Rightarrow> (arm_cursor \<times> (unw_error + bool)) res" where
  "arm_exidx_step lookup_pi stack c =
     (let old_ip = ac_ip c; old_cfa = ac_cfa c;
          ip = (if ac_use_prev_instr c then (ac_ip c AND NOT 1) - 1 else ac_ip c) in
      rbind (arm_set_loc c UNW_ARM_R15 arm_null_loc) (\<lambda>c.
      rbind (attempt (lookup_pi ip)) (\<lambda>found.
      case found of
        Inl e \<Rightarrow> Inr (c, Inl e)
      | Inr pi \<Rightarrow>
          let c = c\<lparr>ac_pi := pi\<rparr> in
          if ap_format pi \<noteq> UNW_INFO_FORMAT_ARM_EXIDX then Inr (c, Inl UNW_ENOINFO)
          else
            rbind (attempt (arm_exidx_extract c)) (\<lambda>r.
            case r of
              Inl e \<Rightarrow> Inr (c, Inl e)
            | Inr bytes \<Rightarrow>
                rbind (arm_exidx_decode (bytes @ drop (length bytes) stack) (length bytes) c) (\<lambda>(c, ret).
                case ret of
                  Inl e \<Rightarrow> Inr (c, Inl e)
                | Inr _ \<Rightarrow>
                    if ac_ip c = old_ip \<and> ac_cfa c = old_cfa then Inr (c, Inl UNW_EBADFRAME)
                    else Inr (c\<lparr>ac_pi_valid := False\<rparr>, Inr (ac_ip c \<noteq> 0)))))))"

end
