(* ===== verification/ArmLemmas.thy ===== *)
theory ArmLemmas
  imports ArmTable DwarfReadLemmas
begin

text \<open>
  The unwind instructions of the ARM exception-handling ABI with their meaning, and that decoding their
  encoding executes them.
\<close>

section \<open>Bytes\<close>

lemma unat_byte_less: "unat (b :: 8 word) < 256"
  using unsigned_less [of b, where ?'a = nat] by simp

lemma unat_drop_byte: "unat (drop_bit k (b :: 8 word)) = unat b div 2 ^ k"
  unfolding unsigned_drop_bit_eq by (simp add: drop_bit_eq_div take_bit_nat_eq_self unat_byte_less)

lemma high_bits:
  fixes b v :: "8 word"
  assumes "m = NOT (mask k)" "k < 8" "unat v < 2 ^ (8 - k)"
  shows "b AND m = push_bit k v \<longleftrightarrow> unat b div 2 ^ k = unat v"
proof -
  have "b AND m = push_bit k (drop_bit k b)"
    unfolding assms(1) by (rule bit_word_eqI) (auto simp: bit_simps)
  moreover have up: "unat (push_bit k w) = unat w * 2 ^ k" if "unat w < 2 ^ (8 - k)" for w :: "8 word"
  proof -
    have "unat w * 2 ^ k < 2 ^ (8 - k) * 2 ^ k" using that by (intro mult_strict_right_mono) auto
    then have "unat w * 2 ^ k < 2 ^ 8" using assms(2) by (simp flip: power_add)
    then show ?thesis
      unfolding unsigned_push_bit_eq by (simp add: push_bit_eq_mult take_bit_nat_eq_self unat_byte_less)
  qed
  have "unat (drop_bit k b) < 2 ^ (8 - k)"
  proof -
    have "unat b < 2 ^ (8 - k) * 2 ^ k" using unat_byte_less [of b] assms(2) by (simp flip: power_add)
    then have "unat b div 2 ^ k < 2 ^ (8 - k)" by (rule less_mult_imp_div_less)
    then show ?thesis by (simp only: unat_drop_byte)
  qed
  from up [OF this] up [OF assms(3)]
  have "push_bit k (drop_bit k b) = push_bit k v \<longleftrightarrow> drop_bit k b = v"
    by (simp add: word_unat_eq_iff)
  moreover have "drop_bit k b = v \<longleftrightarrow> unat b div 2 ^ k = unat v"
    by (simp only: word_unat_eq_iff unat_drop_byte)
  ultimately show ?thesis using \<open>push_bit k (drop_bit k b) = push_bit k v \<longleftrightarrow> drop_bit k b = v\<close> by simp
qed

lemma opcode_groups:
  fixes b :: "8 word"
  shows "b AND 0xc0 = 0 \<longleftrightarrow> unat b div 64 = 0" "b AND 0xc0 = 0x40 \<longleftrightarrow> unat b div 64 = 1"
    "b AND 0xf0 = 0x80 \<longleftrightarrow> unat b div 16 = 8" "b AND 0xf0 = 0x90 \<longleftrightarrow> unat b div 16 = 9"
    "b AND 0xf0 = 0xa0 \<longleftrightarrow> unat b div 16 = 10" "b AND 0xf0 = 0 \<longleftrightarrow> unat b div 16 = 0"
    "b AND 0xf8 = 0xb8 \<longleftrightarrow> unat b div 8 = 23" "b AND 0xf8 = 0xd0 \<longleftrightarrow> unat b div 8 = 26"
    "b AND 0x80 = 0 \<longleftrightarrow> unat b div 128 = 0"
  using high_bits [of "0xc0" 6 0 b] high_bits [of "0xc0" 6 1 b] high_bits [of "0xf0" 4 8 b] high_bits [of "0xf0" 4 9 b]
    high_bits [of "0xf0" 4 10 b] high_bits [of "0xf0" 4 0 b] high_bits [of "0xf8" 3 23 b] high_bits [of "0xf8" 3 26 b]
    high_bits [of "0x80" 7 0 b]
  by (simp_all add: mask_eq_exp_minus_1)

lemma small_and:
  fixes w :: "8 word"
  assumes "unat w < 16" shows "w AND 0xc0 = 0" "w AND 0xf0 = 0" "w AND 0x0f = w"
proof -
  show "w AND 0xc0 = 0" "w AND 0xf0 = 0" using assms by (simp_all add: opcode_groups)
  have "uint w < 16" using assms by (subst uint_nat) linarith
  then have "w AND mask 4 = w" by (simp add: mask_eq_iff)
  then show "w AND 0x0f = w" by (simp add: mask_eq_exp_minus_1)
qed

lemma ucast_nat: "n < 256 \<Longrightarrow> (ucast (word_of_nat n :: 8 word) :: arm_word) = word_of_nat n"
  by (simp add: word_unat_eq_iff unsigned_ucast_eq unsigned_of_nat take_bit_nat_eq_self)

section \<open>Instructions\<close>

text \<open>
  The instructions that move the virtual stack pointer and pop core registers: the numbers are those of
  the encoding.
\<close>

datatype ehabi =
    Add_vsp nat | Sub_vsp nat | Add_large nat | Pop_upper nat | Pop_lower nat | Pop_r4 nat bool | From_reg nat

fun ehabi_ok :: "ehabi \<Rightarrow> bool" where
  "ehabi_ok (Add_vsp n) \<longleftrightarrow> n < 64"
| "ehabi_ok (Sub_vsp n) \<longleftrightarrow> n < 64"
| "ehabi_ok (Add_large n) \<longleftrightarrow> n < 2 ^ 31"
| "ehabi_ok (Pop_upper m) \<longleftrightarrow> 0 < m \<and> m < 2 ^ 12"
| "ehabi_ok (Pop_lower m) \<longleftrightarrow> 0 < m \<and> m < 2 ^ 4"
| "ehabi_ok (Pop_r4 n lr) \<longleftrightarrow> n < 8"
| "ehabi_ok (From_reg r) \<longleftrightarrow> r < 16 \<and> r \<noteq> 13 \<and> r \<noteq> 15"

fun ehabi_bytes :: "ehabi \<Rightarrow> 8 word list" where
  "ehabi_bytes (Add_vsp n) = [word_of_nat n]"
| "ehabi_bytes (Sub_vsp n) = [0x40 OR word_of_nat n]"
| "ehabi_bytes (Add_large n) = 0xb2 # uleb_encode n"
| "ehabi_bytes (Pop_upper m) = [0x80 OR word_of_nat (m div 256), word_of_nat (m mod 256)]"
| "ehabi_bytes (Pop_lower m) = [0xb1, word_of_nat m]"
| "ehabi_bytes (Pop_r4 n lr) = [0xa0 OR (if lr then 8 else 0) OR word_of_nat n]"
| "ehabi_bytes (From_reg r) = [0x90 OR word_of_nat r]"

text \<open>
  The registers an instruction pops, which lie on the stack in the order of their numbers, and its
  effect on the cursor.
\<close>

definition mask_regs :: "(nat \<Rightarrow> bool) \<Rightarrow> nat list" where
  "mask_regs P = filter P [0..<16]"

definition saved_at :: "nat list \<Rightarrow> arm_word \<Rightarrow> nat \<Rightarrow> arm_word" where
  "saved_at rs vsp r = vsp + 4 * word_of_nat (length [x \<leftarrow> rs. x < r])"

definition popped :: "nat list \<Rightarrow> arm_cursor \<Rightarrow> arm_cursor" where
  "popped rs c = c\<lparr>ac_loc := map (\<lambda>r. if r \<in> set rs then arm_mem_loc (saved_at rs (ac_cfa c) r) else ac_loc c ! r)
       [0..<length (ac_loc c)],
     ac_cfa := (let vsp = ac_cfa c + 4 * word_of_nat (length rs) in
       if 13 \<in> set rs then arm_get_or c (arm_mem_loc (saved_at rs (ac_cfa c) 13)) vsp else vsp)\<rparr>"

fun ehabi_regs :: "ehabi \<Rightarrow> nat list" where
  "ehabi_regs (Pop_upper m) = mask_regs (\<lambda>r. 4 \<le> r \<and> bit m (r - 4))"
| "ehabi_regs (Pop_lower m) = mask_regs (\<lambda>r. r < 4 \<and> bit m r)"
| "ehabi_regs (Pop_r4 n lr) = mask_regs (\<lambda>r. 4 \<le> r \<and> r \<le> 4 + n \<or> lr \<and> r = 14)"
| "ehabi_regs _ = []"

fun ehabi_exec :: "ehabi \<Rightarrow> arm_cursor \<Rightarrow> arm_cursor" where
  "ehabi_exec (Add_vsp n) c = c\<lparr>ac_cfa := ac_cfa c + word_of_nat (4 * n + 4)\<rparr>"
| "ehabi_exec (Sub_vsp n) c = c\<lparr>ac_cfa := ac_cfa c - word_of_nat (4 * n + 4)\<rparr>"
| "ehabi_exec (Add_large n) c = c\<lparr>ac_cfa := ac_cfa c + word_of_nat (4 * n + 0x204)\<rparr>"
| "ehabi_exec (From_reg r) c = c\<lparr>ac_loc := (ac_loc c)[13 := ac_loc c ! r],
     ac_cfa := arm_get_or c (ac_loc c ! r) (ac_cfa c)\<rparr>"
| "ehabi_exec i c = popped (ehabi_regs i) c"

section \<open>Popping registers\<close>

lemma pop_regs_closed:
  assumes "sorted_wrt (<) rs" "\<forall>r \<in> set rs. r < length (ac_loc c)"
  shows "pop_regs rs 4 c = Inr (c\<lparr>ac_loc := map (\<lambda>r. if r \<in> set rs then arm_mem_loc (saved_at rs (ac_cfa c) r)
      else ac_loc c ! r) [0..<length (ac_loc c)], ac_cfa := ac_cfa c + 4 * word_of_nat (length rs)\<rparr>)"
  using assms
proof (induction rs arbitrary: c)
  case Nil
  have "map (\<lambda>r. ac_loc c ! r) [0..<length (ac_loc c)] = ac_loc c" by (rule map_nth)
  then show ?case by simp
next
  case (Cons r rs)
  let ?c = "c\<lparr>ac_loc := (ac_loc c)[r := arm_mem_loc (ac_cfa c)], ac_cfa := ac_cfa c + 4\<rparr>"
  have "pop_regs (r # rs) 4 c = pop_regs rs 4 ?c"
    using Cons.prems(2) by (simp add: arm_set_loc_def)
  also have "\<dots> = Inr (?c\<lparr>ac_loc := map (\<lambda>x. if x \<in> set rs then arm_mem_loc (saved_at rs (ac_cfa ?c) x)
      else ac_loc ?c ! x) [0..<length (ac_loc ?c)], ac_cfa := ac_cfa ?c + 4 * word_of_nat (length rs)\<rparr>)"
    using Cons.prems by (intro Cons.IH) auto
  also have "map (\<lambda>x. if x \<in> set rs then arm_mem_loc (saved_at rs (ac_cfa ?c) x) else ac_loc ?c ! x) [0..<length (ac_loc ?c)]
      = map (\<lambda>x. if x \<in> set (r # rs) then arm_mem_loc (saved_at (r # rs) (ac_cfa c) x) else ac_loc c ! x) [0..<length (ac_loc c)]"
  proof -
    have "[x \<leftarrow> rs. x < r] = []" using Cons.prems(1) by (auto simp: filter_empty_conv)
    moreover have "r < x" "r \<noteq> x" if "x \<in> set rs" for x using Cons.prems(1) that by auto
    ultimately show ?thesis by (auto simp: saved_at_def nth_list_update algebra_simps)
  qed
  finally show ?case by (simp add: algebra_simps)
qed

lemma mask_regs_simps: "sorted_wrt (<) (mask_regs P)" "r \<in> set (mask_regs P) \<longleftrightarrow> r < 16 \<and> P r"
  by (auto simp: mask_regs_def sorted_wrt_filter)

lemma apply_pop:
  assumes "\<And>r. r < 16 \<Longrightarrow> bit data r \<longleftrightarrow> P r" "length (ac_loc c) = ARM_NUM_PRESERVED_REGS"
  shows "arm_exidx_apply_cmd (exbuf ARM_EXIDX_CMD_REG_POP data) c = Inr (popped (mask_regs P) c, Inr ())"
proof -
  have rs: "map ((+) 0) (regs_of_mask data) = mask_regs P"
  proof -
    have "map ((+) 0) xs = xs" for xs :: "nat list" by (rule map_idI) simp
    then show ?thesis using assms(1) by (auto simp: regs_of_mask_def mask_regs_def intro: filter_cong)
  qed
  have pop: "pop_regs (mask_regs P) 4 c = Inr (c\<lparr>ac_loc := map (\<lambda>r. if r \<in> set (mask_regs P)
      then arm_mem_loc (saved_at (mask_regs P) (ac_cfa c) r) else ac_loc c ! r) [0..<length (ac_loc c)],
      ac_cfa := ac_cfa c + 4 * word_of_nat (length (mask_regs P))\<rparr>)"
    using assms(2) by (intro pop_regs_closed) (auto simp: mask_regs_simps)
  have 13: "bit data 13 \<longleftrightarrow> 13 \<in> set (mask_regs P)" using assms(1) [of 13] by (simp add: mask_regs_simps)
  show ?thesis
    unfolding arm_exidx_apply_cmd_def Let_def
    using assms(2) by (auto simp: exbuf_def rs pop 13 popped_def arm_loc_at_def arm_get_or_def arm_get_def Let_def)
qed

section \<open>Decoding\<close>

fun bytes_in :: "8 word list \<Rightarrow> nat \<Rightarrow> 8 word list \<Rightarrow> bool" where
  "bytes_in buf j [] = True"
| "bytes_in buf j (b # bs) \<longleftrightarrow> arr_get buf j = Inr b \<and> bytes_in buf (j + 1) bs"

lemma bytes_in_append: "bytes_in buf j (xs @ ys) \<longleftrightarrow> bytes_in buf j xs \<and> bytes_in buf (j + length xs) ys"
  by (induction xs arbitrary: j) auto

lemma or_add:
  fixes a :: arm_word
  assumes "unat a < 2 ^ s" shows "a OR push_bit s b = a + push_bit s b"
proof -
  have "\<not> bit a n \<or> \<not> bit (push_bit s b) n" for n
  proof (cases "n < s")
    case False
    have "\<not> bit (unat a) n"
      using assms False by (metis bit_take_bit_iff not_less take_bit_nat_eq_self_iff)
    then show ?thesis by (simp add: bit_simps)
  qed (simp add: bit_simps)
  then show ?thesis by (simp add: disjunctive_add)
qed

lemma seven_bits:
  fixes w :: "8 word"
  assumes "unat w < 128" shows "w AND 0x80 = 0" "w AND 0x7f = w" "(w OR 0x80) AND 0x7f = w" "(w OR 0x80) AND 0x80 = 0x80"
proof -
  show z: "w AND 0x80 = 0" using assms by (simp add: opcode_groups)
  have "uint w < 128" using assms by (subst uint_nat) linarith
  then have "w AND mask 7 = w" by (simp add: mask_eq_iff)
  then show s: "w AND 0x7f = w" by (simp add: mask_eq_exp_minus_1)
  show "(w OR 0x80) AND 0x7f = w" "(w OR 0x80) AND 0x80 = 0x80"
    by (simp_all add: s z bit.conj_disj_distrib2)
qed

lemma uleb_operand:
  assumes "bytes_in buf i (uleb_encode n)" "n * 2 ^ shift < 2 ^ 31" "shift < 31" "off < 2 ^ shift"
  shows "iterate (uleb_operand_body buf) (i, word_of_nat off, shift)
    = Some (Inr (i + length (uleb_encode n), word_of_nat (off + n * 2 ^ shift)))"
  using assms
proof (induction n arbitrary: i shift off rule: uleb_encode.induct)
  case (1 n)
  let ?w = "word_of_nat (n mod 128) :: 8 word"
  have w: "unat ?w = n mod 128" by (simp add: unsigned_of_nat take_bit_nat_eq_self)
  have "n mod 128 * 2 ^ shift \<le> n * 2 ^ shift" by simp
  from order.strict_trans1 [OF this "1.prems"(2)]
  have low: "unat ?w * 2 ^ shift < 2 ^ 31" by (simp only: w)
  have p31: "(2::nat) ^ shift \<le> 2 ^ 31" using "1.prems"(3) by (intro power_increasing) auto
  have off32: "unat (word_of_nat off :: arm_word) = off"
    using "1.prems"(4) p31 by (simp add: unsigned_of_nat take_bit_nat_eq_self)
  have add: "word_of_nat off OR push_bit shift (ucast ?w :: arm_word) = word_of_nat (off + n mod 128 * 2 ^ shift)"
    using or_add [of "word_of_nat off" shift "ucast ?w"] off32 "1.prems"(4) by (simp add: push_bit_eq_mult ucast_nat)
  have 7: "?w AND 0x80 = 0" "?w AND 0x7f = ?w" "(?w OR 0x80) AND 0x7f = ?w" "(?w OR 0x80) AND 0x80 = 0x80"
    using seven_bits [of ?w] w by simp_all
  show ?case
  proof (cases "n < 128")
    case True
    then have "arr_get buf i = Inr ?w" using "1.prems"(1) by (simp add: uleb_encode.simps [of n])
    then have "uleb_operand_body buf (i, word_of_nat off, shift) = Inr (Inr (i + 1, word_of_nat (off + n * 2 ^ shift)))"
      using True low add 7 "1.prems"(3) by (simp add: uleb_operand_body_def not_le)
    then show ?thesis using True by (simp add: iterate_end uleb_encode.simps [of n])
  next
    case False
    let ?off = "off + n mod 128 * 2 ^ shift"
    have split: "n = n mod 128 + n div 128 * 128" by simp
    have pow: "(2::nat) ^ (shift + 7) = 128 * 2 ^ shift" by (simp add: power_add)
    have "?w OR 0x80 = word_of_nat (n mod 128) OR 0x80" by simp
    then have at: "arr_get buf i = Inr (?w OR 0x80)" "bytes_in buf (i + 1) (uleb_encode (n div 128))"
      using "1.prems"(1) False by (simp_all add: uleb_encode.simps [of n])
    have body: "uleb_operand_body buf (i, word_of_nat off, shift) = Inr (Inl (i + 1, word_of_nat ?off, shift + 7))"
      using at low add 7 "1.prems"(3) by (simp add: uleb_operand_body_def not_le)
    have next31: "n div 128 * 2 ^ (shift + 7) < 2 ^ 31"
    proof -
      have "n div 128 * 2 ^ (shift + 7) = n div 128 * 128 * 2 ^ shift" using pow by simp
      also have "\<dots> \<le> n * 2 ^ shift" by (intro mult_right_mono) auto
      finally show ?thesis using "1.prems"(2) by (rule order.strict_trans1)
    qed
    have "1 * 2 ^ (shift + 7) \<le> n div 128 * 2 ^ (shift + 7)" using False by (intro mult_right_mono) auto
    then have "(2::nat) ^ (shift + 7) < 2 ^ 31" using next31 by linarith
    then have s31: "shift + 7 < 31" by (simp only: power_strict_increasing_iff)
    have "n mod 128 * 2 ^ shift \<le> 127 * 2 ^ shift" by (intro mult_right_mono) auto
    then have "?off < 2 ^ (shift + 7)" using "1.prems"(4) pow by linarith
    from "1.IH" [OF False at(2) next31 s31 this]
    have "iterate (uleb_operand_body buf) (i + 1, word_of_nat ?off, shift + 7)
      = Some (Inr (i + 1 + length (uleb_encode (n div 128)), word_of_nat (?off + n div 128 * 2 ^ (shift + 7))))" .
    moreover have "?off + n div 128 * 2 ^ (shift + 7) = off + n * 2 ^ shift"
    proof -
      have "n * 2 ^ shift = n mod 128 * 2 ^ shift + n div 128 * 128 * 2 ^ shift"
        by (subst split, subst distrib_right) (rule refl)
      then show ?thesis using pow by simp
    qed
    ultimately show ?thesis using False body by (simp add: iterate_next uleb_encode.simps [of n])
  qed
qed

end
