(* ===== verification/ArmDecode.thy ===== *)
theory ArmDecode
  imports ArmLemmas
begin

text \<open>
  Decoding the encoding of an instruction executes it, and so for a program.
\<close>

section \<open>One instruction\<close>

lemma six_bits:
  assumes "n < 64"
  shows "(word_of_nat n :: 8 word) AND 0xc0 = 0" "(word_of_nat n :: arm_word) AND 0x3f = word_of_nat n"
    "(0x40 OR word_of_nat n :: 8 word) AND 0xc0 = 0x40" "(ucast (0x40 OR word_of_nat n :: 8 word) :: arm_word) AND 0x3f = word_of_nat n"
proof -
  have "unat (word_of_nat n :: 8 word) = n" using assms by (simp add: unsigned_of_nat take_bit_nat_eq_self)
  then show z: "(word_of_nat n :: 8 word) AND 0xc0 = 0" using assms by (simp add: opcode_groups)
  have "unat (word_of_nat n :: arm_word) = n" using assms by (simp add: unsigned_of_nat take_bit_nat_eq_self)
  then have "uint (word_of_nat n :: arm_word) < 64" using assms by (subst uint_nat) linarith
  then have "(word_of_nat n :: arm_word) AND mask 6 = word_of_nat n" by (simp add: mask_eq_iff)
  then show s: "(word_of_nat n :: arm_word) AND 0x3f = word_of_nat n" by (simp add: mask_eq_exp_minus_1)
  show "(0x40 OR word_of_nat n :: 8 word) AND 0xc0 = 0x40" by (simp add: z bit.conj_disj_distrib2)
  show "(ucast (0x40 OR word_of_nat n :: 8 word) :: arm_word) AND 0x3f = word_of_nat n"
    using assms by (simp add: unsigned_or_eq ucast_nat s bit.conj_disj_distrib2)
qed

lemma four_bits:
  assumes "n < 16"
  shows "(word_of_nat n :: 8 word) AND 0xc0 = 0" "(word_of_nat n :: 8 word) AND 0xf0 = 0"
    "(word_of_nat n :: 8 word) AND 0x0f = word_of_nat n" "(word_of_nat n :: arm_word) AND 0xf = word_of_nat n"
proof -
  have "unat (word_of_nat n :: 8 word) = n" using assms by (simp add: unsigned_of_nat take_bit_nat_eq_self)
  with assms show "(word_of_nat n :: 8 word) AND 0xc0 = 0" "(word_of_nat n :: 8 word) AND 0xf0 = 0"
    "(word_of_nat n :: 8 word) AND 0x0f = word_of_nat n"
    by (simp_all add: small_and)
  have "unat (word_of_nat n :: arm_word) = n" using assms by (simp add: unsigned_of_nat take_bit_nat_eq_self)
  then have "uint (word_of_nat n :: arm_word) < 16" using assms by (subst uint_nat) linarith
  then have "(word_of_nat n :: arm_word) AND mask 4 = word_of_nat n" by (simp add: mask_eq_iff)
  then show "(word_of_nat n :: arm_word) AND 0xf = word_of_nat n" by (simp add: mask_eq_exp_minus_1)
qed

text \<open>The instruction and the index behind it.\<close>

definition decodes :: "8 word list \<Rightarrow> nat \<Rightarrow> nat \<Rightarrow> nat \<Rightarrow> arm_cursor \<Rightarrow> arm_cursor \<Rightarrow> bool" where
  "decodes buf n j j' c c' \<longleftrightarrow>
     rbind (decode_insn buf n j) (\<lambda>(edata, i). rbind (arm_exidx_apply_cmd edata c) (\<lambda>r. Inr (i, r))) = Inr (j', c', Inr ())"

lemma decodes_add_vsp:
  assumes "n < 64" "bytes_in buf j (ehabi_bytes (Add_vsp n))"
  shows "decodes buf k j (j + 1) c (ehabi_exec (Add_vsp n) c)"
  using assms by (simp add: decodes_def decode_insn_def Let_def six_bits ucast_nat exbuf_def arm_exidx_apply_cmd_def
      push_bit_eq_mult algebra_simps)

lemma decodes_sub_vsp:
  assumes "n < 64" "bytes_in buf j (ehabi_bytes (Sub_vsp n))"
  shows "decodes buf k j (j + 1) c (ehabi_exec (Sub_vsp n) c)"
proof -
  have "(0x40 :: 8 word) \<noteq> 0" by (simp add: word_unat_eq_iff)
  with assms show ?thesis
    by (simp add: decodes_def decode_insn_def Let_def six_bits ucast_nat exbuf_def arm_exidx_apply_cmd_def
        push_bit_eq_mult algebra_simps)
qed

lemma decodes_add_large:
  assumes "n < 2 ^ 31" "bytes_in buf j (ehabi_bytes (Add_large n))"
  shows "decodes buf k j (j + 1 + length (uleb_encode n)) c (ehabi_exec (Add_large n) c)"
proof -
  have "arr_get buf j = Inr 0xb2" "bytes_in buf (j + 1) (uleb_encode n)" using assms(2) by simp_all
  moreover from uleb_operand [OF this(2), of 0 0] assms(1)
  have "iterate (uleb_operand_body buf) (j + 1, 0, 0) = Some (Inr (j + 1 + length (uleb_encode n), word_of_nat n))" by simp
  ultimately have "decode_insn buf k j = Inr (exbuf ARM_EXIDX_CMD_DATA_POP (word_of_nat n * 4 + 0x204),
      j + 1 + length (uleb_encode n))"
    by (simp add: decode_insn_def decode_pop_def Let_def)
  moreover have "word_of_nat n * 4 + 0x204 = (word_of_nat (4 * n + 0x204) :: arm_word)" by simp
  ultimately show ?thesis by (simp add: decodes_def exbuf_def arm_exidx_apply_cmd_def Let_def del: of_nat_add of_nat_mult)
qed

lemma decodes_from_reg:
  assumes "ehabi_ok (From_reg r)" "bytes_in buf j (ehabi_bytes (From_reg r))" "length (ac_loc c) = ARM_NUM_PRESERVED_REGS"
  shows "decodes buf k j (j + 1) c (ehabi_exec (From_reg r) c)"
proof -
  have r: "r < 16" "r \<noteq> 13" "r \<noteq> 15" using assms(1) by auto
  have u: "unat (word_of_nat r :: 8 word) = r" "unat (word_of_nat r :: arm_word) = r"
    using r(1) by (simp_all add: unsigned_of_nat take_bit_nat_eq_self)
  let ?b = "0x90 OR word_of_nat r :: 8 word"
  have g: "?b AND 0xc0 = 0x80" "?b AND 0xf0 = 0x90" "?b AND 0x0f = word_of_nat r"
    using r(1) by (simp_all add: four_bits bit.conj_disj_distrib2)
  have "?b \<noteq> 0x9d" "?b \<noteq> 0x9f"
  proof -
    have "(0x9d :: 8 word) AND 0x0f = 13" "(0x9f :: 8 word) AND 0x0f = 15" by simp_all
    moreover have "(word_of_nat r :: 8 word) \<noteq> 13" "(word_of_nat r :: 8 word) \<noteq> 15"
      using r u(1) by (auto simp: word_unat_eq_iff)
    ultimately show "?b \<noteq> 0x9d" "?b \<noteq> 0x9f" using g(3) by metis+
  qed
  moreover have small: "(word_of_nat r :: arm_word) < 16" using r(1) u(2) by (simp add: word_less_nat_alt)
  moreover have "(ucast (word_of_nat r :: 8 word) :: arm_word) = word_of_nat r" using r(1) by (simp add: ucast_nat)
  moreover have "arr_get buf j = Inr ?b" using assms(2) by simp
  ultimately have "decode_insn buf k j = Inr (exbuf ARM_EXIDX_CMD_REG_TO_SP (word_of_nat r), j + 1)"
    using g by (simp add: decode_insn_def Let_def)
  moreover have "arm_exidx_apply_cmd (exbuf ARM_EXIDX_CMD_REG_TO_SP (word_of_nat r)) c = Inr (ehabi_exec (From_reg r) c, Inr ())"
    using assms(3) r(1) u(2) small
    by (simp add: exbuf_def arm_exidx_apply_cmd_def arm_loc_at_def arm_set_loc_def arm_get_or_def arm_get_def
        split: sum.splits)
  ultimately show ?thesis by (simp add: decodes_def)
qed

lemma decodes_pop:
  assumes "decode_insn buf k j = Inr (exbuf ARM_EXIDX_CMD_REG_POP data, j')"
    "\<And>r. r < 16 \<Longrightarrow> bit data r \<longleftrightarrow> P r" "length (ac_loc c) = ARM_NUM_PRESERVED_REGS"
  shows "decodes buf k j j' c (popped (mask_regs P) c)"
  using assms(1) apply_pop [OF assms(2,3)] by (simp add: decodes_def)

lemma bit_of_nat_word: "bit (word_of_nat m :: 'a::len word) r \<longleftrightarrow> r < LENGTH('a) \<and> bit m r"
  by transfer (simp add: bit_of_nat_iff_bit)

lemma decodes_pop_lower:
  assumes "ehabi_ok (Pop_lower m)" "bytes_in buf j (ehabi_bytes (Pop_lower m))" "length (ac_loc c) = ARM_NUM_PRESERVED_REGS"
  shows "decodes buf k j (j + 2) c (ehabi_exec (Pop_lower m) c)"
proof -
  have m: "0 < m" "m < 16" using assms(1) by auto
  then have nz: "(word_of_nat m :: 8 word) \<noteq> 0"
    by (simp add: word_unat_eq_iff unsigned_of_nat take_bit_nat_eq_self)
  have dec: "decode_insn buf k j = Inr (exbuf ARM_EXIDX_CMD_REG_POP (word_of_nat m), j + 2)"
    using assms(2) m nz by (simp add: decode_insn_def decode_pop_def Let_def four_bits ucast_nat)
  have "bit (word_of_nat m :: arm_word) r \<longleftrightarrow> r < 4 \<and> bit m r" if "r < 16" for r
  proof -
    have "r < 4" if "bit m r"
    proof (rule ccontr)
      assume "\<not> r < 4"
      then have "(2::nat) ^ 4 \<le> 2 ^ r" by (intro power_increasing) auto
      then have "m div 2 ^ r = 0" using m(2) by simp
      then show False using that by (simp add: bit_nat_def)
    qed
    then show ?thesis using that by (auto simp: bit_of_nat_word)
  qed
  from decodes_pop [OF dec this assms(3)] show ?thesis by simp
qed

lemma decodes_pop_upper:
  assumes "ehabi_ok (Pop_upper m)" "bytes_in buf j (ehabi_bytes (Pop_upper m))" "length (ac_loc c) = ARM_NUM_PRESERVED_REGS"
  shows "decodes buf k j (j + 2) c (ehabi_exec (Pop_upper m) c)"
proof -
  have m: "0 < m" "m < 4096" using assms(1) by auto
  let ?hi = "word_of_nat (m div 256) :: 8 word" and ?lo = "word_of_nat (m mod 256) :: 8 word"
  have hi: "m div 256 < 16" using m(2) by simp
  have at: "arr_get buf j = Inr (0x80 OR ?hi)" "arr_get buf (j + 1) = Inr ?lo" using assms(2) by simp_all
  have u: "unat ?hi = m div 256" "unat ?lo = m mod 256" using hi by (simp_all add: unsigned_of_nat take_bit_nat_eq_self)
  have g: "(0x80 OR ?hi) AND 0xc0 = 0x80" "(0x80 OR ?hi) AND 0xf0 = 0x80" "(0x80 OR ?hi) AND 0x0f = ?hi"
    using hi by (simp_all add: four_bits bit.conj_disj_distrib2)
  have "\<not> (0x80 OR ?hi = 0x80 \<and> ?lo = 0x00)"
  proof
    assume z: "0x80 OR ?hi = 0x80 \<and> ?lo = 0x00"
    have "?hi = 0" using g(3) z by simp
    then have "m div 256 = 0" "m mod 256 = 0" using u z by simp_all
    then show False using m(1) by (metis div_mult_mod_eq mult_zero_left add_0 less_irrefl)
  qed
  moreover have "(ucast (0x80 OR ?hi) :: arm_word) AND 0xf = word_of_nat (m div 256)"
    using hi by (simp add: unsigned_or_eq ucast_nat four_bits bit.conj_disj_distrib2)
  moreover have "push_bit 8 (word_of_nat (m div 256)) OR ucast ?lo = (word_of_nat m :: arm_word)"
  proof -
    have "unat (word_of_nat (m mod 256) :: arm_word) < 2 ^ 8" by (simp add: unsigned_of_nat take_bit_nat_eq_self)
    from or_add [OF this, of "word_of_nat (m div 256)"]
    have "word_of_nat (m mod 256) OR push_bit 8 (word_of_nat (m div 256))
        = (word_of_nat (m mod 256) + word_of_nat (m div 256) * 256 :: arm_word)"
      by (simp add: push_bit_eq_mult)
    also have "\<dots> = word_of_nat (m mod 256 + m div 256 * 256)" by (simp only: of_nat_add of_nat_mult of_nat_numeral)
    also have "\<dots> = word_of_nat m" by (simp only: mod_div_mult_eq)
    finally have "word_of_nat (m mod 256) OR push_bit 8 (word_of_nat (m div 256)) = (word_of_nat m :: arm_word)" .
    then show ?thesis by (simp only: or.commute) (simp add: ucast_nat or.commute)
  qed
  ultimately have dec: "decode_insn buf k j = Inr (exbuf ARM_EXIDX_CMD_REG_POP (push_bit 4 (word_of_nat m)), j + 2)"
    using at g by (auto simp: decode_insn_def Let_def)
  have "bit (push_bit 4 (word_of_nat m) :: arm_word) r \<longleftrightarrow> 4 \<le> r \<and> bit m (r - 4)" if "r < 16" for r
    using that by (auto simp: bit_push_bit_iff bit_of_nat_word)
  from decodes_pop [OF dec this assms(3)] show ?thesis by simp
qed

lemma decodes_pop_r4:
  assumes "ehabi_ok (Pop_r4 n lr)" "bytes_in buf j (ehabi_bytes (Pop_r4 n lr))" "length (ac_loc c) = ARM_NUM_PRESERVED_REGS"
  shows "decodes buf k j (j + 1) c (ehabi_exec (Pop_r4 n lr) c)"
proof -
  have n: "n < 8" using assms(1) by simp
  let ?n = "word_of_nat n :: 8 word" and ?l = "(if lr then 8 else 0) :: 8 word"
  let ?b = "0xa0 OR ?l OR ?n"
  have "uint ?n < 8" using n by (subst uint_nat) (simp add: unsigned_of_nat take_bit_nat_eq_self)
  then have "?n AND mask 3 = ?n" by (simp add: mask_eq_iff)
  then have n7: "?n AND 7 = ?n" by (simp add: mask_eq_exp_minus_1)
  have "?n AND 8 = (?n AND 7) AND 8" by (simp only: n7)
  also have "\<dots> = 0" by (simp add: and.assoc)
  finally have n8: "?n AND 8 = 0" .
  have g: "?b AND 0xc0 = 0x80" "?b AND 0xf0 = 0xa0" "?b AND 7 = ?n" "?b AND 8 = ?l"
    using n by (simp_all add: four_bits n7 n8 bit.conj_disj_distrib2)
  have un: "unat ?n = n" using n by (simp add: unsigned_of_nat take_bit_nat_eq_self)
  let ?m = "push_bit 4 (push_bit (n + 1) 1 - 1) :: arm_word"
  let ?data = "if lr then ?m OR push_bit 14 1 else ?m"
  have at: "arr_get buf j = Inr ?b" using assms(2) by simp
  have dec: "decode_insn buf k j = Inr (exbuf ARM_EXIDX_CMD_REG_POP ?data, j + 1)"
    unfolding decode_insn_def at Let_def rbind_simps g un by (simp add: word_unat_eq_iff)
  have "bit ?m r \<longleftrightarrow> 4 \<le> r \<and> r \<le> 4 + n" if "r < 16" for r
  proof -
    have "push_bit (n + 1) 1 - 1 = (mask (n + 1) :: arm_word)" by (simp add: mask_eq_exp_minus_1 push_bit_eq_mult)
    then show ?thesis using that by (auto simp: bit_push_bit_iff bit_mask_iff)
  qed
  moreover have "bit (push_bit 14 1 :: arm_word) r \<longleftrightarrow> r = 14" if "r < 16" for r
    using that by (simp only: bit_push_bit_iff bit_1_iff) auto
  ultimately have "bit ?data r \<longleftrightarrow> 4 \<le> r \<and> r \<le> 4 + n \<or> lr \<and> r = 14" if "r < 16" for r
    using that by (auto simp: bit_or_iff)
  from decodes_pop [OF dec this assms(3)] show ?thesis by simp
qed

lemma decodes_ehabi:
  assumes "ehabi_ok i" "bytes_in buf j (ehabi_bytes i)" "length (ac_loc c) = ARM_NUM_PRESERVED_REGS"
  shows "decodes buf k j (j + length (ehabi_bytes i)) c (ehabi_exec i c)"
proof (cases i)
  case (Add_vsp n)
  then show ?thesis using assms(1,2) decodes_add_vsp [of n buf j k c] by simp
next
  case (Sub_vsp n)
  then show ?thesis using assms(1,2) decodes_sub_vsp [of n buf j k c] by simp
next
  case (Add_large n)
  then show ?thesis using assms(1,2) decodes_add_large [of n buf j k c] by simp
next
  case (Pop_upper m)
  then show ?thesis using assms decodes_pop_upper [of m buf j c k] by simp
next
  case (Pop_lower m)
  then show ?thesis using assms decodes_pop_lower [of m buf j c k] by simp
next
  case (Pop_r4 n lr)
  then show ?thesis using assms decodes_pop_r4 [of n lr buf j c k] by simp
next
  case (From_reg r)
  then show ?thesis using assms decodes_from_reg [of r buf j c k] by simp
qed

end
