(* ===== verification/ArmProgram.thy ===== *)
theory ArmProgram
  imports ArmDecode
begin

text \<open>
  Programs of unwind instructions, the layouts in which an entry of the index holds one, and the step
  with the program of an entry.
\<close>

section \<open>Programs\<close>

definition ehabi_code :: "ehabi list \<Rightarrow> 8 word list" where
  "ehabi_code prog = concat (map ehabi_bytes prog)"

definition ehabi_run :: "ehabi list \<Rightarrow> arm_cursor \<Rightarrow> arm_cursor" where
  "ehabi_run prog c = foldl (\<lambda>c i. ehabi_exec i c) c prog"

text \<open>What the instruction \<open>finish\<close> does: without a program counter the link register is the new one.\<close>

definition ehabi_finish :: "arm_cursor \<Rightarrow> arm_cursor" where
  "ehabi_finish c =
     (let pc = (if ac_loc c ! 15 = arm_null_loc then ac_loc c ! 14 else ac_loc c ! 15) in
      c\<lparr>ac_loc := (ac_loc c)[15 := pc], ac_ip := arm_get_or c pc (ac_ip c)\<rparr>)"

lemma length_exec [simp]: "length (ac_loc (ehabi_exec i c)) = length (ac_loc c)"
  by (cases i) (auto simp: popped_def)

lemma decodes_finish:
  assumes "arr_get buf j = Inr 0xb0" "length (ac_loc c) = ARM_NUM_PRESERVED_REGS"
  shows "decodes buf k j k c (ehabi_finish c)"
proof -
  have "decode_insn buf k j = Inr (exbuf ARM_EXIDX_CMD_FINISH 0, k)"
    using assms(1) by (simp add: decode_insn_def decode_pop_def Let_def)
  moreover have "arm_exidx_apply_cmd (exbuf ARM_EXIDX_CMD_FINISH 0) c = Inr (ehabi_finish c, Inr ())"
  proof (cases "ac_loc c ! 15 = arm_null_loc")
    case True
    then show ?thesis using assms(2)
      by (simp add: exbuf_def arm_exidx_apply_cmd_def arm_loc_at_def arm_set_loc_def ehabi_finish_def Let_def
          arm_get_or_def arm_get_def split: sum.splits)
  next
    case False
    moreover have "(ac_loc c)[15 := ac_loc c ! 15] = ac_loc c" by (rule list_update_id)
    ultimately show ?thesis using assms(2)
      by (simp add: exbuf_def arm_exidx_apply_cmd_def arm_loc_at_def ehabi_finish_def Let_def)
  qed
  ultimately show ?thesis by (simp add: decodes_def)
qed

lemma decode_body_decodes:
  assumes "decodes buf n j j' c c'" "j < n"
  shows "decode_body buf n (j, c) = Inr (Inl (j', c'))"
  using assms unfolding decodes_def decode_body_def by (auto simp: rbind_eq_Inr)

lemma decode_program:
  assumes "\<forall>i \<in> set prog. ehabi_ok i" "bytes_in buf j (ehabi_code prog @ [0xb0])"
    "j + length (ehabi_code prog) < n" "length (ac_loc c) = ARM_NUM_PRESERVED_REGS"
  shows "iterate (decode_body buf n) (j, c) = Some (Inr (ehabi_finish (ehabi_run prog c), Inr ()))"
  using assms
proof (induction prog arbitrary: j c)
  case Nil
  have "arr_get buf j = Inr 0xb0" using Nil.prems(2) by (simp add: ehabi_code_def)
  from decode_body_decodes [OF decodes_finish [OF this Nil.prems(4)], of n] Nil.prems(3)
  have "decode_body buf n (j, c) = Inr (Inl (n, ehabi_finish c))" by simp
  moreover have "decode_body buf n (n, ehabi_finish c) = Inr (Inr (ehabi_finish c, Inr ()))" by (simp add: decode_body_def)
  ultimately show ?case by (simp add: iterate_next iterate_end ehabi_run_def)
next
  case (Cons i prog)
  have code: "ehabi_code (i # prog) = ehabi_bytes i @ ehabi_code prog" by (simp add: ehabi_code_def)
  have ok: "ehabi_ok i" and i: "bytes_in buf j (ehabi_bytes i)"
    and rest: "bytes_in buf (j + length (ehabi_bytes i)) (ehabi_code prog @ [0xb0])"
    using Cons.prems(1,2) by (simp_all add: code bytes_in_append)
  have "decode_body buf n (j, c) = Inr (Inl (j + length (ehabi_bytes i), ehabi_exec i c))"
    using Cons.prems(3) by (intro decode_body_decodes decodes_ehabi ok i Cons.prems(4)) (simp add: code)
  moreover have "iterate (decode_body buf n) (j + length (ehabi_bytes i), ehabi_exec i c)
      = Some (Inr (ehabi_finish (ehabi_run prog (ehabi_exec i c)), Inr ()))"
    using Cons.prems by (intro Cons.IH rest) (simp_all add: code)
  ultimately show ?case by (simp add: iterate_next ehabi_run_def)
qed

lemma bytes_in_prefix: "bytes_in (xs @ bs @ ys) (length xs) bs"
proof (induction bs arbitrary: xs)
  case (Cons b bs)
  from Cons.IH [of "xs @ [b]"] show ?case by simp
qed simp

lemma decode_bytes:
  assumes "\<forall>i \<in> set prog. ehabi_ok i" "bytes = ehabi_code prog @ 0xb0 # pad" "length (ac_loc c) = ARM_NUM_PRESERVED_REGS"
  shows "arm_exidx_decode (bytes @ stack) (length bytes) c = Inr (ehabi_finish (ehabi_run prog c), Inr ())"
proof -
  have "bytes @ stack = [] @ (ehabi_code prog @ [0xb0]) @ pad @ stack" using assms(2) by simp
  then have "bytes_in (bytes @ stack) 0 (ehabi_code prog @ [0xb0])" by (metis bytes_in_prefix list.size(3))
  from decode_program [OF assms(1) this _ assms(3), of "length bytes"]
  show ?thesis using assms(2) by (simp add: arm_exidx_decode_def returns_def)
qed

section \<open>Entries\<close>

text \<open>
  The forms of an entry: the instructions in the index itself, or in a table of the short or the long
  form of the standard personality routines, or in a table with its own personality routine.
\<close>

definition be_word :: "8 word list \<Rightarrow> arm_word" where
  "be_word bs = foldl (\<lambda>w b. push_bit 8 w OR ucast b) 0 bs"

datatype exidx_entry =
    Inline "8 word list"
  | Short arm_word "8 word list"
  | Long arm_word "8 word" "8 word list" "8 word list"
  | Own arm_word arm_word "8 word list" "8 word list"

fun table_at :: "(arm_word \<Rightarrow> unw_error + arm_word) \<Rightarrow> arm_word \<Rightarrow> 8 word list \<Rightarrow> bool" where
  "table_at mem a (b0 # b1 # b2 # b3 # bs) \<longleftrightarrow> mem a = Inr (be_word [b0, b1, b2, b3]) \<and> table_at mem (a + 4) bs"
| "table_at mem a [] \<longleftrightarrow> True"
| "table_at mem a _ \<longleftrightarrow> False"

text \<open>An offset relative to its address: the bit 31 is clear, the bit 30 is the sign.\<close>

definition refers_to :: "(arm_word \<Rightarrow> unw_error + arm_word) \<Rightarrow> arm_word \<Rightarrow> arm_word \<Rightarrow> bool" where
  "refers_to mem a t \<longleftrightarrow>
     (case mem a of Inl _ \<Rightarrow> False | Inr w \<Rightarrow> \<not> bit w 31 \<and> w \<noteq> ARM_EXIDX_CANT_UNWIND \<and> a + signed_take_bit 30 w = t)"

fun entry_at :: "(arm_word \<Rightarrow> unw_error + arm_word) \<Rightarrow> arm_word \<Rightarrow> exidx_entry \<Rightarrow> bool" where
  "entry_at mem e (Inline bs) \<longleftrightarrow> length bs = 3 \<and> table_at mem (e + 4) (0x80 # bs)"
| "entry_at mem e (Short t bs) \<longleftrightarrow> length bs = 3 \<and> refers_to mem (e + 4) t \<and> table_at mem t (0x80 # bs)"
| "entry_at mem e (Long t m bs more_bs) \<longleftrightarrow> length bs = 2 \<and> length more_bs \<le> 20 \<and> m \<in> {0x81, 0x82}
     \<and> refers_to mem (e + 4) t \<and> table_at mem t (m # word_of_nat (length more_bs div 4) # bs @ more_bs)"
| "entry_at mem e (Own t p bs more_bs) \<longleftrightarrow> length bs = 3 \<and> length more_bs \<le> 20
     \<and> refers_to mem (e + 4) t \<and> refers_to mem t p \<and> table_at mem (t + 4) (word_of_nat (length more_bs div 4) # bs @ more_bs)"

fun entry_bytes :: "exidx_entry \<Rightarrow> 8 word list" where
  "entry_bytes (Inline bs) = bs"
| "entry_bytes (Short t bs) = bs"
| "entry_bytes (Long t m bs more_bs) = bs @ more_bs"
| "entry_bytes (Own t p bs more_bs) = bs @ more_bs"

lemma prel31: "signed_drop_bit 1 (push_bit 1 w) = (signed_take_bit 30 w :: arm_word)"
proof (rule bit_word_eqI)
  fix n assume "n < LENGTH(32)"
  moreover have "bit (push_bit 1 w) m \<longleftrightarrow> bit w (m - 1)" if "1 \<le> m" "m < 32" for m
    unfolding bit_push_bit_iff using that by simp
  ultimately show "bit (signed_drop_bit 1 (push_bit 1 w)) n = bit (signed_take_bit 30 w) n"
    unfolding bit_signed_drop_bit_iff bit_signed_take_bit_iff by (cases "n = 30") (auto simp: min_def)
qed

lemma prel31_refers: "refers_to (arm_access_mem as) a t \<Longrightarrow> prel31_to_addr as a = Inr t"
  unfolding prel31_to_addr_def prel31 by (auto simp: refers_to_def arm_read_def split: sum.splits)

lemma high_bit: "(w :: arm_word) AND ARM_EXIDX_COMPACT \<noteq> 0 \<longleftrightarrow> bit w 31"
proof -
  have "ARM_EXIDX_COMPACT = (push_bit 31 1 :: arm_word)" by simp
  then show ?thesis by (metis and_exp_eq_0_iff_not_bit push_bit_of_1)
qed

lemma byte_bit: "8 \<le> n \<Longrightarrow> \<not> bit (b :: 8 word) n"
  using bit_imp_le_length [of b n] by auto

lemma be_word_bytes:
  "ucast (drop_bit 24 (be_word [a, b, c, d])) = a" "ucast (drop_bit 16 (be_word [a, b, c, d])) = b"
  "ucast (drop_bit 8 (be_word [a, b, c, d])) = c" "ucast (be_word [a, b, c, d]) = d"
  "bit (be_word [a, b, c, d]) 31 \<longleftrightarrow> bit a 7"
  by (auto intro!: bit_word_eqI simp: be_word_def bit_simps byte_bit)

lemma read_table:
  assumes "table_at (arm_access_mem as) a bs"
  shows "length bs mod 4 = 0" "read_table_words as a (length bs div 4) = Inr bs"
proof -
  have "length bs mod 4 = 0 \<and> read_table_words as a (length bs div 4) = Inr bs"
    using assms
  proof (induction "arm_access_mem as" a bs rule: table_at.induct)
    case (1 a b0 b1 b2 b3 bs)
    then have IH: "length bs mod 4 = 0" "read_table_words as (a + 4) (length bs div 4) = Inr bs" by simp_all
    have "length (b0 # b1 # b2 # b3 # bs) div 4 = Suc (length bs div 4)" by simp
    moreover have "low_bytes 4 (be_word [b0, b1, b2, b3]) = [b0, b1, b2, b3]"
      by (simp add: low_bytes_def upt_rec be_word_bytes)
    ultimately show ?case using 1 IH by (simp add: arm_read_def)
  qed simp_all
  then show "length bs mod 4 = 0" "read_table_words as a (length bs div 4) = Inr bs" by simp_all
qed

lemma low_be_word:
  "low_bytes 3 (be_word [a, b, c, d]) = [b, c, d]" "low_bytes 2 (be_word [a, b, c, d]) = [c, d]"
  by (simp_all add: low_bytes_def upt_rec be_word_bytes)

lemma be_word_high:
  "drop_bit 24 (be_word [a, b, c, d]) = ucast a" "drop_bit 16 (be_word [a, b, c, d]) AND 0xff = ucast b"
proof -
  show "drop_bit 24 (be_word [a, b, c, d]) = ucast a"
    by (rule bit_word_eqI) (auto simp: be_word_def bit_simps byte_bit dest: bit_imp_le_length)
  have "drop_bit 16 (be_word [a, b, c, d]) AND mask 8 = ucast b"
    by (rule bit_word_eqI) (auto simp: be_word_def bit_simps byte_bit dest: bit_imp_le_length)
  then show "drop_bit 16 (be_word [a, b, c, d]) AND 0xff = ucast b" by (simp add: mask_eq_exp_minus_1)
qed

lemma compact_not_1: "bit w 31 \<Longrightarrow> w \<noteq> (ARM_EXIDX_CANT_UNWIND :: arm_word)"
  by (auto simp: bit_1_iff)

lemma refers_to_word:
  assumes "refers_to mem a t"
  shows "\<exists>w. mem a = Inr w \<and> w AND ARM_EXIDX_COMPACT = 0 \<and> w \<noteq> ARM_EXIDX_CANT_UNWIND"
  using assms high_bit by (auto simp: refers_to_def split: sum.splits)

lemma length_3: "length xs = 3 \<Longrightarrow> \<exists>a b c. xs = [a, b, c]"
  by (auto simp: eval_nat_numeral length_Suc_conv)

lemma length_2: "length xs = 2 \<Longrightarrow> \<exists>a b. xs = [a, b]"
  by (auto simp: eval_nat_numeral length_Suc_conv)

lemma table_words_ok:
  assumes "length bs \<le> 20"
  shows "unat (word_of_nat (length bs div 4) :: 8 word) = length bs div 4" "length bs div 4 \<le> 5"
  using assms by (simp_all add: unsigned_of_nat take_bit_nat_eq_self)

lemma extract_short:
  assumes "refers_to (arm_access_mem as) (e + 4) t" "length bs = 3" "table_at (arm_access_mem as) t (0x80 # bs)"
  shows "extract_table as e = Inr bs"
proof -
  obtain a b c where bs: "bs = [a, b, c]" using length_3 [OF assms(2)] by auto
  let ?w = "be_word [0x80, a, b, c]"
  have "?w AND ARM_EXIDX_COMPACT \<noteq> 0" unfolding high_bit be_word_bytes(5) by (simp add: bit_numeral_rec)
  moreover have "arm_read as t = Inr ?w" using assms(3) by (simp add: bs arm_read_def)
  moreover have "drop_bit 24 ?w AND 0x0f = 0" by (simp add: be_word_high)
  ultimately show ?thesis
    using prel31_refers [OF assms(1)] by (simp add: extract_table_def Let_def low_be_word bs)
qed

lemma extract_long:
  assumes "refers_to (arm_access_mem as) (e + 4) t" "length bs = 2" "length rest \<le> 20" "m \<in> {0x81, 0x82}"
    "table_at (arm_access_mem as) t (m # word_of_nat (length rest div 4) # bs @ rest)"
  shows "extract_table as e = Inr (bs @ rest)"
proof -
  obtain a b where bs: "bs = [a, b]" using length_2 [OF assms(2)] by auto
  let ?n = "word_of_nat (length rest div 4) :: 8 word"
  let ?w = "be_word [m, ?n, a, b]"
  have m: "bit m 7" "unat ((ucast m :: arm_word) AND 0x0f) = 1 \<or> unat ((ucast m :: arm_word) AND 0x0f) = 2"
    using assms(4) by (auto simp: bit_numeral_rec)
  have "?w AND ARM_EXIDX_COMPACT \<noteq> 0" unfolding high_bit be_word_bytes(5) by (rule m(1))
  moreover have "arm_read as t = Inr ?w" "table_at (arm_access_mem as) (t + 4) rest"
    using assms(5) by (simp_all add: bs arm_read_def)
  moreover have "unat (drop_bit 16 ?w AND 0xff) = length rest div 4"
    using table_words_ok [OF assms(3)] by (simp add: be_word_high unsigned_ucast_eq take_bit_nat_eq_self)
  ultimately show ?thesis
    using prel31_refers [OF assms(1)] read_table(2) table_words_ok(2) [OF assms(3)] m(2)
    by (auto simp: extract_table_def Let_def low_be_word bs be_word_high)
qed

lemma extract_own:
  assumes "refers_to (arm_access_mem as) (e + 4) t" "refers_to (arm_access_mem as) t p"
    "length bs = 3" "length rest \<le> 20"
    "table_at (arm_access_mem as) (t + 4) (word_of_nat (length rest div 4) # bs @ rest)"
  shows "extract_table as e = Inr (bs @ rest)"
proof -
  obtain a b c where bs: "bs = [a, b, c]" using length_3 [OF assms(3)] by auto
  let ?n = "word_of_nat (length rest div 4) :: 8 word"
  let ?w = "be_word [?n, a, b, c]"
  obtain w where w: "arm_access_mem as t = Inr w" "w AND ARM_EXIDX_COMPACT = 0" using refers_to_word [OF assms(2)] by auto
  have "arm_read as (t + 4) = Inr ?w" "table_at (arm_access_mem as) (t + 8) rest"
    using assms(5) by (simp_all add: bs arm_read_def add.assoc)
  moreover have "unat (drop_bit 24 ?w) = length rest div 4"
    using table_words_ok [OF assms(4)] by (simp add: be_word_high unsigned_ucast_eq take_bit_nat_eq_self)
  ultimately show ?thesis
    using prel31_refers [OF assms(1)] prel31_refers [OF assms(2)] read_table(2) table_words_ok(2) [OF assms(4)] w
    by (simp add: extract_table_def Let_def low_be_word bs arm_read_def)
qed

lemma extract_entry:
  assumes "arm_access_mem (ac_as c) e = Inr key" "entry_at (arm_access_mem (ac_as c)) e entry"
    "ap_unwind_info (ac_pi c) = e"
  shows "arm_exidx_extract c = Inr (add_finish (entry_bytes entry))"
proof -
  have key: "prel31_to_addr (ac_as c) e = Inr (e + signed_drop_bit 1 (push_bit 1 key))"
    using assms(1) by (simp add: prel31_to_addr_def arm_read_def)
  have table: ?thesis
    if ref: "refers_to (arm_access_mem (ac_as c)) (e + 4) t" and ext: "extract_table (ac_as c) e = Inr (entry_bytes entry)" for t
  proof -
    obtain w where "arm_access_mem (ac_as c) (e + 4) = Inr w" "w AND ARM_EXIDX_COMPACT = 0" "w \<noteq> ARM_EXIDX_CANT_UNWIND"
      using refers_to_word [OF ref] by auto
    then show ?thesis using ext key assms(3) by (simp add: arm_exidx_extract_def Let_def arm_read_def)
  qed
  show ?thesis
  proof (cases entry)
    case (Inline bs)
    then obtain a b c' where bs: "bs = [a, b, c']" using assms(2) length_3 [of bs] by auto
    let ?w = "be_word [0x80, a, b, c']"
    have "bit ?w 31" unfolding be_word_bytes(5) by (simp add: bit_numeral_rec)
    then have "?w AND ARM_EXIDX_COMPACT \<noteq> 0" "?w \<noteq> ARM_EXIDX_CANT_UNWIND"
      using high_bit compact_not_1 by blast+
    moreover have "arm_read (ac_as c) (e + 4) = Inr ?w" using assms(2) Inline bs by (simp add: arm_read_def)
    ultimately show ?thesis using Inline bs key assms(3) by (simp add: arm_exidx_extract_def Let_def low_be_word)
  next
    case (Short t bs)
    then show ?thesis using assms(2) table [of t] extract_short [of "ac_as c" e t bs] by simp
  next
    case (Long t m bs rest)
    then show ?thesis using assms(2) table [of t] extract_long [of "ac_as c" e t bs rest m] by simp
  next
    case (Own t p bs rest)
    then show ?thesis using assms(2) table [of t] extract_own [of "ac_as c" e t p bs rest] by simp
  qed
qed

section \<open>The step\<close>

text \<open>The address looked up, and the cursor with the procedure found and no program counter.\<close>

definition arm_lookup_ip :: "arm_cursor \<Rightarrow> arm_word" where
  "arm_lookup_ip c = (if ac_use_prev_instr c then (ac_ip c AND NOT 1) - 1 else ac_ip c)"

definition arm_start :: "arm_proc_info \<Rightarrow> arm_cursor \<Rightarrow> arm_cursor" where
  "arm_start pi c = c\<lparr>ac_loc := (ac_loc c)[15 := arm_null_loc], ac_pi := pi\<rparr>"

text \<open>The result of a step to a caller's frame.\<close>

definition arm_stepped :: "arm_cursor \<Rightarrow> arm_cursor \<Rightarrow> arm_cursor \<times> (unw_error + bool)" where
  "arm_stepped c c' =
     (if ac_ip c' = ac_ip c \<and> ac_cfa c' = ac_cfa c then (c', Inl UNW_EBADFRAME)
      else (c'\<lparr>ac_pi_valid := False\<rparr>, Inr (ac_ip c' \<noteq> 0)))"

text \<open>The index entry of a procedure holds the instructions.\<close>

definition arm_entry :: "arm_cursor \<Rightarrow> arm_proc_info \<Rightarrow> exidx_entry \<Rightarrow> bool" where
  "arm_entry c pi entry \<longleftrightarrow>
     ap_format pi = UNW_INFO_FORMAT_ARM_EXIDX \<and> \<not> isl (arm_access_mem (ac_as c) (ap_unwind_info pi))
     \<and> entry_at (arm_access_mem (ac_as c)) (ap_unwind_info pi) entry"

lemma arm_step_bytes:
  assumes "length (ac_loc c) = ARM_NUM_PRESERVED_REGS" "lookup_pi (arm_lookup_ip c) = Inr pi" "arm_entry c pi entry"
    "add_finish (entry_bytes entry) = bytes"
    "arm_exidx_decode (bytes @ drop (length bytes) stack) (length bytes) (arm_start pi c) = Inr (c', Inr ())"
  shows "arm_exidx_step lookup_pi stack c = Inr (arm_stepped c c')"
proof -
  obtain key where "arm_access_mem (ac_as c) (ap_unwind_info pi) = Inr key"
    using assms(3) by (cases "arm_access_mem (ac_as c) (ap_unwind_info pi)") (auto simp: arm_entry_def)
  then have "arm_exidx_extract (arm_start pi c) = Inr bytes"
    using assms(3,4) extract_entry [of "arm_start pi c" "ap_unwind_info pi" key entry]
    by (simp add: arm_entry_def arm_start_def)
  then show ?thesis
    using assms by (simp add: arm_exidx_step_def arm_lookup_ip_def arm_set_loc_def arm_start_def arm_entry_def arm_stepped_def)
qed

lemma length_arm_start [simp]: "length (ac_loc (arm_start pi c)) = length (ac_loc c)"
  by (simp add: arm_start_def)

lemma decode_unfinished:
  assumes "\<forall>i \<in> set prog. ehabi_ok i" "bytes_in buf j (ehabi_code prog)" "n = j + length (ehabi_code prog)"
    "length (ac_loc c) = ARM_NUM_PRESERVED_REGS"
  shows "iterate (decode_body buf n) (j, c) = Some (Inr (ehabi_run prog c, Inr ()))"
  using assms
proof (induction prog arbitrary: j c)
  case Nil
  then show ?case by (simp add: iterate_end ehabi_run_def ehabi_code_def decode_body_def)
next
  case (Cons i prog)
  have code: "ehabi_code (i # prog) = ehabi_bytes i @ ehabi_code prog" by (simp add: ehabi_code_def)
  have ok: "ehabi_ok i" and i: "bytes_in buf j (ehabi_bytes i)"
    and rest: "bytes_in buf (j + length (ehabi_bytes i)) (ehabi_code prog)"
    using Cons.prems(1,2) by (simp_all add: code bytes_in_append)
  have "ehabi_bytes i \<noteq> []" by (cases i) auto
  then have "decode_body buf n (j, c) = Inr (Inl (j + length (ehabi_bytes i), ehabi_exec i c))"
    using Cons.prems(3) by (intro decode_body_decodes decodes_ehabi ok i Cons.prems(4)) (simp add: code)
  moreover have "iterate (decode_body buf n) (j + length (ehabi_bytes i), ehabi_exec i c)
      = Some (Inr (ehabi_run prog (ehabi_exec i c), Inr ()))"
    using Cons.prems by (intro Cons.IH rest) (simp_all add: code)
  ultimately show ?case by (simp add: iterate_next ehabi_run_def)
qed

lemma exec_keeps_ip: "ac_ip (ehabi_exec i c) = ac_ip c"
  by (cases i) (simp_all add: popped_def)

lemma run_keeps_ip: "ac_ip (ehabi_run prog c) = ac_ip c"
  by (induction prog arbitrary: c) (simp_all add: ehabi_run_def exec_keeps_ip)

end
