(* ===== verification/ArmSearch.thy ===== *)
theory ArmSearch
  imports ArmProgram
begin

text \<open>
  The binary search of the index finds the last entry whose procedure does not begin behind the address.
\<close>

definition exidx_index_entry :: "arm_word \<Rightarrow> nat \<Rightarrow> arm_word" where
  "exidx_index_entry table i = table + word_of_nat (8 * i)"

text \<open>The procedures of the entries begin at these addresses, in their order.\<close>

definition index_at :: "arm_space \<Rightarrow> arm_word \<Rightarrow> arm_word list \<Rightarrow> bool" where
  "index_at as table starts \<longleftrightarrow>
     unat table + 8 * length starts < 2 ^ 32 \<and> sorted starts
     \<and> (\<forall>i < length starts. prel31_to_addr as (exidx_index_entry table i) = Inr (starts ! i))"

text \<open>What the entry \<open>k\<close> says of its procedure, with an end address for its range.\<close>

definition arm_found ::
  "arm_space \<Rightarrow> arm_di \<Rightarrow> arm_word list \<Rightarrow> nat \<Rightarrow> arm_word \<Rightarrow> arm_proc_info \<Rightarrow> bool \<Rightarrow> arm_proc_info" where
  "arm_found as di starts k end_ip pi need_unwind_info =
     (let entry = exidx_index_entry (ad_table_data di) k;
          pi = pi\<lparr>ap_start_ip := starts ! k, ap_end_ip := end_ip\<rparr> in
      arm_handler as entry
        (if need_unwind_info then pi\<lparr>ap_unwind_info := entry, ap_format := UNW_INFO_FORMAT_ARM_EXIDX\<rparr> else pi))"

text \<open>
  The end address that the search stores: the last address before the next procedure or before the end of the
  object, where \<open>libunwind-common.h\<close> documents the first address that is not covered any more.
\<close>

definition last_address :: "arm_di \<Rightarrow> arm_word list \<Rightarrow> nat \<Rightarrow> arm_word" where
  "last_address di starts k = (if k + 1 = length starts then ad_end_ip di else starts ! (k + 1)) - 1"

lemma unat_entry:
  assumes "unat table + 8 * n < 2 ^ 32" "i \<le> n"
  shows "unat (exidx_index_entry table i) = unat table + 8 * i"
  using assms by (simp add: exidx_index_entry_def unat_word_ariths unsigned_of_nat take_bit_nat_eq_self)

lemma exidx_entry_diff:
  assumes "a \<le> b" shows "exidx_index_entry table b - exidx_index_entry table a = word_of_nat (8 * (b - a))"
proof -
  have "exidx_index_entry table b = exidx_index_entry table a + word_of_nat (8 * (b - a))"
    using assms by (simp add: exidx_index_entry_def flip: of_nat_add of_nat_mult distrib_left)
  then show ?thesis by simp
qed

lemma exidx_entry_mid:
  assumes "unat table + 8 * n < 2 ^ 32" "a \<le> b" "b < n"
  shows "exidx_index_entry table a + drop_bit 1 ((exidx_index_entry table b - exidx_index_entry table a) div 8 + 1) * 8
    = exidx_index_entry table (a + (b - a + 1) div 2)"
proof -
  have d: "8 * (b - a) < 2 ^ 32" using assms by linarith
  have "unat ((word_of_nat (8 * (b - a)) :: arm_word) div 8) = b - a"
    using d by (simp add: unat_div unsigned_of_nat take_bit_nat_eq_self del: of_nat_mult)
  then have eighth: "(exidx_index_entry table b - exidx_index_entry table a) div 8 = word_of_nat (b - a)"
    unfolding exidx_entry_diff [OF assms(2)] using d
    by (simp add: word_unat_eq_iff unsigned_of_nat take_bit_nat_eq_self del: of_nat_mult)
  have "unat (drop_bit 1 (word_of_nat (b - a) + 1 :: arm_word)) = (b - a + 1) div 2"
  proof -
    have "word_of_nat (b - a) + 1 = (word_of_nat (b - a + 1) :: arm_word)" by simp
    moreover have "unat (word_of_nat (b - a + 1) :: arm_word) = b - a + 1"
      using d by (simp add: unsigned_of_nat take_bit_nat_eq_self del: of_nat_add of_nat_Suc)
    ultimately show ?thesis unfolding unsigned_drop_bit_eq using d
      by (simp add: drop_bit_eq_div take_bit_nat_eq_self del: of_nat_add of_nat_Suc)
  qed
  then have "drop_bit 1 (word_of_nat (b - a) + 1) = (word_of_nat ((b - a + 1) div 2) :: arm_word)"
    using d by (simp add: word_unat_eq_iff unsigned_of_nat take_bit_nat_eq_self del: of_nat_add of_nat_Suc)
  then show ?thesis unfolding eighth by (simp add: exidx_index_entry_def distrib_left mult.commute del: of_nat_Suc)
qed

lemma search_loop:
  assumes "index_at as table starts" "a < b" "b < length starts" "starts ! a \<le> ip" "ip < starts ! b"
  shows "\<exists>k. a \<le> k \<and> k < b \<and> starts ! k \<le> ip \<and> ip < starts ! (k + 1)
    \<and> iterate (search_body as ip) (exidx_index_entry table a, exidx_index_entry table b) = Some (Inr (exidx_index_entry table k))"
  using assms(2-)
proof (induction "b - a" arbitrary: a b rule: less_induct)
  case less
  let ?n = "length starts"
  have fits: "unat table + 8 * ?n < 2 ^ 32"
    and at: "\<And>i. i < ?n \<Longrightarrow> prel31_to_addr as (exidx_index_entry table i) = Inr (starts ! i)"
    using assms(1) by (auto simp: index_at_def)
  have pre: "exidx_index_entry table b - 8 = exidx_index_entry table (b - 1)"
  proof -
    have "exidx_index_entry table b - exidx_index_entry table (b - 1) = word_of_nat (8 * (b - (b - 1)))"
      by (rule exidx_entry_diff) simp
    moreover have "b - (b - 1) = 1" using less.prems(1) by simp
    ultimately show ?thesis by (simp add: algebra_simps)
  qed
  have more: "exidx_index_entry table a < exidx_index_entry table b - 8 \<longleftrightarrow> a < b - 1"
    unfolding pre using less.prems(1,2) unat_entry [OF fits, of a] unat_entry [OF fits, of "b - 1"]
    by (simp add: word_less_nat_alt)
  show ?case
  proof (cases "a < b - 1")
    case False
    then have "b = a + 1" using less.prems(1) by simp
    moreover have "search_body as ip (exidx_index_entry table a, exidx_index_entry table b) = Inr (Inr (exidx_index_entry table a))"
      using False more by (simp add: search_body_def)
    ultimately show ?thesis using less.prems by (intro exI [of _ a]) (simp add: iterate_end)
  next
    case True
    let ?m = "a + (b - a + 1) div 2"
    have m: "a < ?m" "?m < b" using True by auto
    have mid: "prel31_to_addr as (exidx_index_entry table ?m) = Inr (starts ! ?m)" using at m less.prems(2) by simp
    have body: "search_body as ip (exidx_index_entry table a, exidx_index_entry table b)
        = Inr (Inl (if ip < starts ! ?m then (exidx_index_entry table a, exidx_index_entry table ?m)
                    else (exidx_index_entry table ?m, exidx_index_entry table b)))"
      using True more mid exidx_entry_mid [OF fits less_imp_le [OF less.prems(1)] less.prems(2)]
      by (simp add: search_body_def Let_def)
    show ?thesis
    proof (cases "ip < starts ! ?m")
      case True
      have "\<exists>k. a \<le> k \<and> k < ?m \<and> starts ! k \<le> ip \<and> ip < starts ! (k + 1)
        \<and> iterate (search_body as ip) (exidx_index_entry table a, exidx_index_entry table ?m) = Some (Inr (exidx_index_entry table k))"
        using m less.prems True by (intro less.hyps) auto
      then show ?thesis using m body True by (auto simp: iterate_next intro: exI less_trans)
    next
      case False
      then obtain k where "?m \<le> k" "k < b" "starts ! k \<le> ip" "ip < starts ! (k + 1)"
        "iterate (search_body as ip) (exidx_index_entry table ?m, exidx_index_entry table b) = Some (Inr (exidx_index_entry table k))"
        using less.hyps [OF _ m(2) less.prems(2) _ less.prems(4)] m less.prems(1) by (fastforce simp: not_less)
      then show ?thesis using m body False by (intro exI [of _ k]) (simp add: iterate_next)
    qed
  qed
qed

lemma find_entry:
  assumes "index_at as (ad_table_data di) starts" "8 * length starts = unat (ad_table_len di)" "starts \<noteq> []"
    "starts ! 0 \<le> ip"
  shows "\<exists>k < length starts. starts ! k \<le> ip \<and> (k + 1 < length starts \<longrightarrow> ip < starts ! (k + 1))
    \<and> arm_search_unwind_table as ip di pi need = Inr (arm_found as di starts k (last_address di starts k) pi need)"
proof -
  let ?n = "length starts" and ?t = "ad_table_data di"
  have at: "prel31_to_addr as (exidx_index_entry ?t i) = Inr (starts ! i)" if "i < ?n" for i
    using assms(1) that by (auto simp: index_at_def)
  have first: "exidx_index_entry ?t 0 = ?t" by (simp add: exidx_index_entry_def)
  have len: "ad_table_len di = word_of_nat (8 * ?n)"
    using assms(2) by (simp del: of_nat_mult)
  have final: "?t + ad_table_len di - 8 = exidx_index_entry ?t (?n - 1)"
  proof -
    have "8 * ?n = 8 * (?n - 1) + 8" using assms(3) by (cases starts) auto
    then have "ad_table_len di = word_of_nat (8 * (?n - 1)) + 8" unfolding len by (metis of_nat_add of_nat_numeral)
    then show ?thesis by (simp add: exidx_index_entry_def)
  qed
  have p0: "prel31_to_addr as ?t = Inr (starts ! 0)" using at [of 0] assms(3) first by simp
  have pn: "prel31_to_addr as (exidx_index_entry ?t (?n - 1)) = Inr (starts ! (?n - 1))" using at assms(3) by simp
  show ?thesis
  proof (cases "ip < starts ! (?n - 1)")
    case False
    then have "arm_search_unwind_table as ip di pi need = Inr (arm_found as di starts (?n - 1) (last_address di starts (?n - 1)) pi need)"
      using assms(3,4) p0 pn
      by (simp add: arm_search_unwind_table_def Let_def final arm_found_def last_address_def not_less [symmetric])
    then show ?thesis using False assms(3) by (intro exI [of _ "?n - 1"]) auto
  next
    case True
    then have "0 < ?n - 1" using assms(4) by (cases "?n - 1 = 0") auto
    then obtain k where k: "k < ?n - 1" "starts ! k \<le> ip" "ip < starts ! (k + 1)"
      "iterate (search_body as ip) (exidx_index_entry ?t 0, exidx_index_entry ?t (?n - 1)) = Some (Inr (exidx_index_entry ?t k))"
      using search_loop [OF assms(1) \<open>0 < ?n - 1\<close> _ assms(4) True] assms(3) by auto
    have "exidx_index_entry ?t k + 8 = exidx_index_entry ?t (k + 1)" by (simp add: exidx_index_entry_def)
    then have "arm_search_unwind_table as ip di pi need = Inr (arm_found as di starts k (last_address di starts k) pi need)"
      using k assms(4) True p0 pn at [of k] at [of "k + 1"] first
      by (simp add: arm_search_unwind_table_def Let_def final arm_found_def last_address_def returns_def)
    then show ?thesis using k by (intro exI [of _ k]) auto
  qed
qed

end
