(* ===== verification/ArmSafe.thy ===== *)
theory ArmSafe
  imports ArmTable
begin

text \<open>
  Whatever the tables hold, the step with them ends, stays within the buffer on the stack and the
  locations of the cursor, and keeps their number.
\<close>

section \<open>Results without an access out of bounds\<close>

text \<open>A result, or the end by an assertion or an undefined shift.\<close>

definition sound :: "('a \<Rightarrow> bool) \<Rightarrow> 'a res \<Rightarrow> bool" where
  "sound P r \<longleftrightarrow> (case r of Inl f \<Rightarrow> f = Aborted \<or> f = Bad_shift | Inr x \<Rightarrow> P x)"

lemma sound_simps [simp]: "sound P (Inr x) \<longleftrightarrow> P x" "sound P (Inl f) \<longleftrightarrow> f = Aborted \<or> f = Bad_shift"
  by (simp_all add: sound_def)

lemma sound_rbind: "sound P m \<Longrightarrow> (\<And>x. P x \<Longrightarrow> sound Q (f x)) \<Longrightarrow> sound Q (rbind m f)"
  by (cases m) simp_all

definition arm_typed :: "arm_space \<Rightarrow> arm_cursor \<Rightarrow> bool" where
  "arm_typed as c \<longleftrightarrow> length (ac_loc c) = ARM_NUM_PRESERVED_REGS \<and> ac_as c = as"

lemma typed_loc_at: "arm_typed as c \<Longrightarrow> r < ARM_NUM_PRESERVED_REGS \<Longrightarrow> arm_loc_at c r = Inr (ac_loc c ! r)"
  by (simp add: arm_typed_def arm_loc_at_def)

lemma typed_set_loc:
  "arm_typed as c \<Longrightarrow> r < ARM_NUM_PRESERVED_REGS \<Longrightarrow> arm_set_loc c r l = Inr (c\<lparr>ac_loc := (ac_loc c)[r := l]\<rparr>)"
  by (simp add: arm_typed_def arm_set_loc_def)

lemma typed_updates [simp]:
  "arm_typed as (c\<lparr>ac_cfa := x\<rparr>) \<longleftrightarrow> arm_typed as c" "arm_typed as (c\<lparr>ac_ip := x\<rparr>) \<longleftrightarrow> arm_typed as c"
  "arm_typed as (c\<lparr>ac_loc := (ac_loc c)[r := l]\<rparr>) \<longleftrightarrow> arm_typed as c"
  "arm_typed as (c\<lparr>ac_pi := q\<rparr>) \<longleftrightarrow> arm_typed as c" "arm_typed as (c\<lparr>ac_pi_valid := b\<rparr>) \<longleftrightarrow> arm_typed as c"
  by (simp_all add: arm_typed_def)

section \<open>Commands\<close>

lemma pop_regs_typed:
  "arm_typed as c \<Longrightarrow> \<forall>r \<in> set rs. r < ARM_NUM_PRESERVED_REGS \<Longrightarrow> sound (arm_typed as) (pop_regs rs n c)"
  by (induction rs arbitrary: c) (simp_all add: typed_set_loc)

lemma exbuf_fields: "ARM_EXBUF_START x < 16" "ARM_EXBUF_END x < 32"
proof -
  have nibble: "unat (w AND 0x0f) < 16" for w :: arm_word
  proof -
    have "w AND 0x0f = w AND mask 4" by (simp add: mask_eq_exp_minus_1)
    also have "w AND mask 4 < 16" using and_mask_less_size [of 4 w] by (simp add: word_size)
    finally show ?thesis by (simp add: word_less_nat_alt)
  qed
  show "ARM_EXBUF_START x < 16" "ARM_EXBUF_END x < 32"
    using nibble [of "drop_bit 4 x"] nibble [of x]
    by (simp_all add: ARM_EXBUF_START_def ARM_EXBUF_END_def ARM_EXBUF_COUNT_def)
qed

lemma apply_cmd_typed:
  assumes "arm_typed as c"
  shows "sound (\<lambda>(c', ret). arm_typed as c') (arm_exidx_apply_cmd edata c)"
proof -
  have core: "sound (arm_typed as) (pop_regs (map ((+) UNW_ARM_R0) (regs_of_mask (ed_data edata))) 4 c)"
    by (rule pop_regs_typed [OF assms]) (auto simp: regs_of_mask_def)
  have vfp: "sound (arm_typed as) (pop_regs (map ((+) UNW_ARM_S0)
      [ARM_EXBUF_START (ed_data edata)..<ARM_EXBUF_END (ed_data edata) + 1]) 8 c)"
    using exbuf_fields [of "ed_data edata"] by (intro pop_regs_typed [OF assms]) auto
  have r: "\<not> unat (ed_data edata) < 16 \<longleftrightarrow> \<not> ed_data edata < 16" by (simp add: word_less_nat_alt)
  show ?thesis
  proof (cases "ed_cmd edata")
    case ARM_EXIDX_CMD_FINISH
    then show ?thesis using assms by (simp add: arm_exidx_apply_cmd_def typed_loc_at typed_set_loc)
  next
    case ARM_EXIDX_CMD_REG_POP
    show ?thesis
      unfolding arm_exidx_apply_cmd_def Let_def ARM_EXIDX_CMD_REG_POP arm_exbuf_cmd.case
      by (rule sound_rbind [OF core]) (simp add: typed_loc_at)
  next
    case ARM_EXIDX_CMD_VFP_POP
    show ?thesis
      unfolding arm_exidx_apply_cmd_def Let_def ARM_EXIDX_CMD_VFP_POP arm_exbuf_cmd.case
      by (rule sound_rbind [OF vfp]) simp
  next
    case ARM_EXIDX_CMD_REG_TO_SP
    then show ?thesis
      using assms r by (cases "ed_data edata < 16") (simp_all add: arm_exidx_apply_cmd_def Let_def typed_loc_at typed_set_loc)
  qed (use assms in \<open>simp_all add: arm_exidx_apply_cmd_def Let_def\<close>)
qed

section \<open>Decoding\<close>

lemma uleb_operand_total:
  assumes "k \<le> 5" "i + (5 - k) < length buf"
  shows "\<exists>r. iterate (uleb_operand_body buf) (i, offset, 7 * k) = Some r \<and> sound (\<lambda>(j, _). i < j) r"
  using assms
proof (induction "5 - k" arbitrary: k i offset)
  case 0
  then have "uleb_operand_body buf (i, offset, 7 * k) = Inl Bad_shift" by (simp add: uleb_operand_body_def)
  then show ?case by (subst iterate.simps) simp
next
  case (Suc m)
  let ?offset = "offset OR push_bit (7 * k) (ucast (buf ! i AND 0x7f))"
  from Suc.prems Suc.hyps(2) have i: "i < length buf" by simp
  have "uleb_operand_body buf (i, offset, 7 * k) =
      (if 7 * k \<ge> 32 \<or> unat (buf ! i AND 0x7f) * 2 ^ (7 * k) \<ge> 2 ^ 31 then Inl Bad_shift
       else if buf ! i AND 0x80 \<noteq> 0 then Inr (Inl (i + 1, ?offset, 7 * k + 7)) else Inr (Inr (i + 1, ?offset)))"
    using i by (simp add: uleb_operand_body_def Let_def)
  then consider "uleb_operand_body buf (i, offset, 7 * k) = Inl Bad_shift"
    | "uleb_operand_body buf (i, offset, 7 * k) = Inr (Inl (i + 1, ?offset, 7 * k + 7))"
    | "uleb_operand_body buf (i, offset, 7 * k) = Inr (Inr (i + 1, ?offset))"
    by presburger
  then show ?case
  proof cases
    case 1
    then show ?thesis by (subst iterate.simps) simp
  next
    case 2
    have "\<exists>r. iterate (uleb_operand_body buf) (i + 1, ?offset, 7 * (k + 1)) = Some r \<and> sound (\<lambda>(j, _). i + 1 < j) r"
      using Suc.prems Suc.hyps(2) by (intro Suc.hyps(1)) auto
    then obtain r where r: "iterate (uleb_operand_body buf) (i + 1, ?offset, 7 * (k + 1)) = Some r"
      "sound (\<lambda>(j, _). i + 1 < j) r" by auto
    have "sound (\<lambda>(j, _). i < j) r" using r(2) by (cases r) auto
    then show ?thesis using r(1) 2 by (simp add: iterate_next add.commute)
  next
    case 3
    then show ?thesis by (simp add: iterate_end)
  qed
qed

lemma decode_pop_total:
  assumes "i \<le> n" "n + 5 < length buf" "0 < i"
  shows "sound (\<lambda>(e, j). i \<le> j) (decode_pop buf n op i)"
proof -
  have at: "arr_get buf i = Inr (buf ! i)" using assms by simp
  obtain r where r: "iterate (uleb_operand_body buf) (i, 0, 0) = Some r" "sound (\<lambda>(j, _). i < j) r"
    using uleb_operand_total [of 0 i buf 0] assms by auto
  then have "sound (\<lambda>(j, _). i < j) (returns (iterate (uleb_operand_body buf) (i, 0, 0)))" by (simp add: returns_def)
  then have uleb: "sound (\<lambda>(e, j). i \<le> j) (rbind (returns (iterate (uleb_operand_body buf) (i, 0, 0))) (\<lambda>(i, offset).
        Inr (exbuf ARM_EXIDX_CMD_DATA_POP (offset * 4 + 0x204), i)))"
    by (rule sound_rbind) auto
  show ?thesis
  proof (cases "op = 0xb2")
    case True
    then show ?thesis using uleb by (simp add: decode_pop_def)
  next
    case False
    then show ?thesis using assms(1) at by (simp add: decode_pop_def Let_def)
  qed
qed

lemma decode_insn_total:
  assumes "i < n" "n + 5 < length buf"
  shows "sound (\<lambda>(e, j). i < j) (decode_insn buf n i)"
proof -
  have at: "arr_get buf i = Inr (buf ! i)" "arr_get buf (Suc i) = Inr (buf ! Suc i)" using assms by simp_all
  have "sound (\<lambda>(e, j). i + 1 \<le> j) (decode_pop buf n (buf ! i) (i + 1))"
    using assms by (intro decode_pop_total) auto
  then have pop: "sound (\<lambda>(e, j). i < j) (decode_pop buf n (buf ! i) (i + 1))" by (simp add: Suc_le_eq)
  show ?thesis using at pop by (simp add: decode_insn_def Let_def)
qed

lemma decode_total:
  assumes "n + 5 < length buf" "arm_typed as c"
  shows "\<exists>r. iterate (decode_body buf n) (i, c) = Some r \<and> sound (\<lambda>(c', ret). arm_typed as c') r"
  using assms(2)
proof (induction "n - i" arbitrary: i c rule: less_induct)
  case less
  show ?case
  proof (cases "i < n")
    case False
    then show ?thesis using less.prems by (simp add: iterate_end decode_body_def)
  next
    case True
    show ?thesis
    proof (cases "decode_insn buf n i")
      case (Inl f)
      then have "f = Aborted \<or> f = Bad_shift" using decode_insn_total [OF True assms(1)] by simp
      moreover have "decode_body buf n (i, c) = Inl f" using True Inl by (simp add: decode_body_def)
      ultimately show ?thesis by (subst iterate.simps) simp
    next
      case (Inr a)
      then obtain edata j where insn: "decode_insn buf n i = Inr (edata, j)" "i < j"
        using decode_insn_total [OF True assms(1)] by (cases a) auto
      show ?thesis
      proof (cases "arm_exidx_apply_cmd edata c")
        case (Inl f)
        then have "f = Aborted \<or> f = Bad_shift" using apply_cmd_typed [OF less.prems, of edata] by simp
        moreover have "decode_body buf n (i, c) = Inl f" using True insn Inl by (simp add: decode_body_def)
        ultimately show ?thesis by (subst iterate.simps) simp
      next
        case (Inr b)
        then obtain c' ret where cmd: "arm_exidx_apply_cmd edata c = Inr (c', ret)" "arm_typed as c'"
          using apply_cmd_typed [OF less.prems, of edata] by (cases b) auto
        show ?thesis
        proof (cases ret)
          case (Inl e)
          then show ?thesis using True insn cmd by (simp add: decode_body_def iterate_end)
        next
          case (Inr u)
          have "\<exists>r. iterate (decode_body buf n) (j, c') = Some r \<and> sound (\<lambda>(c', ret). arm_typed as c') r"
            using True insn(2) cmd(2) by (intro less.hyps) auto
          moreover have "decode_body buf n (i, c) = Inr (Inl (j, c'))"
            using True insn cmd Inr by (simp add: decode_body_def)
          ultimately show ?thesis by (simp add: iterate_next)
        qed
      qed
    qed
  qed
qed

section \<open>Extracting\<close>

text \<open>The end of an extraction: the bytes of at most six words, or an error, or the failed assertion.\<close>

definition extracts :: "nat \<Rightarrow> 8 word list res \<Rightarrow> bool" where
  "extracts k r \<longleftrightarrow> (case r of Inl f \<Rightarrow> f = Aborted \<or> (\<exists>e. f = Err e) | Inr bs \<Rightarrow> length bs \<le> k)"

lemma extracts_simps [simp]:
  "extracts k (Inr bs) \<longleftrightarrow> length bs \<le> k" "extracts k (Inl f) \<longleftrightarrow> f = Aborted \<or> (\<exists>e. f = Err e)"
  by (simp_all add: extracts_def)

lemma arm_read_cases: "arm_read as a = Inl (Err UNW_EINVAL) \<or> (\<exists>v. arm_read as a = Inr v)"
  by (cases "arm_access_mem as a") (simp_all add: arm_read_def)

lemma extracts_read: "(\<And>v. extracts k (f v)) \<Longrightarrow> extracts k (rbind (arm_read as a) f)"
  using arm_read_cases [of as a] by auto

lemma extracts_prel31: "(\<And>v. extracts k (f v)) \<Longrightarrow> extracts k (rbind (prel31_to_addr as a) f)"
  unfolding prel31_to_addr_def rbind_assoc by (rule extracts_read) simp

lemma length_low_bytes [simp]: "length (low_bytes n w) = n"
  by (simp add: low_bytes_def)

lemma extracts_words: "extracts (4 * n) (read_table_words as a n)"
proof (induction n arbitrary: a)
  case (Suc n)
  show ?case
    unfolding read_table_words.simps
  proof (rule extracts_read)
    fix w
    show "extracts (4 * Suc n) (rbind (read_table_words as (a + 4) n) (\<lambda>bytes. Inr (low_bytes 4 w @ bytes)))"
      using Suc [of "a + 4"] by (cases "read_table_words as (a + 4) n") auto
  qed
qed simp

lemma extracts_table_words:
  assumes "length buf \<le> 3"
  shows "extracts 23 (if \<not> n \<le> 5 then Inl Aborted else rbind (read_table_words as a n) (\<lambda>bytes. Inr (buf @ bytes)))"
proof (cases "n \<le> 5")
  case True
  then show ?thesis using extracts_words [of n as a] assms by (cases "read_table_words as a n") auto
qed simp

lemma extract_table_length: "extracts 23 (extract_table as e)"
  unfolding extract_table_def
proof (intro extracts_prel31 extracts_read)
  fix t w
  show "extracts 23 (rbind (if w AND ARM_EXIDX_COMPACT \<noteq> 0 then
              (let pers = unat (drop_bit 24 w AND 0x0f) in
               Inr (if pers = 1 \<or> pers = 2
                    then (low_bytes 2 w, unat (drop_bit 16 w AND 0xff), t + 4)
                    else (low_bytes 3 w, 0, t)))
            else
              rbind (prel31_to_addr as t) (\<lambda>_.
              rbind (arm_read as (t + 4)) (\<lambda>data.
              Inr (low_bytes 3 data, unat (drop_bit 24 data), t + 8)))) (\<lambda>(buf, n_table_words, extbl_data).
     if \<not> n_table_words \<le> 5 then Inl Aborted
     else rbind (read_table_words as extbl_data n_table_words) (\<lambda>bytes. Inr (buf @ bytes))))"
  proof (cases "w AND ARM_EXIDX_COMPACT \<noteq> 0")
    case True
    show ?thesis
    proof (cases "unat (drop_bit 24 w AND 0x0f) = 1 \<or> unat (drop_bit 24 w AND 0x0f) = 2")
      case pers: True
      show ?thesis unfolding Let_def if_P [OF True] if_P [OF pers] rbind_simps prod.case
        by (rule extracts_table_words) simp
    next
      case pers: False
      show ?thesis unfolding Let_def if_P [OF True] if_not_P [OF pers] rbind_simps prod.case
        by (rule extracts_table_words) simp
    qed
  next
    case False
    show ?thesis
      unfolding if_not_P [OF False] rbind_assoc
      by (intro extracts_prel31 extracts_read) (simp only: rbind_simps prod.case, rule extracts_table_words, simp)
  qed
qed

lemma extract_length: "extracts 24 (arm_exidx_extract c)"
  unfolding arm_exidx_extract_def Let_def
proof (intro extracts_prel31 extracts_read)
  fix data
  have "extracts 23 (if data AND ARM_EXIDX_COMPACT \<noteq> 0 then Inr (low_bytes 3 data)
      else extract_table (ac_as c) (ap_unwind_info (ac_pi c)))"
    using extract_table_length by simp
  then show "extracts 24 (if data = ARM_EXIDX_CANT_UNWIND then Inl (Err UNW_ESTOPUNWIND)
      else rbind (if data AND ARM_EXIDX_COMPACT \<noteq> 0 then Inr (low_bytes 3 data)
        else extract_table (ac_as c) (ap_unwind_info (ac_pi c))) (\<lambda>buf. Inr (add_finish buf)))"
    by (cases "if data AND ARM_EXIDX_COMPACT \<noteq> 0 then Inr (low_bytes 3 data)
        else extract_table (ac_as c) (ap_unwind_info (ac_pi c))") (auto simp: add_finish_def)
qed

end
