(* ===== verification/ArmStep.thy ===== *)
theory ArmStep
  imports ArmTable
begin

text \<open>
  The cursor of 32-bit ARM and its step: signal frames of Linux (\<open>src/arm/Gos-linux.c\<close>), the order in
  which the methods are tried and what each failure leads to (\<open>src/arm/Gstep.c\<close>), the initialisation
  (\<open>src/arm/init.h\<close>) and the reads of core registers (\<open>src/arm/Gregs.c\<close>).
\<close>

datatype arm_sigcontext_format =
    ARM_SCF_NONE | ARM_SCF_LINUX_SIGFRAME | ARM_SCF_LINUX_RT_SIGFRAME
  | ARM_SCF_LINUX_OLD_SIGFRAME | ARM_SCF_LINUX_OLD_RT_SIGFRAME

record arm_ucursor =
  au_dwarf :: arm_cursor
  au_frame_type :: int
  au_cfa_reg_offset :: arm_word
  au_sigcontext_format :: arm_sigcontext_format
  au_sigcontext_addr :: arm_word
  au_sigcontext_sp :: arm_word
  au_sigcontext_pc :: arm_word
  au_validate :: bool

section \<open>Initialisation and registers\<close>

abbreviation arm_reg_loc :: "nat \<Rightarrow> arm_loc" where
  "arm_reg_loc r \<equiv> \<lparr>al_val = word_of_nat r, al_reg = True\<rparr>"

abbreviation (input) UNW_ARM_S15 :: nat where "UNW_ARM_S15 \<equiv> 79"

text \<open>\<open>common_init\<close> writes the locations of the core registers and of \<open>s0\<close> to \<open>s15\<close> and nulls those behind.\<close>

definition arm_init_locs :: "arm_loc list \<Rightarrow> arm_loc list" where
  "arm_init_locs ls =
     map (\<lambda>r. if r < 16 \<or> UNW_ARM_S0 \<le> r \<and> r \<le> UNW_ARM_S15 then arm_reg_loc r
              else if UNW_ARM_S15 < r then arm_null_loc else ls ! r) [0..<ARM_NUM_PRESERVED_REGS]"

definition arm_common_init :: "bool \<Rightarrow> arm_ucursor \<Rightarrow> arm_ucursor res" where
  "arm_common_init use_prev_instr u =
     (let d = (au_dwarf u)\<lparr>ac_loc := arm_init_locs (ac_loc (au_dwarf u))\<rparr> in
      rbind (arm_get d (ac_loc d ! UNW_ARM_R15)) (\<lambda>ip.
      rbind (arm_get d (arm_reg_loc UNW_ARM_R13)) (\<lambda>cfa.
      Inr (u\<lparr>au_dwarf := d\<lparr>ac_ip := ip, ac_cfa := cfa, ac_use_prev_instr := use_prev_instr, ac_pi_valid := False\<rparr>,
             au_sigcontext_format := ARM_SCF_NONE, au_sigcontext_addr := 0, au_sigcontext_sp := 0,
             au_sigcontext_pc := 0\<rparr>))))"

text \<open>\<open>tdep_access_reg\<close> for reading; the pseudo register of the frame address is 288.\<close>

definition arm_get_reg :: "arm_cursor \<Rightarrow> nat \<Rightarrow> arm_word res" where
  "arm_get_reg c reg =
     (if reg = UNW_ARM_R15 then Inr (ac_ip c)
      else if reg \<le> 12 \<or> reg = UNW_ARM_R14 then rbind (arm_loc_at c reg) (arm_get c)
      else if reg = UNW_ARM_R13 \<or> reg = 288 then Inr (ac_cfa c)
      else Inl (Err UNW_EBADREG))"

section \<open>Signal frames\<close>

definition arm_sigreturn :: "arm_word list" where
  "arm_sigreturn = [0xe3a07077, 0xef900077, 0xdf002777, 0x0777f04f]"

definition arm_rt_sigreturn :: "arm_word list" where
  "arm_rt_sigreturn = [0xe3a070ad, 0xef9000ad, 0xdf0027ad, 0x07adf04f]"

definition arm_is_signal_frame :: "arm_cursor \<Rightarrow> nat res" where
  "arm_is_signal_frame c =
     rbind (lift_acc (arm_access_mem (ac_as c) (ac_ip c AND NOT 1))) (\<lambda>w0.
     Inr (if w0 \<in> set arm_sigreturn then 1 else if w0 \<in> set arm_rt_sigreturn then 2 else 0))"

abbreviation (input) LINUX_UC_MCONTEXT_OFF :: arm_word where "LINUX_UC_MCONTEXT_OFF \<equiv> 0x14"
abbreviation (input) LINUX_SC_R0_OFF :: arm_word where "LINUX_SC_R0_OFF \<equiv> 0x0c"
abbreviation (input) sizeof_siginfo_t :: arm_word where "sizeof_siginfo_t \<equiv> 128"
abbreviation (input) UNW_ARM_FRAME_SIGRETURN :: int where "UNW_ARM_FRAME_SIGRETURN \<equiv> - 1"

text \<open>The locations of a context: the core registers lie one after the other.\<close>

definition arm_sigcontext_locs :: "arm_word \<Rightarrow> arm_loc list" where
  "arm_sigcontext_locs sc_addr =
     map (\<lambda>r. if r < 16 then arm_mem_loc (sc_addr + LINUX_SC_R0_OFF + 4 * word_of_nat r) else arm_null_loc)
       [0..<ARM_NUM_PRESERVED_REGS]"

text \<open>The formats of the contexts, by the kind of frame and the first word on the stack.\<close>

definition arm_sigcontext :: "nat \<Rightarrow> arm_word \<Rightarrow> arm_word \<Rightarrow> (arm_sigcontext_format \<times> arm_word) option" where
  "arm_sigcontext kind sp sp_addr =
     (if kind = 1 then
        Some (if sp = 0x5ac3c35a then (ARM_SCF_LINUX_SIGFRAME, sp_addr + LINUX_UC_MCONTEXT_OFF)
              else (ARM_SCF_LINUX_OLD_SIGFRAME, sp_addr))
      else if kind = 2 then
        Some (if sp = sp_addr + 8
              then (ARM_SCF_LINUX_OLD_RT_SIGFRAME, sp_addr + 8 + sizeof_siginfo_t + LINUX_UC_MCONTEXT_OFF)
              else (ARM_SCF_LINUX_RT_SIGFRAME, sp_addr + sizeof_siginfo_t + LINUX_UC_MCONTEXT_OFF))
      else None)"

definition arm_handle_signal_frame :: "arm_ucursor \<Rightarrow> (arm_ucursor \<times> (unw_error + bool)) res" where
  "arm_handle_signal_frame u =
     (let d = au_dwarf u; sp_addr = ac_cfa d in
      rbind (attempt (arm_get d (arm_mem_loc sp_addr))) (\<lambda>r.
      case r of
        Inl _ \<Rightarrow> Inr (u, Inl UNW_EUNSPEC)
      | Inr sp \<Rightarrow>
          rbind (attempt (arm_is_signal_frame d)) (\<lambda>kind.
          let u = u\<lparr>au_sigcontext_sp := ac_cfa d, au_sigcontext_pc := ac_ip d\<rparr> in
          case (case kind of Inl _ \<Rightarrow> None | Inr kind \<Rightarrow> arm_sigcontext kind sp sp_addr) of
            None \<Rightarrow> Inr (u, Inl UNW_EUNSPEC)
          | Some (format, sc_addr) \<Rightarrow>
              let d = d\<lparr>ac_loc := arm_sigcontext_locs sc_addr\<rparr>;
                  d = d\<lparr>ac_cfa := arm_get_or d (ac_loc d ! UNW_ARM_R13) (ac_cfa d)\<rparr>;
                  d = d\<lparr>ac_ip := arm_get_or d (ac_loc d ! UNW_ARM_R15) (ac_ip d)\<rparr> in
              Inr (u\<lparr>au_dwarf := d\<lparr>ac_pi_valid := False, ac_use_prev_instr := False\<rparr>,
                     au_sigcontext_format := format, au_sigcontext_addr := sc_addr,
                     au_frame_type := UNW_ARM_FRAME_SIGRETURN, au_cfa_reg_offset := sc_addr - sp_addr\<rparr>, Inr True))))"

section \<open>The step\<close>

text \<open>The link register as the return address: of a location, when it is readable and not zero.\<close>

definition arm_to_lr :: "arm_loc \<Rightarrow> arm_cursor \<Rightarrow> arm_cursor option" where
  "arm_to_lr l c =
     (case arm_get c l of
        Inl _ \<Rightarrow> None
      | Inr lr \<Rightarrow>
          if lr = 0 then None
          else Some (c\<lparr>ac_ip := lr, ac_loc := (ac_loc c)[UNW_ARM_R14 := arm_null_loc], ac_use_prev_instr := True,
                       ac_pi_valid := False\<rparr>))"

text \<open>
  The chain of APCS frames. Every outcome is 0: a read that fails returns it at once, a null frame is
  \<open>UNW_ENOINFO\<close>, which becomes it, and a frame that is found keeps the \<open>UNW_ESUCCESS\<close> of the beginning.
\<close>

definition arm_frame_chain :: "arm_cursor \<Rightarrow> arm_cursor res" where
  "arm_frame_chain c =
     rbind (arm_loc_at c 11) (\<lambda>l.
     rbind (attempt (arm_get c l)) (\<lambda>frame.
     case frame of
       Inl _ \<Rightarrow> Inr c
     | Inr frame \<Rightarrow>
         let c = c\<lparr>ac_loc := replicate ARM_NUM_PRESERVED_REGS arm_null_loc\<rparr> in
         if frame = 0 then Inr c
         else
           rbind (attempt (arm_get c (arm_mem_loc frame))) (\<lambda>instr.
           case instr of
             Inl _ \<Rightarrow> Inr c
           | Inr instr \<Rightarrow>
               rbind (attempt (arm_get c (arm_mem_loc (instr - 8)))) (\<lambda>instr.
               case instr of
                 Inl _ \<Rightarrow> Inr c
               | Inr instr \<Rightarrow>
                   let (ip_loc, fp_loc) =
                         (if instr AND 0xffffd800 = 0xe92dd800
                          then (arm_mem_loc (frame - 4), arm_mem_loc (frame - 12))
                          else (arm_mem_loc frame, arm_mem_loc (frame - 4))) in
                   rbind (attempt (arm_get c ip_loc)) (\<lambda>ip.
                   case ip of
                     Inl _ \<Rightarrow> Inr c
                   | Inr ip \<Rightarrow>
                       Inr (c\<lparr>ac_ip := ip, ac_loc := (ac_loc c)[12 := ip_loc, 11 := fp_loc],
                              ac_pi_valid := False\<rparr>))))))"

text \<open>The methods that the environment enables.\<close>

record arm_methods =
  am_exidx :: bool
  am_dwarf :: bool
  am_frame :: bool

text \<open>What follows when the tables and DWARF have not stepped: \<open>stop\<close> says that the entry forbids it.\<close>

definition arm_fallback ::
  "arm_methods \<Rightarrow> bool \<Rightarrow> arm_cursor \<Rightarrow> unw_error + bool \<Rightarrow> (arm_cursor \<times> (unw_error + bool)) res" where
  "arm_fallback methods stop d ret =
     (if stop then
        rbind (arm_loc_at d UNW_ARM_R14) (\<lambda>l.
        Inr (case arm_to_lr l d of Some d \<Rightarrow> (d, Inr True) | None \<Rightarrow> (d, Inr False)))
      else
        rbind (if isl ret \<and> am_frame methods
               then rbind (arm_frame_chain d) (\<lambda>d. Inr (d, Inr False)) else Inr (d, ret)) (\<lambda>(d, ret).
        Inr (d, if ret = Inl UNW_ENOINFO then Inr False else ret)))"

text \<open>The step by DWARF, which the parameter is, and what its results lead to.\<close>

definition arm_try_dwarf ::
  "arm_methods \<Rightarrow> (arm_cursor \<Rightarrow> (arm_cursor \<times> (unw_error + bool)) res) \<Rightarrow> bool \<Rightarrow> arm_cursor \<Rightarrow> unw_error
    \<Rightarrow> (arm_cursor \<times> (unw_error + bool)) res" where
  "arm_try_dwarf methods dwarf_step stop d e =
     (if am_dwarf methods then
        rbind (arm_loc_at d UNW_ARM_R14) (\<lambda>saved_r14_loc.
        rbind (dwarf_step d) (\<lambda>(d, ret).
        case ret of
          Inr True \<Rightarrow> Inr (d, Inr True)
        | Inr False \<Rightarrow>
            (case if \<not> stop \<and> saved_r14_loc \<noteq> arm_null_loc then arm_to_lr saved_r14_loc d else None of
               Some d \<Rightarrow> Inr (d, Inr True)
             | None \<Rightarrow> arm_fallback methods stop d (Inr False))
        | Inl e \<Rightarrow> if e \<noteq> UNW_ENOINFO then Inr (d, Inl e) else arm_fallback methods stop d (Inl e)))
      else arm_fallback methods stop d (Inl e))"

text \<open>\<open>unw_step\<close>, with whether it returns 1. A signal frame leaves \<open>validate\<close> set.\<close>

definition arm_unw_step ::
  "arm_methods \<Rightarrow> (arm_word \<Rightarrow> arm_proc_info res) \<Rightarrow> 8 word list
    \<Rightarrow> (arm_cursor \<Rightarrow> (arm_cursor \<times> (unw_error + bool)) res) \<Rightarrow> arm_ucursor
    \<Rightarrow> (arm_ucursor \<times> (unw_error + bool)) res" where
  "arm_unw_step methods lookup_pi stack dwarf_step u =
     (let d = au_dwarf u in
      rbind (attempt (arm_is_signal_frame d)) (\<lambda>kind.
      if (case kind of Inl _ \<Rightarrow> False | Inr kind \<Rightarrow> kind > 0) then arm_handle_signal_frame (u\<lparr>au_validate := True\<rparr>)
      else
        rbind (if am_exidx methods then arm_exidx_step lookup_pi stack d else Inr (d, Inl UNW_EUNSPEC)) (\<lambda>(d, ret).
        rbind (case ret of
                 Inr b \<Rightarrow> Inr (d, Inr b)
               | Inl e \<Rightarrow> arm_try_dwarf methods dwarf_step (am_exidx methods \<and> e = UNW_ESTOPUNWIND) d e)
          (\<lambda>(d, ret). Inr (u\<lparr>au_dwarf := d\<rparr>, ret)))))"

end
