(* ===== verification/ArmProps.thy ===== *)
theory ArmProps
  imports ArmSearch ArmSafe ArmStep
begin

text \<open>
  The properties of unwinding by the exception tables of 32-bit ARM, and two frames it steps wrongly.
\<close>

section \<open>The step by the tables\<close>

text \<open>C13. Stepping from a procedure whose index entry holds an encoded program of unwind instructions, in
any of its forms and padded with \<open>finish\<close>, does what the instructions say: it moves the virtual stack
pointer, locates the popped registers in the order of their numbers, and takes the link register for the
program counter where none was popped. The encoding need not be padded unless its last byte is that of
\<open>finish\<close>.\<close>

theorem arm_step_unwinds:
  assumes "length (ac_loc c) = ARM_NUM_PRESERVED_REGS" "lookup_pi (arm_lookup_ip c) = Inr pi" "arm_entry c pi entry"
    "\<forall>i \<in> set prog. ehabi_ok i" "entry_bytes entry = ehabi_code prog @ replicate k 0xb0"
    "k = 0 \<longrightarrow> last (ehabi_code prog) \<noteq> 0xb0"
  shows "arm_exidx_step lookup_pi stack c = Inr (arm_stepped c (ehabi_finish (ehabi_run prog (arm_start pi c))))"
proof -
  have "entry_bytes entry \<noteq> []" using assms(3) by (cases entry) (auto simp: arm_entry_def)
  then have "\<exists>pad. add_finish (entry_bytes entry) = ehabi_code prog @ 0xb0 # pad"
  proof (cases k)
    case (Suc m)
    then have code: "entry_bytes entry = ehabi_code prog @ 0xb0 # replicate m 0xb0" using assms(5) by simp
    moreover have "last (entry_bytes entry) = 0xb0" using Suc assms(5) by simp
    ultimately show ?thesis by (simp add: add_finish_def)
  qed (use assms(5,6) \<open>entry_bytes entry \<noteq> []\<close> in \<open>simp add: add_finish_def\<close>)
  then obtain pad where pad: "add_finish (entry_bytes entry) = ehabi_code prog @ 0xb0 # pad" by auto
  from decode_bytes [OF assms(4) refl, of "arm_start pi c" pad] assms(1)
  show ?thesis
    by (intro arm_step_bytes [of c lookup_pi pi entry "ehabi_code prog @ 0xb0 # pad" stack, OF assms(1-3) pad]) simp
qed

text \<open>A procedure that pushes \<open>r4\<close> and \<open>lr\<close> and reserves two words.\<close>

definition example_space :: "(arm_word \<times> arm_word) list \<Rightarrow> arm_space" where
  "example_space ws = \<lparr>arm_access_mem = (\<lambda>a. case map_of ws a of None \<Rightarrow> Inl UNW_EINVAL | Some w \<Rightarrow> Inr w),
     arm_access_reg = (\<lambda>_. Inl UNW_EBADREG)\<rparr>"

definition example_pi :: arm_proc_info where
  "example_pi = zero_arm_pi\<lparr>ap_format := UNW_INFO_FORMAT_ARM_EXIDX, ap_unwind_info := 0x1000\<rparr>"

definition example_cursor :: "(arm_word \<times> arm_word) list \<Rightarrow> arm_cursor" where
  "example_cursor ws = \<lparr>ac_as = example_space ws, ac_loc = replicate 128 arm_null_loc, ac_cfa = 0x7000, ac_ip = 0x9000,
     ac_use_prev_instr = True, ac_pi_valid = False, ac_pi = zero_arm_pi\<rparr>"

definition example_words :: "(arm_word \<times> arm_word) list" where
  "example_words = [(0x1000, 0x7000), (0x1004, 0x8001a8b0), (0x7008, 4), (0x700c, 0x8124)]"

lemma example_entry: "arm_entry (example_cursor example_words) example_pi (Inline [0x01, 0xa8, 0xb0])"
  by (simp add: arm_entry_def example_pi_def example_cursor_def example_space_def example_words_def be_word_def)

lemma example_bytes: "entry_bytes (Inline [0x01, 0xa8, 0xb0]) = ehabi_code [Add_vsp 1, Pop_r4 0 True] @ replicate 1 0xb0"
  by (simp add: ehabi_code_def)

lemma arm_step_unwinds_witness:
  "\<forall>stack. arm_exidx_step (\<lambda>_. Inr example_pi) stack (example_cursor example_words)
     = Inr (arm_stepped (example_cursor example_words)
         (ehabi_finish (ehabi_run [Add_vsp 1, Pop_r4 0 True] (arm_start example_pi (example_cursor example_words)))))
   \<and> ac_ip (ehabi_finish (ehabi_run [Add_vsp 1, Pop_r4 0 True] (arm_start example_pi (example_cursor example_words)))) = 0x8124"
proof -
  have "length (ac_loc (example_cursor example_words)) = 128" by (simp add: example_cursor_def)
  note step = arm_step_unwinds [of "example_cursor example_words" "\<lambda>_. Inr example_pi", OF this refl example_entry _ example_bytes]
  moreover have "ac_ip (ehabi_finish (ehabi_run [Add_vsp 1, Pop_r4 0 True]
      (arm_start example_pi (example_cursor example_words)))) = 0x8124"
    by code_simp
  ultimately show ?thesis by simp
qed

text \<open>
  A program without \<open>finish\<close> whose last byte is that of \<open>finish\<close>, as the mask of \<open>r8\<close>, \<open>r9\<close> and \<open>r11\<close> is:
  the interpreter ends without it, and the step reports a frame at the same address.
\<close>

lemma arm_step_unfinished:
  assumes "length (ac_loc c) = ARM_NUM_PRESERVED_REGS" "lookup_pi (arm_lookup_ip c) = Inr pi" "arm_entry c pi entry"
    "\<forall>i \<in> set prog. ehabi_ok i" "entry_bytes entry = ehabi_code prog" "last (ehabi_code prog) = 0xb0"
    "ac_cfa (ehabi_run prog (arm_start pi c)) \<noteq> ac_cfa c" "ac_ip c \<noteq> 0"
  shows "\<exists>c'. arm_exidx_step lookup_pi stack c = Inr (c', Inr True) \<and> ac_ip c' = ac_ip c"
proof -
  let ?bytes = "ehabi_code prog"
  have "?bytes \<noteq> []" using assms(3,5) by (cases entry) (auto simp: arm_entry_def)
  then have add: "add_finish (entry_bytes entry) = ?bytes" and len: "length ?bytes \<noteq> 0"
    using assms(5,6) by (auto simp: add_finish_def)
  have "bytes_in ([] @ ?bytes @ drop (length ?bytes) stack) (length ([] :: 8 word list)) ?bytes" by (rule bytes_in_prefix)
  then have "arm_exidx_decode (?bytes @ drop (length ?bytes) stack) (length ?bytes) (arm_start pi c)
      = Inr (ehabi_run prog (arm_start pi c), Inr ())"
    using decode_unfinished [OF assms(4), of _ 0 "length ?bytes" "arm_start pi c"] assms(1) len
    by (simp add: arm_exidx_decode_def returns_def)
  from arm_step_bytes [of c lookup_pi pi entry ?bytes stack, OF assms(1-3) add this]
  show ?thesis using assms(7,8) run_keeps_ip [of prog "arm_start pi c"] by (simp add: arm_stepped_def arm_start_def)
qed

definition example_lost :: "(arm_word \<times> arm_word) list" where
  "example_lost = [(0x1000, 0x7000), (0x1004, 0x800084b0), (0x7004, 8), (0x7008, 9), (0x700c, 11), (0x7010, 0x8124)]"

lemma finish_lost:
  "\<exists>c'. arm_exidx_step (\<lambda>_. Inr example_pi) stack (example_cursor example_lost) = Inr (c', Inr True) \<and> ac_ip c' = 0x9000"
proof -
  let ?c = "example_cursor example_lost" and ?prog = "[Add_vsp 0, Pop_upper 0x4b0]"
  have "arm_entry ?c example_pi (Inline [0x00, 0x84, 0xb0])"
    by (simp add: arm_entry_def example_pi_def example_cursor_def example_space_def example_lost_def be_word_def)
  moreover have "entry_bytes (Inline [0x00, 0x84, 0xb0]) = ehabi_code ?prog" "last (ehabi_code ?prog) = 0xb0"
    by (simp_all add: ehabi_code_def)
  moreover have "ac_cfa (ehabi_run ?prog (arm_start example_pi ?c)) \<noteq> ac_cfa ?c" by code_simp
  moreover have "length (ac_loc ?c) = 128" "ac_ip ?c = 0x9000" by (simp_all add: example_cursor_def)
  ultimately show ?thesis
    using arm_step_unfinished [of ?c "\<lambda>_. Inr example_pi" example_pi "Inline [0x00, 0x84, 0xb0]" ?prog stack] by simp
qed

text \<open>C14. Whatever the tables and the memory hold, the step with them ends; it reads the buffer on the stack and
the locations of the cursor within their bounds, keeps the 128 locations and the target, and stops only at the
assertions of the code or at a byte shifted beyond the sign bit of \<open>int\<close>.\<close>

theorem arm_step_total:
  assumes "arm_typed as c" "32 \<le> length stack" "\<And>ip f. lookup_pi ip = Inl f \<Longrightarrow> \<exists>e. f = Err e"
  shows "sound (\<lambda>(c', ret). arm_typed as c') (arm_exidx_step lookup_pi stack c)"
proof -
  let ?c = "\<lambda>pi. c\<lparr>ac_loc := (ac_loc c)[15 := arm_null_loc], ac_pi := pi\<rparr>"
  have c: "arm_typed as (?c pi)" for pi using assms(1) by (simp add: arm_typed_def)
  have found: "sound (\<lambda>(c', ret). arm_typed as c') (rbind (attempt (arm_exidx_extract (?c pi))) (\<lambda>r.
            case r of
              Inl e \<Rightarrow> Inr (?c pi, Inl e)
            | Inr bytes \<Rightarrow>
                rbind (arm_exidx_decode (bytes @ drop (length bytes) stack) (length bytes) (?c pi)) (\<lambda>(c', ret).
                case ret of
                  Inl e \<Rightarrow> Inr (c', Inl e)
                | Inr _ \<Rightarrow>
                    if ac_ip c' = ac_ip c \<and> ac_cfa c' = ac_cfa c then Inr (c', Inl UNW_EBADFRAME)
                    else Inr (c'\<lparr>ac_pi_valid := False\<rparr>, Inr (ac_ip c' \<noteq> 0)))))" for pi
  proof (cases "arm_exidx_extract (?c pi)")
    case (Inl f)
    then show ?thesis using extract_length [of "?c pi"] c by auto
  next
    case (Inr bytes)
    then have len: "length bytes + 5 < length (bytes @ drop (length bytes) stack)"
      using extract_length [of "?c pi"] assms(2) by simp
    have "sound (\<lambda>(c', ret). arm_typed as c') (arm_exidx_decode (bytes @ drop (length bytes) stack) (length bytes) (?c pi))"
      using decode_total [OF len c, of 0 pi] by (auto simp: arm_exidx_decode_def returns_def)
    then show ?thesis unfolding Inr attempt_simps rbind_simps sum.case
      by (rule sound_rbind) (auto split: sum.splits)
  qed
  have set15: "arm_set_loc c UNW_ARM_R15 arm_null_loc = Inr (c\<lparr>ac_loc := (ac_loc c)[15 := arm_null_loc]\<rparr>)"
    using assms(1) by (rule typed_set_loc) simp
  let ?ip = "if ac_use_prev_instr c then (ac_ip c AND NOT 1) - 1 else ac_ip c"
  show ?thesis
  proof (cases "lookup_pi ?ip")
    case (Inl f)
    then show ?thesis using assms(1,3) set15 by (fastforce simp: arm_exidx_step_def Let_def)
  next
    case (Inr pi)
    then show ?thesis using found [of pi] set15 c [of pi] by (simp add: arm_exidx_step_def Let_def)
  qed
qed

lemma arm_step_total_witness:
  "\<forall>b. sound (\<lambda>(c', ret). arm_typed (example_space []) c')
     (arm_exidx_step (\<lambda>_. Inr example_pi) (replicate 32 b) (example_cursor []))"
  by (intro allI arm_step_total) (simp_all add: arm_typed_def example_cursor_def)

section \<open>The search of the index\<close>

text \<open>C15. The search of a sorted index fails for an address before the first procedure and otherwise finds the
last entry whose procedure does not begin behind the address: its start, its index entry, its handler and its
language-specific data. The end address of the range is left open here.\<close>

theorem arm_search_finds:
  assumes "index_at as (ad_table_data di) starts" "8 * length starts = unat (ad_table_len di)" "starts \<noteq> []"
  shows "if ip < starts ! 0 then arm_search_unwind_table as ip di pi need = Inl (Err UNW_ENOINFO)
    else \<exists>end_ip. \<exists>k < length starts. (\<forall>j < length starts. starts ! j \<le> ip \<longleftrightarrow> j \<le> k)
      \<and> arm_search_unwind_table as ip di pi need = Inr (arm_found as di starts k end_ip pi need)"
proof (cases "ip < starts ! 0")
  case True
  moreover have "prel31_to_addr as (ad_table_data di) = Inr (starts ! 0)"
    using assms(1,3) by (auto simp: index_at_def exidx_index_entry_def)
  ultimately show ?thesis by (simp add: arm_search_unwind_table_def Let_def)
next
  case False
  then obtain k where k: "k < length starts" "starts ! k \<le> ip" "k + 1 < length starts \<longrightarrow> ip < starts ! (k + 1)"
    "arm_search_unwind_table as ip di pi need = Inr (arm_found as di starts k (last_address di starts k) pi need)"
    using find_entry [OF assms, of ip pi need] by (auto simp: not_less)
  have sorted: "sorted starts" using assms(1) by (simp add: index_at_def)
  have "starts ! j \<le> ip \<longleftrightarrow> j \<le> k" if "j < length starts" for j
  proof (cases "j \<le> k")
    case True
    then show ?thesis using k(1,2) sorted_nth_mono [OF sorted True] by auto
  next
    case False
    then have "starts ! (k + 1) \<le> starts ! j" using that by (intro sorted_nth_mono [OF sorted]) auto
    then show ?thesis using k(3) False that by auto
  qed
  then show ?thesis using k False by auto
qed

definition example_di :: arm_di where
  "example_di = \<lparr>ad_start_ip = 0x9000, ad_end_ip = 0xa000, ad_format = Some UNW_INFO_FORMAT_ARM_EXIDX,
     ad_table_data = 0x2000, ad_table_len = 24\<rparr>"

definition example_index :: "(arm_word \<times> arm_word) list" where
  "example_index = [(0x2000, 0x7000), (0x2008, 0x70f8), (0x2010, 0x71f0)]"

definition example_starts :: "arm_word list" where
  "example_starts = [0x9000, 0x9100, 0x9200]"

lemma arm_search_finds_witness:
  "\<exists>end_ip. \<exists>k < length example_starts. (\<forall>j < length example_starts. example_starts ! j \<le> 0x9150 \<longleftrightarrow> j \<le> k)
     \<and> arm_search_unwind_table (example_space example_index) 0x9150 example_di zero_arm_pi True
       = Inr (arm_found (example_space example_index) example_di example_starts k end_ip zero_arm_pi True)"
proof -
  have at: "prel31_to_addr (example_space example_index) (exidx_index_entry 0x2000 i) = Inr (example_starts ! i)"
    if "i < 3" for i
  proof -
    have "prel31_to_addr (example_space example_index) 0x2000 = Inr 0x9000"
      "prel31_to_addr (example_space example_index) 0x2008 = Inr 0x9100"
      "prel31_to_addr (example_space example_index) 0x2010 = Inr 0x9200"
      by code_simp+
    moreover have "i = 0 \<or> i = 1 \<or> i = 2" using that by auto
    ultimately show ?thesis by (auto simp: exidx_index_entry_def example_starts_def)
  qed
  have "index_at (example_space example_index) (ad_table_data example_di) example_starts"
    using at by (simp add: index_at_def example_di_def example_starts_def)
  moreover have "8 * length example_starts = unat (ad_table_len example_di)" "example_starts \<noteq> []"
    "\<not> 0x9150 < example_starts ! 0"
    by (simp_all add: example_starts_def example_di_def)
  ultimately show ?thesis
    using arm_search_finds [where ip = "0x9150" and as = "example_space example_index" and di = example_di
        and starts = example_starts and pi = zero_arm_pi and need = True] by (simp only: if_False simp_thms)
qed

section \<open>Signal frames\<close>

lemma sigcontext_loc:
  assumes "unat sc + 76 < 2 ^ 32" "r < 16"
  shows "arm_sigcontext_locs sc ! r = arm_mem_loc (sc + 0x0c + 4 * word_of_nat r)"
    "arm_mem_loc (sc + 0x0c + 4 * word_of_nat r) \<noteq> arm_null_loc"
proof -
  show "arm_sigcontext_locs sc ! r = arm_mem_loc (sc + 0x0c + 4 * word_of_nat r)"
    using assms(2) by (simp add: arm_sigcontext_locs_def)
  have "sc + 0x0c + 4 * word_of_nat r = sc + word_of_nat (12 + 4 * r)" by simp
  moreover have "unat (sc + word_of_nat (12 + 4 * r)) = unat sc + (12 + 4 * r)"
    using assms by (simp add: unat_word_ariths unsigned_of_nat take_bit_nat_eq_self del: of_nat_add of_nat_mult)
  ultimately have "sc + 0x0c + 4 * word_of_nat r \<noteq> 0" by (metis add_is_0 unsigned_0 zero_neq_numeral)
  then show "arm_mem_loc (sc + 0x0c + 4 * word_of_nat r) \<noteq> arm_null_loc" by (simp add: arm_null_loc_def)
qed

text \<open>C16. At a signal-return trampoline the step goes to the interrupted frame, and every core register of that
frame reads as the value the kernel saved in the context, in each of the four layouts; the instruction looked up
next is the interrupted one itself.\<close>

theorem signal_frame_restores:
  assumes "au_dwarf u = d" "arm_is_signal_frame d = Inr kind" "kind \<noteq> 0" "arm_access_mem (ac_as d) (ac_cfa d) = Inr sp" "ac_cfa d \<noteq> 0"
    "arm_sigcontext kind sp (ac_cfa d) = Some (format, sc)" "unat sc + 76 < 2 ^ 32"
    "\<forall>r < 16. arm_access_mem (ac_as d) (sc + 0x0c + 4 * word_of_nat r) = Inr (regs r)"
  shows "\<exists>u'. arm_unw_step methods lookup_pi stack dwarf_step u = Inr (u', Inr True)
    \<and> (\<forall>r < 16. arm_get_reg (au_dwarf u') r = Inr (regs r)) \<and> ac_cfa (au_dwarf u') = regs 13
    \<and> \<not> ac_use_prev_instr (au_dwarf u') \<and> au_sigcontext_addr u' = sc \<and> au_sigcontext_sp u' = ac_cfa d"
proof -
  have loc: "arm_sigcontext_locs sc ! r = arm_mem_loc (sc + 0x0c + 4 * word_of_nat r)" if "r < 16" for r
    using sigcontext_loc(1) [OF assms(7) that] .
  have read: "arm_get c (arm_sigcontext_locs sc ! r) = Inr (regs r)" if "r < 16" "ac_as c = ac_as d" for r c
    using sigcontext_loc(2) [OF assms(7) that(1)] assms(8) that by (simp add: loc arm_get_def)
  have sp: "arm_get d (arm_mem_loc (ac_cfa d)) = Inr sp"
    using assms(4,5) by (simp add: arm_get_def arm_null_loc_def)
  let ?d = "d\<lparr>ac_loc := arm_sigcontext_locs sc, ac_cfa := regs 13, ac_ip := regs 15, ac_pi_valid := False,
    ac_use_prev_instr := False\<rparr>"
  let ?u = "u\<lparr>au_validate := True, au_sigcontext_sp := ac_cfa d, au_sigcontext_pc := ac_ip d, au_dwarf := ?d,
    au_sigcontext_format := format, au_sigcontext_addr := sc, au_frame_type := - 1, au_cfa_reg_offset := sc - ac_cfa d\<rparr>"
  have "arm_handle_signal_frame (u\<lparr>au_validate := True\<rparr>) = Inr (?u, Inr True)"
    using assms(1,2,6) sp read [of 13] read [of 15]
    by (simp add: arm_handle_signal_frame_def Let_def arm_get_or_def)
  then have "arm_unw_step methods lookup_pi stack dwarf_step u = Inr (?u, Inr True)"
    using assms(1-3) by (simp add: arm_unw_step_def Let_def)
  moreover have "arm_get_reg ?d r = Inr (regs r)" if "r < 16" for r
  proof -
    have "r = 15 \<or> r = 13 \<or> r \<le> 12 \<or> r = 14" using that by linarith
    moreover have "arm_loc_at ?d r = Inr (arm_sigcontext_locs sc ! r)"
      using that by (simp add: arm_loc_at_def arm_sigcontext_locs_def)
    ultimately show ?thesis using read [of r ?d] that by (auto simp: arm_get_reg_def)
  qed
  ultimately show ?thesis by (intro exI [of _ ?u]) simp
qed

definition example_signal :: "(arm_word \<times> arm_word) list" where
  "example_signal = (0x9000, 0xe3a070ad) # (0x7000, 1) # map (\<lambda>r. (0x70a0 + 4 * word_of_nat r, 0x100 + word_of_nat r)) [0..<16]"

definition example_ucursor :: arm_ucursor where
  "example_ucursor = \<lparr>au_dwarf = example_cursor example_signal, au_frame_type = 0, au_cfa_reg_offset = 0,
     au_sigcontext_format = ARM_SCF_NONE, au_sigcontext_addr = 0, au_sigcontext_sp = 0, au_sigcontext_pc = 0,
     au_validate = False\<rparr>"

lemma signal_frame_restores_witness:
  "\<forall>methods lookup_pi stack dwarf_step.
     \<exists>u'. arm_unw_step methods lookup_pi stack dwarf_step example_ucursor = Inr (u', Inr True)
    \<and> (\<forall>r < 16. arm_get_reg (au_dwarf u') r = Inr (0x100 + word_of_nat r)) \<and> ac_cfa (au_dwarf u') = 0x100 + word_of_nat 13
    \<and> \<not> ac_use_prev_instr (au_dwarf u') \<and> au_sigcontext_addr u' = 0x7094
    \<and> au_sigcontext_sp u' = ac_cfa (example_cursor example_signal)"
proof (intro allI, rule signal_frame_restores [where kind = 2 and sp = 1 and format = ARM_SCF_LINUX_RT_SIGFRAME
      and regs = "\<lambda>r. 0x100 + word_of_nat r" and sc = "0x7094"])
  show "au_dwarf example_ucursor = example_cursor example_signal" by (simp add: example_ucursor_def)
  show "arm_is_signal_frame (example_cursor example_signal) = Inr 2" by code_simp
  show "arm_access_mem (ac_as (example_cursor example_signal)) (ac_cfa (example_cursor example_signal)) = Inr 1" by code_simp
  show "ac_cfa (example_cursor example_signal) \<noteq> 0" by (simp add: example_cursor_def)
  show "arm_sigcontext 2 1 (ac_cfa (example_cursor example_signal)) = Some (ARM_SCF_LINUX_RT_SIGFRAME, 0x7094)" by code_simp
  have "\<forall>r \<in> set [0..<16]. arm_access_mem (ac_as (example_cursor example_signal)) (0x7094 + 0x0c + 4 * word_of_nat r)
      = Inr (0x100 + word_of_nat r)" by code_simp
  then show "\<forall>r < 16. arm_access_mem (ac_as (example_cursor example_signal)) (0x7094 + 0x0c + 4 * word_of_nat r)
      = Inr (0x100 + word_of_nat r)"
    by (simp del: upt_rec_numeral)
qed simp_all

section \<open>The chain of frames\<close>

text \<open>
  When neither the tables nor DWARF can step and the entry does not forbid it, following the chain of
  APCS frames never reports a further frame, also where it finds one.
\<close>

lemma frame_chain_ends:
  assumes "arm_fallback methods False d (Inl e) = Inr (d', ret)" "am_frame methods"
  shows "ret = Inr False"
  using assms by (auto simp: arm_fallback_def rbind_eq_Inr)

end
