(* ===== verification/Maps.thy ===== *)
theory Maps
  imports DwarfTypes
begin

text \<open>
  The reader of \<open>/proc/PID/maps\<close> (\<open>src/os-linux.h\<close>): numbers and words are scanned from a line, and
  lines are taken from a buffer of a page that is refilled from the file.
\<close>

section \<open>Scanning\<close>

text \<open>
  A position in the buffer is the bytes from there to its last byte; behind it a read is out of bounds.
  A scanner that returns \<open>NULL\<close> gives \<open>None\<close>; every scanner returns \<open>NULL\<close> for \<open>NULL\<close>.
\<close>

type_synonym cstr = "8 word list"

definition obind :: "'a option res \<Rightarrow> ('a \<Rightarrow> 'b option res) \<Rightarrow> 'b option res" where
  "obind m f = rbind m (\<lambda>r. case r of None \<Rightarrow> Inr None | Some x \<Rightarrow> f x)"

fun skip_whitespace :: "cstr \<Rightarrow> cstr option res" where
  "skip_whitespace [] = Inl Out_of_bounds"
| "skip_whitespace (c # s) = (if c = 0x20 \<or> c = 0x09 then skip_whitespace s else Inr (Some (c # s)))"

text \<open>A digit is a signed \<open>char\<close> in an \<open>unsigned long\<close>.\<close>

definition hex_digit :: "8 word \<Rightarrow> unw_word option" where
  "hex_digit c =
     (let digit = scast c in
      if digit - 0x30 \<le> 9 then Some (digit - 0x30)
      else if digit - 0x41 < 6 then Some (digit - (0x41 - 10))
      else if digit - 0x61 < 6 then Some (digit - (0x61 - 10))
      else None)"

fun scan_hex_digits :: "cstr \<Rightarrow> unw_word \<Rightarrow> nat \<Rightarrow> (cstr \<times> unw_word \<times> nat) res" where
  "scan_hex_digits [] val num_digits = Inl Out_of_bounds"
| "scan_hex_digits (c # s) val num_digits =
     (case hex_digit c of
        None \<Rightarrow> Inr (c # s, val, num_digits)
      | Some digit \<Rightarrow> scan_hex_digits s (push_bit 4 val OR digit) (num_digits + 1))"

definition scan_hex :: "cstr \<Rightarrow> (cstr \<times> unw_word) option res" where
  "scan_hex cp =
     obind (skip_whitespace cp) (\<lambda>cp.
     rbind (scan_hex_digits cp 0 0) (\<lambda>(cp, val, num_digits).
     Inr (if num_digits = 0 then None else Some (cp, val))))"

definition dec_digit :: "8 word \<Rightarrow> unw_word option" where
  "dec_digit c = (let digit = scast c in if digit - 0x30 \<le> 9 then Some (digit - 0x30) else None)"

fun scan_dec_digits :: "cstr \<Rightarrow> unw_word \<Rightarrow> nat \<Rightarrow> (cstr \<times> unw_word \<times> nat) res" where
  "scan_dec_digits [] val num_digits = Inl Out_of_bounds"
| "scan_dec_digits (c # s) val num_digits =
     (case dec_digit c of
        None \<Rightarrow> Inr (c # s, val, num_digits)
      | Some digit \<Rightarrow> scan_dec_digits s (10 * val + digit) (num_digits + 1))"

definition scan_dec :: "cstr \<Rightarrow> (cstr \<times> unw_word) option res" where
  "scan_dec cp =
     obind (skip_whitespace cp) (\<lambda>cp.
     rbind (scan_dec_digits cp 0 0) (\<lambda>(cp, val, num_digits).
     Inr (if num_digits = 0 then None else Some (cp, val))))"

fun scan_char :: "cstr \<Rightarrow> (cstr \<times> 8 word) option res" where
  "scan_char [] = Inl Out_of_bounds"
| "scan_char (c # s) = Inr (Some (if c \<noteq> 0 then s else c # s, c))"

text \<open>
  The characters before white space or the terminator, of which the first \<open>buf_size - 1\<close> are stored;
  without a destination none is.
\<close>

fun scan_word :: "cstr \<Rightarrow> (cstr \<times> cstr) res" where
  "scan_word [] = Inl Out_of_bounds"
| "scan_word (c # s) =
     (if c = 0x20 \<or> c = 0x09 \<or> c = 0 then Inr (c # s, [])
      else rbind (scan_word s) (\<lambda>(cp, w). Inr (cp, c # w)))"

definition scan_string :: "cstr \<Rightarrow> bool \<Rightarrow> nat \<Rightarrow> (cstr \<times> cstr) option res" where
  "scan_string cp valp buf_size =
     obind (skip_whitespace cp) (\<lambda>cp.
     rbind (scan_word cp) (\<lambda>(cp, w).
     let stored = (if valp then take (buf_size - 1) w else []); i = length stored in
     Inr (if i = 0 \<or> i \<ge> buf_size then None else Some (cp, stored))))"

text \<open>The value of a C string.\<close>

definition string_at :: "cstr \<Rightarrow> cstr" where
  "string_at cp = takeWhile (\<lambda>c. c \<noteq> 0) cp"

record maps_entry =
  me_low :: unw_word
  me_high :: unw_word
  me_offset :: unw_word
  me_perm :: cstr
  me_path :: cstr

text \<open>One line; \<open>None\<close> when it is skipped.\<close>

definition parse_line :: "cstr \<Rightarrow> maps_entry option res" where
  "parse_line cp =
     obind (scan_hex cp) (\<lambda>(cp, low).
     obind (scan_char cp) (\<lambda>(cp, dash).
     obind (scan_hex cp) (\<lambda>(cp, high).
     obind (scan_string cp True 16) (\<lambda>(cp, perm).
     obind (scan_hex cp) (\<lambda>(cp, offset).
     obind (scan_hex cp) (\<lambda>(cp, major).
     obind (scan_char cp) (\<lambda>(cp, colon).
     obind (scan_hex cp) (\<lambda>(cp, minor).
     obind (scan_dec cp) (\<lambda>(cp, inum).
     obind (skip_whitespace cp) (\<lambda>path.
     rbind (scan_string path False 0) (\<lambda>_.
     Inr (if dash \<noteq> 0x2d \<or> colon \<noteq> 0x3a then None
          else Some \<lparr>me_low = low, me_high = high, me_offset = offset, me_perm = perm,
                      me_path = string_at path\<rparr>))))))))))))"

text \<open>
  The flags of an entry, from the array of 16 that holds the permissions and, behind their terminator,
  what it held before.
\<close>

definition maps_flags :: "cstr \<Rightarrow> maps_entry \<Rightarrow> bool \<times> bool \<times> bool" where
  "maps_flags before e =
     (let perm = me_perm e @ 0 # drop (length (me_perm e) + 1) before in
      (perm ! 0 = 0x72, perm ! 1 = 0x77, perm ! 2 = 0x78))"

section \<open>The buffer\<close>

text \<open>
  The iterator holds the whole buffer and the index of the first byte not yet used; the last byte before
  its end is always used. The file is a parameter: reading at most so many bytes gives those read, none
  at the end or for an error.
\<close>

record map_iterator =
  mi_open :: bool
  mi_mem :: cstr
  mi_buf :: nat

type_synonym 'f file_reader = "'f \<Rightarrow> nat \<Rightarrow> cstr \<times> 'f"

fun find_eol :: "cstr \<Rightarrow> nat option" where
  "find_eol [] = None"
| "find_eol (c # s) =
     (if c = 0x0a then Some 0 else if c = 0 then None else map_option Suc (find_eol s))"

fun find_newline :: "cstr \<Rightarrow> nat option" where
  "find_newline [] = None"
| "find_newline (c # s) = (if c = 0x0a then Some 0 else map_option Suc (find_newline s))"

text \<open>
  The end of the next line, after reading more of the file where the buffer holds none; \<open>None\<close> when
  nothing was read. A line that is not ended by what was read ends with its last byte.
\<close>

definition refill :: "'f file_reader \<Rightarrow> map_iterator \<Rightarrow> 'f \<Rightarrow> map_iterator \<times> 'f \<times> nat option" where
  "refill rd mi f =
     (let buf_size = length (mi_mem mi); bytes_left = buf_size - mi_buf mi in
      case find_eol (drop (mi_buf mi) (mi_mem mi)) of
        Some i \<Rightarrow> (mi, f, Some (mi_buf mi + i))
      | None \<Rightarrow>
          let mem = take bytes_left (drop (mi_buf mi) (mi_mem mi)) @ drop bytes_left (mi_mem mi);
              (bytes, f) = rd f (buf_size - bytes_left); nread = length bytes in
          if nread = 0 then (mi\<lparr>mi_mem := mem, mi_buf := 0\<rparr>, f, None)
          else
            let mem = take bytes_left mem @ bytes @ drop (bytes_left + nread) mem;
                n = nread + bytes_left;
                (mem, buf) = (if n < buf_size then (take (buf_size - n) mem @ take n mem, buf_size - n) else (mem, 0));
                eol = (case find_newline (take nread (drop (buf + bytes_left) mem)) of
                         Some i \<Rightarrow> buf + bytes_left + i | None \<Rightarrow> buf + n - 1) in
            (mi\<lparr>mi_mem := mem, mi_buf := buf\<rparr>, f, Some eol))"

definition maps_next_body ::
  "'f file_reader \<Rightarrow> map_iterator \<times> 'f
    \<Rightarrow> (map_iterator \<times> 'f + map_iterator \<times> 'f \<times> maps_entry option) res" where
  "maps_next_body rd = (\<lambda>(mi, f).
     case refill rd mi f of
       (mi, f, None) \<Rightarrow> Inr (Inr (mi, f, None))
     | (mi, f, Some eol) \<Rightarrow>
         rbind (arr_set (mi_mem mi) eol 0) (\<lambda>mem.
         rbind (parse_line (drop (mi_buf mi) mem)) (\<lambda>r.
         let mi = mi\<lparr>mi_mem := mem, mi_buf := eol + 1\<rparr> in
         Inr (case r of None \<Rightarrow> Inl (mi, f) | Some e \<Rightarrow> Inr (mi, f, Some e)))))"

text \<open>The next entry; \<open>None\<close> is the return of 0.\<close>

definition maps_next :: "'f file_reader \<Rightarrow> map_iterator \<Rightarrow> 'f \<Rightarrow> (map_iterator \<times> 'f \<times> maps_entry option) res" where
  "maps_next rd mi f =
     (if \<not> mi_open mi then Inr (mi, f, None) else returns (iterate (maps_next_body rd) (mi, f)))"

section \<open>Opening\<close>

text \<open>The digits of a number, the last first, and \<open>unw_ltoa\<close>.\<close>

fun ltoa_digits :: "nat \<Rightarrow> cstr" where
  "ltoa_digits val = (0x30 + word_of_nat (val mod 10)) # (if val div 10 = 0 then [] else ltoa_digits (val div 10))"

declare ltoa_digits.simps [simp del]

text \<open>The reversal exchanges the bytes of each pair that lies the same distance from both ends.\<close>

definition reverse_digits :: "cstr \<Rightarrow> cstr" where
  "reverse_digits buf =
     (let len = length buf in
      foldl (\<lambda>buf i. buf[i := buf ! (len - 1 - i), len - 1 - i := buf ! i]) buf [0..<len div 2])"

definition unw_ltoa :: "nat \<Rightarrow> cstr" where
  "unw_ltoa val = reverse_digits (ltoa_digits val)"

text \<open>
  \<open>maps_init\<close>: the file that the path names is a parameter, as are the size of a page and the memory of
  the buffer.
\<close>

definition maps_path :: "nat \<Rightarrow> cstr res" where
  "maps_path pid =
     (let cp = 6 + length (unw_ltoa pid) in
      if \<not> cp + 6 < 22 then Inl Aborted
      else Inr ([0x2f, 0x70, 0x72, 0x6f, 0x63, 0x2f] @ unw_ltoa pid @ [0x2f, 0x6d, 0x61, 0x70, 0x73]))"

definition closed_iterator :: map_iterator where
  "closed_iterator = \<lparr>mi_open = False, mi_mem = [], mi_buf = 0\<rparr>"

definition maps_init :: "(cstr \<Rightarrow> 'f option) \<Rightarrow> cstr option \<Rightarrow> nat \<Rightarrow> (map_iterator \<times> 'f) option res" where
  "maps_init open_file memory pid =
     rbind (maps_path pid) (\<lambda>path.
     Inr (case (open_file path, memory) of
            (Some f, Some mem) \<Rightarrow> Some (\<lparr>mi_open = True, mi_mem = mem, mi_buf = length mem\<rparr>, f)
          | _ \<Rightarrow> None))"

definition maps_close :: "map_iterator \<Rightarrow> map_iterator" where
  "maps_close mi = (if mi_open mi then closed_iterator else mi)"

end
