(* ===== verification/Elf.thy ===== *)
theory Elf
  imports Maps
begin

text \<open>
  Looking at the image of an ELF file of 64 bits: its headers and sections (\<open>src/elfxx.h\<close>, \<open>src/elfxx.c\<close>), the
  number of dynamic symbols (\<open>src/elfxx_i.h\<close>), and the symbol that an address belongs to.
\<close>

section \<open>Images\<close>

text \<open>
  An image is its bytes and the address they are mapped at. A pointer into it is an address; reading
  outside the bytes is an access out of bounds.
\<close>

record elf_image =
  ei_image :: unw_word
  ei_bytes :: cstr

abbreviation ei_size :: "elf_image \<Rightarrow> unw_word" where
  "ei_size ei \<equiv> word_of_nat (length (ei_bytes ei))"

definition le_value :: "cstr \<Rightarrow> unw_word" where
  "le_value bs = foldr (\<lambda>b w. push_bit 8 w OR ucast b) bs 0"

definition field :: "elf_image \<Rightarrow> unw_word \<Rightarrow> nat \<Rightarrow> unw_word res" where
  "field ei p n =
     (let i = unat (p - ei_image ei) in
      if i + n \<le> length (ei_bytes ei) then Inr (le_value (take n (drop i (ei_bytes ei)))) else Inl Out_of_bounds)"

definition string_from :: "elf_image \<Rightarrow> unw_word \<Rightarrow> cstr res" where
  "string_from ei p =
     (let s = drop (unat (p - ei_image ei)) (ei_bytes ei) in
      if 0 \<in> set s then Inr (string_at s) else Inl Out_of_bounds)"

text \<open>The fields of \<open>Elf64_Ehdr\<close>, \<open>Elf64_Phdr\<close>, \<open>Elf64_Shdr\<close>, \<open>Elf64_Sym\<close> that are used.\<close>

abbreviation (input) e_phoff :: "elf_image \<Rightarrow> unw_word res" where "e_phoff ei \<equiv> field ei (ei_image ei + 32) 8"
abbreviation (input) e_shoff :: "elf_image \<Rightarrow> unw_word res" where "e_shoff ei \<equiv> field ei (ei_image ei + 40) 8"
abbreviation (input) e_phentsize :: "elf_image \<Rightarrow> unw_word res" where "e_phentsize ei \<equiv> field ei (ei_image ei + 54) 2"
abbreviation (input) e_phnum :: "elf_image \<Rightarrow> unw_word res" where "e_phnum ei \<equiv> field ei (ei_image ei + 56) 2"
abbreviation (input) e_shentsize :: "elf_image \<Rightarrow> unw_word res" where "e_shentsize ei \<equiv> field ei (ei_image ei + 58) 2"
abbreviation (input) e_shnum :: "elf_image \<Rightarrow> unw_word res" where "e_shnum ei \<equiv> field ei (ei_image ei + 60) 2"
abbreviation (input) e_shstrndx :: "elf_image \<Rightarrow> unw_word res" where "e_shstrndx ei \<equiv> field ei (ei_image ei + 62) 2"

record elf_phdr =
  p_type :: unw_word
  p_flags :: unw_word
  p_offset :: unw_word
  p_vaddr :: unw_word
  p_filesz :: unw_word

definition read_phdr :: "elf_image \<Rightarrow> unw_word \<Rightarrow> elf_phdr res" where
  "read_phdr ei p =
     rbind (field ei p 4) (\<lambda>type. rbind (field ei (p + 4) 4) (\<lambda>flags. rbind (field ei (p + 8) 8) (\<lambda>offset.
     rbind (field ei (p + 16) 8) (\<lambda>vaddr. rbind (field ei (p + 32) 8) (\<lambda>filesz.
     Inr \<lparr>p_type = type, p_flags = flags, p_offset = offset, p_vaddr = vaddr, p_filesz = filesz\<rparr>)))))"

record elf_shdr =
  sh_name :: unw_word
  sh_type :: unw_word
  sh_offset :: unw_word
  sh_size :: unw_word
  sh_link :: unw_word
  sh_entsize :: unw_word

definition read_shdr :: "elf_image \<Rightarrow> unw_word \<Rightarrow> elf_shdr res" where
  "read_shdr ei p =
     rbind (field ei p 4) (\<lambda>name. rbind (field ei (p + 4) 4) (\<lambda>type. rbind (field ei (p + 24) 8) (\<lambda>offset.
     rbind (field ei (p + 32) 8) (\<lambda>room. rbind (field ei (p + 40) 4) (\<lambda>link. rbind (field ei (p + 56) 8) (\<lambda>entsize.
     Inr \<lparr>sh_name = name, sh_type = type, sh_offset = offset, sh_size = room, sh_link = link, sh_entsize = entsize\<rparr>))))))"

record elf_sym =
  st_name :: unw_word
  st_info :: unw_word
  st_shndx :: unw_word
  st_value :: unw_word
  st_size :: unw_word

definition read_sym :: "elf_image \<Rightarrow> unw_word \<Rightarrow> elf_sym res" where
  "read_sym ei p =
     rbind (field ei p 4) (\<lambda>name. rbind (field ei (p + 4) 1) (\<lambda>info. rbind (field ei (p + 6) 2) (\<lambda>shndx.
     rbind (field ei (p + 8) 8) (\<lambda>val. rbind (field ei (p + 16) 8) (\<lambda>room.
     Inr \<lparr>st_name = name, st_info = info, st_shndx = shndx, st_value = val, st_size = room\<rparr>)))))"

definition valid_object :: "elf_image \<Rightarrow> bool" where
  "valid_object ei \<longleftrightarrow>
     (let bs = ei_bytes ei in
      length bs > 6 \<and> take 4 bs = [0x7f, 0x45, 0x4c, 0x46] \<and> bs ! 4 = 2 \<and> bs ! 6 \<noteq> 0 \<and> bs ! 6 \<le> 1)"

text \<open>A segment and its end; \<open>None\<close> for a missing one.\<close>

definition get_program_segment :: "elf_image \<Rightarrow> elf_phdr \<Rightarrow> (unw_word \<times> unw_word) option" where
  "get_program_segment ei phdr =
     (if p_filesz phdr = 0 \<or> p_offset phdr > ei_size ei then None
      else (let p = ei_image ei + p_offset phdr in Some (p, p + p_filesz phdr)))"

section \<open>Sections\<close>

text \<open>A product of the type \<open>int\<close>, which wraps around, in an unsigned sum.\<close>

definition int_product :: "unw_word \<Rightarrow> unw_word \<Rightarrow> unw_word" where
  "int_product a b = scast (ucast a * ucast b :: 32 word)"

definition section_table :: "elf_image \<Rightarrow> unw_word option res" where
  "section_table ei =
     rbind (e_shoff ei) (\<lambda>soff. rbind (e_shnum ei) (\<lambda>shnum. rbind (e_shentsize ei) (\<lambda>shentsize.
     Inr (if soff + int_product shnum shentsize > ei_size ei then None else Some (ei_image ei + soff)))))"

definition string_table :: "elf_image \<Rightarrow> unw_word \<Rightarrow> unw_word option res" where
  "string_table ei s =
     rbind (e_shoff ei) (\<lambda>soff. rbind (e_shentsize ei) (\<lambda>shentsize.
     let str_soff = soff + int_product s shentsize in
     if str_soff + shentsize > ei_size ei then Inr None
     else
       rbind (read_shdr ei (ei_image ei + str_soff)) (\<lambda>str_shdr.
       Inr (if sh_offset str_shdr + sh_size str_shdr > ei_size ei then None
            else Some (ei_image ei + sh_offset str_shdr)))))"

text \<open>The headers of a table one after the other, until one of them ends the loop.\<close>

fun find_section_loop :: "elf_image \<Rightarrow> unw_word \<Rightarrow> cstr \<Rightarrow> unw_word \<Rightarrow> nat \<Rightarrow> unw_word \<Rightarrow> elf_shdr option res" where
  "find_section_loop ei strtab secname shentsize 0 p = Inr None"
| "find_section_loop ei strtab secname shentsize (Suc n) p =
     rbind (read_shdr ei p) (\<lambda>shdr.
     rbind (string_from ei (strtab + sh_name shdr)) (\<lambda>name.
     if name = secname
     then Inr (if sh_offset shdr + sh_size shdr > ei_size ei then None else Some shdr)
     else find_section_loop ei strtab secname shentsize n (p + shentsize)))"

definition find_section :: "elf_image \<Rightarrow> cstr \<Rightarrow> elf_shdr option res" where
  "find_section ei secname =
     (if \<not> valid_object ei then Inr None
      else
        obind (section_table ei) (\<lambda>shdr.
        rbind (e_shstrndx ei) (\<lambda>shstrndx.
        obind (string_table ei shstrndx) (\<lambda>strtab.
        rbind (e_shnum ei) (\<lambda>shnum. rbind (e_shentsize ei) (\<lambda>shentsize.
        find_section_loop ei strtab secname shentsize (unat shnum) shdr))))))"

section \<open>The number of dynamic symbols\<close>

text \<open>
  \<open>dynamic_symtab_count\<close>: \<open>hash\<close> and \<open>gnu_hash\<close> are pointers to tables of words of 32 bits, 0 for none.
\<close>

fun last_bucket :: "elf_image \<Rightarrow> unw_word \<Rightarrow> nat \<Rightarrow> unw_word \<Rightarrow> unw_word option res" where
  "last_bucket ei p 0 count = Inr (Some count)"
| "last_bucket ei p (Suc n) count =
     rbind (field ei p 4) (\<lambda>b.
     if b = 0 then last_bucket ei (p + 4) n count
     else if b < count then Inr None else last_bucket ei (p + 4) n b)"

definition chain_body :: "elf_image \<Rightarrow> unw_word \<times> 32 word \<Rightarrow> (unw_word \<times> 32 word + 32 word) res" where
  "chain_body ei = (\<lambda>(hashval, count).
     rbind (field ei hashval 4) (\<lambda>v.
     Inr (if v AND 1 = 0 then Inl (hashval + 4, count + 1) else Inr (count + 1))))"

definition gnu_hash_count :: "elf_image \<Rightarrow> unw_word \<Rightarrow> 32 word option res" where
  "gnu_hash_count ei gnu_hash =
     rbind (field ei gnu_hash 4) (\<lambda>nbuckets. rbind (field ei (gnu_hash + 4) 4) (\<lambda>symoffset.
     rbind (field ei (gnu_hash + 8) 4) (\<lambda>bloom_size.
     let buckets = gnu_hash + 16 + 8 * bloom_size in
     obind (last_bucket ei buckets (unat nbuckets) 0) (\<lambda>count.
     if count = 0 then Inr (Some 0)
     else if count < symoffset then Inr None
     else
       rbind (returns (iterate (chain_body ei) (buckets + 4 * nbuckets + 4 * (count - symoffset), ucast count)))
         (\<lambda>count. Inr (Some count))))))"

definition dynamic_symtab_count :: "elf_image \<Rightarrow> unw_word \<Rightarrow> unw_word \<Rightarrow> 32 word option res" where
  "dynamic_symtab_count ei hash gnu_hash =
     (if hash = 0 \<and> gnu_hash = 0 then Inr None
      else if hash \<noteq> 0 then rbind (field ei (hash + 4) 4) (\<lambda>n. Inr (Some (ucast n)))
      else gnu_hash_count ei gnu_hash)"

section \<open>The symbol of an address\<close>

text \<open>
  The lookup calls back for every function of the tables until the result is not \<open>UNW_ENOINFO\<close>. What
  the callback changes is the state \<open>'s\<close>: the distance to the nearest symbol so far and its data.
\<close>

record symbol_info =
  si_strtab :: unw_word
  si_sym :: elf_sym
  si_start_ip :: unw_word

type_synonym 's symtab_lookup = "symbol_info \<Rightarrow> 's \<Rightarrow> ('s \<times> (unw_error + unit)) res"

definition is_function :: "elf_sym \<Rightarrow> bool" where
  "is_function sy \<longleftrightarrow> st_info sy AND 0xf = 2 \<and> st_shndx sy \<noteq> 0"

definition symbol_at :: "unw_word \<Rightarrow> unw_word \<Rightarrow> elf_sym \<Rightarrow> symbol_info" where
  "symbol_at load_offset strtab sy =
     \<lparr>si_strtab = strtab, si_sym = sy,
      si_start_ip = (if st_shndx sy \<noteq> 0xfff1 then st_value sy + load_offset else st_value sy)\<rparr>"

definition symtab_body ::
  "elf_image \<Rightarrow> unw_word \<Rightarrow> 's symtab_lookup \<Rightarrow> unw_word \<Rightarrow> unw_word \<Rightarrow> unw_word \<Rightarrow> unw_word \<times> 's
    \<Rightarrow> (unw_word \<times> 's + 's \<times> (unw_error + unit)) res" where
  "symtab_body ei load_offset lookup strtab symtab_end syment_size = (\<lambda>(sy, st).
     if \<not> sy < symtab_end then Inr (Inr (st, Inl UNW_ENOINFO))
     else
       rbind (read_sym ei sy) (\<lambda>s.
       if is_function s then
         rbind (lookup (symbol_at load_offset strtab s) st) (\<lambda>(st, ret).
         Inr (if ret = Inl UNW_ENOINFO then Inl (sy + syment_size, st) else Inr (st, ret)))
       else Inr (Inl (sy + syment_size, st))))"

fun closeness_loop ::
  "elf_image \<Rightarrow> unw_word \<Rightarrow> 's symtab_lookup \<Rightarrow> unw_word \<Rightarrow> nat \<Rightarrow> unw_word \<Rightarrow> 's \<Rightarrow> ('s \<times> (unw_error + unit)) res" where
  "closeness_loop ei load_offset lookup shentsize 0 p st = Inr (st, Inl UNW_ENOINFO)"
| "closeness_loop ei load_offset lookup shentsize (Suc n) p st =
     rbind (read_shdr ei p) (\<lambda>shdr.
     rbind (if sh_type shdr = 2 \<or> sh_type shdr = 11 then
              (let symtab = ei_image ei + sh_offset shdr in
               rbind (string_table ei (sh_link shdr)) (\<lambda>strtab.
               case strtab of
                 None \<Rightarrow> Inr (st, Inl UNW_ENOINFO)
               | Some strtab \<Rightarrow>
                   returns (iterate (symtab_body ei load_offset lookup strtab (symtab + sh_size shdr) (sh_entsize shdr))
                     (symtab, st))))
            else Inr (st, Inl UNW_ENOINFO)) (\<lambda>(st, ret).
     if ret = Inl UNW_ENOINFO then closeness_loop ei load_offset lookup shentsize n (p + shentsize) st
     else Inr (st, ret)))"

text \<open>The dynamic segment, and the tables that it names, with 0 for a missing one.\<close>

record dynamic_tables =
  dt_symtab :: unw_word
  dt_strtab :: unw_word
  dt_hash :: unw_word
  dt_gnu_hash :: unw_word

fun dynamic_va_to_file_offset :: "elf_image \<Rightarrow> unw_word \<Rightarrow> nat \<Rightarrow> unw_word \<Rightarrow> unw_word res" where
  "dynamic_va_to_file_offset ei va 0 p = Inr 0"
| "dynamic_va_to_file_offset ei va (Suc n) p =
     rbind (read_phdr ei p) (\<lambda>ph.
     if p_type ph = 1 \<and> va \<ge> p_vaddr ph \<and> va + 8 < p_vaddr ph + p_filesz ph
     then Inr (p_offset ph + (va - p_vaddr ph)) else dynamic_va_to_file_offset ei va n (p + 56))"

fun find_dynamic :: "elf_image \<Rightarrow> nat \<Rightarrow> unw_word \<Rightarrow> unw_word \<Rightarrow> (unw_word \<times> unw_word option) res" where
  "find_dynamic ei 0 p file_offset = Inr (file_offset, None)"
| "find_dynamic ei (Suc n) p file_offset =
     rbind (read_phdr ei p) (\<lambda>ph.
     if p_type ph = 6 then find_dynamic ei n (p + 56) (p_vaddr ph - p_offset ph)
     else if p_type ph = 2 then Inr (file_offset, map_option fst (get_program_segment ei ph))
     else find_dynamic ei n (p + 56) file_offset)"

definition dyn_body ::
  "elf_image \<Rightarrow> nat \<Rightarrow> unw_word \<Rightarrow> unw_word \<Rightarrow> unw_word \<times> dynamic_tables
    \<Rightarrow> (unw_word \<times> dynamic_tables + dynamic_tables) res" where
  "dyn_body ei phnum phdr file_offset = (\<lambda>(dyn, t).
     rbind (field ei dyn 8) (\<lambda>tag.
     if tag = 0 then Inr (Inr t)
     else
       rbind (field ei (dyn + 8) 8) (\<lambda>d_ptr.
       let q = ei_image ei + d_ptr - file_offset in
       rbind (if tag = 6 then Inr (t\<lparr>dt_symtab := q\<rparr>)
              else if tag = 5 then Inr (t\<lparr>dt_strtab := q\<rparr>)
              else if tag = 4 then Inr (t\<lparr>dt_hash := q\<rparr>)
              else if tag = 0x6ffffef5 then
                rbind (dynamic_va_to_file_offset ei d_ptr phnum phdr) (\<lambda>gh_file_offset.
                Inr (t\<lparr>dt_gnu_hash := ei_image ei + gh_file_offset\<rparr>))
              else Inr t) (\<lambda>t.
       Inr (Inl (dyn + 16, t))))))"

fun dynamic_loop ::
  "elf_image \<Rightarrow> unw_word \<Rightarrow> 's symtab_lookup \<Rightarrow> unw_word \<Rightarrow> unw_word \<Rightarrow> nat \<Rightarrow> 's \<Rightarrow> ('s \<times> (unw_error + unit)) res" where
  "dynamic_loop ei load_offset lookup strtab sy 0 st = Inr (st, Inl UNW_ENOINFO)"
| "dynamic_loop ei load_offset lookup strtab sy (Suc n) st =
     rbind (read_sym ei sy) (\<lambda>s.
     if is_function s then
       rbind (lookup (symbol_at load_offset strtab s) st) (\<lambda>(st, ret).
       if ret = Inl UNW_ENOINFO then dynamic_loop ei load_offset lookup strtab (sy + 24) n st else Inr (st, ret))
     else dynamic_loop ei load_offset lookup strtab (sy + 24) n st)"

definition lookup_symbol_from_dynamic ::
  "elf_image \<Rightarrow> unw_word \<Rightarrow> 's symtab_lookup \<Rightarrow> 's \<Rightarrow> ('s \<times> (unw_error + unit)) res" where
  "lookup_symbol_from_dynamic ei load_offset lookup st =
     rbind (e_phoff ei) (\<lambda>phoff. rbind (e_phnum ei) (\<lambda>phnum.
     rbind (find_dynamic ei (unat phnum) (ei_image ei + phoff) 0) (\<lambda>(file_offset, dyn).
     case dyn of
       None \<Rightarrow> Inr (st, Inl UNW_ENOINFO)
     | Some dyn \<Rightarrow>
         rbind (returns (iterate (dyn_body ei (unat phnum) (ei_image ei + phoff) file_offset)
           (dyn, \<lparr>dt_symtab = 0, dt_strtab = 0, dt_hash = 0, dt_gnu_hash = 0\<rparr>))) (\<lambda>t.
         if dt_symtab t = 0 \<or> dt_strtab t = 0 \<or> dt_hash t = 0 \<and> dt_gnu_hash t = 0 then Inr (st, Inl UNW_ENOINFO)
         else
           rbind (dynamic_symtab_count ei (dt_hash t) (dt_gnu_hash t)) (\<lambda>sym_num.
           case sym_num of
             None \<Rightarrow> Inr (st, Inl UNW_ENOINFO)
           | Some sym_num \<Rightarrow>
               dynamic_loop ei load_offset lookup (dt_strtab t) (dt_symtab t) (unat sym_num) st)))))"

definition lookup_symbol_closeness ::
  "elf_image \<Rightarrow> unw_word \<Rightarrow> 's symtab_lookup \<Rightarrow> 's \<Rightarrow> ('s \<times> (unw_error + unit)) res" where
  "lookup_symbol_closeness ei load_offset lookup st =
     (if \<not> valid_object ei then Inr (st, Inl UNW_ENOINFO)
      else
        rbind (section_table ei) (\<lambda>shdr.
        case shdr of
          None \<Rightarrow> Inr (st, Inl UNW_ENOINFO)
        | Some shdr \<Rightarrow>
            rbind (e_shnum ei) (\<lambda>shnum. rbind (e_shentsize ei) (\<lambda>shentsize.
            rbind (closeness_loop ei load_offset lookup shentsize (unat shnum) shdr st) (\<lambda>(st, ret).
            if ret = Inl UNW_ENOINFO then lookup_symbol_from_dynamic ei load_offset lookup st else Inr (st, ret))))))"

end
