(* ===== verification/ElfName.thy ===== *)
theory ElfName
  imports Elf DwarfRead
begin

text \<open>
  The name and the range of the procedure that an address of a process belongs to: the callbacks of the
  lookup and the images it looks in (\<open>src/elfxx.c\<close>), the image of a mapping (\<open>src/os-linux.c\<close>,
  \<open>src/elfxx.h\<close>).
\<close>

section \<open>Callbacks\<close>

text \<open>The nearest distance so far and the buffer of the name, whose length is its room.\<close>

definition lookup_symbol_callback :: "elf_image \<Rightarrow> unw_word \<Rightarrow> (unw_word \<times> cstr) symtab_lookup" where
  "lookup_symbol_callback ei ip syminfo = (\<lambda>(min_dist, buf).
     let start = si_start_ip syminfo in
     if ip \<ge> start \<and> ip < start + st_size (si_sym syminfo) \<and> ip - start < min_dist then
       rbind (string_from ei (si_strtab syminfo + st_name (si_sym syminfo))) (\<lambda>sym_name.
       let (len, ret) = (if length sym_name \<ge> length buf then (int (length buf) - 1, Inl UNW_ENOMEM)
                         else (int (length sym_name), Inr ())) in
       if len < 0 then Inl Out_of_bounds
       else Inr ((ip - start, take (nat len) sym_name @ 0 # drop (nat len + 1) buf), ret))
     else Inr ((min_dist, buf), Inl UNW_ENOINFO))"

definition lookup_symbol ::
  "unw_word \<Rightarrow> elf_image \<Rightarrow> unw_word \<Rightarrow> cstr \<Rightarrow> unw_word \<Rightarrow> ((unw_word \<times> cstr) \<times> (unw_error + unit)) res" where
  "lookup_symbol ip ei load_offset buf min_dist =
     lookup_symbol_closeness ei load_offset (lookup_symbol_callback ei ip) (min_dist, buf)"

text \<open>The nearest distance so far and the range.\<close>

definition lookup_ip_range_callback :: "unw_word \<Rightarrow> (unw_word \<times> unw_word \<times> unw_word) symtab_lookup" where
  "lookup_ip_range_callback ip syminfo = (\<lambda>(min_dist, range_start, range_stop).
     let start = si_start_ip syminfo; stop = start + st_size (si_sym syminfo) in
     Inr (if ip < start \<or> ip \<ge> stop then ((min_dist, range_start, range_stop), Inl UNW_ENOINFO)
          else if ip - start < min_dist then ((ip - start, start, stop), Inr ())
          else ((min_dist, range_start, range_stop), Inl UNW_ENOINFO)))"

definition lookup_ip_range ::
  "unw_word \<Rightarrow> elf_image \<Rightarrow> unw_word \<Rightarrow> unw_word \<times> unw_word \<Rightarrow> unw_word
    \<Rightarrow> ((unw_word \<times> unw_word \<times> unw_word) \<times> (unw_error + unit)) res" where
  "lookup_ip_range ip ei load_offset r min_dist =
     lookup_symbol_closeness ei load_offset (lookup_ip_range_callback ip) (min_dist, r)"

section \<open>In an image\<close>

fun load_offset_loop :: "elf_image \<Rightarrow> unw_word \<Rightarrow> unw_word \<Rightarrow> nat \<Rightarrow> unw_word \<Rightarrow> unw_word res" where
  "load_offset_loop ei page_size segbase 0 p = Inr 0"
| "load_offset_loop ei page_size segbase (Suc n) p =
     rbind (read_phdr ei p) (\<lambda>ph.
     if p_type ph = 1 \<and> p_flags ph AND 1 \<noteq> 0
     then Inr (segbase - p_vaddr ph + (p_offset ph AND (page_size - 1)))
     else load_offset_loop ei page_size segbase n (p + 56))"

definition get_load_offset :: "unw_word \<Rightarrow> elf_image \<Rightarrow> unw_word \<Rightarrow> unw_word res" where
  "get_load_offset page_size ei segbase =
     rbind (e_phoff ei) (\<lambda>phoff. rbind (e_phnum ei) (\<lambda>phnum.
     load_offset_loop ei page_size segbase (unat phnum) (ei_image ei + phoff)))"

text \<open>
  \<open>get_proc_name_in_image\<close>: the embedded debug information of the image, where it has any, is what the
  parameter makes of it; its search goes on with the distance of the first. The results are the buffer
  of the name, the offset when it is stored, and the return value.
\<close>

definition get_proc_name_in_image ::
  "(elf_image \<Rightarrow> elf_image option res) \<Rightarrow> unw_word \<Rightarrow> elf_image \<Rightarrow> unw_word \<Rightarrow> unw_word \<Rightarrow> cstr
    \<Rightarrow> (cstr \<times> unw_word option \<times> (unw_error + unit)) res" where
  "get_proc_name_in_image extract_minidebuginfo page_size ei segbase ip buf =
     rbind (get_load_offset page_size ei segbase) (\<lambda>load_offset.
     rbind (lookup_symbol ip ei load_offset buf (NOT 0)) (\<lambda>((min_dist, buf), ret).
     rbind (extract_minidebuginfo ei) (\<lambda>mdi.
     rbind (case mdi of
              None \<Rightarrow> Inr ((min_dist, buf), ret)
            | Some mdi \<Rightarrow>
                rbind (lookup_symbol ip mdi load_offset buf min_dist) (\<lambda>(st, ret_mdi).
                Inr (st, if ret_mdi = Inr () \<or> ret_mdi = Inl UNW_ENOMEM then ret_mdi else ret))) (\<lambda>((min_dist, buf), ret).
     Inr (buf, if min_dist \<ge> ei_size ei then (None, Inl UNW_ENOINFO) else (Some min_dist, ret))))))"

definition get_proc_ip_range_in_image ::
  "(elf_image \<Rightarrow> elf_image option res) \<Rightarrow> unw_word \<Rightarrow> elf_image \<Rightarrow> unw_word \<Rightarrow> unw_word \<Rightarrow> unw_word \<times> unw_word
    \<Rightarrow> ((unw_word \<times> unw_word) \<times> (unw_error + unit)) res" where
  "get_proc_ip_range_in_image extract_minidebuginfo page_size ei segbase ip r =
     rbind (get_load_offset page_size ei segbase) (\<lambda>load_offset.
     rbind (lookup_ip_range ip ei load_offset r (NOT 0)) (\<lambda>((min_dist, r), ret).
     rbind (extract_minidebuginfo ei) (\<lambda>mdi.
     rbind (case mdi of
              None \<Rightarrow> Inr ((min_dist, r), ret)
            | Some mdi \<Rightarrow>
                rbind (lookup_ip_range ip mdi load_offset r min_dist) (\<lambda>(st, ret_mdi).
                Inr (st, if ret_mdi = Inr () \<or> ret_mdi = Inl UNW_ENOMEM then ret_mdi else ret))) (\<lambda>((min_dist, r), ret).
     Inr (r, if min_dist \<ge> ei_size ei then Inl UNW_ENOINFO else ret)))))"

text \<open>
  The embedded debug information: a section with compressed contents, which the compression library
  turns into an image.
\<close>

definition extract_minidebuginfo :: "(cstr \<Rightarrow> elf_image option) \<Rightarrow> elf_image \<Rightarrow> elf_image option res" where
  "extract_minidebuginfo decode ei =
     obind (find_section ei [0x2e, 0x67, 0x6e, 0x75, 0x5f, 0x64, 0x65, 0x62, 0x75, 0x67, 0x64, 0x61, 0x74, 0x61]) (\<lambda>shdr.
     if unat (sh_offset shdr) + unat (sh_size shdr) > length (ei_bytes ei) then Inl Out_of_bounds
     else Inr (decode (take (unat (sh_size shdr)) (drop (unat (sh_offset shdr)) (ei_bytes ei)))))"

section \<open>Separate debug files\<close>

definition add_hex_byte :: "8 word \<Rightarrow> cstr" where
  "add_hex_byte byte =
     (let hex = [0x30, 0x31, 0x32, 0x33, 0x34, 0x35, 0x36, 0x37, 0x38, 0x39, 0x61, 0x62, 0x63, 0x64, 0x65, 0x66] in
      [hex ! unat (drop_bit 4 byte), hex ! unat (byte AND 0xf)])"

definition unw_align4 :: "unw_word \<Rightarrow> unw_word" where
  "unw_align4 x = (x + 3) AND NOT 3"

text \<open>The characters of \<open>/usr/lib/debug/.build-id/\<close>.\<close>

definition build_id_prefix :: cstr where
  "build_id_prefix = [0x2f, 0x75, 0x73, 0x72, 0x2f, 0x6c, 0x69, 0x62, 0x2f, 0x64, 0x65, 0x62, 0x75, 0x67,
     0x2f, 0x2e, 0x62, 0x75, 0x69, 0x6c, 0x64, 0x2d, 0x69, 0x64, 0x2f]"

fun read_bytes :: "elf_image \<Rightarrow> unw_word \<Rightarrow> nat \<Rightarrow> cstr res" where
  "read_bytes ei p 0 = Inr []"
| "read_bytes ei p (Suc n) = rbind (field ei p 1) (\<lambda>b. rbind (read_bytes ei (p + 1) n) (\<lambda>bs. Inr (ucast b # bs)))"

text \<open>
  The notes of a segment: \<open>None\<close> goes on with the next segment, \<open>Some None\<close> is the failure for want of
  room, which a descriptor of no bytes always lacks.
\<close>

definition build_id_body ::
  "elf_image \<Rightarrow> nat \<Rightarrow> unw_word \<Rightarrow> unw_word \<Rightarrow> (unw_word + cstr option option) res" where
  "build_id_body ei path_len notes_end = (\<lambda>notes.
     if \<not> notes < notes_end then Inr (Inr None)
     else
       rbind (field ei notes 4) (\<lambda>namesz. rbind (field ei (notes + 4) 4) (\<lambda>descsz. rbind (field ei (notes + 8) 4) (\<lambda>n_type.
       let nameasz = ucast (ucast (unw_align4 namesz) :: 32 word); name = notes + 12; desc = name + nameasz;
           next = notes + 12 + nameasz + unw_align4 descsz in
       if namesz \<noteq> 4 \<or> n_type \<noteq> 3 then Inr (Inl next)
       else
         rbind (string_from ei name) (\<lambda>s.
         if s \<noteq> [0x47, 0x4e, 0x55] then Inr (Inl next)
         else if path_len < 26 + 2 + 1 + unat (2 * (ucast descsz - 1) :: 32 word) + 6 then Inr (Inr (Some None))
         else
           rbind (read_bytes ei desc (unat descsz)) (\<lambda>bs.
           Inr (Inr (Some (Some (build_id_prefix @ add_hex_byte (hd bs) @ [0x2f] @ concat (map add_hex_byte (tl bs))
             @ [0x2e, 0x64, 0x65, 0x62, 0x75, 0x67]))))))))))"

fun build_id_segments :: "elf_image \<Rightarrow> nat \<Rightarrow> unw_word \<Rightarrow> nat \<Rightarrow> unw_word \<Rightarrow> cstr option res" where
  "build_id_segments ei path_len phentsize 0 p = Inr None"
| "build_id_segments ei path_len phentsize (Suc n) p =
     rbind (read_phdr ei p) (\<lambda>ph.
     case (if p_type ph = 4 then get_program_segment ei ph else None) of
       None \<Rightarrow> build_id_segments ei path_len phentsize n (p + phentsize)
     | Some (notes, notes_end) \<Rightarrow>
         rbind (returns (iterate (build_id_body ei path_len notes_end) notes)) (\<lambda>r.
         case r of None \<Rightarrow> build_id_segments ei path_len phentsize n (p + phentsize) | Some path \<Rightarrow> Inr path))"

definition find_build_id_path :: "elf_image \<Rightarrow> nat \<Rightarrow> cstr option res" where
  "find_build_id_path ei path_len =
     (if \<not> valid_object ei then Inr None
      else
        rbind (e_phoff ei) (\<lambda>phoff. rbind (e_phnum ei) (\<lambda>phnum. rbind (e_phentsize ei) (\<lambda>phentsize.
        build_id_segments ei path_len phentsize (unat phnum) (ei_image ei + phoff)))))"

text \<open>
  \<open>load_debuginfo\<close>: the file itself when it is not mapped, then the debug file of its build identifier,
  then the one its debug link names, beside it, in a subdirectory, or for \<open>is_local\<close> in the directory of
  debug files. Mapping a file is a parameter.
\<close>

definition elf_map_image :: "(cstr \<Rightarrow> elf_image option) \<Rightarrow> cstr \<Rightarrow> elf_image option" where
  "elf_map_image map_file path =
     (case map_file path of None \<Rightarrow> None | Some ei \<Rightarrow> if valid_object ei then Some ei else None)"

abbreviation (input) PATH_MAX :: nat where "PATH_MAX \<equiv> 4096"

definition debugdir :: cstr where
  "debugdir = take 14 build_id_prefix"

definition dirname :: "cstr \<Rightarrow> cstr" where
  "dirname file = (if 0x2f \<in> set file then rev (tl (dropWhile (\<lambda>c. c \<noteq> 0x2f) (rev file))) else [])"

definition follow_debuglink ::
  "(cstr \<Rightarrow> elf_image option) \<Rightarrow> cstr \<Rightarrow> bool \<Rightarrow> elf_image \<Rightarrow> elf_shdr \<Rightarrow> elf_image res" where
  "follow_debuglink map_file file is_local ei shdr =
     (let linkbuf = take (unat (sh_size shdr)) (drop (unat (sh_offset shdr)) (ei_bytes ei)) in
      if sh_size shdr \<ge> word_of_nat PATH_MAX \<or> sh_offset shdr + sh_size shdr > ei_size ei then Inr ei
      else if unat (sh_offset shdr) + unat (sh_size shdr) > length (ei_bytes ei) then Inl Out_of_bounds
      else if 0 \<notin> set linkbuf then Inr ei
      else
        let link = string_at linkbuf; basedir = dirname file in
        Inr (case elf_map_image map_file (basedir @ [0x2f] @ link) of
          Some d \<Rightarrow> d
        | None \<Rightarrow>
            (case elf_map_image map_file (basedir @ [0x2f, 0x2e, 0x64, 0x65, 0x62, 0x75, 0x67, 0x2f] @ link) of
               Some d \<Rightarrow> d
             | None \<Rightarrow>
                 (case if is_local then elf_map_image map_file (debugdir @ basedir @ [0x2f] @ link) else None of
                    Some d \<Rightarrow> d | None \<Rightarrow> ei))))"

definition load_debuginfo ::
  "(cstr \<Rightarrow> elf_image option) \<Rightarrow> cstr \<Rightarrow> elf_image option \<Rightarrow> bool \<Rightarrow> elf_image option res" where
  "load_debuginfo map_file file mapped is_local =
     (case (case mapped of None \<Rightarrow> elf_map_image map_file file | Some ei \<Rightarrow> Some ei) of
        None \<Rightarrow> Inr None
      | Some ei \<Rightarrow>
          rbind (find_build_id_path ei PATH_MAX) (\<lambda>path.
          case (case path of None \<Rightarrow> None | Some path \<Rightarrow> elf_map_image map_file path) of
            Some d \<Rightarrow> Inr (Some d)
          | None \<Rightarrow>
              rbind (find_section ei [0x2e, 0x67, 0x6e, 0x75, 0x5f, 0x64, 0x65, 0x62, 0x75, 0x67, 0x6c, 0x69, 0x6e, 0x6b]) (\<lambda>shdr.
              rbind (case shdr of None \<Rightarrow> Inr ei | Some shdr \<Rightarrow> follow_debuglink map_file file is_local ei shdr) (\<lambda>ei.
              Inr (Some ei)))))"

section \<open>In a process\<close>

text \<open>The system calls: what they give for the paths and sizes they are called with.\<close>

record 'f elf_system =
  es_open_maps :: "cstr \<Rightarrow> 'f option"
  es_maps_memory :: "cstr option"
  es_read :: "'f file_reader"
  es_is_dir :: "cstr \<Rightarrow> bool"
  es_is_reg :: "cstr \<Rightarrow> bool"
  es_map_file :: "cstr \<Rightarrow> elf_image option"
  es_map_anonymous :: "nat \<Rightarrow> unw_word option"
  es_page_size :: unw_word
  es_decode :: "cstr \<Rightarrow> elf_image option"

definition find_mapping_body ::
  "'f file_reader \<Rightarrow> unw_word \<Rightarrow> map_iterator \<times> 'f \<Rightarrow> (map_iterator \<times> 'f + maps_entry option) res" where
  "find_mapping_body rd ip = (\<lambda>(mi, f).
     rbind (maps_next rd mi f) (\<lambda>(mi, f, e).
     Inr (case e of
            None \<Rightarrow> Inr None
          | Some e \<Rightarrow> if ip \<ge> me_low e \<and> ip < me_high e then Inr (Some e) else Inl (mi, f))))"

definition find_mapping :: "'f elf_system \<Rightarrow> nat \<Rightarrow> unw_word \<Rightarrow> maps_entry option res" where
  "find_mapping sys pid ip =
     obind (maps_init (es_open_maps sys) (es_maps_memory sys) pid) (\<lambda>s.
     returns (iterate (find_mapping_body (es_read sys) ip) s))"

text \<open>\<open>tdep_get_elf_image\<close> without an image: the path of the mapping, cut to the room for it.\<close>

definition get_mapping_path :: "'f elf_system \<Rightarrow> nat \<Rightarrow> unw_word \<Rightarrow> nat \<Rightarrow> (maps_entry \<times> cstr \<times> (unw_error + unit)) option res" where
  "get_mapping_path sys pid ip pathlen =
     obind (find_mapping sys pid ip) (\<lambda>e.
     if pathlen = 0 then Inl Out_of_bounds
     else Inr (Some (e, take (pathlen - 1) (me_path e),
                     if length (me_path e) \<ge> pathlen then Inl UNW_ENOMEM else Inr ())))"

text \<open>The image of the virtual shared object, word by word from the memory of the process.\<close>

fun copy_words :: "addr_space \<Rightarrow> unw_word \<Rightarrow> nat \<Rightarrow> cstr res" where
  "copy_words as p 0 = Inr []"
| "copy_words as p (Suc n) =
     rbind (lift_acc (access_mem as p)) (\<lambda>w.
     rbind (copy_words as (p + 8) n) (\<lambda>bs. Inr (map (\<lambda>i. ucast (drop_bit (8 * i) w)) [0..<8] @ bs)))"

definition read_vdso :: "'f elf_system \<Rightarrow> addr_space \<Rightarrow> maps_entry \<Rightarrow> elf_image res" where
  "read_vdso sys as e =
     (let room = unat (me_high e - me_low e); failed = Inl (Err UNW_EUNSPEC) in
      if room > 2 * unat (es_page_size sys) \<or> room \<le> 8 then failed
      else
        rbind (lift_acc (access_mem as (me_low e))) (\<lambda>magic.
        if ucast magic \<noteq> (0x464c457f :: 32 word) then failed
        else
          (case es_map_anonymous sys room of
             None \<Rightarrow> failed
           | Some base \<Rightarrow>
               rbind (copy_words as (me_low e) ((room + 7) div 8)) (\<lambda>bs.
               Inr \<lparr>ei_image = base, ei_bytes = take room bs\<rparr>))))"

text \<open>\<open>tdep_get_elf_image\<close> with an image: the mapping, the path used and the image.\<close>

definition tdep_get_elf_image ::
  "'f elf_system \<Rightarrow> addr_space \<Rightarrow> nat \<Rightarrow> unw_word \<Rightarrow> nat \<Rightarrow> (maps_entry \<times> cstr \<times> elf_image) res" where
  "tdep_get_elf_image sys as pid ip pathlen =
     rbind (find_mapping sys pid ip) (\<lambda>found.
     case found of
       None \<Rightarrow> Inl (Err UNW_EUNSPEC)
     | Some e \<Rightarrow>
         if \<not> 6 + length (unw_ltoa pid) + 6 < 22 then Inl Aborted
         else
           let root = [0x2f, 0x70, 0x72, 0x6f, 0x63, 0x2f] @ unw_ltoa pid @ [0x2f, 0x72, 0x6f, 0x6f, 0x74];
               root = (if es_is_dir sys root then root else []) in
           if length (me_path e) + 1 + length root \<ge> pathlen then Inl (Err UNW_EUNSPEC)
           else
             let path = root @ me_path e; path = (if es_is_reg sys path then path else me_path e) in
             (case elf_map_image (es_map_file sys) path of
                Some ei \<Rightarrow> Inr (e, path, ei)
              | None \<Rightarrow>
                  rbind (read_vdso sys as e) (\<lambda>ei.
                  let e = (if me_low e = me_offset e \<and> (path = [] \<or> path = [0x5b, 0x76, 0x64, 0x73, 0x6f, 0x5d])
                           then e\<lparr>me_offset := 0\<rparr> else e) in
                  Inr (e, path, ei))))"

definition get_proc_name ::
  "'f elf_system \<Rightarrow> addr_space \<Rightarrow> nat \<Rightarrow> unw_word \<Rightarrow> cstr \<Rightarrow> (cstr \<times> unw_word option \<times> (unw_error + unit)) res" where
  "get_proc_name sys as pid ip buf =
     rbind (attempt (tdep_get_elf_image sys as pid ip PATH_MAX)) (\<lambda>r.
     case r of
       Inl e \<Rightarrow> Inr (buf, None, Inl e)
     | Inr (e, file, ei) \<Rightarrow>
         rbind (load_debuginfo (es_map_file sys) file (Some ei) True) (\<lambda>ei.
         case ei of
           None \<Rightarrow> Inr (buf, None, Inl UNW_EUNSPEC)
         | Some ei \<Rightarrow>
             get_proc_name_in_image (extract_minidebuginfo (es_decode sys)) (es_page_size sys) ei (me_low e) ip buf))"

definition get_proc_ip_range ::
  "'f elf_system \<Rightarrow> addr_space \<Rightarrow> nat \<Rightarrow> unw_word \<Rightarrow> unw_word \<times> unw_word \<Rightarrow> ((unw_word \<times> unw_word) \<times> (unw_error + unit)) res" where
  "get_proc_ip_range sys as pid ip r =
     rbind (attempt (tdep_get_elf_image sys as pid ip PATH_MAX)) (\<lambda>found.
     case found of
       Inl e \<Rightarrow> Inr (r, Inl e)
     | Inr (e, file, ei) \<Rightarrow>
         rbind (load_debuginfo (es_map_file sys) file (Some ei) True) (\<lambda>ei.
         case ei of
           None \<Rightarrow> Inr (r, Inl UNW_EUNSPEC)
         | Some ei \<Rightarrow>
             get_proc_ip_range_in_image (extract_minidebuginfo (es_decode sys)) (es_page_size sys) ei (me_low e) ip r))"

text \<open>
  The path of the file that is mapped at an address, in a buffer that is filled up with zeros, and the
  offset into the file.
\<close>

definition get_elf_filename ::
  "'f elf_system \<Rightarrow> nat \<Rightarrow> unw_word \<Rightarrow> cstr \<Rightarrow> (cstr \<times> unw_word option \<times> (unw_error + unit)) res" where
  "get_elf_filename sys pid ip buf =
     rbind (get_mapping_path sys pid ip (length buf)) (\<lambda>r.
     Inr (case r of
            None \<Rightarrow> (buf, None, Inl UNW_EUNSPEC)
          | Some (e, path, ret) \<Rightarrow>
              (path @ replicate (length buf - length path) 0,
               (if ret = Inr () then Some (ip - me_low e + me_offset e) else None), ret)))"

end
