(* ===== verification/MapsLemmas.thy ===== *)
theory MapsLemmas
  imports Maps
begin

text \<open>
  Lines as the kernel prints them, that scanning a line gives its entry, and that the buffer hands the
  lines out one after the other.
\<close>

section \<open>Numbers\<close>

definition hex_char :: "nat \<Rightarrow> 8 word" where
  "hex_char d = (if d < 10 then 0x30 + word_of_nat d else 0x61 + word_of_nat (d - 10))"

fun hex_text :: "nat \<Rightarrow> cstr" where
  "hex_text n = (if n < 16 then [hex_char n] else hex_text (n div 16) @ [hex_char (n mod 16)])"

fun dec_text :: "nat \<Rightarrow> cstr" where
  "dec_text n = (if n < 10 then [0x30 + word_of_nat n] else dec_text (n div 10) @ [0x30 + word_of_nat (n mod 10)])"

declare hex_text.simps [simp del] dec_text.simps [simp del]

lemma hex_digit_char: "d < 16 \<Longrightarrow> hex_digit (hex_char d) = Some (word_of_nat d)"
proof -
  assume "d < 16"
  then have "d \<in> set [0..<16]" by simp
  moreover have "list_all (\<lambda>d. hex_digit (hex_char d) = Some (word_of_nat d)) [0..<16]" by code_simp
  ultimately show ?thesis by (simp only: list_all_iff)
qed

lemma dec_digit_char: "d < 10 \<Longrightarrow> dec_digit (0x30 + word_of_nat d) = Some (word_of_nat d)"
proof -
  assume "d < 10"
  then have "d \<in> set [0..<10]" by simp
  moreover have "list_all (\<lambda>d. dec_digit (0x30 + word_of_nat d) = Some (word_of_nat d)) [0..<10]" by code_simp
  ultimately show ?thesis by (simp only: list_all_iff)
qed

lemma shift_digit:
  fixes val :: unw_word
  assumes "d < 16" shows "push_bit 4 val OR word_of_nat d = val * 16 + word_of_nat d"
proof -
  have "\<not> bit (push_bit 4 val) i \<or> \<not> bit (word_of_nat d :: unw_word) i" for i
  proof (cases "i < 4")
    case False
    then have "(2::nat) ^ 4 \<le> 2 ^ i" by (intro power_increasing) auto
    then have "d div 2 ^ i = 0" using assms by simp
    then have "\<not> bit d i" by (simp add: bit_nat_def)
    then show ?thesis by (simp add: bit_simps)
  qed (simp add: bit_simps)
  then show ?thesis by (simp add: disjunctive_add [symmetric] push_bit_eq_mult)
qed

lemma scan_hex_text:
  "scan_hex_digits (hex_text n @ s) val k
    = scan_hex_digits s (val * 16 ^ length (hex_text n) + word_of_nat n) (k + length (hex_text n))"
proof (induction n arbitrary: s rule: hex_text.induct)
  case (1 n)
  show ?case
  proof (cases "n < 16")
    case True
    then show ?thesis by (simp add: hex_text.simps [of n] hex_digit_char shift_digit)
  next
    case False
    have n: "word_of_nat n = word_of_nat (n div 16) * 16 + (word_of_nat (n mod 16) :: unw_word)"
    proof -
      have "n = n div 16 * 16 + n mod 16" by simp
      then show ?thesis by (metis of_nat_add of_nat_mult of_nat_numeral)
    qed
    show ?thesis
      using 1 [OF False, of "hex_char (n mod 16) # s"] False n
      by (simp add: hex_text.simps [of n] hex_digit_char shift_digit algebra_simps)
  qed
qed

lemma scan_dec_text:
  "scan_dec_digits (dec_text n @ s) val k
    = scan_dec_digits s (val * 10 ^ length (dec_text n) + word_of_nat n) (k + length (dec_text n))"
proof (induction n arbitrary: s rule: dec_text.induct)
  case (1 n)
  show ?case
  proof (cases "n < 10")
    case True
    then show ?thesis by (simp add: dec_text.simps [of n] dec_digit_char mult.commute)
  next
    case False
    have n: "word_of_nat n = word_of_nat (n div 10) * 10 + (word_of_nat (n mod 10) :: unw_word)"
    proof -
      have "n = n div 10 * 10 + n mod 10" by simp
      then show ?thesis by (metis of_nat_add of_nat_mult of_nat_numeral)
    qed
    show ?thesis
      using 1 [OF False, of "(0x30 + word_of_nat (n mod 10)) # s"] False n
      by (simp add: dec_text.simps [of n] dec_digit_char algebra_simps)
  qed
qed

lemma texts_nonempty [simp]: "hex_text n \<noteq> []" "dec_text n \<noteq> []"
  by (subst hex_text.simps, simp) (subst dec_text.simps, simp)

lemma text_head:
  "\<exists>d s. d < 16 \<and> hex_text n = hex_char d # s" "\<exists>d s. d < 10 \<and> dec_text n = (0x30 + word_of_nat d) # s"
proof -
  show "\<exists>d s. d < 16 \<and> hex_text n = hex_char d # s"
  proof (induction n rule: hex_text.induct)
    case (1 n)
    then show ?case by (cases "n < 16") (auto simp: hex_text.simps [of n])
  qed
  show "\<exists>d s. d < 10 \<and> dec_text n = (0x30 + word_of_nat d) # s"
  proof (induction n rule: dec_text.induct)
    case (1 n)
    then show ?case by (cases "n < 10") (auto simp: dec_text.simps [of n])
  qed
qed

lemma plain_chars:
  "d < 16 \<Longrightarrow> hex_char d \<notin> {0, 0x09, 0x0a, 0x20}" "d < 10 \<Longrightarrow> 0x30 + word_of_nat d \<notin> {0, 0x09, 0x0a, 0x20 :: 8 word}"
proof -
  have "list_all (\<lambda>d. hex_char d \<notin> {0, 0x09, 0x0a, 0x20}) [0..<16]"
    "list_all (\<lambda>d. 0x30 + word_of_nat d \<notin> {0, 0x09, 0x0a, 0x20 :: 8 word}) [0..<10]" by code_simp+
  then have "\<forall>d \<in> set [0..<16]. hex_char d \<notin> {0, 0x09, 0x0a, 0x20}"
    "\<forall>d \<in> set [0..<10]. 0x30 + word_of_nat d \<notin> {0, 0x09, 0x0a, 0x20 :: 8 word}" by (simp_all only: list_all_iff)
  then show "d < 16 \<Longrightarrow> hex_char d \<notin> {0, 0x09, 0x0a, 0x20}" "d < 10 \<Longrightarrow> 0x30 + word_of_nat d \<notin> {0, 0x09, 0x0a, 0x20 :: 8 word}"
    by (simp_all del: upt_rec_numeral)
qed

lemma skip_blanks: "skip_whitespace (replicate n 0x20 @ s) = skip_whitespace s"
  by (induction n) simp_all

lemma skip_text [simp]:
  "skip_whitespace (hex_text n @ s) = Inr (Some (hex_text n @ s))"
  "skip_whitespace (dec_text n @ s) = Inr (Some (dec_text n @ s))"
proof -
  obtain d u where "d < 16" "hex_text n = hex_char d # u" using text_head(1) [of n] by auto
  then show "skip_whitespace (hex_text n @ s) = Inr (Some (hex_text n @ s))" using plain_chars(1) [of d] by simp
  obtain d u where "d < 10" "dec_text n = (0x30 + word_of_nat d) # u" using text_head(2) [of n] by auto
  then show "skip_whitespace (dec_text n @ s) = Inr (Some (dec_text n @ s))" using plain_chars(2) [of d] by simp
qed

lemma scan_zeros: "scan_hex_digits (replicate j 0x30 @ s) 0 k = scan_hex_digits s 0 (k + j)"
proof (induction j arbitrary: k)
  case (Suc j)
  have "hex_digit 0x30 = Some 0" by code_simp
  then show ?case using Suc [of "k + 1"] by simp
qed simp

text \<open>A number padded with zeros, and what follows it.\<close>

definition padded_hex :: "nat \<Rightarrow> nat \<Rightarrow> cstr" where
  "padded_hex j n = replicate j 0x30 @ hex_text n"

lemma skip_padded: "skip_whitespace (padded_hex j n @ s) = Inr (Some (padded_hex j n @ s))"
  by (cases j) (simp_all add: padded_hex_def)

lemma scan_padded:
  assumes "hex_digit c = None"
  shows "scan_hex (padded_hex j n @ c # s) = Inr (Some (c # s, word_of_nat n))"
    "scan_hex (0x20 # padded_hex j n @ c # s) = Inr (Some (c # s, word_of_nat n))"
proof -
  have digits: "scan_hex_digits (padded_hex j n @ c # s) 0 0 = Inr (c # s, word_of_nat n, j + length (hex_text n))"
    using assms scan_zeros [of j "hex_text n @ c # s" 0] scan_hex_text [of n "c # s" 0 j] by (simp add: padded_hex_def)
  show "scan_hex (padded_hex j n @ c # s) = Inr (Some (c # s, word_of_nat n))"
    unfolding scan_hex_def skip_padded obind_def rbind_simps option.case digits by simp
  then show "scan_hex (0x20 # padded_hex j n @ c # s) = Inr (Some (c # s, word_of_nat n))"
    by (simp add: scan_hex_def)
qed

lemma scan_dec_number:
  assumes "dec_digit c = None"
  shows "scan_dec (0x20 # dec_text n @ c # s) = Inr (Some (c # s, word_of_nat n))"
  using assms scan_dec_text [of n "c # s" 0 0] by (simp add: scan_dec_def obind_def)

section \<open>Lines\<close>

text \<open>A line of the file, whose numbers may be padded.\<close>

record maps_line =
  ml_low :: unw_word
  ml_high :: unw_word
  ml_perm :: cstr
  ml_offset :: unw_word
  ml_major :: nat
  ml_minor :: nat
  ml_inum :: nat
  ml_pad :: "nat \<Rightarrow> nat"
  ml_blanks :: nat
  ml_path :: cstr

definition line_ok :: "maps_line \<Rightarrow> bool" where
  "line_ok l \<longleftrightarrow> ml_perm l \<noteq> [] \<and> length (ml_perm l) < 16 \<and> set (ml_perm l) \<inter> {0, 0x09, 0x0a, 0x20} = {}
     \<and> set (ml_path l) \<inter> {0, 0x0a} = {} \<and> (ml_path l = [] \<or> 0 < ml_blanks l \<and> hd (ml_path l) \<notin> {0x09, 0x20})"

definition line_text :: "maps_line \<Rightarrow> cstr" where
  "line_text l =
     padded_hex (ml_pad l 0) (unat (ml_low l)) @ 0x2d # padded_hex (ml_pad l 1) (unat (ml_high l))
     @ 0x20 # ml_perm l @ 0x20 # padded_hex (ml_pad l 2) (unat (ml_offset l))
     @ 0x20 # padded_hex (ml_pad l 3) (ml_major l) @ 0x3a # padded_hex (ml_pad l 4) (ml_minor l)
     @ 0x20 # dec_text (ml_inum l) @ replicate (ml_blanks l) 0x20 @ ml_path l"

definition line_entry :: "maps_line \<Rightarrow> maps_entry" where
  "line_entry l = \<lparr>me_low = ml_low l, me_high = ml_high l, me_offset = ml_offset l, me_perm = ml_perm l,
     me_path = ml_path l\<rparr>"

lemma scan_word_text:
  assumes "set w \<inter> {0, 0x09, 0x20} = {}" "c \<in> {0, 0x09, 0x20}"
  shows "scan_word (w @ c # s) = Inr (c # s, w)"
  using assms by (induction w) auto

lemma scan_perm:
  assumes "w \<noteq> []" "length w < 16" "set w \<inter> {0, 0x09, 0x0a, 0x20} = {}"
  shows "scan_string (0x20 # w @ 0x20 # s) True 16 = Inr (Some (0x20 # s, w))"
proof -
  have "scan_word (w @ 0x20 # s) = Inr (0x20 # s, w)" using assms(3) by (intro scan_word_text) auto
  moreover have "skip_whitespace (w @ 0x20 # s) = Inr (Some (w @ 0x20 # s))" using assms(1,3) by (cases w) auto
  moreover have "take 15 w = w" using assms(2) by simp
  ultimately show ?thesis using assms(1,2) by (simp add: scan_string_def obind_def Let_def)
qed

lemma scan_word_ends: "0 \<in> set s \<Longrightarrow> \<exists>cp w. scan_word s = Inr (cp, w)"
  by (induction s) auto

lemma skip_path:
  assumes "p = [] \<or> hd p \<notin> {0x09, 0x20}"
  shows "skip_whitespace (p @ 0 # s) = Inr (Some (p @ 0 # s))"
  using assms by (cases p) auto

lemma parse_line_text:
  assumes "line_ok l" shows "parse_line (line_text l @ 0 # s) = Inr (Some (line_entry l))"
proof -
  have digits: "hex_digit 0x2d = None" "hex_digit 0x20 = None" "hex_digit 0x3a = None" "dec_digit 0 = None" "dec_digit 0x20 = None"
    by code_simp+
  have path: "ml_path l = [] \<or> hd (ml_path l) \<notin> {0x09, 0x20}" "set (ml_path l) \<inter> {0} = {}" using assms by (auto simp: line_ok_def)
  have perm: "ml_perm l \<noteq> []" "length (ml_perm l) < 16" "set (ml_perm l) \<inter> {0, 0x09, 0x0a, 0x20} = {}"
    using assms by (auto simp: line_ok_def)
  obtain cp w where "scan_word (ml_path l @ 0 # s) = Inr (cp, w)" using scan_word_ends [of "ml_path l @ 0 # s"] by auto
  then have null: "scan_string (ml_path l @ 0 # s) False 0 = Inr None"
    using skip_path [OF path(1)] by (simp add: scan_string_def obind_def Let_def)
  have string: "string_at (ml_path l @ 0 # s) = ml_path l"
  proof -
    have "\<forall>c \<in> set (ml_path l). c \<noteq> 0" using path(2) by auto
    then show ?thesis by (simp add: string_at_def takeWhile_append2)
  qed
  have tail: "scan_dec (0x20 # dec_text (ml_inum l) @ replicate (ml_blanks l) 0x20 @ ml_path l @ 0 # s)
      = Inr (Some (replicate (ml_blanks l) 0x20 @ ml_path l @ 0 # s, word_of_nat (ml_inum l)))"
  proof (cases "ml_blanks l")
    case 0
    then have "ml_path l = []" using assms by (auto simp: line_ok_def)
    then show ?thesis using 0 digits scan_dec_number [of 0 "ml_inum l" s] by simp
  next
    case (Suc n)
    then show ?thesis using digits scan_dec_number [of "0x20" "ml_inum l" "replicate n 0x20 @ ml_path l @ 0 # s"]
      by simp
  qed
  show ?thesis
    unfolding parse_line_def line_text_def append_assoc append_Cons
    by (simp add: obind_def scan_padded digits scan_perm [OF perm] tail skip_blanks skip_path [OF path(1)] null string
        line_entry_def)
qed

section \<open>The buffer\<close>

definition lines_text :: "maps_line list \<Rightarrow> cstr" where
  "lines_text ls = concat (map (\<lambda>l. line_text l @ [0x0a]) ls)"

lemma lines_text_simps [simp]:
  "lines_text [] = []" "lines_text (l # ls) = line_text l @ 0x0a # lines_text ls"
  by (simp_all add: lines_text_def)

text \<open>
  How a file hands out the text that is still to be read of it: a read for \<open>n\<close> bytes gives some of the next
  \<open>n\<close> bytes, with the end of a line among them if there is one among the \<open>n\<close>. What is behind that end may be
  cut off anywhere.
\<close>

definition hands_out :: "'f file_reader \<Rightarrow> ('f \<Rightarrow> cstr) \<Rightarrow> bool" where
  "hands_out rd unread \<longleftrightarrow>
     (\<forall>f n. \<exists>m \<le> n. fst (rd f n) = take m (unread f) \<and> unread (snd (rd f n)) = drop m (unread f)
        \<and> (0x0a \<in> set (take n (unread f)) \<longrightarrow> 0x0a \<in> set (take m (unread f))))"

text \<open>The lines still to come: the rest of the buffer followed by the text to be read is their text.\<close>

definition reading :: "('f \<Rightarrow> cstr) \<Rightarrow> map_iterator \<Rightarrow> 'f \<Rightarrow> maps_line list \<Rightarrow> bool" where
  "reading unread mi f ks \<longleftrightarrow>
     mi_open mi \<and> mi_buf mi \<le> length (mi_mem mi) \<and> drop (mi_buf mi) (mi_mem mi) @ unread f = lines_text ks
     \<and> (\<forall>l \<in> set ks. line_ok l \<and> length (line_text l) < length (mi_mem mi))"

lemma hex_text_plain: "c \<in> set (hex_text n) \<Longrightarrow> c \<notin> {0, 0x09, 0x0a, 0x20}"
proof (induction n rule: hex_text.induct)
  case (1 n)
  then show ?case using plain_chars(1) [of n] plain_chars(1) [of "n mod 16"] by (auto simp: hex_text.simps [of n] split: if_splits)
qed

lemma dec_text_plain: "c \<in> set (dec_text n) \<Longrightarrow> c \<notin> {0, 0x09, 0x0a, 0x20}"
proof (induction n rule: dec_text.induct)
  case (1 n)
  then show ?case using plain_chars(2) [of n] plain_chars(2) [of "n mod 10"] by (auto simp: dec_text.simps [of n] split: if_splits)
qed

lemma line_plain:
  assumes "line_ok l" "c \<in> set (line_text l)" shows "c \<noteq> 0" "c \<noteq> 0x0a"
proof -
  have "c \<notin> {0, 0x0a}"
    using assms hex_text_plain [of c] dec_text_plain [of c]
    by (auto simp: line_text_def padded_hex_def line_ok_def)
  then show "c \<noteq> 0" "c \<noteq> 0x0a" by auto
qed

lemma find_eol_line: "\<forall>c \<in> set s. c \<noteq> 0 \<and> c \<noteq> 0x0a \<Longrightarrow> find_eol (s @ 0x0a # t) = Some (length s)"
  by (induction s) auto

lemma find_newline_line: "\<forall>c \<in> set s. c \<noteq> 0x0a \<Longrightarrow> find_newline (s @ 0x0a # t) = Some (length s)"
  by (induction s) auto

lemma find_eol_none: "\<forall>c \<in> set s. c \<noteq> 0 \<and> c \<noteq> 0x0a \<Longrightarrow> find_eol s = None"
  by (induction s) auto

text \<open>The text to the end of the first line is a prefix of whatever begins the lines and holds the end of one.\<close>

lemma first_line_prefix:
  assumes "xs @ ys = line_text k @ 0x0a # zs" "0x0a \<in> set xs" "\<forall>c \<in> set (line_text k). c \<noteq> 0x0a"
  obtains rest where "xs = line_text k @ 0x0a # rest" "rest @ ys = zs"
proof -
  from assms(1) obtain us where "xs = line_text k @ us \<and> us @ ys = 0x0a # zs \<or> xs @ us = line_text k \<and> ys = us @ 0x0a # zs"
    unfolding append_eq_append_conv2 by blast
  then show thesis
  proof
    assume us: "xs = line_text k @ us \<and> us @ ys = 0x0a # zs"
    with assms(2,3) have "us \<noteq> []" by auto
    with us obtain rest where "us = 0x0a # rest" "rest @ ys = zs" by (cases us) auto
    with us that show thesis by simp
  next
    assume "xs @ us = line_text k \<and> ys = us @ 0x0a # zs"
    then have "set xs \<subseteq> set (line_text k)" by (metis set_append Un_upper1)
    with assms(2,3) show thesis by auto
  qed
qed

text \<open>A refill for a line that the buffer holds no end of keeps what there is of it and puts the bytes read behind.\<close>

lemma refill_reads:
  assumes "find_eol (drop (mi_buf mi) (mi_mem mi)) = None" "mi_buf mi \<le> length (mi_mem mi)"
    "rd f (length (mi_mem mi) - length (drop (mi_buf mi) (mi_mem mi))) = (bytes, f')" "bytes \<noteq> []"
    "length (drop (mi_buf mi) (mi_mem mi)) + length bytes \<le> length (mi_mem mi)" "find_newline bytes = Some i"
  shows "\<exists>mi'. refill rd mi f = (mi', f', Some (mi_buf mi' + length (drop (mi_buf mi) (mi_mem mi)) + i))
    \<and> mi_open mi' = mi_open mi \<and> length (mi_mem mi') = length (mi_mem mi) \<and> mi_buf mi' \<le> length (mi_mem mi')
    \<and> drop (mi_buf mi') (mi_mem mi') = drop (mi_buf mi) (mi_mem mi) @ bytes"
proof -
  let ?size = "length (mi_mem mi)" and ?old = "drop (mi_buf mi) (mi_mem mi)"
  let ?left = "length ?old" let ?n = "length bytes + ?left"
  let ?mem = "?old @ bytes @ drop ?n (mi_mem mi)"
  let ?new = "if ?n < ?size then take (?size - ?n) ?mem @ ?old @ bytes else ?mem"
  let ?buf = "if ?n < ?size then ?size - ?n else 0"
  have left: "?size - mi_buf mi = ?left" by simp
  have n: "?n \<le> ?size" using assms(5) by simp
  have shape: "take ?n ?mem = ?old @ bytes" "length ?mem = ?size" using n by simp_all
  have new: "length ?new = ?size" "drop ?buf ?new = ?old @ bytes" "?buf \<le> ?size"
  proof -
    show "?buf \<le> ?size" by simp
    have front: "length (take (?size - ?n) ?mem) = ?size - ?n" unfolding length_take shape(2) by simp
    show "length ?new = ?size"
    proof (cases "?n < ?size")
      case True
      then show ?thesis by (simp add: front del: take_append)
    next
      case False
      then show ?thesis using shape(2) by (simp only: if_False)
    qed
    show "drop ?buf ?new = ?old @ bytes"
    proof (cases "?n < ?size")
      case True
      have "drop (length (take (?size - ?n) ?mem)) (take (?size - ?n) ?mem @ ?old @ bytes) = ?old @ bytes"
        by (rule append_eq_conv_conj [THEN iffD1, THEN conjunct2, symmetric]) (rule refl)
      then show ?thesis using True unfolding front by (simp only: if_True)
    next
      case False
      then have "drop ?n (mi_mem mi) = []" using n by simp
      then show ?thesis using False by simp
    qed
  qed
  have moved: "take ?left (drop (mi_buf mi) (mi_mem mi)) @ drop ?left (mi_mem mi) = ?old @ drop ?left (mi_mem mi)" by simp
  have placed: "take ?left (?old @ drop ?left (mi_mem mi)) @ bytes @ drop (?left + length bytes) (?old @ drop ?left (mi_mem mi)) = ?mem"
    by (simp add: add.commute)
  have found: "find_newline (take (length bytes) (drop (?buf + ?left) ?new)) = Some i"
  proof -
    have "drop (?buf + ?left) ?new = drop ?left (drop ?buf ?new)" unfolding drop_drop by (simp only: add.commute)
    also have "\<dots> = bytes" unfolding new(2) by (metis append_eq_conv_conj)
    finally have "drop (?buf + ?left) ?new = bytes" .
    then show ?thesis using assms(6) by (simp only: take_all order.refl)
  qed
  have "refill rd mi f = (mi\<lparr>mi_mem := ?new, mi_buf := ?buf\<rparr>, f', Some (?buf + ?left + i))"
  proof (cases "?n < ?size")
    case True
    note found = found [unfolded if_P [OF True]]
    show ?thesis
      unfolding refill_def left assms(1) Let_def option.case moved assms(3) prod.case placed
      by (simp only: if_P [OF True] prod.case shape(1) found option.case length_0_conv assms(4) if_False)
  next
    case False
    note found = found [unfolded if_not_P [OF False]]
    show ?thesis
      unfolding refill_def left assms(1) Let_def option.case moved assms(3) prod.case placed
      by (simp only: if_not_P [OF False] prod.case found option.case length_0_conv assms(4) if_False)
  qed
  then show ?thesis using new by (intro exI [of _ "mi\<lparr>mi_mem := ?new, mi_buf := ?buf\<rparr>"]) (simp del: length_drop)
qed

text \<open>After a refill the buffer begins with the next line, whose end is found.\<close>

lemma refill_line:
  assumes "hands_out rd unread" "reading unread mi f (k # ks)"
  shows "\<exists>mi' f' rest. refill rd mi f = (mi', f', Some (mi_buf mi' + length (line_text k)))
    \<and> mi_open mi' \<and> length (mi_mem mi') = length (mi_mem mi) \<and> mi_buf mi' \<le> length (mi_mem mi')
    \<and> drop (mi_buf mi') (mi_mem mi') = line_text k @ 0x0a # rest \<and> rest @ unread f' = lines_text ks"
proof -
  let ?size = "length (mi_mem mi)" and ?old = "drop (mi_buf mi) (mi_mem mi)"
  have r: "mi_open mi" "mi_buf mi \<le> ?size" "?old @ unread f = line_text k @ 0x0a # lines_text ks"
      "line_ok k" "length (line_text k) < ?size"
    using assms(2) by (auto simp: reading_def)
  have plain: "\<forall>c \<in> set (line_text k). c \<noteq> 0 \<and> c \<noteq> 0x0a" using line_plain [OF r(4)] by auto
  show ?thesis
  proof (cases "0x0a \<in> set ?old")
    case True
    then obtain rest where rest: "?old = line_text k @ 0x0a # rest" "rest @ unread f = lines_text ks"
      using first_line_prefix [OF r(3)] plain by metis
    then have "refill rd mi f = (mi, f, Some (mi_buf mi + length (line_text k)))"
      using find_eol_line [OF plain, of rest] by (simp add: refill_def Let_def)
    then show ?thesis using r rest by blast
  next
    case False
    have "\<exists>us. ?old @ us = line_text k \<and> unread f = us @ 0x0a # lines_text ks"
    proof -
      from r(3) obtain us where "?old = line_text k @ us \<and> us @ unread f = 0x0a # lines_text ks
          \<or> ?old @ us = line_text k \<and> unread f = us @ 0x0a # lines_text ks"
        unfolding append_eq_append_conv2 by blast
      then show ?thesis
      proof
        assume us: "?old = line_text k @ us \<and> us @ unread f = 0x0a # lines_text ks"
        with False have "us = []" by (cases us) auto
        with us show ?thesis by auto
      qed blast
    qed
    then obtain us where us: "?old @ us = line_text k" "unread f = us @ 0x0a # lines_text ks" by blast
    have sub: "set ?old \<subseteq> set (line_text k)" "set us \<subseteq> set (line_text k)" using us(1) by (metis set_append Un_upper1 Un_upper2)+
    have none: "find_eol ?old = None" using find_eol_none plain sub(1) by blast
    have len: "length ?old + length us = length (line_text k)" using us(1) by (metis length_append)
    let ?n = "?size - length ?old"
    obtain m where m: "m \<le> ?n" "fst (rd f ?n) = take m (unread f)" "unread (snd (rd f ?n)) = drop m (unread f)"
        "0x0a \<in> set (take ?n (unread f)) \<longrightarrow> 0x0a \<in> set (take m (unread f))"
      using assms(1) unfolding hands_out_def by blast
    have "take ?n (unread f) = us @ take (?n - length us) (0x0a # lines_text ks)" "0 < ?n - length us"
      using us(2) len r(5) by auto
    then have "0x0a \<in> set (take ?n (unread f))" by (cases "?n - length us") simp_all
    then have "0x0a \<in> set (take m (unread f))" using m(4) by blast
    moreover have "take m (unread f) @ drop m (unread f) = us @ 0x0a # lines_text ks" using us(2) by (simp only: append_take_drop_id)
    moreover have "\<not> length us \<ge> m"
    proof
      assume "length us \<ge> m"
      then have "set (take m (unread f)) \<subseteq> set us" using us(2) by (simp add: set_take_subset)
      then show False using \<open>0x0a \<in> set (take m (unread f))\<close> sub(2) plain by blast
    qed
    ultimately obtain rest where rest: "take m (unread f) = us @ 0x0a # rest" "rest @ drop m (unread f) = lines_text ks"
      using us(2) by (cases "m - length us") auto
    obtain f' where rd: "rd f ?n = (take m (unread f), f')" "unread f' = drop m (unread f)"
      using m(2,3) by (cases "rd f ?n") auto
    have "find_newline (take m (unread f)) = Some (length us)"
      using rest(1) find_newline_line [of us rest] plain sub(2) by auto
    moreover have "length ?old + length (take m (unread f)) \<le> ?size" using m(1) r(2) by simp
    moreover have "take m (unread f) \<noteq> []" using rest(1) by simp
    ultimately obtain mi' where mi': "refill rd mi f = (mi', f', Some (mi_buf mi' + length ?old + length us))"
        "mi_open mi' = mi_open mi" "length (mi_mem mi') = ?size" "mi_buf mi' \<le> length (mi_mem mi')"
        "drop (mi_buf mi') (mi_mem mi') = ?old @ take m (unread f)"
      using refill_reads [of mi rd f "take m (unread f)" f' "length us", OF none r(2) rd(1)] by blast
    have "drop (mi_buf mi') (mi_mem mi') = line_text k @ 0x0a # rest"
      using mi'(5) rest(1) us(1) by (metis append_assoc)
    moreover have "refill rd mi f = (mi', f', Some (mi_buf mi' + length (line_text k)))"
      using mi'(1) len by (metis add.assoc)
    moreover have "mi_open mi'" using mi'(2) r(1) by simp
    moreover have "rest @ unread f' = lines_text ks" using rest(2) rd(2) by simp
    ultimately show ?thesis using mi'(3,4) by blast
  qed
qed

lemma refill_end:
  assumes "hands_out rd unread" "reading unread mi f []"
  shows "\<exists>mi' f'. refill rd mi f = (mi', f', None)"
proof -
  have r: "mi_buf mi = length (mi_mem mi)" "unread f = []" using assms(2) by (auto simp: reading_def)
  obtain m where "fst (rd f (length (mi_mem mi))) = take m (unread f)" using assms(1) unfolding hands_out_def by blast
  then show ?thesis using r by (cases "rd f (length (mi_mem mi))") (simp add: refill_def Let_def)
qed

text \<open>One call against the list of the lines to come.\<close>

lemma maps_next_line:
  assumes "hands_out rd unread" "reading unread mi f (k # ks)"
  shows "\<exists>mi' f'. maps_next rd mi f = Inr (mi', f', Some (line_entry k)) \<and> reading unread mi' f' ks"
proof -
  obtain mi1 f1 rest where r: "refill rd mi f = (mi1, f1, Some (mi_buf mi1 + length (line_text k)))" "mi_open mi1"
    "length (mi_mem mi1) = length (mi_mem mi)" "mi_buf mi1 \<le> length (mi_mem mi1)"
    "drop (mi_buf mi1) (mi_mem mi1) = line_text k @ 0x0a # rest" "rest @ unread f1 = lines_text ks"
    using refill_line [OF assms] by metis
  have ok: "mi_open mi" "line_ok k" "\<forall>l \<in> set ks. line_ok l \<and> length (line_text l) < length (mi_mem mi)"
    using assms(2) by (auto simp: reading_def)
  let ?eol = "mi_buf mi1 + length (line_text k)"
  have "mi_mem mi1 = take (mi_buf mi1) (mi_mem mi1) @ line_text k @ 0x0a # rest" using r(5) by (metis append_take_drop_id)
  then obtain pre where mem: "mi_mem mi1 = pre @ line_text k @ 0x0a # rest" "length pre = mi_buf mi1"
    using r(4) by (metis length_take min.absorb2)
  let ?mem = "pre @ line_text k @ 0 # rest"
  let ?mi = "mi1\<lparr>mi_mem := ?mem, mi_buf := ?eol + 1\<rparr>"
  have "arr_set (mi_mem mi1) ?eol 0 = Inr ?mem"
    using mem by (simp add: arr_set_def list_update_append)
  moreover have "parse_line (drop (mi_buf mi1) ?mem) = Inr (Some (line_entry k))"
    using parse_line_text [OF ok(2)] mem(2) by simp
  ultimately have "maps_next_body rd (mi, f) = Inr (Inr (?mi, f1, Some (line_entry k)))"
    using r(1) by (simp add: maps_next_body_def)
  then have "maps_next rd mi f = Inr (?mi, f1, Some (line_entry k))"
    using ok(1) by (simp add: maps_next_def iterate_end returns_def)
  moreover have "reading unread ?mi f1 ks"
  proof -
    have "length ?mem = length (mi_mem mi)" "drop (?eol + 1) ?mem = rest" using mem r(3) by simp_all
    moreover have "?eol + 1 \<le> length ?mem" using mem(2) by simp
    ultimately show ?thesis unfolding reading_def using r(2,6) ok by auto
  qed
  ultimately show ?thesis by blast
qed

lemma maps_next_end:
  assumes "hands_out rd unread" "reading unread mi f []"
  shows "\<exists>mi' f'. maps_next rd mi f = Inr (mi', f', None)"
proof -
  obtain mi1 f1 where "refill rd mi f = (mi1, f1, None)" using refill_end [OF assms] by auto
  then have "maps_next_body rd (mi, f) = Inr (Inr (mi1, f1, None))" by (simp add: maps_next_body_def)
  then show ?thesis using assms(2) by (simp add: maps_next_def iterate_end returns_def reading_def)
qed

end
