(* ===== verification/ElfLemmas.thy ===== *)
theory ElfLemmas
  imports ElfName MapsLemmas
begin

text \<open>
  The lookup of a symbol against the list of the functions of an image, the search of the mappings of a
  process against the list of its lines, and the number of symbols of a hash table.
\<close>

section \<open>The functions of an image\<close>

fun sym_list :: "elf_image \<Rightarrow> unw_word \<Rightarrow> nat \<Rightarrow> unw_word \<Rightarrow> elf_sym list res" where
  "sym_list ei entsize 0 p = Inr []"
| "sym_list ei entsize (Suc n) p =
     rbind (read_sym ei p) (\<lambda>s. rbind (sym_list ei entsize n (p + entsize)) (\<lambda>ss. Inr (s # ss)))"

text \<open>The functions of a table of symbols that has entries of some size and does not wrap around.\<close>

definition table_functions :: "elf_image \<Rightarrow> unw_word \<Rightarrow> elf_shdr \<Rightarrow> symbol_info list res" where
  "table_functions ei load_offset shdr =
     rbind (string_table ei (sh_link shdr)) (\<lambda>strtab.
     case strtab of
       None \<Rightarrow> Inr []
     | Some strtab \<Rightarrow>
         let p = ei_image ei + sh_offset shdr; e = unat (sh_entsize shdr); n = (unat (sh_size shdr) + e - 1) div e in
         rbind (check (0 < e \<and> unat p + unat (sh_size shdr) + e \<le> 2 ^ 64) Bad_div) (\<lambda>_.
         rbind (sym_list ei (sh_entsize shdr) n p) (\<lambda>ss.
         Inr (map (symbol_at load_offset strtab) (filter is_function ss)))))"

fun section_functions :: "elf_image \<Rightarrow> unw_word \<Rightarrow> unw_word \<Rightarrow> nat \<Rightarrow> unw_word \<Rightarrow> symbol_info list res" where
  "section_functions ei load_offset shentsize 0 p = Inr []"
| "section_functions ei load_offset shentsize (Suc n) p =
     rbind (read_shdr ei p) (\<lambda>shdr.
     rbind (if sh_type shdr = 2 \<or> sh_type shdr = 11 then table_functions ei load_offset shdr else Inr []) (\<lambda>fs.
     rbind (section_functions ei load_offset shentsize n (p + shentsize)) (\<lambda>gs. Inr (fs @ gs))))"

definition image_functions :: "elf_image \<Rightarrow> unw_word \<Rightarrow> symbol_info list res" where
  "image_functions ei load_offset =
     rbind (section_table ei) (\<lambda>shdr.
     case shdr of
       None \<Rightarrow> Inr []
     | Some shdr \<Rightarrow>
         rbind (e_shnum ei) (\<lambda>shnum. rbind (e_shentsize ei) (\<lambda>shentsize.
         section_functions ei load_offset shentsize (unat shnum) shdr)))"

text \<open>The callbacks for a list of functions, until one answers.\<close>

fun first_answer :: "'s symtab_lookup \<Rightarrow> symbol_info list \<Rightarrow> 's \<Rightarrow> ('s \<times> (unw_error + unit)) res" where
  "first_answer lookup [] st = Inr (st, Inl UNW_ENOINFO)"
| "first_answer lookup (f # fs) st =
     rbind (lookup f st) (\<lambda>(st, ret). if ret = Inl UNW_ENOINFO then first_answer lookup fs st else Inr (st, ret))"

lemma first_answer_append:
  "first_answer lookup (fs @ gs) st =
     rbind (first_answer lookup fs st) (\<lambda>(st, ret). if ret = Inl UNW_ENOINFO then first_answer lookup gs st else Inr (st, ret))"
proof (induction fs arbitrary: st)
  case (Cons f fs)
  show ?case
  proof (cases "lookup f st")
    case (Inr a)
    then show ?thesis using Cons by (cases a) auto
  qed simp
qed simp

lemma symtab_loop:
  assumes "sym_list ei entsize n p = Inr ss" "0 < unat entsize"
    "n = (unat symtab_end - unat p + unat entsize - 1) div unat entsize"
    "unat symtab_end + unat entsize \<le> 2 ^ 64"
  shows "iterate (symtab_body ei load_offset lookup strtab symtab_end entsize) (p, st)
    = Some (first_answer lookup (map (symbol_at load_offset strtab) (filter is_function ss)) st)"
  using assms
proof (induction n arbitrary: p ss st)
  case 0
  then have "unat symtab_end - unat p + unat entsize - 1 < unat entsize" by (metis div_eq_0_iff neq0_conv)
  then have "\<not> p < symtab_end" using 0(2) by (simp add: word_less_nat_alt)
  then show ?case using 0(1) by (simp add: symtab_body_def iterate_end)
next
  case (Suc n)
  let ?e = "unat entsize"
  have less: "unat p < unat symtab_end"
  proof (rule ccontr)
    assume "\<not> unat p < unat symtab_end"
    then have "unat symtab_end - unat p + ?e - 1 < ?e" using Suc.prems(2) by simp
    then show False using Suc.prems(3) by simp
  qed
  obtain s ss' where s: "read_sym ei p = Inr s" "sym_list ei entsize n (p + entsize) = Inr ss'" "ss = s # ss'"
    using Suc.prems(1) by (auto simp: rbind_eq_Inr)
  have p: "unat (p + entsize) = unat p + ?e"
    using less Suc.prems(4) by (simp add: unat_word_ariths)
  have n: "n = (unat symtab_end - unat (p + entsize) + ?e - 1) div ?e"
  proof (cases "unat p + ?e \<le> unat symtab_end")
    case True
    then have "unat symtab_end - unat p + ?e - 1 = (unat symtab_end - unat (p + entsize) + ?e - 1) + ?e"
      using p Suc.prems(2) by simp
    then have "Suc n = (unat symtab_end - unat (p + entsize) + ?e - 1 + ?e) div ?e" using Suc.prems(3) by (simp only:)
    also have "\<dots> = (unat symtab_end - unat (p + entsize) + ?e - 1) div ?e + 1"
      using Suc.prems(2) by (intro div_add_self2) simp
    finally show ?thesis by simp
  next
    case False
    then have "unat symtab_end - unat (p + entsize) + ?e - 1 < ?e" using p Suc.prems(2) by simp
    moreover have "unat symtab_end - unat p + ?e - 1 < ?e + ?e" "?e \<le> unat symtab_end - unat p + ?e - 1"
      using False less by auto
    then have "(unat symtab_end - unat p + ?e - 1) div ?e = 1" by (simp add: div_nat_eqI)
    ultimately show ?thesis using Suc.prems(3) by simp
  qed
  have IH: "iterate (symtab_body ei load_offset lookup strtab symtab_end entsize) (p + entsize, st)
      = Some (first_answer lookup (map (symbol_at load_offset strtab) (filter is_function ss')) st)" for st
    by (rule Suc.IH [OF s(2) Suc.prems(2) n Suc.prems(4)])
  have less': "p < symtab_end" using less by (simp add: word_less_nat_alt)
  show ?case
  proof (cases "is_function s")
    case False
    then have "symtab_body ei load_offset lookup strtab symtab_end entsize (p, st) = Inr (Inl (p + entsize, st))"
      using s(1) less' by (simp add: symtab_body_def)
    then show ?thesis using IH False s(3) by (simp add: iterate_next)
  next
    case True
    show ?thesis
    proof (cases "lookup (symbol_at load_offset strtab s) st")
      case (Inl f)
      then have "symtab_body ei load_offset lookup strtab symtab_end entsize (p, st) = Inl f"
        using s(1) less' True by (simp add: symtab_body_def)
      then show ?thesis using Inl True s(3) by (subst iterate.simps) simp
    next
      case (Inr a)
      then obtain st' ret where a: "lookup (symbol_at load_offset strtab s) st = Inr (st', ret)" by (cases a) auto
      then have body: "symtab_body ei load_offset lookup strtab symtab_end entsize (p, st)
          = Inr (if ret = Inl UNW_ENOINFO then Inl (p + entsize, st') else Inr (st', ret))"
        using s(1) less' True by (simp add: symtab_body_def)
      show ?thesis
      proof (cases "ret = Inl UNW_ENOINFO")
        case True
        then show ?thesis using body a IH [of st'] s(3) \<open>is_function s\<close> by (simp add: iterate_next)
      next
        case False
        then show ?thesis using body a s(3) \<open>is_function s\<close> by (simp add: iterate_end)
      qed
    qed
  qed
qed

lemma table_loop:
  assumes "table_functions ei load_offset shdr = Inr fs" "string_table ei (sh_link shdr) = Inr (Some strtab)"
  shows "iterate (symtab_body ei load_offset lookup strtab (ei_image ei + sh_offset shdr + sh_size shdr) (sh_entsize shdr))
      (ei_image ei + sh_offset shdr, st) = Some (first_answer lookup fs st)"
proof -
  let ?p = "ei_image ei + sh_offset shdr" and ?e = "unat (sh_entsize shdr)" and ?s = "unat (sh_size shdr)"
  obtain ss where ss: "0 < ?e" "unat ?p + ?s + ?e \<le> 2 ^ 64" "sym_list ei (sh_entsize shdr) ((?s + ?e - 1) div ?e) ?p = Inr ss"
    "fs = map (symbol_at load_offset strtab) (filter is_function ss)"
    using assms by (auto simp: table_functions_def Let_def rbind_eq_Inr check_eq_Inr)
  have stop: "unat (?p + sh_size shdr) = unat ?p + ?s"
    using ss(1,2) by (subst unat_word_ariths) simp
  have "iterate (symtab_body ei load_offset lookup strtab (?p + sh_size shdr) (sh_entsize shdr)) (?p, st)
      = Some (first_answer lookup (map (symbol_at load_offset strtab) (filter is_function ss)) st)"
    by (rule symtab_loop [OF ss(3,1)]) (use stop ss(2) in simp_all)
  then show ?thesis by (simp only: ss(4))
qed

lemma closeness_functions:
  assumes "section_functions ei load_offset shentsize n p = Inr fs"
  shows "closeness_loop ei load_offset lookup shentsize n p st = first_answer lookup fs st"
  using assms
proof (induction n arbitrary: p fs st)
  case 0
  then show ?case by simp
next
  case (Suc n)
  obtain shdr fs1 fs2 where s: "read_shdr ei p = Inr shdr"
    "(if sh_type shdr = 2 \<or> sh_type shdr = 11 then table_functions ei load_offset shdr else Inr []) = Inr fs1"
    "section_functions ei load_offset shentsize n (p + shentsize) = Inr fs2" "fs = fs1 @ fs2"
    using Suc.prems by (auto simp: rbind_eq_Inr)
  have "(if sh_type shdr = 2 \<or> sh_type shdr = 11 then
              (let symtab = ei_image ei + sh_offset shdr in
               rbind (string_table ei (sh_link shdr)) (\<lambda>strtab.
               case strtab of
                 None \<Rightarrow> Inr (st, Inl UNW_ENOINFO)
               | Some strtab \<Rightarrow>
                   returns (iterate (symtab_body ei load_offset lookup strtab (symtab + sh_size shdr) (sh_entsize shdr))
                     (symtab, st))))
            else Inr (st, Inl UNW_ENOINFO)) = first_answer lookup fs1 st"
  proof (cases "sh_type shdr = 2 \<or> sh_type shdr = 11")
    case True
    then have fs1: "table_functions ei load_offset shdr = Inr fs1" using s(2) by simp
    show ?thesis
    proof (cases "string_table ei (sh_link shdr)")
      case (Inl f)
      then show ?thesis using fs1 by (simp add: table_functions_def)
    next
      case (Inr r)
      show ?thesis
      proof (cases r)
        case None
        then show ?thesis using True Inr fs1 by (auto simp: table_functions_def)
      next
        case (Some strtab)
        then show ?thesis using True Inr table_loop [OF fs1, of strtab lookup st] by (simp add: returns_def Let_def)
      qed
    qed
  qed (use s(2) in simp)
  then show ?case
    unfolding closeness_loop.simps s(1) rbind_simps s(4) first_answer_append
    using Suc.IH [OF s(3)] by (auto intro!: arg_cong2 [where f = rbind])
qed

lemma lookup_functions:
  assumes "valid_object ei" "section_table ei \<noteq> Inr None" "image_functions ei load_offset = Inr fs"
  shows "lookup_symbol_closeness ei load_offset lookup st =
    rbind (first_answer lookup fs st) (\<lambda>(st, ret).
      if ret = Inl UNW_ENOINFO then lookup_symbol_from_dynamic ei load_offset lookup st else Inr (st, ret))"
proof -
  obtain shdr shnum shentsize where s: "section_table ei = Inr (Some shdr)" "e_shnum ei = Inr shnum" "e_shentsize ei = Inr shentsize"
    "section_functions ei load_offset shentsize (unat shnum) shdr = Inr fs"
    using assms(2,3) by (auto simp: image_functions_def rbind_eq_Inr split: option.splits)
  have "closeness_loop ei load_offset lookup shentsize (unat shnum) shdr st = first_answer lookup fs st"
    by (rule closeness_functions [OF s(4)])
  then show ?thesis using assms(1) s(1-3) by (simp add: lookup_symbol_closeness_def)
qed

end
