(* ===== verification/NameQuery.thy ===== *)
theory NameQuery
  imports ElfName DynRemote X86_64
begin

text \<open>
  The queries for the name of a procedure and for the file that it comes from (\<open>src/mi/Gget_proc_name.c\<close>,
  \<open>src/mi/Gget_elf_filename.c\<close>).
\<close>

section \<open>Names\<close>

text \<open>
  A string of the target. A byte that cannot be fetched is stored all the same, with a value that is
  not determined, the parameter \<open>junk\<close>.
\<close>

fun intern_bytes :: "addr_space \<Rightarrow> 8 word \<Rightarrow> unw_word \<Rightarrow> nat \<Rightarrow> nat \<Rightarrow> cstr \<Rightarrow> (cstr \<times> (unw_error + unit)) res" where
  "intern_bytes as junk addr i 0 buf = rbind (arr_set buf (length buf - 1) 0) (\<lambda>buf. Inr (buf, Inl UNW_ENOMEM))"
| "intern_bytes as junk addr i (Suc n) buf =
     rbind (attempt (fetch8 as addr)) (\<lambda>r.
     case r of
       Inl e \<Rightarrow> rbind (arr_set buf i junk) (\<lambda>buf. Inr (buf, Inl e))
     | Inr (c, addr) \<Rightarrow>
         rbind (arr_set buf i c) (\<lambda>buf. if c = 0 then Inr (buf, Inr ()) else intern_bytes as junk addr (i + 1) n buf))"

definition intern_string :: "addr_space \<Rightarrow> 8 word \<Rightarrow> unw_word \<Rightarrow> cstr \<Rightarrow> (cstr \<times> (unw_error + unit)) res" where
  "intern_string as junk addr buf = intern_bytes as junk addr 0 (length buf) buf"

text \<open>
  The callbacks of the client for an address and a buffer: the buffer, the offset when it is stored, and
  the return value.
\<close>

type_synonym name_accessor = "unw_word \<Rightarrow> cstr \<Rightarrow> (cstr \<times> unw_word option \<times> (unw_error + unit)) res"

text \<open>
  The unwind information of the procedure found is taken for an \<open>unw_dyn_info_t\<close>, also where it is a
  \<open>dwarf_cie_info\<close>: the member \<open>format\<close> lies where the latter has the low half of \<open>data_align\<close>, and
  \<open>u.pi.name_ptr\<close> where it has \<open>ret_addr_column\<close>. The procedure information begins with no value, the
  parameter \<open>pi\<close>; it is released at the end.
\<close>

definition dynamic_proc_name ::
  "addr_space \<Rightarrow> 8 word \<Rightarrow> unw_word \<Rightarrow> unw_proc_info \<Rightarrow> cstr \<Rightarrow> (cstr \<times> unw_word option \<times> (unw_error + unit)) res" where
  "dynamic_proc_name as junk ip pi buf =
     (case pi_unwind_info pi of
        None \<Rightarrow> Inl Out_of_bounds
      | Some di \<Rightarrow>
          rbind (case format_of (ucast (data_align di)) of
                   Some UNW_INFO_FORMAT_DYNAMIC \<Rightarrow> intern_string as junk (cie_ret_addr_column di) buf
                 | Some UNW_INFO_FORMAT_TABLE \<Rightarrow> Inr (buf, Inl UNW_ENOINFO)
                 | Some UNW_INFO_FORMAT_REMOTE_TABLE \<Rightarrow> Inr (buf, Inl UNW_ENOINFO)
                 | _ \<Rightarrow> Inr (buf, Inl UNW_EINVAL)) (\<lambda>(buf, ret).
          Inr (buf, Some (ip - pi_start_ip pi), ret)))"

definition unw_get_proc_name_by_ip ::
  "process \<Rightarrow> bool \<Rightarrow> unw_dyn_info list \<Rightarrow> dyn_target \<Rightarrow> as_caches \<Rightarrow> addr_space \<Rightarrow> name_accessor option \<Rightarrow> 8 word
    \<Rightarrow> unw_proc_info \<Rightarrow> unw_word \<Rightarrow> cstr \<Rightarrow> (as_caches \<times> cstr \<times> unw_word option \<times> (unw_error + unit)) res" where
  "unw_get_proc_name_by_ip pr is_local dyn_list t ca as acc junk pi ip buf =
     rbind (arr_set buf 0 0) (\<lambda>buf.
     let (ca, found) = unwi_find_dynamic_proc_info pr is_local dyn_list t ca ip pi True in
     rbind (attempt found) (\<lambda>found.
     rbind (case found of
              Inr pi \<Rightarrow> dynamic_proc_name as junk ip pi buf
            | Inl e \<Rightarrow>
                if e \<noteq> UNW_ENOINFO then Inr (buf, None, Inl e)
                else (case acc of Some get \<Rightarrow> get ip buf | None \<Rightarrow> Inr (buf, None, Inl UNW_ENOINFO))) (\<lambda>r.
     Inr (ca, r))))"

text \<open>Behind a call the address before the return address is looked up, and the offset is that of the latter.\<close>

definition query_ip :: "cursor \<Rightarrow> unw_word" where
  "query_ip c = (if c_use_prev_instr c then c_ip c - 1 else c_ip c)"

definition query_offset :: "cursor \<Rightarrow> unw_word option \<Rightarrow> unw_error + unit \<Rightarrow> unw_word option" where
  "query_offset c off ret = (if c_use_prev_instr c \<and> ret = Inr () then map_option (\<lambda>d. d + 1) off else off)"

definition unw_get_proc_name ::
  "process \<Rightarrow> bool \<Rightarrow> unw_dyn_info list \<Rightarrow> dyn_target \<Rightarrow> as_caches \<Rightarrow> name_accessor option \<Rightarrow> 8 word
    \<Rightarrow> unw_proc_info \<Rightarrow> cursor \<Rightarrow> cstr \<Rightarrow> (as_caches \<times> cstr \<times> unw_word option \<times> (unw_error + unit)) res" where
  "unw_get_proc_name pr is_local dyn_list t ca acc junk pi c buf =
     rbind (unw_get_proc_name_by_ip pr is_local dyn_list t ca (c_as c) acc junk pi (query_ip c) buf) (\<lambda>(ca, buf, off, ret).
     Inr (ca, buf, query_offset c off ret, ret))"

section \<open>Files\<close>

definition unw_get_elf_filename_by_ip ::
  "process \<Rightarrow> bool \<Rightarrow> unw_dyn_info list \<Rightarrow> dyn_target \<Rightarrow> as_caches \<Rightarrow> name_accessor option
    \<Rightarrow> unw_proc_info \<Rightarrow> unw_word \<Rightarrow> cstr \<Rightarrow> (as_caches \<times> cstr \<times> unw_word option \<times> (unw_error + unit)) res" where
  "unw_get_elf_filename_by_ip pr is_local dyn_list t ca acc pi ip buf =
     rbind (arr_set buf 0 0) (\<lambda>buf.
     let (ca, found) = unwi_find_dynamic_proc_info pr is_local dyn_list t ca ip pi True in
     rbind (attempt found) (\<lambda>found.
     rbind (case (found, acc) of
              (Inl _, Some get) \<Rightarrow> get ip buf
            | _ \<Rightarrow> Inr (buf, None, Inl UNW_ENOINFO)) (\<lambda>r.
     Inr (ca, r))))"

definition unw_get_elf_filename ::
  "process \<Rightarrow> bool \<Rightarrow> unw_dyn_info list \<Rightarrow> dyn_target \<Rightarrow> as_caches \<Rightarrow> name_accessor option
    \<Rightarrow> unw_proc_info \<Rightarrow> cursor \<Rightarrow> cstr \<Rightarrow> (as_caches \<times> cstr \<times> unw_word option \<times> (unw_error + unit)) res" where
  "unw_get_elf_filename pr is_local dyn_list t ca acc pi c buf =
     rbind (unw_get_elf_filename_by_ip pr is_local dyn_list t ca acc pi (query_ip c) buf) (\<lambda>(ca, buf, off, ret).
     Inr (ca, buf, query_offset c off ret, ret))"

text \<open>The callbacks of the local address space.\<close>

definition get_static_proc_name :: "'f elf_system \<Rightarrow> addr_space \<Rightarrow> nat \<Rightarrow> name_accessor" where
  "get_static_proc_name sys as pid ip buf = get_proc_name sys as pid ip buf"

definition get_static_elf_filename :: "'f elf_system \<Rightarrow> nat \<Rightarrow> name_accessor" where
  "get_static_elf_filename sys pid ip buf = get_elf_filename sys pid ip buf"

end
