(* ===== verification/ElfProps.thy ===== *)
theory ElfProps
  imports ElfLemmas NameQuery
begin

text \<open>
  The properties of the search of the mappings, of the lookup of symbols and of the queries for names,
  and three inputs that they leave out.
\<close>

section \<open>Numbers in paths\<close>

lemma foldl_swap:
  assumes "k \<le> length buf div 2"
  shows "length (foldl (\<lambda>b i. b[i := b ! (length buf - 1 - i), length buf - 1 - i := b ! i]) buf [0..<k]) = length buf
    \<and> (\<forall>j < length buf. foldl (\<lambda>b i. b[i := b ! (length buf - 1 - i), length buf - 1 - i := b ! i]) buf [0..<k] ! j
        = (if j < k \<or> length buf - k \<le> j then buf ! (length buf - 1 - j) else buf ! j))"
  using assms
proof (induction k)
  case (Suc k)
  let ?n = "length buf" and ?b = "foldl (\<lambda>b i. b[i := b ! (length buf - 1 - i), length buf - 1 - i := b ! i]) buf [0..<k]"
  have IH: "length ?b = ?n" "\<And>j. j < ?n \<Longrightarrow> ?b ! j = (if j < k \<or> ?n - k \<le> j then buf ! (?n - 1 - j) else buf ! j)"
    using Suc by auto
  have k: "k < ?n - 1 - k" "?n - 1 - k < ?n - k" using Suc.prems by auto
  have step: "foldl (\<lambda>b i. b[i := b ! (?n - 1 - i), ?n - 1 - i := b ! i]) buf [0..<Suc k]
      = ?b[k := ?b ! (?n - 1 - k), ?n - 1 - k := ?b ! k]" by simp
  have "?b[k := ?b ! (?n - 1 - k), ?n - 1 - k := ?b ! k] ! j
      = (if j < Suc k \<or> ?n - Suc k \<le> j then buf ! (?n - 1 - j) else buf ! j)" if j: "j < ?n" for j
  proof (cases "j = k \<or> j = ?n - 1 - k")
    case True
    then show ?thesis using IH k by (auto simp: nth_list_update)
  next
    case False
    then have "?b[k := ?b ! (?n - 1 - k), ?n - 1 - k := ?b ! k] ! j = ?b ! j" by simp
    moreover have "(j < Suc k \<or> ?n - Suc k \<le> j) = (j < k \<or> ?n - k \<le> j)" using False k by auto
    ultimately show ?thesis using IH(2) [OF j] by simp
  qed
  then show ?case unfolding step using IH(1) by simp
qed simp

lemma reverse_digits_rev: "reverse_digits buf = rev buf"
proof (rule nth_equalityI)
  show "length (reverse_digits buf) = length (rev buf)"
    using foldl_swap [of "length buf div 2" buf] by (simp add: reverse_digits_def Let_def)
  fix j assume "j < length (reverse_digits buf)"
  then have j: "j < length buf" using foldl_swap [of "length buf div 2" buf] by (simp add: reverse_digits_def Let_def)
  have "\<not> j < length buf div 2 \<Longrightarrow> \<not> length buf - length buf div 2 \<le> j \<Longrightarrow> length buf - 1 - j = j" by presburger
  then show "reverse_digits buf ! j = rev buf ! j"
    using foldl_swap [of "length buf div 2" buf] j by (auto simp: reverse_digits_def Let_def rev_nth)
qed

lemma ltoa_text: "unw_ltoa n = dec_text n"
proof -
  have "rev (ltoa_digits n) = dec_text n"
  proof (induction n rule: dec_text.induct)
    case (1 n)
    then show ?case by (cases "n < 10") (auto simp: ltoa_digits.simps [of n] dec_text.simps [of n])
  qed
  then show ?thesis by (simp add: unw_ltoa_def reverse_digits_rev)
qed

lemma dec_text_length: "0 < k \<Longrightarrow> n < 10 ^ k \<Longrightarrow> length (dec_text n) \<le> k"
proof (induction n arbitrary: k rule: dec_text.induct)
  case (1 n)
  show ?case
  proof (cases "n < 10")
    case True
    then show ?thesis using "1.prems" by (simp add: dec_text.simps [of n])
  next
    case False
    obtain m where m: "k = Suc m" using "1.prems"(1) by (cases k) simp_all
    then have "0 < m" using False "1.prems"(2) by (cases m) simp_all
    have "n div 10 < 10 ^ m" using "1.prems"(2) m by (simp add: less_mult_imp_div_less mult.commute)
    then show ?thesis using "1.IH" [OF False \<open>0 < m\<close>] False m by (simp add: dec_text.simps [of n])
  qed
qed

definition proc_maps :: "nat \<Rightarrow> cstr" where
  "proc_maps pid = [0x2f, 0x70, 0x72, 0x6f, 0x63, 0x2f] @ dec_text pid @ [0x2f, 0x6d, 0x61, 0x70, 0x73]"

lemma maps_path_text:
  assumes "pid < 10 ^ 9" shows "maps_path pid = Inr (proc_maps pid)"
  using dec_text_length [of 9 pid] assms by (simp add: maps_path_def ltoa_text proc_maps_def)

section \<open>Mappings\<close>

text \<open>
  The search of a source that hands out the entries of a list: the body of the loop ends with the next
  entry when that satisfies a predicate, and goes on behind it otherwise.
\<close>

locale list_search =
  fixes body :: "'s \<Rightarrow> ('s + 'e option) res" and to_come :: "'s \<Rightarrow> 'e list \<Rightarrow> bool" and sought :: "'e \<Rightarrow> bool"
  assumes at_end: "to_come s [] \<Longrightarrow> body s = Inr (Inr None)"
    and at_entry: "to_come s (e # es) \<Longrightarrow> \<exists>s'. to_come s' es \<and> body s = Inr (if sought e then Inr (Some e) else Inl s')"
begin

lemma finds_first: "to_come s es \<Longrightarrow> iterate body s = Some (Inr (find sought es))"
proof (induction es arbitrary: s)
  case Nil
  then show ?case by (simp add: at_end iterate_end)
next
  case (Cons e es)
  obtain s' where "to_come s' es" "body s = Inr (if sought e then Inr (Some e) else Inl s')"
    using at_entry [OF Cons.prems] by auto
  then show ?case using Cons.IH by (simp add: iterate_end iterate_next split: if_split_asm)
qed

end

definition entries_to_come :: "'f file_reader \<Rightarrow> ('f \<Rightarrow> cstr) \<Rightarrow> map_iterator \<times> 'f \<Rightarrow> maps_entry list \<Rightarrow> bool" where
  "entries_to_come rd unread = (\<lambda>(mi, f) es. hands_out rd unread \<and> (\<exists>ls. reading unread mi f ls \<and> es = map line_entry ls))"

definition entry_holds :: "unw_word \<Rightarrow> maps_entry \<Rightarrow> bool" where
  "entry_holds ip e \<longleftrightarrow> me_low e \<le> ip \<and> ip < me_high e"

interpretation mappings: list_search "find_mapping_body rd ip" "entries_to_come rd unread" "entry_holds ip" for rd unread ip
proof
  fix s
  assume "entries_to_come rd unread s []"
  then obtain mi f where s: "s = (mi, f)" "reading unread mi f []" and h: "hands_out rd unread" by (cases s) (auto simp: entries_to_come_def)
  then obtain mi' f' where "maps_next rd mi f = Inr (mi', f', None)" using maps_next_end [OF h s(2)] by auto
  then show "find_mapping_body rd ip s = Inr (Inr None)" by (simp add: s(1) find_mapping_body_def)
next
  fix s e es
  assume "entries_to_come rd unread s (e # es)"
  then obtain mi f l ls where s: "s = (mi, f)" "reading unread mi f (l # ls)" "e = line_entry l" "es = map line_entry ls"
      and h: "hands_out rd unread"
    by (cases s) (auto simp: entries_to_come_def)
  obtain mi' f' where n: "maps_next rd mi f = Inr (mi', f', Some e)" "reading unread mi' f' ls"
    using maps_next_line [OF h s(2)] s(3) by auto
  then have "find_mapping_body rd ip s = Inr (if entry_holds ip e then Inr (Some e) else Inl (mi', f'))"
    by (simp add: s(1) find_mapping_body_def entry_holds_def)
  moreover have "entries_to_come rd unread (mi', f') es" using n(2) s(4) h by (auto simp: entries_to_come_def)
  ultimately show "\<exists>s'. entries_to_come rd unread s' es
      \<and> find_mapping_body rd ip s = Inr (if entry_holds ip e then Inr (Some e) else Inl s')" by blast
qed

lemma find_line_entry:
  "find (entry_holds ip) (map line_entry ls) = map_option line_entry (find (\<lambda>l. ml_low l \<le> ip \<and> ip < ml_high l) ls)"
  by (induction ls) (simp_all add: entry_holds_def line_entry_def)

text \<open>C18. For a process with an identifier of at most nine digits, the search of the mappings gives the
  entry of the first line whose range holds the address, and none when no line does. Every line must be
  shorter than the buffer. The reads may cut the text of the lines anywhere, also within a line, as long
  as each read gets to the end of a line when there is one in the room it is given.
\<close>

theorem find_mapping_first:
  assumes "pid < 10 ^ 9" "es_open_maps sys (proc_maps pid) = Some f" "es_maps_memory sys = Some mem"
    "hands_out (es_read sys) unread" "unread f = lines_text ls" "\<forall>l \<in> set ls. line_ok l \<and> length (line_text l) < length mem"
  shows "find_mapping sys pid ip
    = Inr (map_option line_entry (find (\<lambda>l. ml_low l \<le> ip \<and> ip < ml_high l) ls))"
proof -
  let ?mi = "\<lparr>mi_open = True, mi_mem = mem, mi_buf = length mem\<rparr>"
  have "maps_init (es_open_maps sys) (es_maps_memory sys) pid = Inr (Some (?mi, f))"
    using assms(2,3) by (simp add: maps_init_def maps_path_text [OF assms(1)])
  moreover have "entries_to_come (es_read sys) unread (?mi, f) (map line_entry ls)"
    using assms(4-6) by (auto simp: entries_to_come_def reading_def)
  ultimately show ?thesis
    using mappings.finds_first [of "es_read sys" unread "(?mi, f)" "map line_entry ls" ip]
    by (simp add: find_mapping_def obind_def returns_def find_line_entry)
qed

text \<open>
  Two lines, the second with the address, in a file whose reads stop eight bytes behind the end of a line,
  and a buffer of 48 bytes.
\<close>

definition two_lines :: "maps_line list" where
  "two_lines =
     [\<lparr>ml_low = 0x1000, ml_high = 0x2000, ml_perm = [0x72], ml_offset = 0, ml_major = 8, ml_minor = 1, ml_inum = 17,
       ml_pad = (\<lambda>_. 0), ml_blanks = 1, ml_path = [0x2f, 0x61]\<rparr>,
      \<lparr>ml_low = 0x2000, ml_high = 0x3000, ml_perm = [0x72], ml_offset = 0x1000, ml_major = 8, ml_minor = 1, ml_inum = 17,
       ml_pad = (\<lambda>_. 0), ml_blanks = 1, ml_path = [0x2f, 0x62]\<rparr>]"

definition cut_read :: "cstr file_reader" where
  "cut_read f n = (let m = (case find_newline f of None \<Rightarrow> n | Some i \<Rightarrow> min n (i + 9)) in (take m f, drop m f))"

definition cutting :: "cstr elf_system" where
  "cutting =
     \<lparr>es_open_maps = (\<lambda>_. Some (lines_text two_lines)), es_maps_memory = Some (replicate 48 0),
      es_read = cut_read, es_is_dir = (\<lambda>_. False), es_is_reg = (\<lambda>_. False),
      es_map_file = (\<lambda>_. None), es_map_anonymous = (\<lambda>_. None), es_page_size = 0x1000, es_decode = (\<lambda>_. None)\<rparr>"

lemma newline_in_take: "0x0a \<in> set (take n f) \<Longrightarrow> \<exists>i < n. find_newline f = Some i \<and> (\<forall>m > i. 0x0a \<in> set (take m f))"
proof (induction f arbitrary: n)
  case (Cons c f)
  then obtain n' where n: "n = Suc n'" by (cases n) auto
  show ?case
  proof (cases "c = 0x0a")
    case True
    have "0x0a \<in> set (take m (c # f))" if "0 < m" for m using that True by (cases m) auto
    then show ?thesis using True n by simp
  next
    case False
    then obtain i where i: "i < n'" "find_newline f = Some i" "\<forall>m > i. 0x0a \<in> set (take m f)" using Cons n by auto
    have "0x0a \<in> set (take m (c # f))" if "Suc i < m" for m using that i(3) by (cases m) auto
    then show ?thesis using False i n by simp
  qed
qed simp

lemma cut_read_hands_out: "hands_out cut_read (\<lambda>f. f)"
proof -
  have "0x0a \<in> set (take (min n (i + 9)) f)"
    if newline: "find_newline f = Some i" "0x0a \<in> set (take n f)" for f n i
    using newline_in_take [OF newline(2)] newline(1) by auto
  then have "let m = (case find_newline f of None \<Rightarrow> n | Some i \<Rightarrow> min n (i + 9)) in
      m \<le> n \<and> (0x0a \<in> set (take n f) \<longrightarrow> 0x0a \<in> set (take m f))" for f n
    by (auto simp: Let_def split: option.split)
  then show ?thesis unfolding hands_out_def cut_read_def Let_def by auto
qed

theorem find_mapping_first_witness:
  "find_mapping cutting 42 0x2abc = Inr (Some (line_entry (two_lines ! 1)))"
proof -
  have "\<forall>l \<in> set two_lines. line_ok l \<and> length (line_text l) < 48"
    by (simp add: two_lines_def line_ok_def line_text_def padded_hex_def hex_text.simps dec_text.simps)
  then show ?thesis
    using find_mapping_first [of 42 cutting "lines_text two_lines" "replicate 48 0" "\<lambda>f. f" two_lines "0x2abc"] cut_read_hands_out
    by (simp add: cutting_def) (simp add: two_lines_def)
qed

section \<open>Symbols\<close>

definition covers_ip :: "unw_word \<Rightarrow> symbol_info \<Rightarrow> bool" where
  "covers_ip ip f \<longleftrightarrow> si_start_ip f \<le> ip \<and> ip < si_start_ip f + st_size (si_sym f)"

text \<open>An address in a range is nearer to its start than the distance that the lookup begins with.\<close>

lemma covers_ip_near: "covers_ip ip f \<Longrightarrow> ip - si_start_ip f < NOT 0"
proof -
  assume c: "covers_ip ip f"
  then have "ip - si_start_ip f < st_size (si_sym f)" unfolding covers_ip_def by (blast intro: word_less_sub_right)
  moreover have "st_size (si_sym f) \<le> NOT 0" by simp
  ultimately show ?thesis by (rule order.strict_trans2)
qed

text \<open>The name that the buffer holds, cut to its room.\<close>

definition stored_name :: "cstr \<Rightarrow> cstr \<Rightarrow> cstr" where
  "stored_name name buf =
     (let name = take (length buf - 1) name in name @ 0 # drop (length name + 1) buf)"

lemma symbol_callback:
  "lookup_symbol_callback ei ip f (NOT 0, buf) =
     (if \<not> covers_ip ip f then Inr ((NOT 0, buf), Inl UNW_ENOINFO)
      else rbind (string_from ei (si_strtab f + st_name (si_sym f))) (\<lambda>name.
           if buf = [] then Inl Out_of_bounds
           else Inr ((ip - si_start_ip f, stored_name name buf), if length name \<ge> length buf then Inl UNW_ENOMEM else Inr ())))"
proof (cases "covers_ip ip f")
  case True
  have store: "(case if length buf \<le> length name then (int (length buf) - 1, Inl UNW_ENOMEM) else (int (length name), Inr ()) of
       (len, ret) \<Rightarrow> if len < 0 then Inl Out_of_bounds
         else Inr ((d, take (nat len) name @ 0 # drop (nat len + 1) buf), ret))
     = (if buf = [] then Inl Out_of_bounds
        else Inr ((d, stored_name name buf), if length name \<ge> length buf then Inl UNW_ENOMEM else Inr ()))"
    for name :: cstr and d :: unw_word
  proof (cases "length buf \<le> length name")
    case True
    have "nat (int (length buf) - 1) = length buf - 1" by simp
    then show ?thesis using True by (cases buf) (simp_all add: stored_name_def)
  qed (auto simp: stored_name_def)
  show ?thesis
    using True covers_ip_near [OF True] unfolding lookup_symbol_callback_def covers_ip_def by (simp add: Let_def store)
qed (auto simp: lookup_symbol_callback_def covers_ip_def Let_def)


text \<open>A list of callbacks answers for the first function that the address belongs to.\<close>

lemma first_answer_find:
  assumes "\<And>f. \<not> covers_ip ip f \<Longrightarrow> look f st = Inr (st, Inl UNW_ENOINFO)"
    "\<And>f st' ret. covers_ip ip f \<Longrightarrow> look f st = Inr (st', ret) \<Longrightarrow> ret \<noteq> Inl UNW_ENOINFO"
  shows "first_answer look fs st = (case find (covers_ip ip) fs of None \<Rightarrow> Inr (st, Inl UNW_ENOINFO) | Some f \<Rightarrow> look f st)"
proof (induction fs)
  case (Cons f fs)
  show ?case
  proof (cases "covers_ip ip f")
    case True
    then show ?thesis using assms(2) [of f] by (cases "look f st") auto
  next
    case False
    then show ?thesis using assms(1) [OF False] Cons by simp
  qed
qed simp

lemma lookup_symbol_list:
  assumes "valid_object ei" "section_table ei \<noteq> Inr None" "image_functions ei load_offset = Inr fs"
  shows "lookup_symbol ip ei load_offset buf (NOT 0) =
      rbind (case find (covers_ip ip) fs of None \<Rightarrow> Inr ((NOT 0, buf), Inl UNW_ENOINFO)
        | Some f \<Rightarrow> lookup_symbol_callback ei ip f (NOT 0, buf)) (\<lambda>(st, ret).
      if ret = Inl UNW_ENOINFO then lookup_symbol_from_dynamic ei load_offset (lookup_symbol_callback ei ip) st else Inr (st, ret))"
proof -
  have found: "ret \<noteq> Inl UNW_ENOINFO"
    if "covers_ip ip f" "lookup_symbol_callback ei ip f (NOT 0, buf) = Inr (st, ret)" for f st ret
    using that by (auto simp: symbol_callback [unfolded bit.compl_zero] rbind_eq_Inr split: if_splits)
  have "first_answer (lookup_symbol_callback ei ip) fs (NOT 0, buf) = (case find (covers_ip ip) fs of
      None \<Rightarrow> Inr ((NOT 0, buf), Inl UNW_ENOINFO) | Some f \<Rightarrow> lookup_symbol_callback ei ip f (NOT 0, buf))"
    by (rule first_answer_find) (use found in \<open>auto simp: symbol_callback [unfolded bit.compl_zero]\<close>)
  then show ?thesis unfolding lookup_symbol_def lookup_functions [OF assms] by (simp only:)
qed


text \<open>
  An image of an executable segment and a table of the functions \<open>f\<close> and \<open>g\<close>, whose ranges overlap: its
  header, the program header, two section headers, the strings and the symbols.
\<close>

definition two_functions :: elf_image where
  "two_functions = \<lparr>ei_image = 0x1000, ei_bytes =
     [0x7f, 0x45, 0x4c, 0x46, 2, 1, 1] @ replicate 9 0
     @ [3, 0, 0x3e, 0, 1, 0, 0, 0] @ replicate 8 0 @ [0x40] @ replicate 7 0 @ [0x78] @ replicate 11 0
     @ [0x40, 0, 0x38, 0, 1, 0, 0x40, 0, 2, 0, 1, 0]
     @ [1, 0, 0, 0, 5] @ replicate 27 0 @ [0x30, 1] @ replicate 6 0 @ [0x30, 1] @ replicate 6 0 @ [8] @ replicate 7 0
     @ replicate 4 0 @ [2] @ replicate 20 0 @ [1] @ replicate 6 0 @ [0x30] @ replicate 7 0
     @ [1] @ replicate 7 0 @ [8] @ replicate 7 0 @ [0x18] @ replicate 7 0
     @ replicate 4 0 @ [3] @ replicate 19 0 @ [0xf8] @ replicate 7 0 @ [8] @ replicate 15 0
     @ [8] @ replicate 15 0
     @ [0, 0x66, 0, 0x67, 0, 0, 0, 0]
     @ [1, 0, 0, 0, 2, 0, 1, 0, 0x10] @ replicate 7 0 @ [0x10] @ replicate 7 0
     @ [3, 0, 0, 0, 2, 0, 1, 0, 0x18] @ replicate 7 0 @ [0x20] @ replicate 7 0\<rparr>"

definition its_functions :: "symbol_info list" where
  "its_functions =
     [\<lparr>si_strtab = 0x10f8, si_sym = \<lparr>st_name = 1, st_info = 2, st_shndx = 1, st_value = 0x10, st_size = 0x10\<rparr>,
       si_start_ip = 0x5010\<rparr>,
      \<lparr>si_strtab = 0x10f8, si_sym = \<lparr>st_name = 3, st_info = 2, st_shndx = 1, st_value = 0x18, st_size = 0x20\<rparr>,
       si_start_ip = 0x5018\<rparr>]"

lemma push_zeros: "(push_bit k ^^ n) (0 :: unw_word) = 0"
  by (induction n) simp_all

lemma two_functions_parts:
  "length (ei_bytes two_functions) = 304" "ei_image two_functions = 0x1000"
  "field two_functions 0x1020 8 = Inr 0x40" "field two_functions 0x1028 8 = Inr 0x78"
  "field two_functions 0x1038 2 = Inr 1" "field two_functions 0x103a 2 = Inr 0x40" "field two_functions 0x103c 2 = Inr 2"
  "read_phdr two_functions 0x1040
     = Inr \<lparr>p_type = 1, p_flags = 5, p_offset = 0, p_vaddr = 0, p_filesz = 0x130\<rparr>"
  "read_shdr two_functions 0x1078
     = Inr \<lparr>sh_name = 0, sh_type = 2, sh_offset = 0x100, sh_size = 0x30, sh_link = 1, sh_entsize = 0x18\<rparr>"
  "read_shdr two_functions 0x10b8
     = Inr \<lparr>sh_name = 0, sh_type = 3, sh_offset = 0xf8, sh_size = 8, sh_link = 0, sh_entsize = 0\<rparr>"
  "read_sym two_functions 0x1100 = Inr \<lparr>st_name = 1, st_info = 2, st_shndx = 1, st_value = 0x10, st_size = 0x10\<rparr>"
  "read_sym two_functions 0x1118 = Inr \<lparr>st_name = 3, st_info = 2, st_shndx = 1, st_value = 0x18, st_size = 0x20\<rparr>"
  by (simp_all add: read_phdr_def read_shdr_def read_sym_def field_def le_value_def two_functions_def push_zeros)

lemma two_functions_names: "string_from two_functions 0x10f9 = Inr [0x66]"
  by (simp add: two_functions_def string_from_def string_at_def)

lemma two_functions_image:
  "valid_object two_functions" "section_table two_functions = Inr (Some 0x1078)"
  "get_load_offset 0x1000 two_functions 0x5000 = Inr 0x5000"
  "image_functions two_functions 0x5000 = Inr its_functions"
proof -
  show "valid_object two_functions" by (simp add: valid_object_def two_functions_def)
  show sections: "section_table two_functions = Inr (Some 0x1078)"
    by (simp add: section_table_def two_functions_parts int_product_def)
  have strings: "string_table two_functions 1 = Inr (Some 0x10f8)"
    by (simp add: string_table_def two_functions_parts int_product_def Let_def)
  show "get_load_offset 0x1000 two_functions 0x5000 = Inr 0x5000"
    by (simp add: get_load_offset_def two_functions_parts)
  have syms: "sym_list two_functions 0x18 2 0x1100 = Inr (map si_sym its_functions)"
    by (simp add: numeral_2_eq_2 two_functions_parts its_functions_def)
  have "table_functions two_functions 0x5000 \<lparr>sh_name = 0, sh_type = 2, sh_offset = 0x100, sh_size = 0x30, sh_link = 1,
      sh_entsize = 0x18\<rparr> = Inr its_functions"
    by (simp add: table_functions_def strings two_functions_parts syms check_def Let_def)
      (simp add: its_functions_def symbol_at_def is_function_def)
  then have "section_functions two_functions 0x5000 0x40 2 0x1078 = Inr its_functions"
    unfolding numeral_2_eq_2 by (simp add: two_functions_parts)
  then show "image_functions two_functions 0x5000 = Inr its_functions"
    by (simp add: image_functions_def sections two_functions_parts)
qed

text \<open>C17. The lookup of the symbol of an address in a valid image whose functions do not overlap at that
  address, except that several may begin at the same place, stores the name, cut to the room of the
  buffer, of a function of the symbol tables that holds the address and is closest to it, with the
  distance from its start; when no function holds the address, the dynamic symbols are looked up.
\<close>

theorem lookup_symbol_closest:
  assumes "valid_object ei" "section_table ei \<noteq> Inr None" "image_functions ei load_offset = Inr fs"
    "\<And>f g. f \<in> set fs \<Longrightarrow> g \<in> set fs \<Longrightarrow> covers_ip ip f \<Longrightarrow> covers_ip ip g \<Longrightarrow> si_start_ip f = si_start_ip g"
  shows "if \<exists>f \<in> set fs. covers_ip ip f
    then \<exists>f \<in> set fs. covers_ip ip f \<and> (\<forall>g \<in> set fs. covers_ip ip g \<longrightarrow> ip - si_start_ip f \<le> ip - si_start_ip g)
      \<and> lookup_symbol ip ei load_offset buf (NOT 0) =
         rbind (string_from ei (si_strtab f + st_name (si_sym f))) (\<lambda>name.
         if buf = [] then Inl Out_of_bounds
         else Inr ((ip - si_start_ip f, stored_name name buf), if length name \<ge> length buf then Inl UNW_ENOMEM else Inr ()))
    else lookup_symbol ip ei load_offset buf (NOT 0)
      = lookup_symbol_from_dynamic ei load_offset (lookup_symbol_callback ei ip) (NOT 0, buf)"
proof (cases "find (covers_ip ip) fs")
  case None
  then have "\<not> (\<exists>f \<in> set fs. covers_ip ip f)" by (simp add: find_None_iff)
  moreover have "lookup_symbol ip ei load_offset buf (NOT 0)
      = lookup_symbol_from_dynamic ei load_offset (lookup_symbol_callback ei ip) (NOT 0, buf)"
    unfolding lookup_symbol_list [OF assms(1-3)] None by simp
  ultimately show ?thesis by simp
next
  case (Some f)
  then have f: "f \<in> set fs" "covers_ip ip f" by (auto simp: find_Some_iff)
  have "lookup_symbol ip ei load_offset buf (NOT 0) =
         rbind (string_from ei (si_strtab f + st_name (si_sym f))) (\<lambda>name.
         if buf = [] then Inl Out_of_bounds
         else Inr ((ip - si_start_ip f, stored_name name buf), if length name \<ge> length buf then Inl UNW_ENOMEM else Inr ()))"
    using f(2) unfolding lookup_symbol_list [OF assms(1-3)] Some option.case symbol_callback
    by (cases "string_from ei (si_strtab f + st_name (si_sym f))") simp_all
  moreover have "\<forall>g \<in> set fs. covers_ip ip g \<longrightarrow> ip - si_start_ip f \<le> ip - si_start_ip g"
    using assms(4) [OF f(1) _ f(2)] by auto
  ultimately show ?thesis using f by auto
qed

theorem lookup_symbol_closest_witness:
  "lookup_symbol 0x5014 two_functions 0x5000 [1, 1, 1] (NOT 0) = Inr ((4, [0x66, 0, 1]), Inr ())"
proof -
  have "covers_ip 0x5014 f \<longleftrightarrow> f = its_functions ! 0" if "f \<in> set its_functions" for f
    using that by (auto simp: its_functions_def covers_ip_def)
  moreover have "its_functions ! 0 \<in> set its_functions" by (simp add: its_functions_def)
  ultimately show ?thesis
    using lookup_symbol_closest [of two_functions "0x5000" its_functions "0x5014" "[1, 1, 1]"] two_functions_image
      two_functions_names
    by (auto simp: its_functions_def stored_name_def)
qed

text \<open>Where functions overlap, the lookup answers with the first one of the tables, which need not be the closest.\<close>

lemma lookup_symbol_overlapping:
  "lookup_symbol 0x501a two_functions 0x5000 [1, 1, 1] (NOT 0) = Inr ((0xa, [0x66, 0, 1]), Inr ())"
proof -
  have "find (covers_ip 0x501a) its_functions = Some (its_functions ! 0)" by (simp add: its_functions_def covers_ip_def)
  then show ?thesis
    using lookup_symbol_list [of two_functions "0x5000" its_functions "0x501a" "[1, 1, 1]"] two_functions_image
      two_functions_names symbol_callback [of two_functions "0x501a" "its_functions ! 0"]
    by (simp add: its_functions_def stored_name_def covers_ip_def)
qed



section \<open>Queries\<close>

text \<open>The offset that a query reports is that of the instruction pointer of the frame.\<close>

lemma query_offset_of_frame:
  assumes "fst (unwi_find_dynamic_proc_info pr is_local dyn_list t ca (query_ip c) pi True) = ca"
    "snd (unwi_find_dynamic_proc_info pr is_local dyn_list t ca (query_ip c) pi True) = Inl (Err UNW_ENOINFO)"
    "buf \<noteq> []" "get (query_ip c) (buf[0 := 0]) = Inr (buf', Some (query_ip c - start), Inr ())"
  shows "unw_get_proc_name pr is_local dyn_list t ca (Some get) junk pi c buf = Inr (ca, buf', Some (c_ip c - start), Inr ())"
proof -
  have "unwi_find_dynamic_proc_info pr is_local dyn_list t ca (query_ip c) pi True = (ca, Inl (Err UNW_ENOINFO))"
    using assms(1,2) by (metis prod.collapse)
  then show ?thesis
    using assms(3,4) by (simp add: unw_get_proc_name_def unw_get_proc_name_by_ip_def query_offset_def query_ip_def)
qed

text \<open>A procedure of a registered table has no name, and the error depends on its data alignment.\<close>

lemma registered_table_name:
  assumes "unwi_find_dynamic_proc_info pr is_local dyn_list t ca ip pi True = (ca, Inr pi')"
    "pi_unwind_info pi' = Some dci" "data_align dci = - 8" "buf \<noteq> []"
  shows "unw_get_proc_name_by_ip pr is_local dyn_list t ca as acc junk pi ip buf
    = Inr (ca, buf[0 := 0], Some (ip - pi_start_ip pi'), Inl UNW_EINVAL)"
  using assms by (simp add: unw_get_proc_name_by_ip_def dynamic_proc_name_def format_of_def)

section \<open>Inputs left out\<close>

text \<open>A table whose entries have no size is searched for ever.\<close>

lemma no_entry_size_diverges:
  assumes "p < symtab_end" "read_sym ei p = Inr s" "\<not> is_function s"
  shows "iterate (symtab_body ei load_offset look strtab symtab_end 0) (p, st) = None"
proof -
  let ?body = "symtab_body ei load_offset look strtab symtab_end 0"
  have body: "?body (p, st) = Inr (Inl (p, st))" using assms by (simp add: symtab_body_def)
  show ?thesis by (rule iterate_forever [of ?body "(p, st)", OF body])
qed

text \<open>A line that is as long as the buffer ends the list.\<close>

lemma long_line_ends:
  assumes "mi_open mi" "mi_buf mi = 0" "find_eol (mi_mem mi) = None" "fst (rd f 0) = []"
  shows "\<exists>mi' f'. maps_next rd mi f = Inr (mi', f', None)"
proof -
  have "refill rd mi f = (mi, snd (rd f 0), None)"
    using assms by (cases "rd f 0") (simp add: refill_def Let_def)
  then have "maps_next_body rd (mi, f) = Inr (Inr (mi, snd (rd f 0), None))" by (simp add: maps_next_body_def)
  then show ?thesis using assms(1) by (simp add: maps_next_def iterate_end returns_def)
qed

end
