(* ===== verification/A64Frame.thy ===== *)
theory A64Frame
  imports X86_64 NameQuery
begin

text \<open>
  Frames of AArch64 without unwind information (\<open>src/aarch64/Gstep.c\<close>): entries of the procedure linkage
  table, and what the instructions of a procedure before an address have done to the stack pointer and
  to the frame record.
\<close>

type_synonym a64_insn = "32 word"

section \<open>The procedure linkage table\<close>

definition a64_plt_insn :: "nat \<Rightarrow> unw_word \<Rightarrow> bool" where
  "a64_plt_insn i w \<longleftrightarrow>
     (let (pattern, mask) =
        [(0x90000010, 0x9f00001f), (0xf9400211, 0xffc003ff), (0x91000210, 0xff8003ff), (0xd61f0220, 0xffffffff)] ! i in
      w AND mask = pattern)"

text \<open>A word with two neighbouring instructions of an entry.\<close>

definition a64_plt_pair :: "nat \<Rightarrow> unw_word \<Rightarrow> bool" where
  "a64_plt_pair i w \<longleftrightarrow> a64_plt_insn i w \<and> a64_plt_insn (i + 1) (drop_bit 32 w)"

definition a64_is_plt_entry :: "addr_space \<Rightarrow> unw_word \<Rightarrow> bool" where
  "a64_is_plt_entry as ip =
     (if big_endian as then False
      else
        case access_mem as ip of
          Inl _ \<Rightarrow> False
        | Inr w0 \<Rightarrow>
            if a64_plt_pair 0 w0 then
              (case access_mem as (ip + 8) of Inl _ \<Rightarrow> False | Inr w1 \<Rightarrow> a64_plt_pair 2 w1)
            else if a64_plt_pair 2 w0 then
              (case access_mem as (ip - 8) of Inl _ \<Rightarrow> False | Inr w0 \<Rightarrow> a64_plt_pair 0 w0)
            else if a64_plt_pair 1 w0 then
              (case (access_mem as (ip - 4), access_mem as (ip + 4)) of
                 (Inr w0, Inr w1) \<Rightarrow> a64_plt_pair 0 w0 \<and> a64_plt_pair 2 w1
               | _ \<Rightarrow> False)
            else if a64_plt_insn 3 w0 then
              (case (access_mem as (ip - 12), access_mem as (ip - 4)) of
                 (Inr w0, Inr w1) \<Rightarrow> a64_plt_pair 0 w0 \<and> a64_plt_pair 2 w1
               | _ \<Rightarrow> False)
            else a64_plt_pair 0 w0 \<and> a64_plt_pair 2 0)"

section \<open>The stack pointer\<close>

datatype sp_state = SP_UNCHANGED | SP_ADJUSTED | SP_UNKNOWN

text \<open>Immediate operands: the field of \<open>n\<close> bits at \<open>p\<close>, with its sign, and the one of 12 bits with its shift.\<close>

definition a64_simm :: "nat \<Rightarrow> nat \<Rightarrow> a64_insn \<Rightarrow> int" where
  "a64_simm p n insn =
     (let imm = uint (drop_bit p insn AND mask n) in if bit imm (n - 1) then imm - 2 ^ n else imm)"

definition a64_imm12 :: "a64_insn \<Rightarrow> int" where
  "a64_imm12 insn =
     (let imm = uint (drop_bit 10 insn AND 0xfff) in if insn AND 0x00400000 \<noteq> 0 then imm * 4096 else imm)"

text \<open>Branches, and the pair of the frame pointer and the link register.\<close>

definition a64_is_branch :: "a64_insn \<Rightarrow> bool" where
  "a64_is_branch insn \<longleftrightarrow>
     insn AND 0x7c000000 = 0x14000000 \<or> insn AND 0xff000000 = 0x54000000 \<or> insn AND 0x7e000000 = 0x34000000
     \<or> insn AND 0x7e000000 = 0x36000000 \<or> insn AND 0xfe9fc000 = 0xd61f0000 \<or> insn AND 0xfe9f8000 = 0xd69f0000"

definition a64_fp_lr_pair :: "a64_insn \<Rightarrow> bool" where
  "a64_fp_lr_pair insn \<longleftrightarrow> insn AND 0x1f = 0x1d \<and> drop_bit 10 insn AND 0x1f = 0x1e"

text \<open>What a decrement and an increment of the stack pointer by an amount do.\<close>

definition sp_decrement :: "int \<Rightarrow> sp_state \<times> int \<Rightarrow> sp_state \<times> int" where
  "sp_decrement imm = (\<lambda>(state, offset). if state \<noteq> SP_UNCHANGED then (SP_UNKNOWN, 0) else (SP_ADJUSTED, imm))"

definition sp_increment :: "int \<Rightarrow> sp_state \<times> int \<Rightarrow> sp_state \<times> int" where
  "sp_increment imm =
     (\<lambda>(state, offset). if state = SP_ADJUSTED \<and> offset = imm then (SP_UNCHANGED, 0) else (SP_UNKNOWN, 0))"

definition track_stack_pointer :: "a64_insn \<Rightarrow> sp_state \<times> int \<Rightarrow> sp_state \<times> int" where
  "track_stack_pointer insn = (\<lambda>(state, offset).
     if state = SP_UNKNOWN then (state, offset)
     else if state = SP_UNCHANGED \<and> a64_is_branch insn then (SP_UNKNOWN, 0)
     else if insn AND 0xff0003ff = 0xd10003ff then
       (let imm = a64_imm12 insn in if imm \<noteq> 0 then sp_decrement imm (state, offset) else (state, offset))
     else if insn AND 0xff0003ff = 0x910003ff then
       (let imm = a64_imm12 insn in if imm \<noteq> 0 then sp_increment imm (state, offset) else (state, offset))
     else if insn AND 0xffc003e0 = 0xa98003e0 then
       (if a64_fp_lr_pair insn then (state, offset)
        else let imm = a64_simm 15 7 insn in
          if imm < 0 then sp_decrement (- (imm * 8)) (state, offset) else (SP_UNKNOWN, 0))
     else if insn AND 0xffc003e0 = 0xa8c003e0 then
       (if a64_fp_lr_pair insn then (state, offset)
        else let imm = a64_simm 15 7 insn in
          if imm > 0 then sp_increment (imm * 8) (state, offset) else (SP_UNKNOWN, 0))
     else if insn AND 0xffe00fe0 = 0xf8000fe0 then
       (let imm = a64_simm 12 9 insn in
        if imm < 0 then sp_decrement (- imm) (state, offset) else (SP_UNKNOWN, 0))
     else if insn AND 0xffe00fe0 = 0xf84007e0 then
       (let imm = a64_simm 12 9 insn in
        if imm > 0 then sp_increment imm (state, offset) else (SP_UNKNOWN, 0))
     else if insn AND 0xbf0003ff = 0x910003bf then (SP_UNKNOWN, 0)
     else if insn AND 0xdfe003ff = 0x8b2003ff then (SP_UNKNOWN, 0)
     else (state, offset))"

section \<open>The frame record\<close>

datatype frame_record_location = NONE | AT_SP_OFFSET | AT_FP

record frame_state =
  fs_loc :: frame_record_location
  fs_offset :: int

definition track_frame_record :: "a64_insn \<Rightarrow> frame_state \<Rightarrow> frame_state" where
  "track_frame_record insn fs =
     (case fs_loc fs of
        NONE \<Rightarrow>
          if insn AND 0xfe407fff = 0xa8007bfd
          then \<lparr>fs_loc = AT_SP_OFFSET,
                fs_offset = (if insn AND 0xffc07fff = 0xa9007bfd then a64_simm 15 7 insn * 8 else 0)\<rparr>
          else fs
      | AT_SP_OFFSET \<Rightarrow> if insn AND 0xff0003ff = 0x910003fd then \<lparr>fs_loc = AT_FP, fs_offset = 0\<rparr> else fs
      | AT_FP \<Rightarrow> if insn AND 0xfe407fff = 0xa8407bfd then \<lparr>fs_loc = NONE, fs_offset = 0\<rparr> else fs)"

section \<open>Scanning a procedure\<close>

text \<open>
  \<open>get_frame_state\<close>: the start of the procedure is found with its name, for which there is room of 128
  characters; a longer one fails. The tracked states are one pair.
\<close>

type_synonym a64_tracked = "(sp_state \<times> int) \<times> frame_state"

definition a64_track :: "a64_insn \<Rightarrow> a64_tracked \<Rightarrow> a64_tracked" where
  "a64_track insn = (\<lambda>(sp, fs). (track_stack_pointer insn sp, track_frame_record insn fs))"

definition a64_scan_body ::
  "addr_space \<Rightarrow> unw_word \<Rightarrow> unw_word \<times> a64_tracked \<Rightarrow> (unw_word \<times> a64_tracked + frame_state) res" where
  "a64_scan_body as cur = (\<lambda>(ip, sp, fs).
     if \<not> ip < cur then Inr (Inr (if fs_loc fs = NONE then fs\<lparr>fs_offset := snd sp\<rparr> else fs))
     else
       case access_mem as ip of
         Inl _ \<Rightarrow> Inr (Inr fs)
       | Inr w \<Rightarrow>
           let insns = [ucast (w AND 0xffffffff), ucast (drop_bit 32 w)];
               t = foldl (\<lambda>t j. if cur \<le> ip + of_nat j * 4 then t else a64_track (insns ! j) t) (sp, fs) [0..<2] in
           Inr (Inl (ip + 8, t)))"

definition get_frame_state :: "addr_space \<Rightarrow> name_accessor option \<Rightarrow> unw_word \<Rightarrow> frame_state res" where
  "get_frame_state as names cur =
     (let fs = \<lparr>fs_loc = NONE, fs_offset = 0\<rparr> in
      if a64_is_plt_entry as cur then Inr fs
      else
        case names of
          None \<Rightarrow> Inl Out_of_bounds
        | Some get \<Rightarrow>
            rbind (get cur (replicate 128 0)) (\<lambda>(name, offp, ret).
            if ret \<noteq> Inr () then Inr fs
            else
              case offp of
                None \<Rightarrow> Inl Out_of_bounds
              | Some offp \<Rightarrow> returns (iterate (a64_scan_body as cur) (cur - offp, (SP_UNCHANGED, 0), fs))))"

end
