(* ===== verification/A64Step.thy ===== *)
theory A64Step
  imports A64Frame
begin

text \<open>
  The cursor of AArch64 and its step: initialisation (\<open>src/aarch64/init.h\<close>), registers
  (\<open>src/aarch64/Gregs.c\<close>, \<open>src/aarch64/Gget_save_loc.c\<close>, \<open>src/aarch64/Gstrip_ptrauth_insn_mask.c\<close>), signal frames of
  Linux (\<open>src/aarch64/Gis_signal_frame.c\<close>) and the order in which the ways to step are tried
  (\<open>src/aarch64/Gstep.c\<close>), in the library that supports remote unwinding.
\<close>

section \<open>The cursor\<close>

datatype a64_frame_type =
    UNW_AARCH64_FRAME_STANDARD | UNW_AARCH64_FRAME_SIGRETURN | UNW_AARCH64_FRAME_OTHER | UNW_AARCH64_FRAME_GUESSED

record a64_frame =
  af_frame_type :: a64_frame_type
  af_cfa_reg_sp :: bool
  af_cfa_reg_offset :: int
  af_fp_cfa_offset :: int
  af_lr_cfa_offset :: int
  af_sp_cfa_offset :: int

datatype a64_sigcontext_format = AARCH64_SCF_NONE | AARCH64_SCF_LINUX_RT_SIGFRAME

record a64_cursor =
  a6_as :: addr_space
  a6_local :: bool
  a6_cfa :: unw_word
  a6_ip :: unw_word
  a6_args_size :: unw_word
  a6_eh_args :: "unw_word list"
  a6_eh_valid_mask :: "32 word"
  a6_loc :: "dwarf_loc list"
  a6_stash_frames :: bool
  a6_use_prev_instr :: bool
  a6_pi_valid :: bool
  a6_pi_is_dynamic :: bool
  a6_hint :: "16 word"
  a6_prev_rs :: "16 word"
  a6_frame_info :: a64_frame
  a6_sigcontext_format :: a64_sigcontext_format
  a6_sigcontext_addr :: unw_word
  a6_sigcontext_sp :: unw_word
  a6_sigcontext_pc :: unw_word
  a6_validate :: bool

abbreviation (input) UNW_AARCH64_X29 :: nat where "UNW_AARCH64_X29 \<equiv> 29"
abbreviation (input) UNW_AARCH64_X30 :: nat where "UNW_AARCH64_X30 \<equiv> 30"
abbreviation (input) UNW_AARCH64_SP :: nat where "UNW_AARCH64_SP \<equiv> 31"
abbreviation (input) UNW_AARCH64_PC :: nat where "UNW_AARCH64_PC \<equiv> 32"
abbreviation (input) UNW_AARCH64_PSTATE :: nat where "UNW_AARCH64_PSTATE \<equiv> 33"
abbreviation (input) UNW_AARCH64_VG :: nat where "UNW_AARCH64_VG \<equiv> 46"
abbreviation (input) UNW_AARCH64_V0 :: nat where "UNW_AARCH64_V0 \<equiv> 64"
abbreviation (input) UNW_AARCH64_V31 :: nat where "UNW_AARCH64_V31 \<equiv> 95"
abbreviation (input) A64_NUM_PRESERVED_REGS :: nat where "A64_NUM_PRESERVED_REGS \<equiv> 97"

section \<open>Registers\<close>

definition a64_get :: "addr_space \<Rightarrow> dwarf_loc \<Rightarrow> unw_word res" where
  "a64_get as l =
     (if DWARF_IS_NULL_LOC l then Inl (Err UNW_EBADREG)
      else if loc_type l AND DWARF_LOC_TYPE_FP \<noteq> 0 then Inl Aborted
      else if DWARF_IS_REG_LOC l then lift_acc (access_reg as (sint (ucast (loc_val l) :: 32 word)))
      else lift_acc (access_mem as (loc_val l)))"

definition a64_loc_at :: "a64_cursor \<Rightarrow> nat \<Rightarrow> dwarf_loc res" where
  "a64_loc_at c r = arr_get (a6_loc c) r"

definition a64_get_at :: "a64_cursor \<Rightarrow> nat \<Rightarrow> unw_word res" where
  "a64_get_at c r = rbind (a64_loc_at c r) (a64_get (a6_as c))"

text \<open>A read whose failure is ignored leaves the variable as it was.\<close>

definition a64_get_or :: "a64_cursor \<Rightarrow> nat \<Rightarrow> unw_word \<Rightarrow> unw_word res" where
  "a64_get_or c r old =
     rbind (attempt (a64_get_at c r)) (\<lambda>v. Inr (case v of Inl _ \<Rightarrow> old | Inr v \<Rightarrow> v))"

text \<open>
  The signature of a return address is cut off by the client's mask, when it has one, and in the process
  itself by an instruction; the parameter is the mask resp. the effect of the instruction.
\<close>

record a64_ptrauth =
  pt_mask :: "unw_word option"
  pt_xpaclri :: "unw_word \<Rightarrow> unw_word"

definition aarch64_strip_pac_remote :: "a64_ptrauth \<Rightarrow> unw_word \<Rightarrow> unw_word" where
  "aarch64_strip_pac_remote pt old_ip = (case pt_mask pt of Some insn_mask \<Rightarrow> old_ip AND NOT insn_mask | None \<Rightarrow> old_ip)"

definition tdep_strip_ptrauth_insn_mask :: "a64_ptrauth \<Rightarrow> a64_cursor \<Rightarrow> unw_word \<Rightarrow> unw_word" where
  "tdep_strip_ptrauth_insn_mask pt c ip =
     (if \<not> a6_local c then aarch64_strip_pac_remote pt ip else pt_xpaclri pt ip)"

text \<open>\<open>tdep_access_reg\<close> for reading.\<close>

definition a64_access_reg_read :: "a64_ptrauth \<Rightarrow> a64_cursor \<Rightarrow> int \<Rightarrow> unw_word res" where
  "a64_access_reg_read pt c reg =
     (if 0 \<le> reg \<and> reg \<le> 3 then
        (if a6_eh_valid_mask c AND push_bit (nat reg) 1 \<noteq> 0 then arr_get (a6_eh_args c) (nat reg)
         else a64_get_at c (nat reg))
      else if 4 \<le> reg \<and> reg \<le> 29 \<or> reg = int UNW_AARCH64_PC \<or> reg = int UNW_AARCH64_PSTATE then a64_get_at c (nat reg)
      else if reg = int UNW_AARCH64_X30 then
        rbind (a64_get_at c UNW_AARCH64_X30) (\<lambda>v. Inr (tdep_strip_ptrauth_insn_mask pt c v))
      else if reg = int UNW_AARCH64_VG then
        rbind (a64_loc_at c UNW_AARCH64_VG) (\<lambda>l.
        if DWARF_IS_REG_LOC l then a64_get (a6_as c) l
        else if loc_val l = 0 then Inl (Err UNW_EUNSPEC)
        else rbind (dwarf_readu16 (a6_as c) (loc_val l)) (\<lambda>(val16, addr). Inr ((ucast val16 * 8) div 64)))
      else if reg = int UNW_AARCH64_SP then Inr (a6_cfa c)
      else Inl (Err UNW_EBADREG))"

text \<open>\<open>unw_get_save_loc\<close>\<close>

datatype a64_save_loc = A64_SLT_NONE | A64_SLT_REG unw_word | A64_SLT_MEMORY unw_word

definition a64_get_save_loc :: "a64_cursor \<Rightarrow> int \<Rightarrow> a64_save_loc res" where
  "a64_get_save_loc c reg =
     rbind (if 0 \<le> reg \<and> reg \<le> int UNW_AARCH64_PSTATE then a64_loc_at c (nat reg) else Inr DWARF_NULL_LOC) (\<lambda>l.
     Inr (if DWARF_IS_NULL_LOC l then A64_SLT_NONE
          else if DWARF_IS_REG_LOC l then A64_SLT_REG (loc_val l) else A64_SLT_MEMORY (loc_val l)))"

section \<open>Initialisation\<close>

text \<open>\<open>common_init\<close> nulls the locations behind \<open>PSTATE\<close> that belong to no register, and leaves that of \<open>FPSR\<close> as it is.\<close>

definition a64_init_locs :: "dwarf_loc list \<Rightarrow> dwarf_loc list" where
  "a64_init_locs ls =
     map (\<lambda>r. if r \<le> UNW_AARCH64_PSTATE \<or> r = UNW_AARCH64_VG \<or> UNW_AARCH64_V0 \<le> r \<and> r \<le> UNW_AARCH64_V31
              then DWARF_REG_LOC r
              else if r < UNW_AARCH64_V0 then DWARF_NULL_LOC else ls ! r) [0..<A64_NUM_PRESERVED_REGS]"

definition a64_common_init :: "bool \<Rightarrow> a64_cursor \<Rightarrow> (a64_cursor \<times> (unw_error + unit)) res" where
  "a64_common_init use_prev_instr c =
     (let c = c\<lparr>a6_loc := a64_init_locs (a6_loc c)\<rparr> in
      rbind (attempt (a64_get_at c UNW_AARCH64_PC)) (\<lambda>ip.
      case ip of
        Inl e \<Rightarrow> Inr (c, Inl e)
      | Inr ip \<Rightarrow>
          let c = c\<lparr>a6_ip := ip\<rparr> in
          rbind (attempt (a64_get_at c UNW_AARCH64_SP)) (\<lambda>cfa.
          case cfa of
            Inl e \<Rightarrow> Inr (c, Inl e)
          | Inr cfa \<Rightarrow>
              Inr (c\<lparr>a6_cfa := cfa, a6_sigcontext_format := AARCH64_SCF_NONE, a6_sigcontext_addr := 0,
                     a6_sigcontext_sp := 0, a6_sigcontext_pc := 0, a6_args_size := 0, a6_stash_frames := False,
                     a6_use_prev_instr := use_prev_instr, a6_pi_valid := False, a6_pi_is_dynamic := False,
                     a6_hint := 0, a6_prev_rs := 0\<rparr>, Inr ()))))"

section \<open>Signal frames\<close>

abbreviation (input) SIGNAL_RETURN :: unw_word where "SIGNAL_RETURN \<equiv> 0xd4000001d2801168"

definition a64_is_signal_frame :: "a64_cursor \<Rightarrow> bool res" where
  "a64_is_signal_frame c =
     (if a6_ip c = 0 then Inr False
      else rbind (lift_acc (access_mem (a6_as c) (a6_ip c))) (\<lambda>w0. Inr (w0 AND SIGNAL_RETURN = SIGNAL_RETURN)))"

text \<open>
  \<open>get_sve_vl_signal_loc\<close>: the records behind the context, of which each gives its size. A record of no
  size is read for ever.
\<close>

definition a64_sve_body ::
  "addr_space \<Rightarrow> unw_word \<Rightarrow> unw_word \<Rightarrow> (unw_word + unw_word option) res" where
  "a64_sve_body as res_addr = (\<lambda>section_off.
     if \<not> section_off < 4096 then Inr (Inr None)
     else
       rbind (dwarf_readu32 as (res_addr + section_off)) (\<lambda>(magic, _).
       rbind (dwarf_readu32 as (res_addr + section_off + 4)) (\<lambda>(room, _).
       if magic = 0 then (if room \<noteq> 0 then Inl (Err UNW_EUNSPEC) else Inr (Inr None))
       else if magic = 0x53564501 then
         (if room < 10 then Inl (Err UNW_EUNSPEC) else Inr (Inr (Some (res_addr + section_off + 8))))
       else Inr (Inl (section_off + ucast room)))))"

definition get_sve_vl_signal_loc :: "a64_cursor \<Rightarrow> unw_word \<Rightarrow> (a64_cursor \<times> (unw_error + bool)) res" where
  "get_sve_vl_signal_loc c sc_addr =
     rbind (attempt (returns (iterate (a64_sve_body (a6_as c) (sc_addr + 0x120)) 0))) (\<lambda>r.
     case r of
       Inl e \<Rightarrow> Inr (c, Inl e)
     | Inr None \<Rightarrow> Inr (c, Inr True)
     | Inr (Some vl) \<Rightarrow>
         rbind (arr_set (a6_loc c) UNW_AARCH64_VG (DWARF_MEM_LOC vl)) (\<lambda>ls. Inr (c\<lparr>a6_loc := ls\<rparr>, Inr True)))"

text \<open>The locations of a context: the general registers, the stack pointer, the address and the state in a row.\<close>

definition a64_sigcontext_locs :: "unw_word \<Rightarrow> dwarf_loc list" where
  "a64_sigcontext_locs sc_addr =
     map (\<lambda>r. if r \<le> 28 then DWARF_MEM_LOC (sc_addr + 0x08 + 8 * word_of_nat r)
              else if r = UNW_AARCH64_X29 then DWARF_MEM_LOC (sc_addr + 0x0f0)
              else if r = UNW_AARCH64_X30 then DWARF_MEM_LOC (sc_addr + 0x0f8)
              else if r = UNW_AARCH64_SP then DWARF_MEM_LOC (sc_addr + 0x100)
              else if r = UNW_AARCH64_PC then DWARF_MEM_LOC (sc_addr + 0x108)
              else if r = UNW_AARCH64_PSTATE then DWARF_MEM_LOC (sc_addr + 0x110)
              else DWARF_NULL_LOC) [0..<A64_NUM_PRESERVED_REGS]"

definition aarch64_handle_signal_frame :: "a64_cursor \<Rightarrow> (a64_cursor \<times> (unw_error + bool)) res" where
  "aarch64_handle_signal_frame c =
     rbind (attempt (a64_is_signal_frame c)) (\<lambda>ret.
     if ret \<noteq> Inr True then Inr (c, Inl UNW_EUNSPEC)
     else
       let sp_addr = a6_cfa c; sc_addr = sp_addr + 128 + 0xb0;
           c = c\<lparr>a6_sigcontext_format := AARCH64_SCF_LINUX_RT_SIGFRAME, a6_sigcontext_sp := a6_cfa c,
                 a6_sigcontext_pc := a6_ip c, a6_sigcontext_addr := sc_addr,
                 a6_frame_info := (a6_frame_info c)\<lparr>af_frame_type := UNW_AARCH64_FRAME_SIGRETURN,
                   af_cfa_reg_offset := trunc_field 30 (sc_addr - sp_addr)\<rparr>,
                 a6_loc := a64_sigcontext_locs sc_addr\<rparr> in
       rbind (a64_get_or c UNW_AARCH64_SP (a6_cfa c)) (\<lambda>cfa.
       rbind (a64_get_or c UNW_AARCH64_PC (a6_ip c)) (\<lambda>ip.
       get_sve_vl_signal_loc (c\<lparr>a6_cfa := cfa, a6_ip := ip, a6_pi_valid := False, a6_use_prev_instr := False\<rparr>) sc_addr)))"

section \<open>The step\<close>

text \<open>
  By the frame record: \<open>fp\<close> is the value of the frame pointer from before the step by DWARF, which
  remains when it cannot be read again.
\<close>

definition a64_null_locs :: "dwarf_loc list" where
  "a64_null_locs = replicate A64_NUM_PRESERVED_REGS DWARF_NULL_LOC"

definition a64_use_record :: "a64_cursor \<Rightarrow> unw_word \<Rightarrow> (a64_cursor \<times> (unw_error + bool)) res" where
  "a64_use_record c addr =
     (let ls = a64_null_locs[UNW_AARCH64_X29 := DWARF_MEM_LOC addr, UNW_AARCH64_X30 := DWARF_MEM_LOC (addr + 8)];
          c = c\<lparr>a6_loc := ls[UNW_AARCH64_PC := ls ! UNW_AARCH64_X30]\<rparr> in
      rbind (attempt (a64_get_at c UNW_AARCH64_X29)) (\<lambda>cfa.
      case cfa of
        Inl e \<Rightarrow> Inr (c, Inl e)
      | Inr cfa \<Rightarrow>
          let c = c\<lparr>a6_cfa := cfa\<rparr> in
          rbind (attempt (a64_get_at c UNW_AARCH64_PC)) (\<lambda>ip.
          Inr (case ip of Inl e \<Rightarrow> (c, Inl e) | Inr ip \<Rightarrow> (c\<lparr>a6_ip := ip\<rparr>, Inr True)))))"

definition a64_frame_record_step ::
  "a64_cursor \<Rightarrow> unw_word \<Rightarrow> frame_state \<Rightarrow> (a64_cursor \<times> (unw_error + bool)) res" where
  "a64_frame_record_step c fp fs =
     (if fs_loc fs = AT_FP then
        rbind (attempt (a64_get_at c UNW_AARCH64_X29)) (\<lambda>r.
        if r = Inr 0 then Inr (c\<lparr>a6_ip := 0\<rparr>, Inr False)
        else a64_use_record c (case r of Inl _ \<Rightarrow> fp | Inr v \<Rightarrow> v))
      else
        rbind (attempt (a64_get_at c UNW_AARCH64_SP)) (\<lambda>r.
        case r of
          Inl e \<Rightarrow> Inr (c, Inl e)
        | Inr sp \<Rightarrow>
            a64_use_record (c\<lparr>a6_frame_info := (a6_frame_info c)\<lparr>
                af_cfa_reg_offset := trunc_field 30 (of_int (fs_offset fs)), af_cfa_reg_sp := True\<rparr>\<rparr>)
              (sp + of_int (fs_offset fs))))"

text \<open>By the link register, with the frame that the stack pointer has allocated undone.\<close>

definition a64_link_register_step :: "a64_cursor \<Rightarrow> frame_state \<Rightarrow> (a64_cursor \<times> (unw_error + bool)) res" where
  "a64_link_register_step c fs =
     rbind (a64_loc_at c UNW_AARCH64_X30) (\<lambda>lr.
     let c = c\<lparr>a6_frame_info := (a6_frame_info c)\<lparr>af_cfa_reg_sp := fs_offset fs > 0,
                 af_cfa_reg_offset := trunc_field 30 (of_int (fs_offset fs)), af_fp_cfa_offset := - 1,
                 af_lr_cfa_offset := - 1, af_sp_cfa_offset := - 1\<rparr>,
               a6_loc := (a6_loc c)[UNW_AARCH64_PC := lr, UNW_AARCH64_X30 := DWARF_NULL_LOC]\<rparr> in
     if DWARF_IS_NULL_LOC lr then Inr (c\<lparr>a6_ip := 0\<rparr>, Inr False)
     else
       rbind (attempt (a64_get_at c UNW_AARCH64_PC)) (\<lambda>ip.
       Inr (case ip of
              Inl e \<Rightarrow> (c, Inl e)
            | Inr ip \<Rightarrow>
                (c\<lparr>a6_ip := ip, a6_cfa := (if fs_offset fs > 0 then a6_cfa c + of_int (fs_offset fs) else a6_cfa c)\<rparr>,
                 Inr (ip \<noteq> 0)))))"

definition a64_fallback ::
  "name_accessor option \<Rightarrow> a64_cursor \<Rightarrow> unw_word \<Rightarrow> (a64_cursor \<times> (unw_error + bool)) res" where
  "a64_fallback names c fp =
     (let c = (if a6_local c then c\<lparr>a6_validate := True\<rparr> else c);
          c = c\<lparr>a6_frame_info := (a6_frame_info c)\<lparr>af_frame_type :=
                 (if a64_is_plt_entry (a6_as c) (a6_ip c) then UNW_AARCH64_FRAME_STANDARD
                  else UNW_AARCH64_FRAME_GUESSED)\<rparr>\<rparr> in
      rbind (get_frame_state (a6_as c) names (a6_ip c)) (\<lambda>fs.
      if fs_loc fs \<noteq> NONE then a64_frame_record_step c fp fs else a64_link_register_step c fs))"

text \<open>\<open>unw_step\<close>, with whether it returns 1; the step by DWARF is a parameter.\<close>

definition a64_unw_step ::
  "name_accessor option \<Rightarrow> (a64_cursor \<Rightarrow> (a64_cursor \<times> (unw_error + bool)) res) \<Rightarrow> a64_cursor
    \<Rightarrow> (a64_cursor \<times> (unw_error + bool)) res" where
  "a64_unw_step names dwarf_step c =
     (let validate = a6_validate c; c = c\<lparr>a6_validate := True\<rparr> in
      rbind (attempt (a64_is_signal_frame c)) (\<lambda>ret.
      if ret = Inr True then aarch64_handle_signal_frame c
      else
        rbind (if isl ret then a64_get_or c UNW_AARCH64_X30 (a6_ip c) else Inr (a6_ip c)) (\<lambda>ip.
        let c = c\<lparr>a6_ip := ip\<rparr> in
        rbind (attempt (a64_get_at c UNW_AARCH64_X29)) (\<lambda>r.
        if r = Inr 0 then Inr (c\<lparr>a6_ip := 0\<rparr>, Inr False)
        else
          rbind (dwarf_step (c\<lparr>a6_sigcontext_format := AARCH64_SCF_NONE\<rparr>)) (\<lambda>(c, ret).
          let c = c\<lparr>a6_validate := validate\<rparr> in
          case ret of
            Inr _ \<Rightarrow> Inr (c, Inr (a6_ip c \<noteq> 0))
          | Inl e \<Rightarrow>
              if e \<noteq> UNW_ENOINFO then Inr (c, Inl e)
              else a64_fallback names c (case r of Inl _ \<Rightarrow> 0 | Inr fp \<Rightarrow> fp))))))"

end
