(* ===== verification/A64Insn.thy ===== *)
theory A64Insn
  imports A64Frame
begin

text \<open>
  The instructions of AArch64 that bear on the stack pointer, as the architecture encodes them, independently of
  the masks of \<open>track_stack_pointer\<close>: a small language with its encoding and what each instruction adds to the
  stack pointer, and a decoder for the instructions outside of it that may write the stack pointer.
\<close>

section \<open>The language\<close>

datatype a64_op =
  Sub_sp "12 word" bool
| Add_sp "12 word" bool
| Stp_pre "5 word" "5 word" "7 word"
| Ldp_post "5 word" "5 word" "7 word"
| Str_pre "5 word" "9 word"
| Ldr_post "5 word" "9 word"
| Other a64_insn

text \<open>An operand of an instruction, placed at a bit.\<close>

definition at_bit :: "nat \<Rightarrow> ('a::len) word \<Rightarrow> a64_insn" where
  "at_bit k x = push_bit k (ucast x)"

text \<open>
  \<open>sub sp, sp, #imm {, lsl #12}\<close>, \<open>add\<close>, \<open>stp rt, rt2, [sp, #imm]!\<close>, \<open>ldp rt, rt2, [sp], #imm\<close>,
  \<open>str rt, [sp, #imm]!\<close> and \<open>ldr rt, [sp], #imm\<close>, for registers of 64 bits.
\<close>

fun a64_encode :: "a64_op \<Rightarrow> a64_insn" where
  "a64_encode (Sub_sp imm shift) = 0xd10003ff OR at_bit 10 imm OR (if shift then 0x400000 else 0)"
| "a64_encode (Add_sp imm shift) = 0x910003ff OR at_bit 10 imm OR (if shift then 0x400000 else 0)"
| "a64_encode (Stp_pre rt rt2 imm) = 0xa98003e0 OR at_bit 15 imm OR at_bit 10 rt2 OR at_bit 0 rt"
| "a64_encode (Ldp_post rt rt2 imm) = 0xa8c003e0 OR at_bit 15 imm OR at_bit 10 rt2 OR at_bit 0 rt"
| "a64_encode (Str_pre rt imm) = 0xf8000fe0 OR at_bit 12 imm OR at_bit 0 rt"
| "a64_encode (Ldr_post rt imm) = 0xf84007e0 OR at_bit 12 imm OR at_bit 0 rt"
| "a64_encode (Other i) = i"

fun sp_moves :: "a64_op \<Rightarrow> int" where
  "sp_moves (Sub_sp imm shift) = - uint imm * (if shift then 4096 else 1)"
| "sp_moves (Add_sp imm shift) = uint imm * (if shift then 4096 else 1)"
| "sp_moves (Stp_pre rt rt2 imm) = sint imm * 8"
| "sp_moves (Ldp_post rt rt2 imm) = sint imm * 8"
| "sp_moves (Str_pre rt imm) = sint imm"
| "sp_moves (Ldr_post rt imm) = sint imm"
| "sp_moves (Other i) = 0"

text \<open>
  The classes of instructions of the architecture that can write the stack pointer, with register 31 as the
  destination or as the base that is written back, each as a mask and a value: \<open>ADD\<close>, \<open>SUB\<close>, \<open>ADDG\<close> and
  \<open>SUBG\<close> with an immediate; \<open>AND\<close>, \<open>ORR\<close> and \<open>EOR\<close> with an immediate; \<open>ADD\<close> and \<open>SUB\<close> of an extended
  register; \<open>ADDVL\<close>, \<open>ADDPL\<close>, \<open>ADDSVL\<close> and \<open>ADDSPL\<close>; loads and stores of pairs and of single registers, of
  every size and of the vector registers, before or after which the base is written; those of allocation tags
  and of release consistency (two classes); those of vector structures.
\<close>

definition sp_writers :: "(a64_insn \<times> a64_insn) list" where
  "sp_writers =
     [(0x3f00001f, 0x1100001f), (0x7f80001f, 0x1200001f), (0x7f80001f, 0x3200001f), (0x7f80001f, 0x5200001f),
      (0x3fe0001f, 0x0b20001f), (0xffa0f01f, 0x0420501f), (0x3a8003e0, 0x288003e0), (0x3b0007e0, 0x380007e0),
      (0x3f0007e0, 0x190007e0), (0x3f000be0, 0x19000be0), (0x3e8003e0, 0x0c8003e0)]"

definition writes_sp :: "a64_insn \<Rightarrow> bool" where
  "writes_sp i \<longleftrightarrow> (\<exists>(m, v) \<in> set sp_writers. i AND m = v)"

text \<open>
  The programs looked at: an instruction outside of the language does not write the stack pointer, and the pair of
  the frame pointer and the link register is neither stored nor loaded with a change of the stack pointer.
\<close>

fun a64_op_ok :: "a64_op \<Rightarrow> bool" where
  "a64_op_ok (Stp_pre rt rt2 imm) \<longleftrightarrow> \<not> (rt = 29 \<and> rt2 = 30)"
| "a64_op_ok (Ldp_post rt rt2 imm) \<longleftrightarrow> \<not> (rt = 29 \<and> rt2 = 30)"
| "a64_op_ok (Other i) \<longleftrightarrow> \<not> writes_sp i"
| "a64_op_ok _ \<longleftrightarrow> True"

text \<open>The store of a pair of vector registers is not in the language, and is one that writes the stack pointer.\<close>

lemma vector_pair_writes_sp: "writes_sp 0x6dbf27e8" "track_stack_pointer 0x6dbf27e8 (SP_UNCHANGED, 0) = (SP_UNCHANGED, 0)"
  by (simp_all add: writes_sp_def sp_writers_def track_stack_pointer_def a64_is_branch_def)

text \<open>
  The mask that is to recognise \<open>sub sp, sp, xm\<close> beside \<open>add\<close> leaves out bit 29 in place of bit 30: the
  subtraction passes for an instruction that does not touch the stack pointer.
\<close>

lemma sub_register_missed:
  "writes_sp 0xcb2063ff" "track_stack_pointer 0xcb2063ff (SP_UNCHANGED, 0) = (SP_UNCHANGED, 0)"
  by (simp_all add: writes_sp_def sp_writers_def track_stack_pointer_def a64_is_branch_def)

section \<open>Fields\<close>

lemma at_bit_and: "at_bit k (x :: ('a::len) word) AND m = at_bit k x AND (m AND push_bit k (mask LENGTH('a)))"
  by (rule bit_word_eqI) (auto simp: at_bit_def bit_simps dest: bit_imp_le_length)

lemma at_bit_outside:
  "m AND push_bit k (mask LENGTH('a)) = 0 \<Longrightarrow> at_bit k (x :: ('a::len) word) AND m = 0"
  by (subst at_bit_and) simp

lemma weaker_mask: "(i :: a64_insn) AND m = v \<Longrightarrow> m AND m' = m' \<Longrightarrow> i AND m' = v AND m'"
  by (metis and.assoc)

lemma at_bit_field:
  assumes "k + LENGTH('a) \<le> 32"
  shows "drop_bit k (at_bit k (x :: ('a::len) word)) = ucast x"
  using assms by (intro bit_word_eqI) (auto simp: at_bit_def bit_simps dest: bit_imp_le_length)

lemma at_bit_below: "k + LENGTH('a) \<le> p \<Longrightarrow> drop_bit p (at_bit k (x :: ('a::len) word)) = 0"
  by (rule bit_word_eqI) (auto simp: at_bit_def bit_simps dest: bit_imp_le_length)

lemma at_bit_above: "p < k \<Longrightarrow> k + LENGTH('a) \<le> 32 \<Longrightarrow> drop_bit p (at_bit k (x :: ('a::len) word)) = at_bit (k - p) x"
  by (rule bit_word_eqI) (auto simp: at_bit_def bit_simps add.commute dest: bit_imp_le_length)

lemmas at_bit_simps = bit.conj_disj_distrib2 at_bit_outside mask_eq_exp_minus_1 drop_bit_or at_bit_field at_bit_below at_bit_above

lemma masks_agree: "(i :: a64_insn) AND m = v \<Longrightarrow> i AND m' = v' \<Longrightarrow> v AND m' = v' AND m"
  by (metis and.assoc and.commute)

text \<open>Every instruction of the language has one of six forms.\<close>

lemma encoded_forms:
  "a64_encode (Sub_sp n shift) AND 0xff0003ff = 0xd10003ff"
  "a64_encode (Add_sp n shift) AND 0xff0003ff = 0x910003ff"
  "a64_encode (Stp_pre rt rt2 n7) AND 0xffc003e0 = 0xa98003e0"
  "a64_encode (Ldp_post rt rt2 n7) AND 0xffc003e0 = 0xa8c003e0"
  "a64_encode (Str_pre rt n9) AND 0xffe00fe0 = 0xf8000fe0"
  "a64_encode (Ldr_post rt n9) AND 0xffe00fe0 = 0xf84007e0"
  by (simp_all add: at_bit_simps)

lemma field_value: "LENGTH('a) \<le> 32 \<Longrightarrow> (ucast (x :: ('a::len) word) :: a64_insn) AND mask LENGTH('a) = ucast x"
  by (rule bit_word_eqI) (auto simp: bit_simps dest: bit_imp_le_length)

lemma uint_field: "LENGTH('a) \<le> 32 \<Longrightarrow> uint (ucast (x :: ('a::len) word) :: a64_insn) = uint x"
proof -
  assume "LENGTH('a) \<le> 32"
  then have "uint x < 2 ^ 32"
    using less_le_trans [OF uint_bounded power_increasing [of "LENGTH('a)" 32 2]] by simp
  then show ?thesis by (simp add: unsigned_ucast_eq take_bit_int_eq_self)
qed

lemma imm12_encoded:
  "a64_imm12 (a64_encode (Sub_sp n shift)) = uint n * (if shift then 4096 else 1)"
  "a64_imm12 (a64_encode (Add_sp n shift)) = uint n * (if shift then 4096 else 1)"
  using field_value [of n] by (simp_all add: a64_imm12_def Let_def at_bit_simps uint_field)

lemma simm_encoded:
  assumes "drop_bit p w AND mask LENGTH('a) = ucast (n :: ('a::len) word)" "LENGTH('a) \<le> 32"
  shows "a64_simm p LENGTH('a) w = sint n"
proof -
  note uint_field [OF assms(2), of n]
  moreover have "take_bit LENGTH('a) (uint n) = uint n" by (simp add: take_bit_int_eq_self)
  moreover obtain k where k: "LENGTH('a) = Suc k" by (cases "LENGTH('a)") auto
  moreover have "sint n = uint n - 2 ^ Suc k * of_bool (bit (uint n) k)"
    using k calculation(2) by (simp add: sint_uint signed_take_bit_eq_take_bit_minus)
  moreover have "a64_simm p LENGTH('a) w = (if bit (uint n) (LENGTH('a) - 1) then uint n - 2 ^ LENGTH('a) else uint n)"
    unfolding a64_simm_def assms(1) calculation(1) Let_def ..
  ultimately show ?thesis by simp
qed

lemma simm_encoded_forms:
  "a64_simm 15 7 (a64_encode (Stp_pre rt rt2 n7)) = sint n7"
  "a64_simm 15 7 (a64_encode (Ldp_post rt rt2 n7)) = sint n7"
  "a64_simm 12 9 (a64_encode (Str_pre rt n9)) = sint n9"
  "a64_simm 12 9 (a64_encode (Ldr_post rt n9)) = sint n9"
  using simm_encoded [of 15 _ n7] simm_encoded [of 12 _ n9] field_value [of n7] field_value [of n9]
  by (simp_all add: at_bit_simps)

section \<open>The changes that the scan reads off\<close>

text \<open>What the scan takes an instruction to add to the stack pointer, by its masks.\<close>

definition sp_change :: "a64_insn \<Rightarrow> int" where
  "sp_change insn =
     (if insn AND 0xff0003ff = 0xd10003ff then - a64_imm12 insn
      else if insn AND 0xff0003ff = 0x910003ff then a64_imm12 insn
      else if insn AND 0xffc003e0 = 0xa98003e0 \<or> insn AND 0xffc003e0 = 0xa8c003e0 then a64_simm 15 7 insn * 8
      else if insn AND 0xffe00fe0 = 0xf8000fe0 \<or> insn AND 0xffe00fe0 = 0xf84007e0 then a64_simm 12 9 insn
      else 0)"

definition indexed_pair :: "a64_insn \<Rightarrow> bool" where
  "indexed_pair insn \<longleftrightarrow>
     (insn AND 0xffc003e0 = 0xa98003e0 \<or> insn AND 0xffc003e0 = 0xa8c003e0) \<and> a64_fp_lr_pair insn"

lemma sp_change_forms:
  "w AND 0xff0003ff = 0xd10003ff \<Longrightarrow> sp_change w = - a64_imm12 w"
  "w AND 0xff0003ff = 0x910003ff \<Longrightarrow> sp_change w = a64_imm12 w"
  "w AND 0xffc003e0 = 0xa98003e0 \<Longrightarrow> sp_change w = a64_simm 15 7 w * 8"
  "w AND 0xffc003e0 = 0xa8c003e0 \<Longrightarrow> sp_change w = a64_simm 15 7 w * 8"
  "w AND 0xffe00fe0 = 0xf8000fe0 \<Longrightarrow> sp_change w = a64_simm 12 9 w"
  "w AND 0xffe00fe0 = 0xf84007e0 \<Longrightarrow> sp_change w = a64_simm 12 9 w"
proof -
  have other: "w AND 0xff0003ff \<noteq> 0xd10003ff \<and> w AND 0xff0003ff \<noteq> 0x910003ff"
    if "w AND m = v" "v AND 0xff0003ff \<noteq> 0xd10003ff AND m" "v AND 0xff0003ff \<noteq> 0x910003ff AND m" for m v
    using masks_agree [OF that(1), of "0xff0003ff"] that(2,3) by blast
  note pair = other [of "0xffc003e0"] and single = other [of "0xffe00fe0"]
  show "w AND 0xffc003e0 = 0xa98003e0 \<Longrightarrow> sp_change w = a64_simm 15 7 w * 8"
    "w AND 0xffc003e0 = 0xa8c003e0 \<Longrightarrow> sp_change w = a64_simm 15 7 w * 8"
    using pair by (simp_all add: sp_change_def)
  show "w AND 0xffe00fe0 = 0xf8000fe0 \<Longrightarrow> sp_change w = a64_simm 12 9 w"
    "w AND 0xffe00fe0 = 0xf84007e0 \<Longrightarrow> sp_change w = a64_simm 12 9 w"
    using single masks_agree [of w "0xffe00fe0" "0xf8000fe0" "0xffc003e0"] masks_agree [of w "0xffe00fe0" "0xf84007e0" "0xffc003e0"]
    by (auto simp: sp_change_def)
qed (simp_all add: sp_change_def)

lemmas sp_change_encoded =
  sp_change_forms(1) [OF encoded_forms(1)] sp_change_forms(2) [OF encoded_forms(2)] sp_change_forms(3) [OF encoded_forms(3)]
  sp_change_forms(4) [OF encoded_forms(4)] sp_change_forms(5) [OF encoded_forms(5)] sp_change_forms(6) [OF encoded_forms(6)]

lemma forms_write_sp:
  "i AND 0xff0003ff = 0xd10003ff \<or> i AND 0xff0003ff = 0x910003ff \<or> i AND 0xffc003e0 = 0xa98003e0
    \<or> i AND 0xffc003e0 = 0xa8c003e0 \<or> i AND 0xffe00fe0 = 0xf8000fe0 \<or> i AND 0xffe00fe0 = 0xf84007e0 \<Longrightarrow> writes_sp i"
  using weaker_mask [of i "0xff0003ff" _ "0x3f00001f"] weaker_mask [of i "0xffc003e0" _ "0x3a8003e0"]
    weaker_mask [of i "0xffe00fe0" _ "0x3b0007e0"]
  by (auto simp: writes_sp_def sp_writers_def)

theorem sp_change_moves: "a64_op_ok i \<Longrightarrow> sp_change (a64_encode i) = sp_moves i"
proof (cases i)
  case (Other w)
  then show "a64_op_ok i \<Longrightarrow> sp_change (a64_encode i) = sp_moves i"
    using forms_write_sp [of w] by (auto simp: sp_change_def)
qed (simp_all only: sp_change_encoded imm12_encoded simm_encoded_forms sp_moves.simps minus_mult_left)

lemma pair_encoded:
  "a64_fp_lr_pair (a64_encode (Stp_pre rt rt2 n7)) \<longleftrightarrow> rt = 29 \<and> rt2 = 30"
  "a64_fp_lr_pair (a64_encode (Ldp_post rt rt2 n7)) \<longleftrightarrow> rt = 29 \<and> rt2 = 30"
proof -
  have field: "(ucast x :: a64_insn) AND 0x1f = ucast x" "at_bit 0 x AND 0x1f = ucast x" for x :: "5 word"
    using field_value [of x] by (simp_all add: at_bit_def mask_eq_exp_minus_1)
  have eq: "(ucast x :: a64_insn) = 0x1d \<longleftrightarrow> x = 29" "(ucast x :: a64_insn) = 0x1e \<longleftrightarrow> x = 30" for x :: "5 word"
    using uint_field [of x] by (auto simp: word_uint_eq_iff)
  show "a64_fp_lr_pair (a64_encode (Stp_pre rt rt2 n7)) \<longleftrightarrow> rt = 29 \<and> rt2 = 30"
    "a64_fp_lr_pair (a64_encode (Ldp_post rt rt2 n7)) \<longleftrightarrow> rt = 29 \<and> rt2 = 30"
    by (simp_all add: a64_fp_lr_pair_def at_bit_simps field eq)
qed

lemma not_indexed_pair: "a64_op_ok i \<Longrightarrow> \<not> indexed_pair (a64_encode i)"
proof (cases i)
  case (Other w)
  then show "a64_op_ok i \<Longrightarrow> \<not> indexed_pair (a64_encode i)"
    using forms_write_sp [of w] by (auto simp: indexed_pair_def)
next
  case (Sub_sp n shift)
  then show ?thesis using encoded_forms(1) [of n shift]
    by (auto simp: indexed_pair_def simp del: a64_encode.simps dest: masks_agree)
next
  case (Add_sp n shift)
  then show ?thesis using encoded_forms(2) [of n shift]
    by (auto simp: indexed_pair_def simp del: a64_encode.simps dest: masks_agree)
next
  case (Str_pre rt n)
  then show ?thesis using encoded_forms(5) [of rt n]
    by (auto simp: indexed_pair_def simp del: a64_encode.simps dest: masks_agree)
next
  case (Ldr_post rt n)
  then show ?thesis using encoded_forms(6) [of rt n]
    by (auto simp: indexed_pair_def simp del: a64_encode.simps dest: masks_agree)
qed (auto simp: indexed_pair_def pair_encoded simp del: a64_encode.simps)

end
