(* ===== verification/A64Props.thy ===== *)
theory A64Props
  imports A64Step A64Insn
begin

text \<open>
  What the scan of a procedure finds, against the code that the procedure has executed, and where the
  steps by the frame record and by the link register lead.
\<close>

section \<open>The scan\<close>

text \<open>The instructions in memory, two to a word.\<close>

fun code_at :: "addr_space \<Rightarrow> unw_word \<Rightarrow> a64_insn list \<Rightarrow> bool" where
  "code_at as a [] \<longleftrightarrow> True"
| "code_at as a [i] \<longleftrightarrow> (\<exists>w. access_mem as a = Inr w \<and> ucast (w AND 0xffffffff) = i)"
| "code_at as a (i # j # is) \<longleftrightarrow>
     (\<exists>w. access_mem as a = Inr w \<and> ucast (w AND 0xffffffff) = i \<and> ucast (drop_bit 32 w) = j) \<and> code_at as (a + 8) is"

definition scan_result :: "a64_tracked \<Rightarrow> frame_state" where
  "scan_result = (\<lambda>(sp, fs). if fs_loc fs = NONE then fs\<lparr>fs_offset := snd sp\<rparr> else fs)"

lemma scan_stop: "iterate (a64_scan_body as cur) (cur, t) = Some (Inr (scan_result t))"
  by (cases t) (simp add: a64_scan_body_def iterate_end scan_result_def)

lemma scan_fold:
  assumes "code_at as a is" "cur = a + of_nat (4 * length is)" "unat a + 4 * length is + 8 < 2 ^ 64"
  shows "iterate (a64_scan_body as cur) (a, t) = Some (Inr (scan_result (fold a64_track is t)))"
  using assms
proof (induction as a "is" arbitrary: t rule: code_at.induct)
  case (1 as a)
  then show ?case using scan_stop [of as a t] by simp
next
  case (2 as a i)
  obtain w where w: "access_mem as a = Inr w" "ucast (w AND 0xffffffff) = i" using 2 by auto
  have less: "a < cur" and last: "cur \<le> a + 4"
    using 2 by (simp_all add: word_less_nat_alt unat_word_ariths)
  have "\<not> cur \<le> a" using less by simp
  then have "a64_scan_body as cur (a, t) = Inr (Inl (a + 8, a64_track i t))"
    using w less last by (cases t) (simp add: a64_scan_body_def Let_def upt_rec)
  moreover have "iterate (a64_scan_body as cur) (a + 8, a64_track i t) = Some (Inr (scan_result (a64_track i t)))"
  proof -
    have "\<not> a + 8 < cur" using 2 by (simp add: word_less_nat_alt unat_word_ariths)
    then have "a64_scan_body as cur (a + 8, a64_track i t) = Inr (Inr (scan_result (a64_track i t)))"
      by (cases "a64_track i t") (simp add: a64_scan_body_def scan_result_def)
    then show ?thesis by (rule iterate_end)
  qed
  ultimately show ?case by (simp add: iterate_next)
next
  case (3 as a i j "is")
  obtain w where w: "access_mem as a = Inr w" "ucast (w AND 0xffffffff) = i" "ucast (drop_bit 32 w) = j" using 3 by auto
  have n: "unat (of_nat (4 * length (i # j # is)) :: unw_word) = 4 * length (i # j # is)"
    unfolding unsigned_of_nat of_nat_id using "3.prems"(3) by (intro take_bit_nat_eq_self) simp
  have cur: "unat cur = unat a + 4 * length (i # j # is)"
  proof -
    have "unat a + unat (of_nat (4 * length (i # j # is)) :: unw_word) < 2 ^ LENGTH(64)"
      unfolding n using "3.prems"(3) by simp
    then have "unat (a + of_nat (4 * length (i # j # is))) = unat a + unat (of_nat (4 * length (i # j # is)) :: unw_word)"
      by (simp only: unat_add_lem)
    then show ?thesis unfolding "3.prems"(2) n .
  qed
  have a4: "unat (a + 4) = unat a + 4" "unat (a + 8) = unat a + 8" using "3.prems"(3) by (simp_all add: unat_word_ariths)
  have less: "a < cur" "\<not> cur \<le> a" "\<not> cur \<le> a + 4" using cur a4 by (simp_all add: word_less_nat_alt word_le_nat_alt)
  then have "a64_scan_body as cur (a, t) = Inr (Inl (a + 8, a64_track j (a64_track i t)))"
    using w by (cases t) (simp add: a64_scan_body_def Let_def upt_rec)
  moreover have "iterate (a64_scan_body as cur) (a + 8, a64_track j (a64_track i t))
      = Some (Inr (scan_result (fold a64_track is (a64_track j (a64_track i t)))))"
    by (rule "3.IH") (use "3.prems" a4 in \<open>simp_all add: algebra_simps\<close>)
  ultimately show ?case by (simp add: iterate_next)
qed

lemma fold_track: "fold a64_track is (sp, fs) = (fold track_stack_pointer is sp, fold track_frame_record is fs)"
  by (induction "is" arbitrary: sp fs) (simp_all add: a64_track_def)

text \<open>The procedure that an address belongs to: its code up to there, found by its name.\<close>

definition executed :: "addr_space \<Rightarrow> name_accessor \<Rightarrow> unw_word \<Rightarrow> a64_insn list \<Rightarrow> bool" where
  "executed as get cur is \<longleftrightarrow>
     (\<exists>start name. cur = start + of_nat (4 * length is) \<and> unat start + 4 * length is + 8 < 2 ^ 64 \<and> code_at as start is
        \<and> get cur (replicate 128 0) = Inr (name, Some (cur - start), Inr ()))
     \<and> \<not> a64_is_plt_entry as cur"

lemma frame_state_executed:
  assumes "executed as get cur is"
  shows "get_frame_state as (Some get) cur = Inr (scan_result
    (fold track_stack_pointer is (SP_UNCHANGED, 0), fold track_frame_record is \<lparr>fs_loc = NONE, fs_offset = 0\<rparr>))"
proof -
  obtain start name where s: "cur = start + of_nat (4 * length is)" "unat start + 4 * length is + 8 < 2 ^ 64"
    "code_at as start is" "get cur (replicate 128 0) = Inr (name, Some (cur - start), Inr ())" "\<not> a64_is_plt_entry as cur"
    using assms unfolding executed_def by metis
  have "cur - (cur - start) = start" by simp
  then show ?thesis
    using s(4,5) scan_fold [OF s(3,1,2), of "((SP_UNCHANGED, 0), \<lparr>fs_loc = NONE, fs_offset = 0\<rparr>)"]
    by (simp add: get_frame_state_def Let_def returns_def fold_track)
qed

section \<open>The frame record\<close>

definition saves_record :: "a64_insn \<Rightarrow> bool" where "saves_record i \<longleftrightarrow> i AND 0xfe407fff = 0xa8007bfd"
definition sets_fp :: "a64_insn \<Rightarrow> bool" where "sets_fp i \<longleftrightarrow> i AND 0xff0003ff = 0x910003fd"
definition loads_record :: "a64_insn \<Rightarrow> bool" where "loads_record i \<longleftrightarrow> i AND 0xfe407fff = 0xa8407bfd"

lemma record_waits:
  "fs_loc fs = NONE \<Longrightarrow> \<forall>i \<in> set is. \<not> saves_record i \<Longrightarrow> fold track_frame_record is fs = fs"
  "fs_loc fs = AT_SP_OFFSET \<Longrightarrow> \<forall>i \<in> set is. \<not> sets_fp i \<Longrightarrow> fold track_frame_record is fs = fs"
  "fs_loc fs = AT_FP \<Longrightarrow> \<forall>i \<in> set is. \<not> loads_record i \<Longrightarrow> fold track_frame_record is fs = fs"
  by (induction "is") (auto simp: track_frame_record_def saves_record_def sets_fp_def loads_record_def)

lemma record_at_fp:
  assumes "\<forall>i \<in> set pre. \<not> saves_record i" "saves_record stp" "\<forall>i \<in> set mid. \<not> sets_fp i" "sets_fp mov"
    "\<forall>i \<in> set body. \<not> loads_record i"
  shows "fold track_frame_record (pre @ stp # mid @ mov # body) \<lparr>fs_loc = NONE, fs_offset = 0\<rparr>
    = \<lparr>fs_loc = AT_FP, fs_offset = 0\<rparr>"
proof -
  define fs where "fs = track_frame_record stp \<lparr>fs_loc = NONE, fs_offset = 0\<rparr>"
  have "fs_loc fs = AT_SP_OFFSET" using assms(2) by (simp add: fs_def track_frame_record_def saves_record_def)
  moreover from this have "track_frame_record mov fs = \<lparr>fs_loc = AT_FP, fs_offset = 0\<rparr>"
    using assms(4) by (simp add: track_frame_record_def sets_fp_def)
  ultimately show ?thesis
    using assms(1,3,5) by (simp add: record_waits fs_def [symmetric])
qed

section \<open>The stack pointer\<close>

definition sp_tracked :: "sp_state \<times> int \<Rightarrow> int \<Rightarrow> bool" where
  "sp_tracked = (\<lambda>(state, offset) total.
     (state = SP_UNCHANGED \<longrightarrow> offset = 0 \<and> total = 0) \<and> (state = SP_ADJUSTED \<longrightarrow> 0 < offset \<and> total = - offset))"

lemma imm12_nonneg: "0 \<le> a64_imm12 i"
  by (simp add: a64_imm12_def Let_def)

lemma sp_steps:
  "sp_tracked s t \<Longrightarrow> 0 < n \<Longrightarrow> sp_tracked (sp_decrement n s) (t - n)"
  "sp_tracked s t \<Longrightarrow> 0 < n \<Longrightarrow> sp_tracked (sp_increment n s) (t + n)"
  "sp_tracked (SP_UNKNOWN, n) t"
  by (cases s; auto simp: sp_tracked_def sp_decrement_def sp_increment_def)+

lemma sp_tracked_step:
  assumes "sp_tracked s t" "\<not> indexed_pair i"
  shows "sp_tracked (track_stack_pointer i s) (t + sp_change i)"
proof -
  obtain state offset where s: "s = (state, offset)" by (cases s)
  have pos: "a64_imm12 i \<noteq> 0 \<Longrightarrow> 0 < a64_imm12 i" using imm12_nonneg [of i] by simp
  show ?thesis
  proof (cases "state = SP_UNKNOWN \<or> state = SP_UNCHANGED \<and> a64_is_branch i")
    case True
    then show ?thesis by (auto simp: s track_stack_pointer_def sp_tracked_def)
  next
    case False
    then have branch: "(state = SP_UNKNOWN) = False" "(state = SP_UNCHANGED \<and> a64_is_branch i) = False" by auto
    have sub: "sp_tracked (sp_decrement n s) (t + d)" if "0 < n" "d = - n" for n d
      using sp_steps(1) [OF assms(1) that(1)] that(2) by simp
    have add: "sp_tracked (sp_increment n s) (t + d)" if "0 < n" "d = n" for n d
      using sp_steps(2) [OF assms(1) that(1)] that(2) by simp
    define sub_sp add_sp stp ldp str ldr add_fp add_reg pair where forms:
      "sub_sp \<longleftrightarrow> i AND 0xff0003ff = 0xd10003ff" "add_sp \<longleftrightarrow> i AND 0xff0003ff = 0x910003ff"
      "stp \<longleftrightarrow> i AND 0xffc003e0 = 0xa98003e0" "ldp \<longleftrightarrow> i AND 0xffc003e0 = 0xa8c003e0"
      "str \<longleftrightarrow> i AND 0xffe00fe0 = 0xf8000fe0" "ldr \<longleftrightarrow> i AND 0xffe00fe0 = 0xf84007e0"
      "add_fp \<longleftrightarrow> i AND 0xbf0003ff = 0x910003bf" "add_reg \<longleftrightarrow> i AND 0xdfe003ff = 0x8b2003ff"
      "pair \<longleftrightarrow> a64_fp_lr_pair i"
    define n12 n7 n9 where imms: "n12 = a64_imm12 i" "n7 = a64_simm 15 7 i" "n9 = a64_simm 12 9 i"
    have pair: "\<not> ((stp \<or> ldp) \<and> pair)" using assms(2) by (simp only: indexed_pair_def forms) blast
    have change: "sp_change i = (if sub_sp then - n12 else if add_sp then n12 else if stp \<or> ldp then n7 * 8
        else if str \<or> ldr then n9 else 0)" by (simp only: sp_change_def forms imms)
    have track: "track_stack_pointer i s =
       (if sub_sp then (if n12 \<noteq> 0 then sp_decrement n12 s else s)
        else if add_sp then (if n12 \<noteq> 0 then sp_increment n12 s else s)
        else if stp then (if pair then s else if n7 < 0 then sp_decrement (- (n7 * 8)) s else (SP_UNKNOWN, 0))
        else if ldp then (if pair then s else if n7 > 0 then sp_increment (n7 * 8) s else (SP_UNKNOWN, 0))
        else if str then (if n9 < 0 then sp_decrement (- n9) s else (SP_UNKNOWN, 0))
        else if ldr then (if n9 > 0 then sp_increment n9 s else (SP_UNKNOWN, 0))
        else if add_fp then (SP_UNKNOWN, 0) else if add_reg then (SP_UNKNOWN, 0) else s)"
      unfolding s track_stack_pointer_def prod.case branch if_False Let_def forms imms ..
    have pos': "n12 \<noteq> 0 \<Longrightarrow> 0 < n12" using pos imms(1) by simp
    show ?thesis
      unfolding track change using pair pos' assms(1) sub [of n12 "- n12"] add [of n12 n12] sub [of "- (n7 * 8)" "n7 * 8"]
        add [of "n7 * 8" "n7 * 8"] sub [of "- n9" n9] add [of n9 n9]
      by (cases pair; simp add: sp_steps(3))
  qed
qed

lemma sp_tracked_fold:
  assumes "sp_tracked s t" "\<forall>i \<in> set is. \<not> indexed_pair i"
  shows "sp_tracked (fold track_stack_pointer is s) (t + sum_list (map sp_change is))"
  using assms
proof (induction "is" arbitrary: s t)
  case (Cons i "is")
  then show ?case using Cons.IH [of "track_stack_pointer i s" "t + sp_change i"] by (simp add: sp_tracked_step add.assoc)
qed simp

section \<open>Steps\<close>

text \<open>A frame of the code before an address, in a state in which neither a signal frame nor DWARF is found.\<close>

definition a64_plain_frame :: "a64_cursor \<Rightarrow> unw_word \<Rightarrow> bool" where
  "a64_plain_frame c fp \<longleftrightarrow> length (a6_loc c) = A64_NUM_PRESERVED_REGS \<and> a64_is_signal_frame c = Inr False \<and> a64_get_at c UNW_AARCH64_X29 = Inr fp \<and> fp \<noteq> 0"

lemma a64_get_at_update [simp]:
  "a64_get_at (c\<lparr>a6_validate := v\<rparr>) r = a64_get_at c r"
  "a64_get_at (c\<lparr>a6_ip := ip\<rparr>) r = a64_get_at c r"
  "a64_get_at (c\<lparr>a6_cfa := cfa\<rparr>) r = a64_get_at c r"
  "a64_get_at (c\<lparr>a6_sigcontext_format := f\<rparr>) r = a64_get_at c r"
  "a64_get_at (c\<lparr>a6_frame_info := i\<rparr>) r = a64_get_at c r"
  "a64_is_signal_frame (c\<lparr>a6_validate := v\<rparr>) = a64_is_signal_frame c"
  by (simp_all add: a64_get_at_def a64_loc_at_def a64_is_signal_frame_def)

lemma a64_get_mem [simp]:
  "a64_get as (DWARF_MEM_LOC m) = (if m = 0 then Inl (Err UNW_EBADREG) else lift_acc (access_mem as m))"
  by (simp add: a64_get_def loc_defs)

lemma step_falls_back:
  assumes "a64_plain_frame c fp" "\<And>c. dwarf_step c = Inr (c, Inl UNW_ENOINFO)"
  shows "a64_unw_step names dwarf_step c = a64_fallback names (c\<lparr>a6_sigcontext_format := AARCH64_SCF_NONE\<rparr>) fp"
  using assms by (simp add: a64_unw_step_def a64_plain_frame_def Let_def)

lemma use_record:
  assumes "access_mem (a6_as c) fp = Inr caller_fp" "access_mem (a6_as c) (fp + 8) = Inr ra" "fp \<noteq> 0" "fp + 8 \<noteq> 0"
  shows "\<exists>c'. a64_use_record c fp = Inr (c', Inr True) \<and> a6_ip c' = ra \<and> a6_cfa c' = caller_fp
    \<and> a64_get_at c' UNW_AARCH64_X29 = Inr caller_fp \<and> a64_get_at c' UNW_AARCH64_X30 = Inr ra \<and> a6_as c' = a6_as c"
  using assms
  by (simp add: a64_use_record_def Let_def a64_null_locs_def)
    (simp add: a64_get_at_def a64_loc_at_def lift_acc_def)

text \<open>C20. A procedure that has saved the frame pointer and the link register and has pointed the frame pointer
  to them, and has not loaded them again, is left by its frame record: the step reads the caller's frame
  pointer and the return address from it.
\<close>

theorem a64_step_by_record:
  assumes "a64_plain_frame c fp" "\<And>c. dwarf_step c = Inr (c, Inl UNW_ENOINFO)"
    "executed (a6_as c) get (a6_ip c) (pre @ stp # mid @ mov # body)"
    "\<forall>i \<in> set pre. \<not> saves_record i" "saves_record stp" "\<forall>i \<in> set mid. \<not> sets_fp i" "sets_fp mov"
    "\<forall>i \<in> set body. \<not> loads_record i"
    "access_mem (a6_as c) fp = Inr caller_fp" "access_mem (a6_as c) (fp + 8) = Inr ra" "fp + 8 \<noteq> 0"
  shows "\<exists>c'. a64_unw_step (Some get) dwarf_step c = Inr (c', Inr True) \<and> a6_ip c' = ra \<and> a6_cfa c' = caller_fp
    \<and> a64_get_at c' UNW_AARCH64_X29 = Inr caller_fp \<and> a64_get_at c' UNW_AARCH64_X30 = Inr ra
    \<and> a6_as c' = a6_as c"
proof -
  let ?c = "c\<lparr>a6_sigcontext_format := AARCH64_SCF_NONE\<rparr>"
  define c1 where "c1 = (if a6_local ?c then ?c\<lparr>a6_validate := True\<rparr> else ?c)"
  define c2 where "c2 = c1\<lparr>a6_frame_info := (a6_frame_info c1)\<lparr>af_frame_type := UNW_AARCH64_FRAME_GUESSED\<rparr>\<rparr>"
  have c1: "a6_as c1 = a6_as c" "a6_ip c1 = a6_ip c" "a64_get_at c1 UNW_AARCH64_X29 = Inr fp" "fp \<noteq> 0"
    using assms(1) by (simp_all add: c1_def a64_plain_frame_def)
  have fs: "get_frame_state (a6_as c) (Some get) (a6_ip c) = Inr \<lparr>fs_loc = AT_FP, fs_offset = 0\<rparr>"
    unfolding frame_state_executed [OF assms(3)] record_at_fp [OF assms(4-8)] by (simp add: scan_result_def)
  have "\<not> a64_is_plt_entry (a6_as c) (a6_ip c)" using assms(3) by (simp add: executed_def)
  then have "a64_fallback (Some get) ?c fp = a64_frame_record_step c2 fp \<lparr>fs_loc = AT_FP, fs_offset = 0\<rparr>"
    using fs c1(1,2) unfolding a64_fallback_def Let_def c1_def [symmetric] c2_def by simp
  also have "\<dots> = a64_use_record c2 fp"
    using c1(3,4) by (simp add: a64_frame_record_step_def c2_def)
  finally show ?thesis
    using use_record [of c2 fp caller_fp ra] assms(9-11) c1(1,4) step_falls_back [OF assms(1,2)] by (simp add: c2_def)
qed

text \<open>
  A cursor behind code at \<open>0x1000\<close>, and its procedure: memory has the code, a frame record at \<open>0x8000\<close>,
  and nothing else.
\<close>

definition a64_example_space :: "unw_word \<Rightarrow> unw_word \<Rightarrow> addr_space" where
  "a64_example_space w0 w1 =
     \<lparr>access_mem = (\<lambda>a. if a = 0x1000 then Inr w0 else if a = 0x1008 then Inr w1
        else if a = 0x100c then Inr 0xd503201fd503201f
        else if a = 0x8000 then Inr 0x8100 else if a = 0x8008 then Inr 0x2000 else Inl UNW_EINVAL),
      access_reg = (\<lambda>r. if r = 29 then Inr 0x8000 else if r = 30 then Inr 0x3000 else Inl UNW_EBADREG),
      big_endian = False, addr_size = 8\<rparr>"

definition a64_example_cursor :: "addr_space \<Rightarrow> a64_cursor" where
  "a64_example_cursor as =
     \<lparr>a6_as = as, a6_local = False, a6_cfa = 0x7000, a6_ip = 0x100c, a6_args_size = 0, a6_eh_args = [0, 0, 0, 0],
      a6_eh_valid_mask = 0, a6_loc = a64_init_locs (replicate 97 DWARF_NULL_LOC), a6_stash_frames = False,
      a6_use_prev_instr = False, a6_pi_valid = False, a6_pi_is_dynamic = False, a6_hint = 0, a6_prev_rs = 0,
      a6_frame_info = \<lparr>af_frame_type = UNW_AARCH64_FRAME_OTHER, af_cfa_reg_sp = False, af_cfa_reg_offset = 0,
        af_fp_cfa_offset = 0, af_lr_cfa_offset = 0, af_sp_cfa_offset = 0\<rparr>,
      a6_sigcontext_format = AARCH64_SCF_NONE, a6_sigcontext_addr = 0, a6_sigcontext_sp = 0, a6_sigcontext_pc = 0,
      a6_validate = False\<rparr>"

definition a64_example_names :: name_accessor where
  "a64_example_names = (\<lambda>ip buf. Inr (buf, Some (ip - 0x1000), Inr ()))"

definition no_dwarf :: "a64_cursor \<Rightarrow> (a64_cursor \<times> (unw_error + bool)) res" where
  "no_dwarf c = Inr (c, Inl UNW_ENOINFO)"

lemma example_frame:
  "a64_plain_frame (a64_example_cursor (a64_example_space w0 w1)) 0x8000"
  "a64_get_at (a64_example_cursor (a64_example_space w0 w1)) UNW_AARCH64_X30 = Inr 0x3000"
  by (simp_all add: a64_plain_frame_def a64_example_cursor_def a64_example_space_def a64_init_locs_def a64_get_at_def
      a64_loc_at_def a64_get_def loc_defs a64_is_signal_frame_def)

lemma example_executed:
  assumes "ucast (w0 AND 0xffffffff) = i0" "ucast (drop_bit 32 w0) = i1" "ucast (w1 AND 0xffffffff) = i2"
  shows "executed (a6_as (a64_example_cursor (a64_example_space w0 w1))) a64_example_names
    (a6_ip (a64_example_cursor (a64_example_space w0 w1))) [i0, i1, i2]"
proof -
  have "code_at (a64_example_space w0 w1) 0x1000 [i0, i1, i2]" using assms by (simp add: a64_example_space_def)
  moreover have "\<not> a64_is_plt_entry (a64_example_space w0 w1) 0x100c"
    by (simp add: a64_is_plt_entry_def a64_example_space_def a64_plt_pair_def a64_plt_insn_def)
  ultimately show ?thesis
    unfolding executed_def
    by (auto simp: a64_example_cursor_def a64_example_names_def intro!: exI [of _ "0x1000"])
qed

theorem a64_step_by_record_witness:
  "\<exists>c'. a64_unw_step (Some a64_example_names) no_dwarf (a64_example_cursor (a64_example_space 0x910003fda9bf7bfd 0xd503201fd503201f))
    = Inr (c', Inr True) \<and> a6_ip c' = 0x2000"
proof -
  let ?c = "a64_example_cursor (a64_example_space 0x910003fda9bf7bfd 0xd503201fd503201f)"
  have "executed (a6_as ?c) a64_example_names (a6_ip ?c) ([] @ 0xa9bf7bfd # [] @ 0x910003fd # [0xd503201f])"
    unfolding append_Nil by (rule example_executed) simp_all
  moreover have "access_mem (a6_as ?c) 0x8000 = Inr 0x8100" "access_mem (a6_as ?c) (0x8000 + 8) = Inr 0x2000"
    by (simp_all add: a64_example_cursor_def a64_example_space_def)
  ultimately show ?thesis
    using a64_step_by_record [of ?c "0x8000" no_dwarf a64_example_names "[]" "0xa9bf7bfd" "[]" "0x910003fd" "[0xd503201f]"
        "0x8100" "0x2000"]
    by (auto simp: example_frame no_dwarf_def saves_record_def sets_fp_def loads_record_def)
qed

text \<open>The instructions of a program in the language, one after the other.\<close>

lemma sp_tracked_program:
  assumes "\<forall>i \<in> set prog. a64_op_ok i"
  shows "sp_tracked (fold track_stack_pointer (map a64_encode prog) (SP_UNCHANGED, 0)) (sum_list (map sp_moves prog))"
proof -
  have changes: "map sp_change (map a64_encode prog) = map sp_moves prog"
    using assms by (simp add: sp_change_moves)
  have "sp_tracked (fold track_stack_pointer (map a64_encode prog) (SP_UNCHANGED, 0))
      (0 + sum_list (map sp_change (map a64_encode prog)))"
    using assms by (intro sp_tracked_fold) (simp_all add: sp_tracked_def not_indexed_pair)
  then show ?thesis unfolding changes by simp
qed

text \<open>C21. A procedure that has saved no frame record up to the instruction pointer is left by the link register,
  whatever instructions it has executed. Its instructions up to there are given in a language of the architecture
  with the changes of the stack pointer that they make when executed in order; those outside of the language write
  no stack pointer, and no pair of the frame pointer and the link register is pushed or popped. If the tracker's
  verdict on them is not \<open>SP_UNKNOWN\<close>, then the frame address goes back by exactly the changes they made, to
  the stack pointer that the procedure was entered with.
\<close>

theorem a64_step_by_link:
  assumes "a64_plain_frame c fp" "\<And>c. dwarf_step c = Inr (c, Inl UNW_ENOINFO)"
    "executed (a6_as c) get (a6_ip c) (map a64_encode prog)" "\<forall>i \<in> set prog. \<not> saves_record (a64_encode i)"
    "a64_get_at c UNW_AARCH64_X30 = Inr lr"
  shows "\<exists>c'. a64_unw_step (Some get) dwarf_step c = Inr (c', Inr (lr \<noteq> 0)) \<and> a6_ip c' = lr
    \<and> ((\<forall>i \<in> set prog. a64_op_ok i) \<and> fst (fold track_stack_pointer (map a64_encode prog) (SP_UNCHANGED, 0)) \<noteq> SP_UNKNOWN
        \<longrightarrow> a6_cfa c' = a6_cfa c - of_int (sum_list (map sp_moves prog)))"
proof -
  let ?c = "c\<lparr>a6_sigcontext_format := AARCH64_SCF_NONE\<rparr>" and ?is = "map a64_encode prog"
  define c1 where "c1 = (if a6_local ?c then ?c\<lparr>a6_validate := True\<rparr> else ?c)"
  define c2 where "c2 = c1\<lparr>a6_frame_info := (a6_frame_info c1)\<lparr>af_frame_type := UNW_AARCH64_FRAME_GUESSED\<rparr>\<rparr>"
  obtain state offset where sp: "fold track_stack_pointer ?is (SP_UNCHANGED, 0) = (state, offset)" by fastforce
  have "offset = - sum_list (map sp_moves prog) \<and> 0 \<le> offset"
    if "\<forall>i \<in> set prog. a64_op_ok i" "state \<noteq> SP_UNKNOWN"
    using sp_tracked_program [OF that(1)] that(2) unfolding sp by (cases state) (simp_all add: sp_tracked_def)
  then have cfa: "0 < offset \<Longrightarrow> \<forall>i \<in> set prog. a64_op_ok i \<Longrightarrow> state \<noteq> SP_UNKNOWN
      \<Longrightarrow> (word_of_int offset :: unw_word) = - word_of_int (sum_list (map sp_moves prog))"
    "\<not> 0 < offset \<Longrightarrow> \<forall>i \<in> set prog. a64_op_ok i \<Longrightarrow> state \<noteq> SP_UNKNOWN
      \<Longrightarrow> (word_of_int (sum_list (map sp_moves prog)) :: unw_word) = 0"
    by (auto simp: not_less)
  have kept: "fold track_frame_record ?is \<lparr>fs_loc = NONE, fs_offset = 0\<rparr> = \<lparr>fs_loc = NONE, fs_offset = 0\<rparr>"
    using assms(4) by (intro record_waits) simp_all
  have fs: "get_frame_state (a6_as c) (Some get) (a6_ip c) = Inr \<lparr>fs_loc = NONE, fs_offset = offset\<rparr>"
    unfolding frame_state_executed [OF assms(3)] kept sp by (simp add: scan_result_def)
  have c1: "a6_as c1 = a6_as c" "a6_ip c1 = a6_ip c" "a6_loc c1 = a6_loc c" "a6_cfa c1 = a6_cfa c"
    by (simp_all add: c1_def)
  have "\<not> a64_is_plt_entry (a6_as c) (a6_ip c)" using assms(3) by (simp add: executed_def)
  then have step: "a64_fallback (Some get) ?c fp = a64_link_register_step c2 \<lparr>fs_loc = NONE, fs_offset = offset\<rparr>"
    using fs c1(1,2) unfolding a64_fallback_def Let_def c1_def [symmetric] c2_def by simp
  obtain l where l: "arr_get (a6_loc c) UNW_AARCH64_X30 = Inr l" "a64_get (a6_as c) l = Inr lr"
    using assms(5) by (auto simp: a64_get_at_def a64_loc_at_def rbind_eq_Inr)
  have "\<not> DWARF_IS_NULL_LOC l" using l(2) by (auto simp: a64_get_def)
  moreover have "length (a6_loc c) = A64_NUM_PRESERVED_REGS" using assms(1) by (simp add: a64_plain_frame_def)
  ultimately show ?thesis
    unfolding step_falls_back [OF assms(1,2)] step using l c1 cfa
    by (simp add: a64_link_register_step_def a64_loc_at_def a64_get_at_def c2_def Let_def sp)
qed

text \<open>After \<open>sub sp, sp, #16\<close> and \<open>str x19, [sp, #8]\<close>, the latter outside of the language.\<close>

theorem a64_step_by_link_witness:
  "\<exists>c'. a64_unw_step (Some a64_example_names) no_dwarf (a64_example_cursor (a64_example_space 0xf90007f3d10043ff 0xd503201fd503201f))
    = Inr (c', Inr True) \<and> a6_ip c' = 0x3000 \<and> a6_cfa c' = 0x7010"
proof -
  let ?c = "a64_example_cursor (a64_example_space 0xf90007f3d10043ff 0xd503201fd503201f)"
    and ?prog = "[Sub_sp 16 False, Other 0xf90007f3, Other 0xd503201f]"
  have words: "map a64_encode ?prog = [0xd10043ff, 0xf90007f3, 0xd503201f]" by (simp add: at_bit_def push_bit_eq_mult)
  have code: "executed (a6_as ?c) a64_example_names (a6_ip ?c) (map a64_encode ?prog)"
    unfolding words by (rule example_executed) simp_all
  have plain: "\<forall>i \<in> set ?prog. \<not> saves_record (a64_encode i)"
    using words by (simp add: saves_record_def)
  have known: "fst (fold track_stack_pointer (map a64_encode ?prog) (SP_UNCHANGED, 0)) \<noteq> SP_UNKNOWN"
    unfolding words by (simp add: track_stack_pointer_def a64_is_branch_def a64_imm12_def sp_decrement_def Let_def)
  have ok: "\<forall>i \<in> set ?prog. a64_op_ok i" by (simp add: writes_sp_def sp_writers_def)
  have total: "sum_list (map sp_moves ?prog) = - 16" by simp
  have "\<exists>c'. a64_unw_step (Some a64_example_names) no_dwarf ?c = Inr (c', Inr ((0x3000 :: unw_word) \<noteq> 0)) \<and> a6_ip c' = 0x3000
      \<and> a6_cfa c' = a6_cfa ?c - of_int (- 16)"
    using a64_step_by_link [OF example_frame(1) _ code plain example_frame(2), of no_dwarf] known ok unfolding total
    by (simp add: no_dwarf_def)
  moreover have "a6_cfa ?c = 0x7000" by (simp add: a64_example_cursor_def)
  ultimately show ?thesis by simp
qed

section \<open>Signal frames\<close>

text \<open>The pattern of the trampoline is a mask: a word of all ones is a signal frame.\<close>

lemma trampoline_mask:
  assumes "a6_ip c \<noteq> 0" "access_mem (a6_as c) (a6_ip c) = Inr (NOT 0)"
  shows "a64_is_signal_frame c = Inr True"
  using assms by (simp add: a64_is_signal_frame_def lift_acc_def)

text \<open>A record of a context that has no size is read for ever.\<close>

lemma empty_context_record:
  assumes "section_off < 4096" "dwarf_readu32 as (res_addr + section_off) = Inr (magic, a)"
    "dwarf_readu32 as (res_addr + section_off + 4) = Inr (0, b)" "magic \<noteq> 0" "magic \<noteq> 0x53564501"
  shows "iterate (a64_sve_body as res_addr) section_off = None"
  by (rule iterate_forever) (use assms in \<open>simp add: a64_sve_body_def\<close>)

end
