(* ===== verification/Spec2Isabelle.thy ===== *)
theory Spec2Isabelle
  imports ReadProps ExprProps FdeProps CfiProps RsCacheProps FindProps DynProps StepProps UnwindProps
    MempoolProps TraceProps RegsProps ExceptionProps ValidatorProps
    RegStatesProps DynRegisterProps ArmProps ElfProps A64Props
begin

text \<open>
  \<^bold>\<open>libunwind: the DWARF unwinder on x86-64, its symbol lookup, the exception tables of ARM and the frames of AArch64\<close>

  libunwind reconstructs call stacks. A cursor holds where the registers of one frame are saved;
  a step finds the unwind information that the compiler left for the frame's instruction address
  and computes from it where the registers of the caller are. This development models the path of
  such a step through the sources, from the bytes of the unwind information to the addresses of a
  backtrace, for an x86-64 Linux process or target on a little-endian host, in the library that
  supports remote unwinding, with \<open>.debug_frame\<close> support and with the default of checking
  the memory of the process before it is read.

  \<^bold>\<open>How C is represented\<close>

  Machine integers are words of their width; a register or an address is \<open>unw_word\<close>. A structure is
  a record, an enumeration or tagged union a datatype. A result is \<open>fault + 'a\<close> (theory \<open>Prelude\<close>):
  \<open>Err e\<close> is the return of \<open>-e\<close>, \<open>Aborted\<close> a failed assertion or \<open>abort\<close>, \<open>Out_of_bounds\<close>,
  \<open>Bad_shift\<close> and \<open>Bad_div\<close> are operations that C leaves undefined, and \<open>Diverged\<close> is a loop that
  never ends; every access to an array and every shift of the sources that may go wrong has such a
  branch. An operation that leaves a changed state also when it fails returns the state with its
  error as a value (\<open>attempt\<close>). Pointers into structures are copies or indices into the arrays they
  point into. A loop whose end the code does not ensure is a \<open>partial_function\<close> whose value is \<open>None\<close> when it
  does not end, and \<open>returns\<close> turns that into \<open>Diverged\<close>; the other loops recurse on a list, a
  number, or with a measure. There is no fuel.

  The memory and the registers of a target are reached through the accessors of its address space
  (\<open>addr_space\<close>), which are parameters, as are the allocator (a predicate on sizes or counts), the
  files of the loaded objects, the list of loaded objects that the C library reports, and the
  callback \<open>find_proc_info\<close> of a client. Debug output and errno are left out.

  \<^bold>\<open>Theories\<close>

    \<^item> \<open>Prelude\<close>, \<open>DwarfTypes\<close>, \<open>X86_64\<close>: results; the enumerations and structures of
      \<open>include/dwarf.h\<close>; registers, save locations, the cursor, \<open>dwarf_get\<close> and \<open>unw_get_reg\<close> of
      \<open>include/tdep-x86_64/libunwind_i.h\<close>, \<open>src/x86_64/Gregs.c\<close> and \<open>src/mi/Gget_reg.c\<close>.

    \<^item> \<open>DwarfRead\<close> (\<open>include/dwarf_i.h\<close>): fixed-width values, LEB128, encoded pointers, for the
      accessor build and the local-only build. \<open>DwarfReadLemmas\<close> proves the LEB128 loop once in the
      locale \<open>byte_source\<close>, interpreted for both; \<open>ReadProps\<close> has round trips, bounds and the
      agreement of the builds. \<open>Ram\<close> provides address spaces over a byte memory for examples.

    \<^item> \<open>Expr\<close> (\<open>src/dwarf/Gexpr.c\<close>): the evaluator of location expressions, one definition per group
      of operators. \<open>ExprStack\<close> states its value stack as the locale \<open>value_stack\<close>; \<open>ExprLemmas\<close> has
      initialisation, termination and the one way to leave the arrays, a \<open>DW_OP_bregx\<close> that the evaluation
      comes to with a negative number; \<open>ExprCompile\<close> a language of arithmetic expressions
      with its translation, against which \<open>ExprProps\<close> proves the evaluator correct.

    \<^item> \<open>Fde\<close> (\<open>src/dwarf/Gfde.c\<close>, \<open>src/dwarf/Gpe.c\<close>): CIEs and FDEs; \<open>FdeProps\<close> proves that parsing
      inverts an encoder.

    \<^item> \<open>Cfi\<close> (\<open>src/dwarf/Gparser.c\<close>): \<open>run_cfi_program\<close>, \<open>setup_fde\<close>, \<open>parse_fde\<close>. \<open>CfiLemmas\<close> has bounds
      and the stack of remembered states as the locale \<open>lifo\<close>; \<open>CfiTable\<close> the table machine of the
      DWARF standard, \<open>CfiRows\<close> the refinement for whole programs, \<open>CfiTermination\<close> the termination
      of programs that never lead back; \<open>CfiProps\<close> the properties.

    \<^item> \<open>RsCache\<close> (\<open>src/dwarf/Gparser.c\<close>, \<open>src/mi/flush_cache.c\<close>, \<open>src/mi/Gset_cache_size.c\<close>,
      \<open>src/mi/Gset_caching_policy.c\<close>): the cache of register states. \<open>RsCacheLemmas\<close> has the invariant of the hash
      chains, \<open>RsWindow\<close> the contract \<open>window_cache\<close> (the last additions are found) with its
      interpretation, \<open>RsCacheProps\<close> the properties.

    \<^item> \<open>FindTable\<close>, \<open>DebugFrame\<close>, \<open>FindProc\<close> (\<open>src/dwarf/Gfind_proc_info-lsb.c\<close>, \<open>src/dwarf/Gfind_proc_info_i.h\<close>,
      \<open>src/mi/Gdyn-extract.c\<close>): the binary searches, the index of \<open>.debug_frame\<close> and the search through
      the loaded objects. \<open>FindLemmas\<close> proves search and sort with the locale \<open>ordered_table\<close>,
      interpreted for tables in memory and in a target; \<open>FindProps\<close> the properties.

    \<^item> \<open>DynRemote\<close> (\<open>include/remote.h\<close>, \<open>src/mi/Gdyn-remote.c\<close>, \<open>src/mi/Gfind_dynamic_proc_info.c\<close>,
      \<open>src/mi/Gput_dynamic_unwind_info.c\<close>): unwind information that a target registers at run time;
      \<open>DynProps\<close> proves the search against a list laid out in the memory of the target.

    \<^item> \<open>DynRegister\<close> (\<open>src/mi/dyn-register.c\<close>, \<open>src/mi/dyn-cancel.c\<close>): the doubly linked list in which a process
      registers such information; \<open>DynRegisterProps\<close> proves that all histories of it implement an abstract
      list.

    \<^item> \<open>Step\<close> (\<open>src/dwarf/Gparser.c\<close>, \<open>src/x86_64/Gos-linux.c\<close>, \<open>src/x86_64/Gstash_frame.c\<close>): \<open>fetch_proc_info\<close>,
      \<open>find_reg_state\<close>, \<open>apply_reg_state\<close>, \<open>dwarf_step\<close>. \<open>StepLemmas\<close> states what a row of the table
      says of the caller (its CFA, its registers and its address) and that applying it implements that; \<open>StepCache\<close> that the cache delivers
      the rows of the tables; \<open>StepProps\<close> the properties.

    \<^item> \<open>RegStates\<close> (\<open>src/dwarf/Gparser.c\<close>, \<open>src/x86_64/Greg_states_iterate.c\<close>, \<open>src/x86_64/Gapply_reg_state.c\<close>,
      \<open>src/dwarf/Gget_proc_info_in_range.c\<close>): reporting all register states of a procedure to a callback
      and queries for a single frame. It has the lemmas that cut a run of a program into pieces;
      \<open>RegStatesProps\<close> proves that the reported ranges agree with the lookup of each address and that a
      callback sees them in order up to its first error.

    \<^item> \<open>Unwind\<close> (\<open>src/x86_64/init.h\<close>, \<open>src/x86_64/Ginit_local.c\<close>, \<open>src/x86_64/Gstep.c\<close>, \<open>src/mi/backtrace.c\<close>):
      initialisation, \<open>unw_step\<close> with its fallbacks, \<open>slow_backtrace\<close>. \<open>CfiColumn\<close> and \<open>Backtrace\<close> compose
      the parts: a call stack is an inductive relation over the registers, the stack memory and the
      bytes of the unwind information, and \<open>UnwindProps\<close> proves that the backtrace lists its return addresses.

    \<^item> \<open>Mempool\<close> (\<open>src/mi/mempool.c\<close>): the pools behind register states and CIE records. \<open>MempoolProps\<close>
      has an inductive relation for all histories of a pool, with the objects in use, and the
      invariant that no object is handed out twice.

    \<^item> \<open>Trace\<close> (\<open>src/x86_64/Gtrace.c\<close>, \<open>src/mi/backtrace.c\<close>): the thread's cache of frame descriptions, the
      fast trace and \<open>unw_backtrace\<close>. \<open>TraceLemmas\<close> has the invariant of the cache and the loop over a
      call stack; \<open>TraceProps\<close> the property that the fast and the slow way give the same addresses.

    \<^item> \<open>Regs\<close> (\<open>src/x86_64/Gregs.c\<close>, \<open>src/x86_64/Gresume.c\<close>, \<open>src/x86_64/Ginit.c\<close>): writing registers through
      the accessors, resuming a frame, and the accessors of the process itself over its memory and
      saved context. \<open>RegsLemmas\<close> states the contract of the accessors as the locale
      \<open>register_file\<close> and interprets it for the process; \<open>RegsProps\<close> the properties.

    \<^item> \<open>Exception\<close> (\<open>include/unwind.h\<close>, \<open>src/unwind\<close>): raising exceptions in two phases, forced unwinding,
      resuming, and what the routines of a program may ask of a frame. The routines are parameters that
      transform the state of an unwinding; a loop over frames is \<open>iterate\<close>. \<open>ExceptionLemmas\<close> states
      what stepping gives for each frame of a stack as the locale \<open>frame_chain\<close>, proves both phases in it
      and interprets it on the call stacks of \<open>Backtrace\<close>; \<open>ExceptionProps\<close> the properties.

    \<^item> \<open>Validator\<close> (\<open>src/mi/Gaddress_validator.c\<close>): the check behind the accessors of the process itself, with
      the probe through a pipe (the system calls are parameters) and the cache of validated pages for
      each thread or shared by all, the latter also as interleaved atomic operations.
      \<open>ValidatorLemmas\<close> states the contract of the caches as the locale \<open>page_cache\<close>, interprets it for
      both and proves the walk over the pages in it; \<open>ValidatorProps\<close> the properties.

    \<^item> \<open>ArmEx\<close>, \<open>ArmTable\<close> (\<open>src/arm/Gex_tables.c\<close>, \<open>include/tdep-arm\<close>): the exception tables of 32-bit ARM, a
      second format of unwind information: the interpreter of its instructions, their extraction from the
      entry of a procedure, the search of the index and of the loaded objects. \<open>ArmStep\<close> (\<open>src/arm/Gstep.c\<close>,
      \<open>src/arm/Gos-linux.c\<close>, \<open>src/arm/init.h\<close>, \<open>src/arm/Gregs.c\<close>): the cursor, signal frames, and the step with
      its fallbacks, where the step by DWARF of a 32-bit target is a parameter. \<open>ArmLemmas\<close> and
      \<open>ArmDecode\<close> give the instructions as a datatype with their encoding and their meaning and prove that
      decoding executes them, \<open>ArmProgram\<close> so for programs and the four forms of an entry,
      \<open>ArmSearch\<close> the search of the index by an invariant on positions, \<open>ArmSafe\<close> the bounds for any contents
      of the tables; \<open>ArmProps\<close> the properties. The instructions for VFP and iWMMXt registers are in the
      interpreter and the bounds, not in the datatype.

    \<^item> \<open>Maps\<close> (\<open>src/os-linux.h\<close>): the reader of \<open>/proc/PID/maps\<close>, whose buffer is refilled from a file that is a
      parameter. \<open>MapsLemmas\<close> gives the lines that the kernel prints as a record with its text and proves that
      scanning a line inverts that and that the buffer hands the lines out in order, for reads that cut the
      text within a line too.

    \<^item> \<open>Elf\<close>, \<open>ElfName\<close> (\<open>src/elfxx.c\<close>, \<open>src/elfxx.h\<close>, \<open>src/elfxx_i.h\<close>, \<open>src/os-linux.c\<close>): the sections and
      symbols in the image of a file, given by its bytes, the separate debug files, and the image of a mapping.
      \<open>NameQuery\<close> (\<open>src/mi/Gget_proc_name.c\<close>, \<open>src/mi/Gget_elf_filename.c\<close>): the queries for names, with the
      registered procedures. \<open>ElfLemmas\<close> reduces the lookup to the list of the functions of an image;
      \<open>ElfProps\<close> states the search of a list as the locale \<open>list_search\<close>, interprets it for the mappings and
      has the properties. Among functions that overlap, the lookup of a symbol takes the first and not the
      closest one.

    \<^item> \<open>A64Frame\<close>, \<open>A64Step\<close> (\<open>src/aarch64\<close>): AArch64, where a procedure without unwind information is left by
      what its instructions have done to the stack pointer and the frame record: the two automata over the
      instructions, the scan of a procedure, entries of the procedure linkage table, the cursor, signal
      frames and the step, where the step by DWARF is a parameter. \<open>A64Insn\<close> gives the
      instructions that move the stack pointer as a datatype with their encoding and their effect, and the
      classes of the architecture that can write it, independently of the code. \<open>A64Props\<close> proves that the scan
      folds the automata over the code, that the tracked offset is what the instructions have taken from the
      stack pointer, and where the two ways to step lead.

  \<^bold>\<open>Not modelled\<close>

  Mapping files and decompressing embedded debug information (parameters), ELF files of 32 bits,
  the clients for attached processes, core files and QNX (system calls and file formats), the assembly
  that installs a machine context, \<open>setjmp\<close>, the other operating systems, the rest of ARM and AArch64 (writing and
  resuming, the fast trace, its exception interface), and the other architectures.
\<close>

end
